(* ===== verification/Prelude.thy ===== *)
theory Prelude
  imports Main "HOL-Library.Word"
begin

text \<open>
  The base layer of the library: Rust's machine integers as words with their checked and
  saturating operations, 64-bit signed timestamps as bounded integers, the \<open>Result\<close> plumbing
  of the Rust sources (\<open>require!\<close>, \<open>ok_or(..)?\<close>, \<open>?\<close>) as continuation combinators with an
  inversion rule each, little-endian byte codecs, and the list and sum lemmas the component
  theories share. Nothing here is specific to the program.
\<close>

named_theorems num_simps \<open>facts that move machine arithmetic to \<open>nat\<close> arithmetic\<close>

named_theorems eval_simps \<open>code equations that evaluate handlers on concrete accounts\<close>


section \<open>Machine integers\<close>

type_synonym u8 = "8 word"
type_synonym u16 = "16 word"
type_synonym u32 = "32 word"
type_synonym u64 = "64 word"
type_synonym u128 = "128 word"
type_synonym i64 = int

definition checked_add :: "'a::len word \<Rightarrow> 'a word \<Rightarrow> 'a word option" where
  "checked_add a b = (if unat a + unat b < 2 ^ LENGTH('a) then Some (a + b) else None)"

definition checked_sub :: "'a::len word \<Rightarrow> 'a word \<Rightarrow> 'a word option" where
  "checked_sub a b = (if unat b \<le> unat a then Some (a - b) else None)"

definition checked_mul :: "'a::len word \<Rightarrow> 'a word \<Rightarrow> 'a word option" where
  "checked_mul a b = (if unat a * unat b < 2 ^ LENGTH('a) then Some (a * b) else None)"

definition checked_div :: "'a::len word \<Rightarrow> 'a word \<Rightarrow> 'a word option" where
  "checked_div a b = (if b = 0 then None else Some (a div b))"

definition saturating_sub :: "'a::len word \<Rightarrow> 'a word \<Rightarrow> 'a word" where
  "saturating_sub a b = (if unat b \<le> unat a then a - b else 0)"

text \<open>\<open>x.checked_shl(s)\<close> of a \<open>u32\<close>: \<open>None\<close> only when the shift reaches the width; bits
  shifted past the width are lost.\<close>

definition checked_shl_u32 :: "u32 \<Rightarrow> u32 \<Rightarrow> u32 option" where
  "checked_shl_u32 x s = (if unat s < 32 then Some (push_bit (unat s) x) else None)"

text \<open>
  \<open>(a as u128).checked_mul(b as u128)?.checked_div(d as u128)? as u64\<close>, the idiom every
  basis-point computation of the programs uses. The casts widen, the last one truncates.
\<close>

definition mul_div_u64 :: "u64 \<Rightarrow> u64 \<Rightarrow> u64 \<Rightarrow> u64 option" where
  "mul_div_u64 a b d =
     (case checked_mul (ucast a :: u128) (ucast b) of
        None \<Rightarrow> None
      | Some p \<Rightarrow> map_option ucast (checked_div p (ucast d)))"

lemma unat_lt_2p: "unat (a::'a::len word) < 2 ^ LENGTH('a)"
  by (rule unsigned_less)

lemma unat_u64_bound: "unat (a::u64) < 18446744073709551616"
  using unat_lt_2p [of a] by simp

lemma checked_add_Some [num_simps]:
  "checked_add a b = Some c \<longleftrightarrow> unat c = unat a + unat b"
proof
  assume "checked_add a b = Some c"
  then show "unat c = unat a + unat b"
    by (auto simp: checked_add_def unat_word_ariths split: if_splits)
next
  assume sum: "unat c = unat a + unat b"
  then have lt: "unat a + unat b < 2 ^ LENGTH('a)"
    using unat_lt_2p [of c] by simp
  with sum have "unat c = unat (a + b)"
    by (simp add: unat_word_ariths)
  then have "c = a + b" by (simp add: word_unat_eq_iff)
  with lt show "checked_add a b = Some c" by (simp add: checked_add_def)
qed

lemma checked_add_None:
  "checked_add a b = None \<longleftrightarrow> 2 ^ LENGTH('a) \<le> unat (a::'a::len word) + unat b"
  by (auto simp: checked_add_def)

lemma checked_sub_Some [num_simps]:
  "checked_sub a b = Some c \<longleftrightarrow> unat a = unat b + unat c"
proof
  assume "checked_sub a b = Some c"
  then show "unat a = unat b + unat c"
    by (auto simp: checked_sub_def unat_sub word_le_nat_alt split: if_splits)
next
  assume sum: "unat a = unat b + unat c"
  then have le: "unat b \<le> unat a" by simp
  then have "unat (a - b) = unat c"
    using sum by (simp add: unat_sub word_le_nat_alt)
  then have "c = a - b" by (simp add: word_unat_eq_iff)
  with le show "checked_sub a b = Some c" by (simp add: checked_sub_def)
qed

lemma checked_sub_None: "checked_sub a b = None \<longleftrightarrow> unat a < unat b"
  by (auto simp: checked_sub_def)

lemma unat_saturating_sub [num_simps]: "unat (saturating_sub a b) = unat a - unat b"
  by (simp add: saturating_sub_def unat_sub word_le_nat_alt)

lemma unat_min [num_simps]: "unat (min a b) = min (unat a) (unat b)"
  by (simp add: min_def word_le_nat_alt)

lemma unat_max [num_simps]: "unat (max a b) = max (unat a) (unat b)"
  by (simp add: max_def word_le_nat_alt)

lemmas word_order_nat [num_simps] = word_le_nat_alt word_less_nat_alt

lemma unat_ucast_u16_u64 [simp]: "unat (ucast (a::u16) :: u64) = unat a"
  by (simp add: unsigned_ucast_eq take_bit_nat_eq_self_iff less_le_trans [OF unat_lt_2p])

lemma unat_ucast_u64_u128 [simp]: "unat (ucast (a::u64) :: u128) = unat a"
  by (simp add: unsigned_ucast_eq take_bit_nat_eq_self_iff less_le_trans [OF unat_lt_2p])

lemma unat_ucast_u16_u128 [simp]: "unat (ucast (a::u16) :: u128) = unat a"
  by (simp add: unsigned_ucast_eq take_bit_nat_eq_self unat_lt_2p [THEN less_le_trans])

lemma unat_u16_bound: "unat (a::u16) < 65536"
  using unat_lt_2p [of a] by simp

lemma mul_div_u64_value:
  assumes d: "0 < unat d" and fits: "unat a * unat b div unat d < 2 ^ 64"
  shows "\<exists>r. mul_div_u64 a b d = Some r \<and> unat r = unat a * unat b div unat d"
proof -
  let ?A = "ucast a :: u128" and ?B = "ucast b :: u128" and ?D = "ucast d :: u128"
  have "unat a * unat b < 2 ^ 64 * 2 ^ 64"
    by (rule mult_strict_mono) (use unat_u64_bound [of a] unat_u64_bound [of b] in auto)
  then have lt: "unat a * unat b < 2 ^ 128" by (simp flip: power_add)
  then have prod: "unat (?A * ?B) = unat a * unat b"
    by (simp add: unat_word_ariths)
  have nz: "?D \<noteq> 0"
    using d by (metis unat_ucast_u64_u128 unsigned_0 less_numeral_extra(3))
  have quot: "unat ((?A * ?B) div ?D) = unat a * unat b div unat d"
    by (simp add: unat_div prod)
  have "unat (ucast ((?A * ?B) div ?D) :: u64) = unat a * unat b div unat d"
    using fits by (simp add: unsigned_ucast_eq quot take_bit_nat_eq_self)
  moreover have "mul_div_u64 a b d = Some (ucast ((?A * ?B) div ?D))"
    using lt nz by (simp add: mul_div_u64_def checked_mul_def checked_div_def)
  ultimately show ?thesis by blast
qed

text \<open>A basis-point share never exceeds what it is a share of, so it always fits.\<close>

lemma mul_div_le_nat:
  fixes a b d :: nat
  assumes "b \<le> d"
  shows "a * b div d \<le> a"
proof (cases "d = 0")
  case False
  have "a * b div d \<le> a * d div d"
    using assms by (intro div_le_mono mult_le_mono) auto
  with False show ?thesis by simp
qed simp

lemma mul_div_u64_share:
  assumes "0 < unat d" and "unat b \<le> unat d"
  shows "\<exists>r. mul_div_u64 a b d = Some r \<and> unat r = unat a * unat b div unat d"
proof (rule mul_div_u64_value)
  show "0 < unat d" by fact
  have "unat a * unat b div unat d \<le> unat a"
    by (rule mul_div_le_nat) fact
  then show "unat a * unat b div unat d < 2 ^ 64"
    using unat_u64_bound [of a] by simp
qed

lemma mul_div_u64_Some_share:
  assumes "mul_div_u64 a b d = Some r" and "0 < unat d" and "unat b \<le> unat d"
  shows "unat r = unat a * unat b div unat d"
  using mul_div_u64_share [of d b a] assms by auto


section \<open>Signed 64-bit timestamps\<close>

definition I64_MIN :: i64 where "I64_MIN = - 9223372036854775808"
definition I64_MAX :: i64 where "I64_MAX = 9223372036854775807"

definition in_i64 :: "int \<Rightarrow> bool" where
  "in_i64 x \<longleftrightarrow> I64_MIN \<le> x \<and> x \<le> I64_MAX"

definition checked_add_i64 :: "i64 \<Rightarrow> i64 \<Rightarrow> i64 option" where
  "checked_add_i64 a b = (if in_i64 (a + b) then Some (a + b) else None)"

definition checked_sub_i64 :: "i64 \<Rightarrow> i64 \<Rightarrow> i64 option" where
  "checked_sub_i64 a b = (if in_i64 (a - b) then Some (a - b) else None)"

definition saturating_sub_i64 :: "i64 \<Rightarrow> i64 \<Rightarrow> i64" where
  "saturating_sub_i64 a b = max I64_MIN (min I64_MAX (a - b))"

lemma checked_add_i64_Some [num_simps]:
  "checked_add_i64 a b = Some c \<longleftrightarrow> c = a + b \<and> in_i64 c"
  by (auto simp: checked_add_i64_def)

lemma checked_sub_i64_Some [num_simps]:
  "checked_sub_i64 a b = Some c \<longleftrightarrow> c = a - b \<and> in_i64 c"
  by (auto simp: checked_sub_i64_def)


section \<open>Results\<close>

text \<open>
  \<open>require b e k\<close> is \<open>require!(b, e)\<close> followed by \<open>k\<close>; \<open>ok_or o e k\<close> is
  \<open>o.ok_or(e)?\<close> with the value bound in \<open>k\<close>; \<open>and_then m k\<close> is \<open>m?\<close> with the value
  bound in \<open>k\<close>. Each has one rule for success and one for failure, so that a successful run
  of a handler unfolds into the conjunction of everything it checked.
\<close>

definition require :: "bool \<Rightarrow> 'e \<Rightarrow> 'e + 'a \<Rightarrow> 'e + 'a" where
  "require b e k = (if b then k else Inl e)"

definition ok_or :: "'b option \<Rightarrow> 'e \<Rightarrow> ('b \<Rightarrow> 'e + 'a) \<Rightarrow> 'e + 'a" where
  "ok_or x e k = (case x of None \<Rightarrow> Inl e | Some y \<Rightarrow> k y)"

definition and_then :: "'e + 'b \<Rightarrow> ('b \<Rightarrow> 'e + 'a) \<Rightarrow> 'e + 'a" where
  "and_then m k = (case m of Inl e \<Rightarrow> Inl e | Inr y \<Rightarrow> k y)"

lemma require_Inr [simp]: "require b e k = Inr x \<longleftrightarrow> b \<and> k = Inr x"
  by (simp add: require_def)

lemma require_Inl: "require b e k = Inl f \<longleftrightarrow> \<not> b \<and> f = e \<or> b \<and> k = Inl f"
  by (auto simp: require_def)

lemma require_True [simp]: "require True e k = k"
  by (simp add: require_def)

lemma require_False [simp]: "require False e k = Inl e"
  by (simp add: require_def)

lemma ok_or_Inr [simp]: "ok_or m e k = Inr x \<longleftrightarrow> (\<exists>y. m = Some y \<and> k y = Inr x)"
  by (auto simp: ok_or_def split: option.splits)

lemma ok_or_Some [simp]: "ok_or (Some y) e k = k y"
  by (simp add: ok_or_def)

lemma ok_or_None [simp]: "ok_or None e k = Inl e"
  by (simp add: ok_or_def)

lemma and_then_Inr [simp]: "and_then m k = Inr x \<longleftrightarrow> (\<exists>y. m = Inr y \<and> k y = Inr x)"
  by (auto simp: and_then_def split: sum.splits)

lemma and_then_Inr_left [simp]: "and_then (Inr y) k = k y"
  by (simp add: and_then_def)

lemma and_then_Inl_left [simp]: "and_then (Inl e) k = Inl e"
  by (simp add: and_then_def)


section \<open>Little-endian codecs\<close>

fun le_nat :: "u8 list \<Rightarrow> nat" where
  "le_nat [] = 0"
| "le_nat (b # bs) = unat b + 256 * le_nat bs"

fun le_bytes :: "nat \<Rightarrow> nat \<Rightarrow> u8 list" where
  "le_bytes 0 x = []"
| "le_bytes (Suc n) x = word_of_nat (x mod 256) # le_bytes n (x div 256)"

lemma length_le_bytes [simp]: "length (le_bytes n x) = n"
  by (induction n arbitrary: x) auto

lemma le_nat_le_bytes: "le_nat (le_bytes n x) = x mod 256 ^ n"
proof (induction n arbitrary: x)
  case 0
  show ?case by simp
next
  case (Suc n)
  have "unat (word_of_nat (x mod 256) :: u8) = x mod 256"
    by (simp add: unat_of_nat)
  then have "le_nat (le_bytes (Suc n) x) = x mod 256 + 256 * (x div 256 mod 256 ^ n)"
    by (simp add: Suc.IH)
  also have "\<dots> = x mod 256 ^ Suc n"
    by (simp add: mod_mult2_eq)
  finally show ?case .
qed

lemma le_nat_replicate_0 [simp]: "le_nat (replicate n 0) = 0"
  by (induction n) auto

lemma le_nat_bound: "le_nat bs < 256 ^ length bs"
proof (induction bs)
  case (Cons b bs)
  have "unat b < 256" using unat_lt_2p [of b] by simp
  with Cons.IH show ?case by simp
qed simp

definition u64_to_le_bytes :: "u64 \<Rightarrow> u8 list" where
  "u64_to_le_bytes x = le_bytes 8 (unat x)"

definition u64_from_le_bytes :: "u8 list \<Rightarrow> u64" where
  "u64_from_le_bytes bs = word_of_nat (le_nat bs)"

definition u32_to_le_bytes :: "u32 \<Rightarrow> u8 list" where
  "u32_to_le_bytes x = le_bytes 4 (unat x)"

definition i64_to_le_bytes :: "i64 \<Rightarrow> u8 list" where
  "i64_to_le_bytes x = le_bytes 8 (nat (x mod 2 ^ 64))"

definition i64_from_le_bytes :: "u8 list \<Rightarrow> i64" where
  "i64_from_le_bytes bs =
     (let n = int (le_nat bs) in if n < 2 ^ 63 then n else n - 2 ^ 64)"

lemma length_u64_to_le_bytes [simp]: "length (u64_to_le_bytes x) = 8"
  by (simp add: u64_to_le_bytes_def)

lemma length_u32_to_le_bytes [simp]: "length (u32_to_le_bytes x) = 4"
  by (simp add: u32_to_le_bytes_def)

lemma length_i64_to_le_bytes [simp]: "length (i64_to_le_bytes x) = 8"
  by (simp add: i64_to_le_bytes_def)

lemma u64_le_bytes_roundtrip [simp]: "u64_from_le_bytes (u64_to_le_bytes x) = x"
proof -
  have "unat x mod 256 ^ 8 = unat x"
    using unat_u64_bound [of x] by simp
  then show ?thesis
    by (simp add: u64_from_le_bytes_def u64_to_le_bytes_def le_nat_le_bytes del: power_numeral)
qed

lemma i64_le_bytes_roundtrip:
  assumes "in_i64 x"
  shows "i64_from_le_bytes (i64_to_le_bytes x) = x"
proof -
  have lt: "nat (x mod 2 ^ 64) < 256 ^ 8" by (simp add: nat_less_iff)
  then have "int (le_nat (i64_to_le_bytes x)) = x mod 2 ^ 64"
    by (simp add: i64_to_le_bytes_def le_nat_le_bytes)
  moreover have "x mod 2 ^ 64 = (if x < 0 then x + 2 ^ 64 else x)"
  proof (cases "x < 0")
    case True
    then have "x mod 2 ^ 64 = (x + 2 ^ 64) mod 2 ^ 64" by simp
    also have "\<dots> = x + 2 ^ 64"
      using assms True by (intro mod_pos_pos_trivial) (auto simp: in_i64_def I64_MIN_def)
    finally show ?thesis using True by simp
  qed (use assms in \<open>simp add: in_i64_def I64_MAX_def\<close>)
  ultimately show ?thesis
    using assms by (auto simp: i64_from_le_bytes_def Let_def in_i64_def I64_MIN_def I64_MAX_def)
qed


section \<open>Lists and sums\<close>

text \<open>\<open>xs.iter().position(|a| *a == x)\<close>\<close>

fun position :: "'a \<Rightarrow> 'a list \<Rightarrow> nat option" where
  "position x [] = None"
| "position x (y # ys) = (if y = x then Some 0 else map_option Suc (position x ys))"

lemma position_Some:
  "position x xs = Some i \<Longrightarrow> i < length xs \<and> xs ! i = x"
  by (induction xs arbitrary: i) (auto split: if_splits)

lemma position_None [simp]: "position x xs = None \<longleftrightarrow> x \<notin> set xs"
  by (induction xs) auto

lemma position_nth:
  "distinct xs \<Longrightarrow> i < length xs \<Longrightarrow> position (xs ! i) xs = Some i"
proof (induction xs arbitrary: i)
  case (Cons x xs)
  then show ?case by (cases i) auto
qed simp

text \<open>\<open>xs.get(i)\<close>\<close>

definition list_get :: "'a list \<Rightarrow> nat \<Rightarrow> 'a option" where
  "list_get xs i = (if i < length xs then Some (xs ! i) else None)"

text \<open>A sum over a finite index type after one entry of the table changes.\<close>

lemma sum_upd:
  fixes g :: "'k::finite \<Rightarrow> 'v \<Rightarrow> nat"
  shows "(\<Sum>r\<in>UNIV. g r ((f(x := y)) r)) + g x (f x) = (\<Sum>r\<in>UNIV. g r (f r)) + g x y"
proof -
  have split: "(\<Sum>r\<in>UNIV. h r) = h x + (\<Sum>r\<in>UNIV - {x}. h r)" for h :: "'k \<Rightarrow> nat"
    by (rule sum.remove) auto
  have "(\<Sum>r\<in>UNIV - {x}. g r ((f(x := y)) r)) = (\<Sum>r\<in>UNIV - {x}. g r (f r))"
    by (rule sum.cong) auto
  then show ?thesis
    using split [of "\<lambda>r. g r ((f(x := y)) r)"] split [of "\<lambda>r. g r (f r)"] by simp
qed

lemma sum_member_le:
  fixes g :: "'k::finite \<Rightarrow> nat"
  shows "g x \<le> (\<Sum>r\<in>UNIV. g r)"
  by (rule member_le_sum) auto

text \<open>The same over the finite domain of a partial map, an absent key weighing nothing.\<close>

definition map_total :: "('v \<Rightarrow> nat) \<Rightarrow> ('k \<rightharpoonup> 'v) \<Rightarrow> nat" where
  "map_total h m = (\<Sum>k\<in>dom m. h (the (m k)))"

lemma map_total_upd:
  assumes "finite (dom m)"
  shows "map_total h (m(k \<mapsto> v)) + (case m k of None \<Rightarrow> 0 | Some u \<Rightarrow> h u) = map_total h m + h v"
proof -
  let ?D = "dom m - {k}"
  have fin: "finite ?D" using assms by simp
  have new: "map_total h (m(k \<mapsto> v)) = h v + (\<Sum>x\<in>?D. h (the (m x)))"
  proof -
    have "map_total h (m(k \<mapsto> v)) = (\<Sum>x\<in>insert k ?D. h (the ((m(k \<mapsto> v)) x)))"
      by (simp add: map_total_def insert_Diff_single)
    also have "\<dots> = h v + (\<Sum>x\<in>?D. h (the ((m(k \<mapsto> v)) x)))"
      using fin by (subst sum.insert) simp_all
    also have "(\<Sum>x\<in>?D. h (the ((m(k \<mapsto> v)) x))) = (\<Sum>x\<in>?D. h (the (m x)))"
      by (rule sum.cong) auto
    finally show ?thesis .
  qed
  show ?thesis
  proof (cases "m k")
    case None
    then have "?D = dom m" by auto
    with new None show ?thesis by (simp add: map_total_def)
  next
    case (Some u)
    then have "map_total h m = h u + (\<Sum>x\<in>?D. h (the (m x)))"
      using assms by (simp add: map_total_def sum.remove [of "dom m" k] domI)
    with new Some show ?thesis by simp
  qed
qed

lemma map_total_member:
  assumes "finite (dom m)" and "m k = Some v"
  shows "h v \<le> map_total h m"
  using member_le_sum [of k "dom m" "\<lambda>x. h (the (m x))"] assms
  by (auto simp: map_total_def dom_def)


section \<open>Transition systems\<close>

text \<open>The states a system of initial states and steps can be in, and the induction principle
  for invariants as an interface: a program theory proves the two laws for its own steps.\<close>

inductive reachable :: "('s \<Rightarrow> bool) \<Rightarrow> ('s \<Rightarrow> 's \<Rightarrow> bool) \<Rightarrow> 's \<Rightarrow> bool" for init step where
  reachable_init: "init s \<Longrightarrow> reachable init step s"
| reachable_step: "reachable init step s \<Longrightarrow> step s t \<Longrightarrow> reachable init step t"

lemma reachable_steps: "reachable init step s \<Longrightarrow> step\<^sup>*\<^sup>* s t \<Longrightarrow> reachable init step t"
  by (rotate_tac, induction rule: rtranclp_induct) (auto intro: reachable_step)

locale invariant_system =
  fixes init :: "'s \<Rightarrow> bool" and step :: "'s \<Rightarrow> 's \<Rightarrow> bool" and inv :: "'s \<Rightarrow> bool"
  assumes init_inv: "init s \<Longrightarrow> inv s"
    and step_inv: "inv s \<Longrightarrow> step s t \<Longrightarrow> inv t"
begin

lemma reachable_inv: "reachable init step s \<Longrightarrow> inv s"
  by (induction rule: reachable.induct) (auto intro: init_inv step_inv)

lemma path_inv: "step\<^sup>*\<^sup>* s t \<Longrightarrow> inv s \<Longrightarrow> inv t"
  by (induction rule: rtranclp_induct) (auto intro: step_inv)

end

end
