(* ===== verification/Solana.thy ===== *)
theory Solana
  imports Prelude
begin

text \<open>
  The chain the programs run on, as far as their sources use it: addresses (wallets, program
  ids, and program-derived addresses as terms over their seeds), transaction errors, token
  accounts and mints, and the token program. The token program is third-party code: it is the
  field \<open>transfer_checked\<close> of an environment record, and what the programs rely on is the
  locale \<open>token_env\<close>, whose two laws restate its documentation. A reference token program
  interprets the locale.

  A program-derived address is modelled as the term of its seeds, so that two addresses are
  equal exactly when program and seeds are: the runtime's collision resistance, idealised.
\<close>


section \<open>Addresses\<close>

datatype program_id =
    SplTokenProgram | Token2022Program | EscrowProgram | StakingProgram | GovernanceProgram
  | PresaleProgram | AssociatedTokenProgram | OtherProgram nat

datatype pubkey =
    Key "256 word"
  | Prog program_id
  | Pda program_id "pda_seed list"
and pda_seed =
    SeedBytes string
  | SeedKey pubkey
  | SeedU64 u64
  | SeedU8 u8

abbreviation default_pubkey :: pubkey where
  "default_pubkey \<equiv> Key 0"

text \<open>A program-derived address has no private key: only its own program signs for it.\<close>

fun signs_for :: "program_id \<Rightarrow> pubkey \<Rightarrow> bool" where
  "signs_for p (Pda q s) = (p = q)"
| "signs_for p (Key x) = False"
| "signs_for p (Prog q) = False"


section \<open>Transaction errors\<close>

text \<open>
  A program's own error codes, the account-constraint failures of the Anchor framework, a
  refusal by the token program or by another called program, and a Rust panic (the workspace builds with
  \<open>overflow-checks = true\<close>, so unchecked arithmetic that overflows aborts). A failing
  instruction has no effect on the chain, so an error carries no state.
\<close>

datatype 'e tx_error =
    Program 'e
  | AccountNotInitialized
  | AccountInUse
  | ConstraintSeeds
  | ConstraintRaw
  | ConstraintHasOne
  | ConstraintAddress
  | ConstraintTokenMint
  | ConstraintTokenOwner
  | ConstraintMintTokenProgram
  | InvalidProgramId
  | InvalidAccountData
  | TokenError
  | CpiFailed
  | Panicked


section \<open>Token accounts\<close>

record token_account =
  ta_mint :: pubkey
  ta_owner :: pubkey
  ta_amount :: u64
  ta_delegate :: "pubkey option"
  ta_frozen :: bool

record mint_account =
  mi_decimals :: u8
  mi_program :: pubkey

type_synonym ledger = "pubkey \<rightharpoonup> token_account"
type_synonym mints = "pubkey \<rightharpoonup> mint_account"

record transfer_ctx =
  tc_from :: pubkey
  tc_mint :: pubkey
  tc_to :: pubkey
  tc_authority :: pubkey

type_synonym transfer_fn =
  "pubkey \<Rightarrow> transfer_ctx \<Rightarrow> u64 \<Rightarrow> u8 \<Rightarrow> mints \<Rightarrow> ledger \<Rightarrow> ledger option"

definition balance :: "ledger \<Rightarrow> pubkey \<Rightarrow> nat" where
  "balance L k = (case L k of None \<Rightarrow> 0 | Some t \<Rightarrow> unat (ta_amount t))"

lemma balance_Some [simp]: "L k = Some t \<Longrightarrow> balance L k = unat (ta_amount t)"
  by (simp add: balance_def)

lemma balance_None [simp]: "L k = None \<Longrightarrow> balance L k = 0"
  by (simp add: balance_def)

lemma balance_upd [simp]:
  "balance (L(k \<mapsto> t)) x = (if x = k then unat (ta_amount t) else balance L x)"
  by (simp add: balance_def)

text \<open>Transfers keep every account's identity: its mint and owner, and no new delegate.\<close>

definition same_account :: "token_account \<Rightarrow> token_account \<Rightarrow> bool" where
  "same_account t t' \<longleftrightarrow> ta_mint t' = ta_mint t \<and> ta_owner t' = ta_owner t
     \<and> (ta_delegate t' = ta_delegate t \<or> ta_delegate t' = None) \<and> ta_frozen t' = ta_frozen t"

definition same_accounts :: "ledger \<Rightarrow> ledger \<Rightarrow> bool" where
  "same_accounts L L' \<longleftrightarrow> (\<forall>k. rel_option same_account (L k) (L' k))"

lemma same_account_refl [simp]: "same_account t t"
  by (simp add: same_account_def)

lemma same_account_trans: "same_account t u \<Longrightarrow> same_account u v \<Longrightarrow> same_account t v"
  by (auto simp: same_account_def)

lemma same_accounts_refl [simp]: "same_accounts L L"
  by (simp add: same_accounts_def option.rel_refl)

lemma same_accounts_Some:
  assumes "same_accounts L L'" and "L k = Some t"
  obtains t' where "L' k = Some t'" and "same_account t t'"
  using assms(1) [unfolded same_accounts_def, rule_format, of k] assms(2)
  by (auto simp: option_rel_Some1)

lemma same_accounts_None:
  assumes "same_accounts L L'"
  shows "L' k = None \<longleftrightarrow> L k = None"
  using assms [unfolded same_accounts_def, rule_format, of k]
  by (cases "L k"; cases "L' k") auto

lemma same_accounts_trans:
  assumes "same_accounts L M" and "same_accounts M N"
  shows "same_accounts L N"
  unfolding same_accounts_def
proof
  fix k
  show "rel_option same_account (L k) (N k)"
    using assms [unfolded same_accounts_def, THEN spec, of k]
    by (cases "L k"; cases "M k"; cases "N k") (auto intro: same_account_trans)
qed

lemma same_accounts_upd:
  assumes "same_accounts L L'" and "L k = Some t" and "same_account t t'"
  shows "same_accounts L (L'(k \<mapsto> t'))"
  using assms by (simp add: same_accounts_def)

text \<open>What a successful transfer of \<open>a\<close> did to the ledger.\<close>

definition moved :: "ledger \<Rightarrow> pubkey \<Rightarrow> pubkey \<Rightarrow> u64 \<Rightarrow> ledger \<Rightarrow> bool" where
  "moved L from to a L' \<longleftrightarrow>
     same_accounts L L' \<and> unat a \<le> balance L from \<and>
     (\<forall>k. balance L' k + (if k = from then unat a else 0)
        = balance L k + (if k = to then unat a else 0))"

lemma moved_balance:
  "moved L from to a L' \<Longrightarrow>
   balance L' k + (if k = from then unat a else 0) = balance L k + (if k = to then unat a else 0)"
  by (simp add: moved_def)

lemma moved_other: "moved L from to a L' \<Longrightarrow> k \<noteq> from \<Longrightarrow> balance L k \<le> balance L' k"
  using moved_balance [of L "from" to a L' k] by (simp split: if_splits)

lemma moved_untouched:
  "moved L from to a L' \<Longrightarrow> k \<noteq> from \<Longrightarrow> k \<noteq> to \<Longrightarrow> balance L' k = balance L k"
  using moved_balance [of L "from" to a L' k] by simp

lemma moved_from: "moved L from to a L' \<Longrightarrow> balance L from \<le> balance L' from + unat a"
  using moved_balance [of L "from" to a L' "from"] by (simp split: if_splits)

lemma moved_same: "moved L from to a L' \<Longrightarrow> same_accounts L L'"
  by (simp add: moved_def)


section \<open>Program-owned token accounts\<close>

text \<open>
  What the rest of the chain may do to a program's token accounts: add tokens to them. It can
  neither sign for the program's addresses nor create accounts at them.
\<close>

definition outside :: "program_id \<Rightarrow> ledger \<Rightarrow> ledger \<Rightarrow> bool" where
  "outside p L L' \<longleftrightarrow>
     (\<forall>k t. L k = Some t \<and> signs_for p (ta_owner t) \<and> ta_delegate t = None \<longrightarrow>
        (\<exists>t'. L' k = Some t' \<and> same_account t t' \<and> unat (ta_amount t) \<le> unat (ta_amount t'))) \<and>
     (\<forall>k. L k = None \<and> signs_for p k \<longrightarrow> L' k = None)"

text \<open>A token account of the mint under the owner, with no delegate.\<close>

definition held :: "ledger \<Rightarrow> pubkey \<Rightarrow> pubkey \<Rightarrow> pubkey \<Rightarrow> bool" where
  "held L k mint owner \<longleftrightarrow>
     (\<exists>t. L k = Some t \<and> ta_mint t = mint \<and> ta_owner t = owner \<and> ta_delegate t = None)"

lemma heldE:
  assumes "held L k mint owner"
  obtains t where "L k = Some t" and "ta_mint t = mint" and "ta_owner t = owner"
    and "ta_delegate t = None"
  using assms by (auto simp: held_def)

lemma held_same:
  assumes "held L k mint owner" and "same_accounts L L'"
  shows "held L' k mint owner"
proof -
  from assms(1) obtain t where t: "L k = Some t" "ta_mint t = mint" "ta_owner t = owner"
      "ta_delegate t = None"
    by (rule heldE)
  from assms(2) t(1) obtain t' where "L' k = Some t'" "same_account t t'"
    by (rule same_accounts_Some)
  with t show ?thesis by (auto simp: held_def same_account_def)
qed

lemma held_outside:
  assumes "held L k mint owner" and "outside p L L'" and "signs_for p owner"
  shows "held L' k mint owner" and "balance L k \<le> balance L' k"
proof -
  from assms(1) obtain t where t: "L k = Some t" "ta_mint t = mint" "ta_owner t = owner"
      "ta_delegate t = None"
    by (rule heldE)
  with assms(2,3) obtain t' where "L' k = Some t'" "same_account t t'"
      "unat (ta_amount t) \<le> unat (ta_amount t')"
    unfolding outside_def by blast
  with t show "held L' k mint owner" "balance L k \<le> balance L' k"
    by (auto simp: held_def same_account_def)
qed

lemma held_unique: "held L k m p \<Longrightarrow> held L k n q \<Longrightarrow> m = n \<and> p = q"
  by (auto simp: held_def)

lemma outside_refl [simp]: "outside p L L"
  by (auto simp: outside_def)

lemma outside_trans:
  assumes "outside p L M" and "outside p M N"
  shows "outside p L N"
  unfolding outside_def
proof (intro conjI allI impI)
  fix k t assume t: "L k = Some t \<and> signs_for p (ta_owner t) \<and> ta_delegate t = None"
  with assms(1) obtain t1 where t1: "M k = Some t1" "same_account t t1"
      "unat (ta_amount t) \<le> unat (ta_amount t1)"
    unfolding outside_def by blast
  then have "signs_for p (ta_owner t1) \<and> ta_delegate t1 = None"
    using t by (auto simp: same_account_def)
  with assms(2) t1(1) obtain t2 where t2: "N k = Some t2" "same_account t1 t2"
      "unat (ta_amount t1) \<le> unat (ta_amount t2)"
    unfolding outside_def by blast
  with t1 show "\<exists>t'. N k = Some t' \<and> same_account t t' \<and> unat (ta_amount t) \<le> unat (ta_amount t')"
    by (meson le_trans same_account_trans)
qed (use assms in \<open>auto simp: outside_def\<close>)


section \<open>The token program\<close>

record env =
  transfer_checked :: transfer_fn
  sha256 :: "u8 list \<Rightarrow> u8 list"
  bump_of :: "pubkey \<Rightarrow> u8"
  key_bytes :: "pubkey \<Rightarrow> u8 list"
  key_of_bytes :: "u8 list \<Rightarrow> pubkey"
  account_discriminator :: "string \<Rightarrow> u8 list"

text \<open>A key whose 32-byte wire form reads back as itself.\<close>

definition wire_key :: "env \<Rightarrow> pubkey \<Rightarrow> bool" where
  "wire_key env k \<longleftrightarrow> length (key_bytes env k) = 32 \<and> key_of_bytes env (key_bytes env k) = k"

text \<open>
  Soundness: a transfer that succeeds moved exactly the amount between two accounts of the
  mint, on the authority of the source's owner or delegate. (This is \<open>TransferChecked\<close> of
  SPL Token, and of Token-2022 for a mint without the transfer-fee extension.) Completeness:
  a transfer the owner authorises between unfrozen accounts that hold enough succeeds.
\<close>

locale token_env =
  fixes E :: env
  assumes transfer_sound:
    "transfer_checked E tp c a d M L = Some L' \<Longrightarrow>
       moved L (tc_from c) (tc_to c) a L' \<and>
       (\<exists>s t. L (tc_from c) = Some s \<and> L (tc_to c) = Some t
          \<and> ta_mint s = tc_mint c \<and> ta_mint t = tc_mint c
          \<and> (ta_owner s = tc_authority c \<or> ta_delegate s = Some (tc_authority c)))"
  and transfer_complete:
    "\<lbrakk> M (tc_mint c) = Some mi; mi_program mi = tp; mi_decimals mi = d;
       L (tc_from c) = Some s; L (tc_to c) = Some t;
       ta_mint s = tc_mint c; ta_mint t = tc_mint c; ta_owner s = tc_authority c;
       \<not> ta_frozen s; \<not> ta_frozen t; unat a \<le> unat (ta_amount s);
       unat (ta_amount t) + unat a < 2 ^ 64 \<rbrakk>
     \<Longrightarrow> transfer_checked E tp c a d M L \<noteq> None"

text \<open>The reference token program: the checks in the order the token program makes them.\<close>

definition ref_transfer_checked :: transfer_fn where
  "ref_transfer_checked tp c a d M L =
     (case M (tc_mint c) of None \<Rightarrow> None | Some mi \<Rightarrow>
      case L (tc_from c) of None \<Rightarrow> None | Some s \<Rightarrow>
      case L (tc_to c) of None \<Rightarrow> None | Some t \<Rightarrow>
        if mi_program mi \<noteq> tp \<or> mi_decimals mi \<noteq> d \<or> ta_frozen s \<or> ta_frozen t
           \<or> ta_mint s \<noteq> tc_mint c \<or> ta_mint t \<noteq> tc_mint c
           \<or> \<not> (ta_owner s = tc_authority c \<or> ta_delegate s = Some (tc_authority c))
           \<or> unat (ta_amount s) < unat a
        then None
        else if tc_from c = tc_to c then Some L
        else (case checked_add (ta_amount t) a of None \<Rightarrow> None | Some r \<Rightarrow>
                Some (L(tc_from c \<mapsto> s\<lparr>ta_amount := ta_amount s - a\<rparr>,
                        tc_to c \<mapsto> t\<lparr>ta_amount := r\<rparr>))))"

definition ref_env :: env where
  "ref_env = \<lparr> transfer_checked = ref_transfer_checked, sha256 = (\<lambda>bs. replicate 32 0),
     bump_of = (\<lambda>k. 255),
     key_bytes = (\<lambda>k. case k of Key x \<Rightarrow> le_bytes 32 (unat x) | _ \<Rightarrow> replicate 32 0),
     key_of_bytes = (\<lambda>bs. Key (word_of_nat (le_nat bs))),
     account_discriminator =
       (\<lambda>n. if n = ''StakeRecoveryClaim'' then [209, 252, 118, 180, 132, 41, 13, 159]
             else replicate 8 1) \<rparr>"

lemma ref_wire_key [simp]: "wire_key ref_env (Key x)"
proof -
  have "unat x < 256 ^ 32" using unat_lt_2p [of x] by simp
  then show ?thesis by (simp add: wire_key_def ref_env_def le_nat_le_bytes)
qed

lemma ref_transfer_moved:
  assumes "ref_transfer_checked tp c a d M L = Some L'"
  shows "moved L (tc_from c) (tc_to c) a L'"
proof -
  from assms obtain s t where st: "L (tc_from c) = Some s" "L (tc_to c) = Some t"
      "unat a \<le> unat (ta_amount s)"
    by (auto simp: ref_transfer_checked_def split: option.splits if_splits)
  show ?thesis
  proof (cases "tc_from c = tc_to c")
    case True
    with assms have "L' = L"
      by (auto simp: ref_transfer_checked_def split: option.splits if_splits)
    with True st show ?thesis by (auto simp: moved_def)
  next
    case False
    with assms st obtain r where r: "unat r = unat (ta_amount t) + unat a"
        and L': "L' = L(tc_from c \<mapsto> s\<lparr>ta_amount := ta_amount s - a\<rparr>,
                        tc_to c \<mapsto> t\<lparr>ta_amount := r\<rparr>)"
      by (auto simp: ref_transfer_checked_def checked_add_Some split: option.splits if_splits)
    have "unat (ta_amount s - a) + unat a = unat (ta_amount s)"
      using st(3) by (simp add: unat_sub word_le_nat_alt)
    then show ?thesis
      using False st r unfolding moved_def L'
      by (auto intro!: same_accounts_upd simp: same_account_def)
  qed
qed

interpretation ref: token_env ref_env
proof (unfold_locales, goal_cases)
  case (1 tp c a d M L L')
  then have T: "ref_transfer_checked tp c a d M L = Some L'" by (simp add: ref_env_def)
  then have "\<exists>s t. L (tc_from c) = Some s \<and> L (tc_to c) = Some t
      \<and> ta_mint s = tc_mint c \<and> ta_mint t = tc_mint c
      \<and> (ta_owner s = tc_authority c \<or> ta_delegate s = Some (tc_authority c))"
    by (auto simp: ref_transfer_checked_def split: option.splits if_splits)
  with ref_transfer_moved [OF T] show ?case by blast
next
  case (2 M c mi tp d L s t a)
  then have "checked_add (ta_amount t) a \<noteq> None" by (simp add: checked_add_None)
  with 2 show ?case by (auto simp: ref_env_def ref_transfer_checked_def)
qed


section \<open>The chain state the programs share\<close>

text \<open>An account read without a type: who owns it and its bytes.\<close>

record raw_account =
  ra_owner :: pubkey
  ra_data :: "u8 list"

abbreviation no_account :: raw_account where
  "no_account \<equiv> \<lparr> ra_owner = default_pubkey, ra_data = [] \<rparr>"

record chain =
  c_tokens :: ledger
  c_mints :: mints
  c_bans :: "pubkey \<Rightarrow> raw_account"

text \<open>The sysvars a transaction sees: the clock and the raw \<open>SlotHashes\<close> data.\<close>

record sysvars =
  unix_timestamp :: i64
  slot_hashes :: "u8 list"

definition token_interface_ids :: "pubkey list" where
  "token_interface_ids = [Prog SplTokenProgram, Prog Token2022Program]"

definition load_token ::
  "('z) chain_scheme \<Rightarrow> pubkey \<Rightarrow> (token_account \<Rightarrow> 'e tx_error + 'a) \<Rightarrow> 'e tx_error + 'a" where
  "load_token w addr k = ok_or (c_tokens w addr) AccountNotInitialized k"

text \<open>\<open>#[account(mint::token_program = token_program)] mint\<close> with
  \<open>token_program: Interface<TokenInterface>\<close>\<close>

definition load_mint ::
  "('z) chain_scheme \<Rightarrow> pubkey \<Rightarrow> pubkey \<Rightarrow> (mint_account \<Rightarrow> 'e tx_error + 'a)
   \<Rightarrow> 'e tx_error + 'a" where
  "load_mint w mint tp k =
     require (tp \<in> set token_interface_ids) InvalidProgramId
       (ok_or (c_mints w mint) AccountNotInitialized (\<lambda>mi.
          require (mi_program mi = tp) ConstraintMintTokenProgram (k mi)))"

text \<open>\<open>#[account(init, token::mint = mint, token::authority = owner)]\<close>\<close>

definition init_token ::
  "pubkey \<Rightarrow> pubkey \<Rightarrow> pubkey \<Rightarrow> ('z) chain_scheme \<Rightarrow> 'e tx_error + ('z) chain_scheme" where
  "init_token addr mint owner w =
     require (c_tokens w addr = None) AccountInUse
       (Inr (w\<lparr>c_tokens := (c_tokens w)(addr \<mapsto>
          \<lparr> ta_mint = mint, ta_owner = owner, ta_amount = 0, ta_delegate = None,
            ta_frozen = False \<rparr>)\<rparr>))"

text \<open>One \<open>transfer_checked\<close> CPI.\<close>

definition cpi_transfer ::
  "env \<Rightarrow> pubkey \<Rightarrow> pubkey \<Rightarrow> pubkey \<Rightarrow> pubkey \<Rightarrow> pubkey \<Rightarrow> u64 \<Rightarrow> u8
   \<Rightarrow> ('z) chain_scheme \<Rightarrow> 'e tx_error + ('z) chain_scheme" where
  "cpi_transfer env tp from mint to auth amount decimals w =
     ok_or (transfer_checked env tp
              \<lparr> tc_from = from, tc_mint = mint, tc_to = to, tc_authority = auth \<rparr>
              amount decimals (c_mints w) (c_tokens w))
       TokenError (\<lambda>L. Inr (w\<lparr>c_tokens := L\<rparr>))"

lemma cpi_transfer_frame:
  "cpi_transfer env tp from mint to auth a d w = Inr w1 \<Longrightarrow> \<exists>L. w1 = w\<lparr>c_tokens := L\<rparr>"
  by (auto simp: cpi_transfer_def)

text \<open>A loop of CPIs out of one account, zero shares skipped.\<close>

fun transfer_each ::
  "env \<Rightarrow> pubkey \<Rightarrow> pubkey \<Rightarrow> pubkey \<Rightarrow> pubkey \<Rightarrow> u8 \<Rightarrow> (u64 \<times> pubkey) list
   \<Rightarrow> ('z) chain_scheme \<Rightarrow> 'e tx_error + ('z) chain_scheme" where
  "transfer_each env tp from mint auth decimals [] w = Inr w"
| "transfer_each env tp from mint auth decimals ((amount, to) # rest) w =
     (if amount > 0
      then and_then (cpi_transfer env tp from mint to auth amount decimals w)
             (transfer_each env tp from mint auth decimals rest)
      else transfer_each env tp from mint auth decimals rest w)"

text \<open>The net effect of such a loop on the ledger.\<close>

definition paid_to :: "(u64 \<times> pubkey) list \<Rightarrow> pubkey \<Rightarrow> nat" where
  "paid_to ps k = (\<Sum>(a, to)\<leftarrow>ps. if k = to then unat a else 0)"

definition paid_total :: "(u64 \<times> pubkey) list \<Rightarrow> nat" where
  "paid_total ps = (\<Sum>(a, to)\<leftarrow>ps. unat a)"

lemma paid_to_Nil [simp]: "paid_to [] k = 0" by (simp add: paid_to_def)
lemma paid_to_Cons [simp]:
  "paid_to ((a, to) # ps) k = (if k = to then unat a else 0) + paid_to ps k"
  by (simp add: paid_to_def)
lemma paid_total_Nil [simp]: "paid_total [] = 0" by (simp add: paid_total_def)
lemma paid_total_Cons [simp]: "paid_total ((a, to) # ps) = unat a + paid_total ps"
  by (simp add: paid_total_def)

text \<open>An open account of the mint with room for \<open>n\<close> more units.\<close>

definition receives :: "ledger \<Rightarrow> pubkey \<Rightarrow> nat \<Rightarrow> pubkey \<Rightarrow> bool" where
  "receives L mint n k \<longleftrightarrow> (\<exists>t. L k = Some t \<and> ta_mint t = mint \<and> \<not> ta_frozen t)
     \<and> balance L k + n < 2 ^ 64"

lemma receives_moved:
  assumes "moved L from to a L'" and "receives L mint (unat a + n) k"
  shows "receives L' mint n k"
proof -
  from assms(2) obtain t where t: "L k = Some t" "ta_mint t = mint" "\<not> ta_frozen t"
      "balance L k + (unat a + n) < 2 ^ 64"
    by (auto simp: receives_def)
  obtain t' where "L' k = Some t'" "same_account t t'"
    using same_accounts_Some [OF moved_same [OF assms(1)] t(1)] .
  moreover have "balance L' k \<le> balance L k + unat a"
    using moved_balance [OF assms(1), of k] by (simp split: if_splits)
  ultimately show ?thesis using t by (auto simp: receives_def same_account_def)
qed

context token_env
begin

lemma cpi_transfer_moved:
  assumes "cpi_transfer E tp from mint to auth a d w = Inr w'"
  obtains L' where "w' = w\<lparr>c_tokens := L'\<rparr>" and "moved (c_tokens w) from to a L'"
  using assms transfer_sound by (auto simp: cpi_transfer_def) fastforce

lemma cpi_transfer_authority:
  assumes "cpi_transfer E tp from mint to auth a d w = Inr w'"
  obtains s t where "c_tokens w from = Some s" and "c_tokens w to = Some t"
    and "ta_mint s = mint" and "ta_mint t = mint"
    and "ta_owner s = auth \<or> ta_delegate s = Some auth"
  using assms by (auto simp: cpi_transfer_def dest!: transfer_sound)

lemma cpi_transfer_live:
  assumes "c_mints w mint = Some mi" and "mi_program mi = tp"
    and "c_tokens w from = Some s" and "c_tokens w to = Some t"
    and "ta_mint s = mint" and "ta_mint t = mint" and "ta_owner s = auth"
    and "\<not> ta_frozen s" and "\<not> ta_frozen t"
    and "unat a \<le> unat (ta_amount s)" and "unat (ta_amount t) + unat a < 2 ^ 64"
  shows "\<exists>w1. cpi_transfer E tp from mint to auth a (mi_decimals mi) w = Inr w1"
  using transfer_complete [of "c_mints w"
      "\<lparr> tc_from = from, tc_mint = mint, tc_to = to, tc_authority = auth \<rparr>" mi tp
      "mi_decimals mi" "c_tokens w" s t a] assms
  by (auto simp: cpi_transfer_def)

lemma transfer_each_effect:
  assumes "transfer_each E tp from mint auth d ps w = (Inr w' :: 'e tx_error + 'z chain_scheme)"
  shows "\<exists>L'. w' = w\<lparr>c_tokens := L'\<rparr> \<and> same_accounts (c_tokens w) L' \<and>
     (\<forall>k. balance L' k + (if k = from then paid_total ps else 0)
        = balance (c_tokens w) k + paid_to ps k)"
  using assms
proof (induction ps arbitrary: w)
  case Nil
  then show ?case by (intro exI [of _ "c_tokens w"]) auto
next
  case (Cons p ps)
  obtain a to where p: "p = (a, to)" by (cases p)
  show ?case
  proof (cases "a > 0")
    case False
    then have a: "a = 0" by (simp add: word_gt_0)
    show ?thesis using Cons.IH [of w] Cons.prems by (simp add: p a if_distrib cong: if_cong)
  next
    case True
    with Cons.prems p obtain w1 where
      step: "(cpi_transfer E tp from mint to auth a d w :: 'e tx_error + 'z chain_scheme) = Inr w1"
      and rest: "transfer_each E tp from mint auth d ps w1 = (Inr w' :: 'e tx_error + 'z chain_scheme)"
      by auto
    from step obtain L1 where L1: "w1 = w\<lparr>c_tokens := L1\<rparr>" "moved (c_tokens w) from to a L1"
      by (rule cpi_transfer_moved)
    from Cons.IH [OF rest] L1(1) obtain L' where
      L': "w' = w\<lparr>c_tokens := L'\<rparr>" "same_accounts L1 L'"
        "\<forall>k. balance L' k + (if k = from then paid_total ps else 0) = balance L1 k + paid_to ps k"
      by auto
    have "same_accounts (c_tokens w) L'"
      using L1(2) L'(2) same_accounts_trans moved_same by blast
    moreover have "balance L' k + (if k = from then paid_total (p # ps) else 0)
        = balance (c_tokens w) k + paid_to (p # ps) k" for k
      using spec [OF L'(3), of k] moved_balance [OF L1(2), of k] p by (simp split: if_splits)
    ultimately show ?thesis using L'(1) by blast
  qed
qed

lemma transfer_outside:
  assumes "cpi_transfer E tp from mint to auth a d w = Inr w'" and "\<not> signs_for p auth"
  shows "outside p (c_tokens w) (c_tokens w')"
proof -
  from assms(1) obtain L' where L': "w' = w\<lparr>c_tokens := L'\<rparr>" "moved (c_tokens w) from to a L'"
    by (rule cpi_transfer_moved)
  from assms(1) obtain s where s: "c_tokens w from = Some s"
      "ta_owner s = auth \<or> ta_delegate s = Some auth"
    by (rule cpi_transfer_authority)
  show ?thesis
    unfolding outside_def
  proof (intro conjI allI impI)
    fix k t assume t: "c_tokens w k = Some t \<and> signs_for p (ta_owner t) \<and> ta_delegate t = None"
    then have "k \<noteq> from" using s assms(2) by auto
    then have "balance (c_tokens w) k \<le> balance L' k" using L'(2) moved_other by blast
    moreover obtain t' where "L' k = Some t'" "same_account t t'"
      using same_accounts_Some [OF moved_same [OF L'(2)]] t by blast
    ultimately show "\<exists>t'. c_tokens w' k = Some t' \<and> same_account t t'
        \<and> unat (ta_amount t) \<le> unat (ta_amount t')"
      using t L'(1) by auto
  qed (use L' same_accounts_None [OF moved_same] in auto)
qed

lemma transfer_each_outside:
  assumes "transfer_each E tp from mint auth d ps w = (Inr w' :: 'e tx_error + 'z chain_scheme)"
    and "\<not> signs_for p auth"
  shows "outside p (c_tokens w) (c_tokens w')"
  using assms(1)
proof (induction ps arbitrary: w)
  case (Cons x ps)
  obtain a to where x: "x = (a, to)" by (cases x)
  show ?case
  proof (cases "a > 0")
    case True
    with Cons.prems x obtain w1 where
      step: "(cpi_transfer E tp from mint to auth a d w :: 'e tx_error + 'z chain_scheme) = Inr w1"
      and rest: "transfer_each E tp from mint auth d ps w1 = (Inr w' :: 'e tx_error + 'z chain_scheme)"
      by auto
    show ?thesis by (rule outside_trans [OF transfer_outside [OF step assms(2)] Cons.IH [OF rest]])
  qed (use Cons x in simp)
qed simp


text \<open>When such a loop cannot fail: the source holds enough and every paid account of the mint is
  open and has room.\<close>

lemma transfer_each_live:
  assumes "c_mints w mint = Some mi" and "mi_program mi = tp"
    and "c_tokens w from = Some s" and "ta_mint s = mint" and "ta_owner s = auth" and "\<not> ta_frozen s"
    and "paid_total ps \<le> balance (c_tokens w) from"
    and "\<And>a to. (a, to) \<in> set ps \<Longrightarrow> 0 < a \<Longrightarrow> receives (c_tokens w) mint (paid_total ps) to"
  shows "\<exists>w'. transfer_each E tp from mint auth (mi_decimals mi) ps w = (Inr w' :: 'e tx_error + 'z chain_scheme)"
  using assms
proof (induction ps arbitrary: w s)
  case (Cons p ps)
  obtain a to where p: "p = (a, to)" by (cases p)
  show ?case
  proof (cases "a > 0")
    case False
    then have a: "a = 0" by (simp add: word_gt_0)
    have "\<exists>w'. transfer_each E tp from mint auth (mi_decimals mi) ps w
        = (Inr w' :: 'e tx_error + 'z chain_scheme)"
      by (rule Cons.IH [OF Cons.prems(1-6)]) (use Cons.prems(7,8) p a in auto)
    with p a show ?thesis by simp
  next
    case True
    with Cons.prems(8) p obtain t where t: "c_tokens w to = Some t" "ta_mint t = mint"
        "\<not> ta_frozen t" "balance (c_tokens w) to + unat a + paid_total ps < 2 ^ 64"
      by (fastforce simp: receives_def)
    have "\<exists>w1. (cpi_transfer E tp from mint to auth a (mi_decimals mi) w
        :: 'e tx_error + 'z chain_scheme) = Inr w1"
      by (rule cpi_transfer_live [OF Cons.prems(1,2,3) t(1)]) (use Cons.prems p t in auto)
    then obtain w1 where w1: "(cpi_transfer E tp from mint to auth a (mi_decimals mi) w
        :: 'e tx_error + 'z chain_scheme) = Inr w1" by blast
    then obtain L where L: "w1 = w\<lparr>c_tokens := L\<rparr>" "moved (c_tokens w) from to a L"
      by (rule cpi_transfer_moved)
    obtain s' where s': "L from = Some s'" "same_account s s'"
      using same_accounts_Some [OF moved_same [OF L(2)] Cons.prems(3)] .
    have "\<exists>w'. transfer_each E tp from mint auth (mi_decimals mi) ps w1
        = (Inr w' :: 'e tx_error + 'z chain_scheme)"
    proof (rule Cons.IH [where s = s'])
      show "paid_total ps \<le> balance (c_tokens w1) from"
        using Cons.prems(7) moved_from [OF L(2)] L(1) p by simp
      fix b k assume "(b, k) \<in> set ps" "0 < b"
      with Cons.prems(8) have "receives (c_tokens w) mint (unat a + paid_total ps) k" using p by auto
      then show "receives (c_tokens w1) mint (paid_total ps) k"
        using receives_moved [OF L(2)] L(1) by simp
    qed (use Cons.prems L(1) s' in \<open>auto simp: same_account_def\<close>)
    with w1 True p show ?thesis by auto
  qed
qed simp

end

end
