(* ===== verification/Shared_Types.thy ===== *)
theory Shared_Types
  imports Solana
begin

text \<open>
  The enums and the ban gate of \<open>programs/shared\<close>: roles and their dense index, the proposal
  categories, the life-cycle states of a trade escrow, the dispute outcomes, and the check every
  user-facing instruction runs against the governance program's ban record.
\<close>

datatype Role =
    Merchant | Arbitrator | NodeOperator | NotificationProvider | OracleProvider
  | RiskIntelligenceProvider | SnapshotProvider

datatype ProposalCategory =
    Informational | Standards | Parameter | Treasury | ProtocolUpgrade | Constitutional

datatype VaultState =
    Available | Reserved | AwaitingFiatSettlement | Released | Cancelled | Frozen

datatype DisputeOutcome = BuyerWins | MerchantWins | MutualSettlement | InvalidDispute

definition Role_COUNT :: nat where "Role_COUNT = 7"

fun role_index :: "Role \<Rightarrow> nat" where
  "role_index Merchant = 0"
| "role_index Arbitrator = 1"
| "role_index NodeOperator = 2"
| "role_index NotificationProvider = 3"
| "role_index OracleProvider = 4"
| "role_index RiskIntelligenceProvider = 5"
| "role_index SnapshotProvider = 6"

lemma role_index_less [simp]: "role_index r < Role_COUNT"
  by (cases r) (simp_all add: Role_COUNT_def)

lemma role_index_inj: "role_index r = role_index s \<Longrightarrow> r = s"
  by (cases r; cases s) simp_all

instantiation Role :: linorder
begin

definition less_eq_Role :: "Role \<Rightarrow> Role \<Rightarrow> bool" where
  "less_eq_Role r s \<longleftrightarrow> role_index r \<le> role_index s"

definition less_Role :: "Role \<Rightarrow> Role \<Rightarrow> bool" where
  "less_Role r s \<longleftrightarrow> role_index r < role_index s"

instance
  by standard (auto simp: less_eq_Role_def less_Role_def intro: role_index_inj)

end

instantiation Role :: finite
begin

instance
proof
  have "inj (role_index)" by (rule injI) (rule role_index_inj)
  moreover have "finite (range role_index)"
    by (rule finite_subset [of _ "{..< Role_COUNT}"]) auto
  ultimately show "finite (UNIV :: Role set)" by (rule finite_imageD [rotated])
qed

end

definition BAN_SEED :: string where "BAN_SEED = ''ban''"

definition GOVERNANCE_PROGRAM_ID :: pubkey where
  "GOVERNANCE_PROGRAM_ID = Prog GovernanceProgram"

definition wallet_is_banned :: "raw_account \<Rightarrow> bool" where
  "wallet_is_banned ban_record \<longleftrightarrow>
     ra_data ban_record \<noteq> [] \<or> ra_owner ban_record = GOVERNANCE_PROGRAM_ID"

text \<open>
  An instruction that names a wallet takes the account at \<open>[BAN_SEED, wallet]\<close> under the
  governance program, so the chain state carries that account per wallet. \<open>banned w k\<close> is
  the gate on wallet \<open>k\<close>.
\<close>

abbreviation banned :: "('z) chain_scheme \<Rightarrow> pubkey \<Rightarrow> bool" where
  "banned w k \<equiv> wallet_is_banned (c_bans w k)"

lemma never_banned [simp]: "\<not> wallet_is_banned no_account"
  by (simp add: wallet_is_banned_def GOVERNANCE_PROGRAM_ID_def)

end
