(* ===== verification/Staking_State.thy ===== *)
theory Staking_State
  imports Shared_Types
begin

text \<open>
  The accounts of the staking program (\<open>programs/staking/src/state.rs\<close>), its constants, error
  codes and events, the readers of \<open>StakeAccount\<close> that governance and dispute tallies use, the
  byte-level reader of escrow's recovery claim (\<open>escrow_claim.rs\<close>), and the chain state
  extended by the staking program's accounts.
\<close>


section \<open>Constants and errors\<close>

definition STAKING_CONFIG_SEED :: string where "STAKING_CONFIG_SEED = ''staking_config''"
definition STAKE_VAULT_SEED :: string where "STAKE_VAULT_SEED = ''stake_vault''"
definition REWARDS_VAULT_SEED :: string where "REWARDS_VAULT_SEED = ''rewards_vault''"
definition STAKE_ACCOUNT_SEED :: string where "STAKE_ACCOUNT_SEED = ''stake''"
definition STAKE_RECOVERY_RECEIPT_SEED :: string where
  "STAKE_RECOVERY_RECEIPT_SEED = ''stake_recovery_receipt''"

definition BPS_DENOMINATOR :: u64 where "BPS_DENOMINATOR = 10000"

definition OPEN_DECIMALS_MULTIPLIER :: u64 where "OPEN_DECIMALS_MULTIPLIER = 1000000"

definition RECOMMENDED_MIN_STAKE_BY_ROLE :: "u64 list" where
  "RECOMMENDED_MIN_STAKE_BY_ROLE =
     [500 * OPEN_DECIMALS_MULTIPLIER, 100000 * OPEN_DECIMALS_MULTIPLIER,
      500000 * OPEN_DECIMALS_MULTIPLIER, 100000 * OPEN_DECIMALS_MULTIPLIER,
      100000 * OPEN_DECIMALS_MULTIPLIER, 100000 * OPEN_DECIMALS_MULTIPLIER,
      100000 * OPEN_DECIMALS_MULTIPLIER]"

definition RECOMMENDED_UNBONDING_PERIOD_SECS_BY_ROLE :: "i64 list" where
  "RECOMMENDED_UNBONDING_PERIOD_SECS_BY_ROLE =
     [24 * 60 * 60, 3 * 24 * 60 * 60, 7 * 24 * 60 * 60, 7 * 24 * 60 * 60, 7 * 24 * 60 * 60,
      7 * 24 * 60 * 60, 7 * 24 * 60 * 60]"

definition RECOMMENDED_SLASH_BPS :: u16 where "RECOMMENDED_SLASH_BPS = 500"

datatype StakingErrorCode =
    Unauthorized | NotSlashingAuthority | NotRewardsAuthority | InvalidSlashBps
  | InvalidUnbondingPeriod | InsufficientStakedAmount | StillUnbonding | NoUnbondingBalance
  | NoPendingRewards | ZeroAmount | StakeBelowRoleMinimum | AlreadyMigrated | WrongMint
  | ZeroAuthority | Overflow | WalletBanned | StakeAccountAlreadyMigrated | NotAStakeAccount
  | NotARecoveryClaim | NotARecoveryReceipt | NothingToRecover | NoStakeToRecoverFrom
  | StakeRecoveryOutstanding


section \<open>Accounts\<close>

record StakingConfig =
  sc_admin :: pubkey
  sc_mint :: pubkey
  sc_min_stake_by_role :: "u64 list"
  sc_unbonding_period_secs_by_role :: "i64 list"
  sc_slash_bps :: u16
  sc_slashing_authority :: pubkey
  sc_slash_destination :: pubkey
  sc_rewards_authority :: pubkey
  sc_bump :: u8
  sc_stake_vault_bump :: u8
  sc_rewards_vault_bump :: u8

record StakeAccount =
  sa_owner :: pubkey
  sa_role :: Role
  sa_amount :: u64
  sa_unbonding_amount :: u64
  sa_unbonding_release_at :: i64
  sa_slashed_total :: u64
  sa_pending_rewards :: u64
  sa_bump :: u8
  sa_first_staked_at :: i64

record StakeRecoveryReceipt =
  rr_merchant :: pubkey
  rr_recovered_total :: u64
  rr_recovery_count :: u32
  rr_bump :: u8

definition min_stake_for :: "StakingConfig \<Rightarrow> Role \<Rightarrow> u64" where
  "min_stake_for config role = sc_min_stake_by_role config ! role_index role"

definition unbonding_period_for :: "StakingConfig \<Rightarrow> Role \<Rightarrow> i64" where
  "unbonding_period_for config role = sc_unbonding_period_secs_by_role config ! role_index role"

definition is_legal_balance :: "StakingConfig \<Rightarrow> Role \<Rightarrow> u64 \<Rightarrow> bool" where
  "is_legal_balance config role amount \<longleftrightarrow> amount = 0 \<or> amount \<ge> min_stake_for config role"

definition stake_age_secs :: "StakeAccount \<Rightarrow> i64 \<Rightarrow> i64 option" where
  "stake_age_secs stake now =
     (if sa_amount stake = 0 \<or> sa_first_staked_at stake = 0 then None
      else Some (saturating_sub_i64 now (sa_first_staked_at stake)))"

definition meets_stake_age :: "StakeAccount \<Rightarrow> i64 \<Rightarrow> i64 \<Rightarrow> bool" where
  "meets_stake_age stake now min_age_secs =
     (if min_age_secs \<le> 0 then True
      else case stake_age_secs stake now of None \<Rightarrow> False | Some age \<Rightarrow> age \<ge> min_age_secs)"

definition effective_stake :: "StakeAccount \<Rightarrow> StakingConfig \<Rightarrow> u64" where
  "effective_stake stake config =
     (if sa_amount stake \<ge> min_stake_for config (sa_role stake) then sa_amount stake else 0)"


section \<open>Events\<close>

datatype StakingEvent =
    RewardDistributed pubkey pubkey Role u64 u64 u64 i64
      \<comment> \<open>stake account, owner, role, epoch, amount, pending rewards, timestamp\<close>
  | RewardsClaimed pubkey pubkey Role u64 pubkey i64
      \<comment> \<open>stake account, owner, role, amount, destination, timestamp\<close>
  | SlashApplied pubkey pubkey Role u16 u64 u64 u64 bool pubkey i64
      \<comment> \<open>stake account, owner, role, misconduct code, amount, remaining stake, slashed total,
          eligible after, destination, timestamp\<close>
  | StakeShortfallRecovered pubkey pubkey pubkey u64 u64 u64 u64 u64 u64 u64 u64 bool pubkey i64
      \<comment> \<open>stake account, merchant, claim, amount, from unbonding, from active, owed total,
          recovered total, outstanding, remaining stake, remaining unbonding, eligible after,
          destination, timestamp\<close>
  | RewardsVaultFunded pubkey u64 u64 i64
      \<comment> \<open>funder, amount, vault balance, timestamp\<close>
  | StakingConfigUpdated pubkey pubkey pubkey pubkey u16 "u64 list" "i64 list" i64
      \<comment> \<open>admin, slashing authority, slash destination, rewards authority, slash bps,
          minimums, unbonding periods, timestamp\<close>
  | StakeAccountMigrated pubkey pubkey u64 i64 i64
      \<comment> \<open>stake account, owner, amount, first staked at, timestamp\<close>


section \<open>Addresses and chain state\<close>

definition staking_config_pda :: pubkey where
  "staking_config_pda = Pda StakingProgram [SeedBytes STAKING_CONFIG_SEED]"

definition stake_vault_pda :: pubkey where
  "stake_vault_pda = Pda StakingProgram [SeedBytes STAKE_VAULT_SEED]"

definition rewards_vault_pda :: pubkey where
  "rewards_vault_pda = Pda StakingProgram [SeedBytes REWARDS_VAULT_SEED]"

definition role_byte :: "Role \<Rightarrow> u8" where
  "role_byte role = word_of_nat (role_index role)"

definition stake_account_pda :: "pubkey \<Rightarrow> Role \<Rightarrow> pubkey" where
  "stake_account_pda owner role =
     Pda StakingProgram [SeedBytes STAKE_ACCOUNT_SEED, SeedKey owner, SeedU8 (role_byte role)]"

definition stake_recovery_receipt_pda :: "pubkey \<Rightarrow> pubkey" where
  "stake_recovery_receipt_pda merchant =
     Pda StakingProgram [SeedBytes STAKE_RECOVERY_RECEIPT_SEED, SeedKey merchant]"

record staking_chain = chain +
  sk_config :: "StakingConfig option"
  sk_stakes :: "pubkey \<times> Role \<rightharpoonup> StakeAccount"
  sk_receipts :: "pubkey \<rightharpoonup> StakeRecoveryReceipt"
  sk_log :: "StakingEvent list"

definition emit_staking :: "StakingEvent \<Rightarrow> ('z) staking_chain_scheme \<Rightarrow> ('z) staking_chain_scheme"
  where "emit_staking e w = w\<lparr>sk_log := sk_log w @ [e]\<rparr>"

definition put_stake ::
  "pubkey \<times> Role \<Rightarrow> StakeAccount \<Rightarrow> ('z) staking_chain_scheme \<Rightarrow> ('z) staking_chain_scheme" where
  "put_stake addr s w = w\<lparr>sk_stakes := (sk_stakes w)(addr \<mapsto> s)\<rparr>"

text \<open>\<open>#[account(seeds = [STAKING_CONFIG_SEED], bump = staking_config.bump)]\<close>\<close>

definition load_config ::
  "env \<Rightarrow> ('z) staking_chain_scheme \<Rightarrow> (StakingConfig \<Rightarrow> 'e tx_error + 'a) \<Rightarrow> 'e tx_error + 'a" where
  "load_config env w k =
     ok_or (sk_config w) AccountNotInitialized (\<lambda>c.
       require (sc_bump c = bump_of env staking_config_pda) ConstraintSeeds (k c))"

text \<open>The stake account at the address of \<open>addr\<close>, its seeds recomputed from the account's own
  owner and role.\<close>

definition load_stake ::
  "env \<Rightarrow> ('z) staking_chain_scheme \<Rightarrow> pubkey \<times> Role \<Rightarrow> (StakeAccount \<Rightarrow> 'e tx_error + 'a)
   \<Rightarrow> 'e tx_error + 'a" where
  "load_stake env w addr k =
     ok_or (sk_stakes w addr) AccountNotInitialized (\<lambda>s.
       require (addr = (sa_owner s, sa_role s)
                \<and> sa_bump s = bump_of env (stake_account_pda (sa_owner s) (sa_role s)))
         ConstraintSeeds (k s))"

text \<open>The same with the signer as the owner: \<open>seeds = [.., owner, role]\<close> and \<open>has_one = owner\<close>.\<close>

definition load_own_stake ::
  "env \<Rightarrow> ('z) staking_chain_scheme \<Rightarrow> pubkey \<Rightarrow> pubkey \<times> Role
   \<Rightarrow> (StakeAccount \<Rightarrow> 'e tx_error + 'a) \<Rightarrow> 'e tx_error + 'a" where
  "load_own_stake env w owner addr k =
     ok_or (sk_stakes w addr) AccountNotInitialized (\<lambda>s.
       require (addr = (owner, sa_role s)
                \<and> sa_bump s = bump_of env (stake_account_pda owner (sa_role s)))
         ConstraintSeeds (require (sa_owner s = owner) ConstraintHasOne (k s)))"

lemma role_byte_inj [simp]: "role_byte r = role_byte s \<longleftrightarrow> r = s"
  by (cases r; cases s) (simp_all add: role_byte_def)

lemma stake_account_pda_inj [simp]:
  "stake_account_pda m r = stake_account_pda n s \<longleftrightarrow> m = n \<and> r = s"
  by (simp add: stake_account_pda_def)

lemma staking_pdas_distinct [simp]:
  "stake_vault_pda \<noteq> rewards_vault_pda" "rewards_vault_pda \<noteq> stake_vault_pda"
  "stake_vault_pda \<noteq> staking_config_pda" "rewards_vault_pda \<noteq> staking_config_pda"
  by (simp_all add: stake_vault_pda_def rewards_vault_pda_def staking_config_pda_def
      STAKE_VAULT_SEED_def REWARDS_VAULT_SEED_def STAKING_CONFIG_SEED_def)

lemma staking_config_signs [simp]: "signs_for StakingProgram staking_config_pda"
  by (simp add: staking_config_pda_def)


section \<open>Reading escrow's recovery claim\<close>

definition ESCROW_PROGRAM_ID :: pubkey where "ESCROW_PROGRAM_ID = Prog EscrowProgram"

definition STAKE_RECOVERY_CLAIM_SEED :: string where
  "STAKE_RECOVERY_CLAIM_SEED = ''stake_recovery_claim''"

definition LIQUIDITY_VAULT_TOKENS_SEED :: string where
  "LIQUIDITY_VAULT_TOKENS_SEED = ''liquidity_vault_tokens''"

definition STAKE_RECOVERY_CLAIM_DISCRIMINATOR :: "u8 list" where
  "STAKE_RECOVERY_CLAIM_DISCRIMINATOR = [209, 252, 118, 180, 132, 41, 13, 159]"

definition CLAIM_MERCHANT_OFFSET :: nat where "CLAIM_MERCHANT_OFFSET = 8"
definition CLAIM_MINT_OFFSET :: nat where "CLAIM_MINT_OFFSET = CLAIM_MERCHANT_OFFSET + 32"
definition CLAIM_OWED_TOTAL_OFFSET :: nat where "CLAIM_OWED_TOTAL_OFFSET = CLAIM_MINT_OFFSET + 32"
definition CLAIM_PREFIX_LEN :: nat where "CLAIM_PREFIX_LEN = CLAIM_OWED_TOTAL_OFFSET + 8"

lemmas claim_offsets =
  CLAIM_MERCHANT_OFFSET_def CLAIM_MINT_OFFSET_def CLAIM_OWED_TOTAL_OFFSET_def CLAIM_PREFIX_LEN_def

text \<open>\<open>data[from..from + len]\<close>, in range in every use below.\<close>

definition bytes_at :: "nat \<Rightarrow> nat \<Rightarrow> u8 list \<Rightarrow> u8 list" where
  "bytes_at from len data = take len (drop from data)"

record StakeRecoveryClaimView =
  cv_merchant :: pubkey
  cv_mint :: pubkey
  cv_owed_total :: u64

definition read_stake_recovery_claim ::
  "env \<Rightarrow> raw_account \<Rightarrow> pubkey \<Rightarrow> pubkey
   \<Rightarrow> StakingErrorCode tx_error + StakeRecoveryClaimView option" where
  "read_stake_recovery_claim env info merchant mint =
     (if ra_data info = [] then Inr None
      else
        require (ra_owner info = ESCROW_PROGRAM_ID) (Program NotARecoveryClaim)
       (let data = ra_data info in
        require (length data \<ge> CLAIM_PREFIX_LEN) (Program NotARecoveryClaim)
       (require (take 8 data = STAKE_RECOVERY_CLAIM_DISCRIMINATOR) (Program NotARecoveryClaim)
       (let view = \<lparr> cv_merchant = key_of_bytes env (bytes_at CLAIM_MERCHANT_OFFSET 32 data),
                     cv_mint = key_of_bytes env (bytes_at CLAIM_MINT_OFFSET 32 data),
                     cv_owed_total = u64_from_le_bytes (bytes_at CLAIM_OWED_TOTAL_OFFSET 8 data) \<rparr>
        in
        require (cv_merchant view = merchant) (Program NotARecoveryClaim)
       (require (cv_mint view = mint) (Program NotARecoveryClaim)
          (Inr (Some view)))))))"

definition outstanding :: "u64 \<Rightarrow> u64 \<Rightarrow> u64" where
  "outstanding owed_total recovered_total = saturating_sub owed_total recovered_total"

text \<open>\<open>StakeRecoveryReceipt::recovered_total_of\<close>\<close>

definition recovered_total_of ::
  "env \<Rightarrow> raw_account \<Rightarrow> pubkey \<Rightarrow> StakingErrorCode tx_error + u64" where
  "recovered_total_of env info merchant =
     (if ra_data info = [] then Inr 0
      else
        require (ra_owner info = Prog StakingProgram) (Program NotARecoveryReceipt)
       (let data = ra_data info; PREFIX_LEN = 8 + 32 + 8 in
        require (length data \<ge> PREFIX_LEN) (Program NotARecoveryReceipt)
       (require (take 8 data = account_discriminator env ''StakeRecoveryReceipt'')
          (Program NotARecoveryReceipt)
       (require (key_of_bytes env (bytes_at 8 32 data) = merchant) (Program NotARecoveryReceipt)
          (Inr (u64_from_le_bytes (bytes_at 40 8 data)))))))"

text \<open>The account data Anchor writes for a receipt, and the receipt account as a raw account.\<close>

definition receipt_bytes :: "env \<Rightarrow> StakeRecoveryReceipt \<Rightarrow> u8 list" where
  "receipt_bytes env r =
     account_discriminator env ''StakeRecoveryReceipt'' @ key_bytes env (rr_merchant r)
     @ u64_to_le_bytes (rr_recovered_total r) @ u32_to_le_bytes (rr_recovery_count r)
     @ [rr_bump r]"

definition receipt_info :: "env \<Rightarrow> ('z) staking_chain_scheme \<Rightarrow> pubkey \<Rightarrow> raw_account" where
  "receipt_info env w merchant =
     (case sk_receipts w merchant of
        None \<Rightarrow> no_account
      | Some r \<Rightarrow> \<lparr> ra_owner = Prog StakingProgram, ra_data = receipt_bytes env r \<rparr>)"

definition receipt_total :: "('z) staking_chain_scheme \<Rightarrow> pubkey \<Rightarrow> nat" where
  "receipt_total w merchant =
     (case sk_receipts w merchant of None \<Rightarrow> 0 | Some r \<Rightarrow> unat (rr_recovered_total r))"

lemma bytes_at_skip [simp]:
  "length a = n \<Longrightarrow> n \<le> from \<Longrightarrow> bytes_at from len (a @ b) = bytes_at (from - n) len b"
  by (simp add: bytes_at_def)

lemma bytes_at_head [simp]: "length a = len \<Longrightarrow> bytes_at 0 len (a @ b) = a"
  by (simp add: bytes_at_def)

lemma recovered_total_of_receipt_info:
  assumes "wire_key env merchant" and "length (account_discriminator env ''StakeRecoveryReceipt'') = 8"
    and "\<And>r. sk_receipts w merchant = Some r \<Longrightarrow> rr_merchant r = merchant"
  shows "\<exists>n. recovered_total_of env (receipt_info env w merchant) merchant = Inr n
           \<and> unat n = receipt_total w merchant"
proof (cases "sk_receipts w merchant")
  case None
  then show ?thesis by (simp add: recovered_total_of_def receipt_info_def receipt_total_def)
next
  case (Some r)
  then have m: "rr_merchant r = merchant" by (rule assms(3))
  then have key: "length (key_bytes env (rr_merchant r)) = 32"
      "key_of_bytes env (key_bytes env (rr_merchant r)) = merchant"
    using assms(1) by (simp_all add: wire_key_def)
  show ?thesis
    using Some assms(2) key
    by (simp add: recovered_total_of_def receipt_info_def receipt_total_def receipt_bytes_def
        Let_def)
qed

text \<open>What \<open>read_stake_recovery_claim\<close> makes of a claim account in escrow's layout.\<close>

lemma read_claim_bytes:
  assumes "wire_key env merchant" and "wire_key env mint"
    and "ra_owner info = ESCROW_PROGRAM_ID"
    and "ra_data info = STAKE_RECOVERY_CLAIM_DISCRIMINATOR @ key_bytes env merchant
           @ key_bytes env mint @ u64_to_le_bytes owed @ rest"
  shows "read_stake_recovery_claim env info merchant mint
       = Inr (Some \<lparr> cv_merchant = merchant, cv_mint = mint, cv_owed_total = owed \<rparr>)"
  using assms
  by (simp add: read_stake_recovery_claim_def claim_offsets STAKE_RECOVERY_CLAIM_DISCRIMINATOR_def
      wire_key_def Let_def bytes_at_def)

lemma read_claim_absent [simp]: "read_stake_recovery_claim env no_account merchant mint = Inr None"
  by (simp add: read_stake_recovery_claim_def)

end
