(* ===== verification/Staking_Instructions.thy ===== *)
theory Staking_Instructions
  imports Staking_State
begin

text \<open>
  The instruction handlers of the staking program (\<open>programs/staking/src/instructions\<close>), one
  definition per instruction. The account constraints of the \<open>#[derive(Accounts)]\<close> struct come
  first, as guards; then the handler's body in the order of the source. A handler returns the
  new chain state or an error; the arguments are the signers and the addresses the caller is
  free to choose, then the instruction data.
\<close>

type_synonym 'z staking_result = "StakingErrorCode tx_error + 'z staking_chain_scheme"

definition require_valid_unbonding_periods ::
  "i64 list \<Rightarrow> StakingErrorCode tx_error + 'a \<Rightarrow> StakingErrorCode tx_error + 'a" where
  "require_valid_unbonding_periods periods k =
     require (list_all (\<lambda>secs. secs > 0) periods) (Program InvalidUnbondingPeriod) k"


section \<open>Configuration\<close>

record InitializeStakingConfigParams =
  ip_min_stake_by_role :: "u64 list"
  ip_unbonding_period_secs_by_role :: "i64 list"
  ip_slash_bps :: u16
  ip_slashing_authority :: pubkey
  ip_slash_destination :: pubkey
  ip_rewards_authority :: pubkey

definition handle_initialize_staking_config ::
  "env \<Rightarrow> pubkey \<Rightarrow> pubkey \<Rightarrow> pubkey \<Rightarrow> InitializeStakingConfigParams
   \<Rightarrow> 'z staking_chain_scheme \<Rightarrow> 'z staking_result" where
  "handle_initialize_staking_config env admin mint token_program params w =
     load_mint w mint token_program (\<lambda>_.
     require (sk_config w = None) AccountInUse
     (and_then (init_token stake_vault_pda mint staking_config_pda w) (\<lambda>w.
      and_then (init_token rewards_vault_pda mint staking_config_pda w) (\<lambda>w.
      require (ucast (ip_slash_bps params) \<le> BPS_DENOMINATOR) (Program InvalidSlashBps)
     (require_valid_unbonding_periods (ip_unbonding_period_secs_by_role params)
     (Inr (w\<lparr>sk_config := Some
        \<lparr> sc_admin = admin, sc_mint = mint,
          sc_min_stake_by_role = ip_min_stake_by_role params,
          sc_unbonding_period_secs_by_role = ip_unbonding_period_secs_by_role params,
          sc_slash_bps = ip_slash_bps params,
          sc_slashing_authority = ip_slashing_authority params,
          sc_slash_destination = ip_slash_destination params,
          sc_rewards_authority = ip_rewards_authority params,
          sc_bump = bump_of env staking_config_pda,
          sc_stake_vault_bump = bump_of env stake_vault_pda,
          sc_rewards_vault_bump = bump_of env rewards_vault_pda \<rparr>\<rparr>)))))))"

record UpdateStakingConfigParams =
  up_min_stake_by_role :: "u64 list"
  up_unbonding_period_secs_by_role :: "i64 list"
  up_slash_bps :: u16
  up_slashing_authority :: pubkey
  up_rewards_authority :: pubkey

definition handle_update_staking_config ::
  "env \<Rightarrow> sysvars \<Rightarrow> pubkey \<Rightarrow> pubkey \<Rightarrow> pubkey \<Rightarrow> UpdateStakingConfigParams
   \<Rightarrow> 'z staking_chain_scheme \<Rightarrow> 'z staking_result" where
  "handle_update_staking_config env sv admin mint slash_destination params w =
     load_config env w (\<lambda>config.
     require (sc_admin config = admin) (Program Unauthorized)
     (require (mint = sc_mint config) (Program WrongMint)
     (load_token w slash_destination (\<lambda>destination.
      require (ta_mint destination = mint) ConstraintTokenMint
     (require (ucast (up_slash_bps params) \<le> BPS_DENOMINATOR) (Program InvalidSlashBps)
     (require_valid_unbonding_periods (up_unbonding_period_secs_by_role params)
     (require (up_slashing_authority params \<noteq> default_pubkey) (Program ZeroAuthority)
     (require (up_rewards_authority params \<noteq> default_pubkey) (Program ZeroAuthority)
     (let config = config\<lparr>
            sc_min_stake_by_role := up_min_stake_by_role params,
            sc_unbonding_period_secs_by_role := up_unbonding_period_secs_by_role params,
            sc_slash_bps := up_slash_bps params,
            sc_slashing_authority := up_slashing_authority params,
            sc_slash_destination := slash_destination,
            sc_rewards_authority := up_rewards_authority params\<rparr>
      in Inr (emit_staking
           (StakingConfigUpdated admin (sc_slashing_authority config)
              (sc_slash_destination config) (sc_rewards_authority config) (sc_slash_bps config)
              (sc_min_stake_by_role config) (sc_unbonding_period_secs_by_role config)
              (unix_timestamp sv))
           (w\<lparr>sk_config := Some config\<rparr>)))))))))))"


section \<open>Staking and unstaking\<close>

definition handle_initialize_stake_account ::
  "env \<Rightarrow> pubkey \<Rightarrow> Role \<Rightarrow> 'z staking_chain_scheme \<Rightarrow> 'z staking_result" where
  "handle_initialize_stake_account env owner role w =
     require (sk_stakes w (owner, role) = None) AccountInUse
       (Inr (put_stake (owner, role)
          \<lparr> sa_owner = owner, sa_role = role, sa_amount = 0, sa_unbonding_amount = 0,
            sa_unbonding_release_at = 0, sa_slashed_total = 0, sa_pending_rewards = 0,
            sa_bump = bump_of env (stake_account_pda owner role), sa_first_staked_at = 0 \<rparr> w))"

definition handle_stake ::
  "env \<Rightarrow> sysvars \<Rightarrow> pubkey \<Rightarrow> pubkey \<times> Role \<Rightarrow> pubkey \<Rightarrow> pubkey \<Rightarrow> pubkey \<Rightarrow> u64
   \<Rightarrow> 'z staking_chain_scheme \<Rightarrow> 'z staking_result" where
  "handle_stake env sv owner stake_addr from mint token_program amount w =
     load_config env w (\<lambda>config.
     require (sc_mint config = mint) ConstraintRaw
     (load_own_stake env w owner stake_addr (\<lambda>stake_account.
      load_token w stake_vault_pda (\<lambda>_.
      require (sc_stake_vault_bump config = bump_of env stake_vault_pda) ConstraintSeeds
     (load_token w from (\<lambda>from_account.
      require (ta_mint from_account = mint) ConstraintRaw
     (load_mint w mint token_program (\<lambda>mint_account.
      require (\<not> banned w owner) (Program WalletBanned)
     (ok_or (checked_add (sa_amount stake_account) amount) (Program Overflow) (\<lambda>new_amount.
      require (is_legal_balance config (sa_role stake_account) new_amount)
        (Program StakeBelowRoleMinimum)
     (and_then (cpi_transfer env token_program from mint stake_vault_pda owner amount
                  (mi_decimals mint_account) w) (\<lambda>w.
      let stake_account =
            (if sa_amount stake_account = 0 \<and> new_amount > 0
             then stake_account\<lparr>sa_first_staked_at := unix_timestamp sv\<rparr> else stake_account)
      in Inr (put_stake stake_addr (stake_account\<lparr>sa_amount := new_amount\<rparr>) w)))))))))))))"

text \<open>\<open>if stake_account.amount == 0 { stake_account.first_staked_at = 0 }\<close>, as the three
  handlers that lower a balance write it.\<close>

definition stop_empty_clock :: "StakeAccount \<Rightarrow> StakeAccount" where
  "stop_empty_clock s = (if sa_amount s = 0 then s\<lparr>sa_first_staked_at := 0\<rparr> else s)"

lemma stop_empty_clock_simps [simp]:
  "sa_owner (stop_empty_clock s) = sa_owner s" "sa_role (stop_empty_clock s) = sa_role s"
  "sa_amount (stop_empty_clock s) = sa_amount s"
  "sa_unbonding_amount (stop_empty_clock s) = sa_unbonding_amount s"
  "sa_unbonding_release_at (stop_empty_clock s) = sa_unbonding_release_at s"
  "sa_slashed_total (stop_empty_clock s) = sa_slashed_total s"
  "sa_pending_rewards (stop_empty_clock s) = sa_pending_rewards s"
  "sa_bump (stop_empty_clock s) = sa_bump s"
  "sa_first_staked_at (stop_empty_clock s)
     = (if sa_amount s = 0 then 0 else sa_first_staked_at s)"
  by (simp_all add: stop_empty_clock_def)

definition handle_request_unstake ::
  "env \<Rightarrow> sysvars \<Rightarrow> pubkey \<Rightarrow> pubkey \<times> Role \<Rightarrow> u64 \<Rightarrow> 'z staking_chain_scheme
   \<Rightarrow> 'z staking_result" where
  "handle_request_unstake env sv owner stake_addr amount w =
     load_config env w (\<lambda>config.
     load_own_stake env w owner stake_addr (\<lambda>stake_account.
     require (sa_amount stake_account \<ge> amount) (Program InsufficientStakedAmount)
     (let remaining = sa_amount stake_account - amount in
      require (is_legal_balance config (sa_role stake_account) remaining)
        (Program StakeBelowRoleMinimum)
     (let stake_account = stop_empty_clock (stake_account\<lparr>sa_amount := remaining\<rparr>) in
      ok_or (checked_add (sa_unbonding_amount stake_account) amount) (Program Overflow)
        (\<lambda>unbonding.
      ok_or (checked_add_i64 (unix_timestamp sv)
               (unbonding_period_for config (sa_role stake_account))) (Program Overflow)
        (\<lambda>release_at.
      Inr (put_stake stake_addr
        (stake_account\<lparr>sa_unbonding_amount := unbonding, sa_unbonding_release_at := release_at\<rparr>)
        w)))))))"

text \<open>\<open>claim.map(|claim| claim.owed_total).unwrap_or(0)\<close>\<close>

definition owed_total_of :: "StakeRecoveryClaimView option \<Rightarrow> u64" where
  "owed_total_of claim = (case claim of None \<Rightarrow> 0 | Some v \<Rightarrow> cv_owed_total v)"

definition handle_withdraw_unstaked ::
  "env \<Rightarrow> sysvars \<Rightarrow> pubkey \<Rightarrow> pubkey \<times> Role \<Rightarrow> pubkey \<Rightarrow> pubkey \<Rightarrow> pubkey \<Rightarrow> raw_account
   \<Rightarrow> 'z staking_chain_scheme \<Rightarrow> 'z staking_result" where
  "handle_withdraw_unstaked env sv owner stake_addr to mint token_program recovery_claim w =
     load_mint w mint token_program (\<lambda>mint_account.
     load_config env w (\<lambda>config.
     require (sc_mint config = mint) ConstraintRaw
     (load_own_stake env w owner stake_addr (\<lambda>stake_account.
      load_token w stake_vault_pda (\<lambda>_.
      require (sc_stake_vault_bump config = bump_of env stake_vault_pda) ConstraintSeeds
     (load_token w to (\<lambda>to_account.
      require (ta_mint to_account = mint) ConstraintRaw
     (require (sa_unbonding_amount stake_account > 0) (Program NoUnbondingBalance)
     (require (unix_timestamp sv \<ge> sa_unbonding_release_at stake_account) (Program StillUnbonding)
     (and_then
        (if sa_role stake_account = Merchant
         then and_then (read_stake_recovery_claim env recovery_claim owner mint) (\<lambda>claim.
              and_then (recovered_total_of env (receipt_info env w owner) owner) (\<lambda>recovered.
              require (outstanding (owed_total_of claim) recovered = 0)
                (Program StakeRecoveryOutstanding) (Inr ())))
         else Inr ()) (\<lambda>_.
      and_then (cpi_transfer env token_program stake_vault_pda mint to staking_config_pda
                  (sa_unbonding_amount stake_account) (mi_decimals mint_account) w) (\<lambda>w.
      Inr (put_stake stake_addr (stake_account\<lparr>sa_unbonding_amount := 0\<rparr>) w)))))))))))))"


section \<open>Slashing and recovery\<close>

definition handle_slash ::
  "env \<Rightarrow> sysvars \<Rightarrow> pubkey \<Rightarrow> pubkey \<times> Role \<Rightarrow> pubkey \<Rightarrow> pubkey \<Rightarrow> pubkey \<Rightarrow> u16
   \<Rightarrow> 'z staking_chain_scheme \<Rightarrow> 'z staking_result" where
  "handle_slash env sv slashing_authority stake_addr destination mint token_program
       misconduct_code w =
     load_config env w (\<lambda>config.
     require (slashing_authority = sc_slashing_authority config) (Program NotSlashingAuthority)
     (load_mint w mint token_program (\<lambda>mint_account.
      require (sc_mint config = mint) ConstraintRaw
     (load_stake env w stake_addr (\<lambda>stake_account.
      load_token w stake_vault_pda (\<lambda>_.
      require (sc_stake_vault_bump config = bump_of env stake_vault_pda) ConstraintSeeds
     (load_token w destination (\<lambda>_.
      require (destination = sc_slash_destination config) ConstraintRaw
     (ok_or (mul_div_u64 (sa_amount stake_account) (ucast (sc_slash_bps config)) BPS_DENOMINATOR)
        (Program Overflow) (\<lambda>slash_amount.
      and_then
        (if slash_amount > 0
         then cpi_transfer env token_program stake_vault_pda mint destination staking_config_pda
                slash_amount (mi_decimals mint_account) w
         else Inr w) (\<lambda>w.
      let min_stake = min_stake_for config (sa_role stake_account) in
      ok_or (checked_sub (sa_amount stake_account) slash_amount) (Program Overflow) (\<lambda>remaining.
      ok_or (checked_add (sa_slashed_total stake_account) slash_amount) (Program Overflow)
        (\<lambda>slashed_total.
      let stake_account = stop_empty_clock
            (stake_account\<lparr>sa_amount := remaining, sa_slashed_total := slashed_total\<rparr>)
      in Inr (emit_staking
           (SlashApplied (stake_account_pda (fst stake_addr) (snd stake_addr))
              (sa_owner stake_account) (sa_role stake_account) misconduct_code slash_amount
              (sa_amount stake_account) (sa_slashed_total stake_account)
              (sa_amount stake_account \<ge> min_stake) destination (unix_timestamp sv))
           (put_stake stake_addr stake_account w)))))))))))))))"

text \<open>\<open>init_if_needed\<close>: an absent receipt is created zeroed.\<close>

definition receipt_or_new ::
  "('z) staking_chain_scheme \<Rightarrow> pubkey \<Rightarrow> StakeRecoveryReceipt" where
  "receipt_or_new w merchant =
     (case sk_receipts w merchant of
        Some r \<Rightarrow> r
      | None \<Rightarrow> \<lparr> rr_merchant = default_pubkey, rr_recovered_total = 0, rr_recovery_count = 0,
                  rr_bump = 0 \<rparr>)"

text \<open>Unbonding tokens first, then active ones.\<close>

definition recover_from_unbonding :: "u64 \<Rightarrow> StakeAccount \<Rightarrow> u64" where
  "recover_from_unbonding debt s = min debt (sa_unbonding_amount s)"

definition recover_from_active :: "u64 \<Rightarrow> StakeAccount \<Rightarrow> u64" where
  "recover_from_active debt s =
     min (saturating_sub debt (recover_from_unbonding debt s)) (sa_amount s)"

definition merchant_open_token_vault_pda :: "pubkey \<Rightarrow> pubkey \<Rightarrow> pubkey" where
  "merchant_open_token_vault_pda merchant mint =
     Pda EscrowProgram [SeedBytes LIQUIDITY_VAULT_TOKENS_SEED, SeedKey merchant, SeedKey mint]"

definition stake_recovery_claim_pda :: "pubkey \<Rightarrow> pubkey \<Rightarrow> pubkey" where
  "stake_recovery_claim_pda merchant mint =
     Pda EscrowProgram [SeedBytes STAKE_RECOVERY_CLAIM_SEED, SeedKey merchant, SeedKey mint]"

definition handle_recover_stake_shortfall ::
  "env \<Rightarrow> sysvars \<Rightarrow> pubkey \<times> Role \<Rightarrow> pubkey \<Rightarrow> pubkey \<Rightarrow> raw_account
   \<Rightarrow> 'z staking_chain_scheme \<Rightarrow> 'z staking_result" where
  "handle_recover_stake_shortfall env sv stake_addr mint token_program recovery_claim w =
     load_mint w mint token_program (\<lambda>mint_account.
     load_config env w (\<lambda>config.
     require (sc_mint config = mint) (Program WrongMint)
     (ok_or (sk_stakes w stake_addr) AccountNotInitialized (\<lambda>stake_account.
      require (stake_addr = (sa_owner stake_account, Merchant)
               \<and> sa_bump stake_account
                   = bump_of env (stake_account_pda (sa_owner stake_account) Merchant))
        ConstraintSeeds
     (require (sa_role stake_account = Merchant) (Program NotAStakeAccount)
     (load_token w stake_vault_pda (\<lambda>_.
      require (sc_stake_vault_bump config = bump_of env stake_vault_pda) ConstraintSeeds
     (let merchant = sa_owner stake_account;
          receipt = receipt_or_new w merchant;
          token_vault = merchant_open_token_vault_pda merchant mint
      in
      load_token w token_vault (\<lambda>_.
      and_then (read_stake_recovery_claim env recovery_claim merchant mint) (\<lambda>claim.
      let owed_total = owed_total_of claim;
          debt = outstanding owed_total (rr_recovered_total receipt)
      in
      require (debt > 0) (Program NothingToRecover)
     (let from_unbonding = recover_from_unbonding debt stake_account;
          from_active = recover_from_active debt stake_account
      in
      ok_or (checked_add from_unbonding from_active) (Program Overflow) (\<lambda>amount.
      require (amount > 0) (Program NoStakeToRecoverFrom)
     (and_then (cpi_transfer env token_program stake_vault_pda mint token_vault
                  staking_config_pda amount (mi_decimals mint_account) w) (\<lambda>w.
      let min_stake = min_stake_for config Merchant in
      ok_or (checked_sub (sa_unbonding_amount stake_account) from_unbonding) (Program Overflow)
        (\<lambda>unbonding.
      ok_or (checked_sub (sa_amount stake_account) from_active) (Program Overflow) (\<lambda>active.
      let stake_account = stop_empty_clock
            (stake_account\<lparr>sa_unbonding_amount := unbonding, sa_amount := active\<rparr>)
      in
      ok_or (checked_add (rr_recovered_total receipt) amount) (Program Overflow) (\<lambda>recovered.
      ok_or (checked_add (rr_recovery_count receipt) 1) (Program Overflow) (\<lambda>count.
      let receipt = \<lparr> rr_merchant = merchant, rr_recovered_total = recovered,
                      rr_recovery_count = count,
                      rr_bump = bump_of env (stake_recovery_receipt_pda merchant) \<rparr>;
          w = put_stake stake_addr stake_account w;
          w = w\<lparr>sk_receipts := (sk_receipts w)(merchant \<mapsto> receipt)\<rparr>
      in Inr (emit_staking
           (StakeShortfallRecovered (stake_account_pda (fst stake_addr) (snd stake_addr)) merchant
              (stake_recovery_claim_pda merchant mint) amount from_unbonding from_active owed_total
              recovered (outstanding owed_total recovered) (sa_amount stake_account)
              (sa_unbonding_amount stake_account) (sa_amount stake_account \<ge> min_stake)
              token_vault (unix_timestamp sv))
           w)))))))))))))))))))"


section \<open>Rewards\<close>

definition handle_distribute_reward ::
  "env \<Rightarrow> sysvars \<Rightarrow> pubkey \<Rightarrow> pubkey \<times> Role \<Rightarrow> u64 \<Rightarrow> u64 \<Rightarrow> 'z staking_chain_scheme
   \<Rightarrow> 'z staking_result" where
  "handle_distribute_reward env sv rewards_authority stake_addr epoch amount w =
     load_config env w (\<lambda>config.
     require (rewards_authority = sc_rewards_authority config) (Program NotRewardsAuthority)
     (load_stake env w stake_addr (\<lambda>stake_account.
      ok_or (checked_add (sa_pending_rewards stake_account) amount) (Program Overflow) (\<lambda>pending.
      let stake_account = stake_account\<lparr>sa_pending_rewards := pending\<rparr>
      in Inr (emit_staking
           (RewardDistributed (stake_account_pda (fst stake_addr) (snd stake_addr))
              (sa_owner stake_account) (sa_role stake_account) epoch amount pending
              (unix_timestamp sv))
           (put_stake stake_addr stake_account w))))))"

definition handle_claim_rewards ::
  "env \<Rightarrow> sysvars \<Rightarrow> pubkey \<Rightarrow> pubkey \<times> Role \<Rightarrow> pubkey \<Rightarrow> pubkey \<Rightarrow> pubkey
   \<Rightarrow> 'z staking_chain_scheme \<Rightarrow> 'z staking_result" where
  "handle_claim_rewards env sv owner stake_addr to mint token_program w =
     load_mint w mint token_program (\<lambda>mint_account.
     load_config env w (\<lambda>config.
     require (sc_mint config = mint) ConstraintRaw
     (load_own_stake env w owner stake_addr (\<lambda>stake_account.
      load_token w rewards_vault_pda (\<lambda>_.
      require (sc_rewards_vault_bump config = bump_of env rewards_vault_pda) ConstraintSeeds
     (load_token w to (\<lambda>to_account.
      require (ta_mint to_account = mint) ConstraintRaw
     (let amount = sa_pending_rewards stake_account in
      require (amount > 0) (Program NoPendingRewards)
     (and_then (cpi_transfer env token_program rewards_vault_pda mint to staking_config_pda amount
                  (mi_decimals mint_account) w) (\<lambda>w.
      Inr (emit_staking
        (RewardsClaimed (stake_account_pda (fst stake_addr) (snd stake_addr)) owner
           (sa_role stake_account) amount to (unix_timestamp sv))
        (put_stake stake_addr (stake_account\<lparr>sa_pending_rewards := 0\<rparr>) w))))))))))))"

definition handle_fund_rewards_vault ::
  "env \<Rightarrow> sysvars \<Rightarrow> pubkey \<Rightarrow> pubkey \<Rightarrow> pubkey \<Rightarrow> pubkey \<Rightarrow> u64
   \<Rightarrow> 'z staking_chain_scheme \<Rightarrow> 'z staking_result" where
  "handle_fund_rewards_vault env sv funder from mint token_program amount w =
     load_mint w mint token_program (\<lambda>mint_account.
     load_config env w (\<lambda>config.
     require (sc_mint config = mint) ConstraintRaw
     (load_token w rewards_vault_pda (\<lambda>_.
      require (sc_rewards_vault_bump config = bump_of env rewards_vault_pda) ConstraintSeeds
     (load_token w from (\<lambda>from_account.
      require (ta_mint from_account = mint) ConstraintRaw
     (require (\<not> banned w funder) (Program WalletBanned)
     (require (amount > 0) (Program ZeroAmount)
     (and_then (cpi_transfer env token_program from mint rewards_vault_pda funder amount
                  (mi_decimals mint_account) w) (\<lambda>w.
      load_token w rewards_vault_pda (\<lambda>rewards_vault.
      Inr (emit_staking
        (RewardsVaultFunded funder amount (ta_amount rewards_vault) (unix_timestamp sv)) w))))))))))))"

lemmas staking_handler_defs =
  handle_initialize_staking_config_def handle_update_staking_config_def
  handle_initialize_stake_account_def handle_stake_def handle_request_unstake_def
  handle_withdraw_unstaked_def handle_slash_def handle_recover_stake_shortfall_def
  handle_distribute_reward_def handle_claim_rewards_def handle_fund_rewards_vault_def

lemmas load_defs =
  load_mint_def load_token_def load_config_def load_stake_def load_own_stake_def
  require_valid_unbonding_periods_def

end
