(* ===== verification/Staking_Invariants.thy ===== *)
theory Staking_Invariants
  imports Staking_Instructions
begin

text \<open>
  The staking program as a transition system: one step per successful instruction, with the
  rest of the chain moving in between. Its invariant says that the stake vault covers every
  recorded position, active and unbonding, that the age clock of a position runs exactly while
  it holds active stake, and that the configuration is well-formed.
\<close>


section \<open>Steps\<close>

datatype staking_ix =
    IxInitializeStakingConfig pubkey pubkey pubkey InitializeStakingConfigParams
  | IxUpdateStakingConfig pubkey pubkey pubkey UpdateStakingConfigParams
  | IxInitializeStakeAccount pubkey Role
  | IxStake pubkey "pubkey \<times> Role" pubkey pubkey pubkey u64
  | IxRequestUnstake pubkey "pubkey \<times> Role" u64
  | IxWithdrawUnstaked pubkey "pubkey \<times> Role" pubkey pubkey pubkey raw_account
  | IxSlash pubkey "pubkey \<times> Role" pubkey pubkey pubkey u16
  | IxRecoverStakeShortfall "pubkey \<times> Role" pubkey pubkey raw_account
  | IxDistributeReward pubkey "pubkey \<times> Role" u64 u64
  | IxClaimRewards pubkey "pubkey \<times> Role" pubkey pubkey pubkey
  | IxFundRewardsVault pubkey pubkey pubkey pubkey u64

fun staking_dispatch ::
  "env \<Rightarrow> sysvars \<Rightarrow> staking_ix \<Rightarrow> 'z staking_chain_scheme \<Rightarrow> 'z staking_result" where
  "staking_dispatch env sv (IxInitializeStakingConfig admin mint tp params) w =
     handle_initialize_staking_config env admin mint tp params w"
| "staking_dispatch env sv (IxUpdateStakingConfig admin mint dest params) w =
     handle_update_staking_config env sv admin mint dest params w"
| "staking_dispatch env sv (IxInitializeStakeAccount owner role) w =
     handle_initialize_stake_account env owner role w"
| "staking_dispatch env sv (IxStake owner addr from mint tp amount) w =
     handle_stake env sv owner addr from mint tp amount w"
| "staking_dispatch env sv (IxRequestUnstake owner addr amount) w =
     handle_request_unstake env sv owner addr amount w"
| "staking_dispatch env sv (IxWithdrawUnstaked owner addr to mint tp claim) w =
     handle_withdraw_unstaked env sv owner addr to mint tp claim w"
| "staking_dispatch env sv (IxSlash authority addr dest mint tp code) w =
     handle_slash env sv authority addr dest mint tp code w"
| "staking_dispatch env sv (IxRecoverStakeShortfall addr mint tp claim) w =
     handle_recover_stake_shortfall env sv addr mint tp claim w"
| "staking_dispatch env sv (IxDistributeReward authority addr epoch amount) w =
     handle_distribute_reward env sv authority addr epoch amount w"
| "staking_dispatch env sv (IxClaimRewards owner addr to mint tp) w =
     handle_claim_rewards env sv owner addr to mint tp w"
| "staking_dispatch env sv (IxFundRewardsVault funder from mint tp amount) w =
     handle_fund_rewards_vault env sv funder from mint tp amount w"

text \<open>The wallet that signs for tokens, and the fixed lengths of array arguments.\<close>

fun staking_signer :: "staking_ix \<Rightarrow> pubkey option" where
  "staking_signer (IxStake owner _ _ _ _ _) = Some owner"
| "staking_signer (IxFundRewardsVault funder _ _ _ _) = Some funder"
| "staking_signer _ = None"

fun staking_ix_wf :: "staking_ix \<Rightarrow> bool" where
  "staking_ix_wf (IxInitializeStakingConfig _ _ _ p) \<longleftrightarrow>
     length (ip_min_stake_by_role p) = Role_COUNT
     \<and> length (ip_unbonding_period_secs_by_role p) = Role_COUNT"
| "staking_ix_wf (IxUpdateStakingConfig _ _ _ p) \<longleftrightarrow>
     length (up_min_stake_by_role p) = Role_COUNT
     \<and> length (up_unbonding_period_secs_by_role p) = Role_COUNT"
| "staking_ix_wf _ \<longleftrightarrow> True"

text \<open>What only the staking program writes. Between two of its instructions the rest of the chain
  may do anything but touch these accounts or draw on the program's token accounts.\<close>

definition staking_frame :: "'z staking_chain_scheme \<Rightarrow> 'z staking_chain_scheme \<Rightarrow> bool" where
  "staking_frame w w' \<longleftrightarrow> sk_config w' = sk_config w \<and> sk_stakes w' = sk_stakes w
     \<and> sk_receipts w' = sk_receipts w \<and> sk_log w' = sk_log w
     \<and> outside StakingProgram (c_tokens w) (c_tokens w')"

inductive staking_step ::
  "env \<Rightarrow> i64 \<times> 'z staking_chain_scheme \<Rightarrow> i64 \<times> 'z staking_chain_scheme \<Rightarrow> bool" for env where
  staking_step_ix:
    "\<lbrakk> t \<le> unix_timestamp sv; in_i64 (unix_timestamp sv); staking_ix_wf ix;
       \<forall>k. staking_signer ix = Some k \<longrightarrow> \<not> signs_for StakingProgram k;
       staking_dispatch env sv ix w = Inr w' \<rbrakk>
     \<Longrightarrow> staking_step env (t, w) (unix_timestamp sv, w')"
| staking_step_outside:
    "\<lbrakk> t \<le> t'; in_i64 t'; staking_frame w w' \<rbrakk> \<Longrightarrow> staking_step env (t, w) (t', w')"

definition staking_genesis :: "i64 \<times> 'z staking_chain_scheme \<Rightarrow> bool" where
  "staking_genesis s \<longleftrightarrow> 0 < fst s \<and> in_i64 (fst s) \<and> sk_config (snd s) = None
     \<and> sk_stakes (snd s) = Map.empty \<and> sk_receipts (snd s) = Map.empty
     \<and> (\<forall>k. signs_for StakingProgram k \<longrightarrow> c_tokens (snd s) k = None)"


section \<open>The invariant\<close>

definition stake_weight :: "StakeAccount \<Rightarrow> nat" where
  "stake_weight s = unat (sa_amount s) + unat (sa_unbonding_amount s)"

definition staked_total :: "('z) staking_chain_scheme \<Rightarrow> nat" where
  "staked_total w = map_total stake_weight (sk_stakes w)"

definition config_ok :: "env \<Rightarrow> StakingConfig \<Rightarrow> bool" where
  "config_ok env c \<longleftrightarrow>
     length (sc_min_stake_by_role c) = Role_COUNT
     \<and> length (sc_unbonding_period_secs_by_role c) = Role_COUNT
     \<and> list_all (\<lambda>secs. secs > 0) (sc_unbonding_period_secs_by_role c)
     \<and> unat (sc_slash_bps c) \<le> 10000
     \<and> sc_bump c = bump_of env staking_config_pda
     \<and> sc_stake_vault_bump c = bump_of env stake_vault_pda
     \<and> sc_rewards_vault_bump c = bump_of env rewards_vault_pda"

definition vault_ok :: "ledger \<Rightarrow> pubkey \<Rightarrow> pubkey \<Rightarrow> bool" where
  "vault_ok L mint k \<longleftrightarrow> (\<exists>v. L k = Some v \<and> ta_mint v = mint \<and> ta_owner v = staking_config_pda
     \<and> ta_delegate v = None)"

definition stake_ok :: "env \<Rightarrow> i64 \<Rightarrow> pubkey \<times> Role \<Rightarrow> StakeAccount \<Rightarrow> bool" where
  "stake_ok env t addr s \<longleftrightarrow>
     addr = (sa_owner s, sa_role s)
     \<and> sa_bump s = bump_of env (stake_account_pda (sa_owner s) (sa_role s))
     \<and> (if sa_amount s = 0 then sa_first_staked_at s = 0
        else 0 < sa_first_staked_at s \<and> sa_first_staked_at s \<le> t)"

definition stakes_ok :: "env \<Rightarrow> i64 \<Rightarrow> (pubkey \<times> Role \<rightharpoonup> StakeAccount) \<Rightarrow> bool" where
  "stakes_ok env t S \<longleftrightarrow> (\<forall>addr x. S addr = Some x \<longrightarrow> stake_ok env t addr x)"

definition receipts_ok :: "(pubkey \<rightharpoonup> StakeRecoveryReceipt) \<Rightarrow> bool" where
  "receipts_ok R \<longleftrightarrow> (\<forall>m r. R m = Some r \<longrightarrow> rr_merchant r = m)"

definition vaults_ok :: "env \<Rightarrow> StakingConfig option \<Rightarrow> ledger \<Rightarrow> bool" where
  "vaults_ok env config L =
     (case config of
        None \<Rightarrow> L stake_vault_pda = None \<and> L rewards_vault_pda = None
      | Some c \<Rightarrow> config_ok env c \<and> vault_ok L (sc_mint c) stake_vault_pda
                  \<and> vault_ok L (sc_mint c) rewards_vault_pda)"

definition staking_inv :: "env \<Rightarrow> i64 \<Rightarrow> 'z staking_chain_scheme \<Rightarrow> bool" where
  "staking_inv env t w \<longleftrightarrow>
     0 < t \<and> in_i64 t \<and> finite (dom (sk_stakes w)) \<and> stakes_ok env t (sk_stakes w)
     \<and> receipts_ok (sk_receipts w) \<and> vaults_ok env (sk_config w) (c_tokens w)
     \<and> staked_total w \<le> balance (c_tokens w) stake_vault_pda"

lemma stakes_okD: "stakes_ok env t S \<Longrightarrow> S addr = Some x \<Longrightarrow> stake_ok env t addr x"
  unfolding stakes_ok_def by blast

lemma stake_ok_later: "stake_ok env t addr s \<Longrightarrow> t \<le> t' \<Longrightarrow> stake_ok env t' addr s"
  by (auto simp: stake_ok_def split: if_splits)

lemma vault_ok_same:
  assumes "vault_ok L mint k" and "same_accounts L L'"
  shows "vault_ok L' mint k"
proof -
  from assms(1) obtain v where v: "L k = Some v" "ta_mint v = mint"
      "ta_owner v = staking_config_pda" "ta_delegate v = None"
    by (auto simp: vault_ok_def)
  from assms(2) v(1) obtain v' where "L' k = Some v'" "same_account v v'"
    by (rule same_accounts_Some)
  with v show ?thesis by (auto simp: vault_ok_def same_account_def)
qed

lemma vault_ok_outside:
  assumes "vault_ok L mint k" and "outside StakingProgram L L'"
  shows "vault_ok L' mint k" and "balance L k \<le> balance L' k"
proof -
  from assms(1) obtain v where v: "L k = Some v" "ta_mint v = mint"
      "ta_owner v = staking_config_pda" "ta_delegate v = None"
    by (auto simp: vault_ok_def)
  have "signs_for StakingProgram (ta_owner v)" by (simp add: v(3))
  with assms(2) v(1) obtain v' where "L' k = Some v'" "same_account v v'"
      "unat (ta_amount v) \<le> unat (ta_amount v')"
    using v(4) unfolding outside_def by blast
  with v show "vault_ok L' mint k" "balance L k \<le> balance L' k"
    by (auto simp: vault_ok_def same_account_def)
qed

lemma stakes_ok_upd:
  assumes "stakes_ok env t S" and "t \<le> t'" and "stake_ok env t' addr s"
  shows "stakes_ok env t' (S(addr \<mapsto> s))"
  unfolding stakes_ok_def
proof (intro allI impI)
  fix a x assume x: "(S(addr \<mapsto> s)) a = Some x"
  show "stake_ok env t' a x"
  proof (cases "a = addr")
    case False
    with x have "S a = Some x" by simp
    with assms(1) have "stake_ok env t a x" by (rule stakes_okD)
    then show ?thesis using assms(2) by (rule stake_ok_later)
  qed (use x assms(3) in simp)
qed

lemma stakes_ok_later: "stakes_ok env t S \<Longrightarrow> t \<le> t' \<Longrightarrow> stakes_ok env t' S"
  unfolding stakes_ok_def using stake_ok_later by blast

lemma receipts_ok_upd:
  "receipts_ok R \<Longrightarrow> rr_merchant r = m \<Longrightarrow> receipts_ok (R(m \<mapsto> r))"
  by (simp add: receipts_ok_def)

lemma vaults_ok_same:
  assumes "vaults_ok env config L" and "same_accounts L L'"
  shows "vaults_ok env config L'"
  using assms(1)
  by (cases config)
     (simp_all add: vaults_ok_def vault_ok_same [OF _ assms(2)] same_accounts_None [OF assms(2)])

text \<open>A position changes and the ledger moves so that the vault still covers it.\<close>

lemma staking_inv_update:
  assumes inv: "staking_inv env t w" and later: "t \<le> t'" "in_i64 t'"
    and same: "same_accounts (c_tokens w) (c_tokens w')"
    and config: "sk_config w' = sk_config w"
    and s: "sk_stakes w addr = Some s" and s': "stake_ok env t' addr s'"
    and stakes': "sk_stakes w' = (sk_stakes w)(addr \<mapsto> s')"
    and cover: "stake_weight s' + balance (c_tokens w) stake_vault_pda
                \<le> stake_weight s + balance (c_tokens w') stake_vault_pda"
    and R: "receipts_ok (sk_receipts w')"
  shows "staking_inv env t' w'"
proof -
  have fin: "finite (dom (sk_stakes w))" using inv by (simp add: staking_inv_def)
  have "staked_total w' + stake_weight s = staked_total w + stake_weight s'"
    using map_total_upd [OF fin, of stake_weight addr s'] s
    by (simp add: staked_total_def stakes')
  moreover have "staked_total w \<le> balance (c_tokens w) stake_vault_pda"
    using inv by (simp add: staking_inv_def)
  ultimately have total: "staked_total w' \<le> balance (c_tokens w') stake_vault_pda"
    using cover by linarith
  have "vaults_ok env (sk_config w') (c_tokens w')"
    using inv same by (auto simp: staking_inv_def config intro: vaults_ok_same)
  moreover have "stakes_ok env t' (sk_stakes w')"
    unfolding stakes' using inv later(1) s'
    by (intro stakes_ok_upd) (simp_all add: staking_inv_def)
  ultimately show ?thesis
    using inv later fin total R by (simp add: staking_inv_def stakes')
qed

text \<open>Instructions that touch no position: the vaults only gain and the config stays sound.\<close>

lemma staking_inv_no_position:
  assumes inv: "staking_inv env t w" and later: "t \<le> t'" "in_i64 t'"
    and same: "sk_stakes w' = sk_stakes w" "sk_receipts w' = sk_receipts w"
    and vaults: "vaults_ok env (sk_config w') (c_tokens w')"
    and gain: "balance (c_tokens w) stake_vault_pda \<le> balance (c_tokens w') stake_vault_pda"
  shows "staking_inv env t' w'"
  using inv later vaults gain stakes_ok_later [of env t "sk_stakes w" t']
  by (simp add: staking_inv_def same staked_total_def)

lemma staking_inv_stake_ok:
  "staking_inv env t w \<Longrightarrow> sk_stakes w addr = Some s \<Longrightarrow> stake_ok env t addr s"
  unfolding staking_inv_def by (blast intro: stakes_okD)

lemma staking_inv_vault:
  assumes "staking_inv env t w" and "sk_config w = Some c"
  shows "vault_ok (c_tokens w) (sc_mint c) stake_vault_pda"
    and "vault_ok (c_tokens w) (sc_mint c) rewards_vault_pda"
    and "config_ok env c"
  using assms by (auto simp: staking_inv_def vaults_ok_def)

lemma staking_inv_cover:
  assumes "staking_inv env t w" and "sk_stakes w addr = Some s"
  shows "stake_weight s \<le> balance (c_tokens w) stake_vault_pda"
  using assms map_total_member [of "sk_stakes w" addr s stake_weight]
  by (simp add: staking_inv_def staked_total_def)


section \<open>Every instruction preserves it\<close>

lemmas staking_world_simps = put_stake_def emit_staking_def

context token_env
begin

text \<open>A wallet that is not one of the program's addresses cannot move the program's tokens.\<close>

lemma user_transfer:
  assumes "cpi_transfer E tp from mint to auth a d w = Inr w1"
    and "\<not> signs_for StakingProgram auth"
  obtains L' where "w1 = w\<lparr>c_tokens := L'\<rparr>" and "same_accounts (c_tokens w) L'"
    and "\<And>m k. vault_ok (c_tokens w) m k \<Longrightarrow>
           balance L' k = balance (c_tokens w) k + (if k = to then unat a else 0)"
proof -
  from assms(1) obtain L' where L': "w1 = w\<lparr>c_tokens := L'\<rparr>" "moved (c_tokens w) from to a L'"
    by (rule cpi_transfer_moved)
  have "balance L' k = balance (c_tokens w) k + (if k = to then unat a else 0)"
    if "vault_ok (c_tokens w) m k" for m k
  proof -
    from assms(1) obtain s where s: "c_tokens w from = Some s"
        "ta_owner s = auth \<or> ta_delegate s = Some auth"
      by (rule cpi_transfer_authority)
    have "k \<noteq> from"
      using that s assms(2) by (auto simp: vault_ok_def)
    then show ?thesis using moved_balance [OF L'(2), of k] by simp
  qed
  with L' that moved_same show thesis by blast
qed

lemma vault_payout:
  assumes "cpi_transfer E tp from mint to auth a d w = Inr w1"
  obtains L' where "w1 = w\<lparr>c_tokens := L'\<rparr>" and "same_accounts (c_tokens w) L'"
    and "balance (c_tokens w) from \<le> balance L' from + unat a"
    and "\<And>k. k \<noteq> from \<Longrightarrow> balance (c_tokens w) k \<le> balance L' k"
  using assms moved_same moved_from moved_other by (elim cpi_transfer_moved) blast

lemma stake_inv:
  assumes inv: "staking_inv E t w" and later: "t \<le> unix_timestamp sv" "in_i64 (unix_timestamp sv)"
    and signer: "\<not> signs_for StakingProgram owner"
    and ok: "handle_stake E sv owner addr from mint tp amount w = Inr w'"
  shows "staking_inv E (unix_timestamp sv) w'"
proof -
  from ok obtain c s new d w1 where c: "sk_config w = Some c" and s: "sk_stakes w addr = Some s"
    and new: "unat new = unat (sa_amount s) + unat amount"
    and tr: "(cpi_transfer E tp from mint stake_vault_pda owner amount d w
              :: StakingErrorCode tx_error + _) = Inr w1"
    and w': "w' = put_stake addr ((if sa_amount s = 0 \<and> new > 0
               then s\<lparr>sa_first_staked_at := unix_timestamp sv\<rparr> else s)\<lparr>sa_amount := new\<rparr>) w1"
    by (auto simp: handle_stake_def load_defs checked_add_Some Let_def)
  from tr signer obtain L' where L': "w1 = w\<lparr>c_tokens := L'\<rparr>" "same_accounts (c_tokens w) L'"
      "\<And>m k. vault_ok (c_tokens w) m k \<Longrightarrow>
         balance L' k = balance (c_tokens w) k + (if k = stake_vault_pda then unat amount else 0)"
    by (rule user_transfer) blast
  have pos: "0 < unix_timestamp sv" using inv later by (simp add: staking_inv_def)
  have "stake_ok E t addr s" using inv s by (rule staking_inv_stake_ok)
  then have ok': "stake_ok E (unix_timestamp sv) addr ((if sa_amount s = 0 \<and> new > 0
      then s\<lparr>sa_first_staked_at := unix_timestamp sv\<rparr> else s)\<lparr>sa_amount := new\<rparr>)"
    using pos later(1) new by (auto simp: stake_ok_def word_gt_0 unat_eq_0 split: if_splits)
  show ?thesis
    by (rule staking_inv_update [OF inv later _ _ s ok'])
       (use L' new inv staking_inv_vault(1) [OF inv c]
         in \<open>auto simp: w' staking_world_simps stake_weight_def staking_inv_def\<close>)
qed

lemma request_unstake_inv:
  assumes inv: "staking_inv E t w" and later: "t \<le> unix_timestamp sv" "in_i64 (unix_timestamp sv)"
    and ok: "handle_request_unstake E sv owner addr amount w = Inr w'"
  shows "staking_inv E (unix_timestamp sv) w'"
proof -
  from ok obtain s ub rel where s: "sk_stakes w addr = Some s" and le: "amount \<le> sa_amount s"
    and ub: "unat ub = unat (sa_unbonding_amount s) + unat amount"
    and w': "w' = put_stake addr ((stop_empty_clock (s\<lparr>sa_amount := sa_amount s - amount\<rparr>))
        \<lparr>sa_unbonding_amount := ub, sa_unbonding_release_at := rel\<rparr>) w"
    by (auto simp: handle_request_unstake_def load_defs checked_add_Some Let_def)
  have sub: "unat (sa_amount s - amount) + unat amount = unat (sa_amount s)"
    using le by (simp add: unat_sub word_le_nat_alt)
  have "stake_ok E t addr s" using inv s by (rule staking_inv_stake_ok)
  then have ok': "stake_ok E (unix_timestamp sv) addr
        ((stop_empty_clock (s\<lparr>sa_amount := sa_amount s - amount\<rparr>))
        \<lparr>sa_unbonding_amount := ub, sa_unbonding_release_at := rel\<rparr>)"
    using later(1) le by (auto simp: stake_ok_def unat_eq_0 split: if_splits)
  show ?thesis
    by (rule staking_inv_update [OF inv later _ _ s ok'])
       (use ub sub inv in \<open>auto simp: w' staking_world_simps stake_weight_def staking_inv_def\<close>)
qed

lemma withdraw_unstaked_inv:
  assumes inv: "staking_inv E t w" and later: "t \<le> unix_timestamp sv" "in_i64 (unix_timestamp sv)"
    and ok: "handle_withdraw_unstaked E sv owner addr to mint tp claim w = Inr w'"
  shows "staking_inv E (unix_timestamp sv) w'"
proof -
  from ok obtain s d w1 where s: "sk_stakes w addr = Some s"
    and tr: "(cpi_transfer E tp stake_vault_pda mint to staking_config_pda (sa_unbonding_amount s) d w
              :: StakingErrorCode tx_error + _) = Inr w1"
    and w': "w' = put_stake addr (s\<lparr>sa_unbonding_amount := 0\<rparr>) w1"
    by (auto simp: handle_withdraw_unstaked_def load_defs)
  from tr obtain L' where L': "w1 = w\<lparr>c_tokens := L'\<rparr>" "same_accounts (c_tokens w) L'"
      "balance (c_tokens w) stake_vault_pda
         \<le> balance L' stake_vault_pda + unat (sa_unbonding_amount s)"
    by (rule vault_payout) blast
  have "stake_ok E t addr s" using inv s by (rule staking_inv_stake_ok)
  then have ok': "stake_ok E (unix_timestamp sv) addr (s\<lparr>sa_unbonding_amount := 0\<rparr>)"
    using later(1) by (auto simp: stake_ok_def split: if_splits)
  show ?thesis
    by (rule staking_inv_update [OF inv later _ _ s ok'])
       (use L' inv in \<open>auto simp: w' staking_world_simps stake_weight_def staking_inv_def\<close>)
qed

lemma slash_inv:
  assumes inv: "staking_inv E t w" and later: "t \<le> unix_timestamp sv" "in_i64 (unix_timestamp sv)"
    and ok: "handle_slash E sv authority addr dest mint tp code w = Inr w'"
  shows "staking_inv E (unix_timestamp sv) w'"
proof -
  from ok obtain s a d w1 rem tot where s: "sk_stakes w addr = Some s"
    and tr: "(if a > 0 then cpi_transfer E tp stake_vault_pda mint dest staking_config_pda a d w
              else Inr w :: StakingErrorCode tx_error + _) = Inr w1"
    and rem: "unat (sa_amount s) = unat a + unat rem"
    and stakes': "sk_stakes w' = (sk_stakes w1)(addr \<mapsto>
        stop_empty_clock (s\<lparr>sa_amount := rem, sa_slashed_total := tot\<rparr>))"
    and rest: "c_tokens w' = c_tokens w1" "sk_config w' = sk_config w1"
      "sk_receipts w' = sk_receipts w1"
    by (auto simp: handle_slash_def load_defs checked_add_Some checked_sub_Some Let_def
        staking_world_simps)
  have "\<exists>L'. w1 = w\<lparr>c_tokens := L'\<rparr> \<and> same_accounts (c_tokens w) L' \<and>
      balance (c_tokens w) stake_vault_pda \<le> balance L' stake_vault_pda + unat a"
  proof (cases "a > 0")
    case True
    then show ?thesis using tr by (auto elim!: vault_payout)
  next
    case False
    with tr show ?thesis by (intro exI [of _ "c_tokens w"]) simp
  qed
  then obtain L' where L': "w1 = w\<lparr>c_tokens := L'\<rparr>" "same_accounts (c_tokens w) L'"
      "balance (c_tokens w) stake_vault_pda \<le> balance L' stake_vault_pda + unat a"
    by blast
  have "stake_ok E t addr s" using inv s by (rule staking_inv_stake_ok)
  then have ok': "stake_ok E (unix_timestamp sv) addr
        (stop_empty_clock (s\<lparr>sa_amount := rem, sa_slashed_total := tot\<rparr>))"
    using later(1) rem by (auto simp: stake_ok_def unat_eq_0 split: if_splits)
  show ?thesis
    by (rule staking_inv_update [OF inv later _ _ s ok'])
       (use L' rem inv in \<open>auto simp: stakes' rest stake_weight_def staking_inv_def\<close>)
qed

text \<open>Everything a successful recovery did, as one elimination rule.\<close>

lemma recover_shortfallE:
  assumes "handle_recover_stake_shortfall E sv addr mint tp claim w = Inr w'"
  obtains c s cv ub act am d w1 where
    "sk_config w = Some c" and "sc_mint c = mint"
    and "sk_stakes w addr = Some s" and "addr = (sa_owner s, Merchant)" and "sa_role s = Merchant"
    and "read_stake_recovery_claim E claim (sa_owner s) mint = Inr cv"
    and "(cpi_transfer E tp stake_vault_pda mint (merchant_open_token_vault_pda (sa_owner s) mint)
            staking_config_pda am d w :: StakingErrorCode tx_error + _) = Inr w1"
    and "0 < unat am"
    and "unat am = min (unat (owed_total_of cv) - receipt_total w (sa_owner s)) (stake_weight s)"
    and "unat (sa_unbonding_amount s) - unat am = unat ub"
    and "unat am + unat ub + unat act = stake_weight s"
    and "c_tokens w' = c_tokens w1" and "sk_config w' = sk_config w1"
    and "sk_stakes w' = (sk_stakes w)(addr \<mapsto>
           stop_empty_clock (s\<lparr>sa_unbonding_amount := ub, sa_amount := act\<rparr>))"
    and "\<exists>r. sk_receipts w' = (sk_receipts w)(sa_owner s \<mapsto> r) \<and> rr_merchant r = sa_owner s
           \<and> unat (rr_recovered_total r) = receipt_total w (sa_owner s) + unat am"
proof -
  have rec: "unat (rr_recovered_total (receipt_or_new w m)) = receipt_total w m" for m
    by (simp add: receipt_or_new_def receipt_total_def split: option.splits)
  from assms obtain c s cv am d w1 ub act r cnt where c: "sk_config w = Some c" "sc_mint c = mint"
    and s: "sk_stakes w addr = Some s" "addr = (sa_owner s, Merchant)" "sa_role s = Merchant"
    and cv: "read_stake_recovery_claim E claim (sa_owner s) mint = Inr cv"
    and tr: "(cpi_transfer E tp stake_vault_pda mint
            (merchant_open_token_vault_pda (sa_owner s) mint)
            staking_config_pda am d w :: StakingErrorCode tx_error + _) = Inr w1"
    and am: "0 < am"
      "checked_add
         (recover_from_unbonding
           (outstanding (owed_total_of cv) (rr_recovered_total (receipt_or_new w (sa_owner s)))) s)
         (recover_from_active
           (outstanding (owed_total_of cv) (rr_recovered_total (receipt_or_new w (sa_owner s)))) s)
       = Some am"
    and ub: "checked_sub (sa_unbonding_amount s)
         (recover_from_unbonding
           (outstanding (owed_total_of cv) (rr_recovered_total (receipt_or_new w (sa_owner s)))) s)
       = Some ub"
    and act: "checked_sub (sa_amount s)
         (recover_from_active
           (outstanding (owed_total_of cv) (rr_recovered_total (receipt_or_new w (sa_owner s)))) s)
       = Some act"
    and r: "checked_add (rr_recovered_total (receipt_or_new w (sa_owner s))) am = Some r"
    and w': "c_tokens w' = c_tokens w1" "sk_config w' = sk_config w1"
      "sk_stakes w' = (sk_stakes w1)(addr \<mapsto>
           stop_empty_clock (s\<lparr>sa_unbonding_amount := ub, sa_amount := act\<rparr>))"
      "sk_receipts w' = (sk_receipts w1)(sa_owner s \<mapsto>
         \<lparr> rr_merchant = sa_owner s, rr_recovered_total = r, rr_recovery_count = cnt,
           rr_bump = bump_of E (stake_recovery_receipt_pda (sa_owner s)) \<rparr>)"
    by (auto simp: handle_recover_stake_shortfall_def load_defs Let_def staking_world_simps)
  from tr obtain L' where w1: "w1 = w\<lparr>c_tokens := L'\<rparr>" by (rule cpi_transfer_moved)
  define D where "D = unat (owed_total_of cv) - receipt_total w (sa_owner s)"
  define U A where "U = unat (sa_unbonding_amount s)" and "A = unat (sa_amount s)"
  note to_nat = checked_add_Some checked_sub_Some recover_from_active_def
    recover_from_unbonding_def unat_min unat_saturating_sub outstanding_def rec
  have num: "0 < unat am" "unat am = min D U + min (D - min D U) A"
      "U = min D U + unat ub" "A = min (D - min D U) A + unat act"
    using am(1) am(2) [unfolded to_nat, folded D_def U_def A_def]
      ub [unfolded to_nat, folded D_def U_def] act [unfolded to_nat, folded D_def U_def A_def]
    by (simp only: word_less_nat_alt unsigned_0)+
  have split: "unat am = min D (A + U)" "U - unat am = unat ub" "unat am + unat ub + unat act = A + U"
    using num(2-4) by linarith+
  have receipts: "\<exists>r. sk_receipts w' = (sk_receipts w)(sa_owner s \<mapsto> r) \<and> rr_merchant r = sa_owner s
      \<and> unat (rr_recovered_total r) = receipt_total w (sa_owner s) + unat am"
    using r by (intro exI conjI) (rule w'(4) [unfolded w1, simplified], simp_all add: checked_add_Some rec)
  show thesis
    by (rule that [OF c s cv tr num(1) _ _ _ w'(1,2) _ receipts])
       (use split w' w1 in \<open>simp_all add: stake_weight_def D_def U_def A_def\<close>)
qed

lemma recover_shortfall_inv:
  assumes inv: "staking_inv E t w" and later: "t \<le> unix_timestamp sv" "in_i64 (unix_timestamp sv)"
    and ok: "handle_recover_stake_shortfall E sv addr mint tp claim w = Inr w'"
  shows "staking_inv E (unix_timestamp sv) w'"
  using ok
proof (cases rule: recover_shortfallE)
  case (1 c s cv ub act am d w1)
  note e = 1
  from e(7) obtain L' where L': "w1 = w\<lparr>c_tokens := L'\<rparr>" "same_accounts (c_tokens w) L'"
      "balance (c_tokens w) stake_vault_pda \<le> balance L' stake_vault_pda + unat am"
    by (rule vault_payout) blast
  have "stake_ok E t addr s" using inv e(3) by (rule staking_inv_stake_ok)
  moreover have "unat act \<le> unat (sa_amount s)"
    using e(10,11) by (auto simp: stake_weight_def)
  ultimately have ok': "stake_ok E (unix_timestamp sv) addr
      (stop_empty_clock (s\<lparr>sa_unbonding_amount := ub, sa_amount := act\<rparr>))"
    using later(1) by (auto simp: stake_ok_def unat_eq_0 split: if_splits)
  have R: "receipts_ok (sk_receipts w')"
    using e(15) inv by (auto simp: staking_inv_def intro: receipts_ok_upd)
  show ?thesis
    by (rule staking_inv_update [OF inv later _ _ e(3) ok' e(14) _ R])
       (use L' e(11-13) in \<open>auto simp: stake_weight_def\<close>)
qed

lemma initialize_stake_account_inv:
  assumes inv: "staking_inv E t w" and later: "t \<le> t'" "in_i64 t'"
    and ok: "handle_initialize_stake_account E owner role w = Inr w'"
  shows "staking_inv E t' w'"
proof -
  define s where "s = \<lparr> sa_owner = owner, sa_role = role, sa_amount = 0, sa_unbonding_amount = 0,
            sa_unbonding_release_at = 0, sa_slashed_total = 0, sa_pending_rewards = 0,
            sa_bump = bump_of E (stake_account_pda owner role), sa_first_staked_at = 0 \<rparr>"
  have none: "sk_stakes w (owner, role) = None" and w': "w' = put_stake (owner, role) s w"
    using ok by (simp_all add: handle_initialize_stake_account_def s_def)
  have fin: "finite (dom (sk_stakes w))" using inv by (simp add: staking_inv_def)
  have "staked_total w' = staked_total w"
    using map_total_upd [OF fin, of stake_weight "(owner, role)" s] none
    by (simp add: staked_total_def w' put_stake_def stake_weight_def s_def)
  moreover have "stakes_ok E t' (sk_stakes w')"
    unfolding w' put_stake_def using inv later(1)
    by (simp, intro stakes_ok_upd) (auto simp: staking_inv_def stake_ok_def s_def)
  ultimately show ?thesis
    using inv later fin by (simp add: staking_inv_def w' put_stake_def)
qed

lemma distribute_reward_inv:
  assumes inv: "staking_inv E t w" and later: "t \<le> unix_timestamp sv" "in_i64 (unix_timestamp sv)"
    and ok: "handle_distribute_reward E sv authority addr epoch amount w = Inr w'"
  shows "staking_inv E (unix_timestamp sv) w'"
proof -
  from ok obtain s p where s: "sk_stakes w addr = Some s"
    and w': "sk_stakes w' = (sk_stakes w)(addr \<mapsto> s\<lparr>sa_pending_rewards := p\<rparr>)"
      "c_tokens w' = c_tokens w" "sk_config w' = sk_config w" "sk_receipts w' = sk_receipts w"
    by (auto simp: handle_distribute_reward_def load_defs Let_def staking_world_simps)
  have "stake_ok E t addr s" using inv s by (rule staking_inv_stake_ok)
  then have ok': "stake_ok E (unix_timestamp sv) addr (s\<lparr>sa_pending_rewards := p\<rparr>)"
    using later(1) by (auto simp: stake_ok_def split: if_splits)
  show ?thesis
    by (rule staking_inv_update [OF inv later _ _ s ok'])
       (use inv in \<open>auto simp: w' stake_weight_def staking_inv_def\<close>)
qed

lemma claim_rewards_inv:
  assumes inv: "staking_inv E t w" and later: "t \<le> unix_timestamp sv" "in_i64 (unix_timestamp sv)"
    and ok: "handle_claim_rewards E sv owner addr to mint tp w = Inr w'"
  shows "staking_inv E (unix_timestamp sv) w'"
proof -
  from ok obtain s d w1 where s: "sk_stakes w addr = Some s"
    and tr: "(cpi_transfer E tp rewards_vault_pda mint to staking_config_pda (sa_pending_rewards s)
              d w :: StakingErrorCode tx_error + _) = Inr w1"
    and w': "sk_stakes w' = (sk_stakes w1)(addr \<mapsto> s\<lparr>sa_pending_rewards := 0\<rparr>)"
      "c_tokens w' = c_tokens w1" "sk_config w' = sk_config w1" "sk_receipts w' = sk_receipts w1"
    by (auto simp: handle_claim_rewards_def load_defs Let_def staking_world_simps)
  from tr obtain L' where L': "w1 = w\<lparr>c_tokens := L'\<rparr>" "same_accounts (c_tokens w) L'"
      "\<And>k. k \<noteq> rewards_vault_pda \<Longrightarrow> balance (c_tokens w) k \<le> balance L' k"
    by (rule vault_payout) blast
  have "stake_ok E t addr s" using inv s by (rule staking_inv_stake_ok)
  then have ok': "stake_ok E (unix_timestamp sv) addr (s\<lparr>sa_pending_rewards := 0\<rparr>)"
    using later(1) by (auto simp: stake_ok_def split: if_splits)
  show ?thesis
    by (rule staking_inv_update [OF inv later _ _ s ok'])
       (use inv L' in \<open>auto simp: w' stake_weight_def staking_inv_def\<close>)
qed

lemma fund_rewards_vault_inv:
  assumes inv: "staking_inv E t w" and later: "t \<le> unix_timestamp sv" "in_i64 (unix_timestamp sv)"
    and signer: "\<not> signs_for StakingProgram funder"
    and ok: "handle_fund_rewards_vault E sv funder from mint tp amount w = Inr w'"
  shows "staking_inv E (unix_timestamp sv) w'"
proof -
  from ok obtain c d w1 where c: "sk_config w = Some c"
    and tr: "(cpi_transfer E tp from mint rewards_vault_pda funder amount d w
              :: StakingErrorCode tx_error + _) = Inr w1"
    and w': "sk_stakes w' = sk_stakes w1" "c_tokens w' = c_tokens w1"
      "sk_config w' = sk_config w1" "sk_receipts w' = sk_receipts w1"
    by (auto simp: handle_fund_rewards_vault_def load_defs staking_world_simps)
  from tr signer obtain L' where L': "w1 = w\<lparr>c_tokens := L'\<rparr>" "same_accounts (c_tokens w) L'"
      "\<And>m k. vault_ok (c_tokens w) m k \<Longrightarrow> balance L' k
         = balance (c_tokens w) k + (if k = rewards_vault_pda then unat amount else 0)"
    by (rule user_transfer) blast
  have "vaults_ok E (sk_config w) L'"
    by (rule vaults_ok_same [OF _ L'(2)]) (use inv in \<open>simp add: staking_inv_def\<close>)
  then show ?thesis
    by (intro staking_inv_no_position [OF inv later])
       (use L' staking_inv_vault(1) [OF inv c] in \<open>simp_all add: w'\<close>)
qed

lemma update_staking_config_inv:
  assumes inv: "staking_inv E t w" and later: "t \<le> unix_timestamp sv" "in_i64 (unix_timestamp sv)"
    and wf: "length (up_min_stake_by_role p) = Role_COUNT"
      "length (up_unbonding_period_secs_by_role p) = Role_COUNT"
    and ok: "handle_update_staking_config E sv admin mint dest p w = Inr w'"
  shows "staking_inv E (unix_timestamp sv) w'"
proof -
  from ok obtain c c' where c: "sk_config w = Some c"
    and c': "sk_config w' = Some c'" "sc_mint c' = sc_mint c" "sc_bump c' = sc_bump c"
      "sc_stake_vault_bump c' = sc_stake_vault_bump c"
      "sc_rewards_vault_bump c' = sc_rewards_vault_bump c"
      "sc_min_stake_by_role c' = up_min_stake_by_role p"
      "sc_unbonding_period_secs_by_role c' = up_unbonding_period_secs_by_role p"
      "sc_slash_bps c' = up_slash_bps p"
    and checks: "ucast (up_slash_bps p) \<le> BPS_DENOMINATOR"
      "list_all (\<lambda>secs. secs > 0) (up_unbonding_period_secs_by_role p)"
    and w': "sk_stakes w' = sk_stakes w" "c_tokens w' = c_tokens w" "sk_receipts w' = sk_receipts w"
    by (auto simp: handle_update_staking_config_def load_defs staking_world_simps Let_def)
  have "unat (up_slash_bps p) \<le> 10000"
    using checks(1) by (simp add: word_le_nat_alt BPS_DENOMINATOR_def)
  then have "vaults_ok E (sk_config w') (c_tokens w')"
    using staking_inv_vault [OF inv c] c' checks wf by (simp add: vaults_ok_def config_ok_def w')
  then show ?thesis
    by (intro staking_inv_no_position [OF inv later]) (simp_all add: w')
qed

lemma initialize_staking_config_inv:
  assumes inv: "staking_inv E t w" and later: "t \<le> t'" "in_i64 t'"
    and wf: "length (ip_min_stake_by_role p) = Role_COUNT"
      "length (ip_unbonding_period_secs_by_role p) = Role_COUNT"
    and ok: "handle_initialize_staking_config E admin mint tp p w = Inr w'"
  shows "staking_inv E t' w'"
proof -
  from ok have none: "sk_config w = None"
    and tokens: "c_tokens w' = (c_tokens w)
      (stake_vault_pda \<mapsto> \<lparr> ta_mint = mint, ta_owner = staking_config_pda, ta_amount = 0,
         ta_delegate = None, ta_frozen = False \<rparr>,
       rewards_vault_pda \<mapsto> \<lparr> ta_mint = mint, ta_owner = staking_config_pda, ta_amount = 0,
         ta_delegate = None, ta_frozen = False \<rparr>)"
    and w': "sk_stakes w' = sk_stakes w" "sk_receipts w' = sk_receipts w"
    and c': "\<exists>c. sk_config w' = Some c \<and> sc_mint c = mint \<and> config_ok E c"
    using wf
    by (auto simp: handle_initialize_staking_config_def load_defs init_token_def config_ok_def
        word_le_nat_alt BPS_DENOMINATOR_def)
  have "c_tokens w stake_vault_pda = None"
    using inv none by (simp add: staking_inv_def vaults_ok_def)
  moreover have "vaults_ok E (sk_config w') (c_tokens w')"
    using c' by (auto simp: vaults_ok_def vault_ok_def tokens)
  ultimately show ?thesis
    by (intro staking_inv_no_position [OF inv later]) (simp_all add: w')
qed

end

end
