(* ===== verification/Staking_Properties.thy ===== *)
theory Staking_Properties
  imports Staking_Invariants
begin

text \<open>
  What the staking program guarantees, stated over its reachable states and over every
  successful or failing instruction, with a small concrete history (a funded wallet that
  configures, stakes and leaves) as the witness of each.
\<close>

section \<open>Reachability\<close>

lemma staking_inv_genesis: "staking_genesis (t, w) \<Longrightarrow> staking_inv env t w"
  by (simp add: staking_genesis_def staking_inv_def stakes_ok_def receipts_ok_def vaults_ok_def
      staked_total_def map_total_def stake_vault_pda_def rewards_vault_pda_def)

lemma staking_inv_outside:
  assumes inv: "staking_inv env t w" and later: "t \<le> t'" "in_i64 t'"
    and frame: "staking_frame w w'"
  shows "staking_inv env t' w'"
proof (rule staking_inv_no_position [OF inv later])
  have out: "outside StakingProgram (c_tokens w) (c_tokens w')"
    using frame by (simp add: staking_frame_def)
  have "vaults_ok env (sk_config w) (c_tokens w') \<and> balance (c_tokens w) stake_vault_pda
      \<le> balance (c_tokens w') stake_vault_pda"
  proof (cases "sk_config w")
    case None
    then have "c_tokens w stake_vault_pda = None" "c_tokens w rewards_vault_pda = None"
      using inv by (simp_all add: staking_inv_def vaults_ok_def)
    with out None show ?thesis
      by (simp add: outside_def vaults_ok_def stake_vault_pda_def rewards_vault_pda_def)
  next
    case (Some c)
    with vault_ok_outside [OF staking_inv_vault(1) [OF inv Some] out]
      vault_ok_outside [OF staking_inv_vault(2) [OF inv Some] out] staking_inv_vault(3) [OF inv Some]
    show ?thesis by (simp add: vaults_ok_def)
  qed
  then show "vaults_ok env (sk_config w') (c_tokens w')"
    and "balance (c_tokens w) stake_vault_pda \<le> balance (c_tokens w') stake_vault_pda"
    using frame by (simp_all add: staking_frame_def)
qed (use frame in \<open>simp_all add: staking_frame_def\<close>)

context token_env
begin

lemma staking_dispatch_inv:
  assumes inv: "staking_inv E t w" and later: "t \<le> unix_timestamp sv" "in_i64 (unix_timestamp sv)"
    and wf: "staking_ix_wf ix"
    and signer: "\<forall>k. staking_signer ix = Some k \<longrightarrow> \<not> signs_for StakingProgram k"
    and ok: "staking_dispatch E sv ix w = Inr w'"
  shows "staking_inv E (unix_timestamp sv) w'"
  using assms
  by (cases ix)
     (auto dest: initialize_staking_config_inv update_staking_config_inv
       initialize_stake_account_inv stake_inv request_unstake_inv withdraw_unstaked_inv slash_inv
       recover_shortfall_inv distribute_reward_inv claim_rewards_inv fund_rewards_vault_inv)

lemma staking_step_inv:
  "staking_step E (t, w) (t', w') \<Longrightarrow> staking_inv E t w \<Longrightarrow> staking_inv E t' w'"
  by (erule staking_step.cases) (auto intro: staking_dispatch_inv staking_inv_outside)

end

sublocale token_env \<subseteq> staking_sys: invariant_system staking_genesis "staking_step E"
  "\<lambda>(t, w). staking_inv E t w"
  by unfold_locales (auto intro: staking_inv_genesis staking_step_inv)

context token_env
begin

lemma staking_reachable_inv:
  "reachable staking_genesis (staking_step E) (t, w) \<Longrightarrow> staking_inv E t w"
  using staking_sys.reachable_inv by fastforce

end


section \<open>A concrete history\<close>

text \<open>Running a list of timed instructions, and that a run stays reachable.\<close>

fun staking_run ::
  "env \<Rightarrow> (i64 \<times> staking_ix) list \<Rightarrow> staking_chain \<Rightarrow> StakingErrorCode tx_error + staking_chain" where
  "staking_run env [] w = Inr w"
| "staking_run env ((t, ix) # ixs) w =
     and_then (staking_dispatch env \<lparr> unix_timestamp = t, slot_hashes = [] \<rparr> ix w)
       (staking_run env ixs)"

fun staking_timed :: "i64 \<Rightarrow> (i64 \<times> staking_ix) list \<Rightarrow> bool" where
  "staking_timed t [] \<longleftrightarrow> True"
| "staking_timed t ((t', ix) # ixs) \<longleftrightarrow> t \<le> t' \<and> in_i64 t' \<and> staking_ix_wf ix
     \<and> (case staking_signer ix of None \<Rightarrow> True | Some k \<Rightarrow> \<not> signs_for StakingProgram k)
     \<and> staking_timed t' ixs"

fun last_time :: "i64 \<Rightarrow> (i64 \<times> 'a) list \<Rightarrow> i64" where
  "last_time t [] = t"
| "last_time t ((t', ix) # ixs) = last_time t' ixs"

lemma staking_run_reachable:
  assumes "reachable staking_genesis (staking_step env) (t, w)"
    and "staking_timed t ixs" and "staking_run env ixs w = Inr w'"
  shows "reachable staking_genesis (staking_step env) (last_time t ixs, w')"
  using assms
proof (induction ixs arbitrary: t w)
  case (Cons x ixs)
  obtain t1 ix where x: "x = (t1, ix)" by (cases x)
  from Cons.prems(3) x obtain w1 where
    w1: "staking_dispatch env \<lparr> unix_timestamp = t1, slot_hashes = [] \<rparr> ix w = Inr w1"
      "staking_run env ixs w1 = Inr w'"
    by auto
  have "staking_step env (t, w) (unix_timestamp \<lparr> unix_timestamp = t1, slot_hashes = [] \<rparr>, w1)"
    by (rule staking_step_ix [OF _ _ _ _ w1(1)])
       (use Cons.prems(2) x in \<open>auto split: option.splits\<close>)
  then have "reachable staking_genesis (staking_step env) (t1, w1)"
    using Cons.prems(1) by (auto intro: reachable_step)
  then show ?case using Cons.IH Cons.prems(2) w1(2) x by auto
qed simp

definition demo_token :: "pubkey \<Rightarrow> u64 \<Rightarrow> token_account" where
  "demo_token owner amount = \<lparr> ta_mint = Key 2, ta_owner = owner, ta_amount = amount,
     ta_delegate = None, ta_frozen = False \<rparr>"

definition demo_params :: InitializeStakingConfigParams where
  "demo_params = \<lparr> ip_min_stake_by_role = [10, 20, 10, 10, 10, 10, 10],
     ip_unbonding_period_secs_by_role = [100, 300, 700, 700, 700, 700, 700],
     ip_slash_bps = 500, ip_slashing_authority = Key 9, ip_slash_destination = Key 4,
     ip_rewards_authority = Key 9 \<rparr>"

definition demo_genesis :: staking_chain where
  "demo_genesis = \<lparr> c_tokens = [Key 3 \<mapsto> demo_token (Key 1) 1000, Key 4 \<mapsto> demo_token (Key 9) 0],
     c_mints = [Key 2 \<mapsto> \<lparr> mi_decimals = 6, mi_program = Prog SplTokenProgram \<rparr>],
     c_bans = (\<lambda>_. no_account), sk_config = None, sk_stakes = Map.empty,
     sk_receipts = Map.empty, sk_log = [] \<rparr>"

definition demo_ixs :: "(i64 \<times> staking_ix) list" where
  "demo_ixs =
     [(1000, IxInitializeStakingConfig (Key 9) (Key 2) (Prog SplTokenProgram) demo_params),
      (1001, IxInitializeStakeAccount (Key 1) Arbitrator),
      (1002, IxStake (Key 1) (Key 1, Arbitrator) (Key 3) (Key 2) (Prog SplTokenProgram) 20)]"

definition demo_config :: StakingConfig where
  "demo_config = \<lparr> sc_admin = Key 9, sc_mint = Key 2,
     sc_min_stake_by_role = [10, 20, 10, 10, 10, 10, 10],
     sc_unbonding_period_secs_by_role = [100, 300, 700, 700, 700, 700, 700],
     sc_slash_bps = 500, sc_slashing_authority = Key 9, sc_slash_destination = Key 4,
     sc_rewards_authority = Key 9, sc_bump = 255, sc_stake_vault_bump = 255,
     sc_rewards_vault_bump = 255 \<rparr>"

definition demo_stake :: StakeAccount where
  "demo_stake = \<lparr> sa_owner = Key 1, sa_role = Arbitrator, sa_amount = 20, sa_unbonding_amount = 0,
     sa_unbonding_release_at = 0, sa_slashed_total = 0, sa_pending_rewards = 0, sa_bump = 255,
     sa_first_staked_at = 1002 \<rparr>"

definition demo_staked :: staking_chain where
  "demo_staked = \<lparr> c_tokens = [Key 3 \<mapsto> demo_token (Key 1) 980, Key 4 \<mapsto> demo_token (Key 9) 0,
       stake_vault_pda \<mapsto> demo_token staking_config_pda 20,
       rewards_vault_pda \<mapsto> demo_token staking_config_pda 0],
     c_mints = [Key 2 \<mapsto> \<lparr> mi_decimals = 6, mi_program = Prog SplTokenProgram \<rparr>],
     c_bans = (\<lambda>_. no_account), sk_config = Some demo_config,
     sk_stakes = [(Key 1, Arbitrator) \<mapsto> demo_stake],
     sk_receipts = Map.empty, sk_log = [] \<rparr>"

lemma pda_not_key [simp]:
  "stake_vault_pda \<noteq> Key x" "rewards_vault_pda \<noteq> Key x" "Key x \<noteq> stake_vault_pda"
  "Key x \<noteq> rewards_vault_pda" "staking_config_pda \<noteq> Key x" "Key x \<noteq> staking_config_pda"
  by (simp_all add: stake_vault_pda_def rewards_vault_pda_def staking_config_pda_def)

lemma ref_env_simps [simp]:
  "bump_of ref_env k = 255" "transfer_checked ref_env = ref_transfer_checked"
  by (simp_all add: ref_env_def)

lemmas staking_eval =
  staking_handler_defs load_defs cpi_transfer_def ref_transfer_checked_def init_token_def
  token_interface_ids_def Let_def checked_add_def checked_sub_def staking_world_simps
  BPS_DENOMINATOR_def is_legal_balance_def min_stake_for_def unbonding_period_for_def

lemma demo_run: "staking_run ref_env demo_ixs demo_genesis = Inr demo_staked"
  by (simp add: demo_ixs_def demo_genesis_def demo_params_def demo_token_def staking_eval
      demo_staked_def demo_config_def demo_stake_def word_le_nat_alt fun_upd_twist)


lemma demo_reachable: "reachable staking_genesis (staking_step ref_env) (1002, demo_staked)"
proof -
  have "staking_genesis (1000, demo_genesis)"
    by (auto simp: staking_genesis_def demo_genesis_def in_i64_def I64_MIN_def I64_MAX_def)
  then have "reachable staking_genesis (staking_step ref_env) (1000, demo_genesis)"
    by (rule reachable_init)
  then have "reachable staking_genesis (staking_step ref_env) (last_time 1000 demo_ixs, demo_staked)"
    by (rule staking_run_reachable [OF _ _ demo_run])
       (simp add: demo_ixs_def in_i64_def I64_MIN_def I64_MAX_def demo_params_def Role_COUNT_def)
  then show ?thesis by (simp add: demo_ixs_def)
qed


section \<open>Solvency\<close>

text \<open>
  C2. In every reachable state the stake vault holds at least the sum of all recorded
  positions, active and unbonding: every staker can be paid out.
\<close>

theorem staking_solvent:
  assumes "token_env env" and "reachable staking_genesis (staking_step env) (t, w)"
  shows "(\<Sum>addr\<in>dom (sk_stakes w). unat (sa_amount (the (sk_stakes w addr)))
            + unat (sa_unbonding_amount (the (sk_stakes w addr))))
         \<le> balance (c_tokens w) stake_vault_pda"
  using token_env.staking_reachable_inv [OF assms]
  by (simp add: staking_inv_def staked_total_def map_total_def stake_weight_def)

theorem staking_solvent_witness:
  "sk_stakes demo_staked (Key 1, Arbitrator) = Some demo_stake \<and>
   (\<Sum>addr\<in>dom (sk_stakes demo_staked). unat (sa_amount (the (sk_stakes demo_staked addr)))
            + unat (sa_unbonding_amount (the (sk_stakes demo_staked addr))))
         \<le> balance (c_tokens demo_staked) stake_vault_pda"
  using staking_solvent [OF ref.token_env_axioms demo_reachable] by (simp add: demo_staked_def)


section \<open>The age clock\<close>

text \<open>
  In every reachable state a position has an age exactly when it holds active stake, and
  the age is the time since the clock was started, never negative.
\<close>

theorem staking_age_clock:
  assumes "token_env env" and "reachable staking_genesis (staking_step env) (t, w)"
    and "sk_stakes w addr = Some s"
  shows "stake_age_secs s t
           = (if sa_amount s = 0 then None else Some (t - sa_first_staked_at s))
         \<and> sa_first_staked_at s \<le> t"
proof -
  have inv: "staking_inv env t w" by (rule token_env.staking_reachable_inv [OF assms(1,2)])
  then have "stake_ok env t addr s" using assms(3) by (rule staking_inv_stake_ok)
  moreover have "0 < t" "in_i64 t" using inv by (simp_all add: staking_inv_def)
  ultimately show ?thesis
    by (auto simp: stake_age_secs_def stake_ok_def saturating_sub_i64_def in_i64_def I64_MIN_def
        I64_MAX_def split: if_splits)
qed

theorem staking_age_clock_witness: "stake_age_secs demo_stake 1002 = Some 0"
  using staking_age_clock [OF ref.token_env_axioms demo_reachable, of "(Key 1, Arbitrator)"]
  by (simp add: demo_staked_def demo_stake_def)


section \<open>Leaving\<close>

text \<open>
  A full exit is always available: in every reachable state the owner of a position can
  request all of it, whatever the current role minimum, and the whole position is then
  unbonding with the role's period to run (the only premise is that the release time is a
  64-bit timestamp).
\<close>

theorem full_exit_available:
  assumes "token_env env" and "reachable staking_genesis (staking_step env) (t, w)"
    and "sk_config w = Some c" and "sk_stakes w (owner, role) = Some s"
    and "in_i64 (unix_timestamp sv + unbonding_period_for c role)"
  shows "\<exists>s'. handle_request_unstake env sv owner (owner, role) (sa_amount s) w
             = Inr (put_stake (owner, role) s' w)
           \<and> sa_amount s' = 0 \<and> sa_first_staked_at s' = 0
           \<and> unat (sa_unbonding_amount s') = unat (sa_amount s) + unat (sa_unbonding_amount s)
           \<and> sa_unbonding_release_at s' = unix_timestamp sv + unbonding_period_for c role
           \<and> unix_timestamp sv < sa_unbonding_release_at s'"
proof -
  have inv: "staking_inv env t w" by (rule token_env.staking_reachable_inv [OF assms(1,2)])
  have ok: "stake_ok env t (owner, role) s" using inv assms(4) by (rule staking_inv_stake_ok)
  have "stake_weight s \<le> balance (c_tokens w) stake_vault_pda"
    using inv assms(4) by (rule staking_inv_cover)
  moreover have "balance (c_tokens w) stake_vault_pda < 2 ^ 64"
    using unat_u64_bound by (simp add: balance_def split: option.splits)
  ultimately obtain ub where ub: "checked_add (sa_unbonding_amount s) (sa_amount s) = Some ub"
    by (simp add: checked_add_def stake_weight_def)
  have cfg: "config_ok env c" using staking_inv_vault(3) [OF inv assms(3)] .
  then have pos: "0 < unbonding_period_for c role"
    using role_index_less [of role] by (simp add: config_ok_def unbonding_period_for_def list_all_length)
  define s' where "s' = (stop_empty_clock (s\<lparr>sa_amount := 0\<rparr>))
    \<lparr>sa_unbonding_amount := ub,
     sa_unbonding_release_at := unix_timestamp sv + unbonding_period_for c role\<rparr>"
  have "handle_request_unstake env sv owner (owner, role) (sa_amount s) w
      = Inr (put_stake (owner, role) s' w)"
    using assms(3-5) ok cfg ub
    by (simp add: handle_request_unstake_def load_defs stake_ok_def config_ok_def Let_def
        is_legal_balance_def checked_add_i64_def s'_def)
  moreover have "unat ub = unat (sa_amount s) + unat (sa_unbonding_amount s)"
    using ub by (simp add: checked_add_Some)
  ultimately show ?thesis using pos by (intro exI [of _ s']) (simp add: s'_def)
qed

theorem full_exit_available_witness:
  "\<exists>s'. handle_request_unstake ref_env \<lparr> unix_timestamp = 2000, slot_hashes = [] \<rparr> (Key 1)
        (Key 1, Arbitrator) 20 demo_staked = Inr (put_stake (Key 1, Arbitrator) s' demo_staked)
     \<and> unat (sa_unbonding_amount s') = 20 \<and> sa_unbonding_release_at s' = 2300"
  using full_exit_available [OF ref.token_env_axioms demo_reachable, of demo_config "Key 1"
      Arbitrator demo_stake "\<lparr> unix_timestamp = 2000, slot_hashes = [] \<rparr>"]
  by (auto simp: demo_staked_def demo_config_def demo_stake_def unbonding_period_for_def in_i64_def
      I64_MIN_def I64_MAX_def)


lemma withdraw_unstakedE:
  assumes "handle_withdraw_unstaked env sv owner addr to mint tp claim w = Inr w'"
  obtains s d w1 where "sk_stakes w addr = Some s" and "addr = (owner, sa_role s)"
    and "sa_owner s = owner" and "sa_unbonding_release_at s \<le> unix_timestamp sv"
    and "sa_role s = Merchant \<Longrightarrow> \<exists>cv n. read_stake_recovery_claim env claim owner mint = Inr cv
           \<and> recovered_total_of env (receipt_info env w owner) owner = Inr n
           \<and> unat (owed_total_of cv) \<le> unat n"
    and "(cpi_transfer env tp stake_vault_pda mint to staking_config_pda (sa_unbonding_amount s) d w
           :: StakingErrorCode tx_error + _) = Inr w1"
    and "w' = put_stake addr (s\<lparr>sa_unbonding_amount := 0\<rparr>) w1"
proof -
  have zero: "outstanding a b = 0 \<longleftrightarrow> unat a \<le> unat b" for a b
    by (simp add: outstanding_def unat_saturating_sub flip: unat_eq_0)
  from assms show thesis
    by (auto simp: handle_withdraw_unstaked_def load_defs zero intro!: that split: if_splits)
qed

text \<open>
  A withdrawal pays the owner exactly the unbonding balance, out of the stake vault and to
  the account named, and only after the release time; a merchant's withdrawal goes through
  only if the recovery claim escrow recorded against them has been recovered in full.
\<close>

theorem withdraw_unstaked_gated:
  assumes "token_env env"
    and "handle_withdraw_unstaked env sv owner addr to mint tp claim w = Inr w'"
  shows "\<exists>s. sk_stakes w addr = Some s \<and> sa_owner s = owner
           \<and> sa_unbonding_release_at s \<le> unix_timestamp sv
           \<and> (sa_role s = Merchant \<longrightarrow>
                (\<exists>cv n. read_stake_recovery_claim env claim owner mint = Inr cv
                   \<and> recovered_total_of env (receipt_info env w owner) owner = Inr n
                   \<and> unat (owed_total_of cv) \<le> unat n))
           \<and> sk_stakes w' = (sk_stakes w)(addr \<mapsto> s\<lparr>sa_unbonding_amount := 0\<rparr>)
           \<and> moved (c_tokens w) stake_vault_pda to (sa_unbonding_amount s) (c_tokens w')"
  using assms(2)
proof (cases rule: withdraw_unstakedE)
  case (1 s d w1)
  from assms(1) 1(6) obtain L' where "w1 = w\<lparr>c_tokens := L'\<rparr>"
      "moved (c_tokens w) stake_vault_pda to (sa_unbonding_amount s) L'"
    by (rule token_env.cpi_transfer_moved)
  with 1 show ?thesis by (intro exI [of _ s]) (simp add: put_stake_def)
qed

definition demo_unbonding :: staking_chain where
  "demo_unbonding = put_stake (Key 1, Arbitrator)
     (demo_stake\<lparr>sa_amount := 0, sa_unbonding_amount := 20, sa_unbonding_release_at := 1302,
        sa_first_staked_at := 0\<rparr>) demo_staked"

lemma demo_unbonding_run:
  "handle_request_unstake ref_env \<lparr> unix_timestamp = 1002, slot_hashes = [] \<rparr> (Key 1)
     (Key 1, Arbitrator) 20 demo_staked = Inr demo_unbonding"
  by (simp add: staking_eval demo_staked_def demo_stake_def demo_config_def demo_unbonding_def
      checked_add_i64_def in_i64_def I64_MIN_def I64_MAX_def stop_empty_clock_def)

lemma demo_unbonding_reachable:
  "reachable staking_genesis (staking_step ref_env) (1002, demo_unbonding)"
  using staking_run_reachable [OF demo_reachable,
      of "[(1002, IxRequestUnstake (Key 1) (Key 1, Arbitrator) 20)]" demo_unbonding]
  by (simp add: demo_unbonding_run in_i64_def I64_MIN_def I64_MAX_def)

theorem withdraw_unstaked_gated_witness:
  "\<exists>w'. handle_withdraw_unstaked ref_env \<lparr> unix_timestamp = 1302, slot_hashes = [] \<rparr> (Key 1)
       (Key 1, Arbitrator) (Key 3) (Key 2) (Prog SplTokenProgram) no_account demo_unbonding = Inr w'
     \<and> moved (c_tokens demo_unbonding) stake_vault_pda (Key 3) 20 (c_tokens w')"
proof -
  have "\<exists>w'. handle_withdraw_unstaked ref_env \<lparr> unix_timestamp = 1302, slot_hashes = [] \<rparr> (Key 1)
       (Key 1, Arbitrator) (Key 3) (Key 2) (Prog SplTokenProgram) no_account demo_unbonding = Inr w'"
    by (simp add: staking_eval demo_unbonding_def demo_staked_def demo_stake_def demo_config_def
        demo_token_def)
  then obtain w' where w': "handle_withdraw_unstaked ref_env
      \<lparr> unix_timestamp = 1302, slot_hashes = [] \<rparr> (Key 1) (Key 1, Arbitrator) (Key 3) (Key 2)
      (Prog SplTokenProgram) no_account demo_unbonding = Inr w'" by blast
  from withdraw_unstaked_gated [OF ref.token_env_axioms w'] w' show ?thesis
    by (auto simp: demo_unbonding_def put_stake_def)
qed

text \<open>
  Once the release time has passed, a reachable unbonding balance can be withdrawn: nobody
  else's action can trap it, provided the token accounts are usable and, for a merchant, the
  recorded debt has been recovered.
\<close>

theorem withdraw_unstaked_available:
  assumes "token_env env" and "reachable staking_genesis (staking_step env) (t, w)"
    and "sk_config w = Some c" and "sk_stakes w (owner, role) = Some s"
    and "sa_unbonding_amount s \<noteq> 0" and "sa_unbonding_release_at s \<le> unix_timestamp sv"
    and "c_mints w (sc_mint c) = Some mi" and "mi_program mi \<in> set token_interface_ids"
    and "\<And>v. c_tokens w stake_vault_pda = Some v \<Longrightarrow> \<not> ta_frozen v"
    and "c_tokens w to = Some dst" and "ta_mint dst = sc_mint c" and "\<not> ta_frozen dst"
    and "unat (ta_amount dst) + unat (sa_unbonding_amount s) < 2 ^ 64"
    and "role = Merchant \<Longrightarrow> wire_key env owner
         \<and> length (account_discriminator env ''StakeRecoveryReceipt'') = 8
         \<and> (\<exists>cv. read_stake_recovery_claim env claim owner (sc_mint c) = Inr cv
               \<and> unat (owed_total_of cv) \<le> receipt_total w owner)"
  shows "\<exists>w'. handle_withdraw_unstaked env sv owner (owner, role) to (sc_mint c) (mi_program mi)
               claim w = Inr w'"
proof -
  have inv: "staking_inv env t w" by (rule token_env.staking_reachable_inv [OF assms(1,2)])
  have ok: "stake_ok env t (owner, role) s" using inv assms(4) by (rule staking_inv_stake_ok)
  have cover: "stake_weight s \<le> balance (c_tokens w) stake_vault_pda"
    using inv assms(4) by (rule staking_inv_cover)
  obtain v where v: "c_tokens w stake_vault_pda = Some v" "ta_mint v = sc_mint c"
      "ta_owner v = staking_config_pda"
    using staking_inv_vault(1) [OF inv assms(3)] by (auto simp: vault_ok_def)
  obtain w1 where w1: "(cpi_transfer env (mi_program mi) stake_vault_pda (sc_mint c) to
      staking_config_pda (sa_unbonding_amount s) (mi_decimals mi) w
      :: StakingErrorCode tx_error + _) = Inr w1"
    using token_env.cpi_transfer_live [OF assms(1) assms(7) refl v(1) assms(10) v(2) assms(11) v(3)
        assms(9) [OF v(1)] assms(12) _ assms(13)] cover v(1)
    by (auto simp: stake_weight_def)
  have gate: "\<exists>cv n. read_stake_recovery_claim env claim owner (sc_mint c) = Inr cv
      \<and> recovered_total_of env (receipt_info env w owner) owner = Inr n
      \<and> outstanding (owed_total_of cv) n = 0" if "role = Merchant"
  proof -
    from assms(14) [OF that] obtain cv where cv: "wire_key env owner"
        "length (account_discriminator env ''StakeRecoveryReceipt'') = 8"
        "read_stake_recovery_claim env claim owner (sc_mint c) = Inr cv"
        "unat (owed_total_of cv) \<le> receipt_total w owner"
      by blast
    obtain n where "recovered_total_of env (receipt_info env w owner) owner = Inr n"
        "unat n = receipt_total w owner"
      using recovered_total_of_receipt_info [OF cv(1,2)] inv
      by (metis staking_inv_def receipts_ok_def)
    with cv show ?thesis
      by (simp add: outstanding_def unat_saturating_sub flip: unat_eq_0)
  qed
  have own: "sa_owner s = owner" "sa_role s = role" using ok by (auto simp: stake_ok_def)
  show ?thesis
    using assms(3-8,10,11) v(1) w1 gate ok staking_inv_vault(3) [OF inv assms(3)]
    by (cases "role = Merchant")
       (auto simp: handle_withdraw_unstaked_def load_defs stake_ok_def config_ok_def word_gt_0 own)
qed

theorem withdraw_unstaked_available_witness:
  "\<exists>w'. handle_withdraw_unstaked ref_env \<lparr> unix_timestamp = 1302, slot_hashes = [] \<rparr> (Key 1)
       (Key 1, Arbitrator) (Key 3) (Key 2) (Prog SplTokenProgram) no_account demo_unbonding = Inr w'"
proof -
  let ?mi = "\<lparr> mi_decimals = 6, mi_program = Prog SplTokenProgram \<rparr>"
  have "\<exists>w'. handle_withdraw_unstaked ref_env \<lparr> unix_timestamp = 1302, slot_hashes = [] \<rparr> (Key 1)
       (Key 1, Arbitrator) (Key 3) (sc_mint demo_config) (mi_program ?mi) no_account
       demo_unbonding = Inr w'"
    by (rule withdraw_unstaked_available [OF ref.token_env_axioms demo_unbonding_reachable, where
          dst = "demo_token (Key 1) 980" and s = "demo_stake\<lparr>sa_amount := 0,
            sa_unbonding_amount := 20, sa_unbonding_release_at := 1302, sa_first_staked_at := 0\<rparr>"])
       (auto simp: demo_unbonding_def demo_staked_def demo_stake_def demo_config_def demo_token_def
          put_stake_def token_interface_ids_def)
  then show ?thesis by (simp add: demo_config_def)
qed


section \<open>Slashing\<close>

lemma slashE:
  assumes "handle_slash env sv authority addr dest mint tp code w = Inr w'"
  obtains c s a d w1 rem tot where "sk_config w = Some c" and "authority = sc_slashing_authority c"
    and "dest = sc_slash_destination c" and "sk_stakes w addr = Some s"
    and "mul_div_u64 (sa_amount s) (ucast (sc_slash_bps c)) BPS_DENOMINATOR = Some a"
    and "(if a > 0 then cpi_transfer env tp stake_vault_pda mint dest staking_config_pda a d w
          else Inr w :: StakingErrorCode tx_error + _) = Inr w1"
    and "unat (sa_amount s) = unat a + unat rem"
    and "unat tot = unat (sa_slashed_total s) + unat a"
    and "sk_stakes w' = (sk_stakes w)(addr \<mapsto>
           stop_empty_clock (s\<lparr>sa_amount := rem, sa_slashed_total := tot\<rparr>))"
    and "c_tokens w' = c_tokens w1" and "sk_config w' = sk_config w"
proof -
  from assms obtain c s a d w1 rem tot where c: "sk_config w = Some c"
      "authority = sc_slashing_authority c" "dest = sc_slash_destination c"
    and s: "sk_stakes w addr = Some s"
      "mul_div_u64 (sa_amount s) (ucast (sc_slash_bps c)) BPS_DENOMINATOR = Some a"
    and tr: "(if a > 0 then cpi_transfer env tp stake_vault_pda mint dest staking_config_pda a d w
          else Inr w :: StakingErrorCode tx_error + _) = Inr w1"
    and num: "unat (sa_amount s) = unat a + unat rem" "unat tot = unat (sa_slashed_total s) + unat a"
    and w': "sk_stakes w' = (sk_stakes w1)(addr \<mapsto>
           stop_empty_clock (s\<lparr>sa_amount := rem, sa_slashed_total := tot\<rparr>))"
      "c_tokens w' = c_tokens w1" "sk_config w' = sk_config w1"
    by (auto simp: handle_slash_def load_defs checked_add_Some checked_sub_Some Let_def
        staking_world_simps)
  have "\<exists>L. w1 = w\<lparr>c_tokens := L\<rparr>"
    using tr by (cases "a > 0") (auto dest: cpi_transfer_frame intro: exI [of _ "c_tokens w"])
  then show thesis using w' by (auto intro!: that [OF c s tr num])
qed

text \<open>
  C34. A slash is exactly proportional: it takes the floor of \<open>amount * slash_bps / 10000\<close> from
  the active stake of the one position named, pays it from the stake vault to the configured
  destination, and leaves that position's unbonding balance and every other position alone.
  Only the configured slashing authority can do it.
\<close>

theorem slash_exact:
  assumes "token_env env" and "reachable staking_genesis (staking_step env) (t, w)"
    and "handle_slash env sv authority addr dest mint tp code w = Inr w'"
  shows "\<exists>c s s' cut. sk_config w = Some c \<and> authority = sc_slashing_authority c
           \<and> dest = sc_slash_destination c \<and> sk_stakes w addr = Some s
           \<and> cut = unat (sa_amount s) * unat (sc_slash_bps c) div 10000
           \<and> sk_stakes w' = (sk_stakes w)(addr \<mapsto> s')
           \<and> unat (sa_amount s') = unat (sa_amount s) - cut
           \<and> sa_unbonding_amount s' = sa_unbonding_amount s
           \<and> unat (sa_slashed_total s') = unat (sa_slashed_total s) + cut
           \<and> (\<forall>k. balance (c_tokens w') k + (if k = stake_vault_pda then cut else 0)
                  = balance (c_tokens w) k + (if k = dest then cut else 0))"
  using assms(3)
proof (cases rule: slashE)
  case (1 c s a d w1 rem tot)
  have inv: "staking_inv env t w" by (rule token_env.staking_reachable_inv [OF assms(1,2)])
  have bps: "unat (sc_slash_bps c) \<le> 10000"
    using staking_inv_vault(3) [OF inv 1(1)] by (simp add: config_ok_def)
  have cut: "unat a = unat (sa_amount s) * unat (sc_slash_bps c) div 10000"
    using mul_div_u64_Some_share [OF 1(5)] bps by (simp add: BPS_DENOMINATOR_def)
  have "balance (c_tokens w') k + (if k = stake_vault_pda then unat a else 0)
      = balance (c_tokens w) k + (if k = dest then unat a else 0)" for k
  proof (cases "a > 0")
    case True
    with 1(6) have "(cpi_transfer env tp stake_vault_pda mint dest staking_config_pda a d w
        :: StakingErrorCode tx_error + _) = Inr w1" by simp
    with assms(1) obtain L' where "w1 = w\<lparr>c_tokens := L'\<rparr>"
        "moved (c_tokens w) stake_vault_pda dest a L'"
      by (rule token_env.cpi_transfer_moved)
    then show ?thesis using 1(10) moved_balance [of "c_tokens w" stake_vault_pda dest a L' k] by simp
  next
    case False
    then have "unat a = 0" by (simp add: word_less_nat_alt)
    with 1(6,10) False show ?thesis by simp
  qed
  with 1 show ?thesis
    by (intro exI [of _ c] exI [of _ s]
        exI [of _ "stop_empty_clock (s\<lparr>sa_amount := rem, sa_slashed_total := tot\<rparr>)"]
        exI [of _ "unat a"]) (simp add: cut)
qed

definition demo_slashed :: "StakingErrorCode tx_error + staking_chain" where
  "demo_slashed = handle_slash ref_env \<lparr> unix_timestamp = 1500, slot_hashes = [] \<rparr> (Key 9)
     (Key 1, Arbitrator) (Key 4) (Key 2) (Prog SplTokenProgram) 7 demo_staked"

definition demo_slashed_world :: staking_chain where
  "demo_slashed_world = \<lparr> c_tokens = [Key 3 \<mapsto> demo_token (Key 1) 980,
       Key 4 \<mapsto> demo_token (Key 9) 1, stake_vault_pda \<mapsto> demo_token staking_config_pda 19,
       rewards_vault_pda \<mapsto> demo_token staking_config_pda 0],
     c_mints = [Key 2 \<mapsto> \<lparr> mi_decimals = 6, mi_program = Prog SplTokenProgram \<rparr>],
     c_bans = (\<lambda>_. no_account), sk_config = Some demo_config,
     sk_stakes = [(Key 1, Arbitrator) \<mapsto> demo_stake\<lparr>sa_amount := 19, sa_slashed_total := 1\<rparr>],
     sk_receipts = Map.empty,
     sk_log = [SlashApplied (stake_account_pda (Key 1) Arbitrator) (Key 1) Arbitrator 7 1 19 1
                 False (Key 4) 1500] \<rparr>"

lemma demo_slashed_run: "demo_slashed = Inr demo_slashed_world"
  by (simp add: demo_slashed_def demo_slashed_world_def staking_eval demo_staked_def demo_stake_def
      demo_config_def demo_token_def mul_div_u64_def checked_mul_def checked_div_def
      stop_empty_clock_def fun_upd_twist)

theorem slash_exact_witness:
  "sk_stakes demo_slashed_world (Key 1, Arbitrator)
     = Some (demo_stake\<lparr>sa_amount := 19, sa_slashed_total := 1\<rparr>)
   \<and> balance (c_tokens demo_slashed_world) stake_vault_pda + 1
     = balance (c_tokens demo_staked) stake_vault_pda"
  using slash_exact [OF ref.token_env_axioms demo_reachable demo_slashed_run
      [unfolded demo_slashed_def]]
  by (auto simp: demo_staked_def demo_slashed_world_def demo_config_def demo_stake_def demo_token_def)

text \<open>
  An unbonding balance is out of reach of every slash. After the owner has requested all of
  it, a slash by the authority still succeeds but moves no token and reduces nothing, for the
  whole unbonding period.
\<close>

theorem unbonding_not_slashable:
  assumes "sk_stakes w addr = Some s"
    and "handle_request_unstake env sv owner addr (sa_amount s) w = Inr w1"
    and "handle_slash env sv' authority addr dest mint tp code w1 = Inr w2"
  shows "c_tokens w2 = c_tokens w1
       \<and> (\<exists>s1 s2. sk_stakes w1 addr = Some s1 \<and> sk_stakes w2 addr = Some s2
            \<and> sa_unbonding_amount s2 = sa_unbonding_amount s1
            \<and> stake_weight s2 = stake_weight s1 \<and> stake_weight s1 = stake_weight s)"
proof -
  from assms(1,2) obtain ub rel where ub: "unat ub = unat (sa_unbonding_amount s) + unat (sa_amount s)"
    and w1: "w1 = put_stake addr ((stop_empty_clock (s\<lparr>sa_amount := 0\<rparr>))
        \<lparr>sa_unbonding_amount := ub, sa_unbonding_release_at := rel\<rparr>) w"
    by (auto simp: handle_request_unstake_def load_defs checked_add_Some Let_def)
  show ?thesis
    using assms(3)
  proof (cases rule: slashE)
    case (1 c s1 a d w3 rem tot)
    then have s1: "sa_amount s1 = 0" "sa_unbonding_amount s1 = ub" by (auto simp: w1 put_stake_def)
    with 1(7) have "a = 0" "rem = 0" by (simp_all add: unat_eq_0)
    with 1 s1 ub show ?thesis by (auto simp: stake_weight_def)
  qed
qed

theorem unbonding_not_slashable_witness:
  "\<exists>w2. handle_slash ref_env \<lparr> unix_timestamp = 1200, slot_hashes = [] \<rparr> (Key 9)
       (Key 1, Arbitrator) (Key 4) (Key 2) (Prog SplTokenProgram) 7 demo_unbonding = Inr w2
     \<and> c_tokens w2 = c_tokens demo_unbonding"
proof -
  have "\<exists>w2. handle_slash ref_env \<lparr> unix_timestamp = 1200, slot_hashes = [] \<rparr> (Key 9)
       (Key 1, Arbitrator) (Key 4) (Key 2) (Prog SplTokenProgram) 7 demo_unbonding = Inr w2"
    by (simp add: staking_eval demo_unbonding_def demo_staked_def demo_stake_def demo_config_def
        demo_token_def mul_div_u64_def checked_mul_def checked_div_def)
  then obtain w2 where w2: "handle_slash ref_env \<lparr> unix_timestamp = 1200, slot_hashes = [] \<rparr> (Key 9)
       (Key 1, Arbitrator) (Key 4) (Key 2) (Prog SplTokenProgram) 7 demo_unbonding = Inr w2" by blast
  have "sk_stakes demo_staked (Key 1, Arbitrator) = Some demo_stake" "sa_amount demo_stake = 20"
    by (simp_all add: demo_staked_def demo_stake_def)
  with unbonding_not_slashable [OF _ _ w2, of demo_staked demo_stake] demo_unbonding_run w2
  show ?thesis by auto
qed

text \<open>
  The age clock keeps running below the role minimum. After a slash that leaves a position with
  some stake but less than its role's minimum, so that it has no weight, the age check answers at
  every time as if the slash had not happened, and it still does once the owner has topped the
  position up: the age presented then includes the time below the minimum.
\<close>

theorem age_runs_below_minimum:
  assumes "sk_stakes w addr = Some s" and "sk_config w1 = Some c"
    and "handle_slash env sv authority addr dest mint tp code w = Inr w1"
    and "sk_stakes w1 addr = Some s1" and "sa_amount s1 \<noteq> 0"
    and "sa_amount s1 < min_stake_for c (sa_role s1)"
  shows "effective_stake s1 c = 0 \<and> meets_stake_age s1 now age = meets_stake_age s now age
     \<and> (handle_stake env sv' owner addr from mint' tp' amount w1 = Inr w2 \<longrightarrow>
          (\<exists>s2. sk_stakes w2 addr = Some s2 \<and> sa_amount s2 = sa_amount s1 + amount
             \<and> meets_stake_age s2 now age = meets_stake_age s now age))"
proof -
  from assms(3) have clock: "sa_first_staked_at s1 = sa_first_staked_at s \<and> sa_amount s \<noteq> 0"
    by (cases rule: slashE) (use assms(1,4,5) in \<open>auto simp: unat_eq_zero\<close>)
  then have age: "meets_stake_age x now age = meets_stake_age s now age"
    if "sa_first_staked_at x = sa_first_staked_at s1" "sa_amount x \<noteq> 0" for x
    using that by (simp add: meets_stake_age_def stake_age_secs_def)
  have "\<exists>s2. sk_stakes w2 addr = Some s2 \<and> sa_amount s2 = sa_amount s1 + amount
      \<and> meets_stake_age s2 now age = meets_stake_age s now age"
    if "handle_stake env sv' owner addr from mint' tp' amount w1 = Inr w2"
  proof -
    from that assms(4,5) obtain new w3 where "w2 = put_stake addr (s1\<lparr>sa_amount := new\<rparr>) w3"
        "checked_add (sa_amount s1) amount = Some new"
      by (auto simp: handle_stake_def load_defs Let_def)
    moreover from this(2) have "new = sa_amount s1 + amount" "new \<noteq> 0"
      using assms(5) by (auto simp: checked_add_def unat_eq_zero [symmetric] unat_word_ariths split: if_splits)
    ultimately show ?thesis by (simp add: put_stake_def age)
  qed
  with assms(5,6) age show ?thesis by (simp add: effective_stake_def)
qed

theorem age_runs_below_minimum_witness:
  "effective_stake (demo_stake\<lparr>sa_amount := 19, sa_slashed_total := 1\<rparr>) demo_config = 0 \<and>
   (\<exists>w2 s2. handle_stake ref_env \<lparr> unix_timestamp = 5000, slot_hashes = [] \<rparr> (Key 1)
       (Key 1, Arbitrator) (Key 3) (Key 2) (Prog SplTokenProgram) 1 demo_slashed_world = Inr w2
     \<and> sk_stakes w2 (Key 1, Arbitrator) = Some s2 \<and> sa_amount s2 = 20 \<and> meets_stake_age s2 5000 3998)"
proof -
  have "\<exists>w2. handle_stake ref_env \<lparr> unix_timestamp = 5000, slot_hashes = [] \<rparr> (Key 1)
       (Key 1, Arbitrator) (Key 3) (Key 2) (Prog SplTokenProgram) 1 demo_slashed_world = Inr w2"
    by (simp add: staking_eval demo_slashed_world_def demo_stake_def demo_config_def demo_token_def)
  then obtain w2 where w2: "handle_stake ref_env \<lparr> unix_timestamp = 5000, slot_hashes = [] \<rparr> (Key 1)
       (Key 1, Arbitrator) (Key 3) (Key 2) (Prog SplTokenProgram) 1 demo_slashed_world = Inr w2"
    by blast
  have old: "meets_stake_age demo_stake 5000 3998"
    by (simp add: meets_stake_age_def stake_age_secs_def demo_stake_def saturating_sub_i64_def
        I64_MIN_def I64_MAX_def)
  have "sk_stakes demo_staked (Key 1, Arbitrator) = Some demo_stake"
    "sk_config demo_slashed_world = Some demo_config"
    "sk_stakes demo_slashed_world (Key 1, Arbitrator) = Some (demo_stake\<lparr>sa_amount := 19, sa_slashed_total := 1\<rparr>)"
    by (simp_all add: demo_staked_def demo_slashed_world_def demo_stake_def)
  from age_runs_below_minimum [OF this(1,2) demo_slashed_run [unfolded demo_slashed_def] this(3), of 5000 3998
      "\<lparr> unix_timestamp = 5000, slot_hashes = [] \<rparr>" "Key 1" "Key 3" "Key 2" "Prog SplTokenProgram" 1 w2]
    w2 old show ?thesis
    by (auto simp: demo_stake_def demo_config_def min_stake_for_def word_less_nat_alt)
qed


section \<open>Recovery of arbitration debts\<close>

text \<open>
  Recovering a merchant's debt takes exactly the smaller of what is still owed and what the
  position holds, unbonding tokens first, pays it from the stake vault into the merchant's OPEN
  vault, and books it on the receipt. Afterwards either the debt is settled or the position is
  empty, so the withdrawal gate cannot hold tokens against an unpaid debt.
\<close>

theorem recovery_settles_or_empties:
  assumes "token_env env"
    and "handle_recover_stake_shortfall env sv addr mint tp claim w = Inr w'"
  shows "\<exists>s s' cv am. sk_stakes w addr = Some s \<and> sa_role s = Merchant
           \<and> read_stake_recovery_claim env claim (sa_owner s) mint = Inr cv
           \<and> unat am = min (unat (owed_total_of cv) - receipt_total w (sa_owner s)) (stake_weight s)
           \<and> 0 < unat am
           \<and> moved (c_tokens w) stake_vault_pda (merchant_open_token_vault_pda (sa_owner s) mint) am
               (c_tokens w')
           \<and> sk_stakes w' = (sk_stakes w)(addr \<mapsto> s')
           \<and> unat (sa_unbonding_amount s') = unat (sa_unbonding_amount s) - unat am
           \<and> stake_weight s' + unat am = stake_weight s
           \<and> receipt_total w' (sa_owner s) = receipt_total w (sa_owner s) + unat am
           \<and> (unat (owed_total_of cv) \<le> receipt_total w' (sa_owner s) \<or> stake_weight s' = 0)"
proof -
  from assms(2) show ?thesis
  proof (rule token_env.recover_shortfallE [OF assms(1)], goal_cases)
    case (1 c s cv ub act am d w1)
    let ?s' = "stop_empty_clock (s\<lparr>sa_unbonding_amount := ub, sa_amount := act\<rparr>)"
    from assms(1) 1(7) obtain L' where L': "w1 = w\<lparr>c_tokens := L'\<rparr>"
        "moved (c_tokens w) stake_vault_pda (merchant_open_token_vault_pda (sa_owner s) mint) am L'"
      by (rule token_env.cpi_transfer_moved)
    have rec: "receipt_total w' (sa_owner s) = receipt_total w (sa_owner s) + unat am"
      using 1(15) by (auto simp: receipt_total_def)
    have weight: "stake_weight ?s' + unat am = stake_weight s"
      using 1(11) by (simp add: stake_weight_def)
    have "unat (owed_total_of cv) \<le> receipt_total w' (sa_owner s) \<or> stake_weight ?s' = 0"
      using rec weight 1(9) by linarith
    with 1 L' rec weight show ?thesis
      by (intro exI [of _ s] exI [of _ ?s'] exI [of _ cv] exI [of _ am]) simp
  qed
qed

definition demo_claim :: raw_account where
  "demo_claim = \<lparr> ra_owner = ESCROW_PROGRAM_ID,
     ra_data = STAKE_RECOVERY_CLAIM_DISCRIMINATOR @ key_bytes ref_env (Key 1)
       @ key_bytes ref_env (Key 2) @ u64_to_le_bytes 25 @ [] \<rparr>"

definition demo_merchant :: staking_chain where
  "demo_merchant = demo_staked\<lparr>
     c_tokens := (c_tokens demo_staked)(merchant_open_token_vault_pda (Key 1) (Key 2)
       \<mapsto> demo_token (Key 8) 0),
     sk_stakes := [(Key 1, Merchant) \<mapsto> demo_stake\<lparr>sa_role := Merchant, sa_amount := 12,
       sa_unbonding_amount := 8\<rparr>]\<rparr>"

lemma open_vault_not_staking [simp]:
  "merchant_open_token_vault_pda m k \<noteq> stake_vault_pda"
  "stake_vault_pda \<noteq> merchant_open_token_vault_pda m k"
  "merchant_open_token_vault_pda m k \<noteq> rewards_vault_pda"
  "merchant_open_token_vault_pda m k \<noteq> Key x"
  by (simp_all add: merchant_open_token_vault_pda_def stake_vault_pda_def rewards_vault_pda_def)

lemma demo_claim_read:
  "read_stake_recovery_claim ref_env demo_claim (Key 1) (Key 2)
     = Inr (Some \<lparr> cv_merchant = Key 1, cv_mint = Key 2, cv_owed_total = 25 \<rparr>)"
  by (rule read_claim_bytes [where rest = "[]"]) (simp_all add: demo_claim_def)

theorem recovery_settles_or_empties_witness:
  "\<exists>w' s'. handle_recover_stake_shortfall ref_env \<lparr> unix_timestamp = 1100, slot_hashes = [] \<rparr>
       (Key 1, Merchant) (Key 2) (Prog SplTokenProgram) demo_claim demo_merchant = Inr w'
     \<and> receipt_total w' (Key 1) = 20
     \<and> sk_stakes w' (Key 1, Merchant) = Some s' \<and> stake_weight s' = 0"
proof -
  have "\<exists>w'. handle_recover_stake_shortfall ref_env \<lparr> unix_timestamp = 1100, slot_hashes = [] \<rparr>
       (Key 1, Merchant) (Key 2) (Prog SplTokenProgram) demo_claim demo_merchant = Inr w'"
    by (simp add: staking_eval demo_merchant_def demo_staked_def demo_stake_def demo_config_def
        demo_token_def demo_claim_read receipt_or_new_def outstanding_def saturating_sub_def
        owed_total_of_def recover_from_unbonding_def recover_from_active_def min_def)
  then obtain w' where w': "handle_recover_stake_shortfall ref_env
      \<lparr> unix_timestamp = 1100, slot_hashes = [] \<rparr> (Key 1, Merchant) (Key 2) (Prog SplTokenProgram)
      demo_claim demo_merchant = Inr w'" by blast
  from recovery_settles_or_empties [OF ref.token_env_axioms w'] w' show ?thesis
    by (auto simp: demo_merchant_def demo_stake_def demo_claim_read owed_total_of_def
        stake_weight_def receipt_total_def demo_staked_def)
qed


section \<open>Who can lower a position\<close>

definition stakes_kept :: "('z) staking_chain_scheme \<Rightarrow> ('z) staking_chain_scheme \<Rightarrow> bool" where
  "stakes_kept w w' \<longleftrightarrow> (\<forall>a x. sk_stakes w a = Some x \<longrightarrow>
     (\<exists>y. sk_stakes w' a = Some y \<and> stake_weight x \<le> stake_weight y))"

lemma stakes_keptI:
  assumes "sk_stakes w' = (sk_stakes w)(a \<mapsto> y)"
    and "\<And>x. sk_stakes w a = Some x \<Longrightarrow> stake_weight x \<le> stake_weight y"
  shows "stakes_kept w w'"
  using assms by (auto simp: stakes_kept_def)

lemma stakes_keptD:
  assumes "stakes_kept w w'" and "sk_stakes w a = Some x"
  shows "\<exists>y. sk_stakes w' a = Some y \<and> \<not> stake_weight y < stake_weight x"
  using assms unfolding stakes_kept_def by (meson not_less)

lemma stake_keeps:
  assumes "handle_stake env sv owner addr from mint tp amount w = Inr w'"
  shows "stakes_kept w w'"
proof -
  from assms obtain s s' w1 d where s: "sk_stakes w addr = Some s"
    and tr: "(cpi_transfer env tp from mint stake_vault_pda owner amount d w
              :: StakingErrorCode tx_error + _) = Inr w1"
    and "w' = put_stake addr s' w1" "stake_weight s \<le> stake_weight s'"
    by (auto simp: handle_stake_def load_defs checked_add_Some Let_def stake_weight_def)
  moreover from tr obtain L where "w1 = w\<lparr>c_tokens := L\<rparr>" by (blast dest: cpi_transfer_frame)
  ultimately show ?thesis by (intro stakes_keptI [of _ _ addr s']) (auto simp: put_stake_def)
qed

lemma request_unstake_keeps:
  assumes "handle_request_unstake env sv owner addr amount w = Inr w'"
  shows "stakes_kept w w'"
proof -
  from assms obtain s s' where s: "sk_stakes w addr = Some s" "w' = put_stake addr s' w"
      "stake_weight s = stake_weight s'"
    by (auto simp: handle_request_unstake_def load_defs checked_add_Some Let_def stake_weight_def
        word_le_nat_alt unat_sub)
  then show ?thesis by (intro stakes_keptI [of _ _ addr s']) (auto simp: put_stake_def)
qed

lemma other_ix_keeps:
  "handle_initialize_staking_config env admin mint tp ip w = Inr w' \<Longrightarrow> stakes_kept w w'"
  "handle_update_staking_config env sv admin mint dest up w = Inr w' \<Longrightarrow> stakes_kept w w'"
  "handle_initialize_stake_account env owner role w = Inr w' \<Longrightarrow> stakes_kept w w'"
  "handle_distribute_reward env sv authority addr epoch amount w = Inr w' \<Longrightarrow> stakes_kept w w'"
  "handle_claim_rewards env sv owner addr to mint tp w = Inr w' \<Longrightarrow> stakes_kept w w'"
  "handle_fund_rewards_vault env sv funder from mint tp amount w = Inr w' \<Longrightarrow> stakes_kept w w'"
  by (auto simp: staking_handler_defs load_defs init_token_def staking_world_simps Let_def
      stake_weight_def stakes_kept_def dest!: cpi_transfer_frame)

text \<open>
  Nobody takes a position away except along the three documented paths. If a successful
  instruction lowers what a stake account holds, it was the owner's own withdrawal after the
  release time, a slash signed by the configured authority, or the recovery of a merchant's
  debt; and no instruction ever removes a stake account.
\<close>

theorem position_lowered_only_by:
  assumes "token_env env" and "staking_dispatch env sv ix w = Inr w'"
    and "sk_stakes w addr = Some s"
  shows "\<exists>s'. sk_stakes w' addr = Some s' \<and> (stake_weight s' < stake_weight s \<longrightarrow>
      (\<exists>to mint tp claim. ix = IxWithdrawUnstaked (sa_owner s) addr to mint tp claim
         \<and> sa_unbonding_release_at s \<le> unix_timestamp sv \<and> sa_amount s' = sa_amount s)
    \<or> (\<exists>c dest mint tp code. ix = IxSlash (sc_slashing_authority c) addr dest mint tp code
         \<and> sk_config w = Some c \<and> sa_unbonding_amount s' = sa_unbonding_amount s)
    \<or> (\<exists>mint tp claim. ix = IxRecoverStakeShortfall addr mint tp claim \<and> sa_role s = Merchant))"
  (is "\<exists>s'. _ \<and> (_ \<longrightarrow> ?W s' \<or> ?S s' \<or> ?R)")
proof (cases ix)
  case (IxWithdrawUnstaked owner a to mint tp claim)
  with assms(2) have "handle_withdraw_unstaked env sv owner a to mint tp claim w = Inr w'" by simp
  then show ?thesis
  proof (cases rule: withdraw_unstakedE)
    case (1 x d w1)
    from 1(6) obtain L where "w1 = w\<lparr>c_tokens := L\<rparr>" by (blast dest: cpi_transfer_frame)
    with 1 assms(3) IxWithdrawUnstaked show ?thesis
      by (cases "a = addr") (auto simp: put_stake_def)
  qed
next
  case (IxSlash authority a dest mint tp code)
  with assms(2) have "handle_slash env sv authority a dest mint tp code w = Inr w'" by simp
  then show ?thesis
  proof (cases rule: slashE)
    case 1
    with assms(3) IxSlash show ?thesis by (cases "a = addr") auto
  qed
next
  case (IxRecoverStakeShortfall a mint tp claim)
  with assms(2) have "handle_recover_stake_shortfall env sv a mint tp claim w = Inr w'" by simp
  then show ?thesis
  proof (rule token_env.recover_shortfallE [OF assms(1)], goal_cases)
    case 1
    with assms(3) IxRecoverStakeShortfall show ?case by (cases "a = addr") auto
  qed
qed (use assms(2,3) in \<open>auto dest!: stake_keeps request_unstake_keeps other_ix_keeps
       dest: stakes_keptD\<close>)

theorem position_lowered_only_by_witness:
  "\<exists>s'. sk_stakes demo_slashed_world (Key 1, Arbitrator) = Some s'
      \<and> stake_weight s' < stake_weight demo_stake"
proof -
  have "staking_dispatch ref_env \<lparr> unix_timestamp = 1500, slot_hashes = [] \<rparr>
      (IxSlash (Key 9) (Key 1, Arbitrator) (Key 4) (Key 2) (Prog SplTokenProgram) 7) demo_staked
      = Inr demo_slashed_world"
    using demo_slashed_run by (simp add: demo_slashed_def)
  from position_lowered_only_by [OF ref.token_env_axioms this, of "(Key 1, Arbitrator)" demo_stake]
  show ?thesis by (simp add: demo_staked_def demo_slashed_world_def demo_stake_def stake_weight_def)
qed

end
