(* ===== verification/Sortition.thy ===== *)
theory Sortition
  imports Shared_Types
begin

text \<open>
  Arbitrator sortition (\<open>programs/shared/src/sortition.rs\<close>): the draw of a stake account for a
  case, the threshold that widens over the commit window, and the eligibility test. The lemmas
  show the schedule is a monotone ramp between the starting value and fully open, and that the
  final slice admits everybody, for every hash function.
\<close>

definition SORTITION_BPS_DENOMINATOR :: u32 where "SORTITION_BPS_DENOMINATOR = 10000"

definition SORTITION_WIDENING_STEPS :: u32 where "SORTITION_WIDENING_STEPS = 8"

definition SORTITION_DOMAIN :: "u8 list" where
  "SORTITION_DOMAIN = map of_char ''openfiat-arbitrator-sortition''"

definition sortition_ticket_bps :: "env \<Rightarrow> u8 list \<Rightarrow> pubkey \<Rightarrow> u32" where
  "sortition_ticket_bps env case_seed stake_account =
     (let digest = sha256 env (SORTITION_DOMAIN @ case_seed @ key_bytes env stake_account);
          head = take 8 digest
      in ucast (u64_from_le_bytes head mod ucast SORTITION_BPS_DENOMINATOR))"

definition sortition_threshold_bps :: "u16 \<Rightarrow> i64 \<Rightarrow> i64 \<Rightarrow> i64 \<Rightarrow> u32" where
  "sortition_threshold_bps initial_bps window_start window_end now =
     (let initial = ucast initial_bps :: u32 in
      if initial = 0 \<or> initial \<ge> SORTITION_BPS_DENOMINATOR then SORTITION_BPS_DENOMINATOR
      else case checked_sub_i64 window_end window_start of
        None \<Rightarrow> SORTITION_BPS_DENOMINATOR
      | Some window \<Rightarrow>
          if \<not> window > 0 then SORTITION_BPS_DENOMINATOR
          else
            let elapsed = max 0 (min window (saturating_sub_i64 now window_start));
                step = word_of_int (elapsed * uint SORTITION_WIDENING_STEPS div window) :: u32;
                step = min step (SORTITION_WIDENING_STEPS - 1)
            in if step = SORTITION_WIDENING_STEPS - 1 then SORTITION_BPS_DENOMINATOR
               else min (case checked_shl_u32 initial step of
                           None \<Rightarrow> SORTITION_BPS_DENOMINATOR | Some x \<Rightarrow> x)
                        SORTITION_BPS_DENOMINATOR)"

definition qualifies_for_seat ::
  "env \<Rightarrow> u8 list \<Rightarrow> pubkey \<Rightarrow> u16 \<Rightarrow> i64 \<Rightarrow> i64 \<Rightarrow> i64 \<Rightarrow> bool" where
  "qualifies_for_seat env case_seed stake_account initial_bps window_start window_end now =
     (if initial_bps = 0 then True
      else sortition_ticket_bps env case_seed stake_account
             < sortition_threshold_bps initial_bps window_start window_end now)"


section \<open>The schedule in closed form\<close>

lemma unat_SORTITION_BPS [simp]: "unat SORTITION_BPS_DENOMINATOR = 10000"
  by (simp add: SORTITION_BPS_DENOMINATOR_def)

lemma unat_ucast_u16_u32 [simp]: "unat (ucast (a::u16) :: u32) = unat a"
  by (simp add: unsigned_ucast_eq take_bit_nat_eq_self_iff less_le_trans [OF unat_lt_2p])

definition slice :: "i64 \<Rightarrow> i64 \<Rightarrow> i64 \<Rightarrow> int" where
  "slice window_start window_end now =
     max 0 (min (window_end - window_start) (saturating_sub_i64 now window_start)) * 8
       div (window_end - window_start)"

lemma slice_bounds:
  assumes "window_start < window_end"
  shows "0 \<le> slice window_start window_end now" and "slice window_start window_end now \<le> 8"
proof -
  let ?w = "window_end - window_start"
  let ?e = "max 0 (min ?w (saturating_sub_i64 now window_start))"
  have "?e \<le> ?w" using assms by simp
  then have "?e * 8 div ?w \<le> ?w * 8 div ?w"
    using assms by (intro zdiv_mono1 mult_right_mono) simp_all
  moreover have "?w * 8 div ?w = 8"
    using assms by (intro nonzero_mult_div_cancel_left) simp
  ultimately show "slice window_start window_end now \<le> 8" by (simp only: slice_def)
  show "0 \<le> slice window_start window_end now"
    using assms by (simp add: slice_def pos_imp_zdiv_nonneg_iff)
qed

lemma slice_mono:
  assumes "window_start < window_end" and "now \<le> now'"
  shows "slice window_start window_end now \<le> slice window_start window_end now'"
proof -
  have "saturating_sub_i64 now window_start \<le> saturating_sub_i64 now' window_start"
    using assms(2) by (auto simp: saturating_sub_i64_def)
  then show ?thesis
    unfolding slice_def using assms(1) by (intro zdiv_mono1 mult_right_mono max.mono min.mono) auto
qed

lemma slice_last:
  assumes "window_start < window_end" and "in_i64 (window_end - window_start)"
    and late: "7 * (window_end - window_start) \<le> 8 * (now - window_start)"
  shows "7 \<le> slice window_start window_end now"
proof -
  let ?w = "window_end - window_start"
  let ?e = "max 0 (min ?w (saturating_sub_i64 now window_start))"
  have "?e = ?w \<or> ?e = now - window_start \<and> now - window_start \<le> ?w"
    using assms by (auto simp: saturating_sub_i64_def in_i64_def I64_MIN_def I64_MAX_def)
  then have "7 * ?w \<le> ?e * 8"
    using assms(1) late by (elim disjE conjE) simp_all
  then have "7 * ?w div ?w \<le> ?e * 8 div ?w"
    using assms(1) by (intro zdiv_mono1) auto
  moreover have "7 * ?w div ?w = 7"
    using assms(1) by (intro nonzero_mult_div_cancel_right) simp
  ultimately show ?thesis by (simp only: slice_def)
qed

definition ramp :: "nat \<Rightarrow> int \<Rightarrow> nat" where
  "ramp initial s = (if s < 7 then min (initial * 2 ^ nat s) 10000 else 10000)"

lemma ramp_mono:
  assumes "s \<le> t"
  shows "ramp a s \<le> ramp a t"
proof -
  have "(2::nat) ^ nat s \<le> 2 ^ nat t"
    using assms by (intro power_increasing nat_mono) simp_all
  then have "min (a * 2 ^ nat s) 10000 \<le> min (a * 2 ^ nat t) 10000"
    by (intro min.mono mult_le_mono2 order_refl)
  with assms show ?thesis by (simp add: ramp_def)
qed

lemma ramp_bounds:
  assumes "a \<le> 10000"
  shows "a \<le> ramp a s" and "ramp a s \<le> 10000"
proof -
  have "a * 1 \<le> a * 2 ^ nat s" by (rule mult_le_mono) auto
  then show "a \<le> ramp a s" using assms by (simp add: ramp_def)
  show "ramp a s \<le> 10000" by (simp add: ramp_def)
qed

lemma threshold_degenerate:
  assumes "unat initial_bps = 0 \<or> 10000 \<le> unat initial_bps
    \<or> \<not> in_i64 (window_end - window_start) \<or> window_end \<le> window_start"
  shows "unat (sortition_threshold_bps initial_bps window_start window_end now) = 10000"
proof -
  have "unat initial_bps = 0 \<longleftrightarrow> (ucast initial_bps :: u32) = 0"
    by (simp add: unat_eq_0 flip: unat_ucast_u16_u32)
  then show ?thesis
    using assms
    by (auto simp: sortition_threshold_bps_def Let_def word_le_nat_alt checked_sub_i64_def)
qed

lemma threshold_ramp:
  assumes a: "0 < unat initial_bps" "unat initial_bps < 10000"
    and w: "in_i64 (window_end - window_start)" "window_start < window_end"
  shows "unat (sortition_threshold_bps initial_bps window_start window_end now)
       = ramp (unat initial_bps) (slice window_start window_end now)"
proof -
  define s where "s = slice window_start window_end now"
  have s: "0 \<le> s" "s \<le> 8" using slice_bounds w(2) by (simp_all add: s_def)
  define step where "step = min (word_of_int s :: u32) (SORTITION_WIDENING_STEPS - 1)"
  have us: "unat (word_of_int s :: u32) = nat s"
    using s by (simp add: unsigned_of_int take_bit_int_eq_self)
  have step: "unat step = min (nat s) 7"
    by (simp add: step_def unat_min us SORTITION_WIDENING_STEPS_def)
  have last: "step = SORTITION_WIDENING_STEPS - 1 \<longleftrightarrow> 7 \<le> s"
    using step s by (auto simp: word_unat_eq_iff SORTITION_WIDENING_STEPS_def)
  have nz: "(ucast initial_bps :: u32) \<noteq> 0"
    using a(1) by (metis unat_ucast_u16_u32 unsigned_0 less_numeral_extra(3))
  have unfolded: "sortition_threshold_bps initial_bps window_start window_end now
     = (if step = SORTITION_WIDENING_STEPS - 1 then SORTITION_BPS_DENOMINATOR
        else min (case checked_shl_u32 (ucast initial_bps) step of
                    None \<Rightarrow> SORTITION_BPS_DENOMINATOR | Some x \<Rightarrow> x)
                 SORTITION_BPS_DENOMINATOR)"
    using a nz w
    by (simp add: sortition_threshold_bps_def word_le_nat_alt checked_sub_i64_def step_def
        s_def slice_def Let_def SORTITION_WIDENING_STEPS_def)
  show ?thesis
  proof (cases "7 \<le> s")
    case True
    with last show ?thesis by (simp add: unfolded ramp_def flip: s_def)
  next
    case False
    then have "unat step = nat s" "nat s \<le> 6" using step s by auto
    have "(2::nat) ^ nat s \<le> 2 ^ 6" using \<open>nat s \<le> 6\<close> by (rule power_increasing) simp
    then have "unat initial_bps * 2 ^ nat s \<le> 10000 * 64"
      using a(2) by (intro mult_le_mono) auto
    then have "unat (push_bit (nat s) (ucast initial_bps :: u32)) = unat initial_bps * 2 ^ nat s"
      by (subst unsigned_push_bit_eq) (simp add: push_bit_eq_mult take_bit_nat_eq_self)
    with False last \<open>unat step = nat s\<close> \<open>nat s \<le> 6\<close> show ?thesis
      by (simp add: unfolded checked_shl_u32_def unat_min ramp_def flip: s_def)
  qed
qed

lemma ticket_bound: "unat (sortition_ticket_bps env seed key) < 10000"
proof -
  have "unat ((x::u64) mod 10000) < 10000" for x
    by (simp add: unat_mod)
  moreover have "unat (ucast (y::u64) :: u32) = unat y" if "unat y < 10000" for y
    using that by (simp add: unsigned_ucast_eq take_bit_nat_eq_self)
  ultimately show ?thesis
    by (simp add: sortition_ticket_bps_def Let_def SORTITION_BPS_DENOMINATOR_def)
qed

lemma threshold_mono:
  assumes "now \<le> now'"
  shows "sortition_threshold_bps initial_bps window_start window_end now
       \<le> sortition_threshold_bps initial_bps window_start window_end now'"
proof (cases "unat initial_bps = 0 \<or> 10000 \<le> unat initial_bps
    \<or> \<not> in_i64 (window_end - window_start) \<or> window_end \<le> window_start")
  case True
  then show ?thesis by (simp add: word_le_nat_alt threshold_degenerate)
next
  case False
  then show ?thesis
    using assms by (simp add: word_le_nat_alt threshold_ramp ramp_mono slice_mono)
qed


section \<open>Properties\<close>

text \<open>
  Inside a proper commit window the threshold is exactly the reference schedule: the
  starting value doubled once per elapsed eighth of the window, capped at 10000, and 10000
  from the seventh slice on.
\<close>

theorem sortition_threshold_schedule:
  assumes "0 < unat initial_bps" and "unat initial_bps < 10000"
    and "in_i64 (window_end - window_start)" and "window_start < window_end"
  shows "unat (sortition_threshold_bps initial_bps window_start window_end now)
       = (let s = slice window_start window_end now
          in if s < 7 then min (unat initial_bps * 2 ^ nat s) 10000 else 10000)"
  using threshold_ramp [OF assms] by (simp add: ramp_def Let_def)

theorem sortition_threshold_schedule_witness:
  "unat (sortition_threshold_bps 100 0 800 350) = 800"
  using sortition_threshold_schedule [of 100 800 0 350]
  by (simp add: slice_def in_i64_def saturating_sub_i64_def I64_MIN_def I64_MAX_def)

text \<open>
  A stake account that qualifies for a seat keeps qualifying for the rest of the window:
  waiting never costs an arbitrator eligibility.
\<close>

theorem sortition_seat_monotone:
  assumes "qualifies_for_seat env case_seed stake_account initial_bps window_start window_end now"
    and "now \<le> now'"
  shows "qualifies_for_seat env case_seed stake_account initial_bps window_start window_end now'"
  using assms threshold_mono [OF assms(2), of initial_bps window_start window_end]
  by (auto simp: qualifies_for_seat_def)

theorem sortition_seat_monotone_witness:
  "qualifies_for_seat ref_env [] default_pubkey 100 0 800 799"
proof (rule sortition_seat_monotone [of _ _ _ _ _ _ 10])
  show "qualifies_for_seat ref_env [] default_pubkey 100 0 800 10"
    by (simp add: qualifies_for_seat_def sortition_ticket_bps_def ref_env_def u64_from_le_bytes_def
        sortition_threshold_bps_def SORTITION_BPS_DENOMINATOR_def SORTITION_WIDENING_STEPS_def
        checked_sub_i64_def in_i64_def saturating_sub_i64_def I64_MIN_def I64_MAX_def
        checked_shl_u32_def)
qed simp

text \<open>
  In the last eighth of the commit window every stake account qualifies, whatever the
  hash function draws and whatever starting threshold governance chose: a case can always be
  filled.
\<close>

theorem sortition_last_slice_open:
  assumes "in_i64 (window_end - window_start)" and "window_start < window_end"
    and "7 * (window_end - window_start) \<le> 8 * (now - window_start)"
  shows "qualifies_for_seat env case_seed stake_account initial_bps window_start window_end now"
proof -
  have "unat (sortition_threshold_bps initial_bps window_start window_end now) = 10000"
  proof (cases "0 < unat initial_bps \<and> unat initial_bps < 10000")
    case True
    with assms show ?thesis using slice_last [OF assms(2,1,3)] by (simp add: threshold_ramp ramp_def)
  next
    case False
    then show ?thesis by (intro threshold_degenerate) auto
  qed
  then show ?thesis by (simp add: qualifies_for_seat_def word_less_nat_alt ticket_bound)
qed

theorem sortition_last_slice_open_witness:
  "qualifies_for_seat ref_env [1, 2, 3] default_pubkey 1 0 800 700"
  by (rule sortition_last_slice_open) (simp_all add: in_i64_def I64_MIN_def I64_MAX_def)

end
