(* ===== verification/Escrow_State.thy ===== *)
theory Escrow_State
  imports Staking_State Sortition
begin

text \<open>
  The accounts of the escrow program (\<open>programs/escrow/src/state.rs\<close>), its constants, error
  codes and events, its program-derived addresses, and the chain state extended by its accounts.
  Accounts are kept per address: a liquidity vault per merchant and mint, a trade escrow and a
  dispute case per reservation id, a recovery claim per merchant and mint, and the singletons.
\<close>


section \<open>Constants and errors\<close>

definition LIQUIDITY_VAULT_SEED :: string where "LIQUIDITY_VAULT_SEED = ''liquidity_vault''"
definition ESCROW_LIQUIDITY_VAULT_TOKENS_SEED :: string where
  "ESCROW_LIQUIDITY_VAULT_TOKENS_SEED = ''liquidity_vault_tokens''"
definition TRADE_ESCROW_SEED :: string where "TRADE_ESCROW_SEED = ''trade_escrow''"
definition TRADE_ESCROW_TOKENS_SEED :: string where
  "TRADE_ESCROW_TOKENS_SEED = ''trade_escrow_tokens''"
definition FEE_CONFIG_SEED :: string where "FEE_CONFIG_SEED = ''fee_config''"
definition DISPUTE_CASE_SEED :: string where "DISPUTE_CASE_SEED = ''dispute_case''"
definition ARBITRATION_POOL_SEED :: string where "ARBITRATION_POOL_SEED = ''arbitration_pool''"
definition ARBITRATION_POLICY_SEED :: string where
  "ARBITRATION_POLICY_SEED = ''arbitration_policy''"
definition ESCROW_STAKE_RECOVERY_CLAIM_SEED :: string where
  "ESCROW_STAKE_RECOVERY_CLAIM_SEED = ''stake_recovery_claim''"

definition ESCROW_BPS_DENOMINATOR :: u64 where "ESCROW_BPS_DENOMINATOR = 10000"
definition DEFAULT_TIMEOUT_SECS :: i64 where "DEFAULT_TIMEOUT_SECS = 30 * 60"
definition MIN_DISPUTE_WINDOW_SECS :: i64 where "MIN_DISPUTE_WINDOW_SECS = 60"
definition MAX_DISPUTE_WINDOW_SECS :: i64 where "MAX_DISPUTE_WINDOW_SECS = 7 * 24 * 60 * 60"
definition MAX_DISPUTE_ROUNDS :: u8 where "MAX_DISPUTE_ROUNDS = 3"
definition RECOMMENDED_MIN_ARBITRATOR_STAKE_AGE_SECS :: i64 where
  "RECOMMENDED_MIN_ARBITRATOR_STAKE_AGE_SECS = 30 * 24 * 60 * 60"
definition MAX_SETTLEMENT_MINTS :: nat where "MAX_SETTLEMENT_MINTS = 16"
definition RECOMMENDED_ARBITRATOR_SORTITION_BPS :: u16 where
  "RECOMMENDED_ARBITRATOR_SORTITION_BPS = 100"

text \<open>The four mints, their 32 bytes read as a little-endian number.\<close>

definition DEFAULT_SETTLEMENT_MINTS :: "pubkey list" where
  "DEFAULT_SETTLEMENT_MINTS =
     [Key 452312848682254728109074716018410578554233241794521621781515434726607330054,
      Key 81336890726093263477311174139356104191601014436850994178559916979456858104599,
      Key 91199701124240886065926197195797710020585801826040585932538384148575850491300,
      Key 70678063343587776431093631461351417943371779931781400486886349088275526875910]"

definition MAX_ARBITRATORS :: nat where "MAX_ARBITRATORS = 7"
definition MIN_ARBITRATORS :: nat where "MIN_ARBITRATORS = 3"
definition MAX_BARRED_ARBITRATORS :: nat where
  "MAX_BARRED_ARBITRATORS = MAX_ARBITRATORS * (unat MAX_DISPUTE_ROUNDS - 1)"

datatype EscrowErrorCode =
    Unauthorized | InvalidFeeSplit | ArbitratorBarredFromCase | InvalidFeeBps | InvalidTimeout
  | InsufficientAvailableLiquidity | InsufficientReservedLiquidity | InvalidVaultState
  | NotYetExpired | NotAPartyToThisTrade | CommitWindowClosed | NotInRevealWindow
  | DisputeCaseFull | AlreadyCommitted | NoCommitmentFound | AlreadyRevealed
  | CommitmentMismatch | RevealWindowStillOpen | DisputeAlreadyResolved | NoVotesRevealed
  | ArbitratorStakeBelowMinimum | DisputeWindowOutOfRange | DepositVaultAliasesSettlementVault
  | NoFeeConfigured | DisputeNotDecided | NotAWinningArbitrator | RewardAlreadyClaimed | Overflow
  | WalletBanned | ArbitratorStakeTooYoung | NotDrawnForThisCase | SlotHashesUnavailable
  | FeeConfigAlreadyMigrated | InvalidStakeAge | InvalidSortitionThreshold
  | SettlementMintNotAllowed | SettlementMintListFull | InvalidSettlementMint
  | EmptySettlementMintList | ArbitrationPoolNotInitialized | NothingToAbsorb
  | RecoveredTokensMissing | NoDepositShortfall | NoLiquidityForShortfall
  | InvalidArbitrationPolicy


section \<open>Accounts\<close>

record LiquidityVault =
  lv_merchant :: pubkey
  lv_mint :: pubkey
  lv_total :: u64
  lv_reserved :: u64
  lv_available :: u64
  lv_settled :: u64
  lv_pending_settlement :: u64
  lv_bump :: u8
  lv_token_vault_bump :: u8

record TradeEscrowVault =
  te_reservation_id :: u64
  te_buyer :: pubkey
  te_seller :: pubkey
  te_mint :: pubkey
  te_amount :: u64
  te_state :: VaultState
  te_approved :: bool
  te_created_at :: i64
  te_timeout_at :: i64
  te_bump :: u8
  te_token_vault_bump :: u8

record FeeConfig =
  fc_admin :: pubkey
  fc_ad_listing_fee :: u64
  fc_dispute_filing_fee :: u64
  fc_settlement_fee_bps :: u16
  fc_dev_treasury :: pubkey
  fc_ecosystem_treasury :: pubkey
  fc_infra_treasury :: pubkey
  fc_emergency_reserve :: pubkey
  fc_dev_treasury_bps :: u16
  fc_ecosystem_treasury_bps :: u16
  fc_infra_treasury_bps :: u16
  fc_emergency_reserve_bps :: u16
  fc_timeout_secs :: i64
  fc_bump :: u8
  fc_min_arbitrator_stake_age_secs :: i64
  fc_arbitrator_sortition_bps :: u16
  fc_settlement_mints :: "pubkey list"
  fc_settlement_mint_count :: u8

definition allows_settlement_mint :: "FeeConfig \<Rightarrow> pubkey \<Rightarrow> bool" where
  "allows_settlement_mint fc mint =
     (let live = min (unat (fc_settlement_mint_count fc)) MAX_SETTLEMENT_MINTS
      in mint \<in> set (take live (fc_settlement_mints fc)))"

record ArbitrationPolicy =
  ap_admin :: pubkey
  ap_eligible_arbitrators :: u32
  ap_updated_at :: i64
  ap_bump :: u8

text \<open>Why a case ended on the terminal even split (\<open>arbitration.rs\<close>).\<close>

datatype TerminalSplitReason = NoConsensus | QuorumNotReached | RoundUnstaffed | PoolExhausted

record DisputeCase =
  dc_reservation_id :: u64
  dc_trade_escrow :: pubkey
  dc_opened_at :: i64
  dc_commit_deadline :: i64
  dc_reveal_deadline :: i64
  dc_resolved :: bool
  dc_round :: u8
  dc_commit_window_secs :: i64
  dc_reveal_window_secs :: i64
  dc_case_seed :: "u8 list"
  dc_round_opened_at :: i64
  dc_arbitrators :: "pubkey list"
  dc_commitments :: "u8 list list"
  dc_revealed_outcomes :: "DisputeOutcome option list"
  dc_weights :: "u64 list"
  dc_reward_claimed :: "bool list"
  dc_barred :: "pubkey list"
  dc_deposit_vault :: pubkey
  dc_deposit_mint :: pubkey
  dc_deposit :: u64
  dc_deposit_shortfall :: u64
  dc_outcome :: "DisputeOutcome option"
  dc_winning_weight :: u64
  dc_reward_pool :: u64
  dc_reward_remaining :: u64
  dc_deposit_settled :: bool
  dc_bump :: u8
  dc_seats_taken_total :: u32
  dc_terminal_reason :: "TerminalSplitReason option"

record StakeRecoveryClaim =
  rc_merchant :: pubkey
  rc_mint :: pubkey
  rc_owed_total :: u64
  rc_credited_total :: u64
  rc_case_count :: u32
  rc_bump :: u8

definition absorbable :: "StakeRecoveryClaim \<Rightarrow> u64 \<Rightarrow> u64" where
  "absorbable claim recovered_total = saturating_sub recovered_total (rc_credited_total claim)"


section \<open>Events\<close>

datatype EscrowEvent =
    EscrowReleased u64 pubkey pubkey pubkey u64 u64 u64 u64 u64 u64 u64 bool i64
      \<comment> \<open>reservation, buyer, seller, mint, amount, buyer amount, fee, dev, ecosystem, infra,
          emergency, via dispute, timestamp\<close>
  | DisputeResolved u64 pubkey pubkey "DisputeOutcome option" u8 u64 u8 u64 u64 i64
      \<comment> \<open>reservation, buyer, seller, outcome, round, winning weight, arbitrators, reward pool,
          deposit refunded, timestamp\<close>
  | DisputeTerminalSplit u64 TerminalSplitReason u8 u8 u8 u8 u32 u32 u32 i64
      \<comment> \<open>reservation, reason, round, seats, counted reveals, barred, seats taken in total,
          required pool, published pool, timestamp\<close>
  | ArbitratorPoolSizePublished pubkey u32 u32 u32 i64
      \<comment> \<open>admin, previous, eligible arbitrators, minimum decidable pool, timestamp\<close>
  | ArbitrationDepositTaken u64 pubkey pubkey pubkey pubkey u64 u64 i64
      \<comment> \<open>reservation, merchant, opened by, deposit vault, mint, amount, shortfall, timestamp\<close>
  | StakeRecoveryClaimRecorded u64 pubkey pubkey pubkey u64 u64 u64 u32 i64
      \<comment> \<open>reservation, merchant, claim, mint, shortfall, owed, credited, cases, timestamp\<close>
  | StakeRecoveryAbsorbed pubkey pubkey pubkey u64 u64 u64 u64 u64 i64
      \<comment> \<open>merchant, claim, mint, amount, owed, credited, outstanding, available, timestamp\<close>
  | ArbitrationDepositToppedUp u64 pubkey pubkey u64 u64 u64 u64 i64
      \<comment> \<open>reservation, merchant, mint, amount, deposit, shortfall left, available, timestamp\<close>
  | ArbitrationRewardClaimed u64 pubkey u64 u64 u64 pubkey i64
      \<comment> \<open>reservation, arbitrator, weight, winning weight, amount, destination, timestamp\<close>
  | AdListingFeeCharged pubkey "u8 list" pubkey u64 u64 i64
      \<comment> \<open>merchant, advertisement, mint, amount, available, timestamp\<close>


section \<open>Addresses\<close>

definition liquidity_vault_pda :: "pubkey \<Rightarrow> pubkey \<Rightarrow> pubkey" where
  "liquidity_vault_pda merchant mint =
     Pda EscrowProgram [SeedBytes LIQUIDITY_VAULT_SEED, SeedKey merchant, SeedKey mint]"

definition liquidity_tokens_pda :: "pubkey \<Rightarrow> pubkey \<Rightarrow> pubkey" where
  "liquidity_tokens_pda merchant mint =
     Pda EscrowProgram [SeedBytes ESCROW_LIQUIDITY_VAULT_TOKENS_SEED, SeedKey merchant, SeedKey mint]"

definition trade_escrow_pda :: "u64 \<Rightarrow> pubkey" where
  "trade_escrow_pda rid = Pda EscrowProgram [SeedBytes TRADE_ESCROW_SEED, SeedU64 rid]"

definition trade_tokens_pda :: "u64 \<Rightarrow> pubkey" where
  "trade_tokens_pda rid = Pda EscrowProgram [SeedBytes TRADE_ESCROW_TOKENS_SEED, SeedU64 rid]"

definition fee_config_pda :: pubkey where
  "fee_config_pda = Pda EscrowProgram [SeedBytes FEE_CONFIG_SEED]"

definition dispute_case_pda :: "u64 \<Rightarrow> pubkey" where
  "dispute_case_pda rid = Pda EscrowProgram [SeedBytes DISPUTE_CASE_SEED, SeedU64 rid]"

definition arbitration_pool_pda :: pubkey where
  "arbitration_pool_pda = Pda EscrowProgram [SeedBytes ARBITRATION_POOL_SEED]"

definition arbitration_policy_pda :: pubkey where
  "arbitration_policy_pda = Pda EscrowProgram [SeedBytes ARBITRATION_POLICY_SEED]"

definition recovery_claim_pda :: "pubkey \<Rightarrow> pubkey \<Rightarrow> pubkey" where
  "recovery_claim_pda merchant mint =
     Pda EscrowProgram [SeedBytes ESCROW_STAKE_RECOVERY_CLAIM_SEED, SeedKey merchant, SeedKey mint]"

lemmas escrow_pda_defs =
  liquidity_vault_pda_def liquidity_tokens_pda_def trade_escrow_pda_def trade_tokens_pda_def
  fee_config_pda_def dispute_case_pda_def arbitration_pool_pda_def arbitration_policy_pda_def
  recovery_claim_pda_def

lemma escrow_pda_inj [simp]:
  "liquidity_vault_pda m k = liquidity_vault_pda n l \<longleftrightarrow> m = n \<and> k = l"
  "liquidity_tokens_pda m k = liquidity_tokens_pda n l \<longleftrightarrow> m = n \<and> k = l"
  "trade_escrow_pda i = trade_escrow_pda j \<longleftrightarrow> i = j"
  "trade_tokens_pda i = trade_tokens_pda j \<longleftrightarrow> i = j"
  by (simp_all add: escrow_pda_defs)

text \<open>The three kinds of token account the program owns are pairwise distinct addresses, and
  each of their authorities signs only for its own kind.\<close>

lemma escrow_pda_distinct [simp]:
  "liquidity_tokens_pda m k \<noteq> trade_tokens_pda i" "trade_tokens_pda i \<noteq> liquidity_tokens_pda m k"
  "liquidity_tokens_pda m k \<noteq> arbitration_pool_pda" "arbitration_pool_pda \<noteq> liquidity_tokens_pda m k"
  "trade_tokens_pda i \<noteq> arbitration_pool_pda" "arbitration_pool_pda \<noteq> trade_tokens_pda i"
  "liquidity_vault_pda m k \<noteq> trade_escrow_pda i" "trade_escrow_pda i \<noteq> liquidity_vault_pda m k"
  "liquidity_vault_pda m k \<noteq> fee_config_pda" "fee_config_pda \<noteq> liquidity_vault_pda m k"
  "trade_escrow_pda i \<noteq> fee_config_pda" "fee_config_pda \<noteq> trade_escrow_pda i"
  by (simp_all add: escrow_pda_defs)

lemma escrow_pda_signs [simp]:
  "signs_for EscrowProgram (liquidity_vault_pda m k)"
  "signs_for EscrowProgram (liquidity_tokens_pda m k)"
  "signs_for EscrowProgram (trade_escrow_pda i)" "signs_for EscrowProgram (trade_tokens_pda i)"
  "signs_for EscrowProgram fee_config_pda" "signs_for EscrowProgram arbitration_pool_pda"
  by (simp_all add: escrow_pda_defs)


section \<open>Chain state\<close>

record escrow_chain = staking_chain +
  es_vaults :: "pubkey \<times> pubkey \<rightharpoonup> LiquidityVault"
  es_trades :: "u64 \<rightharpoonup> TradeEscrowVault"
  es_fee_config :: "FeeConfig option"
  es_cases :: "u64 \<rightharpoonup> DisputeCase"
  es_claims :: "pubkey \<times> pubkey \<rightharpoonup> StakeRecoveryClaim"
  es_policy :: "ArbitrationPolicy option"
  es_log :: "EscrowEvent list"

type_synonym 'z escrow_result = "EscrowErrorCode tx_error + 'z escrow_chain_scheme"

definition emit_escrow :: "EscrowEvent \<Rightarrow> 'z escrow_chain_scheme \<Rightarrow> 'z escrow_chain_scheme" where
  "emit_escrow e w = w\<lparr>es_log := es_log w @ [e]\<rparr>"

definition put_vault ::
  "pubkey \<times> pubkey \<Rightarrow> LiquidityVault \<Rightarrow> 'z escrow_chain_scheme \<Rightarrow> 'z escrow_chain_scheme" where
  "put_vault a v w = w\<lparr>es_vaults := (es_vaults w)(a \<mapsto> v)\<rparr>"

definition put_trade ::
  "u64 \<Rightarrow> TradeEscrowVault \<Rightarrow> 'z escrow_chain_scheme \<Rightarrow> 'z escrow_chain_scheme" where
  "put_trade rid e w = w\<lparr>es_trades := (es_trades w)(rid \<mapsto> e)\<rparr>"

definition put_case ::
  "u64 \<Rightarrow> DisputeCase \<Rightarrow> 'z escrow_chain_scheme \<Rightarrow> 'z escrow_chain_scheme" where
  "put_case rid d w = w\<lparr>es_cases := (es_cases w)(rid \<mapsto> d)\<rparr>"

definition put_claim ::
  "pubkey \<times> pubkey \<Rightarrow> StakeRecoveryClaim \<Rightarrow> 'z escrow_chain_scheme \<Rightarrow> 'z escrow_chain_scheme" where
  "put_claim a c w = w\<lparr>es_claims := (es_claims w)(a \<mapsto> c)\<rparr>"

lemmas escrow_world_simps =
  emit_escrow_def put_vault_def put_trade_def put_case_def put_claim_def


section \<open>Account loading\<close>

text \<open>\<open>#[account(seeds = [FEE_CONFIG_SEED], bump = fee_config.bump)]\<close>\<close>

definition load_fee_config ::
  "env \<Rightarrow> 'z escrow_chain_scheme \<Rightarrow> (FeeConfig \<Rightarrow> 'e tx_error + 'a) \<Rightarrow> 'e tx_error + 'a" where
  "load_fee_config env w k =
     ok_or (es_fee_config w) AccountNotInitialized (\<lambda>fc.
       require (fc_bump fc = bump_of env fee_config_pda) ConstraintSeeds (k fc))"

text \<open>A vault at the address of \<open>(merchant, mint)\<close>, its seeds given by those two keys.\<close>

definition load_vault ::
  "env \<Rightarrow> 'z escrow_chain_scheme \<Rightarrow> pubkey \<Rightarrow> pubkey \<Rightarrow> (LiquidityVault \<Rightarrow> 'e tx_error + 'a)
   \<Rightarrow> 'e tx_error + 'a" where
  "load_vault env w merchant mint k =
     ok_or (es_vaults w (merchant, mint)) AccountNotInitialized (\<lambda>v.
       require (lv_bump v = bump_of env (liquidity_vault_pda merchant mint)) ConstraintSeeds (k v))"

text \<open>Its token vault: present, with the bump the vault stores.\<close>

definition load_token_vault ::
  "env \<Rightarrow> 'z escrow_chain_scheme \<Rightarrow> pubkey \<Rightarrow> u8 \<Rightarrow> (token_account \<Rightarrow> 'e tx_error + 'a)
   \<Rightarrow> 'e tx_error + 'a" where
  "load_token_vault env w addr bump k =
     load_token w addr (\<lambda>t. require (bump = bump_of env addr) ConstraintSeeds (k t))"

text \<open>The trade escrow at the address of \<open>rid\<close>, its seeds recomputed from its own id.\<close>

definition load_trade ::
  "env \<Rightarrow> 'z escrow_chain_scheme \<Rightarrow> u64 \<Rightarrow> (TradeEscrowVault \<Rightarrow> 'e tx_error + 'a)
   \<Rightarrow> 'e tx_error + 'a" where
  "load_trade env w rid k =
     ok_or (es_trades w rid) AccountNotInitialized (\<lambda>e.
       require (te_reservation_id e = rid \<and> te_bump e = bump_of env (trade_escrow_pda rid))
         ConstraintSeeds (k e))"

definition load_case ::
  "env \<Rightarrow> 'z escrow_chain_scheme \<Rightarrow> u64 \<Rightarrow> (DisputeCase \<Rightarrow> 'e tx_error + 'a) \<Rightarrow> 'e tx_error + 'a"
  where
  "load_case env w rid k =
     ok_or (es_cases w rid) AccountNotInitialized (\<lambda>d.
       require (dc_reservation_id d = rid \<and> dc_bump d = bump_of env (dispute_case_pda rid))
         ConstraintSeeds (k d))"

lemmas escrow_load_defs =
  load_fee_config_def load_vault_def load_token_vault_def load_trade_def load_case_def
  load_token_def load_mint_def

end
