(* ===== verification/Escrow_Fees.thy ===== *)
theory Escrow_Fees
  imports Escrow_State
begin

text \<open>
  The settlement-fee arithmetic of \<open>programs/escrow/src/instructions/shared_logic.rs\<close>: the
  basis-point fee, its four-way split across the treasuries, and where rounding goes.
\<close>

definition ECOSYSTEM_TREASURY_SHARE :: nat where "ECOSYSTEM_TREASURY_SHARE = 1"

text \<open>The loop of \<open>split_fee_four_ways\<close> over the four basis-point figures.\<close>

fun fee_share_loop ::
  "u64 \<Rightarrow> u16 list \<Rightarrow> u64 list \<Rightarrow> u64 \<Rightarrow> EscrowErrorCode tx_error + u64 list \<times> u64" where
  "fee_share_loop fee [] shares allocated = Inr (shares, allocated)"
| "fee_share_loop fee (bps # splits) shares allocated =
     ok_or (mul_div_u64 fee (ucast bps) ESCROW_BPS_DENOMINATOR) (Program Overflow) (\<lambda>share.
     ok_or (checked_add allocated share) (Program Overflow) (\<lambda>allocated.
     fee_share_loop fee splits (shares @ [share]) allocated))"

definition fee_splits :: "FeeConfig \<Rightarrow> u16 list" where
  "fee_splits fc = [fc_dev_treasury_bps fc, fc_ecosystem_treasury_bps fc,
                    fc_infra_treasury_bps fc, fc_emergency_reserve_bps fc]"

definition split_fee_four_ways :: "FeeConfig \<Rightarrow> u64 \<Rightarrow> EscrowErrorCode tx_error + u64 list" where
  "split_fee_four_ways fee_config fee =
     and_then (fee_share_loop fee (fee_splits fee_config) [] 0) (\<lambda>(shares, allocated).
     ok_or (checked_sub fee allocated) (Program Overflow) (\<lambda>remainder.
     ok_or (checked_add (shares ! ECOSYSTEM_TREASURY_SHARE) remainder) (Program Overflow) (\<lambda>share.
     Inr (shares[ECOSYSTEM_TREASURY_SHARE := share]))))"

definition compute_fee_split ::
  "FeeConfig \<Rightarrow> u64 \<Rightarrow> EscrowErrorCode tx_error + u64 \<times> u64 list" where
  "compute_fee_split fee_config amount =
     ok_or (mul_div_u64 amount (ucast (fc_settlement_fee_bps fee_config)) ESCROW_BPS_DENOMINATOR)
       (Program Overflow) (\<lambda>fee.
     ok_or (checked_sub amount fee) (Program Overflow) (\<lambda>buyer_amount.
     and_then (split_fee_four_ways fee_config fee) (\<lambda>shares. Inr (buyer_amount, shares))))"

text \<open>What the configuration instructions enforce about the fee parameters.\<close>

definition fee_split_ok :: "FeeConfig \<Rightarrow> bool" where
  "fee_split_ok fc \<longleftrightarrow> unat (fc_settlement_fee_bps fc) \<le> 10000
     \<and> (\<Sum>b\<leftarrow>fee_splits fc. unat b) = 10000"

definition floor_share :: "nat \<Rightarrow> u16 \<Rightarrow> nat" where
  "floor_share fee bps = fee * unat bps div 10000"

text \<open>The fee on a settlement of \<open>amount\<close>.\<close>

definition settlement_fee :: "FeeConfig \<Rightarrow> u64 \<Rightarrow> nat" where
  "settlement_fee fc amount = unat amount * unat (fc_settlement_fee_bps fc) div 10000"

lemma sum_floor_le: "(\<Sum>b\<leftarrow>bs. floor_share fee b) \<le> fee * (\<Sum>b\<leftarrow>bs. unat b) div 10000"
proof (induction bs)
  case (Cons b bs)
  have "floor_share fee b + (fee * (\<Sum>b\<leftarrow>bs. unat b)) div 10000
      \<le> (fee * unat b + fee * (\<Sum>b\<leftarrow>bs. unat b)) div 10000"
    unfolding floor_share_def by (metis div_add1_eq le_add1)
  then show ?case using Cons.IH by (simp add: distrib_left)
qed simp

lemma fee_share_loop_result:
  assumes "\<And>b. b \<in> set bs \<Longrightarrow> unat b \<le> 10000"
    and "unat allocated + (\<Sum>b\<leftarrow>bs. floor_share (unat fee) b) < 2 ^ 64"
  shows "\<exists>new total. fee_share_loop fee bs shares allocated = Inr (shares @ new, total)
           \<and> map unat new = map (floor_share (unat fee)) bs
           \<and> unat total = unat allocated + (\<Sum>b\<leftarrow>bs. floor_share (unat fee) b)"
  using assms
proof (induction bs arbitrary: shares allocated)
  case (Cons b bs)
  have "unat b \<le> 10000" using Cons.prems(1) by simp
  then obtain s where s: "mul_div_u64 fee (ucast b) ESCROW_BPS_DENOMINATOR = Some s"
      "unat s = floor_share (unat fee) b"
    using mul_div_u64_share [of ESCROW_BPS_DENOMINATOR "ucast b" fee]
    by (auto simp: ESCROW_BPS_DENOMINATOR_def floor_share_def)
  have "unat allocated + unat s < 2 ^ 64" using Cons.prems(2) s(2) by simp
  then obtain a where a: "checked_add allocated s = Some a" by (simp add: checked_add_def)
  then have ua: "unat a = unat allocated + floor_share (unat fee) b"
    by (simp add: checked_add_Some s(2))
  have "\<exists>new total. fee_share_loop fee bs (shares @ [s]) a = Inr ((shares @ [s]) @ new, total)
           \<and> map unat new = map (floor_share (unat fee)) bs
           \<and> unat total = unat a + (\<Sum>b\<leftarrow>bs. floor_share (unat fee) b)"
    by (rule Cons.IH) (use Cons.prems ua in auto)
  then obtain new total where IH: "fee_share_loop fee bs (shares @ [s]) a
        = Inr ((shares @ [s]) @ new, total)"
      "map unat new = map (floor_share (unat fee)) bs"
      "unat total = unat a + (\<Sum>b\<leftarrow>bs. floor_share (unat fee) b)"
    by blast
  then show ?case
    using s a ua by (intro exI [of _ "s # new"] exI [of _ total]) simp
qed simp

lemma fee_splits_le:
  assumes "fee_split_ok fc" and "b \<in> set (fee_splits fc)"
  shows "unat b \<le> 10000"
  using assms by (auto simp: fee_split_ok_def fee_splits_def)

lemma split_fee_four_ways_shares:
  assumes ok: "fee_split_ok fc"
  shows "\<exists>d e i r. split_fee_four_ways fc fee = Inr [d, e, i, r]
     \<and> unat d = floor_share (unat fee) (fc_dev_treasury_bps fc)
     \<and> unat i = floor_share (unat fee) (fc_infra_treasury_bps fc)
     \<and> unat r = floor_share (unat fee) (fc_emergency_reserve_bps fc)
     \<and> unat d + unat e + unat i + unat r = unat fee"
proof -
  have le: "(\<Sum>b\<leftarrow>fee_splits fc. floor_share (unat fee) b) \<le> unat fee"
    using sum_floor_le [where bs = "fee_splits fc" and fee = "unat fee"] ok
    by (simp add: fee_split_ok_def)
  have "\<exists>new total. fee_share_loop fee (fee_splits fc) [] 0 = Inr ([] @ new, total)
     \<and> map unat new = map (floor_share (unat fee)) (fee_splits fc)
     \<and> unat total = unat (0::u64) + (\<Sum>b\<leftarrow>fee_splits fc. floor_share (unat fee) b)"
    by (rule fee_share_loop_result)
       (use fee_splits_le [OF ok] le unat_u64_bound [of fee] in auto)
  then obtain new total where loop: "fee_share_loop fee (fee_splits fc) [] 0 = Inr (new, total)"
      "map unat new = map (floor_share (unat fee)) (fee_splits fc)"
      "unat total = (\<Sum>b\<leftarrow>fee_splits fc. floor_share (unat fee) b)"
    by auto
  then obtain d e i r where new: "new = [d, e, i, r]"
    by (auto simp: fee_splits_def)
  obtain rem where rem: "checked_sub fee total = Some rem"
    using le loop(3) by (simp add: checked_sub_def)
  then have urem: "unat fee = unat total + unat rem" by (simp add: checked_sub_Some)
  have "unat e \<le> unat total"
    using loop(2) unfolding loop(3) by (simp add: new fee_splits_def)
  then have "unat e + unat rem \<le> unat fee" using urem by linarith
  then obtain e' where e': "checked_add e rem = Some e'"
    using unat_u64_bound [of fee] by (simp add: checked_add_def)
  then have ue: "unat e' = unat e + unat rem" by (simp add: checked_add_Some)
  have "split_fee_four_ways fc fee = Inr [d, e', i, r]"
    using loop(1) rem e' by (simp add: split_fee_four_ways_def new ECOSYSTEM_TREASURY_SHARE_def)
  moreover have parts: "unat d = floor_share (unat fee) (fc_dev_treasury_bps fc)"
      "unat e = floor_share (unat fee) (fc_ecosystem_treasury_bps fc)"
      "unat i = floor_share (unat fee) (fc_infra_treasury_bps fc)"
      "unat r = floor_share (unat fee) (fc_emergency_reserve_bps fc)"
    using loop(2) by (simp_all add: new fee_splits_def)
  moreover have "unat d + unat e' + unat i + unat r = unat fee"
  proof -
    have "unat total = floor_share (unat fee) (fc_dev_treasury_bps fc)
        + floor_share (unat fee) (fc_ecosystem_treasury_bps fc)
        + floor_share (unat fee) (fc_infra_treasury_bps fc)
        + floor_share (unat fee) (fc_emergency_reserve_bps fc)"
      using loop(3) by (simp add: fee_splits_def)
    with parts urem ue show ?thesis by linarith
  qed
  ultimately show ?thesis by blast
qed

lemma compute_fee_split_shares:
  assumes ok: "fee_split_ok fc"
  shows "\<exists>b d e i r. compute_fee_split fc amount = Inr (b, [d, e, i, r])
     \<and> unat b = unat amount - settlement_fee fc amount
     \<and> unat d = floor_share (settlement_fee fc amount) (fc_dev_treasury_bps fc)
     \<and> unat i = floor_share (settlement_fee fc amount) (fc_infra_treasury_bps fc)
     \<and> unat r = floor_share (settlement_fee fc amount) (fc_emergency_reserve_bps fc)
     \<and> unat b + unat d + unat e + unat i + unat r = unat amount"
proof -
  let ?f = "settlement_fee fc amount"
  obtain fee where fee: "mul_div_u64 amount (ucast (fc_settlement_fee_bps fc))
      ESCROW_BPS_DENOMINATOR = Some fee" "unat fee = ?f"
    using mul_div_u64_share [of ESCROW_BPS_DENOMINATOR "ucast (fc_settlement_fee_bps fc)" amount] ok
    by (auto simp: ESCROW_BPS_DENOMINATOR_def fee_split_ok_def settlement_fee_def)
  have "?f \<le> unat amount"
    using ok unfolding settlement_fee_def by (intro mul_div_le_nat) (simp add: fee_split_ok_def)
  then obtain b where b: "checked_sub amount fee = Some b"
    using fee(2) by (simp add: checked_sub_def)
  then have ub: "unat amount = unat fee + unat b" by (simp add: checked_sub_Some)
  from split_fee_four_ways_shares [OF ok, of fee] obtain d e i r where
    "split_fee_four_ways fc fee = Inr [d, e, i, r]" "unat d + unat e + unat i + unat r = unat fee"
    "unat d = floor_share (unat fee) (fc_dev_treasury_bps fc)"
    "unat i = floor_share (unat fee) (fc_infra_treasury_bps fc)"
    "unat r = floor_share (unat fee) (fc_emergency_reserve_bps fc)"
    by blast
  with fee b ub show ?thesis
    by (intro exI [of _ b] exI [of _ d] exI [of _ e] exI [of _ i] exI [of _ r])
       (simp add: compute_fee_split_def)
qed


section \<open>Properties\<close>

definition demo_fee_config :: FeeConfig where
  "demo_fee_config = \<lparr> fc_admin = Key 9, fc_ad_listing_fee = 5, fc_dispute_filing_fee = 30,
     fc_settlement_fee_bps = 100, fc_dev_treasury = Key 41, fc_ecosystem_treasury = Key 42,
     fc_infra_treasury = Key 43, fc_emergency_reserve = Key 44, fc_dev_treasury_bps = 4000,
     fc_ecosystem_treasury_bps = 3000, fc_infra_treasury_bps = 2000,
     fc_emergency_reserve_bps = 1000, fc_timeout_secs = 1800, fc_bump = 255,
     fc_min_arbitrator_stake_age_secs = 0, fc_arbitrator_sortition_bps = 0,
     fc_settlement_mints = Key 2 # replicate 15 default_pubkey, fc_settlement_mint_count = 1 \<rparr>"

lemma demo_fee_split_ok: "fee_split_ok demo_fee_config"
  by (simp add: fee_split_ok_def fee_splits_def demo_fee_config_def)

text \<open>
  For every fee and every split that sums to 10000 basis points, the four-way split
  succeeds, the shares add up to exactly the fee, the three other treasuries get the floor of
  their basis points, and the ecosystem treasury absorbs the rounding dust, which is at most
  three base units.
\<close>

theorem split_fee_conserves:
  assumes "fee_split_ok fc"
  shows "\<exists>d e i r. split_fee_four_ways fc fee = Inr [d, e, i, r]
     \<and> unat d + unat e + unat i + unat r = unat fee
     \<and> unat d = unat fee * unat (fc_dev_treasury_bps fc) div 10000
     \<and> unat i = unat fee * unat (fc_infra_treasury_bps fc) div 10000
     \<and> unat r = unat fee * unat (fc_emergency_reserve_bps fc) div 10000
     \<and> unat fee * unat (fc_ecosystem_treasury_bps fc) div 10000 \<le> unat e
     \<and> unat e \<le> unat fee * unat (fc_ecosystem_treasury_bps fc) div 10000 + 3"
proof -
  let ?F = "unat fee" and ?D = "unat (fc_dev_treasury_bps fc)"
    and ?E = "unat (fc_ecosystem_treasury_bps fc)" and ?I = "unat (fc_infra_treasury_bps fc)"
    and ?R = "unat (fc_emergency_reserve_bps fc)"
  from split_fee_four_ways_shares [OF assms, of fee] obtain d e i r where
    s: "split_fee_four_ways fc fee = Inr [d, e, i, r]" "unat d = ?F * ?D div 10000"
      "unat i = ?F * ?I div 10000" "unat r = ?F * ?R div 10000"
      "unat d + unat e + unat i + unat r = ?F"
    unfolding floor_share_def by blast
  have "?F * ?D + ?F * ?E + ?F * ?I + ?F * ?R = ?F * 10000"
    using assms by (simp add: fee_split_ok_def fee_splits_def flip: distrib_left)
  then have "?F * ?E div 10000 \<le> unat e \<and> unat e \<le> ?F * ?E div 10000 + 3"
    using s(2-5) by linarith
  with s show ?thesis by (intro exI [of _ d] exI [of _ e] exI [of _ i] exI [of _ r]) simp
qed

theorem split_fee_conserves_witness:
  "\<exists>d e i r. split_fee_four_ways demo_fee_config 7 = Inr [d, e, i, r]
     \<and> unat d = 2 \<and> unat e = 4 \<and> unat i = 1 \<and> unat r = 0"
  using split_fee_conserves [OF demo_fee_split_ok, of 7]
  by (auto simp: demo_fee_config_def)

end
