(* ===== verification/Escrow_Arbitration.thy ===== *)
theory Escrow_Arbitration
  imports Escrow_State
begin

text \<open>
  The decision logic of arbitration: the pool floor and terminal reasons of
  \<open>programs/escrow/src/arbitration.rs\<close>, and the tally and the retirement of silent seats from
  \<open>execute_dispute_outcome.rs\<close>. The tally is shown equivalent to strict stake-weighted
  plurality with a quorum; barring is shown to retire exactly the silent seats, within the
  capacity of the account.
\<close>


section \<open>The pool floor\<close>

definition MIN_DECIDABLE_ARBITRATOR_POOL :: u32 where
  "MIN_DECIDABLE_ARBITRATOR_POOL =
     word_of_nat MIN_ARBITRATORS + word_of_nat MAX_BARRED_ARBITRATORS"

record PoolFloor =
  pf_barred :: u32
  pf_seats_taken_total :: u32
  pf_seats_this_round :: u32
  pf_counted_reveals :: u32
  pf_published_pool :: u32

definition required_for_next_round :: "PoolFloor \<Rightarrow> u32" where
  "required_for_next_round floor = word_of_nat MIN_ARBITRATORS + pf_barred floor"

definition evidenced_pool :: "PoolFloor \<Rightarrow> u32" where
  "evidenced_pool floor = max (pf_published_pool floor) (pf_seats_taken_total floor)"

definition next_round_is_staffable :: "PoolFloor \<Rightarrow> bool" where
  "next_round_is_staffable floor =
     (if pf_published_pool floor = 0 then True
      else evidenced_pool floor \<ge> required_for_next_round floor)"

definition exhausted_rounds_reason :: "PoolFloor \<Rightarrow> TerminalSplitReason" where
  "exhausted_rounds_reason floor =
     (if pf_seats_this_round floor < word_of_nat MIN_ARBITRATORS then RoundUnstaffed
      else if pf_counted_reveals floor < word_of_nat MIN_ARBITRATORS then QuorumNotReached
      else NoConsensus)"


section \<open>The tally\<close>

fun outcome_index :: "DisputeOutcome \<Rightarrow> nat" where
  "outcome_index BuyerWins = 0"
| "outcome_index MerchantWins = 1"
| "outcome_index MutualSettlement = 2"
| "outcome_index InvalidDispute = 3"

definition outcome_at :: "nat \<Rightarrow> DisputeOutcome" where
  "outcome_at i = (if i = 0 then BuyerWins else if i = 1 then MerchantWins
     else if i = 2 then MutualSettlement else InvalidDispute)"

fun tally_loop ::
  "(DisputeOutcome option \<times> u64) list \<Rightarrow> u128 list \<Rightarrow> nat \<Rightarrow> u128 list \<times> nat" where
  "tally_loop [] totals counted = (totals, counted)"
| "tally_loop ((outcome, weight) # votes) totals counted =
     (if weight = 0 then tally_loop votes totals counted
      else case outcome of
        None \<Rightarrow> tally_loop votes totals counted
      | Some x \<Rightarrow> tally_loop votes
          (totals[outcome_index x := totals ! outcome_index x + ucast weight]) (counted + 1))"

definition case_votes :: "DisputeCase \<Rightarrow> (DisputeOutcome option \<times> u64) list" where
  "case_votes c = zip (dc_revealed_outcomes c) (dc_weights c)"

definition tally :: "DisputeCase \<Rightarrow> DisputeOutcome option \<times> nat" where
  "tally c =
     (let (totals, counted) = tally_loop (case_votes c) (replicate 4 0) 0 in
      if counted < MIN_ARBITRATORS then (None, counted)
      else
        let best = fold max totals 0;
            winners = filter (\<lambda>i. totals ! i = best) [0..<length totals]
        in if length winners \<noteq> 1 then (None, counted)
           else (Some (outcome_at (winners ! 0)), counted))"

text \<open>The specification: the stake behind an outcome and the number of votes that count.\<close>

definition support :: "(DisputeOutcome option \<times> u64) list \<Rightarrow> DisputeOutcome \<Rightarrow> nat" where
  "support votes x = (\<Sum>(v, weight)\<leftarrow>votes. if v = Some x then unat weight else 0)"

definition counted_votes :: "(DisputeOutcome option \<times> u64) list \<Rightarrow> nat" where
  "counted_votes votes = length (filter (\<lambda>(v, weight). v \<noteq> None \<and> weight \<noteq> 0) votes)"

definition strict_plurality :: "(DisputeOutcome option \<times> u64) list \<Rightarrow> DisputeOutcome \<Rightarrow> bool" where
  "strict_plurality votes x \<longleftrightarrow>
     MIN_ARBITRATORS \<le> counted_votes votes
     \<and> (\<forall>y \<in> {BuyerWins, MerchantWins, MutualSettlement, InvalidDispute} - {x}.
          support votes y < support votes x)"

lemma outcome_index_less [simp]: "outcome_index x < 4"
  by (cases x) simp_all

lemma outcome_index_inj [simp]: "outcome_index x = outcome_index y \<longleftrightarrow> x = y"
  by (cases x; cases y) simp_all

lemma outcome_at_index [simp]: "outcome_at (outcome_index x) = x"
  by (cases x) (simp_all add: outcome_at_def)

lemma outcome_index_at: "i < 4 \<Longrightarrow> outcome_index (outcome_at i) = i"
  by (auto simp: outcome_at_def)

lemma support_bound: "support votes x \<le> length votes * 2 ^ 64"
proof (induction votes)
  case (Cons v votes)
  have "unat (snd v) \<le> 2 ^ 64" using unat_u64_bound [of "snd v"] by simp
  with Cons show ?case by (cases v) (auto simp: support_def)
qed (simp add: support_def)

lemma tally_loop_totals:
  assumes "length totals = 4" and "\<And>x. unat (totals ! outcome_index x) + support votes x < 2 ^ 128"
  shows "\<exists>totals'. tally_loop votes totals counted = (totals', counted + counted_votes votes)
     \<and> length totals' = 4
     \<and> (\<forall>x. unat (totals' ! outcome_index x) = unat (totals ! outcome_index x) + support votes x)"
  using assms
proof (induction votes arbitrary: totals counted)
  case Nil
  then show ?case by (simp add: counted_votes_def support_def)
next
  case (Cons vote votes)
  obtain v weight where vote: "vote = (v, weight)" by (cases vote)
  show ?case
  proof (cases "weight = 0 \<or> v = None")
    case True
    then have skip: "tally_loop (vote # votes) totals counted = tally_loop votes totals counted"
        "support (vote # votes) = support votes" "counted_votes (vote # votes) = counted_votes votes"
      using vote by (auto simp: support_def counted_votes_def split: option.splits)
    show ?thesis unfolding skip by (rule Cons.IH) (use Cons.prems in \<open>simp_all add: skip\<close>)
  next
    case False
    then obtain o1 where v: "v = Some o1" by auto
    let ?t = "totals[outcome_index o1 := totals ! outcome_index o1 + ucast weight]"
    have "unat (totals ! outcome_index o1) + unat weight < 2 ^ 128"
      using Cons.prems(2) [of o1] by (simp add: vote v support_def)
    then have upd: "unat (?t ! outcome_index x)
        = unat (totals ! outcome_index x) + (if x = o1 then unat weight else 0)" for x
      using Cons.prems(1) by (simp add: unat_word_ariths nth_list_update)
    have sup: "support (vote # votes) x = (if x = o1 then unat weight else 0) + support votes x" for x
      by (auto simp: vote v support_def)
    have "\<exists>totals'. tally_loop votes ?t (counted + 1) = (totals', counted + 1 + counted_votes votes)
       \<and> length totals' = 4
       \<and> (\<forall>x. unat (totals' ! outcome_index x) = unat (?t ! outcome_index x) + support votes x)"
    proof (rule Cons.IH)
      show "unat (?t ! outcome_index x) + support votes x < 2 ^ 128" for x
        using Cons.prems(2) [of x] unfolding upd sup by simp
    qed (use Cons.prems(1) in simp)
    then show ?thesis
      using False by (auto simp: vote v upd sup [unfolded vote v] counted_votes_def)
  qed
qed

lemma filter_upt_single:
  "filter P [0..<n] = [i] \<longleftrightarrow> i < n \<and> P i \<and> (\<forall>j<n. P j \<longrightarrow> j = i)"
proof
  assume "filter P [0..<n] = [i]"
  then have "set (filter P [0..<n]) = {i}" by simp
  then show "i < n \<and> P i \<and> (\<forall>j<n. P j \<longrightarrow> j = i)" by auto
next
  assume "i < n \<and> P i \<and> (\<forall>j<n. P j \<longrightarrow> j = i)"
  then have "set (filter P [0..<n]) = {i}" by auto
  moreover have "distinct (filter P [0..<n])" by simp
  ultimately show "filter P [0..<n] = [i]"
    by (metis distinct_card length_Suc_conv length_0_conv card_1_singleton_iff set_simps(2)
        One_nat_def insertI1 list.set_intros(1) singletonD)
qed

lemma fold_max_bounds:
  fixes xs :: "u128 list"
  assumes "xs \<noteq> []"
  shows "fold max xs 0 \<in> set xs" and "\<And>x. x \<in> set xs \<Longrightarrow> x \<le> fold max xs 0"
proof -
  have eq: "fold max xs 0 = Max (set (0 # xs))" by (rule Max.set_eq_fold [symmetric])
  show le: "x \<le> fold max xs 0" if "x \<in> set xs" for x
    unfolding eq using that by (intro Max_ge) auto
  have "fold max xs 0 \<in> set (0 # xs)" unfolding eq by (rule Max_in) auto
  moreover have "fold max xs 0 \<in> set xs" if "fold max xs 0 = 0"
  proof -
    from assms obtain x where "x \<in> set xs" by (cases xs) auto
    then have "x = 0" using le [of x] that by simp
    with \<open>x \<in> set xs\<close> that show ?thesis by simp
  qed
  ultimately show "fold max xs 0 \<in> set xs" by auto
qed

lemma unique_winner:
  fixes xs :: "u128 list"
  assumes "xs \<noteq> []"
  shows "filter (\<lambda>i. xs ! i = fold max xs 0) [0..<length xs] = [i]
    \<longleftrightarrow> i < length xs \<and> (\<forall>j<length xs. j \<noteq> i \<longrightarrow> xs ! j < xs ! i)"
proof -
  from fold_max_bounds(1) [OF assms] obtain m where m: "m < length xs" "xs ! m = fold max xs 0"
    by (metis in_set_conv_nth)
  have le: "xs ! j \<le> fold max xs 0" if "j < length xs" for j
    using that by (intro fold_max_bounds(2) [OF assms]) simp
  show ?thesis
    unfolding filter_upt_single
  proof
    assume L: "i < length xs \<and> xs ! i = fold max xs 0
      \<and> (\<forall>j<length xs. xs ! j = fold max xs 0 \<longrightarrow> j = i)"
    then show "i < length xs \<and> (\<forall>j<length xs. j \<noteq> i \<longrightarrow> xs ! j < xs ! i)"
      using le by (auto simp: order.strict_iff_order)
  next
    assume R: "i < length xs \<and> (\<forall>j<length xs. j \<noteq> i \<longrightarrow> xs ! j < xs ! i)"
    have "m = i"
    proof (rule ccontr)
      assume "m \<noteq> i"
      with R m have "fold max xs 0 < xs ! i" by metis
      with le [of i] R show False by (simp add: leD)
    qed
    with R m show "i < length xs \<and> xs ! i = fold max xs 0
        \<and> (\<forall>j<length xs. xs ! j = fold max xs 0 \<longrightarrow> j = i)"
      by (metis order.strict_implies_not_eq)
  qed
qed

lemma all_outcomes: "(\<forall>y. P y) \<longleftrightarrow> (\<forall>y \<in> {BuyerWins, MerchantWins, MutualSettlement, InvalidDispute}. P y)"
  by (metis DisputeOutcome.exhaust insertCI)

lemma tally_spec:
  assumes "length (case_votes c) \<le> MAX_ARBITRATORS"
  shows "snd (tally c) = counted_votes (case_votes c)"
    and "fst (tally c) = Some x \<longleftrightarrow> strict_plurality (case_votes c) x"
proof -
  let ?v = "case_votes c"
  have "support ?v y < 2 ^ 128" for y
  proof -
    have "support ?v y \<le> length ?v * 2 ^ 64" by (rule support_bound)
    also have "\<dots> \<le> 7 * 2 ^ 64" using assms by (simp add: MAX_ARBITRATORS_def)
    finally show ?thesis by simp
  qed
  then obtain totals where loop: "tally_loop ?v (replicate 4 0) 0 = (totals, counted_votes ?v)"
      "length totals = 4" "\<And>y. unat (totals ! outcome_index y) = support ?v y"
    using tally_loop_totals [of "replicate 4 0" ?v 0] by auto
  let ?W = "filter (\<lambda>i. totals ! i = fold max totals 0) [0..<length totals]"
  have tally: "tally c = (if counted_votes ?v < MIN_ARBITRATORS \<or> length ?W \<noteq> 1
      then (None, counted_votes ?v) else (Some (outcome_at (?W ! 0)), counted_votes ?v))"
    by (simp add: tally_def loop(1) Let_def)
  then show "snd (tally c) = counted_votes ?v" by simp
  have less: "totals ! outcome_index y < totals ! outcome_index z \<longleftrightarrow> support ?v y < support ?v z"
    for y z by (simp add: word_less_nat_alt loop(3))
  have ne: "totals \<noteq> []" using loop(2) by auto
  have winner: "?W = [outcome_index x] \<longleftrightarrow> (\<forall>y. y \<noteq> x \<longrightarrow> support ?v y < support ?v x)"
  proof -
    have "?W = [outcome_index x]
        \<longleftrightarrow> (\<forall>j<4. j \<noteq> outcome_index x \<longrightarrow> totals ! j < totals ! outcome_index x)"
      using unique_winner [OF ne, of "outcome_index x"] by (simp add: loop(2))
    also have "\<dots> \<longleftrightarrow> (\<forall>y. y \<noteq> x \<longrightarrow> totals ! outcome_index y < totals ! outcome_index x)"
      by (metis outcome_index_at outcome_index_inj outcome_index_less)
    finally show ?thesis by (simp only: less)
  qed
  have single: "length ?W = 1 \<and> outcome_at (?W ! 0) = x \<longleftrightarrow> ?W = [outcome_index x]"
  proof
    assume L: "length ?W = 1 \<and> outcome_at (?W ! 0) = x"
    then obtain i where i: "?W = [i]" by (auto simp: length_Suc_conv)
    then have "i \<in> set ?W" by simp
    then have "i < 4" using loop(2) by simp
    with L i show "?W = [outcome_index x]" by (auto simp: outcome_index_at)
  qed simp
  have "fst (tally c) = Some x
      \<longleftrightarrow> MIN_ARBITRATORS \<le> counted_votes ?v \<and> (\<forall>y. y \<noteq> x \<longrightarrow> support ?v y < support ?v x)"
    unfolding winner [symmetric] single [symmetric] tally by auto
  also have "\<dots> \<longleftrightarrow> strict_plurality ?v x"
    unfolding strict_plurality_def all_outcomes by blast
  finally show "fst (tally c) = Some x \<longleftrightarrow> strict_plurality ?v x" .
qed


section \<open>Silent seats\<close>

text \<open>\<open>revealed_outcomes.get(index).is_some_and(|outcome| outcome.is_some())\<close>\<close>

definition seat_revealed :: "DisputeOutcome option list \<Rightarrow> nat \<Rightarrow> bool" where
  "seat_revealed revealed index =
     (case list_get revealed index of None \<Rightarrow> False | Some v \<Rightarrow> v \<noteq> None)"

fun bar_loop ::
  "DisputeOutcome option list \<Rightarrow> pubkey list \<Rightarrow> nat \<Rightarrow> pubkey list \<Rightarrow> pubkey list \<Rightarrow> pubkey list" where
  "bar_loop revealed barred index [] barred_this_round = barred_this_round"
| "bar_loop revealed barred index (a # arbitrators) barred_this_round =
     (if length barred + length barred_this_round \<ge> MAX_BARRED_ARBITRATORS then barred_this_round
      else bar_loop revealed barred (index + 1) arbitrators
             (if \<not> seat_revealed revealed index \<and> a \<notin> set barred
              then barred_this_round @ [a] else barred_this_round))"

definition bar_silent_seats :: "DisputeCase \<Rightarrow> DisputeCase" where
  "bar_silent_seats c =
     c\<lparr>dc_barred := dc_barred c
        @ bar_loop (dc_revealed_outcomes c) (dc_barred c) 0 (dc_arbitrators c) []\<rparr>"

text \<open>The seats that committed and never revealed, in seat order.\<close>

definition silent_seats ::
  "DisputeOutcome option list \<Rightarrow> pubkey list \<Rightarrow> nat \<Rightarrow> pubkey list \<Rightarrow> pubkey list" where
  "silent_seats revealed barred index arbitrators =
     map snd (filter (\<lambda>(i, a). \<not> seat_revealed revealed i \<and> a \<notin> set barred)
       (List.enumerate index arbitrators))"

lemma bar_loop_take:
  assumes "length barred + length acc \<le> MAX_BARRED_ARBITRATORS"
  shows "bar_loop revealed barred index arbitrators acc
       = take (MAX_BARRED_ARBITRATORS - length barred)
           (acc @ silent_seats revealed barred index arbitrators)"
  using assms
proof (induction arbitrators arbitrary: index acc)
  case Nil
  then show ?case by (simp add: silent_seats_def)
next
  case (Cons a arbitrators)
  show ?case
  proof (cases "length barred + length acc \<ge> MAX_BARRED_ARBITRATORS")
    case True
    with Cons.prems have "MAX_BARRED_ARBITRATORS - length barred = length acc" by simp
    with True show ?thesis by simp
  next
    case False
    then have room: "length barred + length (if \<not> seat_revealed revealed index \<and> a \<notin> set barred
        then acc @ [a] else acc) \<le> MAX_BARRED_ARBITRATORS" by simp
    show ?thesis
      using False Cons.IH [OF room, of "index + 1"]
      by (simp add: silent_seats_def del: take_append)
  qed
qed

lemma bar_silent_seats_barred:
  assumes "length (dc_barred c) \<le> MAX_BARRED_ARBITRATORS"
  shows "dc_barred (bar_silent_seats c)
       = dc_barred c @ take (MAX_BARRED_ARBITRATORS - length (dc_barred c))
           (silent_seats (dc_revealed_outcomes c) (dc_barred c) 0 (dc_arbitrators c))"
  using bar_loop_take [of "dc_barred c" "[]"] assms by (simp add: bar_silent_seats_def)

lemma silent_seats_subset: "set (silent_seats revealed barred index as) \<subseteq> set as - set barred"
  by (auto simp: silent_seats_def in_set_enumerate_eq)

lemma silent_seats_length: "length (silent_seats revealed barred index as) \<le> length as"
  by (simp add: silent_seats_def order.trans [OF length_filter_le])

lemma silent_seats_distinct: "distinct as \<Longrightarrow> distinct (silent_seats revealed barred index as)"
proof (induction "as" arbitrary: index)
  case (Cons a "as")
  have "silent_seats revealed barred index (a # as)
      = (if \<not> seat_revealed revealed index \<and> a \<notin> set barred then [a] else [])
        @ silent_seats revealed barred (Suc index) as"
    by (simp add: silent_seats_def)
  then show ?case using Cons silent_seats_subset [of revealed barred "Suc index" "as"] by auto
qed (simp add: silent_seats_def)

lemma bar_silent_seats_wf:
  assumes "length (dc_barred c) \<le> MAX_BARRED_ARBITRATORS"
  shows "length (dc_barred (bar_silent_seats c)) \<le> MAX_BARRED_ARBITRATORS"
  using assms by (simp add: bar_silent_seats_barred)

lemma bar_silent_seats_distinct:
  assumes "length (dc_barred c) \<le> MAX_BARRED_ARBITRATORS" and "distinct (dc_barred c)"
    and "distinct (dc_arbitrators c)"
  shows "distinct (dc_barred (bar_silent_seats c))"
  using assms silent_seats_distinct [of "dc_arbitrators c"]
    silent_seats_subset [of "dc_revealed_outcomes c" "dc_barred c" 0 "dc_arbitrators c"]
  by (auto simp: bar_silent_seats_barred dest: in_set_takeD)


section \<open>The case seed\<close>

definition latch_case_seed ::
  "env \<Rightarrow> sysvars \<Rightarrow> u64 \<Rightarrow> pubkey \<Rightarrow> EscrowErrorCode tx_error + u8 list" where
  "latch_case_seed env sv reservation_id trade_escrow =
     (let data = slot_hashes sv in
      require (length data \<ge> 8 + 40) (Program SlotHashesUnavailable)
     (require (u64_from_le_bytes (take 8 data) > 0) (Program SlotHashesUnavailable)
     (Inr (sha256 env (map of_char ''openfiat-dispute-case-seed'' @ bytes_at 8 40 data
             @ u64_to_le_bytes reservation_id @ key_bytes env trade_escrow)))))"


section \<open>Properties\<close>

definition demo_case :: DisputeCase where
  "demo_case = \<lparr> dc_reservation_id = 5, dc_trade_escrow = trade_escrow_pda 5, dc_opened_at = 100,
     dc_commit_deadline = 200, dc_reveal_deadline = 300, dc_resolved = False, dc_round = 0,
     dc_commit_window_secs = 100, dc_reveal_window_secs = 100, dc_case_seed = replicate 32 0,
     dc_round_opened_at = 100, dc_arbitrators = [Key 21, Key 22, Key 23, Key 24],
     dc_commitments = replicate 4 [],
     dc_revealed_outcomes = [Some BuyerWins, Some BuyerWins, Some MerchantWins, None],
     dc_weights = [20, 20, 30, 50], dc_reward_claimed = [], dc_barred = [],
     dc_deposit_vault = liquidity_vault_pda (Key 1) (Key 7), dc_deposit_mint = Key 7,
     dc_deposit = 10, dc_deposit_shortfall = 0, dc_outcome = None, dc_winning_weight = 0,
     dc_reward_pool = 0, dc_reward_remaining = 0, dc_deposit_settled = False, dc_bump = 255,
     dc_seats_taken_total = 4, dc_terminal_reason = None \<rparr>"

text \<open>
  C22. The tally is strict stake-weighted plurality with a quorum: it returns an outcome exactly
  when at least three revealed votes carry weight and that outcome's stake is strictly above
  every other outcome's. A tie, or too few counted reveals, decides nothing, and the count
  returned is the number of revealed votes with nonzero weight.
\<close>

theorem tally_is_strict_plurality:
  assumes "length (dc_weights c) \<le> MAX_ARBITRATORS"
  shows "snd (tally c) = counted_votes (case_votes c)
       \<and> (\<forall>x. fst (tally c) = Some x \<longleftrightarrow> strict_plurality (case_votes c) x)"
proof -
  have "length (case_votes c) \<le> MAX_ARBITRATORS" using assms by (simp add: case_votes_def)
  then show ?thesis using tally_spec by blast
qed

theorem tally_is_strict_plurality_witness:
  "strict_plurality (case_votes demo_case) BuyerWins \<and> fst (tally demo_case) = Some BuyerWins"
proof -
  have "strict_plurality (case_votes demo_case) BuyerWins"
    by (simp add: strict_plurality_def case_votes_def demo_case_def counted_votes_def support_def
        MIN_ARBITRATORS_def)
  moreover have "length (dc_weights demo_case) \<le> MAX_ARBITRATORS"
    by (simp add: demo_case_def MAX_ARBITRATORS_def)
  ultimately show ?thesis using tally_is_strict_plurality [of demo_case] by blast
qed

text \<open>
  Retiring silent seats keeps the barred list within the fourteen entries the account can
  store, whatever the round brought; and while there is room it appends exactly the seats that
  committed and did not reveal, in seat order, never an arbitrator who revealed.
\<close>

theorem bar_silent_seats_exact:
  assumes "length (dc_barred c) \<le> MAX_BARRED_ARBITRATORS"
  shows "length (dc_barred (bar_silent_seats c)) \<le> MAX_BARRED_ARBITRATORS
       \<and> (\<exists>new. dc_barred (bar_silent_seats c) = dc_barred c @ new
            \<and> (\<forall>a \<in> set new. \<exists>i < length (dc_arbitrators c). dc_arbitrators c ! i = a
                 \<and> \<not> seat_revealed (dc_revealed_outcomes c) i \<and> a \<notin> set (dc_barred c)))
       \<and> (length (dc_barred c) + length (dc_arbitrators c) \<le> MAX_BARRED_ARBITRATORS \<longrightarrow>
            dc_barred (bar_silent_seats c) = dc_barred c
              @ silent_seats (dc_revealed_outcomes c) (dc_barred c) 0 (dc_arbitrators c))"
proof -
  let ?S = "silent_seats (dc_revealed_outcomes c) (dc_barred c) 0 (dc_arbitrators c)"
  have mem: "\<exists>i < length (dc_arbitrators c). dc_arbitrators c ! i = a
      \<and> \<not> seat_revealed (dc_revealed_outcomes c) i \<and> a \<notin> set (dc_barred c)" if "a \<in> set ?S" for a
    using that by (auto simp: silent_seats_def in_set_enumerate_eq)
  have "length ?S \<le> length (dc_arbitrators c)" by (rule silent_seats_length)
  then show ?thesis
    using bar_silent_seats_wf [OF assms] mem
    by (auto simp: bar_silent_seats_barred [OF assms] dest: in_set_takeD)
qed

theorem bar_silent_seats_exact_witness:
  "dc_barred (bar_silent_seats demo_case) = [Key 24]"
  using bar_silent_seats_exact [of demo_case]
  by (simp add: demo_case_def MAX_BARRED_ARBITRATORS_def MAX_ARBITRATORS_def MAX_DISPUTE_ROUNDS_def
      silent_seats_def seat_revealed_def list_get_def enumerate_eq_zip upt_rec)

end
