(* ===== verification/Escrow_Vaults.thy ===== *)
theory Escrow_Vaults
  imports Escrow_Fees Escrow_Arbitration
begin

text \<open>
  The escrow program's configuration and liquidity-vault instructions: fee configuration,
  arbitration pool and policy, creating, funding and draining a vault, marking reservations,
  the advertisement-listing fee, and absorbing recovered stake. As in the staking theories the
  account constraints come first and then the handler's body; accounts whose address a
  constraint pins (treasuries, token vaults, the pool) are looked up at that address.
\<close>


section \<open>Shared loading patterns\<close>

text \<open>The signer's own vault: \<open>has_one = merchant\<close> and \<open>liquidity_vault.mint == mint.key()\<close>.\<close>

definition load_own_vault ::
  "env \<Rightarrow> 'z escrow_chain_scheme \<Rightarrow> pubkey \<Rightarrow> pubkey \<Rightarrow> (LiquidityVault \<Rightarrow> 'e tx_error + 'a)
   \<Rightarrow> 'e tx_error + 'a" where
  "load_own_vault env w merchant mint k =
     load_vault env w merchant mint (\<lambda>v.
     require (lv_merchant v = merchant) ConstraintHasOne
     (require (lv_mint v = mint) ConstraintRaw (k v)))"

text \<open>A vault named through another account: only the mint is constrained.\<close>

definition load_mint_vault ::
  "env \<Rightarrow> 'z escrow_chain_scheme \<Rightarrow> pubkey \<Rightarrow> pubkey \<Rightarrow> (LiquidityVault \<Rightarrow> 'e tx_error + 'a)
   \<Rightarrow> 'e tx_error + 'a" where
  "load_mint_vault env w merchant mint k =
     load_vault env w merchant mint (\<lambda>v. require (lv_mint v = mint) ConstraintRaw (k v))"

definition load_vault_tokens ::
  "env \<Rightarrow> 'z escrow_chain_scheme \<Rightarrow> pubkey \<Rightarrow> pubkey \<Rightarrow> LiquidityVault
   \<Rightarrow> (token_account \<Rightarrow> 'e tx_error + 'a) \<Rightarrow> 'e tx_error + 'a" where
  "load_vault_tokens env w merchant mint v k =
     load_token_vault env w (liquidity_tokens_pda merchant mint) (lv_token_vault_bump v) k"

text \<open>The singleton arbitration pool, constrained to a mint.\<close>

definition load_pool ::
  "'z escrow_chain_scheme \<Rightarrow> pubkey \<Rightarrow> (token_account \<Rightarrow> 'e tx_error + 'a) \<Rightarrow> 'e tx_error + 'a"
  where
  "load_pool w mint k =
     load_token w arbitration_pool_pda (\<lambda>p. require (ta_mint p = mint) ConstraintRaw (k p))"

text \<open>The four treasuries at the addresses the fee configuration pins.\<close>

definition fee_treasuries :: "FeeConfig \<Rightarrow> pubkey list" where
  "fee_treasuries fc = [fc_dev_treasury fc, fc_ecosystem_treasury fc, fc_infra_treasury fc,
                        fc_emergency_reserve fc]"

definition load_treasuries ::
  "'z escrow_chain_scheme \<Rightarrow> FeeConfig \<Rightarrow> 'e tx_error + 'a \<Rightarrow> 'e tx_error + 'a" where
  "load_treasuries w fc k =
     require (list_all (\<lambda>t. c_tokens w t \<noteq> None) (fee_treasuries fc)) AccountNotInitialized k"

lemmas vault_load_defs =
  escrow_load_defs load_own_vault_def load_mint_vault_def load_vault_tokens_def load_pool_def
  load_treasuries_def


section \<open>Configuration\<close>

record InitializeFeeConfigParams =
  if_ad_listing_fee :: u64
  if_dispute_filing_fee :: u64
  if_settlement_fee_bps :: u16
  if_dev_treasury :: pubkey
  if_ecosystem_treasury :: pubkey
  if_infra_treasury :: pubkey
  if_emergency_reserve :: pubkey
  if_dev_treasury_bps :: u16
  if_ecosystem_treasury_bps :: u16
  if_infra_treasury_bps :: u16
  if_emergency_reserve_bps :: u16
  if_timeout_secs :: i64

text \<open>The live prefix of the sixteen-slot allowlist, padded with the default key.\<close>

definition padded_mints :: "pubkey list \<Rightarrow> pubkey list" where
  "padded_mints mints = mints @ replicate (MAX_SETTLEMENT_MINTS - length mints) default_pubkey"

definition handle_initialize_fee_config ::
  "env \<Rightarrow> pubkey \<Rightarrow> InitializeFeeConfigParams \<Rightarrow> 'z escrow_chain_scheme \<Rightarrow> 'z escrow_result" where
  "handle_initialize_fee_config env admin params w =
     require (es_fee_config w = None) AccountInUse
     (require (ucast (if_settlement_fee_bps params) \<le> ESCROW_BPS_DENOMINATOR) (Program InvalidFeeBps)
     (let split_total = ucast (if_dev_treasury_bps params) + ucast (if_ecosystem_treasury_bps params)
            + ucast (if_infra_treasury_bps params) + ucast (if_emergency_reserve_bps params) :: u64
      in
      require (split_total = ESCROW_BPS_DENOMINATOR) (Program InvalidFeeSplit)
     (require (if_timeout_secs params > 0) (Program InvalidTimeout)
     (Inr (w\<lparr>es_fee_config := Some
        \<lparr> fc_admin = admin, fc_ad_listing_fee = if_ad_listing_fee params,
          fc_dispute_filing_fee = if_dispute_filing_fee params,
          fc_settlement_fee_bps = if_settlement_fee_bps params,
          fc_dev_treasury = if_dev_treasury params,
          fc_ecosystem_treasury = if_ecosystem_treasury params,
          fc_infra_treasury = if_infra_treasury params,
          fc_emergency_reserve = if_emergency_reserve params,
          fc_dev_treasury_bps = if_dev_treasury_bps params,
          fc_ecosystem_treasury_bps = if_ecosystem_treasury_bps params,
          fc_infra_treasury_bps = if_infra_treasury_bps params,
          fc_emergency_reserve_bps = if_emergency_reserve_bps params,
          fc_timeout_secs = if_timeout_secs params, fc_bump = bump_of env fee_config_pda,
          fc_min_arbitrator_stake_age_secs = 0, fc_arbitrator_sortition_bps = 0,
          fc_settlement_mints = padded_mints DEFAULT_SETTLEMENT_MINTS,
          fc_settlement_mint_count = word_of_nat (length DEFAULT_SETTLEMENT_MINTS) \<rparr>\<rparr>)))))"

record UpdateFeeConfigParams =
  uf_ad_listing_fee :: u64
  uf_dispute_filing_fee :: u64
  uf_settlement_fee_bps :: u16
  uf_dev_treasury_bps :: u16
  uf_ecosystem_treasury_bps :: u16
  uf_infra_treasury_bps :: u16
  uf_emergency_reserve_bps :: u16
  uf_timeout_secs :: i64
  uf_min_arbitrator_stake_age_secs :: i64
  uf_arbitrator_sortition_bps :: u16
  uf_settlement_mints :: "pubkey list"

text \<open>The loop over the submitted mints: no padding key, no duplicate of an earlier entry.\<close>

fun settlement_mints_valid :: "pubkey list \<Rightarrow> pubkey list \<Rightarrow> bool" where
  "settlement_mints_valid seen [] \<longleftrightarrow> True"
| "settlement_mints_valid seen (mint # mints) \<longleftrightarrow>
     mint \<noteq> default_pubkey \<and> mint \<notin> set seen \<and> settlement_mints_valid (seen @ [mint]) mints"

text \<open>\<open>#[account(token::mint = mint)]\<close> on each treasury argument\<close>

definition load_mint_token ::
  "'z escrow_chain_scheme \<Rightarrow> pubkey \<Rightarrow> pubkey \<Rightarrow> 'e tx_error + 'a \<Rightarrow> 'e tx_error + 'a" where
  "load_mint_token w mint addr k =
     load_token w addr (\<lambda>t. require (ta_mint t = mint) ConstraintTokenMint k)"

definition handle_update_fee_config ::
  "env \<Rightarrow> pubkey \<Rightarrow> pubkey \<Rightarrow> pubkey \<Rightarrow> pubkey \<Rightarrow> pubkey \<Rightarrow> pubkey \<Rightarrow> UpdateFeeConfigParams
   \<Rightarrow> 'z escrow_chain_scheme \<Rightarrow> 'z escrow_result" where
  "handle_update_fee_config env admin mint dev_treasury ecosystem_treasury infra_treasury
       emergency_reserve params w =
     load_fee_config env w (\<lambda>fc.
     require (fc_admin fc = admin) (Program Unauthorized)
     (require (c_mints w mint \<noteq> None) AccountNotInitialized
     (load_mint_token w mint dev_treasury
     (load_mint_token w mint ecosystem_treasury
     (load_mint_token w mint infra_treasury
     (load_mint_token w mint emergency_reserve
     (require (ucast (uf_settlement_fee_bps params) \<le> ESCROW_BPS_DENOMINATOR) (Program InvalidFeeBps)
     (let split_total = ucast (uf_dev_treasury_bps params) + ucast (uf_ecosystem_treasury_bps params)
            + ucast (uf_infra_treasury_bps params) + ucast (uf_emergency_reserve_bps params) :: u64
      in
      require (split_total = ESCROW_BPS_DENOMINATOR) (Program InvalidFeeSplit)
     (require (uf_timeout_secs params > 0) (Program InvalidTimeout)
     (require (uf_min_arbitrator_stake_age_secs params \<ge> 0) (Program InvalidStakeAge)
     (require (ucast (uf_arbitrator_sortition_bps params) < ESCROW_BPS_DENOMINATOR)
        (Program InvalidSortitionThreshold)
     (require (uf_settlement_mints params \<noteq> []) (Program EmptySettlementMintList)
     (require (length (uf_settlement_mints params) \<le> MAX_SETTLEMENT_MINTS)
        (Program SettlementMintListFull)
     (require (settlement_mints_valid [] (uf_settlement_mints params))
        (Program InvalidSettlementMint)
     (Inr (w\<lparr>es_fee_config := Some (fc\<lparr>
        fc_ad_listing_fee := uf_ad_listing_fee params,
        fc_dispute_filing_fee := uf_dispute_filing_fee params,
        fc_settlement_fee_bps := uf_settlement_fee_bps params,
        fc_dev_treasury := dev_treasury,
        fc_ecosystem_treasury := ecosystem_treasury,
        fc_infra_treasury := infra_treasury,
        fc_emergency_reserve := emergency_reserve,
        fc_dev_treasury_bps := uf_dev_treasury_bps params,
        fc_ecosystem_treasury_bps := uf_ecosystem_treasury_bps params,
        fc_infra_treasury_bps := uf_infra_treasury_bps params,
        fc_emergency_reserve_bps := uf_emergency_reserve_bps params,
        fc_timeout_secs := uf_timeout_secs params,
        fc_min_arbitrator_stake_age_secs := uf_min_arbitrator_stake_age_secs params,
        fc_arbitrator_sortition_bps := uf_arbitrator_sortition_bps params,
        fc_settlement_mints := padded_mints (uf_settlement_mints params),
        fc_settlement_mint_count := word_of_nat (length (uf_settlement_mints params))
      \<rparr>)\<rparr>))))))))))))))))"

definition handle_initialize_arbitration_pool ::
  "env \<Rightarrow> pubkey \<Rightarrow> pubkey \<Rightarrow> pubkey \<Rightarrow> 'z escrow_chain_scheme \<Rightarrow> 'z escrow_result" where
  "handle_initialize_arbitration_pool env admin mint token_program w =
     load_fee_config env w (\<lambda>fc.
     require (admin = fc_admin fc) (Program Unauthorized)
     (load_mint w mint token_program (\<lambda>_.
      init_token arbitration_pool_pda mint fee_config_pda w)))"

definition handle_publish_arbitrator_pool_size ::
  "env \<Rightarrow> sysvars \<Rightarrow> pubkey \<Rightarrow> u32 \<Rightarrow> 'z escrow_chain_scheme \<Rightarrow> 'z escrow_result" where
  "handle_publish_arbitrator_pool_size env sv admin eligible_arbitrators w =
     load_fee_config env w (\<lambda>fc.
     require (admin = fc_admin fc) (Program Unauthorized)
     (let previous = (case es_policy w of None \<Rightarrow> 0 | Some p \<Rightarrow> ap_eligible_arbitrators p)
      in Inr (emit_escrow
           (ArbitratorPoolSizePublished admin previous eligible_arbitrators
              MIN_DECIDABLE_ARBITRATOR_POOL (unix_timestamp sv))
           (w\<lparr>es_policy := Some \<lparr> ap_admin = fc_admin fc,
              ap_eligible_arbitrators = eligible_arbitrators, ap_updated_at = unix_timestamp sv,
              ap_bump = bump_of env arbitration_policy_pda \<rparr>\<rparr>))))"


section \<open>Liquidity vaults\<close>

definition handle_create_liquidity_vault ::
  "env \<Rightarrow> pubkey \<Rightarrow> pubkey \<Rightarrow> pubkey \<Rightarrow> 'z escrow_chain_scheme \<Rightarrow> 'z escrow_result" where
  "handle_create_liquidity_vault env merchant mint token_program w =
     load_mint w mint token_program (\<lambda>_.
     load_fee_config env w (\<lambda>fc.
     require (es_vaults w (merchant, mint) = None) AccountInUse
     (and_then (init_token (liquidity_tokens_pda merchant mint) mint
                  (liquidity_vault_pda merchant mint) w) (\<lambda>w'.
      and_then
        (if \<not> allows_settlement_mint fc mint
         then ok_or (c_tokens w arbitration_pool_pda) (Program ArbitrationPoolNotInitialized) (\<lambda>pool.
              require (mint = ta_mint pool) (Program SettlementMintNotAllowed) (Inr ()))
         else Inr ()) (\<lambda>_.
      Inr (put_vault (merchant, mint)
        \<lparr> lv_merchant = merchant, lv_mint = mint, lv_total = 0, lv_reserved = 0, lv_available = 0,
          lv_settled = 0, lv_pending_settlement = 0,
          lv_bump = bump_of env (liquidity_vault_pda merchant mint),
          lv_token_vault_bump = bump_of env (liquidity_tokens_pda merchant mint) \<rparr> w'))))))"

definition handle_deposit_liquidity ::
  "env \<Rightarrow> pubkey \<Rightarrow> pubkey \<Rightarrow> pubkey \<Rightarrow> pubkey \<Rightarrow> u64 \<Rightarrow> 'z escrow_chain_scheme
   \<Rightarrow> 'z escrow_result" where
  "handle_deposit_liquidity env merchant from mint token_program amount w =
     load_own_vault env w merchant mint (\<lambda>v.
     load_vault_tokens env w merchant mint v (\<lambda>_.
     load_token w from (\<lambda>from_account.
     require (ta_mint from_account = mint) ConstraintRaw
     (load_mint w mint token_program (\<lambda>mint_account.
      require (\<not> banned w merchant) (Program WalletBanned)
     (and_then (cpi_transfer env token_program from mint (liquidity_tokens_pda merchant mint)
                  merchant amount (mi_decimals mint_account) w) (\<lambda>w.
      ok_or (checked_add (lv_total v) amount) (Program Overflow) (\<lambda>total.
      ok_or (checked_add (lv_available v) amount) (Program Overflow) (\<lambda>available.
      Inr (put_vault (merchant, mint) (v\<lparr>lv_total := total, lv_available := available\<rparr>) w))))))))))"

definition handle_withdraw_liquidity ::
  "env \<Rightarrow> pubkey \<Rightarrow> pubkey \<Rightarrow> pubkey \<Rightarrow> pubkey \<Rightarrow> u64 \<Rightarrow> 'z escrow_chain_scheme
   \<Rightarrow> 'z escrow_result" where
  "handle_withdraw_liquidity env merchant to mint token_program amount w =
     load_own_vault env w merchant mint (\<lambda>v.
     load_vault_tokens env w merchant mint v (\<lambda>_.
     load_token w to (\<lambda>to_account.
     require (ta_mint to_account = mint) ConstraintRaw
     (load_mint w mint token_program (\<lambda>mint_account.
      require (lv_available v \<ge> amount) (Program InsufficientAvailableLiquidity)
     (and_then (cpi_transfer env token_program (liquidity_tokens_pda merchant mint) mint to
                  (liquidity_vault_pda merchant mint) amount (mi_decimals mint_account) w) (\<lambda>w.
      ok_or (checked_sub (lv_total v) amount) (Program Overflow) (\<lambda>total.
      Inr (put_vault (merchant, mint)
        (v\<lparr>lv_available := lv_available v - amount, lv_total := total\<rparr>) w)))))))))"

definition handle_reserve_liquidity ::
  "env \<Rightarrow> pubkey \<Rightarrow> pubkey \<Rightarrow> u64 \<Rightarrow> 'z escrow_chain_scheme \<Rightarrow> 'z escrow_result" where
  "handle_reserve_liquidity env merchant mint amount w =
     load_vault env w merchant mint (\<lambda>v.
     require (lv_mint v = mint) ConstraintSeeds
     (require (lv_merchant v = merchant) ConstraintHasOne
     (load_fee_config env w (\<lambda>fc.
      require (\<not> banned w merchant) (Program WalletBanned)
     (require (allows_settlement_mint fc (lv_mint v)) (Program SettlementMintNotAllowed)
     (require (lv_available v \<ge> amount) (Program InsufficientAvailableLiquidity)
     (ok_or (checked_add (lv_reserved v) amount) (Program Overflow) (\<lambda>reserved.
      Inr (put_vault (merchant, mint)
        (v\<lparr>lv_available := lv_available v - amount, lv_reserved := reserved\<rparr>) w)))))))))"

definition handle_charge_ad_listing_fee ::
  "env \<Rightarrow> sysvars \<Rightarrow> pubkey \<Rightarrow> pubkey \<Rightarrow> pubkey \<Rightarrow> u8 list \<Rightarrow> 'z escrow_chain_scheme
   \<Rightarrow> 'z escrow_result" where
  "handle_charge_ad_listing_fee env sv merchant mint token_program advertisement_id w =
     load_fee_config env w (\<lambda>fc.
     load_treasuries w fc
     (load_own_vault env w merchant mint (\<lambda>v.
      load_vault_tokens env w merchant mint v (\<lambda>_.
      require (list_all (\<lambda>t. ta_mint (the (c_tokens w t)) = mint) (fee_treasuries fc)) ConstraintRaw
     (load_mint w mint token_program (\<lambda>mint_account.
      let amount = fc_ad_listing_fee fc in
      require (amount > 0) (Program NoFeeConfigured)
     (require (lv_available v \<ge> amount) (Program InsufficientAvailableLiquidity)
     (and_then (split_fee_four_ways fc amount) (\<lambda>shares.
      and_then (transfer_each env token_program (liquidity_tokens_pda merchant mint) mint
                  (liquidity_vault_pda merchant mint) (mi_decimals mint_account)
                  (zip shares (fee_treasuries fc)) w) (\<lambda>w.
      ok_or (checked_sub (lv_available v) amount) (Program Overflow) (\<lambda>available.
      ok_or (checked_sub (lv_total v) amount) (Program Overflow) (\<lambda>total.
      Inr (emit_escrow
        (AdListingFeeCharged merchant advertisement_id mint amount available (unix_timestamp sv))
        (put_vault (merchant, mint) (v\<lparr>lv_available := available, lv_total := total\<rparr>) w))))))))))))))"

definition handle_absorb_stake_recovery ::
  "env \<Rightarrow> sysvars \<Rightarrow> pubkey \<Rightarrow> pubkey \<Rightarrow> 'z escrow_chain_scheme \<Rightarrow> 'z escrow_result" where
  "handle_absorb_stake_recovery env sv merchant mint w =
     require (c_mints w mint \<noteq> None) AccountNotInitialized
     (ok_or (es_claims w (merchant, mint)) AccountNotInitialized (\<lambda>claim.
      require (rc_merchant claim = merchant \<and> rc_bump claim = bump_of env (recovery_claim_pda merchant mint))
        ConstraintSeeds
     (require (rc_mint claim = mint) ConstraintRaw
     (ok_or (sk_receipts w merchant) AccountNotInitialized (\<lambda>receipt.
      require (rr_bump receipt = bump_of env (stake_recovery_receipt_pda merchant)) ConstraintSeeds
     (require (rr_merchant receipt = rc_merchant claim) ConstraintRaw
     (load_mint_vault env w merchant mint (\<lambda>v.
      load_vault_tokens env w merchant mint v (\<lambda>token_vault.
      let recovered_total = rr_recovered_total receipt;
          amount = absorbable claim recovered_total
      in
      require (amount > 0) (Program NothingToAbsorb)
     (ok_or (checked_add (lv_total v) amount) (Program Overflow) (\<lambda>backed.
      require (ta_amount token_vault \<ge> backed) (Program RecoveredTokensMissing)
     (ok_or (checked_add (lv_available v) amount) (Program Overflow) (\<lambda>available.
      ok_or (checked_add (rc_credited_total claim) amount) (Program Overflow) (\<lambda>credited.
      Inr (emit_escrow
        (StakeRecoveryAbsorbed merchant (recovery_claim_pda merchant mint) mint amount
           (rc_owed_total claim) credited (saturating_sub (rc_owed_total claim) recovered_total)
           available (unix_timestamp sv))
        (put_claim (merchant, mint) (claim\<lparr>rc_credited_total := credited\<rparr>)
        (put_vault (merchant, mint) (v\<lparr>lv_total := backed, lv_available := available\<rparr>) w)))))))))))))))))"

lemmas vault_handler_defs =
  handle_create_liquidity_vault_def handle_deposit_liquidity_def handle_withdraw_liquidity_def
  handle_reserve_liquidity_def handle_charge_ad_listing_fee_def handle_absorb_stake_recovery_def

end
