(* ===== verification/Escrow_Trades.thy ===== *)
theory Escrow_Trades
  imports Escrow_Vaults
begin

text \<open>
  Trade escrows: the token-moving helpers of
  \<open>programs/escrow/src/instructions/shared_logic.rs\<close> and the instructions that create, fund,
  approve, release, cancel and expire a trade. The helpers take the trade and the vault by value
  and return them updated, with the ledger; the handlers store them back.
\<close>


section \<open>Shared token movers\<close>

definition release_reservation_marking ::
  "LiquidityVault \<Rightarrow> u64 \<Rightarrow> EscrowErrorCode tx_error + LiquidityVault" where
  "release_reservation_marking v amount =
     require (lv_reserved v \<ge> amount) (Program InsufficientReservedLiquidity)
     (ok_or (checked_add (lv_available v) amount) (Program Overflow) (\<lambda>available.
      Inr (v\<lparr>lv_reserved := lv_reserved v - amount, lv_available := available\<rparr>)))"

text \<open>The unguarded \<open>pending_settlement -= amount\<close> aborts on underflow: the programs are built
  with overflow checks.\<close>

definition unwind_funded_trade_escrow ::
  "env \<Rightarrow> pubkey \<Rightarrow> pubkey \<Rightarrow> u8 \<Rightarrow> TradeEscrowVault \<Rightarrow> LiquidityVault \<Rightarrow> pubkey
   \<Rightarrow> 'z escrow_chain_scheme \<Rightarrow> EscrowErrorCode tx_error + LiquidityVault \<times> 'z escrow_chain_scheme"
  where
  "unwind_funded_trade_escrow env token_program mint decimals e v liquidity_token_vault w =
     (let amount = te_amount e; rid = te_reservation_id e in
      and_then (cpi_transfer env token_program (trade_tokens_pda rid) mint liquidity_token_vault
                  (trade_escrow_pda rid) amount decimals w) (\<lambda>w.
      ok_or (checked_sub (lv_pending_settlement v) amount) Panicked (\<lambda>pending.
      ok_or (checked_add (lv_available v) amount) (Program Overflow) (\<lambda>available.
      Inr (v\<lparr>lv_pending_settlement := pending, lv_available := available\<rparr>, w)))))"

definition split_trade_escrow_evenly ::
  "env \<Rightarrow> pubkey \<Rightarrow> pubkey \<Rightarrow> u8 \<Rightarrow> TradeEscrowVault \<Rightarrow> pubkey \<Rightarrow> LiquidityVault \<Rightarrow> pubkey
   \<Rightarrow> 'z escrow_chain_scheme
   \<Rightarrow> EscrowErrorCode tx_error + TradeEscrowVault \<times> LiquidityVault \<times> 'z escrow_chain_scheme" where
  "split_trade_escrow_evenly env token_program mint decimals e buyer_token_account v
       liquidity_token_vault w =
     (let amount = te_amount e; rid = te_reservation_id e; buyer_share = amount div 2 in
      ok_or (checked_sub amount buyer_share) (Program Overflow) (\<lambda>seller_share.
      and_then (transfer_each env token_program (trade_tokens_pda rid) mint (trade_escrow_pda rid)
                  decimals [(buyer_share, buyer_token_account), (seller_share, liquidity_token_vault)]
                  w) (\<lambda>w.
      ok_or (checked_sub (lv_pending_settlement v) amount) Panicked (\<lambda>pending.
      ok_or (checked_add (lv_available v) seller_share) (Program Overflow) (\<lambda>available.
      ok_or (checked_add (lv_settled v) buyer_share) (Program Overflow) (\<lambda>settled.
      Inr (e\<lparr>te_state := Released\<rparr>,
           v\<lparr>lv_pending_settlement := pending, lv_available := available, lv_settled := settled\<rparr>,
           w)))))))"

definition release_destinations :: "FeeConfig \<Rightarrow> pubkey \<Rightarrow> u64 \<Rightarrow> u64 list \<Rightarrow> (u64 \<times> pubkey) list"
  where
  "release_destinations fc buyer_token_account buyer_amount fee_shares =
     (buyer_amount, buyer_token_account) # zip fee_shares (fee_treasuries fc)"

definition release_trade_escrow_funds ::
  "env \<Rightarrow> pubkey \<Rightarrow> pubkey \<Rightarrow> u8 \<Rightarrow> TradeEscrowVault \<Rightarrow> pubkey \<Rightarrow> LiquidityVault \<Rightarrow> FeeConfig
   \<Rightarrow> 'z escrow_chain_scheme
   \<Rightarrow> EscrowErrorCode tx_error
       + TradeEscrowVault \<times> LiquidityVault \<times> u64 \<times> u64 list \<times> 'z escrow_chain_scheme" where
  "release_trade_escrow_funds env token_program mint decimals e buyer_token_account v fc w =
     (let amount = te_amount e; rid = te_reservation_id e in
      and_then (compute_fee_split fc amount) (\<lambda>(buyer_amount, fee_shares).
      and_then (transfer_each env token_program (trade_tokens_pda rid) mint (trade_escrow_pda rid)
                  decimals (release_destinations fc buyer_token_account buyer_amount fee_shares)
                  w) (\<lambda>w.
      ok_or (checked_sub (lv_pending_settlement v) amount) Panicked (\<lambda>pending.
      ok_or (checked_add (lv_settled v) amount) (Program Overflow) (\<lambda>settled.
      Inr (e\<lparr>te_state := Released\<rparr>,
           v\<lparr>lv_pending_settlement := pending, lv_settled := settled\<rparr>,
           buyer_amount, fee_shares, w))))))"

text \<open>The event both release paths emit.\<close>

definition released_event ::
  "TradeEscrowVault \<Rightarrow> pubkey \<Rightarrow> u64 \<Rightarrow> u64 \<Rightarrow> u64 list \<Rightarrow> bool \<Rightarrow> i64 \<Rightarrow> EscrowEvent" where
  "released_event e mint buyer_amount fee fee_shares via_dispute timestamp =
     EscrowReleased (te_reservation_id e) (te_buyer e) (te_seller e) mint (te_amount e) buyer_amount
       fee (fee_shares ! 0) (fee_shares ! 1) (fee_shares ! 2) (fee_shares ! 3) via_dispute timestamp"


section \<open>Account groups\<close>

text \<open>The trade escrow's token account, its bump stored on the trade.\<close>

definition load_trade_tokens ::
  "env \<Rightarrow> 'z escrow_chain_scheme \<Rightarrow> u64 \<Rightarrow> TradeEscrowVault \<Rightarrow> 'e tx_error + 'a \<Rightarrow> 'e tx_error + 'a"
  where
  "load_trade_tokens env w rid e k =
     load_token_vault env w (trade_tokens_pda rid) (te_token_vault_bump e) (\<lambda>_. k)"

text \<open>The buyer's receiving account: owned by the buyer and of the traded mint.\<close>

definition load_buyer_account ::
  "'z escrow_chain_scheme \<Rightarrow> TradeEscrowVault \<Rightarrow> pubkey \<Rightarrow> pubkey \<Rightarrow> 'e tx_error + 'a
   \<Rightarrow> 'e tx_error + 'a" where
  "load_buyer_account w e mint addr k =
     load_token w addr (\<lambda>t. require (ta_owner t = te_buyer e) ConstraintRaw
       (require (ta_mint t = mint) ConstraintRaw k))"

lemmas trade_load_defs = vault_load_defs load_trade_tokens_def load_buyer_account_def


section \<open>Instructions\<close>

definition handle_create_trade_escrow ::
  "env \<Rightarrow> sysvars \<Rightarrow> pubkey \<Rightarrow> pubkey \<Rightarrow> pubkey \<Rightarrow> pubkey \<Rightarrow> u64 \<Rightarrow> u64 \<Rightarrow> i64
   \<Rightarrow> 'z escrow_chain_scheme \<Rightarrow> 'z escrow_result" where
  "handle_create_trade_escrow env sv merchant buyer mint token_program reservation_id amount
       timeout_secs w =
     load_mint w mint token_program (\<lambda>_.
     load_fee_config env w (\<lambda>fc.
     load_own_vault env w merchant mint (\<lambda>v.
     require (es_trades w reservation_id = None) AccountInUse
     (and_then (init_token (trade_tokens_pda reservation_id) mint (trade_escrow_pda reservation_id) w)
       (\<lambda>w'.
      require (\<not> banned w merchant) (Program WalletBanned)
     (require (allows_settlement_mint fc mint) (Program SettlementMintNotAllowed)
     (require (lv_reserved v \<ge> amount) (Program InsufficientReservedLiquidity)
     (require (timeout_secs > 0) (Program InvalidTimeout)
     (ok_or (checked_add_i64 (unix_timestamp sv) timeout_secs) (Program Overflow) (\<lambda>timeout_at.
      Inr (put_trade reservation_id
        \<lparr> te_reservation_id = reservation_id, te_buyer = buyer, te_seller = merchant,
          te_mint = mint, te_amount = amount, te_state = Reserved, te_approved = False,
          te_created_at = unix_timestamp sv, te_timeout_at = timeout_at,
          te_bump = bump_of env (trade_escrow_pda reservation_id),
          te_token_vault_bump = bump_of env (trade_tokens_pda reservation_id) \<rparr> w')))))))))))"

definition handle_fund_trade_escrow ::
  "env \<Rightarrow> pubkey \<Rightarrow> pubkey \<Rightarrow> pubkey \<Rightarrow> u64 \<Rightarrow> 'z escrow_chain_scheme \<Rightarrow> 'z escrow_result" where
  "handle_fund_trade_escrow env merchant mint token_program rid w =
     load_mint w mint token_program (\<lambda>mint_account.
     load_own_vault env w merchant mint (\<lambda>v.
     load_vault_tokens env w merchant mint v (\<lambda>_.
     load_trade env w rid (\<lambda>e.
     require (te_seller e = merchant) ConstraintRaw
     (require (te_mint e = mint) ConstraintRaw
     (require (te_state e = Reserved) (Program InvalidVaultState)
     (load_trade_tokens env w rid e
     (let amount = te_amount e in
      require (lv_reserved v \<ge> amount) (Program InsufficientReservedLiquidity)
     (and_then (cpi_transfer env token_program (liquidity_tokens_pda merchant mint) mint
                  (trade_tokens_pda rid) (liquidity_vault_pda merchant mint) amount
                  (mi_decimals mint_account) w) (\<lambda>w.
      ok_or (checked_add (lv_pending_settlement v) amount) (Program Overflow) (\<lambda>pending.
      Inr (put_trade rid (e\<lparr>te_state := AwaitingFiatSettlement\<rparr>)
          (put_vault (merchant, mint)
            (v\<lparr>lv_reserved := lv_reserved v - amount, lv_pending_settlement := pending\<rparr>) w)))))))))))))"

definition handle_approve_settlement ::
  "env \<Rightarrow> pubkey \<Rightarrow> u64 \<Rightarrow> 'z escrow_chain_scheme \<Rightarrow> 'z escrow_result" where
  "handle_approve_settlement env merchant rid w =
     load_trade env w rid (\<lambda>e.
     require (te_seller e = merchant) ConstraintRaw
     (require (te_state e = AwaitingFiatSettlement) (Program InvalidVaultState)
     (Inr (put_trade rid (e\<lparr>te_approved := True\<rparr>) w))))"

definition handle_release_escrow ::
  "env \<Rightarrow> sysvars \<Rightarrow> pubkey \<Rightarrow> pubkey \<Rightarrow> u64 \<Rightarrow> pubkey \<Rightarrow> 'z escrow_chain_scheme
   \<Rightarrow> 'z escrow_result" where
  "handle_release_escrow env sv mint token_program rid buyer_token_account w =
     load_mint w mint token_program (\<lambda>mint_account.
     load_trade env w rid (\<lambda>e.
     load_mint_vault env w (te_seller e) mint (\<lambda>v.
     require (te_mint e = mint) ConstraintRaw
     (require (te_state e = AwaitingFiatSettlement) (Program InvalidVaultState)
     (require (te_approved e) (Program InvalidVaultState)
     (load_trade_tokens env w rid e
     (load_buyer_account w e mint buyer_token_account
     (load_fee_config env w (\<lambda>fc.
      load_treasuries w fc
     (and_then (release_trade_escrow_funds env token_program mint (mi_decimals mint_account) e
                  buyer_token_account v fc w) (\<lambda>(e', v', buyer_amount, fee_shares, w).
      ok_or (checked_sub (te_amount e) buyer_amount) (Program Overflow) (\<lambda>fee.
      Inr (emit_escrow
            (released_event e mint buyer_amount fee fee_shares False (unix_timestamp sv))
            (put_trade rid e' (put_vault (te_seller e, mint) v' w)))))))))))))))"

text \<open>The shared tail of cancel and expire: pull a funded escrow back or release the marking.\<close>

definition close_reservation ::
  "env \<Rightarrow> pubkey \<Rightarrow> pubkey \<Rightarrow> u8 \<Rightarrow> u64 \<Rightarrow> TradeEscrowVault \<Rightarrow> LiquidityVault
   \<Rightarrow> 'z escrow_chain_scheme \<Rightarrow> 'z escrow_result" where
  "close_reservation env token_program mint decimals rid e v w =
     and_then
       (if te_state e = AwaitingFiatSettlement
        then unwind_funded_trade_escrow env token_program mint decimals e v
               (liquidity_tokens_pda (te_seller e) mint) w
        else and_then (release_reservation_marking v (te_amount e)) (\<lambda>v. Inr (v, w)))
       (\<lambda>(v, w). Inr (put_trade rid (e\<lparr>te_state := Cancelled\<rparr>)
                      (put_vault (te_seller e, mint) v w)))"

text \<open>Their common account list.\<close>

definition load_open_reservation ::
  "env \<Rightarrow> 'z escrow_chain_scheme \<Rightarrow> pubkey \<Rightarrow> pubkey \<Rightarrow> u64
   \<Rightarrow> (mint_account \<Rightarrow> TradeEscrowVault \<Rightarrow> LiquidityVault \<Rightarrow> EscrowErrorCode tx_error + 'a)
   \<Rightarrow> EscrowErrorCode tx_error + 'a" where
  "load_open_reservation env w mint token_program rid k =
     load_mint w mint token_program (\<lambda>mint_account.
     load_trade env w rid (\<lambda>e.
     load_mint_vault env w (te_seller e) mint (\<lambda>v.
     require (te_mint e = mint) ConstraintRaw
     (require (\<not> te_approved e) (Program InvalidVaultState)
     (require (te_state e = Reserved \<or> te_state e = AwaitingFiatSettlement)
        (Program InvalidVaultState)
     (load_trade_tokens env w rid e
     (load_vault_tokens env w (te_seller e) mint v (\<lambda>_. k mint_account e v))))))))"

definition handle_cancel_reservation ::
  "env \<Rightarrow> pubkey \<Rightarrow> pubkey \<Rightarrow> pubkey \<Rightarrow> u64 \<Rightarrow> 'z escrow_chain_scheme \<Rightarrow> 'z escrow_result" where
  "handle_cancel_reservation env signer mint token_program rid w =
     load_open_reservation env w mint token_program rid (\<lambda>mint_account e v.
     require (signer = te_buyer e \<or> signer = te_seller e) (Program NotAPartyToThisTrade)
     (close_reservation env token_program mint (mi_decimals mint_account) rid e v w))"

definition handle_expire_reservation ::
  "env \<Rightarrow> sysvars \<Rightarrow> pubkey \<Rightarrow> pubkey \<Rightarrow> u64 \<Rightarrow> 'z escrow_chain_scheme \<Rightarrow> 'z escrow_result" where
  "handle_expire_reservation env sv mint token_program rid w =
     load_open_reservation env w mint token_program rid (\<lambda>mint_account e v.
     require (unix_timestamp sv > te_timeout_at e) (Program NotYetExpired)
     (close_reservation env token_program mint (mi_decimals mint_account) rid e v w))"

lemmas trade_handler_defs =
  handle_create_trade_escrow_def handle_fund_trade_escrow_def handle_approve_settlement_def
  handle_release_escrow_def handle_cancel_reservation_def handle_expire_reservation_def

end
