(* ===== verification/Escrow_Disputes.thy ===== *)
theory Escrow_Disputes
  imports Escrow_Trades
begin

text \<open>
  The arbitration instructions: opening a case, committing and revealing votes, topping up a
  deposit, executing an outcome (with its undecided-round branch), and claiming an arbitrator's
  reward.
\<close>


section \<open>Opening a case\<close>

text \<open>\<open>stake_recovery_claim\<close> with \<open>init_if_needed\<close>: a fresh account is zeroed.\<close>

definition claim_or_new :: "'z escrow_chain_scheme \<Rightarrow> pubkey \<times> pubkey \<Rightarrow> StakeRecoveryClaim" where
  "claim_or_new w addr = (case es_claims w addr of
      Some c \<Rightarrow> c
    | None \<Rightarrow> \<lparr> rc_merchant = default_pubkey, rc_mint = default_pubkey, rc_owed_total = 0,
               rc_credited_total = 0, rc_case_count = 0, rc_bump = 0 \<rparr>)"

text \<open>Debiting the merchant's vault for the deposit, when there is one to take.\<close>

definition take_deposit ::
  "env \<Rightarrow> pubkey \<Rightarrow> pubkey \<Rightarrow> pubkey \<Rightarrow> u8 \<Rightarrow> u64 \<Rightarrow> LiquidityVault \<Rightarrow> 'z escrow_chain_scheme
   \<Rightarrow> EscrowErrorCode tx_error + LiquidityVault \<times> 'z escrow_chain_scheme" where
  "take_deposit env token_program seller mint decimals deposit v w =
     (if deposit > 0 then
        and_then (cpi_transfer env token_program (liquidity_tokens_pda seller mint) mint
                    arbitration_pool_pda (liquidity_vault_pda seller mint) deposit decimals w) (\<lambda>w.
        ok_or (checked_sub (lv_available v) deposit) (Program Overflow) (\<lambda>available.
        ok_or (checked_sub (lv_total v) deposit) (Program Overflow) (\<lambda>total.
        Inr (v\<lparr>lv_available := available, lv_total := total\<rparr>, w))))
      else Inr (v, w))"

text \<open>Recording the shortfall on the merchant's claim.\<close>

definition record_shortfall ::
  "env \<Rightarrow> u64 \<Rightarrow> pubkey \<Rightarrow> pubkey \<Rightarrow> u64 \<Rightarrow> i64 \<Rightarrow> 'z escrow_chain_scheme \<Rightarrow> 'z escrow_result" where
  "record_shortfall env rid seller mint shortfall now w =
     (let claim = (claim_or_new w (seller, mint))\<lparr>rc_merchant := seller, rc_mint := mint,
                     rc_bump := bump_of env (recovery_claim_pda seller mint)\<rparr>
      in
      if shortfall > 0 then
        ok_or (checked_add (rc_owed_total claim) shortfall) (Program Overflow) (\<lambda>owed.
        ok_or (checked_add (rc_case_count claim) 1) (Program Overflow) (\<lambda>cases.
        Inr (emit_escrow (StakeRecoveryClaimRecorded rid seller (recovery_claim_pda seller mint) mint
                           shortfall owed (rc_credited_total claim) cases now)
            (put_claim (seller, mint) (claim\<lparr>rc_owed_total := owed, rc_case_count := cases\<rparr>) w))))
      else Inr (put_claim (seller, mint) claim w))"

definition window_in_range :: "i64 \<Rightarrow> bool" where
  "window_in_range secs \<longleftrightarrow> MIN_DISPUTE_WINDOW_SECS \<le> secs \<and> secs \<le> MAX_DISPUTE_WINDOW_SECS"

definition handle_open_dispute_case ::
  "env \<Rightarrow> sysvars \<Rightarrow> pubkey \<Rightarrow> u64 \<Rightarrow> pubkey \<Rightarrow> pubkey \<Rightarrow> i64 \<Rightarrow> i64 \<Rightarrow> 'z escrow_chain_scheme
   \<Rightarrow> 'z escrow_result" where
  "handle_open_dispute_case env sv signer rid deposit_mint token_program commit_window_secs
       reveal_window_secs w =
     load_trade env w rid (\<lambda>e.
     require (signer = te_buyer e \<or> signer = te_seller e) (Program NotAPartyToThisTrade)
     (require (te_state e = AwaitingFiatSettlement) (Program InvalidVaultState)
     (require (es_cases w rid = None) AccountInUse
     (load_fee_config env w (\<lambda>fc.
      load_mint w deposit_mint token_program (\<lambda>mint_account.
      let seller = te_seller e; now = unix_timestamp sv in
      load_mint_vault env w seller deposit_mint (\<lambda>v.
      load_vault_tokens env w seller deposit_mint v (\<lambda>_.
      load_pool w deposit_mint (\<lambda>_.
      require (\<not> banned w signer) (Program WalletBanned)
     (require (window_in_range commit_window_secs) (Program DisputeWindowOutOfRange)
     (require (window_in_range reveal_window_secs) (Program DisputeWindowOutOfRange)
     (ok_or (checked_add_i64 now commit_window_secs) (Program Overflow) (\<lambda>commit_deadline.
      ok_or (checked_add_i64 commit_deadline reveal_window_secs) (Program Overflow) (\<lambda>reveal_deadline.
      let configured = fc_dispute_filing_fee fc; deposit = min configured (lv_available v) in
      ok_or (checked_sub configured deposit) (Program Overflow) (\<lambda>shortfall.
      and_then (take_deposit env token_program seller deposit_mint (mi_decimals mint_account)
                  deposit v w) (\<lambda>(v, w).
      and_then (record_shortfall env rid seller deposit_mint shortfall now
                 (emit_escrow (ArbitrationDepositTaken rid seller signer
                    (liquidity_vault_pda seller deposit_mint) deposit_mint deposit shortfall now)
                 (put_vault (seller, deposit_mint) v w))) (\<lambda>w.
      and_then (latch_case_seed env sv rid (trade_escrow_pda rid)) (\<lambda>case_seed.
      Inr (put_trade rid (e\<lparr>te_state := Frozen\<rparr>)
        (put_case rid
          \<lparr> dc_reservation_id = rid, dc_trade_escrow = trade_escrow_pda rid, dc_opened_at = now,
            dc_commit_deadline = commit_deadline, dc_reveal_deadline = reveal_deadline,
            dc_resolved = False, dc_round = 0, dc_commit_window_secs = commit_window_secs,
            dc_reveal_window_secs = reveal_window_secs, dc_case_seed = case_seed,
            dc_round_opened_at = now, dc_arbitrators = [], dc_commitments = [],
            dc_revealed_outcomes = [], dc_weights = [], dc_reward_claimed = [], dc_barred = [],
            dc_deposit_vault = liquidity_vault_pda seller deposit_mint,
            dc_deposit_mint = deposit_mint, dc_deposit = deposit, dc_deposit_shortfall = shortfall,
            dc_outcome = None, dc_winning_weight = 0, dc_reward_pool = 0, dc_reward_remaining = 0,
            dc_deposit_settled = False, dc_bump = bump_of env (dispute_case_pda rid),
            dc_seats_taken_total = 0, dc_terminal_reason = None \<rparr> w))))))))))))))))))))"


section \<open>Voting\<close>

text \<open>The signer's arbitrator stake, read from the staking program's account.\<close>

definition load_arbitrator_stake ::
  "env \<Rightarrow> 'z escrow_chain_scheme \<Rightarrow> pubkey \<Rightarrow> (StakeAccount \<Rightarrow> 'e tx_error + 'a) \<Rightarrow> 'e tx_error + 'a"
  where
  "load_arbitrator_stake env w arbitrator k =
     ok_or (sk_stakes w (arbitrator, Arbitrator)) AccountNotInitialized (\<lambda>s.
     require (sa_bump s = bump_of env (stake_account_pda arbitrator Arbitrator)) ConstraintSeeds (k s))"

definition handle_commit_dispute_vote ::
  "env \<Rightarrow> sysvars \<Rightarrow> pubkey \<Rightarrow> u64 \<Rightarrow> u8 list \<Rightarrow> 'z escrow_chain_scheme \<Rightarrow> 'z escrow_result" where
  "handle_commit_dispute_vote env sv arbitrator rid commitment w =
     load_case env w rid (\<lambda>d.
     load_config env w (\<lambda>staking_config.
     load_arbitrator_stake env w arbitrator (\<lambda>stake.
     load_fee_config env w (\<lambda>fc.
     let now = unix_timestamp sv in
     require (effective_stake stake staking_config \<ge> min_stake_for staking_config Arbitrator)
       (Program ArbitratorStakeBelowMinimum)
     (require (meets_stake_age stake now (fc_min_arbitrator_stake_age_secs fc))
       (Program ArbitratorStakeTooYoung)
     (require (now < dc_commit_deadline d) (Program CommitWindowClosed)
     (require (arbitrator \<notin> set (dc_barred d)) (Program ArbitratorBarredFromCase)
     (require (qualifies_for_seat env (dc_case_seed d) (stake_account_pda arbitrator Arbitrator)
                (fc_arbitrator_sortition_bps fc) (dc_round_opened_at d) (dc_commit_deadline d) now)
       (Program NotDrawnForThisCase)
     (require (arbitrator \<notin> set (dc_arbitrators d)) (Program AlreadyCommitted)
     (require (length (dc_arbitrators d) < MAX_ARBITRATORS) (Program DisputeCaseFull)
     (ok_or (checked_add (dc_seats_taken_total d) 1) (Program Overflow) (\<lambda>seats_taken_total.
      Inr (put_case rid (d\<lparr>dc_arbitrators := dc_arbitrators d @ [arbitrator],
        dc_commitments := dc_commitments d @ [commitment],
        dc_revealed_outcomes := dc_revealed_outcomes d @ [None],
        dc_weights := dc_weights d @ [0],
        dc_seats_taken_total := seats_taken_total\<rparr>) w)))))))))))))"

definition handle_reveal_dispute_vote ::
  "env \<Rightarrow> sysvars \<Rightarrow> pubkey \<Rightarrow> u64 \<Rightarrow> DisputeOutcome \<Rightarrow> u8 list \<Rightarrow> 'z escrow_chain_scheme
   \<Rightarrow> 'z escrow_result" where
  "handle_reveal_dispute_vote env sv arbitrator rid outcome salt w =
     load_case env w rid (\<lambda>d.
     load_config env w (\<lambda>staking_config.
     load_arbitrator_stake env w arbitrator (\<lambda>stake.
     let now = unix_timestamp sv in
     require (now \<ge> dc_commit_deadline d \<and> now < dc_reveal_deadline d) (Program NotInRevealWindow)
     (ok_or (position arbitrator (dc_arbitrators d)) (Program NoCommitmentFound) (\<lambda>index.
      ok_or (list_get (dc_revealed_outcomes d) index) Panicked (\<lambda>revealed.
      require (revealed = None) (Program AlreadyRevealed)
     (ok_or (list_get (dc_commitments d) index) Panicked (\<lambda>commitment.
      require (sha256 env (word_of_nat (outcome_index outcome) # salt) = commitment)
        (Program CommitmentMismatch)
     (ok_or (list_get (dc_weights d) index) Panicked (\<lambda>_.
      Inr (put_case rid (d\<lparr>dc_revealed_outcomes := (dc_revealed_outcomes d)[index := Some outcome],
        dc_weights := (dc_weights d)[index := effective_stake stake staking_config]\<rparr>) w)))))))))))"


section \<open>Executing an outcome\<close>

text \<open>The instruction's accounts as the handlers see them: the mutable ones by value, to be
  written back when the instruction returns.\<close>

record 'w execute_ctx =
  cx_mint :: pubkey
  cx_decimals :: u8
  cx_token_program :: pubkey
  cx_dispute_case :: DisputeCase
  cx_trade_escrow :: TradeEscrowVault
  cx_liquidity_vault :: LiquidityVault
  cx_buyer_token_account :: pubkey
  cx_fee_config :: FeeConfig
  cx_deposit_mint :: pubkey
  cx_deposit_decimals :: u8
  cx_deposit_token_program :: pubkey
  cx_merchant_open_vault :: LiquidityVault
  cx_remaining :: "pubkey list"
  cx_world :: 'w

type_synonym 'z ctx_result = "EscrowErrorCode tx_error + 'z escrow_chain_scheme execute_ctx"

definition published_pool_size ::
  "'z escrow_chain_scheme \<Rightarrow> pubkey list \<Rightarrow> EscrowErrorCode tx_error + u32" where
  "published_pool_size w remaining =
     (case remaining of
        [] \<Rightarrow> Inr 0
      | info # _ \<Rightarrow>
          require (info = arbitration_policy_pda) (Program InvalidArbitrationPolicy)
          (ok_or (es_policy w) AccountNotInitialized (\<lambda>policy.
           Inr (ap_eligible_arbitrators policy))))"

definition settle_deposit ::
  "env \<Rightarrow> DisputeOutcome option \<Rightarrow> 'z escrow_chain_scheme execute_ctx
   \<Rightarrow> EscrowErrorCode tx_error + u64 \<times> u64 \<times> 'z escrow_chain_scheme execute_ctx" where
  "settle_deposit env outcome ctx =
     (let d = cx_dispute_case ctx; deposit = dc_deposit d; ov = cx_merchant_open_vault ctx in
      if dc_deposit_settled d \<or> deposit = 0 then Inr (0, 0, ctx)
      else if outcome = Some BuyerWins then
        Inr (deposit, 0, ctx\<lparr>cx_dispute_case := d\<lparr>dc_deposit_settled := True,
          dc_reward_pool := deposit, dc_reward_remaining := deposit\<rparr>\<rparr>)
      else
        and_then (cpi_transfer env (cx_deposit_token_program ctx) arbitration_pool_pda
                    (cx_deposit_mint ctx) (liquidity_tokens_pda (lv_merchant ov) (cx_deposit_mint ctx))
                    fee_config_pda deposit (cx_deposit_decimals ctx) (cx_world ctx)) (\<lambda>w.
        ok_or (checked_add (lv_available ov) deposit) (Program Overflow) (\<lambda>available.
        ok_or (checked_add (lv_total ov) deposit) (Program Overflow) (\<lambda>total.
        Inr (0, deposit, ctx\<lparr>cx_dispute_case := d\<lparr>dc_deposit_settled := True\<rparr>,
          cx_merchant_open_vault := ov\<lparr>lv_available := available, lv_total := total\<rparr>,
          cx_world := w\<rparr>)))))"

text \<open>\<open>split_trade_escrow_evenly\<close> on the instruction's accounts\<close>

definition ctx_split ::
  "env \<Rightarrow> 'z escrow_chain_scheme execute_ctx \<Rightarrow> 'z ctx_result" where
  "ctx_split env ctx =
     and_then (split_trade_escrow_evenly env (cx_token_program ctx) (cx_mint ctx) (cx_decimals ctx)
                 (cx_trade_escrow ctx) (cx_buyer_token_account ctx) (cx_liquidity_vault ctx)
                 (liquidity_tokens_pda (te_seller (cx_trade_escrow ctx)) (cx_mint ctx))
                 (cx_world ctx)) (\<lambda>(e, v, w).
     Inr (ctx\<lparr>cx_trade_escrow := e, cx_liquidity_vault := v, cx_world := w\<rparr>))"

definition ctx_unwind ::
  "env \<Rightarrow> 'z escrow_chain_scheme execute_ctx \<Rightarrow> 'z ctx_result" where
  "ctx_unwind env ctx =
     and_then (unwind_funded_trade_escrow env (cx_token_program ctx) (cx_mint ctx) (cx_decimals ctx)
                 (cx_trade_escrow ctx) (cx_liquidity_vault ctx)
                 (liquidity_tokens_pda (te_seller (cx_trade_escrow ctx)) (cx_mint ctx))
                 (cx_world ctx)) (\<lambda>(v, w).
     Inr (ctx\<lparr>cx_trade_escrow := (cx_trade_escrow ctx)\<lparr>te_state := Cancelled\<rparr>,
              cx_liquidity_vault := v, cx_world := w\<rparr>))"

definition ctx_release ::
  "env \<Rightarrow> i64 \<Rightarrow> 'z escrow_chain_scheme execute_ctx \<Rightarrow> 'z ctx_result" where
  "ctx_release env now ctx =
     and_then (release_trade_escrow_funds env (cx_token_program ctx) (cx_mint ctx) (cx_decimals ctx)
                 (cx_trade_escrow ctx) (cx_buyer_token_account ctx) (cx_liquidity_vault ctx)
                 (cx_fee_config ctx) (cx_world ctx)) (\<lambda>(e, v, buyer_amount, fee_shares, w).
     ok_or (checked_sub (te_amount (cx_trade_escrow ctx)) buyer_amount) (Program Overflow) (\<lambda>fee.
     Inr (ctx\<lparr>cx_trade_escrow := e, cx_liquidity_vault := v,
       cx_world := emit_escrow (released_event e (cx_mint ctx) buyer_amount fee fee_shares True now) w\<rparr>)))"

definition ctx_emit ::
  "EscrowEvent \<Rightarrow> 'z escrow_chain_scheme execute_ctx \<Rightarrow> 'z escrow_chain_scheme execute_ctx" where
  "ctx_emit ev ctx = ctx\<lparr>cx_world := emit_escrow ev (cx_world ctx)\<rparr>"

definition resolved_event ::
  "'z escrow_chain_scheme execute_ctx \<Rightarrow> DisputeOutcome option \<Rightarrow> u64 \<Rightarrow> u64 \<Rightarrow> u64 \<Rightarrow> i64
   \<Rightarrow> EscrowEvent" where
  "resolved_event ctx outcome winning_weight reward_pool deposit_refunded now =
     (let d = cx_dispute_case ctx; e = cx_trade_escrow ctx in
      DisputeResolved (dc_reservation_id d) (te_buyer e) (te_seller e) outcome (dc_round d)
        winning_weight (word_of_nat (length (dc_arbitrators d))) reward_pool deposit_refunded now)"

text \<open>A \<open>u64\<close> iterator sum, which aborts on overflow.\<close>

fun sum_u64 :: "u64 list \<Rightarrow> u64 option" where
  "sum_u64 [] = Some 0"
| "sum_u64 (x # xs) = (case sum_u64 xs of None \<Rightarrow> None | Some s \<Rightarrow> checked_add x s)"

definition winning_weights :: "DisputeCase \<Rightarrow> DisputeOutcome \<Rightarrow> u64 list" where
  "winning_weights d outcome = map snd (filter (\<lambda>(x, _). x = Some outcome) (case_votes d))"

definition reopen_round ::
  "env \<Rightarrow> sysvars \<Rightarrow> i64 \<Rightarrow> u8 \<Rightarrow> 'z escrow_chain_scheme execute_ctx \<Rightarrow> 'z ctx_result" where
  "reopen_round env sv now next_round ctx =
     (let d = cx_dispute_case ctx in
      and_then (latch_case_seed env sv (dc_reservation_id d) (dc_trade_escrow d)) (\<lambda>case_seed.
      ok_or (checked_add_i64 now (dc_commit_window_secs d)) (Program Overflow) (\<lambda>commit_deadline.
      ok_or (checked_add_i64 commit_deadline (dc_reveal_window_secs d)) (Program Overflow)
        (\<lambda>reveal_deadline.
      Inr (ctx\<lparr>cx_dispute_case := d\<lparr>dc_round := next_round, dc_round_opened_at := now,
        dc_commit_deadline := commit_deadline, dc_reveal_deadline := reveal_deadline,
        dc_case_seed := case_seed, dc_arbitrators := [], dc_commitments := [],
        dc_revealed_outcomes := [], dc_weights := [], dc_reward_claimed := []\<rparr>\<rparr>)))))"

text \<open>The split that ends a case no round could decide.\<close>

definition terminal_split ::
  "env \<Rightarrow> i64 \<Rightarrow> PoolFloor \<Rightarrow> TerminalSplitReason \<Rightarrow> nat \<Rightarrow> nat
   \<Rightarrow> 'z escrow_chain_scheme execute_ctx \<Rightarrow> 'z ctx_result" where
  "terminal_split env now floor reason seats_this_round counted_reveals ctx =
     and_then (settle_deposit env None ctx) (\<lambda>(reward_pool, deposit_refunded, ctx).
     and_then (ctx_split env ctx) (\<lambda>ctx.
     let d = (cx_dispute_case ctx)\<lparr>dc_resolved := True, dc_outcome := None,
                dc_terminal_reason := Some reason\<rparr>;
         ctx = ctx\<lparr>cx_dispute_case := d\<rparr>;
         ctx = ctx_emit (resolved_event ctx None 0 reward_pool deposit_refunded now) ctx
     in Inr (ctx_emit (DisputeTerminalSplit (dc_reservation_id d) reason (dc_round d)
               (word_of_nat seats_this_round) (word_of_nat counted_reveals) (ucast (pf_barred floor))
               (pf_seats_taken_total floor) (required_for_next_round floor)
               (pf_published_pool floor) now) ctx)))"

definition handle_undecided_round ::
  "env \<Rightarrow> sysvars \<Rightarrow> i64 \<Rightarrow> nat \<Rightarrow> 'z escrow_chain_scheme execute_ctx \<Rightarrow> 'z ctx_result" where
  "handle_undecided_round env sv now counted_reveals ctx =
     ok_or (checked_add (dc_round (cx_dispute_case ctx)) 1) (Program Overflow) (\<lambda>next_round.
     let seats_this_round = length (dc_arbitrators (cx_dispute_case ctx));
         d = bar_silent_seats (cx_dispute_case ctx);
         ctx = ctx\<lparr>cx_dispute_case := d\<rparr>
     in
     and_then (published_pool_size (cx_world ctx) (cx_remaining ctx)) (\<lambda>published_pool.
     let floor = \<lparr> pf_barred = word_of_nat (length (dc_barred d)),
                   pf_seats_taken_total = dc_seats_taken_total d,
                   pf_seats_this_round = word_of_nat seats_this_round,
                   pf_counted_reveals = word_of_nat counted_reveals,
                   pf_published_pool = published_pool \<rparr>
     in
     if next_round \<ge> MAX_DISPUTE_ROUNDS then
       terminal_split env now floor (exhausted_rounds_reason floor) seats_this_round counted_reveals ctx
     else if next_round_is_staffable floor then reopen_round env sv now next_round ctx
     else terminal_split env now floor PoolExhausted seats_this_round counted_reveals ctx))"

text \<open>The \<open>match outcome\<close> of a decided round.\<close>

definition apply_outcome ::
  "env \<Rightarrow> i64 \<Rightarrow> DisputeOutcome \<Rightarrow> 'z escrow_chain_scheme execute_ctx \<Rightarrow> 'z ctx_result" where
  "apply_outcome env now outcome ctx =
     (case outcome of
        BuyerWins \<Rightarrow> ctx_release env now ctx
      | MerchantWins \<Rightarrow> ctx_unwind env ctx
      | InvalidDispute \<Rightarrow> ctx_unwind env ctx
      | MutualSettlement \<Rightarrow> ctx_split env ctx)"

definition execute_body ::
  "env \<Rightarrow> sysvars \<Rightarrow> 'z escrow_chain_scheme execute_ctx \<Rightarrow> 'z ctx_result" where
  "execute_body env sv ctx =
     (let now = unix_timestamp sv in
      require (now \<ge> dc_reveal_deadline (cx_dispute_case ctx)) (Program RevealWindowStillOpen)
      (case tally (cx_dispute_case ctx) of
         (None, counted_reveals) \<Rightarrow> handle_undecided_round env sv now counted_reveals ctx
       | (Some outcome, _) \<Rightarrow>
           ok_or (sum_u64 (winning_weights (cx_dispute_case ctx) outcome)) Panicked (\<lambda>winning_weight.
           and_then (settle_deposit env (Some outcome) ctx) (\<lambda>(reward_pool, deposit_refunded, ctx).
           and_then (apply_outcome env now outcome ctx) (\<lambda>ctx.
           let d = cx_dispute_case ctx;
               ctx = ctx\<lparr>cx_dispute_case := d\<lparr>dc_resolved := True, dc_outcome := Some outcome,
                 dc_winning_weight := winning_weight,
                 dc_reward_claimed := replicate (length (dc_arbitrators d)) False\<rparr>\<rparr>
           in Inr (ctx_emit
                (resolved_event ctx (Some outcome) winning_weight reward_pool deposit_refunded now)
                ctx))))))"

record ExecuteDisputeOutcome =
  ex_mint :: pubkey
  ex_token_program :: pubkey
  ex_dispute_case :: u64
  ex_trade_escrow :: u64
  ex_buyer_token_account :: pubkey
  ex_deposit_mint :: pubkey
  ex_deposit_token_program :: pubkey
  ex_merchant_open_vault :: "pubkey \<times> pubkey"
  ex_remaining :: "pubkey list"

text \<open>The account constraints, in the order of the accounts struct.\<close>

definition load_execute_ctx ::
  "env \<Rightarrow> ExecuteDisputeOutcome \<Rightarrow> 'z escrow_chain_scheme \<Rightarrow> 'z ctx_result" where
  "load_execute_ctx env a w =
     (let mint = ex_mint a; deposit_mint = ex_deposit_mint a in
      load_mint w mint (ex_token_program a) (\<lambda>mint_account.
      load_case env w (ex_dispute_case a) (\<lambda>d.
      require (\<not> dc_resolved d) (Program DisputeAlreadyResolved)
     (load_trade env w (ex_trade_escrow a) (\<lambda>e.
      require (trade_escrow_pda (ex_trade_escrow a) = dc_trade_escrow d) ConstraintRaw
     (require (te_mint e = mint) ConstraintRaw
     (require (te_state e = Frozen) (Program InvalidVaultState)
     (load_trade_tokens env w (ex_trade_escrow a) e
     (load_mint_vault env w (te_seller e) mint (\<lambda>v.
      load_vault_tokens env w (te_seller e) mint v (\<lambda>_.
      load_buyer_account w e mint (ex_buyer_token_account a)
     (load_fee_config env w (\<lambda>fc.
      load_treasuries w fc
     (load_mint w deposit_mint (ex_deposit_token_program a) (\<lambda>deposit_mint_account.
      require (deposit_mint = dc_deposit_mint d) ConstraintRaw
     (load_pool w deposit_mint (\<lambda>_.
      ok_or (es_vaults w (ex_merchant_open_vault a)) AccountNotInitialized (\<lambda>ov.
      let open_key = liquidity_vault_pda (fst (ex_merchant_open_vault a)) (snd (ex_merchant_open_vault a))
      in
      require (open_key = dc_deposit_vault d) ConstraintRaw
     (require (open_key \<noteq> liquidity_vault_pda (te_seller e) mint)
        (Program DepositVaultAliasesSettlementVault)
     (load_token_vault env w (liquidity_tokens_pda (lv_merchant ov) deposit_mint)
        (lv_token_vault_bump ov) (\<lambda>_.
      Inr \<lparr> cx_mint = mint, cx_decimals = mi_decimals mint_account,
            cx_token_program = ex_token_program a, cx_dispute_case = d, cx_trade_escrow = e,
            cx_liquidity_vault = v, cx_buyer_token_account = ex_buyer_token_account a,
            cx_fee_config = fc, cx_deposit_mint = deposit_mint,
            cx_deposit_decimals = mi_decimals deposit_mint_account,
            cx_deposit_token_program = ex_deposit_token_program a, cx_merchant_open_vault = ov,
            cx_remaining = ex_remaining a, cx_world = w \<rparr>)))))))))))))))))))))"

text \<open>Writing the mutable accounts back.\<close>

definition store_execute_ctx ::
  "ExecuteDisputeOutcome \<Rightarrow> 'z escrow_chain_scheme execute_ctx \<Rightarrow> 'z escrow_chain_scheme" where
  "store_execute_ctx a ctx =
     put_case (ex_dispute_case a) (cx_dispute_case ctx)
     (put_trade (ex_trade_escrow a) (cx_trade_escrow ctx)
     (put_vault (ex_merchant_open_vault a) (cx_merchant_open_vault ctx)
     (put_vault (te_seller (cx_trade_escrow ctx), cx_mint ctx) (cx_liquidity_vault ctx)
      (cx_world ctx))))"

definition handle_execute_dispute_outcome ::
  "env \<Rightarrow> sysvars \<Rightarrow> ExecuteDisputeOutcome \<Rightarrow> 'z escrow_chain_scheme \<Rightarrow> 'z escrow_result" where
  "handle_execute_dispute_outcome env sv a w =
     and_then (load_execute_ctx env a w) (\<lambda>ctx.
     and_then (execute_body env sv ctx) (\<lambda>ctx. Inr (store_execute_ctx a ctx)))"


section \<open>Rewards and late deposits\<close>

text \<open>\<open>get(i).copied().flatten() == Some(outcome)\<close> with a positive weight\<close>

definition winning_seat :: "DisputeCase \<Rightarrow> DisputeOutcome \<Rightarrow> nat \<Rightarrow> bool" where
  "winning_seat d outcome i \<longleftrightarrow>
     list_get (dc_revealed_outcomes d) i = Some (Some outcome)
     \<and> (case list_get (dc_weights d) i of None \<Rightarrow> False | Some weight \<Rightarrow> weight > 0)"

definition outstanding_seats :: "DisputeCase \<Rightarrow> DisputeOutcome \<Rightarrow> nat" where
  "outstanding_seats d outcome =
     length (filter (\<lambda>i. \<not> dc_reward_claimed d ! i \<and> winning_seat d outcome i)
               [0..<length (dc_reward_claimed d)])"

definition reward_share ::
  "DisputeCase \<Rightarrow> DisputeOutcome \<Rightarrow> u64 \<Rightarrow> EscrowErrorCode tx_error + u64" where
  "reward_share d outcome weight =
     (if outstanding_seats d outcome \<le> 1 then Inr (dc_reward_remaining d)
      else ok_or (mul_div_u64 (dc_reward_pool d) weight (max (dc_winning_weight d) 1))
             (Program Overflow) (\<lambda>share. Inr (min share (dc_reward_remaining d))))"

definition handle_claim_arbitration_reward ::
  "env \<Rightarrow> sysvars \<Rightarrow> pubkey \<Rightarrow> u64 \<Rightarrow> pubkey \<Rightarrow> pubkey \<Rightarrow> pubkey \<Rightarrow> 'z escrow_chain_scheme
   \<Rightarrow> 'z escrow_result" where
  "handle_claim_arbitration_reward env sv arbitrator rid mint to token_program w =
     load_case env w rid (\<lambda>d.
     require (dc_resolved d) (Program DisputeNotDecided)
     (load_fee_config env w (\<lambda>fc.
      load_mint w mint token_program (\<lambda>mint_account.
      require (mint = dc_deposit_mint d) ConstraintRaw
     (load_pool w mint (\<lambda>_.
      load_token w to (\<lambda>to_account.
      require (ta_mint to_account = mint) ConstraintRaw
     (ok_or (dc_outcome d) (Program DisputeNotDecided) (\<lambda>outcome.
      require (dc_reward_remaining d > 0) (Program NoFeeConfigured)
     (ok_or (position arbitrator (dc_arbitrators d)) (Program NotAWinningArbitrator) (\<lambda>index.
      require (list_get (dc_revealed_outcomes d) index = Some (Some outcome))
        (Program NotAWinningArbitrator)
     (require (list_get (dc_reward_claimed d) index = Some False) (Program RewardAlreadyClaimed)
     (let weight = (case list_get (dc_weights d) index of None \<Rightarrow> 0 | Some x \<Rightarrow> x) in
      require (weight > 0) (Program NotAWinningArbitrator)
     (and_then (reward_share d outcome weight) (\<lambda>amount.
      and_then (cpi_transfer env token_program arbitration_pool_pda mint to fee_config_pda amount
                  (mi_decimals mint_account) w) (\<lambda>w.
      ok_or (checked_sub (dc_reward_remaining d) amount) (Program Overflow) (\<lambda>remaining.
      Inr (emit_escrow (ArbitrationRewardClaimed rid arbitrator weight (dc_winning_weight d) amount
                          to (unix_timestamp sv))
          (put_case rid (d\<lparr>dc_reward_claimed := (dc_reward_claimed d)[index := True],
             dc_reward_remaining := remaining\<rparr>) w)))))))))))))))))))"

definition handle_top_up_arbitration_deposit ::
  "env \<Rightarrow> sysvars \<Rightarrow> u64 \<Rightarrow> pubkey \<Rightarrow> pubkey \<Rightarrow> 'z escrow_chain_scheme \<Rightarrow> 'z escrow_result" where
  "handle_top_up_arbitration_deposit env sv rid mint token_program w =
     load_case env w rid (\<lambda>d.
     require (\<not> dc_resolved d) (Program DisputeAlreadyResolved)
     (ok_or (es_trades w rid) AccountNotInitialized (\<lambda>e.
      require (te_bump e = bump_of env (trade_escrow_pda rid)) ConstraintSeeds
     (require (trade_escrow_pda rid = dc_trade_escrow d) ConstraintRaw
     (require (te_state e = Frozen) (Program InvalidVaultState)
     (load_mint w mint token_program (\<lambda>mint_account.
      require (mint = dc_deposit_mint d) ConstraintRaw
     (let merchant = te_seller e in
      load_vault env w merchant mint (\<lambda>v.
      require (liquidity_vault_pda merchant mint = dc_deposit_vault d) ConstraintRaw
     (require (lv_mint v = mint) ConstraintRaw
     (load_vault_tokens env w merchant mint v (\<lambda>_.
      load_pool w mint (\<lambda>_.
      let shortfall = dc_deposit_shortfall d in
      require (shortfall > 0) (Program NoDepositShortfall)
     (let amount = min shortfall (lv_available v) in
      require (amount > 0) (Program NoLiquidityForShortfall)
     (and_then (take_deposit env token_program merchant mint (mi_decimals mint_account) amount v w)
       (\<lambda>(v, w).
      ok_or (checked_add (dc_deposit d) amount) (Program Overflow) (\<lambda>deposit.
      ok_or (checked_sub (dc_deposit_shortfall d) amount) (Program Overflow) (\<lambda>remaining.
      Inr (emit_escrow (ArbitrationDepositToppedUp rid merchant mint amount deposit remaining
                          (lv_available v) (unix_timestamp sv))
          (put_case rid (d\<lparr>dc_deposit := deposit, dc_deposit_shortfall := remaining\<rparr>)
          (put_vault (merchant, mint) v w)))))))))))))))))))))"

lemmas dispute_handler_defs =
  handle_open_dispute_case_def handle_commit_dispute_vote_def handle_reveal_dispute_vote_def
  handle_execute_dispute_outcome_def handle_claim_arbitration_reward_def
  handle_top_up_arbitration_deposit_def

end
