(* ===== verification/Escrow_Rewards.thy ===== *)
theory Escrow_Rewards
  imports Escrow_Disputes
begin

text \<open>
  The arithmetic of arbitration rewards: a forfeited deposit is shared among the winning seats
  by weight, rounding down, and the last claimant takes what is left.
\<close>

definition unpaid_seats :: "DisputeCase \<Rightarrow> DisputeOutcome \<Rightarrow> nat list" where
  "unpaid_seats d outcome =
     filter (\<lambda>i. \<not> dc_reward_claimed d ! i \<and> winning_seat d outcome i)
       [0..<length (dc_reward_claimed d)]"

lemma outstanding_unpaid: "outstanding_seats d outcome = length (unpaid_seats d outcome)"
  by (simp add: outstanding_seats_def unpaid_seats_def)

lemma unpaid_seats_set [simp]:
  "i \<in> set (unpaid_seats d outcome) \<longleftrightarrow>
     i < length (dc_reward_claimed d) \<and> \<not> dc_reward_claimed d ! i \<and> winning_seat d outcome i"
  by (auto simp: unpaid_seats_def)

lemma unpaid_seats_distinct [simp]: "distinct (unpaid_seats d outcome)"
  by (simp add: unpaid_seats_def)

text \<open>A seat's share of the pool, and what the unpaid seats are still due.\<close>

definition seat_share :: "DisputeCase \<Rightarrow> nat \<Rightarrow> nat" where
  "seat_share d i = unat (dc_reward_pool d) * unat (dc_weights d ! i) div unat (dc_winning_weight d)"

definition reward_due :: "DisputeCase \<Rightarrow> DisputeOutcome \<Rightarrow> nat" where
  "reward_due d outcome = (\<Sum>i\<leftarrow>unpaid_seats d outcome. seat_share d i)"

definition rewards_ok :: "DisputeCase \<Rightarrow> DisputeOutcome \<Rightarrow> bool" where
  "rewards_ok d outcome \<longleftrightarrow>
     length (dc_reward_claimed d) = length (dc_arbitrators d)
     \<and> (\<forall>i. winning_seat d outcome i \<longrightarrow> unat (dc_weights d ! i) \<le> unat (dc_winning_weight d))
     \<and> reward_due d outcome \<le> unat (dc_reward_remaining d)"

lemma winning_seat_weight:
  "winning_seat d outcome i \<Longrightarrow> i < length (dc_weights d) \<and> 0 < unat (dc_weights d ! i)"
  by (auto simp: winning_seat_def list_get_def word_gt_0 unat_gt_0 split: if_splits)

lemma sum_list_member_le:
  fixes h :: "'a \<Rightarrow> nat"
  shows "x \<in> set xs \<Longrightarrow> h x \<le> (\<Sum>y\<leftarrow>xs. h y)"
  by (induction xs) auto

lemma sum_list_filter_le:
  fixes h :: "'a \<Rightarrow> nat"
  shows "(\<Sum>y\<leftarrow>filter P xs. h y) \<le> (\<Sum>y\<leftarrow>xs. h y)"
  by (induction xs) auto

lemma sum_list_remove1:
  fixes h :: "'a \<Rightarrow> nat"
  shows "x \<in> set xs \<Longrightarrow> (\<Sum>y\<leftarrow>xs. h y) = h x + (\<Sum>y\<leftarrow>remove1 x xs. h y)"
  by (induction xs) auto

lemma reward_share_value:
  assumes ok: "rewards_ok d outcome" and i: "i \<in> set (unpaid_seats d outcome)"
  shows "\<exists>a. reward_share d outcome (dc_weights d ! i) = Inr a
       \<and> unat a = (if unpaid_seats d outcome = [i] then unat (dc_reward_remaining d)
                    else seat_share d i)"
proof (cases "length (unpaid_seats d outcome) \<le> 1")
  case True
  then have "unpaid_seats d outcome = [i]"
    using i by (cases "unpaid_seats d outcome") (auto simp del: unpaid_seats_set)
  then show ?thesis by (simp add: reward_share_def outstanding_unpaid)
next
  case False
  have w: "0 < unat (dc_weights d ! i)" "unat (dc_weights d ! i) \<le> unat (dc_winning_weight d)"
    using ok i winning_seat_weight [of d outcome i] by (auto simp: rewards_ok_def)
  then have max: "max (dc_winning_weight d) 1 = dc_winning_weight d"
    by (intro max.absorb1) (simp add: word_le_nat_alt)
  have "0 < unat (dc_winning_weight d)" using w by linarith
  then obtain r where r: "mul_div_u64 (dc_reward_pool d) (dc_weights d ! i) (dc_winning_weight d) = Some r"
      "unat r = seat_share d i"
    using mul_div_u64_share [of "dc_winning_weight d" "dc_weights d ! i" "dc_reward_pool d"] w
    by (auto simp: seat_share_def)
  have "seat_share d i \<le> reward_due d outcome"
    unfolding reward_due_def by (rule sum_list_member_le [OF i])
  then have "unat r \<le> unat (dc_reward_remaining d)"
    using ok r(2) by (simp add: rewards_ok_def)
  then have "min r (dc_reward_remaining d) = r" by (simp add: min_def word_le_nat_alt)
  moreover have "unpaid_seats d outcome \<noteq> [i]" using False by auto
  ultimately show ?thesis
    using False r by (simp add: reward_share_def outstanding_unpaid max)
qed

text \<open>Paying a seat leaves the case able to pay the rest.\<close>

lemma unpaid_after_claim:
  "unpaid_seats (d\<lparr>dc_reward_claimed := (dc_reward_claimed d)[i := True],
                   dc_reward_remaining := r\<rparr>) outcome
     = remove1 i (unpaid_seats d outcome)"
proof -
  have "winning_seat (d\<lparr>dc_reward_claimed := c, dc_reward_remaining := r\<rparr>) outcome j
      = winning_seat d outcome j" for c j
    by (simp add: winning_seat_def)
  moreover have upd: "(dc_reward_claimed d)[i := True] ! x \<longleftrightarrow> x = i \<or> dc_reward_claimed d ! x"
    if "x < length (dc_reward_claimed d)" for x
    using that by (cases "x = i") auto
  ultimately have "unpaid_seats (d\<lparr>dc_reward_claimed := (dc_reward_claimed d)[i := True],
        dc_reward_remaining := r\<rparr>) outcome = filter (\<lambda>j. j \<noteq> i) (unpaid_seats d outcome)"
    by (simp add: unpaid_seats_def) (rule filter_cong, auto simp: upd)
  then show ?thesis by (simp add: distinct_remove1_removeAll removeAll_filter_not_eq neq_commute)
qed

lemma rewards_ok_claim:
  assumes ok: "rewards_ok d outcome" and i: "i \<in> set (unpaid_seats d outcome)"
    and a: "unat a = (if unpaid_seats d outcome = [i] then unat (dc_reward_remaining d)
                      else seat_share d i)"
    and r: "unat (dc_reward_remaining d) = unat a + unat r"
  shows "rewards_ok (d\<lparr>dc_reward_claimed := (dc_reward_claimed d)[i := True],
                       dc_reward_remaining := r\<rparr>) outcome"
proof -
  let ?d = "d\<lparr>dc_reward_claimed := (dc_reward_claimed d)[i := True], dc_reward_remaining := r\<rparr>"
  have share: "seat_share ?d j = seat_share d j" for j by (simp add: seat_share_def)
  have "reward_due d outcome = seat_share d i + reward_due ?d outcome"
    using sum_list_remove1 [OF i, of "seat_share d"]
    by (simp add: reward_due_def unpaid_after_claim share)
  moreover have "unpaid_seats d outcome = [i] \<Longrightarrow> reward_due ?d outcome = 0"
    by (simp add: reward_due_def unpaid_after_claim)
  moreover have "reward_due d outcome \<le> unat (dc_reward_remaining d)"
    using ok unfolding rewards_ok_def by blast
  ultimately have "reward_due ?d outcome \<le> unat r"
    using a r by (cases "unpaid_seats d outcome = [i]", presburger, presburger)
  then show ?thesis using ok by (simp add: rewards_ok_def winning_seat_def)
qed

text \<open>A fresh decision: the shares of the whole pool fit in it.\<close>

lemma sum_u64_Some: "sum_u64 xs = Some s \<Longrightarrow> unat s = (\<Sum>x\<leftarrow>xs. unat x)"
  by (induction xs arbitrary: s) (auto simp: checked_add_Some split: option.splits)

lemma sum_floor_shares_le:
  fixes h :: "'a \<Rightarrow> nat"
  shows "(\<Sum>x\<leftarrow>xs. p * h x div W) \<le> p * (\<Sum>x\<leftarrow>xs. h x) div W"
proof (induction xs)
  case (Cons x xs)
  have "p * h x div W + p * (\<Sum>x\<leftarrow>xs. h x) div W \<le> (p * h x + p * (\<Sum>x\<leftarrow>xs. h x)) div W"
    by (metis div_add1_eq le_add1)
  then show ?case using Cons.IH by (simp add: distrib_left)
qed simp

lemma winning_weights_nth:
  assumes "length (dc_revealed_outcomes d) = length (dc_weights d)"
  shows "(\<Sum>x\<leftarrow>winning_weights d outcome. unat x)
     = (\<Sum>i\<leftarrow>filter (\<lambda>i. dc_revealed_outcomes d ! i = Some outcome) [0..<length (dc_weights d)].
          unat (dc_weights d ! i))"
proof -
  have "case_votes d = map (\<lambda>i. (dc_revealed_outcomes d ! i, dc_weights d ! i)) [0..<length (dc_weights d)]"
    using assms by (auto simp: case_votes_def intro!: nth_equalityI)
  then show ?thesis by (simp add: winning_weights_def filter_map o_def)
qed

lemma rewards_ok_decided:
  assumes len: "length (dc_revealed_outcomes d) = n" "length (dc_weights d) = n"
      "length (dc_arbitrators d) = n"
    and W: "sum_u64 (winning_weights d outcome) = Some W" "dc_winning_weight d = W"
    and fresh: "dc_reward_claimed d = replicate n False" "dc_reward_remaining d = dc_reward_pool d"
  shows "rewards_ok d outcome"
proof -
  let ?voters = "filter (\<lambda>i. dc_revealed_outcomes d ! i = Some outcome) [0..<n]"
  have W': "unat W = (\<Sum>i\<leftarrow>?voters. unat (dc_weights d ! i))"
    using sum_u64_Some [OF W(1)] winning_weights_nth [of d outcome] len by simp
  have unpaid: "unpaid_seats d outcome = filter (winning_seat d outcome) ?voters"
    using len fresh(1) by (auto simp: unpaid_seats_def winning_seat_def list_get_def intro: filter_cong)
  have "unat (dc_weights d ! i) \<le> unat W" if "winning_seat d outcome i" for i
  proof -
    have "i \<in> set ?voters"
      using that len by (auto simp: winning_seat_def list_get_def split: if_splits)
    then show ?thesis unfolding W' by (rule sum_list_member_le)
  qed
  moreover have "reward_due d outcome \<le> unat (dc_reward_pool d)"
  proof -
    have "reward_due d outcome
        \<le> (\<Sum>i\<leftarrow>?voters. unat (dc_reward_pool d) * unat (dc_weights d ! i) div unat W)"
      unfolding reward_due_def unpaid seat_share_def W(2) by (rule sum_list_filter_le)
    also have "\<dots> \<le> unat (dc_reward_pool d) * unat W div unat W"
      unfolding W' by (rule sum_floor_shares_le)
    also have "\<dots> \<le> unat (dc_reward_pool d)" by simp
    finally show ?thesis .
  qed
  ultimately show ?thesis using len fresh W(2) by (simp add: rewards_ok_def)
qed

end
