(* ===== verification/Escrow_Invariants.thy ===== *)
theory Escrow_Invariants
  imports Escrow_Rewards
begin

text \<open>
  The invariant of the escrow program's accounts. Every vault's counters add up and are backed
  by its token account; every funded trade is backed by its own token account and counted in its
  vault's \<open>pending_settlement\<close>; a trade is frozen exactly while it has an open case; and
  the arbitration pool covers every unsettled deposit and unclaimed reward. Each part comes with
  a lemma that says what an instruction has to establish when it changes some accounts and moves
  some tokens.
\<close>


section \<open>Vaults\<close>

definition vault_inv :: "env \<Rightarrow> ledger \<Rightarrow> pubkey \<times> pubkey \<Rightarrow> LiquidityVault \<Rightarrow> bool" where
  "vault_inv env L addr v \<longleftrightarrow>
     addr = (lv_merchant v, lv_mint v)
     \<and> lv_bump v = bump_of env (liquidity_vault_pda (lv_merchant v) (lv_mint v))
     \<and> lv_token_vault_bump v = bump_of env (liquidity_tokens_pda (lv_merchant v) (lv_mint v))
     \<and> unat (lv_total v) = unat (lv_available v) + unat (lv_reserved v)
                           + unat (lv_pending_settlement v) + unat (lv_settled v)
     \<and> held L (liquidity_tokens_pda (lv_merchant v) (lv_mint v)) (lv_mint v)
              (liquidity_vault_pda (lv_merchant v) (lv_mint v))
     \<and> unat (lv_available v) + unat (lv_reserved v)
         \<le> balance L (liquidity_tokens_pda (lv_merchant v) (lv_mint v))"

definition vaults_inv :: "env \<Rightarrow> (pubkey \<times> pubkey \<rightharpoonup> LiquidityVault) \<Rightarrow> ledger \<Rightarrow> bool" where
  "vaults_inv env V L \<longleftrightarrow> (\<forall>addr v. V addr = Some v \<longrightarrow> vault_inv env L addr v)"

text \<open>The program's token accounts survive: same mint, same owner, no delegate; and no
  arbitration pool appears where there was none.\<close>

definition keeps :: "ledger \<Rightarrow> ledger \<Rightarrow> bool" where
  "keeps L L' \<longleftrightarrow> (\<forall>k mint owner. signs_for EscrowProgram owner \<longrightarrow> held L k mint owner
     \<longrightarrow> held L' k mint owner) \<and> (L arbitration_pool_pda = None \<longrightarrow> L' arbitration_pool_pda = None)"

lemma keepsD: "keeps L L' \<Longrightarrow> held L k mint owner \<Longrightarrow> signs_for EscrowProgram owner
  \<Longrightarrow> held L' k mint owner"
  by (auto simp: keeps_def)

lemma keeps_same: "same_accounts L L' \<Longrightarrow> keeps L L'"
  by (auto simp: keeps_def same_accounts_None intro: held_same)

lemma keeps_outside: "outside EscrowProgram L L' \<Longrightarrow> keeps L L'"
  by (auto simp: keeps_def outside_def intro: held_outside)

lemma keeps_new: "L k = None \<Longrightarrow> k \<noteq> arbitration_pool_pda \<Longrightarrow> keeps L (L(k \<mapsto> t))"
  by (auto simp: keeps_def held_def)

lemma vaults_invD: "vaults_inv env V L \<Longrightarrow> V addr = Some v \<Longrightarrow> vault_inv env L addr v"
  unfolding vaults_inv_def by blast

lemma vault_inv_later:
  assumes "vault_inv env L addr v" and "keeps L L'"
    and "balance L (liquidity_tokens_pda (fst addr) (snd addr))
         \<le> balance L' (liquidity_tokens_pda (fst addr) (snd addr))"
  shows "vault_inv env L' addr v"
  using assms by (auto simp: vault_inv_def intro: keepsD)

lemma vaults_inv_change:
  assumes "vaults_inv env V L" and "keeps L L'"
    and "\<And>addr v. V' addr = Some v \<Longrightarrow>
           V addr = Some v \<and> balance L (liquidity_tokens_pda (fst addr) (snd addr))
                              \<le> balance L' (liquidity_tokens_pda (fst addr) (snd addr))
           \<or> vault_inv env L' addr v"
  shows "vaults_inv env V' L'"
  unfolding vaults_inv_def
proof (intro allI impI)
  fix addr v assume "V' addr = Some v"
  then show "vault_inv env L' addr v"
    using assms(3) vault_inv_later [OF _ assms(2)] vaults_invD [OF assms(1)] by blast
qed


section \<open>Trades\<close>

definition funded :: "TradeEscrowVault \<Rightarrow> bool" where
  "funded e \<longleftrightarrow> te_state e = AwaitingFiatSettlement \<or> te_state e = Frozen"

definition trade_inv ::
  "env \<Rightarrow> (pubkey \<times> pubkey \<rightharpoonup> LiquidityVault) \<Rightarrow> ledger \<Rightarrow> u64 \<Rightarrow> TradeEscrowVault \<Rightarrow> bool" where
  "trade_inv env V L rid e \<longleftrightarrow>
     te_reservation_id e = rid
     \<and> te_bump e = bump_of env (trade_escrow_pda rid)
     \<and> te_token_vault_bump e = bump_of env (trade_tokens_pda rid)
     \<and> V (te_seller e, te_mint e) \<noteq> None
     \<and> held L (trade_tokens_pda rid) (te_mint e) (trade_escrow_pda rid)
     \<and> (funded e \<longrightarrow> unat (te_amount e) \<le> balance L (trade_tokens_pda rid))"

definition trades_inv ::
  "env \<Rightarrow> (pubkey \<times> pubkey \<rightharpoonup> LiquidityVault) \<Rightarrow> (u64 \<rightharpoonup> TradeEscrowVault) \<Rightarrow> ledger \<Rightarrow> bool" where
  "trades_inv env V T L \<longleftrightarrow> (\<forall>rid e. T rid = Some e \<longrightarrow> trade_inv env V L rid e)"

lemma trades_invD: "trades_inv env V T L \<Longrightarrow> T rid = Some e \<Longrightarrow> trade_inv env V L rid e"
  unfolding trades_inv_def by blast

lemma trade_inv_later:
  assumes "trade_inv env V L rid e" and "keeps L L'" and "dom V \<subseteq> dom V'"
    and "balance L (trade_tokens_pda rid) \<le> balance L' (trade_tokens_pda rid)"
  shows "trade_inv env V' L' rid e"
  using assms by (auto simp: trade_inv_def intro: keepsD)

lemma trades_inv_change:
  assumes "trades_inv env V T L" and "keeps L L'" and "dom V \<subseteq> dom V'"
    and "\<And>rid e. T' rid = Some e \<Longrightarrow>
           T rid = Some e \<and> balance L (trade_tokens_pda rid) \<le> balance L' (trade_tokens_pda rid)
           \<or> trade_inv env V' L' rid e"
  shows "trades_inv env V' T' L'"
  unfolding trades_inv_def
proof (intro allI impI)
  fix rid e assume "T' rid = Some e"
  then show "trade_inv env V' L' rid e"
    using assms(4) trade_inv_later [OF _ assms(2,3)] trades_invD [OF assms(1)] by blast
qed

text \<open>What a trade contributes to the pending settlement of the vault at \<open>addr\<close>.\<close>

definition pending_of :: "pubkey \<times> pubkey \<Rightarrow> TradeEscrowVault option \<Rightarrow> nat" where
  "pending_of addr x = (case x of None \<Rightarrow> 0
     | Some e \<Rightarrow> if funded e \<and> addr = (te_seller e, te_mint e) then unat (te_amount e) else 0)"

definition pending_inv ::
  "(pubkey \<times> pubkey \<rightharpoonup> LiquidityVault) \<Rightarrow> (u64 \<rightharpoonup> TradeEscrowVault) \<Rightarrow> bool" where
  "pending_inv V T \<longleftrightarrow> (\<forall>addr v. V addr = Some v \<longrightarrow>
     unat (lv_pending_settlement v) = (\<Sum>rid\<in>UNIV. pending_of addr (T rid)))"

lemma pending_inv_change:
  assumes "pending_inv V T"
    and "\<And>addr v'. V' addr = Some v' \<Longrightarrow> \<exists>v. V addr = Some v \<and>
           unat (lv_pending_settlement v') + pending_of addr (T rid)
             = unat (lv_pending_settlement v) + pending_of addr (Some e)"
  shows "pending_inv V' (T(rid \<mapsto> e))"
  unfolding pending_inv_def
proof (intro allI impI)
  fix addr v' assume "V' addr = Some v'"
  with assms(2) obtain v where v: "V addr = Some v"
    "unat (lv_pending_settlement v') + pending_of addr (T rid)
       = unat (lv_pending_settlement v) + pending_of addr (Some e)"
    by blast
  have "unat (lv_pending_settlement v) = (\<Sum>r\<in>UNIV. pending_of addr (T r))"
    using assms(1) v(1) unfolding pending_inv_def by blast
  moreover have "(\<Sum>r\<in>UNIV. pending_of addr ((T(rid \<mapsto> e)) r)) + pending_of addr (T rid)
      = (\<Sum>r\<in>UNIV. pending_of addr (T r)) + pending_of addr (Some e)"
    using sum_upd [of "\<lambda>_. pending_of addr" T rid "Some e"] by simp
  ultimately show "unat (lv_pending_settlement v') = (\<Sum>r\<in>UNIV. pending_of addr ((T(rid \<mapsto> e)) r))"
    using v(2) by linarith
qed

lemma pending_inv_vaults:
  assumes "pending_inv V T"
    and "\<And>addr v'. V' addr = Some v' \<Longrightarrow> \<exists>v. V addr = Some v \<and>
           lv_pending_settlement v' = lv_pending_settlement v"
  shows "pending_inv V' T"
  unfolding pending_inv_def
proof (intro allI impI)
  fix addr v' assume "V' addr = Some v'"
  then obtain v where "V addr = Some v" "lv_pending_settlement v' = lv_pending_settlement v"
    using assms(2) by blast
  then show "unat (lv_pending_settlement v') = (\<Sum>rid\<in>UNIV. pending_of addr (T rid))"
    using assms(1) unfolding pending_inv_def by metis
qed

text \<open>A funded trade is covered by its vault's counter, so the unguarded subtraction is safe.\<close>

lemma pending_covers:
  assumes "pending_inv V T" and "V (te_seller e, te_mint e) = Some v" and "T rid = Some e"
    and "funded e"
  shows "unat (te_amount e) \<le> unat (lv_pending_settlement v)"
proof -
  have "pending_of (te_seller e, te_mint e) (T rid)
      \<le> (\<Sum>rid\<in>UNIV. pending_of (te_seller e, te_mint e) (T rid))"
    by (rule sum_member_le)
  then show ?thesis using assms unfolding pending_inv_def by (simp add: pending_of_def)
qed


section \<open>Cases and the arbitration pool\<close>

definition seats_ok :: "DisputeCase \<Rightarrow> bool" where
  "seats_ok d \<longleftrightarrow>
     length (dc_commitments d) = length (dc_arbitrators d)
     \<and> length (dc_revealed_outcomes d) = length (dc_arbitrators d)
     \<and> length (dc_weights d) = length (dc_arbitrators d)
     \<and> length (dc_arbitrators d) \<le> MAX_ARBITRATORS \<and> distinct (dc_arbitrators d)
     \<and> length (dc_barred d) \<le> MAX_BARRED_ARBITRATORS \<and> distinct (dc_barred d)
     \<and> unat (dc_round d) < unat MAX_DISPUTE_ROUNDS
     \<and> unat (dc_seats_taken_total d)
         \<le> MAX_ARBITRATORS * unat (dc_round d) + length (dc_arbitrators d)
     \<and> window_in_range (dc_commit_window_secs d) \<and> window_in_range (dc_reveal_window_secs d)"

text \<open>Before the verdict the deposit is whole and nothing is awarded; after it there is an
  outcome with its reward ledger, or a recorded reason for the even split.\<close>

definition verdict_ok :: "DisputeCase \<Rightarrow> bool" where
  "verdict_ok d \<longleftrightarrow>
     (if dc_resolved d
      then (case dc_outcome d of
              None \<Rightarrow> dc_terminal_reason d \<noteq> None \<and> dc_reward_remaining d = 0
            | Some outcome \<Rightarrow> dc_terminal_reason d = None \<and> rewards_ok d outcome)
           \<and> (\<not> dc_deposit_settled d \<longrightarrow> dc_deposit d = 0 \<and> dc_reward_remaining d = 0)
      else \<not> dc_deposit_settled d \<and> dc_outcome d = None \<and> dc_terminal_reason d = None
           \<and> dc_reward_pool d = 0 \<and> dc_reward_remaining d = 0)"

definition case_inv ::
  "env \<Rightarrow> (u64 \<rightharpoonup> TradeEscrowVault) \<Rightarrow> ledger \<Rightarrow> u64 \<Rightarrow> DisputeCase \<Rightarrow> bool" where
  "case_inv env T L rid d \<longleftrightarrow>
     dc_reservation_id d = rid \<and> dc_bump d = bump_of env (dispute_case_pda rid)
     \<and> dc_trade_escrow d = trade_escrow_pda rid
     \<and> (\<exists>e. T rid = Some e \<and> (te_state e = Frozen \<longleftrightarrow> \<not> dc_resolved d)
            \<and> dc_deposit_vault d = liquidity_vault_pda (te_seller e) (dc_deposit_mint d))
     \<and> held L arbitration_pool_pda (dc_deposit_mint d) fee_config_pda
     \<and> seats_ok d \<and> verdict_ok d"

definition cases_inv ::
  "env \<Rightarrow> (u64 \<rightharpoonup> TradeEscrowVault) \<Rightarrow> (u64 \<rightharpoonup> DisputeCase) \<Rightarrow> ledger \<Rightarrow> bool" where
  "cases_inv env T D L \<longleftrightarrow> (\<forall>rid d. D rid = Some d \<longrightarrow> case_inv env T L rid d)
     \<and> (\<forall>rid e. T rid = Some e \<longrightarrow> te_state e = Frozen \<longrightarrow> D rid \<noteq> None)"

lemma cases_invD: "cases_inv env T D L \<Longrightarrow> D rid = Some d \<Longrightarrow> case_inv env T L rid d"
  unfolding cases_inv_def by blast

lemma case_inv_later:
  assumes "case_inv env T L rid d" and "keeps L L'" and "T' rid = T rid"
  shows "case_inv env T' L' rid d"
  using assms by (auto simp: case_inv_def intro: keepsD)

lemma cases_inv_later:
  assumes "cases_inv env T D L" and "keeps L L'"
  shows "cases_inv env T D L'"
  using assms case_inv_later [of env T L _ _ L' T] unfolding cases_inv_def by blast

text \<open>One trade changes, and its case with it.\<close>

lemma cases_inv_change:
  assumes "cases_inv env T D L" and "keeps L L'"
    and "\<And>r. r \<noteq> rid \<Longrightarrow> T' r = T r \<and> D' r = D r"
    and "\<And>d. D' rid = Some d \<Longrightarrow> case_inv env T' L' rid d"
    and "\<And>e. T' rid = Some e \<Longrightarrow> te_state e = Frozen \<Longrightarrow> D' rid \<noteq> None"
  shows "cases_inv env T' D' L'"
  unfolding cases_inv_def
proof (intro conjI allI impI)
  fix r d assume d: "D' r = Some d"
  show "case_inv env T' L' r d"
  proof (cases "r = rid")
    case False
    with assms(3) d have "T' r = T r" "D r = Some d" by auto
    then show ?thesis using case_inv_later [OF _ assms(2)] cases_invD [OF assms(1)] by blast
  qed (use d assms(4) in auto)
next
  fix r e assume e: "T' r = Some e" "te_state e = Frozen"
  show "D' r \<noteq> None"
  proof (cases "r = rid")
    case False
    with assms(3) [of r] e assms(1) show ?thesis unfolding cases_inv_def by metis
  qed (use e assms(5) in auto)
qed

text \<open>A trade without a case, or with a decided one, may leave any state but \<open>Frozen\<close>.\<close>

lemma cases_inv_trade:
  assumes "cases_inv env T D L" and "keeps L L'"
    and "T rid = Some e \<and> te_state e \<noteq> Frozen \<or> T rid = None"
    and "te_state e' \<noteq> Frozen" and "\<And>e. T rid = Some e \<Longrightarrow> te_seller e' = te_seller e"
  shows "cases_inv env (T(rid \<mapsto> e')) D L'"
proof (rule cases_inv_change [OF assms(1,2), of rid])
  fix d assume "D rid = Some d"
  then have "case_inv env T L rid d" using assms(1) cases_invD by blast
  then show "case_inv env (T(rid \<mapsto> e')) L' rid d"
    using assms(3-5) by (auto simp: case_inv_def intro: keepsD [OF assms(2)])
qed (use assms(4) in auto)

text \<open>What a case may still draw from the pool.\<close>

definition pool_claim :: "DisputeCase option \<Rightarrow> nat" where
  "pool_claim x = (case x of None \<Rightarrow> 0
     | Some d \<Rightarrow> if dc_deposit_settled d then unat (dc_reward_remaining d) else unat (dc_deposit d))"

definition pool_inv :: "(u64 \<rightharpoonup> DisputeCase) \<Rightarrow> ledger \<Rightarrow> bool" where
  "pool_inv D L \<longleftrightarrow> (\<Sum>rid\<in>UNIV. pool_claim (D rid)) \<le> balance L arbitration_pool_pda"

lemma pool_inv_change:
  assumes "pool_inv D L"
    and "pool_claim (Some d) + balance L arbitration_pool_pda
         \<le> pool_claim (D rid) + balance L' arbitration_pool_pda"
  shows "pool_inv (D(rid \<mapsto> d)) L'"
proof -
  have "(\<Sum>r\<in>UNIV. pool_claim ((D(rid \<mapsto> d)) r)) + pool_claim (D rid)
      = (\<Sum>r\<in>UNIV. pool_claim (D r)) + pool_claim (Some d)"
    using sum_upd [of "\<lambda>_. pool_claim" D rid "Some d"] by simp
  then show ?thesis using assms unfolding pool_inv_def by linarith
qed

lemma pool_inv_later:
  "pool_inv D L \<Longrightarrow> balance L arbitration_pool_pda \<le> balance L' arbitration_pool_pda \<Longrightarrow> pool_inv D L'"
  by (simp add: pool_inv_def)

text \<open>The pool, once created, belongs to the fee configuration.\<close>

definition pool_account_inv :: "ledger \<Rightarrow> bool" where
  "pool_account_inv L \<longleftrightarrow> (\<forall>t. L arbitration_pool_pda = Some t
     \<longrightarrow> held L arbitration_pool_pda (ta_mint t) fee_config_pda)"

lemma pool_account_inv_later:
  assumes "pool_account_inv L" and "keeps L L'"
  shows "pool_account_inv L'"
  unfolding pool_account_inv_def
proof (intro allI impI)
  fix t' assume t': "L' arbitration_pool_pda = Some t'"
  with assms(2) obtain t where "L arbitration_pool_pda = Some t" by (auto simp: keeps_def)
  with assms(1) have "held L arbitration_pool_pda (ta_mint t) fee_config_pda"
    by (simp add: pool_account_inv_def)
  with assms(2) have "held L' arbitration_pool_pda (ta_mint t) fee_config_pda"
    by (rule keepsD) simp
  with t' show "held L' arbitration_pool_pda (ta_mint t') fee_config_pda" by (auto simp: held_def)
qed

lemma pool_covers:
  assumes "pool_inv D L"
  shows "pool_claim (D rid) \<le> balance L arbitration_pool_pda"
  using assms sum_member_le [of "\<lambda>r. pool_claim (D r)" rid] by (simp add: pool_inv_def)


section \<open>The invariant\<close>

definition fee_config_inv :: "env \<Rightarrow> FeeConfig option \<Rightarrow> bool" where
  "fee_config_inv env x = (case x of None \<Rightarrow> True
     | Some fc \<Rightarrow> fee_split_ok fc \<and> fc_bump fc = bump_of env fee_config_pda)"

definition escrow_inv :: "env \<Rightarrow> 'z escrow_chain_scheme \<Rightarrow> bool" where
  "escrow_inv env w \<longleftrightarrow>
     fee_config_inv env (es_fee_config w)
     \<and> vaults_inv env (es_vaults w) (c_tokens w)
     \<and> trades_inv env (es_vaults w) (es_trades w) (c_tokens w)
     \<and> pending_inv (es_vaults w) (es_trades w)
     \<and> cases_inv env (es_trades w) (es_cases w) (c_tokens w)
     \<and> pool_inv (es_cases w) (c_tokens w) \<and> pool_account_inv (c_tokens w)"

lemma escrow_invI:
  assumes "fee_config_inv env (es_fee_config w)"
    and "vaults_inv env (es_vaults w) (c_tokens w)"
    and "trades_inv env (es_vaults w) (es_trades w) (c_tokens w)"
    and "pending_inv (es_vaults w) (es_trades w)"
    and "cases_inv env (es_trades w) (es_cases w) (c_tokens w)"
    and "pool_inv (es_cases w) (c_tokens w)" and "pool_account_inv (c_tokens w)"
  shows "escrow_inv env w"
  using assms by (simp add: escrow_inv_def)

lemma escrow_invD:
  assumes "escrow_inv env w"
  shows "fee_config_inv env (es_fee_config w)"
    and "vaults_inv env (es_vaults w) (c_tokens w)"
    and "trades_inv env (es_vaults w) (es_trades w) (c_tokens w)"
    and "pending_inv (es_vaults w) (es_trades w)"
    and "cases_inv env (es_trades w) (es_cases w) (c_tokens w)"
    and "pool_inv (es_cases w) (c_tokens w)" and "pool_account_inv (c_tokens w)"
  using assms by (simp_all add: escrow_inv_def)

lemma escrow_inv_vault:
  "escrow_inv env w \<Longrightarrow> es_vaults w addr = Some v \<Longrightarrow> vault_inv env (c_tokens w) addr v"
  using escrow_invD(2) vaults_invD by blast

lemma escrow_inv_trade:
  "escrow_inv env w \<Longrightarrow> es_trades w rid = Some e
   \<Longrightarrow> trade_inv env (es_vaults w) (c_tokens w) rid e"
  using escrow_invD(3) trades_invD by blast

lemma escrow_inv_case:
  "escrow_inv env w \<Longrightarrow> es_cases w rid = Some d \<Longrightarrow> case_inv env (es_trades w) (c_tokens w) rid d"
  using escrow_invD(5) cases_invD by blast

text \<open>The program's token accounts outside \<open>X\<close> only gain.\<close>

definition gains :: "ledger \<Rightarrow> ledger \<Rightarrow> pubkey set \<Rightarrow> bool" where
  "gains L L' X \<longleftrightarrow> (\<forall>k mint owner. k \<notin> X \<longrightarrow> signs_for EscrowProgram owner \<longrightarrow> held L k mint owner
     \<longrightarrow> balance L k \<le> balance L' k)"

lemma gainsD: "gains L L' X \<Longrightarrow> held L k mint owner \<Longrightarrow> signs_for EscrowProgram owner \<Longrightarrow> k \<notin> X
  \<Longrightarrow> balance L k \<le> balance L' k"
  by (auto simp: gains_def)

lemma gains_mono: "gains L L' X \<Longrightarrow> X \<subseteq> Y \<Longrightarrow> gains L L' Y"
  by (auto simp: gains_def)

lemma gains_outside: "outside EscrowProgram L L' \<Longrightarrow> gains L L' X"
  by (auto simp: gains_def intro: held_outside)

lemma gains_new: "L k = None \<Longrightarrow> gains L (L(k \<mapsto> t)) X"
  by (auto simp: gains_def held_def)

lemma keeps_trans: "keeps L M \<Longrightarrow> keeps M N \<Longrightarrow> keeps L N"
  by (auto simp: keeps_def)

lemma gains_trans:
  assumes "keeps L M" and "gains L M X" and "gains M N Y"
  shows "gains L N (X \<union> Y)"
  unfolding gains_def
proof (intro allI impI)
  fix k mint owner
  assume k: "k \<notin> X \<union> Y" "signs_for EscrowProgram owner" "held L k mint owner"
  then have "balance L k \<le> balance M k" using assms(2) by (auto intro: gainsD)
  also have "\<dots> \<le> balance N k"
    using k assms(1,3) by (auto intro: gainsD dest: keepsD)
  finally show "balance L k \<le> balance N k" .
qed

lemma cases_pool_held:
  assumes "cases_inv env T D L" and "D rid = Some d"
  shows "held L arbitration_pool_pda (dc_deposit_mint d) fee_config_pda"
  using cases_invD [OF assms] by (simp add: case_inv_def)

lemma pool_inv_gain:
  assumes cases: "cases_inv env T D L" and pool: "pool_inv D L" and gain: "gains L L' X"
    and X: "arbitration_pool_pda \<notin> X"
  shows "pool_inv D L'"
proof (cases "\<exists>rid. D rid \<noteq> None")
  case True
  then obtain rid d where "D rid = Some d" by blast
  then have "held L arbitration_pool_pda (dc_deposit_mint d) fee_config_pda"
    using cases by (blast intro: cases_pool_held)
  then have "balance L arbitration_pool_pda \<le> balance L' arbitration_pool_pda"
    by (rule gainsD [OF gain]) (simp_all add: X)
  with pool show ?thesis by (rule pool_inv_later)
next
  case False
  then have "D rid = None" for rid by blast
  then show ?thesis by (simp add: pool_inv_def pool_claim_def)
qed

text \<open>What an instruction has to show: the accounts it changed are sound, and every account it
  did not change keeps its token account unspent.\<close>

lemma escrow_inv_change:
  assumes inv: "escrow_inv env w"
    and keeps: "keeps (c_tokens w) (c_tokens w')" and gain: "gains (c_tokens w) (c_tokens w') X"
    and fc: "fee_config_inv env (es_fee_config w')"
    and dom: "dom (es_vaults w) \<subseteq> dom (es_vaults w')"
    and V: "\<And>addr v. es_vaults w' addr = Some v \<Longrightarrow>
        es_vaults w addr = Some v \<and> liquidity_tokens_pda (fst addr) (snd addr) \<notin> X
        \<or> vault_inv env (c_tokens w') addr v"
    and T: "\<And>rid e. es_trades w' rid = Some e \<Longrightarrow>
        es_trades w rid = Some e \<and> trade_tokens_pda rid \<notin> X
        \<or> trade_inv env (es_vaults w') (c_tokens w') rid e"
    and rest: "pending_inv (es_vaults w') (es_trades w')"
      "cases_inv env (es_trades w') (es_cases w') (c_tokens w')"
      "pool_inv (es_cases w') (c_tokens w')"
  shows "escrow_inv env w'"
proof (rule escrow_invI [OF fc _ _ rest pool_account_inv_later [OF escrow_invD(7) [OF inv] keeps]])
  show "vaults_inv env (es_vaults w') (c_tokens w')"
  proof (rule vaults_inv_change [OF escrow_invD(2) [OF inv] keeps])
    fix addr v assume "es_vaults w' addr = Some v"
    from V [OF this] show "es_vaults w addr = Some v
         \<and> balance (c_tokens w) (liquidity_tokens_pda (fst addr) (snd addr))
            \<le> balance (c_tokens w') (liquidity_tokens_pda (fst addr) (snd addr))
        \<or> vault_inv env (c_tokens w') addr v"
    proof (elim disjE conjE)
      assume v: "es_vaults w addr = Some v" and "liquidity_tokens_pda (fst addr) (snd addr) \<notin> X"
      moreover have "held (c_tokens w) (liquidity_tokens_pda (fst addr) (snd addr)) (snd addr)
          (liquidity_vault_pda (fst addr) (snd addr))"
        using escrow_inv_vault [OF inv v] by (auto simp: vault_inv_def)
      ultimately show ?thesis using gainsD [OF gain] by auto
    qed blast
  qed
  show "trades_inv env (es_vaults w') (es_trades w') (c_tokens w')"
  proof (rule trades_inv_change [OF escrow_invD(3) [OF inv] keeps dom])
    fix rid e assume "es_trades w' rid = Some e"
    from T [OF this] show "es_trades w rid = Some e
         \<and> balance (c_tokens w) (trade_tokens_pda rid) \<le> balance (c_tokens w') (trade_tokens_pda rid)
        \<or> trade_inv env (es_vaults w') (c_tokens w') rid e"
    proof (elim disjE conjE)
      assume e: "es_trades w rid = Some e" and "trade_tokens_pda rid \<notin> X"
      moreover have "held (c_tokens w) (trade_tokens_pda rid) (te_mint e) (trade_escrow_pda rid)"
        using escrow_inv_trade [OF inv e] by (auto simp: trade_inv_def)
      ultimately show ?thesis using gainsD [OF gain] by auto
    qed blast
  qed
qed

text \<open>One vault changes its counters, other than pending, and only its token account is spent.\<close>

lemma escrow_inv_vault_change:
  assumes inv: "escrow_inv env w" and v: "es_vaults w addr = Some v"
    and fields: "es_vaults w' = (es_vaults w)(addr \<mapsto> v')" "es_trades w' = es_trades w"
      "es_cases w' = es_cases w" "es_fee_config w' = es_fee_config w"
    and keeps: "keeps (c_tokens w) (c_tokens w')"
    and gain: "gains (c_tokens w) (c_tokens w') {liquidity_tokens_pda (fst addr) (snd addr)}"
    and v': "vault_inv env (c_tokens w') addr v'"
      "lv_pending_settlement v' = lv_pending_settlement v"
  shows "escrow_inv env w'"
proof (rule escrow_inv_change [OF inv keeps gain])
  note inv = escrow_invD [OF inv]
  show "pending_inv (es_vaults w') (es_trades w')"
    unfolding fields by (rule pending_inv_vaults [OF inv(4)]) (use v v'(2) in \<open>auto split: if_splits\<close>)
  show "cases_inv env (es_trades w') (es_cases w') (c_tokens w')"
    unfolding fields by (rule cases_inv_later [OF inv(5) keeps])
  show "pool_inv (es_cases w') (c_tokens w')"
    unfolding fields by (rule pool_inv_gain [OF inv(5,6) gain]) simp
qed (use escrow_invD(1) [OF inv] v' fields in \<open>auto simp: prod_eq_iff split: if_splits\<close>)

text \<open>The rest of the chain moves.\<close>

lemma escrow_inv_outside:
  assumes inv: "escrow_inv env w" and out: "outside EscrowProgram (c_tokens w) (c_tokens w')"
    and fields: "es_vaults w' = es_vaults w" "es_trades w' = es_trades w"
      "es_cases w' = es_cases w" "es_fee_config w' = es_fee_config w"
  shows "escrow_inv env w'"
proof (rule escrow_inv_change [OF inv keeps_outside [OF out] gains_outside [OF out, of "{}"]])
  note inv = escrow_invD [OF inv]
  show "cases_inv env (es_trades w') (es_cases w') (c_tokens w')"
    unfolding fields by (rule cases_inv_later [OF inv(5) keeps_outside [OF out]])
  show "pool_inv (es_cases w') (c_tokens w')"
    unfolding fields by (rule pool_inv_gain [OF inv(5,6) gains_outside [OF out, of "{}"]]) simp
qed (use escrow_invD [OF inv] fields in auto)

end
