(* ===== verification/Escrow_Preservation.thy ===== *)
theory Escrow_Preservation
  imports Escrow_Invariants
begin

text \<open>
  Every instruction of the escrow program preserves its invariant. The lemmas follow the order
  of the instruction theories: configuration, vaults, trades, disputes.
\<close>

text \<open>What a successful absorption found and did.\<close>

lemma absorbE:
  assumes "handle_absorb_stake_recovery env sv merchant mint w = Inr w'"
  obtains c r v t tot av cr amount where "es_claims w (merchant, mint) = Some c"
    and "rc_merchant c = merchant" and "rc_mint c = mint"
    and "sk_receipts w merchant = Some r" and "rr_merchant r = merchant"
    and "es_vaults w (merchant, mint) = Some v"
    and "c_tokens w (liquidity_tokens_pda merchant mint) = Some t"
    and "amount = absorbable c (rr_recovered_total r)" and "0 < amount"
    and "unat tot = unat (lv_total v) + unat amount" and "tot \<le> ta_amount t"
    and "unat av = unat (lv_available v) + unat amount"
    and "unat cr = unat (rc_credited_total c) + unat amount"
    and "w' = emit_escrow (StakeRecoveryAbsorbed merchant (recovery_claim_pda merchant mint) mint amount
           (rc_owed_total c) cr (saturating_sub (rc_owed_total c) (rr_recovered_total r)) av
           (unix_timestamp sv))
         (put_claim (merchant, mint) (c\<lparr>rc_credited_total := cr\<rparr>)
         (put_vault (merchant, mint) (v\<lparr>lv_total := tot, lv_available := av\<rparr>) w))"
  using assms
  by (auto simp: handle_absorb_stake_recovery_def vault_load_defs checked_add_Some Let_def
      intro!: that)

context token_env
begin

text \<open>What a token transfer, or a loop of them, does to the program's accounts.\<close>

lemma transfer_spends:
  assumes "cpi_transfer E tp from mint to auth a d w = Inr w1"
  obtains L' where "w1 = w\<lparr>c_tokens := L'\<rparr>" and "keeps (c_tokens w) L'"
    and "gains (c_tokens w) L' {from}" and "moved (c_tokens w) from to a L'"
  using assms keeps_same moved_same moved_other
  by (elim cpi_transfer_moved) (auto simp: gains_def)

lemma transfer_by_wallet:
  assumes "cpi_transfer E tp from mint to auth a d w = Inr w1"
    and "\<not> signs_for EscrowProgram auth"
  obtains L' where "w1 = w\<lparr>c_tokens := L'\<rparr>" and "keeps (c_tokens w) L'"
    and "gains (c_tokens w) L' {}"
    and "\<And>m p. held (c_tokens w) to m p \<Longrightarrow> signs_for EscrowProgram p \<Longrightarrow>
           balance L' to = balance (c_tokens w) to + unat a"
proof -
  have out: "outside EscrowProgram (c_tokens w) (c_tokens w1)"
    using assms by (rule transfer_outside)
  from assms(1) obtain L' where L': "w1 = w\<lparr>c_tokens := L'\<rparr>" "moved (c_tokens w) from to a L'"
    by (rule cpi_transfer_moved)
  from assms(1) obtain s where s: "c_tokens w from = Some s"
      "ta_owner s = auth \<or> ta_delegate s = Some auth"
    by (rule cpi_transfer_authority)
  have "to \<noteq> from" if "held (c_tokens w) to m p" "signs_for EscrowProgram p" for m p
    using that s assms(2) by (auto simp: held_def)
  then have "balance L' to = balance (c_tokens w) to + unat a"
    if "held (c_tokens w) to m p" "signs_for EscrowProgram p" for m p
    using that moved_balance [OF L'(2), of to] by auto
  then show thesis
    using that [OF L'(1)] keeps_outside [OF out] gains_outside [OF out] L'(1) by simp
qed

lemma transfers_spend:
  assumes "transfer_each E tp from mint auth d ps w = (Inr w1 :: 'e tx_error + 'z chain_scheme)"
  obtains L' where "w1 = w\<lparr>c_tokens := L'\<rparr>" and "keeps (c_tokens w) L'"
    and "gains (c_tokens w) L' {from}"
    and "balance L' from + paid_total ps = balance (c_tokens w) from + paid_to ps from"
    and "\<And>k. k \<noteq> from \<Longrightarrow> balance L' k = balance (c_tokens w) k + paid_to ps k"
proof -
  from transfer_each_effect [OF assms] obtain L' where L': "w1 = w\<lparr>c_tokens := L'\<rparr>"
      "same_accounts (c_tokens w) L'"
    and bal: "\<And>k. balance L' k + (if k = from then paid_total ps else 0)
        = balance (c_tokens w) k + paid_to ps k"
    by blast
  have other: "balance L' k = balance (c_tokens w) k + paid_to ps k" if "k \<noteq> from" for k
    using bal [of k] that by simp
  then have "gains (c_tokens w) L' {from}" by (auto simp: gains_def)
  moreover have "balance L' from + paid_total ps = balance (c_tokens w) from + paid_to ps from"
    using bal [of "from"] by simp
  ultimately show thesis using that [OF L'(1)] L'(2) other keeps_same by blast
qed


section \<open>Vaults\<close>

lemma deposit_inv:
  assumes inv: "escrow_inv E w" and signer: "\<not> signs_for EscrowProgram merchant"
    and ok: "handle_deposit_liquidity E merchant from mint tp amount w = Inr w'"
  shows "escrow_inv E w'"
proof -
  from ok obtain v d w1 tot av where v: "es_vaults w (merchant, mint) = Some v"
    and tr: "(cpi_transfer E tp from mint (liquidity_tokens_pda merchant mint) merchant amount d w
              :: EscrowErrorCode tx_error + _) = Inr w1"
    and sums: "unat tot = unat (lv_total v) + unat amount"
      "unat av = unat (lv_available v) + unat amount"
    and w': "w' = put_vault (merchant, mint) (v\<lparr>lv_total := tot, lv_available := av\<rparr>) w1"
    by (auto simp: handle_deposit_liquidity_def vault_load_defs checked_add_Some)
  from tr signer obtain L' where L': "w1 = w\<lparr>c_tokens := L'\<rparr>" "keeps (c_tokens w) L'"
      "gains (c_tokens w) L' {}"
    and bal: "\<And>m p. held (c_tokens w) (liquidity_tokens_pda merchant mint) m p \<Longrightarrow>
        signs_for EscrowProgram p \<Longrightarrow> balance L' (liquidity_tokens_pda merchant mint)
          = balance (c_tokens w) (liquidity_tokens_pda merchant mint) + unat amount"
    by (rule transfer_by_wallet) blast
  have vi: "vault_inv E (c_tokens w) (merchant, mint) v" using inv v by (rule escrow_inv_vault)
  then have held: "held (c_tokens w) (liquidity_tokens_pda merchant mint) mint
      (liquidity_vault_pda merchant mint)"
    by (auto simp: vault_inv_def)
  have vi': "vault_inv E L' (merchant, mint) (v\<lparr>lv_total := tot, lv_available := av\<rparr>)"
    using vi sums bal [OF held] keepsD [OF L'(2) held] by (simp add: vault_inv_def)
  show ?thesis
    by (rule escrow_inv_vault_change [OF inv v, of w' "v\<lparr>lv_total := tot, lv_available := av\<rparr>"])
       (use L' vi' gains_mono [OF L'(3)] in \<open>auto simp: w' escrow_world_simps\<close>)
qed

lemma withdraw_inv:
  assumes inv: "escrow_inv E w"
    and ok: "handle_withdraw_liquidity E merchant to mint tp amount w = Inr w'"
  shows "escrow_inv E w'"
proof -
  from ok obtain v d w1 tot where v: "es_vaults w (merchant, mint) = Some v"
    and le: "amount \<le> lv_available v"
    and tr: "(cpi_transfer E tp (liquidity_tokens_pda merchant mint) mint to
              (liquidity_vault_pda merchant mint) amount d w
              :: EscrowErrorCode tx_error + _) = Inr w1"
    and tot: "unat (lv_total v) = unat amount + unat tot"
    and w': "w' = put_vault (merchant, mint)
               (v\<lparr>lv_available := lv_available v - amount, lv_total := tot\<rparr>) w1"
    by (auto simp: handle_withdraw_liquidity_def vault_load_defs checked_sub_Some)
  from tr obtain L' where L': "w1 = w\<lparr>c_tokens := L'\<rparr>" "keeps (c_tokens w) L'"
      "gains (c_tokens w) L' {liquidity_tokens_pda merchant mint}"
      "moved (c_tokens w) (liquidity_tokens_pda merchant mint) to amount L'"
    by (rule transfer_spends)
  have sub: "unat (lv_available v - amount) + unat amount = unat (lv_available v)"
    using le by (simp add: unat_sub word_le_nat_alt)
  have vi: "vault_inv E (c_tokens w) (merchant, mint) v" using inv v by (rule escrow_inv_vault)
  then have "vault_inv E L' (merchant, mint)
      (v\<lparr>lv_available := lv_available v - amount, lv_total := tot\<rparr>)"
    using sub tot moved_from [OF L'(4)] keepsD [OF L'(2)] by (auto simp: vault_inv_def)
  with L' show ?thesis
    by (intro escrow_inv_vault_change [OF inv v, of w'
          "v\<lparr>lv_available := lv_available v - amount, lv_total := tot\<rparr>"])
       (auto simp: w' escrow_world_simps)
qed

lemma reserve_inv:
  assumes inv: "escrow_inv E w" and ok: "handle_reserve_liquidity E merchant mint amount w = Inr w'"
  shows "escrow_inv E w'"
proof -
  from ok obtain v res where v: "es_vaults w (merchant, mint) = Some v"
    and le: "amount \<le> lv_available v" and res: "unat res = unat (lv_reserved v) + unat amount"
    and w': "w' = put_vault (merchant, mint)
               (v\<lparr>lv_available := lv_available v - amount, lv_reserved := res\<rparr>) w"
    by (auto simp: handle_reserve_liquidity_def vault_load_defs checked_add_Some)
  have sub: "unat (lv_available v - amount) + unat amount = unat (lv_available v)"
    using le by (simp add: unat_sub word_le_nat_alt)
  have "vault_inv E (c_tokens w) (merchant, mint) v" using inv v by (rule escrow_inv_vault)
  then have "vault_inv E (c_tokens w) (merchant, mint)
      (v\<lparr>lv_available := lv_available v - amount, lv_reserved := res\<rparr>)"
    using sub res by (auto simp: vault_inv_def)
  then show ?thesis
    by (intro escrow_inv_vault_change [OF inv v, of w'
          "v\<lparr>lv_available := lv_available v - amount, lv_reserved := res\<rparr>"])
       (auto simp: w' escrow_world_simps keeps_same gains_def)
qed

lemma ad_listing_fee_inv:
  assumes inv: "escrow_inv E w"
    and ok: "handle_charge_ad_listing_fee E sv merchant mint tp ad w = Inr w'"
  shows "escrow_inv E w'"
proof -
  from ok obtain fc v d shares w1 av tot where fc: "es_fee_config w = Some fc"
    and v: "es_vaults w (merchant, mint) = Some v"
    and shares: "split_fee_four_ways fc (fc_ad_listing_fee fc) = Inr shares"
    and tr: "(transfer_each E tp (liquidity_tokens_pda merchant mint) mint
               (liquidity_vault_pda merchant mint) d (zip shares (fee_treasuries fc)) w
               :: EscrowErrorCode tx_error + _) = Inr w1"
    and subs: "unat (lv_available v) = unat (fc_ad_listing_fee fc) + unat av"
      "unat (lv_total v) = unat (fc_ad_listing_fee fc) + unat tot"
    and w': "w' = emit_escrow (AdListingFeeCharged merchant ad mint (fc_ad_listing_fee fc) av
               (unix_timestamp sv))
             (put_vault (merchant, mint) (v\<lparr>lv_available := av, lv_total := tot\<rparr>) w1)"
    by (auto simp: handle_charge_ad_listing_fee_def vault_load_defs checked_sub_Some Let_def)
  have "fee_split_ok fc" using escrow_invD(1) [OF inv] fc by (simp add: fee_config_inv_def)
  with shares obtain a b c e where abce: "shares = [a, b, c, e]"
      "unat a + unat b + unat c + unat e = unat (fc_ad_listing_fee fc)"
    using split_fee_four_ways_shares [of fc "fc_ad_listing_fee fc"] by auto
  have total: "paid_total (zip shares (fee_treasuries fc)) = unat (fc_ad_listing_fee fc)"
    using abce by (simp add: fee_treasuries_def)
  from tr obtain L' where L': "w1 = w\<lparr>c_tokens := L'\<rparr>" "keeps (c_tokens w) L'"
      "gains (c_tokens w) L' {liquidity_tokens_pda merchant mint}"
      "balance L' (liquidity_tokens_pda merchant mint) + paid_total (zip shares (fee_treasuries fc))
        = balance (c_tokens w) (liquidity_tokens_pda merchant mint)
          + paid_to (zip shares (fee_treasuries fc)) (liquidity_tokens_pda merchant mint)"
    by (rule transfers_spend)
  have "vault_inv E (c_tokens w) (merchant, mint) v" using inv v by (rule escrow_inv_vault)
  then have "vault_inv E L' (merchant, mint) (v\<lparr>lv_available := av, lv_total := tot\<rparr>)"
    using subs L'(4) total keepsD [OF L'(2)] by (auto simp: vault_inv_def)
  with L' show ?thesis
    by (intro escrow_inv_vault_change [OF inv v, of w' "v\<lparr>lv_available := av, lv_total := tot\<rparr>"])
       (auto simp: w' escrow_world_simps)
qed

lemma absorb_inv:
  assumes inv: "escrow_inv E w"
    and ok: "handle_absorb_stake_recovery E sv merchant mint w = Inr w'"
  shows "escrow_inv E w'"
proof -
  from ok show ?thesis
  proof (rule absorbE)
    fix c r v t tot av cr amount
    assume v: "es_vaults w (merchant, mint) = Some v"
      and t: "c_tokens w (liquidity_tokens_pda merchant mint) = Some t"
      and tot: "unat tot = unat (lv_total v) + unat amount" and backed: "tot \<le> ta_amount t"
      and av: "unat av = unat (lv_available v) + unat amount"
      and w': "w' = emit_escrow (StakeRecoveryAbsorbed merchant (recovery_claim_pda merchant mint) mint
           amount (rc_owed_total c) cr (saturating_sub (rc_owed_total c) (rr_recovered_total r)) av
           (unix_timestamp sv))
         (put_claim (merchant, mint) (c\<lparr>rc_credited_total := cr\<rparr>)
         (put_vault (merchant, mint) (v\<lparr>lv_total := tot, lv_available := av\<rparr>) w))"
    have "unat tot \<le> balance (c_tokens w) (liquidity_tokens_pda merchant mint)"
      using backed t by (simp add: word_le_nat_alt)
    moreover have "vault_inv E (c_tokens w) (merchant, mint) v"
      using inv v by (rule escrow_inv_vault)
    ultimately have "vault_inv E (c_tokens w) (merchant, mint)
        (v\<lparr>lv_total := tot, lv_available := av\<rparr>)"
      using tot av by (auto simp: vault_inv_def)
    then show ?thesis
      by (intro escrow_inv_vault_change [OF inv v, of w' "v\<lparr>lv_total := tot, lv_available := av\<rparr>"])
         (auto simp: w' escrow_world_simps keeps_same gains_def)
  qed
qed

lemma no_vault_no_pending:
  assumes "escrow_inv env w" and "es_vaults w addr = None"
  shows "pending_of addr (es_trades w rid) = 0"
proof (cases "es_trades w rid")
  case (Some e)
  from escrow_inv_trade [OF assms(1) this] have "es_vaults w (te_seller e, te_mint e) \<noteq> None"
    by (simp add: trade_inv_def)
  with Some assms(2) show ?thesis by (auto simp: pending_of_def)
qed (simp add: pending_of_def)

lemma create_vault_inv:
  assumes inv: "escrow_inv E w"
    and ok: "handle_create_liquidity_vault E merchant mint tp w = Inr w'"
  shows "escrow_inv E w'"
proof -
  let ?k = "liquidity_tokens_pda merchant mint"
  let ?t = "\<lparr> ta_mint = mint, ta_owner = liquidity_vault_pda merchant mint, ta_amount = 0,
    ta_delegate = None, ta_frozen = False \<rparr> :: token_account"
  let ?v = "\<lparr> lv_merchant = merchant, lv_mint = mint, lv_total = 0, lv_reserved = 0,
    lv_available = 0, lv_settled = 0, lv_pending_settlement = 0,
    lv_bump = bump_of E (liquidity_vault_pda merchant mint),
    lv_token_vault_bump = bump_of E (liquidity_tokens_pda merchant mint) \<rparr>"
  from ok have new: "es_vaults w (merchant, mint) = None" "c_tokens w ?k = None"
    and w': "w' = put_vault (merchant, mint) ?v (w\<lparr>c_tokens := (c_tokens w)(?k \<mapsto> ?t)\<rparr>)"
    by (auto simp: handle_create_liquidity_vault_def vault_load_defs init_token_def)
  have keeps: "keeps (c_tokens w) ((c_tokens w)(?k \<mapsto> ?t))"
    and gain: "gains (c_tokens w) ((c_tokens w)(?k \<mapsto> ?t)) {}"
    using new(2) by (auto intro: keeps_new gains_new)
  have fresh: "vault_inv E ((c_tokens w)(?k \<mapsto> ?t)) (merchant, mint) ?v"
    by (simp add: vault_inv_def held_def)
  show ?thesis
  proof (rule escrow_inv_change [OF inv, of w' "{}"])
    show "pending_inv (es_vaults w') (es_trades w')"
      using escrow_invD(4) [OF inv] no_vault_no_pending [OF inv new(1)]
      by (auto simp: pending_inv_def w' escrow_world_simps)
    show "cases_inv E (es_trades w') (es_cases w') (c_tokens w')"
      using cases_inv_later [OF escrow_invD(5) [OF inv] keeps] by (simp add: w' escrow_world_simps)
    show "pool_inv (es_cases w') (c_tokens w')"
      using pool_inv_gain [OF escrow_invD(5,6) [OF inv] gain] by (simp add: w' escrow_world_simps)
  qed (use keeps gain fresh escrow_invD(1) [OF inv] in
       \<open>auto simp: w' escrow_world_simps split: if_splits\<close>)
qed


section \<open>Configuration\<close>

end

lemma fee_split_total:
  assumes "ucast a + ucast b + ucast c + ucast d = (ESCROW_BPS_DENOMINATOR :: u64)"
  shows "unat (a::u16) + unat (b::u16) + unat (c::u16) + unat (d::u16) = 10000"
proof -
  have "unat x < 65536" for x :: u16 using unat_lt_2p [of x] by simp
  from this [of a] this [of b] this [of c] this [of d]
  have "unat (ucast a + ucast b + ucast c + ucast d :: u64) = unat a + unat b + unat c + unat d"
    by (simp add: unat_word_ariths)
  with assms show ?thesis by (simp add: ESCROW_BPS_DENOMINATOR_def)
qed

lemma fee_bps_le: "ucast (a::u16) \<le> (ESCROW_BPS_DENOMINATOR :: u64) \<Longrightarrow> unat a \<le> 10000"
  by (simp add: ESCROW_BPS_DENOMINATOR_def word_le_nat_alt)

lemma escrow_inv_config:
  assumes "escrow_inv env w" and "fee_config_inv env (Some fc)"
  shows "escrow_inv env (w\<lparr>es_fee_config := Some fc\<rparr>)"
  using assms by (simp add: escrow_inv_def)

context token_env
begin

lemma initialize_fee_config_inv:
  assumes inv: "escrow_inv E w" and ok: "handle_initialize_fee_config E admin params w = Inr w'"
  shows "escrow_inv E w'"
  using ok escrow_inv_config [OF inv] fee_bps_le [of "if_settlement_fee_bps params"]
    fee_split_total [of "if_dev_treasury_bps params" "if_ecosystem_treasury_bps params"
      "if_infra_treasury_bps params" "if_emergency_reserve_bps params"]
  by (auto simp: handle_initialize_fee_config_def Let_def fee_config_inv_def fee_split_ok_def
      fee_splits_def)

lemma update_fee_config_inv:
  assumes inv: "escrow_inv E w"
    and ok: "handle_update_fee_config E admin mint t1 t2 t3 t4 params w = Inr w'"
  shows "escrow_inv E w'"
  using ok escrow_inv_config [OF inv] fee_bps_le [of "uf_settlement_fee_bps params"]
    fee_split_total [of "uf_dev_treasury_bps params" "uf_ecosystem_treasury_bps params"
      "uf_infra_treasury_bps params" "uf_emergency_reserve_bps params"]
  by (auto simp: handle_update_fee_config_def Let_def fee_config_inv_def fee_split_ok_def
      fee_splits_def load_fee_config_def load_mint_token_def load_token_def)

lemma initialize_arbitration_pool_inv:
  assumes inv: "escrow_inv E w"
    and ok: "handle_initialize_arbitration_pool E admin mint tp w = Inr w'"
  shows "escrow_inv E w'"
proof -
  let ?t = "\<lparr> ta_mint = mint, ta_owner = fee_config_pda, ta_amount = 0,
    ta_delegate = None, ta_frozen = False \<rparr> :: token_account"
  from ok have new: "c_tokens w arbitration_pool_pda = None"
    and w': "w' = w\<lparr>c_tokens := (c_tokens w)(arbitration_pool_pda \<mapsto> ?t)\<rparr>"
    by (auto simp: handle_initialize_arbitration_pool_def vault_load_defs init_token_def)
  have no_case: "es_cases w rid = None" for rid
    using escrow_inv_case [OF inv, of rid] new
    by (cases "es_cases w rid") (auto simp: case_inv_def held_def)
  show ?thesis
  proof (rule escrow_invI)
    show "cases_inv E (es_trades w') (es_cases w') (c_tokens w')"
      using escrow_invD(5) [OF inv] no_case by (simp add: cases_inv_def w')
    show "pool_inv (es_cases w') (c_tokens w')"
      by (simp add: pool_inv_def pool_claim_def w' no_case)
    have "vault_inv E (c_tokens w') addr v" if "es_vaults w addr = Some v" for addr v
      using escrow_inv_vault [OF inv that] by (simp add: vault_inv_def held_def w')
    then show "vaults_inv E (es_vaults w') (c_tokens w')" unfolding vaults_inv_def by (simp add: w')
    have "trade_inv E (es_vaults w') (c_tokens w') rid e" if "es_trades w rid = Some e" for rid e
      using escrow_inv_trade [OF inv that] by (simp add: trade_inv_def held_def w')
    then show "trades_inv E (es_vaults w') (es_trades w') (c_tokens w')"
      unfolding trades_inv_def by (simp add: w')
  qed (use escrow_invD(1,4) [OF inv] in \<open>simp_all add: w' held_def pool_account_inv_def\<close>)
qed

lemma publish_pool_size_inv:
  assumes inv: "escrow_inv E w"
    and ok: "handle_publish_arbitrator_pool_size E sv admin n w = Inr w'"
  shows "escrow_inv E w'"
  using inv ok
  by (auto simp: handle_publish_arbitrator_pool_size_def load_fee_config_def Let_def
      escrow_world_simps escrow_inv_def)

end

end
