(* ===== verification/Escrow_Trade_Steps.thy ===== *)
theory Escrow_Trade_Steps
  imports Escrow_Preservation
begin

text \<open>
  The trade instructions preserve the escrow invariant. The three token movers they share with
  the dispute instructions are described once: each spends only the trade's token account and
  moves the trade's amount out of its vault's pending settlement.
\<close>


section \<open>One trade and its vault\<close>

text \<open>The vault \<open>v\<close> after the trade's amount left its pending settlement.\<close>

definition settles :: "LiquidityVault \<Rightarrow> u64 \<Rightarrow> nat \<Rightarrow> LiquidityVault \<Rightarrow> bool" where
  "settles v amount returned v' \<longleftrightarrow>
     (\<exists>pending available settled.
        v' = v\<lparr>lv_pending_settlement := pending, lv_available := available, lv_settled := settled\<rparr>
        \<and> unat (lv_pending_settlement v) = unat amount + unat pending
        \<and> unat available = unat (lv_available v) + returned
        \<and> unat settled + returned = unat (lv_settled v) + unat amount)"

lemma settlesI:
  assumes "v' = v\<lparr>lv_pending_settlement := pending, lv_available := available, lv_settled := settled\<rparr>"
    and "unat (lv_pending_settlement v) = unat amount + unat pending"
    and "unat available = unat (lv_available v) + returned"
    and "unat settled + returned = unat (lv_settled v) + unat amount"
  shows "settles v amount returned v'"
  using assms unfolding settles_def by blast

lemma settles_vault_inv:
  assumes "vault_inv env L addr v" and "settles v amount returned v'" and "keeps L L'"
    and "balance L (liquidity_tokens_pda (fst addr) (snd addr)) + returned
         \<le> balance L' (liquidity_tokens_pda (fst addr) (snd addr))"
  shows "vault_inv env L' addr v'"
  using assms by (auto simp: vault_inv_def settles_def intro: keepsD)

lemma settles_pending:
  "settles v amount returned v' \<Longrightarrow>
   unat (lv_pending_settlement v) = unat amount + unat (lv_pending_settlement v')"
  by (auto simp: settles_def)

text \<open>A trade and its vault change together; only their token accounts are spent.\<close>

lemma trade_pending_change:
  assumes "pending_inv V T" and "T rid = Some e" and "V addr = Some v"
    and "addr = (te_seller e, te_mint e)" and "te_seller e' = te_seller e" and "te_mint e' = te_mint e"
    and "unat (lv_pending_settlement v') + pending_of addr (Some e)
         = unat (lv_pending_settlement v) + pending_of addr (Some e')"
  shows "pending_inv (V(addr \<mapsto> v')) (T(rid \<mapsto> e'))"
proof (rule pending_inv_change [OF assms(1)])
  fix a x assume x: "(V(addr \<mapsto> v')) a = Some x"
  show "\<exists>v. V a = Some v \<and> unat (lv_pending_settlement x) + pending_of a (T rid)
          = unat (lv_pending_settlement v) + pending_of a (Some e')"
  proof (cases "a = addr")
    case False
    with assms have "pending_of a (Some e) = 0" "pending_of a (Some e') = 0"
      by (auto simp: pending_of_def)
    with False x assms(2) show ?thesis by auto
  qed (use x assms in auto)
qed

lemma escrow_inv_trade_change:
  assumes inv: "escrow_inv env w" and e: "es_trades w rid = Some e" and v: "es_vaults w addr = Some v"
    and addr: "addr = (te_seller e, te_mint e)"
    and fields: "es_vaults w' = (es_vaults w)(addr \<mapsto> v')" "es_trades w' = (es_trades w)(rid \<mapsto> e')"
      "es_cases w' = es_cases w" "es_fee_config w' = es_fee_config w"
    and keeps: "keeps (c_tokens w) (c_tokens w')"
    and gain: "gains (c_tokens w) (c_tokens w')
                 {liquidity_tokens_pda (te_seller e) (te_mint e), trade_tokens_pda rid}"
    and v': "vault_inv env (c_tokens w') addr v'"
    and e': "trade_inv env (es_vaults w') (c_tokens w') rid e'" "te_seller e' = te_seller e"
      "te_mint e' = te_mint e" "te_state e \<noteq> Frozen" "te_state e' \<noteq> Frozen"
    and pending: "unat (lv_pending_settlement v') + pending_of addr (Some e)
         = unat (lv_pending_settlement v) + pending_of addr (Some e')"
  shows "escrow_inv env w'"
proof (rule escrow_inv_change [OF inv keeps gain])
  show "pending_inv (es_vaults w') (es_trades w')"
    unfolding fields
    by (rule trade_pending_change [OF escrow_invD(4) [OF inv] e v addr e'(2,3) pending])
  show "cases_inv env (es_trades w') (es_cases w') (c_tokens w')"
    unfolding fields by (rule cases_inv_trade [OF escrow_invD(5) [OF inv] keeps]) (use e e' in auto)
  show "pool_inv (es_cases w') (c_tokens w')"
    unfolding fields by (rule pool_inv_gain [OF escrow_invD(5,6) [OF inv] gain]) simp
  fix r x assume "es_trades w' r = Some x"
  then show "es_trades w r = Some x
        \<and> trade_tokens_pda r \<notin> {liquidity_tokens_pda (te_seller e) (te_mint e), trade_tokens_pda rid}
      \<or> trade_inv env (es_vaults w') (c_tokens w') r x"
    using e'(1) by (auto simp: fields(2) split: if_splits)
qed (use escrow_invD(1) [OF inv] v' addr fields(1,4) in \<open>auto split: if_splits\<close>)

lemma unfunded_trade_inv:
  assumes "trade_inv env V L rid e" and "keeps L L'" and "dom V \<subseteq> dom V'" and "\<not> funded e'"
    and "\<exists>state. e' = e\<lparr>te_state := state\<rparr>"
  shows "trade_inv env V' L' rid e'"
  using assms by (auto simp: trade_inv_def funded_def intro: keepsD)


section \<open>The token movers\<close>

context token_env
begin

lemma unwind_effect:
  assumes "unwind_funded_trade_escrow E tp mint d e v to w
           = (Inr (v', w') :: EscrowErrorCode tx_error + _ \<times> 'z escrow_chain_scheme)"
  obtains L' where "w' = w\<lparr>c_tokens := L'\<rparr>" and "settles v (te_amount e) (unat (te_amount e)) v'"
    and "keeps (c_tokens w) L'"
    and "gains (c_tokens w) L' {trade_tokens_pda (te_reservation_id e)}"
    and "moved (c_tokens w) (trade_tokens_pda (te_reservation_id e)) to (te_amount e) L'"
proof -
  from assms obtain w1 pending available where
    tr: "(cpi_transfer E tp (trade_tokens_pda (te_reservation_id e)) mint to
            (trade_escrow_pda (te_reservation_id e)) (te_amount e) d w
            :: EscrowErrorCode tx_error + _) = Inr w1"
    and sums: "unat (lv_pending_settlement v) = unat (te_amount e) + unat pending"
      "unat available = unat (lv_available v) + unat (te_amount e)"
    and out: "v' = v\<lparr>lv_pending_settlement := pending, lv_available := available\<rparr>" "w' = w1"
    by (auto simp: unwind_funded_trade_escrow_def Let_def checked_sub_Some checked_add_Some)
  have "settles v (te_amount e) (unat (te_amount e)) v'"
    by (rule settlesI [where pending = pending and available = available and settled = "lv_settled v"]) (use sums out in simp_all)
  with tr show thesis by (elim transfer_spends) (use that out in auto)
qed

lemma split_effect:
  assumes "split_trade_escrow_evenly E tp mint d e buyer v to w
           = (Inr (e', v', w') :: EscrowErrorCode tx_error + _ \<times> _ \<times> 'z escrow_chain_scheme)"
    and "to \<noteq> trade_tokens_pda (te_reservation_id e)"
  obtains L' and seller_share :: u64 where "w' = w\<lparr>c_tokens := L'\<rparr>" and "e' = e\<lparr>te_state := Released\<rparr>"
    and "unat seller_share = unat (te_amount e) - unat (te_amount e) div 2"
    and "settles v (te_amount e) (unat seller_share) v'"
    and "keeps (c_tokens w) L'"
    and "gains (c_tokens w) L' {trade_tokens_pda (te_reservation_id e)}"
    and "balance (c_tokens w) to + unat seller_share \<le> balance L' to"
proof -
  let ?rid = "te_reservation_id e"
  define half where "half = te_amount e div 2"
  from assms(1) [unfolded split_trade_escrow_evenly_def Let_def, folded half_def]
  obtain w1 seller pending available settled where
    seller: "unat (te_amount e) = unat half + unat seller"
    and tr: "(transfer_each E tp (trade_tokens_pda ?rid) mint (trade_escrow_pda ?rid) d
               [(half, buyer), (seller, to)] w :: EscrowErrorCode tx_error + _) = Inr w1"
    and sums: "unat (lv_pending_settlement v) = unat (te_amount e) + unat pending"
      "unat available = unat (lv_available v) + unat seller"
      "unat settled = unat (lv_settled v) + unat half"
    and out: "e' = e\<lparr>te_state := Released\<rparr>" "w' = w1"
      "v' = v\<lparr>lv_pending_settlement := pending, lv_available := available, lv_settled := settled\<rparr>"
    by (auto simp: checked_sub_Some checked_add_Some simp del: transfer_each.simps)
  have half: "unat half = unat (te_amount e) div 2" by (simp add: half_def unat_div)
  have settles: "settles v (te_amount e) (unat seller) v'"
    by (rule settlesI [OF out(3) sums(1,2)]) (use sums(3) seller in linarith)
  from tr obtain L' where L': "w1 = w\<lparr>c_tokens := L'\<rparr>" "keeps (c_tokens w) L'"
      "gains (c_tokens w) L' {trade_tokens_pda ?rid}"
      "\<And>k. k \<noteq> trade_tokens_pda ?rid \<Longrightarrow>
         balance L' k = balance (c_tokens w) k + paid_to [(half, buyer), (seller, to)] k"
    by (rule transfers_spend) blast
  have gain: "balance (c_tokens w) to + unat seller \<le> balance L' to"
    using L'(4) [OF assms(2)] by simp
  have share: "unat seller = unat (te_amount e) - unat (te_amount e) div 2"
    using seller half by linarith
  have "w' = w\<lparr>c_tokens := L'\<rparr>" using L'(1) out(2) by simp
  then show thesis by (rule that [OF _ out(1) share settles L'(2,3) gain])
qed

lemma release_effect:
  assumes ok: "fee_split_ok fc"
    and rel: "release_trade_escrow_funds E tp mint d e buyer v fc w
      = (Inr (e', v', b, shares, w') :: EscrowErrorCode tx_error + _ \<times> _ \<times> _ \<times> _ \<times> 'z escrow_chain_scheme)"
  obtains L' where "w' = w\<lparr>c_tokens := L'\<rparr>" and "e' = e\<lparr>te_state := Released\<rparr>"
    and "compute_fee_split fc (te_amount e) = Inr (b, shares)"
    and "settles v (te_amount e) 0 v'"
    and "keeps (c_tokens w) L'"
    and "gains (c_tokens w) L' {trade_tokens_pda (te_reservation_id e)}"
    and "balance L' (trade_tokens_pda (te_reservation_id e)) + unat (te_amount e)
         = balance (c_tokens w) (trade_tokens_pda (te_reservation_id e))
           + paid_to (release_destinations fc buyer b shares) (trade_tokens_pda (te_reservation_id e))"
    and "\<And>k. k \<noteq> trade_tokens_pda (te_reservation_id e) \<Longrightarrow>
           balance L' k = balance (c_tokens w) k + paid_to (release_destinations fc buyer b shares) k"
proof -
  let ?rid = "te_reservation_id e"
  from rel obtain w1 pending settled where split: "compute_fee_split fc (te_amount e) = Inr (b, shares)"
    and tr: "(transfer_each E tp (trade_tokens_pda ?rid) mint (trade_escrow_pda ?rid) d
               (release_destinations fc buyer b shares) w :: EscrowErrorCode tx_error + _) = Inr w1"
    and sums: "unat (lv_pending_settlement v) = unat (te_amount e) + unat pending"
      "unat settled = unat (lv_settled v) + unat (te_amount e)"
    and out: "e' = e\<lparr>te_state := Released\<rparr>" "w' = w1"
      "v' = v\<lparr>lv_pending_settlement := pending, lv_settled := settled\<rparr>"
    unfolding release_trade_escrow_funds_def Let_def
    by (auto simp: checked_sub_Some checked_add_Some simp del: transfer_each.simps)
  from compute_fee_split_shares [OF ok, of "te_amount e"] split
  have total: "paid_total (release_destinations fc buyer b shares) = unat (te_amount e)"
    by (auto simp: release_destinations_def fee_treasuries_def)
  have settles: "settles v (te_amount e) 0 v'"
    by (rule settlesI [where pending = pending and available = "lv_available v" and settled = settled]) (use sums out in simp_all)
  from tr show thesis
    by (rule transfers_spend) (use that [OF _ out(1) split settles] out(2) total in auto)
qed


section \<open>Trade instructions\<close>

lemma create_trade_inv:
  assumes inv: "escrow_inv E w"
    and ok: "handle_create_trade_escrow E sv merchant buyer mint tp rid amount secs w = Inr w'"
  shows "escrow_inv E w'"
proof -
  let ?k = "trade_tokens_pda rid"
  let ?t = "\<lparr> ta_mint = mint, ta_owner = trade_escrow_pda rid, ta_amount = 0,
    ta_delegate = None, ta_frozen = False \<rparr> :: token_account"
  from ok obtain v at where v: "es_vaults w (merchant, mint) = Some v"
    and new: "es_trades w rid = None" "c_tokens w ?k = None"
    and w': "w' = put_trade rid \<lparr> te_reservation_id = rid, te_buyer = buyer, te_seller = merchant,
          te_mint = mint, te_amount = amount, te_state = Reserved, te_approved = False,
          te_created_at = unix_timestamp sv, te_timeout_at = at,
          te_bump = bump_of E (trade_escrow_pda rid),
          te_token_vault_bump = bump_of E (trade_tokens_pda rid) \<rparr>
          (w\<lparr>c_tokens := (c_tokens w)(?k \<mapsto> ?t)\<rparr>)"
    by (auto simp: handle_create_trade_escrow_def vault_load_defs init_token_def)
  have keeps: "keeps (c_tokens w) ((c_tokens w)(?k \<mapsto> ?t))"
    and gain: "gains (c_tokens w) ((c_tokens w)(?k \<mapsto> ?t)) {}"
    using new(2) by (auto intro: keeps_new gains_new)
  show ?thesis
  proof (rule escrow_inv_change [OF inv, of w' "{}"])
    show "pending_inv (es_vaults w') (es_trades w')"
      unfolding w' put_trade_def
      by (simp, rule pending_inv_change [OF escrow_invD(4) [OF inv]])
         (simp add: new(1) pending_of_def funded_def)
    show "cases_inv E (es_trades w') (es_cases w') (c_tokens w')"
      unfolding w' put_trade_def
      by (simp, rule cases_inv_trade [OF escrow_invD(5) [OF inv] keeps]) (use new(1) in auto)
    show "pool_inv (es_cases w') (c_tokens w')"
      using pool_inv_gain [OF escrow_invD(5,6) [OF inv] gain] by (simp add: w' escrow_world_simps)
  qed (use keeps gain v escrow_invD(1) [OF inv] in
       \<open>auto simp: w' escrow_world_simps trade_inv_def held_def funded_def split: if_splits\<close>)
qed

lemma fund_inv:
  assumes inv: "escrow_inv E w" and ok: "handle_fund_trade_escrow E merchant mint tp rid w = Inr w'"
  shows "escrow_inv E w'"
proof -
  let ?tok = "liquidity_tokens_pda merchant mint"
  from ok obtain v e d w1 pending where v: "es_vaults w (merchant, mint) = Some v"
    and e: "es_trades w rid = Some e" "te_seller e = merchant" "te_mint e = mint"
      "te_state e = Reserved" and le: "te_amount e \<le> lv_reserved v"
    and tr: "(cpi_transfer E tp ?tok mint (trade_tokens_pda rid) (liquidity_vault_pda merchant mint)
               (te_amount e) d w :: EscrowErrorCode tx_error + _) = Inr w1"
    and pending: "unat pending = unat (lv_pending_settlement v) + unat (te_amount e)"
    and w': "w' = put_trade rid (e\<lparr>te_state := AwaitingFiatSettlement\<rparr>) (put_vault (merchant, mint)
       (v\<lparr>lv_reserved := lv_reserved v - te_amount e, lv_pending_settlement := pending\<rparr>) w1)"
    by (auto simp: handle_fund_trade_escrow_def trade_load_defs checked_add_Some Let_def)
  from tr obtain L' where L': "w1 = w\<lparr>c_tokens := L'\<rparr>" "keeps (c_tokens w) L'"
      "gains (c_tokens w) L' {?tok}" "moved (c_tokens w) ?tok (trade_tokens_pda rid) (te_amount e) L'"
    by (rule transfer_spends)
  have sub: "unat (lv_reserved v - te_amount e) + unat (te_amount e) = unat (lv_reserved v)"
    using le by (simp add: unat_sub word_le_nat_alt)
  have vi: "vault_inv E (c_tokens w) (merchant, mint) v" using inv v by (rule escrow_inv_vault)
  have ei: "trade_inv E (es_vaults w) (c_tokens w) rid e" using inv e(1) by (rule escrow_inv_trade)
  have "balance L' ?tok + unat (te_amount e) = balance (c_tokens w) ?tok"
    and trade_bal: "unat (te_amount e) \<le> balance L' (trade_tokens_pda rid)"
    using moved_balance [OF L'(4), of ?tok] moved_balance [OF L'(4), of "trade_tokens_pda rid"]
    by simp_all
  then have v': "vault_inv E L' (merchant, mint)
      (v\<lparr>lv_reserved := lv_reserved v - te_amount e, lv_pending_settlement := pending\<rparr>)"
    using vi sub pending keepsD [OF L'(2)] by (auto simp: vault_inv_def)
  have e': "trade_inv E (es_vaults w') L' rid (e\<lparr>te_state := AwaitingFiatSettlement\<rparr>)"
    using ei trade_bal keepsD [OF L'(2)] by (auto simp: trade_inv_def w' escrow_world_simps L'(1))
  show ?thesis
    by (rule escrow_inv_trade_change [OF inv e(1) v, of w'
          "v\<lparr>lv_reserved := lv_reserved v - te_amount e, lv_pending_settlement := pending\<rparr>"
          "e\<lparr>te_state := AwaitingFiatSettlement\<rparr>"])
       (use e L'(1,2) v' e' pending gains_mono [OF L'(3)] in
         \<open>auto simp: w' escrow_world_simps pending_of_def funded_def\<close>)
qed

lemma approve_inv:
  assumes inv: "escrow_inv E w" and ok: "handle_approve_settlement E merchant rid w = Inr w'"
  shows "escrow_inv E w'"
proof -
  from ok obtain e where e: "es_trades w rid = Some e" "te_state e = AwaitingFiatSettlement"
    and w': "w' = put_trade rid (e\<lparr>te_approved := True\<rparr>) w"
    by (auto simp: handle_approve_settlement_def load_trade_def)
  have ei: "trade_inv E (es_vaults w) (c_tokens w) rid e" using inv e(1) by (rule escrow_inv_trade)
  then obtain v where v: "es_vaults w (te_seller e, te_mint e) = Some v"
    by (auto simp: trade_inv_def)
  have "es_vaults w' = (es_vaults w)((te_seller e, te_mint e) \<mapsto> v)"
    using v by (auto simp: w' put_trade_def)
  then show ?thesis
    by (rule escrow_inv_trade_change [OF inv e(1) v refl, where e' = "e\<lparr>te_approved := True\<rparr>"])
       (use e ei escrow_inv_vault [OF inv v] in \<open>auto simp: w' put_trade_def keeps_same gains_def
          trade_inv_def funded_def pending_of_def\<close>)
qed

text \<open>A trade leaves its funded state: its amount leaves the vault's pending settlement.\<close>

lemma close_trade_inv:
  assumes inv: "escrow_inv E w" and e: "es_trades w rid = Some e" "te_state e = AwaitingFiatSettlement"
    and v: "es_vaults w (te_seller e, te_mint e) = Some v"
    and settles: "settles v (te_amount e) returned v'"
    and L': "keeps (c_tokens w) L'" "gains (c_tokens w) L' {trade_tokens_pda rid}"
      "balance (c_tokens w) (liquidity_tokens_pda (te_seller e) (te_mint e)) + returned
       \<le> balance L' (liquidity_tokens_pda (te_seller e) (te_mint e))"
    and state: "state = Released \<or> state = Cancelled"
    and fields: "es_vaults w' = (es_vaults w)((te_seller e, te_mint e) \<mapsto> v')"
      "es_trades w' = (es_trades w)(rid \<mapsto> e\<lparr>te_state := state\<rparr>)"
      "es_cases w' = es_cases w" "es_fee_config w' = es_fee_config w" "c_tokens w' = L'"
  shows "escrow_inv E w'"
proof (rule escrow_inv_trade_change [OF inv e(1) v refl fields(1-4)])
  show "vault_inv E (c_tokens w') (te_seller e, te_mint e) v'"
    using settles_vault_inv [OF escrow_inv_vault [OF inv v] settles L'(1)] L'(3) fields(5) by simp
  show "trade_inv E (es_vaults w') (c_tokens w') rid (e\<lparr>te_state := state\<rparr>)"
    using escrow_inv_trade [OF inv e(1)] state keepsD [OF L'(1)] fields
    by (auto simp: trade_inv_def funded_def)
  show "unat (lv_pending_settlement v') + pending_of (te_seller e, te_mint e) (Some e)
      = unat (lv_pending_settlement v)
        + pending_of (te_seller e, te_mint e) (Some (e\<lparr>te_state := state\<rparr>))"
    using settles_pending [OF settles] e(2) state by (auto simp: pending_of_def funded_def)
qed (use L' fields(5) e(2) state gains_mono [OF L'(2)] in auto)

lemma release_inv:
  assumes inv: "escrow_inv E w"
    and ok: "handle_release_escrow E sv mint tp rid buyer w = Inr w'"
  shows "escrow_inv E w'"
proof -
  from ok obtain d e v fc e' v' b shares w1 where e: "es_trades w rid = Some e"
      "te_reservation_id e = rid" "te_mint e = mint" "te_state e = AwaitingFiatSettlement"
    and v: "es_vaults w (te_seller e, te_mint e) = Some v" and fc: "es_fee_config w = Some fc"
    and rel: "release_trade_escrow_funds E tp mint d e buyer v fc w = Inr (e', v', b, shares, w1)"
    and w': "es_vaults w' = (es_vaults w1)((te_seller e, te_mint e) \<mapsto> v')"
      "es_trades w' = (es_trades w1)(rid \<mapsto> e')" "es_cases w' = es_cases w1"
      "es_fee_config w' = es_fee_config w1" "c_tokens w' = c_tokens w1"
    by (auto simp: handle_release_escrow_def trade_load_defs escrow_world_simps)
  have "fee_split_ok fc" using escrow_invD(1) [OF inv] fc by (simp add: fee_config_inv_def)
  from this rel show ?thesis
  proof (rule release_effect)
    fix L'
    assume L': "w1 = w\<lparr>c_tokens := L'\<rparr>" "e' = e\<lparr>te_state := Released\<rparr>" "settles v (te_amount e) 0 v'"
      "keeps (c_tokens w) L'" "gains (c_tokens w) L' {trade_tokens_pda (te_reservation_id e)}"
      "\<And>k. k \<noteq> trade_tokens_pda (te_reservation_id e) \<Longrightarrow>
           balance L' k = balance (c_tokens w) k + paid_to (release_destinations fc buyer b shares) k"
    show ?thesis
      by (rule close_trade_inv [OF inv e(1,4) v L'(3,4), where state = Released])
         (use L' w' e(2) in auto)
  qed
qed

lemma close_reservation_inv:
  assumes inv: "escrow_inv E w" and e: "es_trades w rid = Some e"
      "te_state e = Reserved \<or> te_state e = AwaitingFiatSettlement" "te_mint e = mint"
    and v: "es_vaults w (te_seller e, te_mint e) = Some v"
    and ok: "close_reservation E tp mint d rid e v w = Inr w'"
  shows "escrow_inv E w'"
proof (cases "te_state e = AwaitingFiatSettlement")
  case True
  have rid: "te_reservation_id e = rid" using escrow_inv_trade [OF inv e(1)] by (simp add: trade_inv_def)
  from ok True obtain v' w1 where
    un: "unwind_funded_trade_escrow E tp mint d e v (liquidity_tokens_pda (te_seller e) mint) w
         = Inr (v', w1)"
    and w': "w' = put_trade rid (e\<lparr>te_state := Cancelled\<rparr>) (put_vault (te_seller e, mint) v' w1)"
    by (auto simp: close_reservation_def)
  from un obtain L' where L': "w1 = w\<lparr>c_tokens := L'\<rparr>"
      "settles v (te_amount e) (unat (te_amount e)) v'" "keeps (c_tokens w) L'"
      "gains (c_tokens w) L' {trade_tokens_pda (te_reservation_id e)}"
      "moved (c_tokens w) (trade_tokens_pda (te_reservation_id e))
         (liquidity_tokens_pda (te_seller e) mint) (te_amount e) L'"
    by (rule unwind_effect)
  show ?thesis
    by (rule close_trade_inv [OF inv e(1) True v L'(2,3), where state = Cancelled])
       (use L' w' e(3) rid moved_balance [OF L'(5), of "liquidity_tokens_pda (te_seller e) mint"]
         in \<open>auto simp: escrow_world_simps\<close>)
next
  case False
  with e(2) have reserved: "te_state e = Reserved" by simp
  from ok False obtain av where le: "te_amount e \<le> lv_reserved v"
    and av: "unat av = unat (lv_available v) + unat (te_amount e)"
    and w': "w' = put_trade rid (e\<lparr>te_state := Cancelled\<rparr>) (put_vault (te_seller e, mint)
       (v\<lparr>lv_reserved := lv_reserved v - te_amount e, lv_available := av\<rparr>) w)"
    by (auto simp: close_reservation_def release_reservation_marking_def checked_add_Some)
  have "unat (lv_reserved v - te_amount e) + unat (te_amount e) = unat (lv_reserved v)"
    using le by (simp add: unat_sub word_le_nat_alt)
  then have v': "vault_inv E (c_tokens w) (te_seller e, te_mint e)
      (v\<lparr>lv_reserved := lv_reserved v - te_amount e, lv_available := av\<rparr>)"
    using escrow_inv_vault [OF inv v] av by (auto simp: vault_inv_def)
  show ?thesis
    by (rule escrow_inv_trade_change [OF inv e(1) v refl, of w'
          "v\<lparr>lv_reserved := lv_reserved v - te_amount e, lv_available := av\<rparr>"
          "e\<lparr>te_state := Cancelled\<rparr>"])
       (use v' e(3) reserved escrow_inv_trade [OF inv e(1)] in \<open>auto simp: w' escrow_world_simps
          keeps_same gains_def trade_inv_def funded_def pending_of_def\<close>)
qed

lemma load_open_reservationE:
  assumes "load_open_reservation env w mint tp rid k = Inr x"
  obtains mi e v where "es_trades w rid = Some e" "te_mint e = mint" "\<not> te_approved e"
    "te_state e = Reserved \<or> te_state e = AwaitingFiatSettlement"
    "es_vaults w (te_seller e, te_mint e) = Some v" "k mi e v = Inr x"
  using assms by (auto simp: load_open_reservation_def trade_load_defs intro: that)

lemma cancel_inv:
  assumes inv: "escrow_inv E w" and ok: "handle_cancel_reservation E signer mint tp rid w = Inr w'"
  shows "escrow_inv E w'"
  using ok unfolding handle_cancel_reservation_def
  by (elim load_open_reservationE) (auto intro: close_reservation_inv [OF inv])

lemma expire_inv:
  assumes inv: "escrow_inv E w" and ok: "handle_expire_reservation E sv mint tp rid w = Inr w'"
  shows "escrow_inv E w'"
  using ok unfolding handle_expire_reservation_def
  by (elim load_open_reservationE) (auto intro: close_reservation_inv [OF inv])

end

end
