(* ===== verification/Escrow_Dispute_Steps.thy ===== *)
theory Escrow_Dispute_Steps
  imports Escrow_Trade_Steps
begin

text \<open>
  The dispute instructions preserve the escrow invariant. Time matters here: a decided case
  must not seat or reveal votes again, which holds because its deadlines have passed.
\<close>


section \<open>Deadlines\<close>

definition deadlines_inv :: "i64 \<Rightarrow> (u64 \<rightharpoonup> DisputeCase) \<Rightarrow> bool" where
  "deadlines_inv t D \<longleftrightarrow> (\<forall>rid d. D rid = Some d \<longrightarrow>
     dc_commit_deadline d \<le> dc_reveal_deadline d \<and> (dc_resolved d \<longrightarrow> dc_reveal_deadline d \<le> t))"

lemma deadlines_invD:
  assumes "deadlines_inv t D" and "D rid = Some d"
  shows "dc_commit_deadline d \<le> dc_reveal_deadline d" and "dc_resolved d \<Longrightarrow> dc_reveal_deadline d \<le> t"
  using assms unfolding deadlines_inv_def by blast+

lemma deadlines_inv_later: "deadlines_inv t D \<Longrightarrow> t \<le> t' \<Longrightarrow> deadlines_inv t' D"
  unfolding deadlines_inv_def by (meson order_trans)

lemma deadlines_inv_upd:
  assumes "deadlines_inv t D" and "t \<le> t'" and "dc_commit_deadline d \<le> dc_reveal_deadline d"
    and "dc_resolved d \<Longrightarrow> dc_reveal_deadline d \<le> t'"
  shows "deadlines_inv t' (D(rid \<mapsto> d))"
  using deadlines_inv_later [OF assms(1,2)] assms(3,4) by (simp add: deadlines_inv_def)


section \<open>Changing one case\<close>

lemma escrow_inv_case_change:
  assumes inv: "escrow_inv env w" and d: "es_cases w rid = Some d"
    and d': "case_inv env (es_trades w) (c_tokens w) rid d'" "pool_claim (Some d') = pool_claim (Some d)"
    and w': "es_cases w' = (es_cases w)(rid \<mapsto> d')" "es_vaults w' = es_vaults w"
      "es_trades w' = es_trades w" "es_fee_config w' = es_fee_config w" "c_tokens w' = c_tokens w"
  shows "escrow_inv env w'"
proof -
  note parts = escrow_invD [OF inv]
  have keeps: "keeps (c_tokens w) (c_tokens w)" by (simp add: keeps_same)
  have "cases_inv env (es_trades w) ((es_cases w)(rid \<mapsto> d')) (c_tokens w)"
    by (rule cases_inv_change [OF parts(5) keeps, of rid]) (use d' in auto)
  moreover have "pool_inv ((es_cases w)(rid \<mapsto> d')) (c_tokens w)"
    by (rule pool_inv_change [OF parts(6)]) (simp add: d d'(2))
  ultimately show ?thesis using parts w' by (simp add: escrow_inv_def)
qed

context token_env
begin

lemma commit_inv:
  assumes inv: "escrow_inv E w" and dl: "deadlines_inv t (es_cases w)" "t \<le> unix_timestamp sv"
    and ok: "handle_commit_dispute_vote E sv a rid c w = Inr w'"
  shows "escrow_inv E w'" and "deadlines_inv (unix_timestamp sv) (es_cases w')"
proof -
  from ok obtain d n where d: "es_cases w rid = Some d" and open_w: "unix_timestamp sv < dc_commit_deadline d"
    and new: "a \<notin> set (dc_arbitrators d)" "length (dc_arbitrators d) < MAX_ARBITRATORS"
    and n: "unat n = unat (dc_seats_taken_total d) + 1"
    and w': "w' = put_case rid (d\<lparr>dc_arbitrators := dc_arbitrators d @ [a],
        dc_commitments := dc_commitments d @ [c],
        dc_revealed_outcomes := dc_revealed_outcomes d @ [None],
        dc_weights := dc_weights d @ [0], dc_seats_taken_total := n\<rparr>) w" (is "_ = put_case rid ?d w")
    by (auto simp: handle_commit_dispute_vote_def load_case_def load_config_def load_fee_config_def
        load_arbitrator_stake_def checked_add_Some Let_def)
  note dl' = deadlines_invD [OF dl(1) d]
  have unresolved: "\<not> dc_resolved d" using dl' dl(2) open_w by linarith
  have ci: "case_inv E (es_trades w) (c_tokens w) rid d" using inv d by (rule escrow_inv_case)
  then have "case_inv E (es_trades w) (c_tokens w) rid ?d"
    using new n unresolved by (simp add: case_inv_def seats_ok_def verdict_ok_def)
  then show "escrow_inv E w'"
    by (rule escrow_inv_case_change [OF inv d]) (simp_all add: w' put_case_def pool_claim_def)
  show "deadlines_inv (unix_timestamp sv) (es_cases w')"
    unfolding w' put_case_def
    by (simp, rule deadlines_inv_upd [OF dl]) (use dl' unresolved in simp_all)
qed

lemma reveal_inv:
  assumes inv: "escrow_inv E w" and dl: "deadlines_inv t (es_cases w)" "t \<le> unix_timestamp sv"
    and ok: "handle_reveal_dispute_vote E sv a rid x salt w = Inr w'"
  shows "escrow_inv E w'" and "deadlines_inv (unix_timestamp sv) (es_cases w')"
proof -
  from ok obtain d i s where d: "es_cases w rid = Some d"
    and open_w: "unix_timestamp sv < dc_reveal_deadline d"
    and w': "w' = put_case rid (d\<lparr>dc_revealed_outcomes := (dc_revealed_outcomes d)[i := Some x],
        dc_weights := (dc_weights d)[i := s]\<rparr>) w" (is "_ = put_case rid ?d w")
    by (auto simp: handle_reveal_dispute_vote_def load_case_def load_config_def
        load_arbitrator_stake_def Let_def)
  note dl' = deadlines_invD [OF dl(1) d]
  have unresolved: "\<not> dc_resolved d" using dl' dl(2) open_w by linarith
  have ci: "case_inv E (es_trades w) (c_tokens w) rid d" using inv d by (rule escrow_inv_case)
  then have "case_inv E (es_trades w) (c_tokens w) rid ?d"
    using unresolved by (simp add: case_inv_def seats_ok_def verdict_ok_def)
  then show "escrow_inv E w'"
    by (rule escrow_inv_case_change [OF inv d]) (simp_all add: w' put_case_def pool_claim_def)
  show "deadlines_inv (unix_timestamp sv) (es_cases w')"
    unfolding w' put_case_def
    by (simp, rule deadlines_inv_upd [OF dl]) (use dl' unresolved in simp_all)
qed


section \<open>Taking deposits\<close>

text \<open>A deposit moves from the merchant's vault into the pool.\<close>

lemma take_deposit_effect:
  assumes ok: "take_deposit E tp seller mint d a v w = (Inr (v', w')
                 :: EscrowErrorCode tx_error + _ \<times> 'z escrow_chain_scheme)"
    and vi: "vault_inv E (c_tokens w) (seller, mint) v"
  obtains L' where "w' = w\<lparr>c_tokens := L'\<rparr>" and "keeps (c_tokens w) L'"
    and "gains (c_tokens w) L' {liquidity_tokens_pda seller mint}"
    and "vault_inv E L' (seller, mint) v'" and "lv_pending_settlement v' = lv_pending_settlement v"
    and "balance L' arbitration_pool_pda = balance (c_tokens w) arbitration_pool_pda + unat a"
proof (cases "a > 0")
  case True
  let ?tok = "liquidity_tokens_pda seller mint"
  from ok True obtain w1 av tot where
    tr: "(cpi_transfer E tp ?tok mint arbitration_pool_pda (liquidity_vault_pda seller mint) a d w
           :: EscrowErrorCode tx_error + _) = Inr w1"
    and subs: "unat (lv_available v) = unat a + unat av" "unat (lv_total v) = unat a + unat tot"
    and out: "v' = v\<lparr>lv_available := av, lv_total := tot\<rparr>" "w' = w1"
    by (auto simp: take_deposit_def checked_sub_Some)
  from tr obtain L' where L': "w1 = w\<lparr>c_tokens := L'\<rparr>" "keeps (c_tokens w) L'"
      "gains (c_tokens w) L' {?tok}" "moved (c_tokens w) ?tok arbitration_pool_pda a L'"
    by (rule transfer_spends)
  have bal: "balance L' ?tok + unat a = balance (c_tokens w) ?tok"
    "balance L' arbitration_pool_pda = balance (c_tokens w) arbitration_pool_pda + unat a"
    using moved_balance [OF L'(4), of ?tok] moved_balance [OF L'(4), of arbitration_pool_pda] by simp_all
  have "vault_inv E L' (seller, mint) v'"
    using vi subs bal(1) keepsD [OF L'(2)] by (auto simp: vault_inv_def out)
  with that L' bal(2) out show thesis by simp
next
  case False
  with ok have "v' = v" "w' = w" by (auto simp: take_deposit_def)
  moreover have "unat a = 0" using False by (simp add: word_gt_0)
  ultimately show thesis using that [of "c_tokens w"] vi by (simp add: keeps_same gains_def)
qed

text \<open>A case changes with its deposit vault while the trade stays as it is, or freezes.\<close>

lemma escrow_inv_deposit_change:
  assumes inv: "escrow_inv E w" and e: "es_trades w rid = Some e"
    and v: "es_vaults w (seller, mint) = Some v"
    and fields: "es_vaults w' = (es_vaults w)((seller, mint) \<mapsto> v')"
      "es_trades w' = (es_trades w)(rid \<mapsto> e')" "es_cases w' = (es_cases w)(rid \<mapsto> d')"
      "es_fee_config w' = es_fee_config w"
    and keeps: "keeps (c_tokens w) (c_tokens w')"
    and gain: "gains (c_tokens w) (c_tokens w') {liquidity_tokens_pda seller mint}"
    and v': "vault_inv E (c_tokens w') (seller, mint) v'"
      "lv_pending_settlement v' = lv_pending_settlement v"
    and e': "\<exists>state. e' = e\<lparr>te_state := state\<rparr>" "funded e' \<longleftrightarrow> funded e"
    and d': "case_inv E (es_trades w') (c_tokens w') rid d'"
    and pool: "pool_claim (Some d') + balance (c_tokens w) arbitration_pool_pda
                 \<le> pool_claim (es_cases w rid) + balance (c_tokens w') arbitration_pool_pda"
  shows "escrow_inv E w'"
proof (rule escrow_inv_change [OF inv keeps gain])
  note parts = escrow_invD [OF inv]
  from e'(1) obtain state where st: "e' = e\<lparr>te_state := state\<rparr>" by blast
  have pending: "pending_of addr (Some e') = pending_of addr (Some e)" for addr
    using st e'(2) by (simp add: pending_of_def)
  show "pending_inv (es_vaults w') (es_trades w')"
    unfolding fields
    by (rule pending_inv_change [OF parts(4)]) (use v v'(2) e pending in \<open>auto split: if_splits\<close>)
  show "cases_inv E (es_trades w') (es_cases w') (c_tokens w')"
    by (rule cases_inv_change [OF parts(5) keeps, of rid]) (use d' in \<open>auto simp: fields\<close>)
  show "pool_inv (es_cases w') (c_tokens w')"
    unfolding fields by (rule pool_inv_change [OF parts(6) pool])
  have "trade_inv E (es_vaults w') (c_tokens w') rid e'"
    using trade_inv_later [OF escrow_inv_trade [OF inv e] keeps, of "es_vaults w'"] st e'(2)
      gainsD [OF gain, of "trade_tokens_pda rid" "te_mint e" "trade_escrow_pda rid"]
      escrow_inv_trade [OF inv e]
    by (auto simp: fields trade_inv_def)
  then show "es_trades w r = Some x \<and> trade_tokens_pda r \<notin> {liquidity_tokens_pda seller mint}
      \<or> trade_inv E (es_vaults w') (c_tokens w') r x" if "es_trades w' r = Some x" for r x
    using that by (auto simp: fields(2) split: if_splits)
qed (use escrow_invD(1) [OF inv] v'(1) fields in \<open>auto split: if_splits\<close>)

text \<open>What opening a case found and did.\<close>

end

lemma record_shortfall_frame:
  "record_shortfall env rid seller mint shortfall now w = Inr w' \<Longrightarrow>
     es_vaults w' = es_vaults w \<and> es_trades w' = es_trades w \<and> es_cases w' = es_cases w
     \<and> es_fee_config w' = es_fee_config w \<and> c_tokens w' = c_tokens w"
  by (auto simp: record_shortfall_def Let_def escrow_world_simps split: if_splits)

lemma open_disputeE:
  assumes "handle_open_dispute_case env sv signer rid mint tp cw rw w = Inr w'"
  obtains e fc dec v p deposit shortfall v' w1 w2 d where
    "es_trades w rid = Some e" "signer = te_buyer e \<or> signer = te_seller e"
    "te_state e = AwaitingFiatSettlement" "es_cases w rid = None" "es_fee_config w = Some fc"
    "es_vaults w (te_seller e, mint) = Some v" "c_tokens w arbitration_pool_pda = Some p"
    "ta_mint p = mint" "\<not> banned w signer" "window_in_range cw" "window_in_range rw"
    "deposit = min (fc_dispute_filing_fee fc) (lv_available v)"
    "unat (fc_dispute_filing_fee fc) = unat deposit + unat shortfall"
    "take_deposit env tp (te_seller e) mint dec deposit v w = Inr (v', w1)"
    "record_shortfall env rid (te_seller e) mint shortfall (unix_timestamp sv)
       (emit_escrow (ArbitrationDepositTaken rid (te_seller e) signer
          (liquidity_vault_pda (te_seller e) mint) mint deposit shortfall (unix_timestamp sv))
       (put_vault (te_seller e, mint) v' w1)) = Inr w2"
    "w' = put_trade rid (e\<lparr>te_state := Frozen\<rparr>) (put_case rid d w2)"
    "dc_reservation_id d = rid" "dc_bump d = bump_of env (dispute_case_pda rid)"
    "dc_trade_escrow d = trade_escrow_pda rid"
    "dc_deposit_vault d = liquidity_vault_pda (te_seller e) mint" "dc_deposit_mint d = mint"
    "dc_deposit d = deposit" "dc_deposit_shortfall d = shortfall" "\<not> dc_resolved d"
    "\<not> dc_deposit_settled d" "dc_outcome d = None" "dc_terminal_reason d = None"
    "dc_reward_pool d = 0" "dc_reward_remaining d = 0" "dc_round d = 0"
    "dc_seats_taken_total d = 0" "dc_arbitrators d = []" "dc_commitments d = []"
    "dc_revealed_outcomes d = []" "dc_weights d = []" "dc_barred d = []"
    "dc_commit_window_secs d = cw" "dc_reveal_window_secs d = rw"
    "dc_commit_deadline d = unix_timestamp sv + cw"
    "dc_reveal_deadline d = dc_commit_deadline d + rw"
proof -
  have add: "checked_add_i64 a b = Some c \<longleftrightarrow> c = a + b \<and> in_i64 (a + b)" for a b c
    by (auto simp: checked_add_i64_def)
  show thesis
    using assms
    by (auto simp: handle_open_dispute_case_def vault_load_defs checked_sub_Some add Let_def
        intro!: that)
qed

context token_env
begin

lemma open_inv:
  assumes inv: "escrow_inv E w" and dl: "deadlines_inv t (es_cases w)" "t \<le> unix_timestamp sv"
    and ok: "handle_open_dispute_case E sv signer rid mint tp cw rw w = Inr w'"
  shows "escrow_inv E w' \<and> deadlines_inv (unix_timestamp sv) (es_cases w')"
  using ok
proof (rule open_disputeE)
  fix e fc dec v p deposit shortfall v' w1 w2 d
  assume e: "es_trades w rid = Some e" "te_state e = AwaitingFiatSettlement"
    and none: "es_cases w rid = None" and v: "es_vaults w (te_seller e, mint) = Some v"
    and p: "c_tokens w arbitration_pool_pda = Some p" "ta_mint p = mint"
    and windows: "window_in_range cw" "window_in_range rw"
    and take: "take_deposit E tp (te_seller e) mint dec deposit v w = Inr (v', w1)"
    and rec: "record_shortfall E rid (te_seller e) mint shortfall (unix_timestamp sv)
       (emit_escrow (ArbitrationDepositTaken rid (te_seller e) signer
          (liquidity_vault_pda (te_seller e) mint) mint deposit shortfall (unix_timestamp sv))
       (put_vault (te_seller e, mint) v' w1)) = Inr w2"
    and w': "w' = put_trade rid (e\<lparr>te_state := Frozen\<rparr>) (put_case rid d w2)"
    and d: "dc_reservation_id d = rid" "dc_bump d = bump_of E (dispute_case_pda rid)"
    "dc_trade_escrow d = trade_escrow_pda rid"
    "dc_deposit_vault d = liquidity_vault_pda (te_seller e) mint" "dc_deposit_mint d = mint"
    "dc_deposit d = deposit" "\<not> dc_resolved d"
    "\<not> dc_deposit_settled d" "dc_outcome d = None" "dc_terminal_reason d = None"
    "dc_reward_pool d = 0" "dc_reward_remaining d = 0" "dc_round d = 0"
    "dc_seats_taken_total d = 0" "dc_arbitrators d = []" "dc_commitments d = []"
    "dc_revealed_outcomes d = []" "dc_weights d = []" "dc_barred d = []"
    "dc_commit_window_secs d = cw" "dc_reveal_window_secs d = rw"
    "dc_commit_deadline d = unix_timestamp sv + cw"
    "dc_reveal_deadline d = dc_commit_deadline d + rw"
  have vi: "vault_inv E (c_tokens w) (te_seller e, mint) v" using inv v by (rule escrow_inv_vault)
  from take vi obtain L' where L': "w1 = w\<lparr>c_tokens := L'\<rparr>" "keeps (c_tokens w) L'"
    "gains (c_tokens w) L' {liquidity_tokens_pda (te_seller e) mint}"
    "vault_inv E L' (te_seller e, mint) v'" "lv_pending_settlement v' = lv_pending_settlement v"
    "balance L' arbitration_pool_pda = balance (c_tokens w) arbitration_pool_pda + unat deposit"
    by (rule take_deposit_effect)
  have held: "held (c_tokens w) arbitration_pool_pda mint fee_config_pda"
    using escrow_invD(7) [OF inv] p by (simp add: pool_account_inv_def)
  have fields: "es_vaults w' = (es_vaults w)((te_seller e, mint) \<mapsto> v')"
      "es_trades w' = (es_trades w)(rid \<mapsto> e\<lparr>te_state := Frozen\<rparr>)"
      "es_cases w' = (es_cases w)(rid \<mapsto> d)" "es_fee_config w' = es_fee_config w"
      "c_tokens w' = L'"
    using record_shortfall_frame [OF rec] by (simp_all add: w' L'(1) escrow_world_simps)
  have "escrow_inv E w'"
    by (rule escrow_inv_deposit_change [OF inv e(1) v fields(1-4)])
       (use L' d windows none keepsD [OF L'(2) held] in \<open>auto simp: fields case_inv_def seats_ok_def
          verdict_ok_def pool_claim_def funded_def e(2) MAX_DISPUTE_ROUNDS_def\<close>)
  moreover have "deadlines_inv (unix_timestamp sv) (es_cases w')"
    unfolding fields(3) by (rule deadlines_inv_upd [OF dl])
      (use d windows in \<open>simp_all add: window_in_range_def MIN_DISPUTE_WINDOW_SECS_def\<close>)
  ultimately show ?thesis ..
qed

end

lemma top_upE:
  assumes "handle_top_up_arbitration_deposit env sv rid mint tp w = Inr w'"
  obtains d e v v' w1 amount dep rem dec where "es_cases w rid = Some d" "\<not> dc_resolved d"
    "es_trades w rid = Some e" "es_vaults w (te_seller e, mint) = Some v"
    "amount = min (dc_deposit_shortfall d) (lv_available v)"
    "take_deposit env tp (te_seller e) mint dec amount v w = Inr (v', w1)"
    "unat dep = unat (dc_deposit d) + unat amount"
    "unat (dc_deposit_shortfall d) = unat amount + unat rem"
    "w' = emit_escrow (ArbitrationDepositToppedUp rid (te_seller e) mint amount dep rem
                 (lv_available v') (unix_timestamp sv))
          (put_case rid (d\<lparr>dc_deposit := dep, dc_deposit_shortfall := rem\<rparr>)
          (put_vault (te_seller e, mint) v' w1))"
  using assms
  by (auto simp: handle_top_up_arbitration_deposit_def vault_load_defs checked_add_Some
      checked_sub_Some Let_def intro!: that)

context token_env
begin

lemma top_up_inv:
  assumes inv: "escrow_inv E w" and dl: "deadlines_inv t (es_cases w)" "t \<le> unix_timestamp sv"
    and ok: "handle_top_up_arbitration_deposit E sv rid mint tp w = Inr w'"
  shows "escrow_inv E w' \<and> deadlines_inv (unix_timestamp sv) (es_cases w')"
proof -
  from ok obtain d e v v' w1 amount dep rem dec where d: "es_cases w rid = Some d" "\<not> dc_resolved d"
    and e: "es_trades w rid = Some e" and v: "es_vaults w (te_seller e, mint) = Some v"
    and take: "take_deposit E tp (te_seller e) mint dec amount v w = Inr (v', w1)"
    and sums: "unat dep = unat (dc_deposit d) + unat amount"
    and w': "w' = emit_escrow (ArbitrationDepositToppedUp rid (te_seller e) mint amount dep rem
                 (lv_available v') (unix_timestamp sv))
          (put_case rid (d\<lparr>dc_deposit := dep, dc_deposit_shortfall := rem\<rparr>)
          (put_vault (te_seller e, mint) v' w1))"
    by (rule top_upE) blast
  have vi: "vault_inv E (c_tokens w) (te_seller e, mint) v" using inv v by (rule escrow_inv_vault)
  from take vi obtain L' where L': "w1 = w\<lparr>c_tokens := L'\<rparr>" "keeps (c_tokens w) L'"
    "gains (c_tokens w) L' {liquidity_tokens_pda (te_seller e) mint}"
    "vault_inv E L' (te_seller e, mint) v'" "lv_pending_settlement v' = lv_pending_settlement v"
    "balance L' arbitration_pool_pda = balance (c_tokens w) arbitration_pool_pda + unat amount"
    by (rule take_deposit_effect)
  have ci: "case_inv E (es_trades w) (c_tokens w) rid d" using inv d(1) by (rule escrow_inv_case)
  have e_id: "e\<lparr>te_state := te_state e\<rparr> = e" by simp
  have fields: "es_vaults w' = (es_vaults w)((te_seller e, mint) \<mapsto> v')"
      "es_trades w' = (es_trades w)(rid \<mapsto> e)"
      "es_cases w' = (es_cases w)(rid \<mapsto> d\<lparr>dc_deposit := dep, dc_deposit_shortfall := rem\<rparr>)"
      "es_fee_config w' = es_fee_config w" "c_tokens w' = L'" "es_trades w' = es_trades w"
    using e by (auto simp: w' L'(1) escrow_world_simps)
  have "case_inv E (es_trades w') (c_tokens w') rid (d\<lparr>dc_deposit := dep, dc_deposit_shortfall := rem\<rparr>)"
    using ci d(2) keepsD [OF L'(2)] unfolding fields(5,6)
    by (simp add: case_inv_def seats_ok_def verdict_ok_def)
  moreover have "\<not> dc_deposit_settled d" using ci d(2) by (simp add: case_inv_def verdict_ok_def)
  ultimately have "escrow_inv E w'"
    by (intro escrow_inv_deposit_change [OF inv e v fields(1-4)])
       (use L' d(1) e_id sums in \<open>auto simp: fields(5) pool_claim_def intro: exI [of _ "te_state e"]\<close>)
  moreover have "deadlines_inv (unix_timestamp sv) (es_cases w')"
    unfolding fields(3)
    by (rule deadlines_inv_upd [OF dl]) (use deadlines_invD [OF dl(1) d(1)] d(2) in simp_all)
  ultimately show ?thesis ..
qed


end

section \<open>Rewards\<close>

lemma claim_rewardE:
  assumes "handle_claim_arbitration_reward env sv a rid mint to tp w = Inr w'"
  obtains d outcome i dec amount remaining w1 where "es_cases w rid = Some d" "dc_resolved d"
    "mint = dc_deposit_mint d"
    "dc_outcome d = Some outcome" "dc_reward_remaining d > 0"
    "position a (dc_arbitrators d) = Some i"
    "i < length (dc_reward_claimed d)" "\<not> dc_reward_claimed d ! i" "winning_seat d outcome i"
    "reward_share d outcome (dc_weights d ! i) = Inr amount"
    "(cpi_transfer env tp arbitration_pool_pda mint to fee_config_pda amount dec w
       :: EscrowErrorCode tx_error + _) = Inr w1"
    "unat (dc_reward_remaining d) = unat amount + unat remaining"
    "w' = emit_escrow (ArbitrationRewardClaimed rid a (dc_weights d ! i) (dc_winning_weight d) amount
                          to (unix_timestamp sv))
          (put_case rid (d\<lparr>dc_reward_claimed := (dc_reward_claimed d)[i := True],
             dc_reward_remaining := remaining\<rparr>) w1)"
  using assms
  by (auto simp: handle_claim_arbitration_reward_def vault_load_defs checked_sub_Some Let_def
      winning_seat_def list_get_def intro!: that split: option.splits if_splits)

context token_env
begin

lemma claim_reward_inv:
  assumes inv: "escrow_inv E w" and dl: "deadlines_inv t (es_cases w)" "t \<le> unix_timestamp sv"
    and ok: "handle_claim_arbitration_reward E sv a rid mint to tp w = Inr w'"
  shows "escrow_inv E w' \<and> deadlines_inv (unix_timestamp sv) (es_cases w')"
  using ok
proof (rule claim_rewardE)
  fix d outcome i dec amount remaining w1
  assume d: "es_cases w rid = Some d" "dc_resolved d" "dc_outcome d = Some outcome"
      "dc_reward_remaining d > 0"
    and seat: "i < length (dc_reward_claimed d)" "\<not> dc_reward_claimed d ! i" "winning_seat d outcome i"
    and share: "reward_share d outcome (dc_weights d ! i) = Inr amount"
    and tr: "(cpi_transfer E tp arbitration_pool_pda mint to fee_config_pda amount dec w
       :: EscrowErrorCode tx_error + _) = Inr w1"
    and rem: "unat (dc_reward_remaining d) = unat amount + unat remaining"
    and w': "w' = emit_escrow (ArbitrationRewardClaimed rid a (dc_weights d ! i) (dc_winning_weight d)
               amount to (unix_timestamp sv))
          (put_case rid (d\<lparr>dc_reward_claimed := (dc_reward_claimed d)[i := True],
             dc_reward_remaining := remaining\<rparr>) w1)"
  let ?d = "d\<lparr>dc_reward_claimed := (dc_reward_claimed d)[i := True], dc_reward_remaining := remaining\<rparr>"
  note parts = escrow_invD [OF inv]
  have ci: "case_inv E (es_trades w) (c_tokens w) rid d" using inv d(1) by (rule escrow_inv_case)
  have ok: "rewards_ok d outcome" and settled: "dc_deposit_settled d"
    using ci d by (auto simp: case_inv_def verdict_ok_def)
  have i: "i \<in> set (unpaid_seats d outcome)" using seat by simp
  from tr obtain L' where L': "w1 = w\<lparr>c_tokens := L'\<rparr>" "keeps (c_tokens w) L'"
      "gains (c_tokens w) L' {arbitration_pool_pda}" "moved (c_tokens w) arbitration_pool_pda to amount L'"
    by (rule transfer_spends)
  have ok': "rewards_ok ?d outcome"
    using reward_share_value [OF ok i] share by (intro rewards_ok_claim [OF ok i _ rem]) auto
  have "case_inv E (es_trades w) L' rid ?d"
    using ci d ok' settled keepsD [OF L'(2)] by (simp add: case_inv_def seats_ok_def verdict_ok_def)
  then have cases: "cases_inv E (es_trades w) ((es_cases w)(rid \<mapsto> ?d)) L'"
    by (intro cases_inv_change [OF parts(5) L'(2), of rid]) auto
  have "pool_claim (Some ?d) + balance (c_tokens w) arbitration_pool_pda
      \<le> pool_claim (es_cases w rid) + balance L' arbitration_pool_pda"
    using moved_from [OF L'(4)] rem settled by (simp add: pool_claim_def d(1))
  then have pool: "pool_inv ((es_cases w)(rid \<mapsto> ?d)) L'" by (rule pool_inv_change [OF parts(6)])
  have "escrow_inv E w'"
    by (rule escrow_inv_change [OF inv, of w' "{arbitration_pool_pda}"])
       (use L' cases pool parts in \<open>auto simp: w' escrow_world_simps\<close>)
  moreover have "deadlines_inv (unix_timestamp sv) (es_cases w')"
    using deadlines_inv_upd [OF dl, of ?d rid] deadlines_invD [OF dl(1) d(1)] dl(2)
    by (simp add: w' escrow_world_simps L'(1) d(2))
  ultimately show ?thesis ..
qed

end

end
