(* ===== verification/Escrow_Execute_Steps.thy ===== *)
theory Escrow_Execute_Steps
  imports Escrow_Dispute_Steps
begin

text \<open>
  Executing a dispute outcome preserves the escrow invariant: the deposit is settled out of the
  pool, the trade's tokens leave its account, and the case is decided, or a new round opens.
\<close>


section \<open>The stages of the instruction\<close>

text \<open>The pool and the deposit vault after the deposit is settled.\<close>

definition deposit_settled ::
  "env \<Rightarrow> DisputeOutcome option \<Rightarrow> 'z escrow_chain_scheme execute_ctx
   \<Rightarrow> 'z escrow_chain_scheme execute_ctx \<Rightarrow> bool" where
  "deposit_settled env outcome ctx ctx1 \<longleftrightarrow>
     (\<exists>L' refund available total settled reward.
        ctx1 = ctx\<lparr>cx_dispute_case := (cx_dispute_case ctx)\<lparr>dc_deposit_settled := settled,
                     dc_reward_pool := reward, dc_reward_remaining := reward\<rparr>,
                   cx_merchant_open_vault := (cx_merchant_open_vault ctx)\<lparr>lv_available := available,
                     lv_total := total\<rparr>,
                   cx_world := (cx_world ctx)\<lparr>c_tokens := L'\<rparr>\<rparr>
        \<and> (\<not> settled \<longrightarrow> dc_deposit (cx_dispute_case ctx) = 0 \<and> reward = 0)
        \<and> (outcome \<noteq> Some BuyerWins \<longrightarrow> reward = 0)
        \<and> unat available = unat (lv_available (cx_merchant_open_vault ctx)) + refund
        \<and> unat total = unat (lv_total (cx_merchant_open_vault ctx)) + refund
        \<and> keeps (c_tokens (cx_world ctx)) L'
        \<and> gains (c_tokens (cx_world ctx)) L' {arbitration_pool_pda}
        \<and> (let k = liquidity_tokens_pda (lv_merchant (cx_merchant_open_vault ctx)) (cx_deposit_mint ctx)
           in balance L' k = balance (c_tokens (cx_world ctx)) k + refund)
        \<and> pool_claim (Some (cx_dispute_case ctx1)) + balance (c_tokens (cx_world ctx)) arbitration_pool_pda
           \<le> pool_claim (Some (cx_dispute_case ctx)) + balance L' arbitration_pool_pda)"

text \<open>The trade's tokens have left its account, and the vault's pending settlement with them.\<close>

definition trade_settled ::
  "'z escrow_chain_scheme execute_ctx \<Rightarrow> 'z escrow_chain_scheme execute_ctx \<Rightarrow> bool" where
  "trade_settled ctx ctx1 \<longleftrightarrow>
     (\<exists>w' v' state returned.
        ctx1 = ctx\<lparr>cx_trade_escrow := (cx_trade_escrow ctx)\<lparr>te_state := state\<rparr>,
                   cx_liquidity_vault := v', cx_world := w'\<rparr>
        \<and> es_vaults w' = es_vaults (cx_world ctx) \<and> es_trades w' = es_trades (cx_world ctx)
        \<and> es_cases w' = es_cases (cx_world ctx) \<and> es_fee_config w' = es_fee_config (cx_world ctx)
        \<and> (state = Released \<or> state = Cancelled)
        \<and> settles (cx_liquidity_vault ctx) (te_amount (cx_trade_escrow ctx)) returned v'
        \<and> keeps (c_tokens (cx_world ctx)) (c_tokens w')
        \<and> gains (c_tokens (cx_world ctx)) (c_tokens w')
            {trade_tokens_pda (te_reservation_id (cx_trade_escrow ctx))}
        \<and> (let k = liquidity_tokens_pda (te_seller (cx_trade_escrow ctx)) (cx_mint ctx)
           in balance (c_tokens (cx_world ctx)) k + returned \<le> balance (c_tokens w') k))"

text \<open>The accounts the instruction loads, seen through the invariant.\<close>

definition loaded ::
  "env \<Rightarrow> ExecuteDisputeOutcome \<Rightarrow> 'z escrow_chain_scheme \<Rightarrow> 'z escrow_chain_scheme execute_ctx \<Rightarrow> bool"
  where
  "loaded env a w ctx \<longleftrightarrow>
     cx_world ctx = w \<and> ex_trade_escrow a = ex_dispute_case a
     \<and> es_cases w (ex_dispute_case a) = Some (cx_dispute_case ctx)
     \<and> \<not> dc_resolved (cx_dispute_case ctx)
     \<and> es_trades w (ex_dispute_case a) = Some (cx_trade_escrow ctx)
     \<and> te_state (cx_trade_escrow ctx) = Frozen
     \<and> te_reservation_id (cx_trade_escrow ctx) = ex_dispute_case a
     \<and> cx_mint ctx = te_mint (cx_trade_escrow ctx)
     \<and> es_vaults w (te_seller (cx_trade_escrow ctx), cx_mint ctx) = Some (cx_liquidity_vault ctx)
     \<and> es_fee_config w = Some (cx_fee_config ctx)
     \<and> cx_deposit_mint ctx = dc_deposit_mint (cx_dispute_case ctx)
     \<and> ex_merchant_open_vault a = (te_seller (cx_trade_escrow ctx), cx_deposit_mint ctx)
     \<and> es_vaults w (te_seller (cx_trade_escrow ctx), cx_deposit_mint ctx)
         = Some (cx_merchant_open_vault ctx)
     \<and> cx_deposit_mint ctx \<noteq> cx_mint ctx"

lemma loaded_world: "loaded env a w ctx \<Longrightarrow> cx_world ctx = w"
  by (simp add: loaded_def)

text \<open>What executing a round establishes: the invariant, and deadlines that are past for a decided
  case and in order for a reopened one.\<close>

definition round_result ::
  "env \<Rightarrow> ExecuteDisputeOutcome \<Rightarrow> 'z escrow_chain_scheme \<Rightarrow> 'z escrow_chain_scheme execute_ctx
   \<Rightarrow> 'z escrow_chain_scheme execute_ctx \<Rightarrow> bool" where
  "round_result env a w ctx ctx3 \<longleftrightarrow>
     escrow_inv env (store_execute_ctx a ctx3) \<and> es_cases (cx_world ctx3) = es_cases w
     \<and> (if dc_resolved (cx_dispute_case ctx3)
        then dc_commit_deadline (cx_dispute_case ctx3) = dc_commit_deadline (cx_dispute_case ctx)
             \<and> dc_reveal_deadline (cx_dispute_case ctx3) = dc_reveal_deadline (cx_dispute_case ctx)
        else dc_commit_deadline (cx_dispute_case ctx3) \<le> dc_reveal_deadline (cx_dispute_case ctx3))"

context token_env
begin

lemma settle_deposit_settled:
  assumes ok: "settle_deposit E outcome ctx = Inr (rp, rf, ctx1)"
    and d: "\<not> dc_deposit_settled (cx_dispute_case ctx)" "dc_reward_pool (cx_dispute_case ctx) = 0"
      "dc_reward_remaining (cx_dispute_case ctx) = 0"
  shows "deposit_settled E outcome ctx ctx1"
proof -
  let ?d = "cx_dispute_case ctx" and ?ov = "cx_merchant_open_vault ctx" and ?w = "cx_world ctx"
  let ?k = "liquidity_tokens_pda (lv_merchant ?ov) (cx_deposit_mint ctx)"
  have same: "keeps (c_tokens ?w) (c_tokens ?w)" "gains (c_tokens ?w) (c_tokens ?w) X" for X
    by (simp_all add: keeps_same gains_def)
  consider (zero) "dc_deposit ?d = 0" | (forfeit) "dc_deposit ?d \<noteq> 0" "outcome = Some BuyerWins"
    | (refund) "dc_deposit ?d \<noteq> 0" "outcome \<noteq> Some BuyerWins" by blast
  then show ?thesis
  proof cases
    case zero
    with ok have "ctx1 = ctx" by (simp add: settle_deposit_def)
    with zero d same show ?thesis
      unfolding deposit_settled_def
      by (intro exI [of _ "c_tokens ?w"] exI [of _ 0] exI [of _ "lv_available ?ov"]
          exI [of _ "lv_total ?ov"] exI [of _ False] exI [of _ "0 :: u64"]) (simp add: Let_def)
  next
    case forfeit
    with ok d have "ctx1 = ctx\<lparr>cx_dispute_case := ?d\<lparr>dc_deposit_settled := True,
        dc_reward_pool := dc_deposit ?d, dc_reward_remaining := dc_deposit ?d\<rparr>\<rparr>"
      by (auto simp: settle_deposit_def Let_def)
    with forfeit d same show ?thesis
      unfolding deposit_settled_def
      by (intro exI [of _ "c_tokens ?w"] exI [of _ 0] exI [of _ "lv_available ?ov"]
          exI [of _ "lv_total ?ov"] exI [of _ True] exI [of _ "dc_deposit ?d"])
         (simp add: Let_def pool_claim_def)
  next
    case refund
    with ok d obtain w1 av tot dec where
      tr: "(cpi_transfer E (cx_deposit_token_program ctx) arbitration_pool_pda (cx_deposit_mint ctx)
             ?k fee_config_pda (dc_deposit ?d) dec ?w :: EscrowErrorCode tx_error + _) = Inr w1"
      and sums: "unat av = unat (lv_available ?ov) + unat (dc_deposit ?d)"
        "unat tot = unat (lv_total ?ov) + unat (dc_deposit ?d)"
      and out: "ctx1 = ctx\<lparr>cx_dispute_case := ?d\<lparr>dc_deposit_settled := True\<rparr>,
          cx_merchant_open_vault := ?ov\<lparr>lv_available := av, lv_total := tot\<rparr>, cx_world := w1\<rparr>"
      by (auto simp: settle_deposit_def Let_def checked_add_Some)
    from tr obtain L' where L': "w1 = ?w\<lparr>c_tokens := L'\<rparr>" "keeps (c_tokens ?w) L'"
        "gains (c_tokens ?w) L' {arbitration_pool_pda}"
        "moved (c_tokens ?w) arbitration_pool_pda ?k (dc_deposit ?d) L'"
      by (rule transfer_spends)
    have "balance L' ?k = balance (c_tokens ?w) ?k + unat (dc_deposit ?d)"
      "balance L' arbitration_pool_pda + unat (dc_deposit ?d) = balance (c_tokens ?w) arbitration_pool_pda"
      using moved_balance [OF L'(4), of ?k] moved_balance [OF L'(4), of arbitration_pool_pda] by simp_all
    then show ?thesis
      unfolding deposit_settled_def
      using refund d sums L'(2,3) out L'(1)
      by (intro exI [of _ L'] exI [of _ "unat (dc_deposit ?d)"] exI [of _ av]
          exI [of _ tot] exI [of _ True] exI [of _ "0 :: u64"]) (simp add: Let_def pool_claim_def)
  qed
qed

lemma ctx_split_settled:
  assumes ok: "ctx_split E ctx = Inr ctx1"
  shows "trade_settled ctx ctx1"
proof -
  from ok obtain e v w where
    sp: "split_trade_escrow_evenly E (cx_token_program ctx) (cx_mint ctx) (cx_decimals ctx)
           (cx_trade_escrow ctx) (cx_buyer_token_account ctx) (cx_liquidity_vault ctx)
           (liquidity_tokens_pda (te_seller (cx_trade_escrow ctx)) (cx_mint ctx)) (cx_world ctx)
         = Inr (e, v, w)"
    and out: "ctx1 = ctx\<lparr>cx_trade_escrow := e, cx_liquidity_vault := v, cx_world := w\<rparr>"
    by (auto simp: ctx_split_def)
  from sp show ?thesis
  proof (rule split_effect)
    fix L' and s :: u64
    assume "w = cx_world ctx\<lparr>c_tokens := L'\<rparr>" "e = cx_trade_escrow ctx\<lparr>te_state := Released\<rparr>"
      "settles (cx_liquidity_vault ctx) (te_amount (cx_trade_escrow ctx)) (unat s) v"
      "keeps (c_tokens (cx_world ctx)) L'"
      "gains (c_tokens (cx_world ctx)) L' {trade_tokens_pda (te_reservation_id (cx_trade_escrow ctx))}"
      "balance (c_tokens (cx_world ctx))
         (liquidity_tokens_pda (te_seller (cx_trade_escrow ctx)) (cx_mint ctx)) + unat s
       \<le> balance L' (liquidity_tokens_pda (te_seller (cx_trade_escrow ctx)) (cx_mint ctx))"
    then show ?thesis
      unfolding trade_settled_def
      by (intro exI [of _ w] exI [of _ v] exI [of _ Released] exI [of _ "unat s"])
         (simp add: out Let_def)
  qed simp
qed

lemma ctx_unwind_settled:
  assumes ok: "ctx_unwind E ctx = Inr ctx1"
  shows "trade_settled ctx ctx1"
proof -
  let ?k = "liquidity_tokens_pda (te_seller (cx_trade_escrow ctx)) (cx_mint ctx)"
  from ok obtain v w where
    un: "unwind_funded_trade_escrow E (cx_token_program ctx) (cx_mint ctx) (cx_decimals ctx)
           (cx_trade_escrow ctx) (cx_liquidity_vault ctx) ?k (cx_world ctx) = Inr (v, w)"
    and out: "ctx1 = ctx\<lparr>cx_trade_escrow := (cx_trade_escrow ctx)\<lparr>te_state := Cancelled\<rparr>,
                cx_liquidity_vault := v, cx_world := w\<rparr>"
    by (auto simp: ctx_unwind_def)
  from un show ?thesis
  proof (rule unwind_effect)
    fix L'
    assume L': "w = cx_world ctx\<lparr>c_tokens := L'\<rparr>"
      "settles (cx_liquidity_vault ctx) (te_amount (cx_trade_escrow ctx))
         (unat (te_amount (cx_trade_escrow ctx))) v"
      "keeps (c_tokens (cx_world ctx)) L'"
      "gains (c_tokens (cx_world ctx)) L' {trade_tokens_pda (te_reservation_id (cx_trade_escrow ctx))}"
      "moved (c_tokens (cx_world ctx)) (trade_tokens_pda (te_reservation_id (cx_trade_escrow ctx))) ?k
         (te_amount (cx_trade_escrow ctx)) L'"
    then show ?thesis
      unfolding trade_settled_def
      using moved_balance [OF L'(5), of ?k]
      by (intro exI [of _ w] exI [of _ v] exI [of _ Cancelled]
          exI [of _ "unat (te_amount (cx_trade_escrow ctx))"]) (simp add: out Let_def)
  qed
qed

lemma ctx_release_settled:
  assumes ok: "ctx_release E now ctx = Inr ctx1" and fc: "fee_split_ok (cx_fee_config ctx)"
  shows "trade_settled ctx ctx1"
proof -
  let ?k = "liquidity_tokens_pda (te_seller (cx_trade_escrow ctx)) (cx_mint ctx)"
  from ok obtain e v b shares w w2 where
    rel: "release_trade_escrow_funds E (cx_token_program ctx) (cx_mint ctx) (cx_decimals ctx)
            (cx_trade_escrow ctx) (cx_buyer_token_account ctx) (cx_liquidity_vault ctx)
            (cx_fee_config ctx) (cx_world ctx) = Inr (e, v, b, shares, w)"
    and out: "ctx1 = ctx\<lparr>cx_trade_escrow := e, cx_liquidity_vault := v, cx_world := w2\<rparr>"
    and w2: "es_vaults w2 = es_vaults w" "es_trades w2 = es_trades w" "es_cases w2 = es_cases w"
      "es_fee_config w2 = es_fee_config w" "c_tokens w2 = c_tokens w"
    by (auto simp: ctx_release_def emit_escrow_def)
  from fc rel show ?thesis
  proof (rule release_effect)
    fix L'
    assume L': "w = cx_world ctx\<lparr>c_tokens := L'\<rparr>" "e = cx_trade_escrow ctx\<lparr>te_state := Released\<rparr>"
      "settles (cx_liquidity_vault ctx) (te_amount (cx_trade_escrow ctx)) 0 v"
      "keeps (c_tokens (cx_world ctx)) L'"
      "gains (c_tokens (cx_world ctx)) L' {trade_tokens_pda (te_reservation_id (cx_trade_escrow ctx))}"
      "\<And>k. k \<noteq> trade_tokens_pda (te_reservation_id (cx_trade_escrow ctx)) \<Longrightarrow>
         balance L' k = balance (c_tokens (cx_world ctx)) k
           + paid_to (release_destinations (cx_fee_config ctx) (cx_buyer_token_account ctx) b shares) k"
    then show ?thesis
      unfolding trade_settled_def
      by (intro exI [of _ w2] exI [of _ v] exI [of _ Released] exI [of _ 0])
         (simp add: out w2 Let_def)
  qed
qed

lemma apply_outcome_settled:
  assumes "apply_outcome E now outcome ctx = Inr ctx1" and "fee_split_ok (cx_fee_config ctx)"
  shows "trade_settled ctx ctx1"
  using assms
  by (cases outcome) (auto simp: apply_outcome_def intro: ctx_split_settled ctx_unwind_settled
      ctx_release_settled)


section \<open>A decided case\<close>

lemma load_execute_loaded:
  assumes inv: "escrow_inv E w" and ok: "load_execute_ctx E a w = Inr ctx"
  shows "loaded E a w ctx"
proof -
  from ok have *: "cx_world ctx = w"
    "es_cases w (ex_dispute_case a) = Some (cx_dispute_case ctx)"
    "\<not> dc_resolved (cx_dispute_case ctx)"
    "trade_escrow_pda (ex_trade_escrow a) = dc_trade_escrow (cx_dispute_case ctx)"
    "es_trades w (ex_trade_escrow a) = Some (cx_trade_escrow ctx)"
    "te_state (cx_trade_escrow ctx) = Frozen" "cx_mint ctx = te_mint (cx_trade_escrow ctx)"
    "es_vaults w (te_seller (cx_trade_escrow ctx), cx_mint ctx) = Some (cx_liquidity_vault ctx)"
    "es_fee_config w = Some (cx_fee_config ctx)"
    "cx_deposit_mint ctx = dc_deposit_mint (cx_dispute_case ctx)"
    "es_vaults w (ex_merchant_open_vault a) = Some (cx_merchant_open_vault ctx)"
    "liquidity_vault_pda (fst (ex_merchant_open_vault a)) (snd (ex_merchant_open_vault a))
      = dc_deposit_vault (cx_dispute_case ctx)"
    "dc_deposit_vault (cx_dispute_case ctx)
      \<noteq> liquidity_vault_pda (te_seller (cx_trade_escrow ctx)) (cx_mint ctx)"
    by (auto simp: load_execute_ctx_def trade_load_defs Let_def)
  note ci = escrow_inv_case [OF inv *(2)]
  have rid: "ex_trade_escrow a = ex_dispute_case a" using ci *(4) by (simp add: case_inv_def)
  have open_vault: "dc_deposit_vault (cx_dispute_case ctx)
      = liquidity_vault_pda (te_seller (cx_trade_escrow ctx)) (cx_deposit_mint ctx)"
    using ci *(5,10) rid by (auto simp: case_inv_def)
  then have "ex_merchant_open_vault a = (te_seller (cx_trade_escrow ctx), cx_deposit_mint ctx)"
    using *(12) by (simp add: prod_eq_iff)
  with * rid open_vault escrow_inv_trade [OF inv *(5)] show ?thesis
    by (simp add: loaded_def trade_inv_def)
qed

text \<open>Storing a decided case: the trade is closed, both vaults are settled.\<close>

lemma store_decided_inv:
  assumes inv: "escrow_inv E w" and l: "loaded E a w ctx"
    and d0: "pool_claim (Some (cx_dispute_case ctx0)) = pool_claim (Some (cx_dispute_case ctx))"
      "\<exists>d. ctx0 = ctx\<lparr>cx_dispute_case := d\<rparr>"
    and dep: "deposit_settled E outcome ctx0 ctx1" and tr: "trade_settled ctx1 ctx2"
    and ctx3: "ctx3 = ctx2\<lparr>cx_dispute_case := d3, cx_world := w3\<rparr>"
      "es_vaults w3 = es_vaults (cx_world ctx2)" "es_trades w3 = es_trades (cx_world ctx2)"
      "es_cases w3 = es_cases (cx_world ctx2)" "es_fee_config w3 = es_fee_config (cx_world ctx2)"
      "c_tokens w3 = c_tokens (cx_world ctx2)"
    and d3: "pool_claim (Some d3) = pool_claim (Some (cx_dispute_case ctx1))"
      "dc_reservation_id d3 = dc_reservation_id (cx_dispute_case ctx)"
      "dc_bump d3 = dc_bump (cx_dispute_case ctx)"
      "dc_trade_escrow d3 = dc_trade_escrow (cx_dispute_case ctx)"
      "dc_deposit_vault d3 = dc_deposit_vault (cx_dispute_case ctx)"
      "dc_deposit_mint d3 = dc_deposit_mint (cx_dispute_case ctx)"
      "dc_resolved d3" "seats_ok d3" "verdict_ok d3"
  shows "escrow_inv E (store_execute_ctx a ctx3)"
proof -
  define rid e v ov where "rid = ex_dispute_case a" and "e = cx_trade_escrow ctx"
    and "v = cx_liquidity_vault ctx" and "ov = cx_merchant_open_vault ctx"
  define sm om L where "sm = (te_seller e, cx_mint ctx)" and "om = (te_seller e, cx_deposit_mint ctx)"
    and "L = c_tokens w"
  note defs = rid_def e_def v_def ov_def sm_def om_def L_def
  from l have acc: "es_cases w rid = Some (cx_dispute_case ctx)" "es_trades w rid = Some e"
    "te_state e = Frozen" "te_reservation_id e = rid" "cx_mint ctx = te_mint e"
    "es_vaults w sm = Some v" "es_vaults w om = Some ov" "sm \<noteq> om" "cx_world ctx = w"
    "ex_trade_escrow a = rid" "ex_merchant_open_vault a = om"
    by (auto simp: loaded_def defs)
  from d0(2) obtain d where ctx0: "ctx0 = ctx\<lparr>cx_dispute_case := d\<rparr>" by blast
  have vi: "vault_inv E L sm v" "vault_inv E L om ov"
    using escrow_inv_vault [OF inv] acc unfolding L_def by blast+
  have ov_key: "lv_merchant ov = te_seller e" "lv_mint ov = cx_deposit_mint ctx"
    using vi(2) by (simp_all add: vault_inv_def om_def)
  from dep obtain L1 refund av tot st rw where
    D: "ctx1 = ctx0\<lparr>cx_dispute_case := (cx_dispute_case ctx0)\<lparr>dc_deposit_settled := st,
               dc_reward_pool := rw, dc_reward_remaining := rw\<rparr>,
             cx_merchant_open_vault := (cx_merchant_open_vault ctx0)\<lparr>lv_available := av, lv_total := tot\<rparr>,
             cx_world := (cx_world ctx0)\<lparr>c_tokens := L1\<rparr>\<rparr>"
      "unat av = unat (lv_available (cx_merchant_open_vault ctx0)) + refund"
      "unat tot = unat (lv_total (cx_merchant_open_vault ctx0)) + refund"
      "keeps (c_tokens (cx_world ctx0)) L1"
      "gains (c_tokens (cx_world ctx0)) L1 {arbitration_pool_pda}"
      "balance L1 (liquidity_tokens_pda (lv_merchant (cx_merchant_open_vault ctx0)) (cx_deposit_mint ctx0))
        = balance (c_tokens (cx_world ctx0))
            (liquidity_tokens_pda (lv_merchant (cx_merchant_open_vault ctx0)) (cx_deposit_mint ctx0)) + refund"
      "pool_claim (Some (cx_dispute_case ctx1)) + balance (c_tokens (cx_world ctx0)) arbitration_pool_pda
        \<le> pool_claim (Some (cx_dispute_case ctx0)) + balance L1 arbitration_pool_pda"
    unfolding deposit_settled_def Let_def by blast
  have ctx0_fields: "cx_world ctx0 = w" "cx_merchant_open_vault ctx0 = ov"
      "cx_deposit_mint ctx0 = cx_deposit_mint ctx" "cx_trade_escrow ctx0 = e"
      "cx_liquidity_vault ctx0 = v" "cx_mint ctx0 = cx_mint ctx"
    by (simp_all add: ctx0 acc(9) defs)
  note refund = D(2,3,6) [unfolded ctx0_fields ov_key, folded L_def]
    and L1 = D(4,5,7) [unfolded ctx0_fields, folded L_def]
  have ctx1_fields: "cx_world ctx1 = w\<lparr>c_tokens := L1\<rparr>" "cx_trade_escrow ctx1 = e"
      "cx_liquidity_vault ctx1 = v" "cx_mint ctx1 = cx_mint ctx"
      "cx_merchant_open_vault ctx1 = ov\<lparr>lv_available := av, lv_total := tot\<rparr>"
    by (simp_all add: D(1) ctx0_fields)
  from tr obtain w2 v2 state ret where
    S: "ctx2 = ctx1\<lparr>cx_trade_escrow := (cx_trade_escrow ctx1)\<lparr>te_state := state\<rparr>,
               cx_liquidity_vault := v2, cx_world := w2\<rparr>"
      "es_vaults w2 = es_vaults (cx_world ctx1)" "es_trades w2 = es_trades (cx_world ctx1)"
      "es_cases w2 = es_cases (cx_world ctx1)" "es_fee_config w2 = es_fee_config (cx_world ctx1)"
      "state = Released \<or> state = Cancelled"
      "settles (cx_liquidity_vault ctx1) (te_amount (cx_trade_escrow ctx1)) ret v2"
      "keeps (c_tokens (cx_world ctx1)) (c_tokens w2)"
      "gains (c_tokens (cx_world ctx1)) (c_tokens w2)
         {trade_tokens_pda (te_reservation_id (cx_trade_escrow ctx1))}"
      "balance (c_tokens (cx_world ctx1))
         (liquidity_tokens_pda (te_seller (cx_trade_escrow ctx1)) (cx_mint ctx1)) + ret
       \<le> balance (c_tokens w2) (liquidity_tokens_pda (te_seller (cx_trade_escrow ctx1)) (cx_mint ctx1))"
    unfolding trade_settled_def Let_def by blast
  have w2: "es_vaults w2 = es_vaults w" "es_trades w2 = es_trades w" "es_cases w2 = es_cases w"
      "es_fee_config w2 = es_fee_config w"
    using S(2-5) by (simp_all add: ctx1_fields)
  note state = S(6) and settles = S(7) [unfolded ctx1_fields]
  have L2: "keeps L1 (c_tokens w2)" "gains L1 (c_tokens w2) {trade_tokens_pda rid}"
      "balance L1 (liquidity_tokens_pda (te_seller e) (cx_mint ctx)) + ret
        \<le> balance (c_tokens w2) (liquidity_tokens_pda (te_seller e) (cx_mint ctx))"
    using S(8-10) acc(4) by (simp_all add: ctx1_fields)
  define ov' where "ov' = ov\<lparr>lv_available := av, lv_total := tot\<rparr>"
  let ?w = "store_execute_ctx a ctx3"
  have fields: "es_cases ?w = (es_cases w)(rid \<mapsto> d3)"
      "es_trades ?w = (es_trades w)(rid \<mapsto> e\<lparr>te_state := state\<rparr>)"
      "es_vaults ?w = (es_vaults w)(sm \<mapsto> v2, om \<mapsto> ov')" "es_fee_config ?w = es_fee_config w"
      "c_tokens ?w = c_tokens w2"
    using ctx3 acc(10,11) w2
    by (simp_all add: store_execute_ctx_def escrow_world_simps S(1) ctx1_fields ov'_def sm_def
        flip: rid_def)
  have keeps: "keeps L (c_tokens w2)" using L1(1) L2(1) by (rule keeps_trans)
  have gain: "gains L (c_tokens w2) {arbitration_pool_pda, trade_tokens_pda rid}"
    using gains_trans [OF L1(1,2) L2(2)] by (simp add: insert_commute)
  have sm_tok: "balance L (liquidity_tokens_pda (fst sm) (snd sm)) + ret
      \<le> balance (c_tokens w2) (liquidity_tokens_pda (fst sm) (snd sm))"
  proof -
    have "held L (liquidity_tokens_pda (te_seller e) (cx_mint ctx)) (cx_mint ctx)
        (liquidity_vault_pda (te_seller e) (cx_mint ctx))"
      using vi(1) by (simp add: vault_inv_def sm_def)
    then have "balance L (liquidity_tokens_pda (te_seller e) (cx_mint ctx))
        \<le> balance L1 (liquidity_tokens_pda (te_seller e) (cx_mint ctx))"
      by (rule gainsD [OF L1(2)]) simp_all
    with L2(3) show ?thesis by (simp add: sm_def)
  qed
  have v2: "vault_inv E (c_tokens w2) sm v2"
    using vi(1) settles keeps sm_tok by (rule settles_vault_inv)
  have held_om: "held L1 (liquidity_tokens_pda (te_seller e) (cx_deposit_mint ctx)) (cx_deposit_mint ctx)
      (liquidity_vault_pda (te_seller e) (cx_deposit_mint ctx))"
    using vi(2) keepsD [OF L1(1)] ov_key by (simp add: vault_inv_def)
  then have "balance L1 (liquidity_tokens_pda (te_seller e) (cx_deposit_mint ctx))
      \<le> balance (c_tokens w2) (liquidity_tokens_pda (te_seller e) (cx_deposit_mint ctx))"
    by (rule gainsD [OF L2(2)]) simp_all
  then have ov': "vault_inv E (c_tokens w2) om ov'"
    using vi(2) refund keepsD [OF L2(1) held_om] ov_key by (simp add: vault_inv_def ov'_def)
  have e': "trade_inv E (es_vaults ?w) (c_tokens w2) rid (e\<lparr>te_state := state\<rparr>)"
    using escrow_inv_trade [OF inv acc(2)] state keepsD [OF keeps [unfolded L_def]]
    unfolding fields by (auto simp: trade_inv_def funded_def)
  have pending: "pending_inv (es_vaults ?w) (es_trades ?w)"
  proof -
    have "pending_inv ((es_vaults w)(sm \<mapsto> v2)) ((es_trades w)(rid \<mapsto> e\<lparr>te_state := state\<rparr>))"
      by (rule trade_pending_change [OF escrow_invD(4) [OF inv] acc(2,6)])
         (use settles_pending [OF settles] state acc(3,5) in
           \<open>auto simp: sm_def pending_of_def funded_def\<close>)
    then show ?thesis
      unfolding fields
      by (rule pending_inv_vaults) (use acc(7,8) in \<open>auto simp: ov'_def split: if_splits\<close>)
  qed
  have d': "case_inv E (es_trades ?w) (c_tokens w2) rid d3"
    using escrow_inv_case [OF inv acc(1)] d3 state acc(2) keepsD [OF keeps [unfolded L_def]]
    unfolding fields by (auto simp: case_inv_def)
  have cases: "cases_inv E (es_trades ?w) (es_cases ?w) (c_tokens w2)"
    by (rule cases_inv_change [OF escrow_invD(5) [OF inv] keeps [unfolded L_def], of rid])
       (use d' state in \<open>auto simp: fields\<close>)
  have pool: "pool_inv (es_cases ?w) (c_tokens w2)"
  proof -
    have held: "held L arbitration_pool_pda (dc_deposit_mint (cx_dispute_case ctx)) fee_config_pda"
      using escrow_inv_case [OF inv acc(1)] by (simp add: case_inv_def L_def)
    have "balance L1 arbitration_pool_pda \<le> balance (c_tokens w2) arbitration_pool_pda"
      by (rule gainsD [OF L2(2) keepsD [OF L1(1) held]]) simp_all
    then have "pool_claim (Some d3) + balance L arbitration_pool_pda
        \<le> pool_claim (es_cases w rid) + balance (c_tokens w2) arbitration_pool_pda"
      using L1(3) d0(1) d3(1) acc(1) by simp
    then show ?thesis
      unfolding fields by (rule pool_inv_change [OF escrow_invD(6) [OF inv], folded L_def])
  qed
  show ?thesis
  proof (rule escrow_inv_change [OF inv, of ?w "{arbitration_pool_pda, trade_tokens_pda rid}"])
    fix addr x assume "es_vaults ?w addr = Some x"
    then show "es_vaults w addr = Some x \<and> liquidity_tokens_pda (fst addr) (snd addr)
          \<notin> {arbitration_pool_pda, trade_tokens_pda rid}
        \<or> vault_inv E (c_tokens ?w) addr x"
      using v2 ov' unfolding fields by (auto split: if_splits)
  next
    fix r x assume "es_trades ?w r = Some x"
    then show "es_trades w r = Some x \<and> trade_tokens_pda r \<notin> {arbitration_pool_pda, trade_tokens_pda rid}
        \<or> trade_inv E (es_vaults ?w) (c_tokens ?w) r x"
      using e' unfolding fields(2,5) by (auto split: if_splits)
  qed (use keeps gain pending cases pool escrow_invD(1) [OF inv] in
       \<open>auto simp: fields(3-5) L_def\<close>)
qed


section \<open>The instruction\<close>

lemma bar_silent_seats_simps [simp]:
  "dc_deposit (bar_silent_seats d) = dc_deposit d" "dc_resolved (bar_silent_seats d) = dc_resolved d"
  "dc_deposit_settled (bar_silent_seats d) = dc_deposit_settled d"
  "dc_reward_pool (bar_silent_seats d) = dc_reward_pool d"
  "dc_reward_remaining (bar_silent_seats d) = dc_reward_remaining d"
  "dc_reservation_id (bar_silent_seats d) = dc_reservation_id d"
  "dc_bump (bar_silent_seats d) = dc_bump d" "dc_trade_escrow (bar_silent_seats d) = dc_trade_escrow d"
  "dc_deposit_vault (bar_silent_seats d) = dc_deposit_vault d"
  "dc_deposit_mint (bar_silent_seats d) = dc_deposit_mint d"
  "dc_outcome (bar_silent_seats d) = dc_outcome d" "dc_round (bar_silent_seats d) = dc_round d"
  "dc_terminal_reason (bar_silent_seats d) = dc_terminal_reason d"
  "dc_arbitrators (bar_silent_seats d) = dc_arbitrators d"
  "dc_commitments (bar_silent_seats d) = dc_commitments d"
  "dc_revealed_outcomes (bar_silent_seats d) = dc_revealed_outcomes d"
  "dc_weights (bar_silent_seats d) = dc_weights d"
  "dc_seats_taken_total (bar_silent_seats d) = dc_seats_taken_total d"
  "dc_commit_window_secs (bar_silent_seats d) = dc_commit_window_secs d"
  "dc_reveal_window_secs (bar_silent_seats d) = dc_reveal_window_secs d"
  "dc_commit_deadline (bar_silent_seats d) = dc_commit_deadline d"
  "dc_reveal_deadline (bar_silent_seats d) = dc_reveal_deadline d"
  by (simp_all add: bar_silent_seats_def)

lemma bar_silent_seats_ok: "seats_ok d \<Longrightarrow> seats_ok (bar_silent_seats d)"
  using bar_silent_seats_wf [of d] bar_silent_seats_distinct [of d] by (simp add: seats_ok_def)

text \<open>What is left unchanged when a stage runs: the votes and the identity of the case.\<close>

lemma deposit_settled_case:
  assumes "deposit_settled env outcome ctx ctx1"
  obtains st rw where "cx_dispute_case ctx1 = (cx_dispute_case ctx)\<lparr>dc_deposit_settled := st,
      dc_reward_pool := rw, dc_reward_remaining := rw\<rparr>"
    and "\<not> st \<Longrightarrow> dc_deposit (cx_dispute_case ctx) = 0 \<and> rw = 0"
    and "outcome \<noteq> Some BuyerWins \<Longrightarrow> rw = 0" and "cx_fee_config ctx1 = cx_fee_config ctx"
proof -
  from assms obtain L' av tot st rw where
    "ctx1 = ctx\<lparr>cx_dispute_case := (cx_dispute_case ctx)\<lparr>dc_deposit_settled := st,
         dc_reward_pool := rw, dc_reward_remaining := rw\<rparr>,
       cx_merchant_open_vault := (cx_merchant_open_vault ctx)\<lparr>lv_available := av, lv_total := tot\<rparr>,
       cx_world := (cx_world ctx)\<lparr>c_tokens := L'\<rparr>\<rparr>"
    "\<not> st \<longrightarrow> dc_deposit (cx_dispute_case ctx) = 0 \<and> rw = 0" "outcome \<noteq> Some BuyerWins \<longrightarrow> rw = 0"
    unfolding deposit_settled_def by blast
  then show thesis by (intro that [of rw st]) simp_all
qed

lemma trade_settled_case:
  "trade_settled ctx ctx1 \<Longrightarrow> cx_dispute_case ctx1 = cx_dispute_case ctx"
  unfolding trade_settled_def by (elim exE conjE) simp

lemma loaded_case:
  assumes "escrow_inv E w" and "loaded E a w ctx"
  shows "seats_ok (cx_dispute_case ctx)" "\<not> dc_deposit_settled (cx_dispute_case ctx)"
    "dc_reward_pool (cx_dispute_case ctx) = 0" "dc_reward_remaining (cx_dispute_case ctx) = 0"
    "dc_outcome (cx_dispute_case ctx) = None" "dc_terminal_reason (cx_dispute_case ctx) = None"
    "fee_split_ok (cx_fee_config ctx)"
proof -
  have d: "es_cases w (ex_dispute_case a) = Some (cx_dispute_case ctx)"
    and unresolved: "\<not> dc_resolved (cx_dispute_case ctx)"
    and fc: "es_fee_config w = Some (cx_fee_config ctx)"
    using assms(2) by (simp_all add: loaded_def)
  have "seats_ok (cx_dispute_case ctx)" "verdict_ok (cx_dispute_case ctx)"
    using escrow_inv_case [OF assms(1) d] by (simp_all add: case_inv_def)
  with unresolved escrow_invD(1) [OF assms(1)] fc show
    "seats_ok (cx_dispute_case ctx)" "\<not> dc_deposit_settled (cx_dispute_case ctx)"
    "dc_reward_pool (cx_dispute_case ctx) = 0" "dc_reward_remaining (cx_dispute_case ctx) = 0"
    "dc_outcome (cx_dispute_case ctx) = None" "dc_terminal_reason (cx_dispute_case ctx) = None"
    "fee_split_ok (cx_fee_config ctx)"
    by (simp_all add: verdict_ok_def fee_config_inv_def)
qed

lemma stage_frames:
  "deposit_settled env outcome ctx ctx1 \<Longrightarrow> es_cases (cx_world ctx1) = es_cases (cx_world ctx)"
  "trade_settled ctx ctx1 \<Longrightarrow> es_cases (cx_world ctx1) = es_cases (cx_world ctx)"
  unfolding deposit_settled_def trade_settled_def
  by (elim exE conjE, simp)+

lemma terminal_split_inv:
  assumes inv: "escrow_inv E w" and l: "loaded E a w ctx"
    and ctx0: "ctx0 = ctx\<lparr>cx_dispute_case := bar_silent_seats (cx_dispute_case ctx)\<rparr>"
    and ok: "terminal_split E now floor reason n k ctx0 = Inr ctx3"
  shows "round_result E a w ctx ctx3"
proof -
  note lc = loaded_case [OF inv l]
  from ok obtain rp rf ctx1 ctx2 w3 where
    dep: "settle_deposit E None ctx0 = Inr (rp, rf, ctx1)" and sp: "ctx_split E ctx1 = Inr ctx2"
    and ctx3: "ctx3 = ctx2\<lparr>cx_dispute_case := (cx_dispute_case ctx2)\<lparr>dc_resolved := True,
        dc_outcome := None, dc_terminal_reason := Some reason\<rparr>, cx_world := w3\<rparr>"
      "es_vaults w3 = es_vaults (cx_world ctx2)" "es_trades w3 = es_trades (cx_world ctx2)"
      "es_cases w3 = es_cases (cx_world ctx2)" "es_fee_config w3 = es_fee_config (cx_world ctx2)"
      "c_tokens w3 = c_tokens (cx_world ctx2)"
    by (auto simp: terminal_split_def Let_def ctx_emit_def emit_escrow_def)
  have D: "deposit_settled E None ctx0 ctx1"
    by (rule settle_deposit_settled [OF dep]) (use lc in \<open>simp_all add: ctx0\<close>)
  have T: "trade_settled ctx1 ctx2" using sp by (rule ctx_split_settled)
  from D obtain st rw where c1: "cx_dispute_case ctx1 = (cx_dispute_case ctx0)\<lparr>dc_deposit_settled := st,
      dc_reward_pool := rw, dc_reward_remaining := rw\<rparr>"
    and st: "\<not> st \<Longrightarrow> dc_deposit (cx_dispute_case ctx0) = 0 \<and> rw = 0" and rw: "rw = 0"
    by (rule deposit_settled_case) simp
  have c2: "cx_dispute_case ctx2 = cx_dispute_case ctx1" using T by (rule trade_settled_case)
  have "escrow_inv E (store_execute_ctx a ctx3)"
    by (rule store_decided_inv [OF inv l _ _ D T ctx3])
       (use bar_silent_seats_ok [OF lc(1)] st rw in \<open>auto simp: c1 c2 ctx0 pool_claim_def seats_ok_def
          verdict_ok_def\<close>)
  moreover have "es_cases (cx_world ctx3) = es_cases w"
    using stage_frames(1) [OF D] stage_frames(2) [OF T] ctx3(1,4) loaded_world [OF l] by (simp add: ctx0)
  ultimately show ?thesis by (simp add: round_result_def ctx3(1) c1 c2 ctx0)
qed

lemma store_reopened_inv:
  assumes inv: "escrow_inv E w" and l: "loaded E a w ctx"
    and ctx3: "ctx3 = ctx\<lparr>cx_dispute_case := d3\<rparr>"
    and d3: "pool_claim (Some d3) = pool_claim (Some (cx_dispute_case ctx))"
      "dc_reservation_id d3 = dc_reservation_id (cx_dispute_case ctx)"
      "dc_bump d3 = dc_bump (cx_dispute_case ctx)"
      "dc_trade_escrow d3 = dc_trade_escrow (cx_dispute_case ctx)"
      "dc_deposit_vault d3 = dc_deposit_vault (cx_dispute_case ctx)"
      "dc_deposit_mint d3 = dc_deposit_mint (cx_dispute_case ctx)"
      "\<not> dc_resolved d3" "seats_ok d3" "verdict_ok d3"
  shows "escrow_inv E (store_execute_ctx a ctx3)"
proof -
  from l have acc: "es_cases w (ex_dispute_case a) = Some (cx_dispute_case ctx)"
      "\<not> dc_resolved (cx_dispute_case ctx)" "cx_world ctx = w"
    by (simp_all add: loaded_def)
  have "case_inv E (es_trades w) (c_tokens w) (ex_dispute_case a) d3"
    using escrow_inv_case [OF inv acc(1)] acc(2) d3 by (simp add: case_inv_def)
  then show ?thesis
    by (rule escrow_inv_case_change [OF inv acc(1) _ d3(1)])
       (use l in \<open>auto simp: loaded_def store_execute_ctx_def escrow_world_simps ctx3 acc(3)\<close>)
qed

lemma undecided_inv:
  assumes inv: "escrow_inv E w" and l: "loaded E a w ctx"
    and ok: "handle_undecided_round E sv now k ctx = Inr ctx3"
  shows "round_result E a w ctx ctx3"
proof -
  note lc = loaded_case [OF inv l]
  define ctx0 where "ctx0 = ctx\<lparr>cx_dispute_case := bar_silent_seats (cx_dispute_case ctx)\<rparr>"
  from ok obtain nr floor reason where
    nr: "unat nr = unat (dc_round (cx_dispute_case ctx)) + 1"
    and alt: "terminal_split E now floor reason (length (dc_arbitrators (cx_dispute_case ctx))) k ctx0
                = Inr ctx3
              \<or> \<not> MAX_DISPUTE_ROUNDS \<le> nr \<and> reopen_round E sv now nr ctx0 = Inr ctx3"
    by (auto simp: handle_undecided_round_def Let_def checked_add_Some ctx0_def split: if_splits)
  from alt show ?thesis
  proof (elim disjE conjE)
    assume "reopen_round E sv now nr ctx0 = Inr ctx3" and lt: "\<not> MAX_DISPUTE_ROUNDS \<le> nr"
    then obtain case_seed cd rd where
      ctx3: "ctx3 = ctx\<lparr>cx_dispute_case := (bar_silent_seats (cx_dispute_case ctx))\<lparr>dc_round := nr,
        dc_round_opened_at := now, dc_commit_deadline := cd, dc_reveal_deadline := rd,
        dc_case_seed := case_seed, dc_arbitrators := [], dc_commitments := [],
        dc_revealed_outcomes := [], dc_weights := [], dc_reward_claimed := []\<rparr>\<rparr>"
      and rd: "rd = cd + dc_reveal_window_secs (cx_dispute_case ctx)"
      by (auto simp: reopen_round_def Let_def ctx0_def checked_add_i64_def split: if_splits)
    have unresolved: "\<not> dc_resolved (cx_dispute_case ctx)" using l by (simp add: loaded_def)
    have seats: "seats_ok (bar_silent_seats (cx_dispute_case ctx))"
      by (rule bar_silent_seats_ok [OF lc(1)])
    have "unat nr < unat MAX_DISPUTE_ROUNDS" using lt by (simp add: word_le_nat_alt)
    moreover have "unat (dc_seats_taken_total (cx_dispute_case ctx)) \<le> MAX_ARBITRATORS * unat nr"
      using seats nr by (simp add: seats_ok_def)
    ultimately have "escrow_inv E (store_execute_ctx a ctx3)"
      by (intro store_reopened_inv [OF inv l ctx3])
         (use seats unresolved lc in \<open>simp_all add: pool_claim_def seats_ok_def verdict_ok_def\<close>)
    moreover have "cd \<le> rd"
      using seats rd by (simp add: seats_ok_def window_in_range_def MIN_DISPUTE_WINDOW_SECS_def)
    ultimately show ?thesis
      using unresolved loaded_world [OF l] by (simp add: round_result_def ctx3)
  qed (rule terminal_split_inv [OF inv l ctx0_def])
qed

lemma decided_inv:
  assumes inv: "escrow_inv E w" and l: "loaded E a w ctx"
    and W: "sum_u64 (winning_weights (cx_dispute_case ctx) outcome) = Some W"
    and dep: "settle_deposit E (Some outcome) ctx = Inr (rp, rf, ctx1)"
    and app: "apply_outcome E now outcome ctx1 = Inr ctx2"
    and ctx3: "ctx3 = ctx2\<lparr>cx_dispute_case := (cx_dispute_case ctx2)\<lparr>dc_resolved := True,
        dc_outcome := Some outcome, dc_winning_weight := W,
        dc_reward_claimed := replicate (length (dc_arbitrators (cx_dispute_case ctx2))) False\<rparr>,
        cx_world := w3\<rparr>"
      "es_vaults w3 = es_vaults (cx_world ctx2)" "es_trades w3 = es_trades (cx_world ctx2)"
      "es_cases w3 = es_cases (cx_world ctx2)" "es_fee_config w3 = es_fee_config (cx_world ctx2)"
      "c_tokens w3 = c_tokens (cx_world ctx2)"
  shows "round_result E a w ctx ctx3"
proof -
  note lc = loaded_case [OF inv l]
  have D: "deposit_settled E (Some outcome) ctx ctx1"
    by (rule settle_deposit_settled [OF dep]) (use lc in simp_all)
  then obtain st rw where c1: "cx_dispute_case ctx1 = (cx_dispute_case ctx)\<lparr>dc_deposit_settled := st,
      dc_reward_pool := rw, dc_reward_remaining := rw\<rparr>"
    and st: "\<not> st \<Longrightarrow> dc_deposit (cx_dispute_case ctx) = 0 \<and> rw = 0"
    and fc: "cx_fee_config ctx1 = cx_fee_config ctx"
    by (rule deposit_settled_case) blast
  have T: "trade_settled ctx1 ctx2"
    by (rule apply_outcome_settled [OF app]) (simp add: fc lc)
  have c2: "cx_dispute_case ctx2 = cx_dispute_case ctx1" using T by (rule trade_settled_case)
  have "rewards_ok (cx_dispute_case ctx3) outcome"
    by (rule rewards_ok_decided [where n = "length (dc_arbitrators (cx_dispute_case ctx))" and W = W])
       (use lc(1) W in \<open>simp_all add: ctx3(1) c1 c2 seats_ok_def winning_weights_def case_votes_def\<close>)
  then have verdict: "verdict_ok (cx_dispute_case ctx3)"
    using st lc(6) by (auto simp: verdict_ok_def ctx3(1) c1 c2)
  have "\<exists>d. ctx = ctx\<lparr>cx_dispute_case := d\<rparr>" by (rule exI [of _ "cx_dispute_case ctx"]) simp
  then have "escrow_inv E (store_execute_ctx a ctx3)"
    by (rule store_decided_inv [OF inv l refl _ D T ctx3])
       (use verdict lc(1) in \<open>simp_all add: c1 c2 ctx3(1) pool_claim_def seats_ok_def\<close>)
  moreover have "es_cases (cx_world ctx3) = es_cases w"
    using stage_frames(1) [OF D] stage_frames(2) [OF T] ctx3(1,4) loaded_world [OF l] by simp
  ultimately show ?thesis by (simp add: round_result_def ctx3(1) c1 c2)
qed

lemma execute_inv:
  assumes inv: "escrow_inv E w" and dl: "deadlines_inv t (es_cases w)" "t \<le> unix_timestamp sv"
    and ok: "handle_execute_dispute_outcome E sv a w = Inr w'"
  shows "escrow_inv E w' \<and> deadlines_inv (unix_timestamp sv) (es_cases w')"
proof -
  from ok obtain ctx ctx3 where ld: "load_execute_ctx E a w = Inr ctx"
    and body: "execute_body E sv ctx = Inr ctx3" and w': "w' = store_execute_ctx a ctx3"
    by (auto simp: handle_execute_dispute_outcome_def)
  have l: "loaded E a w ctx" using inv ld by (rule load_execute_loaded)
  have over: "dc_reveal_deadline (cx_dispute_case ctx) \<le> unix_timestamp sv"
    using body by (simp add: execute_body_def Let_def)
  have res: "round_result E a w ctx ctx3"
  proof (cases "fst (tally (cx_dispute_case ctx))")
    case None
    then have "handle_undecided_round E sv (unix_timestamp sv) (snd (tally (cx_dispute_case ctx))) ctx
        = Inr ctx3"
      using body by (cases "tally (cx_dispute_case ctx)") (simp add: execute_body_def Let_def)
    then show ?thesis by (rule undecided_inv [OF inv l])
  next
    case (Some outcome)
    with body obtain W rp rf ctx1 ctx2 w3 where
      "sum_u64 (winning_weights (cx_dispute_case ctx) outcome) = Some W"
      "settle_deposit E (Some outcome) ctx = Inr (rp, rf, ctx1)"
      "apply_outcome E (unix_timestamp sv) outcome ctx1 = Inr ctx2"
      "ctx3 = ctx2\<lparr>cx_dispute_case := (cx_dispute_case ctx2)\<lparr>dc_resolved := True,
        dc_outcome := Some outcome, dc_winning_weight := W,
        dc_reward_claimed := replicate (length (dc_arbitrators (cx_dispute_case ctx2))) False\<rparr>,
        cx_world := w3\<rparr>"
      "es_vaults w3 = es_vaults (cx_world ctx2)" "es_trades w3 = es_trades (cx_world ctx2)"
      "es_cases w3 = es_cases (cx_world ctx2)" "es_fee_config w3 = es_fee_config (cx_world ctx2)"
      "c_tokens w3 = c_tokens (cx_world ctx2)"
      by (cases "tally (cx_dispute_case ctx)")
         (auto simp: execute_body_def Let_def ctx_emit_def emit_escrow_def)
    then show ?thesis by (rule decided_inv [OF inv l])
  qed
  have d: "es_cases w (ex_dispute_case a) = Some (cx_dispute_case ctx)" using l by (simp add: loaded_def)
  have "es_cases w' = (es_cases w)(ex_dispute_case a \<mapsto> cx_dispute_case ctx3)"
    using res by (simp add: w' store_execute_ctx_def escrow_world_simps round_result_def)
  then have "deadlines_inv (unix_timestamp sv) (es_cases w')"
    using deadlines_inv_upd [OF dl, of "cx_dispute_case ctx3"] res over deadlines_invD(1) [OF dl(1) d]
    by (simp add: round_result_def split: if_splits)
  with res show ?thesis by (simp add: round_result_def w')
qed

end

end
