(* ===== verification/Escrow_System.thy ===== *)
theory Escrow_System
  imports Escrow_Execute_Steps
begin

text \<open>
  The escrow program as a transition system: one step per successful instruction, with the rest
  of the chain, the staking program included, moving in between. Its invariant is the one of
  the account theories together with the order of a case's deadlines.
\<close>


section \<open>Steps\<close>

datatype escrow_ix =
    IxInitializeFeeConfig pubkey InitializeFeeConfigParams
  | IxUpdateFeeConfig pubkey pubkey pubkey pubkey pubkey pubkey UpdateFeeConfigParams
  | IxInitializeArbitrationPool pubkey pubkey pubkey
  | IxPublishArbitratorPoolSize pubkey u32
  | IxCreateLiquidityVault pubkey pubkey pubkey
  | IxDepositLiquidity pubkey pubkey pubkey pubkey u64
  | IxWithdrawLiquidity pubkey pubkey pubkey pubkey u64
  | IxReserveLiquidity pubkey pubkey u64
  | IxChargeAdListingFee pubkey pubkey pubkey "u8 list"
  | IxAbsorbStakeRecovery pubkey pubkey
  | IxCreateTradeEscrow pubkey pubkey pubkey pubkey u64 u64 i64
  | IxFundTradeEscrow pubkey pubkey pubkey u64
  | IxApproveSettlement pubkey u64
  | IxReleaseEscrow pubkey pubkey u64 pubkey
  | IxCancelReservation pubkey pubkey pubkey u64
  | IxExpireReservation pubkey pubkey u64
  | IxOpenDisputeCase pubkey u64 pubkey pubkey i64 i64
  | IxCommitDisputeVote pubkey u64 "u8 list"
  | IxRevealDisputeVote pubkey u64 DisputeOutcome "u8 list"
  | IxExecuteDisputeOutcome ExecuteDisputeOutcome
  | IxClaimArbitrationReward pubkey u64 pubkey pubkey pubkey
  | IxTopUpArbitrationDeposit u64 pubkey pubkey

fun escrow_dispatch ::
  "env \<Rightarrow> sysvars \<Rightarrow> escrow_ix \<Rightarrow> 'z escrow_chain_scheme \<Rightarrow> 'z escrow_result" where
  "escrow_dispatch env sv (IxInitializeFeeConfig admin params) w =
     handle_initialize_fee_config env admin params w"
| "escrow_dispatch env sv (IxUpdateFeeConfig admin mint dev eco infra emergency params) w =
     handle_update_fee_config env admin mint dev eco infra emergency params w"
| "escrow_dispatch env sv (IxInitializeArbitrationPool admin mint tp) w =
     handle_initialize_arbitration_pool env admin mint tp w"
| "escrow_dispatch env sv (IxPublishArbitratorPoolSize admin n) w =
     handle_publish_arbitrator_pool_size env sv admin n w"
| "escrow_dispatch env sv (IxCreateLiquidityVault merchant mint tp) w =
     handle_create_liquidity_vault env merchant mint tp w"
| "escrow_dispatch env sv (IxDepositLiquidity merchant from mint tp amount) w =
     handle_deposit_liquidity env merchant from mint tp amount w"
| "escrow_dispatch env sv (IxWithdrawLiquidity merchant to mint tp amount) w =
     handle_withdraw_liquidity env merchant to mint tp amount w"
| "escrow_dispatch env sv (IxReserveLiquidity merchant mint amount) w =
     handle_reserve_liquidity env merchant mint amount w"
| "escrow_dispatch env sv (IxChargeAdListingFee merchant mint tp ad) w =
     handle_charge_ad_listing_fee env sv merchant mint tp ad w"
| "escrow_dispatch env sv (IxAbsorbStakeRecovery merchant mint) w =
     handle_absorb_stake_recovery env sv merchant mint w"
| "escrow_dispatch env sv (IxCreateTradeEscrow merchant buyer mint tp rid amount secs) w =
     handle_create_trade_escrow env sv merchant buyer mint tp rid amount secs w"
| "escrow_dispatch env sv (IxFundTradeEscrow merchant mint tp rid) w =
     handle_fund_trade_escrow env merchant mint tp rid w"
| "escrow_dispatch env sv (IxApproveSettlement merchant rid) w =
     handle_approve_settlement env merchant rid w"
| "escrow_dispatch env sv (IxReleaseEscrow mint tp rid buyer_account) w =
     handle_release_escrow env sv mint tp rid buyer_account w"
| "escrow_dispatch env sv (IxCancelReservation signer mint tp rid) w =
     handle_cancel_reservation env signer mint tp rid w"
| "escrow_dispatch env sv (IxExpireReservation mint tp rid) w =
     handle_expire_reservation env sv mint tp rid w"
| "escrow_dispatch env sv (IxOpenDisputeCase signer rid mint tp cw rw) w =
     handle_open_dispute_case env sv signer rid mint tp cw rw w"
| "escrow_dispatch env sv (IxCommitDisputeVote arbitrator rid commitment) w =
     handle_commit_dispute_vote env sv arbitrator rid commitment w"
| "escrow_dispatch env sv (IxRevealDisputeVote arbitrator rid outcome salt) w =
     handle_reveal_dispute_vote env sv arbitrator rid outcome salt w"
| "escrow_dispatch env sv (IxExecuteDisputeOutcome accounts) w =
     handle_execute_dispute_outcome env sv accounts w"
| "escrow_dispatch env sv (IxClaimArbitrationReward arbitrator rid mint to tp) w =
     handle_claim_arbitration_reward env sv arbitrator rid mint to tp w"
| "escrow_dispatch env sv (IxTopUpArbitrationDeposit rid mint tp) w =
     handle_top_up_arbitration_deposit env sv rid mint tp w"

text \<open>The only instruction that spends a wallet's own tokens.\<close>

fun escrow_signer :: "escrow_ix \<Rightarrow> pubkey option" where
  "escrow_signer (IxDepositLiquidity merchant _ _ _ _) = Some merchant"
| "escrow_signer _ = None"

definition escrow_frame :: "'z escrow_chain_scheme \<Rightarrow> 'z escrow_chain_scheme \<Rightarrow> bool" where
  "escrow_frame w w' \<longleftrightarrow> es_vaults w' = es_vaults w \<and> es_trades w' = es_trades w
     \<and> es_fee_config w' = es_fee_config w \<and> es_cases w' = es_cases w \<and> es_claims w' = es_claims w
     \<and> es_policy w' = es_policy w \<and> es_log w' = es_log w
     \<and> outside EscrowProgram (c_tokens w) (c_tokens w')"

inductive escrow_step ::
  "env \<Rightarrow> i64 \<times> 'z escrow_chain_scheme \<Rightarrow> i64 \<times> 'z escrow_chain_scheme \<Rightarrow> bool" for env where
  escrow_step_ix:
    "\<lbrakk> t \<le> unix_timestamp sv; \<forall>k. escrow_signer ix = Some k \<longrightarrow> \<not> signs_for EscrowProgram k;
       escrow_dispatch env sv ix w = Inr w' \<rbrakk>
     \<Longrightarrow> escrow_step env (t, w) (unix_timestamp sv, w')"
| escrow_step_outside:
    "\<lbrakk> t \<le> t'; escrow_frame w w' \<rbrakk> \<Longrightarrow> escrow_step env (t, w) (t', w')"

inductive_cases escrow_stepE: "escrow_step env (t, w) (t', w')"

definition escrow_genesis :: "i64 \<times> 'z escrow_chain_scheme \<Rightarrow> bool" where
  "escrow_genesis s \<longleftrightarrow> es_vaults (snd s) = Map.empty \<and> es_trades (snd s) = Map.empty
     \<and> es_fee_config (snd s) = None \<and> es_cases (snd s) = Map.empty \<and> es_claims (snd s) = Map.empty
     \<and> es_policy (snd s) = None
     \<and> (\<forall>k. signs_for EscrowProgram k \<longrightarrow> c_tokens (snd s) k = None)"


section \<open>The invariant holds in every reachable state\<close>

lemma escrow_inv_genesis:
  "escrow_genesis (t, w) \<Longrightarrow> escrow_inv env w \<and> deadlines_inv t (es_cases w)"
  by (simp add: escrow_genesis_def escrow_inv_def fee_config_inv_def vaults_inv_def trades_inv_def
      pending_inv_def cases_inv_def pool_inv_def pool_claim_def pool_account_inv_def
      deadlines_inv_def)

text \<open>Instructions other than the dispute ones leave the cases alone.\<close>

fun dispute_ix :: "escrow_ix \<Rightarrow> bool" where
  "dispute_ix (IxOpenDisputeCase _ _ _ _ _ _) \<longleftrightarrow> True"
| "dispute_ix (IxCommitDisputeVote _ _ _) \<longleftrightarrow> True"
| "dispute_ix (IxRevealDisputeVote _ _ _ _) \<longleftrightarrow> True"
| "dispute_ix (IxExecuteDisputeOutcome _) \<longleftrightarrow> True"
| "dispute_ix (IxClaimArbitrationReward _ _ _ _ _) \<longleftrightarrow> True"
| "dispute_ix (IxTopUpArbitrationDeposit _ _ _) \<longleftrightarrow> True"
| "dispute_ix _ \<longleftrightarrow> False"

lemma transfer_each_frame:
  "transfer_each env tp from mint auth d ps w = (Inr w1 :: 'e tx_error + 'z chain_scheme)
   \<Longrightarrow> \<exists>L. w1 = w\<lparr>c_tokens := L\<rparr>"
proof (induction ps arbitrary: w)
  case Nil
  then show ?case by (intro exI [of _ "c_tokens w"]) simp
next
  case (Cons x ps)
  obtain a to where x: "x = (a, to)" by (cases x)
  show ?case
  proof (cases "a > 0")
    case True
    with Cons.prems x obtain L where
      "transfer_each env tp from mint auth d ps (w\<lparr>c_tokens := L\<rparr>)
         = (Inr w1 :: 'e tx_error + 'z chain_scheme)"
      by (auto dest!: cpi_transfer_frame)
    from Cons.IH [OF this] show ?thesis by auto
  qed (use Cons x in simp)
qed

lemma release_frame:
  "release_trade_escrow_funds env tp mint d e b v fc w = Inr (e', v', x, y, w1) \<Longrightarrow>
   \<exists>L. w1 = w\<lparr>c_tokens := L\<rparr>"
  by (auto simp: release_trade_escrow_funds_def Let_def simp del: transfer_each.simps
      dest!: transfer_each_frame)

lemma close_frame:
  "close_reservation env tp mint d rid e v w = Inr w1 \<Longrightarrow>
   \<exists>L V T. w1 = w\<lparr>c_tokens := L, es_vaults := V, es_trades := T\<rparr>"
proof -
  have id: "w = w\<lparr>c_tokens := c_tokens w\<rparr>" by simp
  show "close_reservation env tp mint d rid e v w = Inr w1 \<Longrightarrow> ?thesis"
    by (auto simp: close_reservation_def unwind_funded_trade_escrow_def Let_def escrow_world_simps
        dest!: cpi_transfer_frame split: if_splits) (metis id)+
qed

lemma other_ix_cases:
  assumes "escrow_dispatch env sv ix w = Inr w'" and "\<not> dispute_ix ix"
  shows "es_cases w' = es_cases w"
  using assms
  by (cases ix)
     (auto simp: handle_initialize_fee_config_def handle_update_fee_config_def
       handle_initialize_arbitration_pool_def handle_publish_arbitrator_pool_size_def
       vault_handler_defs trade_handler_defs trade_load_defs load_mint_token_def Let_def
       load_open_reservation_def escrow_world_simps init_token_def simp del: transfer_each.simps
       dest!: cpi_transfer_frame transfer_each_frame release_frame close_frame split: if_splits)

context token_env
begin

lemma escrow_dispatch_inv:
  assumes inv: "escrow_inv E w" and dl: "deadlines_inv t (es_cases w)" "t \<le> unix_timestamp sv"
    and signer: "\<forall>k. escrow_signer ix = Some k \<longrightarrow> \<not> signs_for EscrowProgram k"
    and ok: "escrow_dispatch E sv ix w = Inr w'"
  shows "escrow_inv E w' \<and> deadlines_inv (unix_timestamp sv) (es_cases w')"
proof (cases "dispute_ix ix")
  case True
  then show ?thesis
    using ok commit_inv [OF inv dl] reveal_inv [OF inv dl] open_inv [OF inv dl]
      execute_inv [OF inv dl] claim_reward_inv [OF inv dl] top_up_inv [OF inv dl]
    by (cases ix) auto
next
  case False
  have "deadlines_inv (unix_timestamp sv) (es_cases w')"
    using other_ix_cases [OF ok False] deadlines_inv_later [OF dl] by simp
  moreover have "escrow_inv E w'"
    using ok signer False
    by (cases ix)
       (auto dest: initialize_fee_config_inv [OF inv] update_fee_config_inv [OF inv]
         initialize_arbitration_pool_inv [OF inv] publish_pool_size_inv [OF inv]
         create_vault_inv [OF inv] deposit_inv [OF inv] withdraw_inv [OF inv] reserve_inv [OF inv]
         ad_listing_fee_inv [OF inv] absorb_inv [OF inv] create_trade_inv [OF inv] fund_inv [OF inv]
         approve_inv [OF inv] release_inv [OF inv] cancel_inv [OF inv] expire_inv [OF inv])
  ultimately show ?thesis by blast
qed

lemma escrow_step_inv:
  assumes "escrow_step E (t, w) (t', w')" and "escrow_inv E w \<and> deadlines_inv t (es_cases w)"
  shows "escrow_inv E w' \<and> deadlines_inv t' (es_cases w')"
  using assms(1)
proof (rule escrow_stepE)
  fix sv ix
  assume "t' = unix_timestamp sv" "t \<le> unix_timestamp sv"
    "\<forall>k. escrow_signer ix = Some k \<longrightarrow> \<not> signs_for EscrowProgram k"
    "escrow_dispatch E sv ix w = Inr w'"
  with assms(2) escrow_dispatch_inv show ?thesis by blast
next
  assume "t \<le> t'" and "escrow_frame w w'"
  then show ?thesis
    using assms(2) escrow_inv_outside [of E w w'] deadlines_inv_later by (auto simp: escrow_frame_def)
qed

end

sublocale token_env \<subseteq> escrow_sys: invariant_system escrow_genesis "escrow_step E"
  "\<lambda>(t, w). escrow_inv E w \<and> deadlines_inv t (es_cases w)"
  by unfold_locales (auto dest: escrow_inv_genesis escrow_step_inv)

context token_env
begin

lemma escrow_reachable_inv:
  "reachable escrow_genesis (escrow_step E) (t, w) \<Longrightarrow> escrow_inv E w"
  using escrow_sys.reachable_inv by fastforce

lemma escrow_reachable_deadlines:
  "reachable escrow_genesis (escrow_step E) (t, w) \<Longrightarrow> deadlines_inv t (es_cases w)"
  using escrow_sys.reachable_inv by fastforce

end

end
