(* ===== verification/Escrow_History.thy ===== *)
theory Escrow_History
  imports Escrow_System Staking_Properties
begin

text \<open>
  A concrete history of the escrow program on the reference token program: an administrator
  configures fees and the arbitration pool, merchant \<open>Key 1\<close> opens and fills a settlement
  vault (mint \<open>Key 7\<close>) and a small vault in the staking mint (\<open>Key 2\<close>), and sells 500
  units to buyer \<open>Key 5\<close>. The properties take their witnesses from its states.
\<close>


section \<open>Runs\<close>

fun escrow_run ::
  "env \<Rightarrow> (sysvars \<times> escrow_ix) list \<Rightarrow> escrow_chain \<Rightarrow> EscrowErrorCode tx_error + escrow_chain" where
  "escrow_run env [] w = Inr w"
| "escrow_run env ((sv, ix) # ixs) w = and_then (escrow_dispatch env sv ix w) (escrow_run env ixs)"

fun escrow_timed :: "i64 \<Rightarrow> (sysvars \<times> escrow_ix) list \<Rightarrow> bool" where
  "escrow_timed t [] \<longleftrightarrow> True"
| "escrow_timed t ((sv, ix) # ixs) \<longleftrightarrow> t \<le> unix_timestamp sv
     \<and> (case escrow_signer ix of None \<Rightarrow> True | Some k \<Rightarrow> \<not> signs_for EscrowProgram k)
     \<and> escrow_timed (unix_timestamp sv) ixs"

fun end_time :: "i64 \<Rightarrow> (sysvars \<times> 'a) list \<Rightarrow> i64" where
  "end_time t [] = t"
| "end_time t ((sv, ix) # ixs) = end_time (unix_timestamp sv) ixs"

lemma escrow_run_steps:
  assumes "escrow_timed t ixs" and "escrow_run env ixs w = Inr w'"
  shows "(escrow_step env)\<^sup>*\<^sup>* (t, w) (end_time t ixs, w')"
  using assms
proof (induction ixs arbitrary: t w)
  case (Cons x ixs)
  obtain sv ix where x: "x = (sv, ix)" by (cases x)
  from Cons.prems(2) x obtain w1 where
    w1: "escrow_dispatch env sv ix w = Inr w1" "escrow_run env ixs w1 = Inr w'"
    by auto
  have "escrow_step env (t, w) (unix_timestamp sv, w1)"
    by (rule escrow_step_ix [OF _ _ w1(1)]) (use Cons.prems(1) x in \<open>auto split: option.splits\<close>)
  also have "(escrow_step env)\<^sup>*\<^sup>* (unix_timestamp sv, w1) (end_time (unix_timestamp sv) ixs, w')"
    using Cons.IH Cons.prems(1) w1(2) x by auto
  finally show ?case using x by simp
qed simp

lemma escrow_run_reachable:
  assumes "reachable escrow_genesis (escrow_step env) (t, w)"
    and "escrow_timed t ixs" and "escrow_run env ixs w = Inr w'"
  shows "reachable escrow_genesis (escrow_step env) (end_time t ixs, w')"
  by (rule reachable_steps [OF assms(1) escrow_run_steps [OF assms(2,3)]])

definition demo_sv :: "i64 \<Rightarrow> sysvars" where
  "demo_sv t = \<lparr> unix_timestamp = t, slot_hashes = 1 # replicate 47 0 \<rparr>"

lemma demo_sv_time [simp]: "unix_timestamp (demo_sv t) = t" by (simp add: demo_sv_def)


section \<open>Accounts\<close>

definition demo_account :: "pubkey \<Rightarrow> pubkey \<Rightarrow> u64 \<Rightarrow> token_account" where
  "demo_account mint owner amount = \<lparr> ta_mint = mint, ta_owner = owner, ta_amount = amount,
     ta_delegate = None, ta_frozen = False \<rparr>"

text \<open>Balances: the merchant's two wallets and two vaults, the trade, the pool, the buyer, and
  the four treasuries.\<close>

definition demo_accounts :: "u64 \<Rightarrow> u64 \<Rightarrow> u64 \<Rightarrow> u64 \<Rightarrow> u64 \<Rightarrow> u64 \<Rightarrow> u64 list \<Rightarrow> ledger" where
  "demo_accounts ws wo vs vo pool buyer tre =
     [Key 31 \<mapsto> demo_account (Key 7) (Key 1) ws, Key 32 \<mapsto> demo_account (Key 2) (Key 1) wo,
      Key 51 \<mapsto> demo_account (Key 7) (Key 5) buyer,
      Key 61 \<mapsto> demo_account (Key 7) (Key 9) (tre ! 0),
      Key 62 \<mapsto> demo_account (Key 7) (Key 9) (tre ! 1),
      Key 63 \<mapsto> demo_account (Key 7) (Key 9) (tre ! 2),
      Key 64 \<mapsto> demo_account (Key 7) (Key 9) (tre ! 3),
      Key 71 \<mapsto> demo_account (Key 2) (Key 21) 0,
      arbitration_pool_pda \<mapsto> demo_account (Key 2) fee_config_pda pool,
      liquidity_tokens_pda (Key 1) (Key 7)
        \<mapsto> demo_account (Key 7) (liquidity_vault_pda (Key 1) (Key 7)) vs,
      liquidity_tokens_pda (Key 1) (Key 2)
        \<mapsto> demo_account (Key 2) (liquidity_vault_pda (Key 1) (Key 2)) vo]"

definition demo_ledger :: "u64 \<Rightarrow> u64 \<Rightarrow> u64 \<Rightarrow> u64 \<Rightarrow> u64 \<Rightarrow> u64 \<Rightarrow> u64 \<Rightarrow> u64 list \<Rightarrow> ledger" where
  "demo_ledger ws wo vs vo tr pool buyer tre = (demo_accounts ws wo vs vo pool buyer tre)
     (trade_tokens_pda 1 \<mapsto> demo_account (Key 7) (trade_escrow_pda 1) tr)"

definition demo_vault :: "pubkey \<Rightarrow> u64 \<Rightarrow> u64 \<Rightarrow> u64 \<Rightarrow> u64 \<Rightarrow> u64 \<Rightarrow> LiquidityVault" where
  "demo_vault mint tot reserved available settled pending =
     \<lparr> lv_merchant = Key 1, lv_mint = mint, lv_total = tot, lv_reserved = reserved,
       lv_available = available, lv_settled = settled, lv_pending_settlement = pending,
       lv_bump = 255, lv_token_vault_bump = 255 \<rparr>"

definition demo_trade :: "VaultState \<Rightarrow> bool \<Rightarrow> TradeEscrowVault" where
  "demo_trade state approved = \<lparr> te_reservation_id = 1, te_buyer = Key 5, te_seller = Key 1,
     te_mint = Key 7, te_amount = 500, te_state = state, te_approved = approved,
     te_created_at = 108, te_timeout_at = 1908, te_bump = 255, te_token_vault_bump = 255 \<rparr>"

definition demo_fees :: FeeConfig where
  "demo_fees = \<lparr> fc_admin = Key 9, fc_ad_listing_fee = 4, fc_dispute_filing_fee = 30,
     fc_settlement_fee_bps = 100, fc_dev_treasury = Key 61, fc_ecosystem_treasury = Key 62,
     fc_infra_treasury = Key 63, fc_emergency_reserve = Key 64, fc_dev_treasury_bps = 4000,
     fc_ecosystem_treasury_bps = 3000, fc_infra_treasury_bps = 2000,
     fc_emergency_reserve_bps = 1000, fc_timeout_secs = 1800, fc_bump = 255,
     fc_min_arbitrator_stake_age_secs = 0, fc_arbitrator_sortition_bps = 0,
     fc_settlement_mints = padded_mints [Key 7], fc_settlement_mint_count = 1 \<rparr>"

definition demo_arbitrator :: "pubkey \<Rightarrow> u64 \<Rightarrow> StakeAccount" where
  "demo_arbitrator k amount = \<lparr> sa_owner = k, sa_role = Arbitrator, sa_amount = amount,
     sa_unbonding_amount = 0, sa_unbonding_release_at = 0, sa_slashed_total = 0,
     sa_pending_rewards = 0, sa_bump = 255, sa_first_staked_at = 50 \<rparr>"

definition demo_chain ::
  "ledger \<Rightarrow> (pubkey \<times> pubkey \<rightharpoonup> LiquidityVault) \<Rightarrow> (u64 \<rightharpoonup> TradeEscrowVault) \<Rightarrow> FeeConfig option
   \<Rightarrow> (u64 \<rightharpoonup> DisputeCase) \<Rightarrow> (pubkey \<times> pubkey \<rightharpoonup> StakeRecoveryClaim) \<Rightarrow> EscrowEvent list
   \<Rightarrow> escrow_chain" where
  "demo_chain L V T F D C G = \<lparr> c_tokens = L,
     c_mints = [Key 2 \<mapsto> \<lparr> mi_decimals = 6, mi_program = Prog SplTokenProgram \<rparr>,
                Key 7 \<mapsto> \<lparr> mi_decimals = 6, mi_program = Prog Token2022Program \<rparr>],
     c_bans = (\<lambda>k. if k = Key 6 then \<lparr> ra_owner = GOVERNANCE_PROGRAM_ID, ra_data = [1] \<rparr>
                   else no_account),
     sk_config = Some demo_config,
     sk_stakes = [(Key 21, Arbitrator) \<mapsto> demo_arbitrator (Key 21) 40,
                  (Key 22, Arbitrator) \<mapsto> demo_arbitrator (Key 22) 30,
                  (Key 23, Arbitrator) \<mapsto> demo_arbitrator (Key 23) 20],
     sk_receipts = Map.empty, sk_log = [], es_vaults = V, es_trades = T, es_fee_config = F,
     es_cases = D, es_claims = C, es_policy = None, es_log = G \<rparr>"


section \<open>Configuration and a funded trade\<close>

definition demo_start :: escrow_chain where
  "demo_start = demo_chain
     [Key 31 \<mapsto> demo_account (Key 7) (Key 1) 1000, Key 32 \<mapsto> demo_account (Key 2) (Key 1) 100,
      Key 51 \<mapsto> demo_account (Key 7) (Key 5) 0, Key 61 \<mapsto> demo_account (Key 7) (Key 9) 0,
      Key 62 \<mapsto> demo_account (Key 7) (Key 9) 0, Key 63 \<mapsto> demo_account (Key 7) (Key 9) 0,
      Key 64 \<mapsto> demo_account (Key 7) (Key 9) 0, Key 71 \<mapsto> demo_account (Key 2) (Key 21) 0]
     Map.empty Map.empty None Map.empty Map.empty []"

definition demo_setup :: "(sysvars \<times> escrow_ix) list" where
  "demo_setup =
     [(demo_sv 100, IxInitializeFeeConfig (Key 9)
         \<lparr> if_ad_listing_fee = 1, if_dispute_filing_fee = 10, if_settlement_fee_bps = 50,
           if_dev_treasury = Key 61, if_ecosystem_treasury = Key 62, if_infra_treasury = Key 63,
           if_emergency_reserve = Key 64, if_dev_treasury_bps = 4000,
           if_ecosystem_treasury_bps = 3000, if_infra_treasury_bps = 2000,
           if_emergency_reserve_bps = 1000, if_timeout_secs = 600 \<rparr>),
      (demo_sv 101, IxUpdateFeeConfig (Key 9) (Key 7) (Key 61) (Key 62) (Key 63) (Key 64)
         \<lparr> uf_ad_listing_fee = 4, uf_dispute_filing_fee = 30, uf_settlement_fee_bps = 100,
           uf_dev_treasury_bps = 4000, uf_ecosystem_treasury_bps = 3000,
           uf_infra_treasury_bps = 2000, uf_emergency_reserve_bps = 1000, uf_timeout_secs = 1800,
           uf_min_arbitrator_stake_age_secs = 0, uf_arbitrator_sortition_bps = 0,
           uf_settlement_mints = [Key 7] \<rparr>),
      (demo_sv 102, IxInitializeArbitrationPool (Key 9) (Key 2) (Prog SplTokenProgram)),
      (demo_sv 103, IxCreateLiquidityVault (Key 1) (Key 7) (Prog Token2022Program)),
      (demo_sv 104, IxCreateLiquidityVault (Key 1) (Key 2) (Prog SplTokenProgram))]"

definition demo_trading :: "(sysvars \<times> escrow_ix) list" where
  "demo_trading =
     [(demo_sv 105, IxDepositLiquidity (Key 1) (Key 31) (Key 7) (Prog Token2022Program) 1000),
      (demo_sv 106, IxDepositLiquidity (Key 1) (Key 32) (Key 2) (Prog SplTokenProgram) 20),
      (demo_sv 107, IxReserveLiquidity (Key 1) (Key 7) 600),
      (demo_sv 108, IxCreateTradeEscrow (Key 1) (Key 5) (Key 7) (Prog Token2022Program) 1 500 1800),
      (demo_sv 109, IxFundTradeEscrow (Key 1) (Key 7) (Prog Token2022Program) 1)]"

definition demo_open :: escrow_chain where
  "demo_open = demo_chain (demo_accounts 1000 100 0 0 0 0 [0, 0, 0, 0])
     [(Key 1, Key 7) \<mapsto> demo_vault (Key 7) 0 0 0 0 0, (Key 1, Key 2) \<mapsto> demo_vault (Key 2) 0 0 0 0 0]
     Map.empty (Some demo_fees) Map.empty Map.empty []"

definition demo_funded :: escrow_chain where
  "demo_funded = demo_chain (demo_ledger 0 80 500 20 500 0 0 [0, 0, 0, 0])
     [(Key 1, Key 7) \<mapsto> demo_vault (Key 7) 1000 100 400 0 500,
      (Key 1, Key 2) \<mapsto> demo_vault (Key 2) 20 0 20 0 0]
     [1 \<mapsto> demo_trade AwaitingFiatSettlement False] (Some demo_fees) Map.empty Map.empty []"

lemma escrow_pda_not_key [simp]:
  "liquidity_tokens_pda m k \<noteq> Key x" "Key x \<noteq> liquidity_tokens_pda m k"
  "trade_tokens_pda i \<noteq> Key x" "Key x \<noteq> trade_tokens_pda i"
  "arbitration_pool_pda \<noteq> Key x" "Key x \<noteq> arbitration_pool_pda"
  by (simp_all add: escrow_pda_defs)

lemmas escrow_eval =
  handle_initialize_fee_config_def handle_update_fee_config_def
  handle_initialize_arbitration_pool_def vault_handler_defs trade_handler_defs trade_load_defs
  load_mint_token_def cpi_transfer_def ref_transfer_checked_def init_token_def
  token_interface_ids_def Let_def checked_add_def checked_sub_def escrow_world_simps
  ESCROW_BPS_DENOMINATOR_def MAX_SETTLEMENT_MINTS_def checked_add_i64_def in_i64_def I64_MIN_def
  I64_MAX_def allows_settlement_mint_def padded_mints_def

lemmas demo_defs =
  demo_chain_def demo_accounts_def demo_ledger_def demo_vault_def demo_trade_def demo_fees_def demo_account_def

lemma demo_setup_run: "escrow_run ref_env demo_setup demo_start = Inr demo_open"
  by (simp add: demo_setup_def demo_start_def demo_open_def demo_defs escrow_eval word_le_nat_alt
      word_less_nat_alt fun_upd_twist)

lemma demo_trading_run: "escrow_run ref_env demo_trading demo_open = Inr demo_funded"
  by (simp add: demo_trading_def demo_open_def demo_funded_def demo_defs escrow_eval
      word_le_nat_alt word_less_nat_alt fun_upd_twist)


lemma demo_start_genesis: "escrow_genesis (100, demo_start)"
  by (auto simp: escrow_genesis_def demo_start_def demo_chain_def)

lemma demo_open_reachable: "reachable escrow_genesis (escrow_step ref_env) (104, demo_open)"
proof -
  have "reachable escrow_genesis (escrow_step ref_env) (end_time 100 demo_setup, demo_open)"
    by (rule escrow_run_reachable [OF _ _ demo_setup_run], rule reachable_init,
        rule demo_start_genesis) (simp add: demo_setup_def)
  then show ?thesis by (simp add: demo_setup_def)
qed

lemma demo_funded_reachable: "reachable escrow_genesis (escrow_step ref_env) (109, demo_funded)"
proof -
  have "reachable escrow_genesis (escrow_step ref_env) (end_time 104 demo_trading, demo_funded)"
    by (rule escrow_run_reachable [OF demo_open_reachable _ demo_trading_run])
       (simp add: demo_trading_def)
  then show ?thesis by (simp add: demo_trading_def)
qed


section \<open>A dispute the buyer wins\<close>

text \<open>The buyer opens a case; the merchant's staking-mint vault covers 20 of the 30 units of the
  filing fee, so a claim for 10 is recorded. Three arbitrators commit and reveal.\<close>

definition demo_dispute :: "u64 list \<Rightarrow> DisputeOutcome option list \<Rightarrow> DisputeCase" where
  "demo_dispute weights votes =
     \<lparr> dc_reservation_id = 1, dc_trade_escrow = trade_escrow_pda 1, dc_opened_at = 110,
       dc_commit_deadline = 210, dc_reveal_deadline = 310, dc_resolved = False, dc_round = 0,
       dc_commit_window_secs = 100, dc_reveal_window_secs = 100, dc_case_seed = replicate 32 0,
       dc_round_opened_at = 110,
       dc_arbitrators = take (length votes) [Key 21, Key 22, Key 23],
       dc_commitments = replicate (length votes) (replicate 32 0),
       dc_revealed_outcomes = votes, dc_weights = weights, dc_reward_claimed = [], dc_barred = [],
       dc_deposit_vault = liquidity_vault_pda (Key 1) (Key 2), dc_deposit_mint = Key 2,
       dc_deposit = 20, dc_deposit_shortfall = 10, dc_outcome = None, dc_winning_weight = 0,
       dc_reward_pool = 0, dc_reward_remaining = 0, dc_deposit_settled = False, dc_bump = 255,
       dc_seats_taken_total = word_of_nat (length votes), dc_terminal_reason = None \<rparr>"

definition demo_shortfall :: StakeRecoveryClaim where
  "demo_shortfall = \<lparr> rc_merchant = Key 1, rc_mint = Key 2, rc_owed_total = 10,
     rc_credited_total = 0, rc_case_count = 1, rc_bump = 255 \<rparr>"

definition demo_case_log :: "EscrowEvent list" where
  "demo_case_log =
     [ArbitrationDepositTaken 1 (Key 1) (Key 5) (liquidity_vault_pda (Key 1) (Key 2)) (Key 2) 20 10 110,
      StakeRecoveryClaimRecorded 1 (Key 1) (recovery_claim_pda (Key 1) (Key 2)) (Key 2) 10 10 0 1 110]"

text \<open>The chain while the case is open.\<close>

definition demo_disputed :: "DisputeCase \<Rightarrow> escrow_chain" where
  "demo_disputed d = demo_chain (demo_ledger 0 80 500 0 500 20 0 [0, 0, 0, 0])
     [(Key 1, Key 7) \<mapsto> demo_vault (Key 7) 1000 100 400 0 500,
      (Key 1, Key 2) \<mapsto> demo_vault (Key 2) 0 0 0 0 0]
     [1 \<mapsto> demo_trade Frozen False] (Some demo_fees) [1 \<mapsto> d]
     [(Key 1, Key 2) \<mapsto> demo_shortfall] demo_case_log"

definition demo_opening :: "sysvars \<times> escrow_ix" where
  "demo_opening =
     (demo_sv 110, IxOpenDisputeCase (Key 5) 1 (Key 2) (Prog SplTokenProgram) 100 100)"

lemmas dispute_eval =
  escrow_eval dispute_handler_defs latch_case_seed_def take_deposit_def record_shortfall_def
  claim_or_new_def window_in_range_def MIN_DISPUTE_WINDOW_SECS_def MAX_DISPUTE_WINDOW_SECS_def

lemma ref_env_sha256 [simp]: "sha256 ref_env bs = replicate 32 0"
  by (simp add: ref_env_def)

lemma demo_slots:
  "48 \<le> length (slot_hashes (demo_sv t))"
  "0 < unat (u64_from_le_bytes (take 8 (slot_hashes (demo_sv t))))"
  by (simp_all add: demo_sv_def u64_from_le_bytes_def word_less_nat_alt eval_nat_numeral)

lemma demo_opening_run:
  "escrow_dispatch ref_env (fst demo_opening) (snd demo_opening) demo_funded
     = Inr (demo_disputed (demo_dispute [] []))"
  by (simp add: demo_opening_def demo_funded_def demo_disputed_def demo_dispute_def
      demo_shortfall_def demo_case_log_def demo_defs dispute_eval demo_slots word_le_nat_alt
      word_less_nat_alt fun_upd_twist)


definition demo_voting :: "(sysvars \<times> escrow_ix) list" where
  "demo_voting =
     [(demo_sv 120, IxCommitDisputeVote (Key 21) 1 (replicate 32 0)),
      (demo_sv 121, IxCommitDisputeVote (Key 22) 1 (replicate 32 0)),
      (demo_sv 122, IxCommitDisputeVote (Key 23) 1 (replicate 32 0))]"

definition demo_revealing :: "(sysvars \<times> escrow_ix) list" where
  "demo_revealing =
     [(demo_sv 220, IxRevealDisputeVote (Key 21) 1 BuyerWins (replicate 32 7)),
      (demo_sv 221, IxRevealDisputeVote (Key 22) 1 MerchantWins (replicate 32 7)),
      (demo_sv 222, IxRevealDisputeVote (Key 23) 1 BuyerWins (replicate 32 7))]"

lemmas voting_eval =
  escrow_eval dispute_handler_defs load_config_def load_arbitrator_stake_def effective_stake_def
  min_stake_for_def meets_stake_age_def stake_age_secs_def qualifies_for_seat_def
  MAX_ARBITRATORS_def list_get_def

lemma demo_voting_run:
  "escrow_run ref_env demo_voting (demo_disputed (demo_dispute [] []))
     = Inr (demo_disputed (demo_dispute [0, 0, 0] [None, None, None]))"
  by (simp add: demo_voting_def demo_disputed_def demo_dispute_def demo_defs voting_eval
      demo_config_def demo_arbitrator_def saturating_sub_i64_def word_le_nat_alt word_less_nat_alt)

lemma demo_revealing_run:
  "escrow_run ref_env demo_revealing (demo_disputed (demo_dispute [0, 0, 0] [None, None, None]))
     = Inr (demo_disputed (demo_dispute [40, 30, 20]
              [Some BuyerWins, Some MerchantWins, Some BuyerWins]))"
  by (simp add: demo_revealing_def demo_disputed_def demo_dispute_def demo_defs voting_eval
      demo_config_def demo_arbitrator_def word_le_nat_alt word_less_nat_alt)


text \<open>Executing the outcome: 60 of 90 units of stake for the buyer.\<close>

definition demo_execute :: ExecuteDisputeOutcome where
  "demo_execute = \<lparr> ex_mint = Key 7, ex_token_program = Prog Token2022Program, ex_dispute_case = 1,
     ex_trade_escrow = 1, ex_buyer_token_account = Key 51, ex_deposit_mint = Key 2,
     ex_deposit_token_program = Prog SplTokenProgram, ex_merchant_open_vault = (Key 1, Key 2),
     ex_remaining = [] \<rparr>"

definition demo_verdict :: DisputeCase where
  "demo_verdict = (demo_dispute [40, 30, 20] [Some BuyerWins, Some MerchantWins, Some BuyerWins])
     \<lparr>dc_resolved := True, dc_outcome := Some BuyerWins, dc_winning_weight := 60,
      dc_reward_claimed := [False, False, False], dc_deposit_settled := True,
      dc_reward_pool := 20, dc_reward_remaining := 20\<rparr>"

definition demo_decided :: escrow_chain where
  "demo_decided = demo_chain (demo_ledger 0 80 500 0 0 20 495 [2, 2, 1, 0])
     [(Key 1, Key 7) \<mapsto> demo_vault (Key 7) 1000 100 400 500 0,
      (Key 1, Key 2) \<mapsto> demo_vault (Key 2) 0 0 0 0 0]
     [1 \<mapsto> demo_trade Released False] (Some demo_fees) [1 \<mapsto> demo_verdict]
     [(Key 1, Key 2) \<mapsto> demo_shortfall]
     (demo_case_log @
      [EscrowReleased 1 (Key 5) (Key 1) (Key 7) 500 495 5 2 2 1 0 True 320,
       DisputeResolved 1 (Key 5) (Key 1) (Some BuyerWins) 0 60 3 20 0 320])"

lemma demo_dispute_simps [simp]:
  "dc_reservation_id (demo_dispute ws vs) = 1"
  "dc_trade_escrow (demo_dispute ws vs) = trade_escrow_pda 1"
  "dc_reveal_deadline (demo_dispute ws vs) = 310" "\<not> dc_resolved (demo_dispute ws vs)"
  "dc_round (demo_dispute ws vs) = 0" "dc_bump (demo_dispute ws vs) = 255"
  "dc_deposit (demo_dispute ws vs) = 20" "dc_deposit_mint (demo_dispute ws vs) = Key 2"
  "dc_deposit_vault (demo_dispute ws vs) = liquidity_vault_pda (Key 1) (Key 2)"
  "\<not> dc_deposit_settled (demo_dispute ws vs)"
  "dc_arbitrators (demo_dispute ws vs) = take (length vs) [Key 21, Key 22, Key 23]"
  by (simp_all add: demo_dispute_def)

lemma demo_tally:
  "tally (demo_dispute [40, 30, 20] [Some BuyerWins, Some MerchantWins, Some BuyerWins])
     = (Some BuyerWins, 3)"
  by code_simp

lemma demo_winning_weight:
  "sum_u64 (winning_weights
     (demo_dispute [40, 30, 20] [Some BuyerWins, Some MerchantWins, Some BuyerWins]) BuyerWins)
   = Some 60"
  by (simp add: winning_weights_def case_votes_def demo_dispute_def checked_add_def)


definition demo_ctx :: "DisputeCase \<Rightarrow> escrow_chain execute_ctx" where
  "demo_ctx d = \<lparr> cx_mint = Key 7, cx_decimals = 6, cx_token_program = Prog Token2022Program,
     cx_dispute_case = d, cx_trade_escrow = demo_trade Frozen False,
     cx_liquidity_vault = demo_vault (Key 7) 1000 100 400 0 500, cx_buyer_token_account = Key 51,
     cx_fee_config = demo_fees, cx_deposit_mint = Key 2, cx_deposit_decimals = 6,
     cx_deposit_token_program = Prog SplTokenProgram,
     cx_merchant_open_vault = demo_vault (Key 2) 0 0 0 0 0, cx_remaining = [],
     cx_world = demo_disputed d \<rparr>"

lemma demo_load:
  "load_execute_ctx ref_env demo_execute (demo_disputed (demo_dispute ws vs))
     = Inr (demo_ctx (demo_dispute ws vs))"
  by (simp add: load_execute_ctx_def demo_execute_def demo_ctx_def demo_disputed_def demo_chain_def
      trade_load_defs demo_trade_def demo_vault_def demo_ledger_def demo_accounts_def
      demo_account_def demo_fees_def fee_treasuries_def token_interface_ids_def Let_def)

lemma demo_shares:
  "mul_div_u64 500 100 10000 = Some 5" "mul_div_u64 5 4000 10000 = Some 2"
  "mul_div_u64 5 3000 10000 = Some 1" "mul_div_u64 5 2000 10000 = Some 1"
  "mul_div_u64 5 1000 10000 = Some 0"
  by (simp_all add: mul_div_u64_def checked_mul_def checked_div_def)

lemma demo_fee_split: "compute_fee_split demo_fees 500 = Inr (495, [2, 2, 1, 0])"
  by (simp add: compute_fee_split_def split_fee_four_ways_def fee_splits_def demo_fees_def
      demo_shares checked_add_def checked_sub_def ESCROW_BPS_DENOMINATOR_def
      ECOSYSTEM_TREASURY_SHARE_def)

lemma demo_release_funds:
  "release_trade_escrow_funds ref_env (Prog Token2022Program) (Key 7) 6 (demo_trade state approved)
     (Key 51) (demo_vault (Key 7) 1000 100 400 0 500) demo_fees
     (demo_chain (demo_ledger ws wo vs vo 500 pool 0 [0, 0, 0, 0]) V T F D C G)
   = Inr (demo_trade Released approved, demo_vault (Key 7) 1000 100 400 500 0, 495, [2, 2, 1, 0],
          demo_chain (demo_ledger ws wo vs vo 0 pool 495 [2, 2, 1, 0]) V T F D C G)"
proof -
  have "release_destinations demo_fees (Key 51) 495 [2, 2, 1, 0]
      = [(495, Key 51), (2, Key 61), (2, Key 62), (1, Key 63), (0, Key 64)]"
    by (simp add: release_destinations_def fee_treasuries_def demo_fees_def)
  then show ?thesis
    by (simp add: release_trade_escrow_funds_def demo_fee_split demo_trade_def demo_vault_def
        demo_chain_def demo_ledger_def demo_accounts_def demo_account_def cpi_transfer_def
        ref_transfer_checked_def checked_add_def checked_sub_def Let_def word_le_nat_alt
        word_less_nat_alt fun_upd_twist)
qed


text \<open>The three votes of the case.\<close>

definition demo_voted :: DisputeCase where
  "demo_voted = demo_dispute [40, 30, 20] [Some BuyerWins, Some MerchantWins, Some BuyerWins]"

lemma demo_execute_run:
  "escrow_dispatch ref_env (demo_sv 320) (IxExecuteDisputeOutcome demo_execute)
     (demo_disputed demo_voted) = Inr demo_decided"
proof -
  let ?d = "demo_voted\<lparr>dc_deposit_settled := True, dc_reward_pool := 20, dc_reward_remaining := 20\<rparr>"
  have settle: "settle_deposit ref_env (Some BuyerWins) (demo_ctx demo_voted)
      = Inr (20, 0, (demo_ctx demo_voted)\<lparr>cx_dispute_case := ?d\<rparr>)"
    by (simp add: settle_deposit_def demo_ctx_def demo_voted_def Let_def)
  have "execute_body ref_env (demo_sv 320) (demo_ctx demo_voted) = Inr ((demo_ctx demo_voted)
      \<lparr>cx_dispute_case := demo_verdict, cx_trade_escrow := demo_trade Released False,
       cx_liquidity_vault := demo_vault (Key 7) 1000 100 400 500 0,
       cx_world := demo_chain (demo_ledger 0 80 500 0 0 20 495 [2, 2, 1, 0])
         [(Key 1, Key 7) \<mapsto> demo_vault (Key 7) 1000 100 400 0 500,
          (Key 1, Key 2) \<mapsto> demo_vault (Key 2) 0 0 0 0 0]
         [1 \<mapsto> demo_trade Frozen False] (Some demo_fees) [1 \<mapsto> demo_voted]
         [(Key 1, Key 2) \<mapsto> demo_shortfall] (es_log demo_decided)\<rparr>)"
    using settle demo_release_funds [of Frozen False 0 80 500 0 20]
    by (simp add: execute_body_def demo_voted_def demo_tally demo_winning_weight apply_outcome_def
        ctx_release_def ctx_emit_def demo_ctx_def demo_disputed_def Let_def checked_sub_def
        word_le_nat_alt emit_escrow_def resolved_event_def released_event_def demo_trade_def
        demo_verdict_def demo_decided_def demo_chain_def)
  then show ?thesis
    using demo_load
    by (simp add: handle_execute_dispute_outcome_def demo_voted_def store_execute_ctx_def
        demo_ctx_def demo_execute_def demo_decided_def demo_chain_def escrow_world_simps
        demo_trade_def)
qed

lemma demo_disputed_reachable:
  "reachable escrow_genesis (escrow_step ref_env) (110, demo_disputed (demo_dispute [] []))"
proof -
  have "reachable escrow_genesis (escrow_step ref_env) (end_time 109 [demo_opening],
      demo_disputed (demo_dispute [] []))"
    by (rule escrow_run_reachable [OF demo_funded_reachable])
       (use demo_opening_run in \<open>simp_all add: demo_opening_def\<close>)
  then show ?thesis by (simp add: demo_opening_def)
qed

lemma demo_committed_reachable:
  "reachable escrow_genesis (escrow_step ref_env)
     (122, demo_disputed (demo_dispute [0, 0, 0] [None, None, None]))"
proof -
  have "reachable escrow_genesis (escrow_step ref_env) (end_time 110 demo_voting,
      demo_disputed (demo_dispute [0, 0, 0] [None, None, None]))"
    by (rule escrow_run_reachable [OF demo_disputed_reachable _ demo_voting_run])
       (simp add: demo_voting_def)
  then show ?thesis by (simp add: demo_voting_def)
qed

lemma demo_voted_reachable:
  "reachable escrow_genesis (escrow_step ref_env) (222, demo_disputed demo_voted)"
proof -
  have "reachable escrow_genesis (escrow_step ref_env) (end_time 122 demo_revealing,
      demo_disputed demo_voted)"
    unfolding demo_voted_def
    by (rule escrow_run_reachable [OF demo_committed_reachable _ demo_revealing_run])
       (simp add: demo_revealing_def)
  then show ?thesis by (simp add: demo_revealing_def)
qed

lemma demo_decided_reachable:
  "reachable escrow_genesis (escrow_step ref_env) (320, demo_decided)"
proof -
  have "reachable escrow_genesis (escrow_step ref_env)
      (end_time 222 [(demo_sv 320, IxExecuteDisputeOutcome demo_execute)], demo_decided)"
    by (rule escrow_run_reachable [OF demo_voted_reachable]) (use demo_execute_run in simp_all)
  then show ?thesis by simp
qed

end
