(* ===== verification/Escrow_Frames.thy ===== *)
theory Escrow_Frames
  imports Escrow_System
begin

text \<open>
  What each escrow instruction leaves alone: frames for the stages of executing an outcome, the
  trades and cases an instruction can touch, and how the touched one may change.
\<close>


section \<open>Stages of an execution\<close>

lemma settle_deposit_frame:
  assumes ok: "settle_deposit env outcome ctx = Inr (reward, refund, ctx1)"
  obtains s p r V L where "ctx1 = ctx\<lparr>cx_dispute_case := (cx_dispute_case ctx)
        \<lparr>dc_deposit_settled := s, dc_reward_pool := p, dc_reward_remaining := r\<rparr>,
      cx_merchant_open_vault := V, cx_world := (cx_world ctx)\<lparr>c_tokens := L\<rparr>\<rparr>"
proof -
  let ?d = "cx_dispute_case ctx" and ?w = "cx_world ctx"
  consider "ctx1 = ctx" | D V w1 where "ctx1 = ctx\<lparr>cx_dispute_case := D, cx_merchant_open_vault := V,
        cx_world := w1\<rparr>" "\<exists>L. w1 = ?w\<lparr>c_tokens := L\<rparr>"
      "\<exists>s p r. D = ?d\<lparr>dc_deposit_settled := s, dc_reward_pool := p, dc_reward_remaining := r\<rparr>"
  proof (cases "dc_deposit_settled ?d \<or> dc_deposit ?d = 0")
    case True
    with ok show thesis by (intro that(1)) (auto simp: settle_deposit_def Let_def)
  next
    case False
    show thesis
    proof (cases "outcome = Some BuyerWins")
      case True
      with False ok show thesis
        by (intro that(2) [of ?w "cx_merchant_open_vault ctx" "?d\<lparr>dc_deposit_settled := True,
              dc_reward_pool := dc_deposit ?d, dc_reward_remaining := dc_deposit ?d\<rparr>"])
           (auto simp: settle_deposit_def Let_def intro: exI [of _ "c_tokens ?w"])
    next
      case other: False
      with False ok obtain w1 V a b c d e f where
        "cpi_transfer env a b c d e f (cx_deposit_decimals ctx) ?w
           = (Inr w1 :: EscrowErrorCode tx_error + _)"
        "ctx1 = ctx\<lparr>cx_dispute_case := ?d\<lparr>dc_deposit_settled := True\<rparr>,
           cx_merchant_open_vault := V, cx_world := w1\<rparr>"
        by (auto simp: settle_deposit_def Let_def)
      moreover from cpi_transfer_frame [OF this(1)] have "\<exists>L. w1 = ?w\<lparr>c_tokens := L\<rparr>" .
      moreover have "?d\<lparr>dc_deposit_settled := True\<rparr> = ?d\<lparr>dc_deposit_settled := True,
          dc_reward_pool := dc_reward_pool ?d, dc_reward_remaining := dc_reward_remaining ?d\<rparr>"
        by simp
      ultimately show thesis by (intro that(2)) blast+
    qed
  qed
  then show thesis
  proof cases
    case 1
    then show thesis
      by (intro that [of "c_tokens ?w" "cx_merchant_open_vault ctx" "dc_reward_remaining ?d"
            "dc_reward_pool ?d" "dc_deposit_settled ?d"]) simp
  qed (use that in blast)
qed

lemma split_frame:
  assumes "split_trade_escrow_evenly env tp mint d e b v k w = Inr (e', v', w1)"
  shows "e' = e\<lparr>te_state := Released\<rparr> \<and> (\<exists>L. w1 = w\<lparr>c_tokens := L\<rparr>)"
  using assms
  by (auto simp: split_trade_escrow_evenly_def Let_def simp del: transfer_each.simps
      dest: transfer_each_frame)

lemma unwind_frame:
  assumes "unwind_funded_trade_escrow env tp mint d e v k w = Inr (v', w1)"
  shows "\<exists>L. w1 = w\<lparr>c_tokens := L\<rparr>"
  using assms by (auto simp: unwind_funded_trade_escrow_def Let_def dest: cpi_transfer_frame)

lemma release_frame_trade:
  assumes "release_trade_escrow_funds env tp mint d e b v fc w = Inr (e', v', x, y, w1)"
  shows "e' = e\<lparr>te_state := Released\<rparr>"
  using assms by (auto simp: release_trade_escrow_funds_def Let_def simp del: transfer_each.simps)

lemma ctx_split_frame:
  assumes "ctx_split env ctx = Inr ctx1"
  obtains V L where "ctx1 = ctx\<lparr>cx_trade_escrow := (cx_trade_escrow ctx)\<lparr>te_state := Released\<rparr>,
      cx_liquidity_vault := V, cx_world := (cx_world ctx)\<lparr>c_tokens := L\<rparr>\<rparr>"
proof -
  from assms obtain e v w1 tp mint d b k where
    "split_trade_escrow_evenly env tp mint d (cx_trade_escrow ctx) b (cx_liquidity_vault ctx) k
       (cx_world ctx) = Inr (e, v, w1)"
    and c: "ctx1 = ctx\<lparr>cx_trade_escrow := e, cx_liquidity_vault := v, cx_world := w1\<rparr>"
    by (auto simp: ctx_split_def)
  from split_frame [OF this(1)] c that show thesis by blast
qed

lemma ctx_unwind_frame:
  assumes "ctx_unwind env ctx = Inr ctx1"
  obtains V L where "ctx1 = ctx\<lparr>cx_trade_escrow := (cx_trade_escrow ctx)\<lparr>te_state := Cancelled\<rparr>,
      cx_liquidity_vault := V, cx_world := (cx_world ctx)\<lparr>c_tokens := L\<rparr>\<rparr>"
proof -
  from assms obtain v w1 tp mint d k where
    "unwind_funded_trade_escrow env tp mint d (cx_trade_escrow ctx) (cx_liquidity_vault ctx) k
       (cx_world ctx) = Inr (v, w1)"
    and c: "ctx1 = ctx\<lparr>cx_trade_escrow := (cx_trade_escrow ctx)\<lparr>te_state := Cancelled\<rparr>,
      cx_liquidity_vault := v, cx_world := w1\<rparr>"
    by (auto simp: ctx_unwind_def)
  from unwind_frame [OF this(1)] c that show thesis by blast
qed

lemma ctx_release_frame:
  assumes "ctx_release env now ctx = Inr ctx1"
  obtains V L G where "ctx1 = ctx\<lparr>cx_trade_escrow := (cx_trade_escrow ctx)\<lparr>te_state := Released\<rparr>,
      cx_liquidity_vault := V, cx_world := (cx_world ctx)\<lparr>c_tokens := L, es_log := G\<rparr>\<rparr>"
proof -
  from assms obtain e v x y w1 tp mint d b fc ev where
    r: "release_trade_escrow_funds env tp mint d (cx_trade_escrow ctx) b (cx_liquidity_vault ctx) fc
       (cx_world ctx) = Inr (e, v, x, y, w1)"
    and c: "ctx1 = ctx\<lparr>cx_trade_escrow := e, cx_liquidity_vault := v, cx_world := emit_escrow ev w1\<rparr>"
    by (auto simp: ctx_release_def)
  from release_frame [OF r] obtain L where "w1 = (cx_world ctx)\<lparr>c_tokens := L\<rparr>" by blast
  then have "ctx1 = ctx\<lparr>cx_trade_escrow := (cx_trade_escrow ctx)\<lparr>te_state := Released\<rparr>,
      cx_liquidity_vault := v,
      cx_world := (cx_world ctx)\<lparr>c_tokens := L, es_log := es_log w1 @ [ev]\<rparr>\<rparr>"
    using release_frame_trade [OF r] c by (simp add: emit_escrow_def)
  then show thesis by (rule that)
qed

lemma apply_outcome_frame:
  assumes "apply_outcome env now outcome ctx = Inr ctx1"
  obtains V L G state where "ctx1 = ctx\<lparr>cx_trade_escrow := (cx_trade_escrow ctx)\<lparr>te_state := state\<rparr>,
      cx_liquidity_vault := V, cx_world := (cx_world ctx)\<lparr>c_tokens := L, es_log := G\<rparr>\<rparr>"
    and "state = (case outcome of BuyerWins \<Rightarrow> Released | MutualSettlement \<Rightarrow> Released | _ \<Rightarrow> Cancelled)"
proof -
  have log: "(cx_world ctx)\<lparr>c_tokens := L\<rparr> = (cx_world ctx)\<lparr>c_tokens := L, es_log := es_log (cx_world ctx)\<rparr>"
    for L by simp
  show thesis
  proof (cases outcome)
    case BuyerWins
    with assms have "ctx_release env now ctx = Inr ctx1" by (simp add: apply_outcome_def)
    then show thesis by (rule ctx_release_frame) (use BuyerWins in \<open>auto intro!: that\<close>)
  next
    case MutualSettlement
    with assms have "ctx_split env ctx = Inr ctx1" by (simp add: apply_outcome_def)
    then show thesis
      by (rule ctx_split_frame) (rule that, subst (asm) log, assumption, simp add: MutualSettlement)
  next
    case MerchantWins
    with assms have "ctx_unwind env ctx = Inr ctx1" by (simp add: apply_outcome_def)
    then show thesis
      by (rule ctx_unwind_frame) (rule that, subst (asm) log, assumption, simp add: MerchantWins)
  next
    case InvalidDispute
    with assms have "ctx_unwind env ctx = Inr ctx1" by (simp add: apply_outcome_def)
    then show thesis
      by (rule ctx_unwind_frame) (rule that, subst (asm) log, assumption, simp add: InvalidDispute)
  qed
qed


text \<open>The three ways a round can end: with an outcome, with the terminal split, or reopened.\<close>

fun outcome_state :: "DisputeOutcome option \<Rightarrow> VaultState" where
  "outcome_state (Some MerchantWins) = Cancelled"
| "outcome_state (Some InvalidDispute) = Cancelled"
| "outcome_state _ = Released"

definition round_ended ::
  "DisputeCase \<Rightarrow> DisputeCase \<Rightarrow> VaultState \<Rightarrow> VaultState \<Rightarrow> bool" where
  "round_ended d d' state state' \<longleftrightarrow>
     (if dc_resolved d'
      then dc_outcome d' = fst (tally d) \<and> state' = outcome_state (fst (tally d))
           \<and> dc_round d' = dc_round d \<and> (fst (tally d) = None \<longrightarrow> dc_terminal_reason d' \<noteq> None)
      else fst (tally d) = None \<and> state' = state \<and> unat (dc_round d') = unat (dc_round d) + 1
           \<and> unat (dc_round d') < unat MAX_DISPUTE_ROUNDS)"

text \<open>What identifies a case.\<close>

definition same_case :: "DisputeCase \<Rightarrow> DisputeCase \<Rightarrow> bool" where
  "same_case d d' \<longleftrightarrow> dc_reservation_id d' = dc_reservation_id d
     \<and> dc_trade_escrow d' = dc_trade_escrow d \<and> dc_opened_at d' = dc_opened_at d
     \<and> dc_commit_window_secs d' = dc_commit_window_secs d
     \<and> dc_reveal_window_secs d' = dc_reveal_window_secs d
     \<and> dc_deposit_vault d' = dc_deposit_vault d \<and> dc_deposit_mint d' = dc_deposit_mint d"

lemma same_case_refl [simp]: "same_case d d"
  by (simp add: same_case_def)

definition ctx_advanced ::
  "'z escrow_chain_scheme execute_ctx \<Rightarrow> 'z escrow_chain_scheme execute_ctx \<Rightarrow> bool" where
  "ctx_advanced ctx ctx1 \<longleftrightarrow>
     (\<exists>D state v ov L G. ctx1 = ctx\<lparr>cx_dispute_case := D,
        cx_trade_escrow := (cx_trade_escrow ctx)\<lparr>te_state := state\<rparr>, cx_liquidity_vault := v,
        cx_merchant_open_vault := ov, cx_world := (cx_world ctx)\<lparr>c_tokens := L, es_log := G\<rparr>\<rparr>
      \<and> same_case (cx_dispute_case ctx) D
      \<and> round_ended (cx_dispute_case ctx) D (te_state (cx_trade_escrow ctx)) state)"

lemma ctx_advancedI:
  assumes "ctx1 = ctx\<lparr>cx_dispute_case := D,
        cx_trade_escrow := (cx_trade_escrow ctx)\<lparr>te_state := state\<rparr>, cx_liquidity_vault := v,
        cx_merchant_open_vault := ov, cx_world := (cx_world ctx)\<lparr>c_tokens := L, es_log := G\<rparr>\<rparr>"
    and "same_case (cx_dispute_case ctx) D"
    and "round_ended (cx_dispute_case ctx) D (te_state (cx_trade_escrow ctx)) state"
  shows "ctx_advanced ctx ctx1"
  using assms unfolding ctx_advanced_def by blast

lemma terminal_split_advanced:
  assumes ok: "terminal_split env now floor reason n m (ctx\<lparr>cx_dispute_case := D\<rparr>) = Inr ctx1"
    and D: "same_case (cx_dispute_case ctx) D" "dc_round D = dc_round (cx_dispute_case ctx)"
    and undecided: "fst (tally (cx_dispute_case ctx)) = None"
  shows "ctx_advanced ctx ctx1"
proof -
  from ok obtain rp rf c1 c2 ev1 ev2 where
    c1: "settle_deposit env None (ctx\<lparr>cx_dispute_case := D\<rparr>) = Inr (rp, rf, c1)"
    and c2: "ctx_split env c1 = Inr c2"
    and out: "ctx1 = ctx_emit ev2 (ctx_emit ev1 (c2\<lparr>cx_dispute_case :=
       (cx_dispute_case c2)\<lparr>dc_resolved := True, dc_outcome := None,
          dc_terminal_reason := Some reason\<rparr>\<rparr>))"
    by (auto simp: terminal_split_def Let_def)
  from c1 obtain s p r V L where
    c1': "c1 = ctx\<lparr>cx_dispute_case := D\<lparr>dc_deposit_settled := s, dc_reward_pool := p,
        dc_reward_remaining := r\<rparr>, cx_merchant_open_vault := V,
        cx_world := (cx_world ctx)\<lparr>c_tokens := L\<rparr>\<rparr>"
    by (rule settle_deposit_frame) simp
  from c2 obtain V' L' where c2': "c2 = c1\<lparr>cx_trade_escrow := (cx_trade_escrow c1)\<lparr>te_state := Released\<rparr>,
      cx_liquidity_vault := V', cx_world := (cx_world c1)\<lparr>c_tokens := L'\<rparr>\<rparr>"
    by (rule ctx_split_frame)
  show ?thesis
    by (rule ctx_advancedI [where D = "D\<lparr>dc_deposit_settled := s, dc_reward_pool := p,
          dc_reward_remaining := r, dc_resolved := True, dc_outcome := None,
          dc_terminal_reason := Some reason\<rparr>" and state = Released and v = V' and ov = V and L = L'
          and G = "es_log (cx_world ctx) @ [ev1, ev2]"])
       (use D undecided in \<open>simp_all add: out c2' c1' ctx_emit_def emit_escrow_def same_case_def
          round_ended_def\<close>)
qed

lemma reopen_advanced:
  assumes ok: "reopen_round env sv now next_round (ctx\<lparr>cx_dispute_case := D\<rparr>) = Inr ctx1"
    and D: "same_case (cx_dispute_case ctx) D" "dc_resolved D = dc_resolved (cx_dispute_case ctx)"
    and undecided: "fst (tally (cx_dispute_case ctx)) = None" "\<not> dc_resolved (cx_dispute_case ctx)"
    and round: "unat next_round = unat (dc_round (cx_dispute_case ctx)) + 1"
      "next_round < MAX_DISPUTE_ROUNDS"
  shows "ctx_advanced ctx ctx1"
proof -
  from ok obtain D' where out: "ctx1 = ctx\<lparr>cx_dispute_case := D'\<rparr>" and D': "same_case D D'"
      "dc_resolved D' = dc_resolved D" "dc_round D' = next_round"
    unfolding reopen_round_def Let_def by (auto simp: same_case_def)
  show ?thesis
    by (rule ctx_advancedI [where D = D' and state = "te_state (cx_trade_escrow ctx)"
          and v = "cx_liquidity_vault ctx" and ov = "cx_merchant_open_vault ctx"
          and L = "c_tokens (cx_world ctx)" and G = "es_log (cx_world ctx)"])
       (use D D' undecided round in \<open>simp_all add: out same_case_def round_ended_def
          word_less_nat_alt\<close>)
qed


lemma bar_same_case: "same_case d (bar_silent_seats d)"
  by (simp add: same_case_def bar_silent_seats_def)

lemma undecidedE:
  assumes "handle_undecided_round env sv now n ctx = Inr ctx1"
  obtains (split) floor reason m where "terminal_split env now floor reason m n
      (ctx\<lparr>cx_dispute_case := bar_silent_seats (cx_dispute_case ctx)\<rparr>) = Inr ctx1"
  | (reopen) next_round where "unat next_round = unat (dc_round (cx_dispute_case ctx)) + 1"
    and "next_round < MAX_DISPUTE_ROUNDS" and "reopen_round env sv now next_round
      (ctx\<lparr>cx_dispute_case := bar_silent_seats (cx_dispute_case ctx)\<rparr>) = Inr ctx1"
  using assms
  by (auto simp: handle_undecided_round_def Let_def checked_add_Some not_le split: if_splits)

lemma undecided_advanced:
  assumes ok: "handle_undecided_round env sv now n ctx = Inr ctx1"
    and undecided: "fst (tally (cx_dispute_case ctx)) = None" "\<not> dc_resolved (cx_dispute_case ctx)"
  shows "ctx_advanced ctx ctx1"
  using ok
proof (cases rule: undecidedE)
  case split
  then show ?thesis by (rule terminal_split_advanced [OF _ bar_same_case]) (use undecided in simp_all)
next
  case reopen
  show ?thesis
    by (rule reopen_advanced [OF reopen(3) bar_same_case]) (use reopen undecided in simp_all)
qed

lemma execute_body_advanced:
  assumes ok: "execute_body env sv ctx = Inr ctx1" and "\<not> dc_resolved (cx_dispute_case ctx)"
  shows "ctx_advanced ctx ctx1"
proof (cases "fst (tally (cx_dispute_case ctx))")
  case None
  then obtain n where "tally (cx_dispute_case ctx) = (None, n)" by (metis prod.collapse)
  with ok have "handle_undecided_round env sv (unix_timestamp sv) n ctx = Inr ctx1"
    by (simp add: execute_body_def Let_def)
  then show ?thesis by (rule undecided_advanced) (use None assms(2) in auto)
next
  case (Some outcome)
  then obtain n where tally: "tally (cx_dispute_case ctx) = (Some outcome, n)"
    by (metis prod.collapse)
  from ok [unfolded execute_body_def Let_def tally] obtain ww rp rf c1 c2 claimed ev where
    c1: "settle_deposit env (Some outcome) ctx = Inr (rp, rf, c1)"
    and c2: "apply_outcome env (unix_timestamp sv) outcome c1 = Inr c2"
    and out: "ctx1 = ctx_emit ev (c2\<lparr>cx_dispute_case := (cx_dispute_case c2)\<lparr>dc_resolved := True,
        dc_outcome := Some outcome, dc_winning_weight := ww, dc_reward_claimed := claimed\<rparr>\<rparr>)"
    by (simp only: option.case prod.case require_Inr ok_or_Inr and_then_Inr, elim conjE exE)
       (fastforce simp: case_prod_beta)
  from c1 obtain s p r V L where
    c1': "c1 = ctx\<lparr>cx_dispute_case := (cx_dispute_case ctx)\<lparr>dc_deposit_settled := s,
        dc_reward_pool := p, dc_reward_remaining := r\<rparr>, cx_merchant_open_vault := V,
        cx_world := (cx_world ctx)\<lparr>c_tokens := L\<rparr>\<rparr>"
    by (rule settle_deposit_frame)
  from c2 obtain v L' G state where c2': "c2 = c1\<lparr>cx_trade_escrow := (cx_trade_escrow c1)\<lparr>te_state := state\<rparr>,
      cx_liquidity_vault := v, cx_world := (cx_world c1)\<lparr>c_tokens := L', es_log := G\<rparr>\<rparr>"
    and state: "state = (case outcome of BuyerWins \<Rightarrow> Released | MutualSettlement \<Rightarrow> Released
                         | _ \<Rightarrow> Cancelled)"
    by (rule apply_outcome_frame)
  have "state = outcome_state (Some outcome)" using state by (cases outcome) auto
  then show ?thesis
    by (intro ctx_advancedI [where D = "(cx_dispute_case ctx)\<lparr>dc_deposit_settled := s,
          dc_reward_pool := p, dc_reward_remaining := r, dc_resolved := True,
          dc_outcome := Some outcome, dc_winning_weight := ww, dc_reward_claimed := claimed\<rparr>"
          and state = state and v = v and ov = V and L = L' and G = "G @ [ev]"])
       (use Some in \<open>simp_all add: out c2' c1' ctx_emit_def emit_escrow_def same_case_def
          round_ended_def\<close>)
qed

text \<open>The instruction as a whole.\<close>

lemma executeE:
  assumes "handle_execute_dispute_outcome env sv a w = Inr w'"
  obtains d e d' state where "es_cases w (ex_dispute_case a) = Some d" and "\<not> dc_resolved d"
    and "es_trades w (ex_trade_escrow a) = Some e" and "te_state e = Frozen"
    and "trade_escrow_pda (ex_trade_escrow a) = dc_trade_escrow d" and "te_mint e = ex_mint a"
    and "ex_deposit_mint a = dc_deposit_mint d"
    and "dc_deposit_vault d \<noteq> liquidity_vault_pda (te_seller e) (te_mint e)"
    and "dc_reveal_deadline d \<le> unix_timestamp sv"
    and "es_cases w' = (es_cases w)(ex_dispute_case a \<mapsto> d')"
    and "es_trades w' = (es_trades w)(ex_trade_escrow a \<mapsto> e\<lparr>te_state := state\<rparr>)"
    and "es_claims w' = es_claims w" and "es_fee_config w' = es_fee_config w"
    and "same_case d d'" and "round_ended d d' Frozen state"
proof -
  from assms obtain ctx ctx1 where load: "load_execute_ctx env a w = Inr ctx"
    and body: "execute_body env sv ctx = Inr ctx1" and w': "w' = store_execute_ctx a ctx1"
    by (auto simp: handle_execute_dispute_outcome_def)
  from load have l: "es_cases w (ex_dispute_case a) = Some (cx_dispute_case ctx)"
    "\<not> dc_resolved (cx_dispute_case ctx)"
    "es_trades w (ex_trade_escrow a) = Some (cx_trade_escrow ctx)"
    "te_state (cx_trade_escrow ctx) = Frozen" "cx_world ctx = w"
    "trade_escrow_pda (ex_trade_escrow a) = dc_trade_escrow (cx_dispute_case ctx)"
    "te_mint (cx_trade_escrow ctx) = ex_mint a"
    "ex_deposit_mint a = dc_deposit_mint (cx_dispute_case ctx)"
    "dc_deposit_vault (cx_dispute_case ctx)
       \<noteq> liquidity_vault_pda (te_seller (cx_trade_escrow ctx)) (te_mint (cx_trade_escrow ctx))"
    unfolding load_execute_ctx_def Let_def trade_load_defs by auto
  from body have "dc_reveal_deadline (cx_dispute_case ctx) \<le> unix_timestamp sv"
    by (simp add: execute_body_def Let_def)
  moreover from execute_body_advanced [OF body l(2)] obtain D state v ov L G where
    c: "ctx1 = ctx\<lparr>cx_dispute_case := D,
        cx_trade_escrow := (cx_trade_escrow ctx)\<lparr>te_state := state\<rparr>, cx_liquidity_vault := v,
        cx_merchant_open_vault := ov, cx_world := (cx_world ctx)\<lparr>c_tokens := L, es_log := G\<rparr>\<rparr>"
      "same_case (cx_dispute_case ctx) D"
      "round_ended (cx_dispute_case ctx) D Frozen state"
    unfolding ctx_advanced_def l(4) by blast
  moreover from w' c(1) l(5) have "es_cases w' = (es_cases w)(ex_dispute_case a \<mapsto> D)"
    "es_trades w' = (es_trades w)(ex_trade_escrow a \<mapsto> (cx_trade_escrow ctx)\<lparr>te_state := state\<rparr>)"
    "es_claims w' = es_claims w" "es_fee_config w' = es_fee_config w"
    by (simp_all add: store_execute_ctx_def escrow_world_simps)
  ultimately show thesis using that l by blast
qed



section \<open>Trades under an instruction\<close>

definition trade_edge :: "VaultState \<Rightarrow> VaultState \<Rightarrow> bool" where
  "trade_edge s s' \<longleftrightarrow> (s, s') \<in> {(Reserved, AwaitingFiatSettlement), (Reserved, Cancelled),
     (AwaitingFiatSettlement, Released), (AwaitingFiatSettlement, Cancelled),
     (AwaitingFiatSettlement, Frozen), (Frozen, Released), (Frozen, Cancelled)}"

text \<open>A trade's terms are fixed; its state follows an edge or stays, and approval is not revoked.\<close>

definition trade_progress :: "TradeEscrowVault \<Rightarrow> TradeEscrowVault \<Rightarrow> bool" where
  "trade_progress e e' \<longleftrightarrow>
     e' = e\<lparr>te_state := te_state e', te_approved := te_approved e'\<rparr>
     \<and> (te_state e' = te_state e \<or> trade_edge (te_state e) (te_state e'))
     \<and> (te_approved e \<longrightarrow> te_approved e')"

lemma trade_progress_refl [simp]: "trade_progress e e"
  by (simp add: trade_progress_def)

lemma trade_progress_state:
  "trade_edge (te_state e) s \<Longrightarrow> trade_progress e (e\<lparr>te_state := s\<rparr>)"
  by (simp add: trade_progress_def)

fun trade_ix :: "escrow_ix \<Rightarrow> bool" where
  "trade_ix (IxCreateTradeEscrow _ _ _ _ _ _ _) \<longleftrightarrow> True"
| "trade_ix (IxFundTradeEscrow _ _ _ _) \<longleftrightarrow> True"
| "trade_ix (IxApproveSettlement _ _) \<longleftrightarrow> True"
| "trade_ix (IxReleaseEscrow _ _ _ _) \<longleftrightarrow> True"
| "trade_ix (IxCancelReservation _ _ _ _) \<longleftrightarrow> True"
| "trade_ix (IxExpireReservation _ _ _) \<longleftrightarrow> True"
| "trade_ix (IxOpenDisputeCase _ _ _ _ _ _) \<longleftrightarrow> True"
| "trade_ix (IxExecuteDisputeOutcome _) \<longleftrightarrow> True"
| "trade_ix _ \<longleftrightarrow> False"

lemma take_deposit_frame:
  "take_deposit env tp seller mint d deposit v w = Inr (v', w') \<Longrightarrow> \<exists>L. w' = w\<lparr>c_tokens := L\<rparr>"
  using exI [of "\<lambda>L. w = w\<lparr>c_tokens := L\<rparr>" "c_tokens w"]
  by (auto simp: take_deposit_def dest: cpi_transfer_frame split: if_splits)

lemma other_ix_trades:
  assumes "escrow_dispatch env sv ix w = Inr w'" and "\<not> trade_ix ix"
  shows "es_trades w' = es_trades w"
  using assms
  by (cases ix)
     (auto simp: handle_initialize_fee_config_def handle_update_fee_config_def
       handle_initialize_arbitration_pool_def handle_publish_arbitrator_pool_size_def
       vault_handler_defs trade_load_defs load_mint_token_def Let_def dispute_handler_defs
       escrow_world_simps init_token_def load_config_def load_arbitrator_stake_def
       simp del: transfer_each.simps
       dest!: cpi_transfer_frame transfer_each_frame take_deposit_frame split: if_splits)


lemma release_frames:
  assumes "release_trade_escrow_funds env tp mint d e b v fc w = Inr (e', v', x, y, w1)"
  shows "e' = e\<lparr>te_state := Released\<rparr> \<and> (\<exists>L. w1 = w\<lparr>c_tokens := L\<rparr>)"
  using release_frame [OF assms] release_frame_trade [OF assms] by simp

lemma close_trades:
  assumes "close_reservation env tp mint d rid e v w = Inr w1"
  shows "es_trades w1 = (es_trades w)(rid \<mapsto> e\<lparr>te_state := Cancelled\<rparr>)"
  using assms
  by (auto simp: close_reservation_def escrow_world_simps dest!: unwind_frame split: if_splits)

lemma trade_ix_progress:
  assumes "escrow_dispatch env sv ix w = Inr w'" and "trade_ix ix" and "es_trades w rid = Some e"
  shows "\<exists>e'. es_trades w' rid = Some e' \<and> trade_progress e e'"
proof (cases ix)
  case (IxCreateTradeEscrow merchant buyer mint tp r amount secs)
  with assms show ?thesis
    by (auto simp: handle_create_trade_escrow_def trade_load_defs escrow_world_simps init_token_def)
next
  case (IxFundTradeEscrow merchant mint tp r)
  with assms show ?thesis
    by (auto simp: handle_fund_trade_escrow_def trade_load_defs escrow_world_simps Let_def
        trade_edge_def intro!: trade_progress_state dest!: cpi_transfer_frame)
next
  case (IxApproveSettlement merchant r)
  with assms show ?thesis
    by (auto simp: handle_approve_settlement_def trade_load_defs escrow_world_simps
        trade_progress_def)
next
  case (IxReleaseEscrow mint tp r account)
  with assms show ?thesis
    by (auto simp: handle_release_escrow_def trade_load_defs escrow_world_simps trade_edge_def
        intro!: trade_progress_state dest!: release_frames)
next
  case (IxCancelReservation signer mint tp r)
  with assms show ?thesis
    by (auto simp: handle_cancel_reservation_def load_open_reservation_def trade_load_defs
        trade_edge_def intro!: trade_progress_state dest!: close_trades)
next
  case (IxExpireReservation mint tp r)
  with assms show ?thesis
    by (auto simp: handle_expire_reservation_def load_open_reservation_def trade_load_defs
        trade_edge_def intro!: trade_progress_state dest!: close_trades)
next
  case (IxOpenDisputeCase signer r mint tp cw rw)
  with assms(1) have "handle_open_dispute_case env sv signer r mint tp cw rw w = Inr w'" by simp
  then obtain e1 where "es_trades w r = Some e1" "te_state e1 = AwaitingFiatSettlement"
      "es_trades w' = (es_trades w)(r \<mapsto> e1\<lparr>te_state := Frozen\<rparr>)"
    by (rule open_disputeE)
       (auto simp: escrow_world_simps dest!: take_deposit_frame record_shortfall_frame)
  with assms(3) show ?thesis by (auto simp: trade_edge_def intro!: trade_progress_state)
next
  case (IxExecuteDisputeOutcome a)
  with assms(1) have "handle_execute_dispute_outcome env sv a w = Inr w'" by simp
  then show ?thesis
  proof (rule executeE)
    fix d e1 d' state
    assume "es_trades w (ex_trade_escrow a) = Some e1" "te_state e1 = Frozen"
      "es_trades w' = (es_trades w)(ex_trade_escrow a \<mapsto> e1\<lparr>te_state := state\<rparr>)"
      "round_ended d d' Frozen state"
    moreover from this(4) have "state \<in> {Frozen, Released, Cancelled}"
      by (cases "fst (tally d)" rule: outcome_state.cases)
         (auto simp: round_ended_def split: if_splits)
    ultimately show ?thesis
      using assms(3) by (auto simp: trade_edge_def trade_progress_def split: if_splits)
  qed
qed (use assms(2) in auto)

lemma trade_step_progress:
  assumes "escrow_step env (t, w) (t', w')" and "es_trades w rid = Some e"
  shows "\<exists>e'. es_trades w' rid = Some e' \<and> trade_progress e e'"
  using assms(1)
proof (rule escrow_stepE)
  fix sv ix assume "escrow_dispatch env sv ix w = Inr w'"
  then show ?thesis
    using trade_ix_progress [OF _ _ assms(2)] other_ix_trades [of env sv ix w w'] assms(2)
    by (cases "trade_ix ix") auto
qed (use assms(2) in \<open>auto simp: escrow_frame_def\<close>)



section \<open>Cases under an instruction\<close>

lemma other_ix_same_case:
  assumes "escrow_dispatch env sv ix w = Inr w'" and "es_cases w rid = Some d"
    and "\<And>a. ix \<noteq> IxExecuteDisputeOutcome a"
  shows "\<exists>d'. es_cases w' rid = Some d' \<and> same_case d d' \<and> dc_resolved d' = dc_resolved d
          \<and> dc_round d' = dc_round d \<and> dc_outcome d' = dc_outcome d"
proof (cases "dispute_ix ix")
  case False
  then show ?thesis using other_ix_cases [OF assms(1) False] assms(2) by simp
next
  case True
  then show ?thesis
  proof (cases ix)
    case (IxOpenDisputeCase signer r mint tp cw rw)
    with assms(1) have "handle_open_dispute_case env sv signer r mint tp cw rw w = Inr w'" by simp
    then obtain d1 where "es_cases w r = None" "es_cases w' = (es_cases w)(r \<mapsto> d1)"
      by (rule open_disputeE)
         (auto simp: escrow_world_simps dest!: take_deposit_frame record_shortfall_frame)
    with assms(2) show ?thesis by auto
  next
    case (IxCommitDisputeVote arbitrator r commitment)
    with assms show ?thesis
      by (auto simp: handle_commit_dispute_vote_def load_case_def load_config_def
          load_fee_config_def load_arbitrator_stake_def escrow_world_simps same_case_def Let_def)
  next
    case (IxRevealDisputeVote arbitrator r outcome salt)
    with assms show ?thesis
      by (auto simp: handle_reveal_dispute_vote_def load_case_def load_config_def
          load_arbitrator_stake_def escrow_world_simps same_case_def Let_def)
  next
    case (IxClaimArbitrationReward arbitrator r mint to tp)
    with assms show ?thesis
      by (auto simp: handle_claim_arbitration_reward_def vault_load_defs escrow_world_simps
          same_case_def Let_def dest!: cpi_transfer_frame)
  next
    case (IxTopUpArbitrationDeposit r mint tp)
    with assms show ?thesis
      by (auto simp: handle_top_up_arbitration_deposit_def vault_load_defs escrow_world_simps
          same_case_def Let_def dest!: take_deposit_frame)
  qed (use assms(3) True in auto)
qed

lemma case_step_same:
  assumes "escrow_step env (t, w) (t', w')" and "es_cases w rid = Some d"
  shows "\<exists>d'. es_cases w' rid = Some d' \<and> same_case d d'"
  using assms(1)
proof (rule escrow_stepE)
  fix sv ix assume ok: "escrow_dispatch env sv ix w = Inr w'"
  show ?thesis
  proof (cases "\<exists>a. ix = IxExecuteDisputeOutcome a")
    case True
    with ok obtain a where "handle_execute_dispute_outcome env sv a w = Inr w'" by auto
    then show ?thesis by (rule executeE) (use assms(2) in auto)
  qed (use other_ix_same_case [OF ok assms(2)] in blast)
qed (use assms(2) in \<open>auto simp: escrow_frame_def\<close>)

end
