(* ===== verification/Escrow_Properties.thy ===== *)
theory Escrow_Properties
  imports Escrow_History Escrow_Frames
begin

text \<open>
  What the escrow program guarantees about vaults and trades: every reachable state is solvent,
  a trade moves along its lifecycle only, and releasing or refunding it pays exactly what it
  should and cannot be blocked.
\<close>


section \<open>Solvency\<close>

text \<open>
  C1. In every reachable state, whatever the rest of the chain does in between, the counters of
  every liquidity vault add up to its total, the available and reserved units are in the vault's
  token account, and the pending settlement is exactly the sum of the vault's funded trades.
\<close>

theorem escrow_solvent:
  assumes "token_env env" and "reachable escrow_genesis (escrow_step env) (t, w)"
    and "es_vaults w (merchant, mint) = Some v"
  shows "unat (lv_total v) = unat (lv_available v) + unat (lv_reserved v)
           + unat (lv_pending_settlement v) + unat (lv_settled v)
     \<and> unat (lv_available v) + unat (lv_reserved v)
         \<le> balance (c_tokens w) (liquidity_tokens_pda merchant mint)
     \<and> unat (lv_pending_settlement v)
         = (\<Sum>rid\<in>UNIV. case es_trades w rid of None \<Rightarrow> 0
              | Some e \<Rightarrow> if (te_state e = AwaitingFiatSettlement \<or> te_state e = Frozen)
                           \<and> te_seller e = merchant \<and> te_mint e = mint
                         then unat (te_amount e) else 0)"
proof -
  have inv: "escrow_inv env w" by (rule token_env.escrow_reachable_inv [OF assms(1,2)])
  have "vault_inv env (c_tokens w) (merchant, mint) v" by (rule escrow_inv_vault [OF inv assms(3)])
  moreover have "unat (lv_pending_settlement v) = (\<Sum>rid\<in>UNIV. pending_of (merchant, mint) (es_trades w rid))"
    using escrow_invD(4) [OF inv] assms(3) by (simp add: pending_inv_def)
  moreover have "pending_of (merchant, mint) x = (case x of None \<Rightarrow> 0
      | Some e \<Rightarrow> if (te_state e = AwaitingFiatSettlement \<or> te_state e = Frozen)
                    \<and> te_seller e = merchant \<and> te_mint e = mint then unat (te_amount e) else 0)" for x
    by (auto simp: pending_of_def funded_def split: option.split)
  ultimately show ?thesis by (simp add: vault_inv_def)
qed

theorem escrow_solvent_witness:
  "reachable escrow_genesis (escrow_step ref_env) (109, demo_funded)
   \<and> es_vaults demo_funded (Key 1, Key 7) = Some (demo_vault (Key 7) 1000 100 400 0 500)
   \<and> 400 + 100 \<le> balance (c_tokens demo_funded) (liquidity_tokens_pda (Key 1) (Key 7))"
proof -
  have v: "es_vaults demo_funded (Key 1, Key 7) = Some (demo_vault (Key 7) 1000 100 400 0 500)"
    by (simp add: demo_funded_def demo_chain_def)
  show ?thesis
    using escrow_solvent [OF ref.token_env_axioms demo_funded_reachable v] v demo_funded_reachable
    by (simp add: demo_vault_def)
qed

text \<open>
  C11. Every funded trade of a reachable state, disputed or not, is backed one to one: its token
  account exists, is of the trade's mint, is owned by the trade escrow with no delegate, and holds
  at least the trade's amount.
\<close>

theorem funded_trade_backed:
  assumes "token_env env" and "reachable escrow_genesis (escrow_step env) (t, w)"
    and "es_trades w rid = Some e" and "te_state e = AwaitingFiatSettlement \<or> te_state e = Frozen"
  shows "\<exists>a. c_tokens w (trade_tokens_pda rid) = Some a \<and> ta_mint a = te_mint e
     \<and> ta_owner a = trade_escrow_pda rid \<and> ta_delegate a = None
     \<and> unat (te_amount e) \<le> unat (ta_amount a)"
proof -
  have "trade_inv env (es_vaults w) (c_tokens w) rid e"
    by (rule escrow_inv_trade [OF token_env.escrow_reachable_inv [OF assms(1,2)] assms(3)])
  with assms(4) show ?thesis by (auto simp: trade_inv_def held_def funded_def)
qed

theorem funded_trade_backed_witness:
  "es_trades demo_funded 1 = Some (demo_trade AwaitingFiatSettlement False)
   \<and> (\<exists>a. c_tokens demo_funded (trade_tokens_pda 1) = Some a \<and> 500 \<le> unat (ta_amount a))"
proof -
  have e: "es_trades demo_funded 1 = Some (demo_trade AwaitingFiatSettlement False)"
    by (simp add: demo_funded_def demo_chain_def)
  have "\<exists>a. c_tokens demo_funded (trade_tokens_pda 1) = Some a
      \<and> unat (te_amount (demo_trade AwaitingFiatSettlement False)) \<le> unat (ta_amount a)"
    using funded_trade_backed [OF ref.token_env_axioms demo_funded_reachable e]
    by (auto simp: demo_trade_def)
  with e show ?thesis by (simp add: demo_trade_def)
qed

text \<open>
  C12. In every reachable state the arbitration pool holds at least the deposits of the open
  cases plus the rewards decided cases have not paid yet, so no case is paid out of another's
  deposit.
\<close>

theorem arbitration_pool_solvent:
  assumes "token_env env" and "reachable escrow_genesis (escrow_step env) (t, w)"
  shows "(\<Sum>rid\<in>UNIV. case es_cases w rid of None \<Rightarrow> 0
            | Some d \<Rightarrow> if dc_resolved d then unat (dc_reward_remaining d) else unat (dc_deposit d))
         \<le> balance (c_tokens w) arbitration_pool_pda"
proof -
  have inv: "escrow_inv env w" by (rule token_env.escrow_reachable_inv [OF assms])
  have "(case es_cases w rid of None \<Rightarrow> 0
      | Some d \<Rightarrow> if dc_resolved d then unat (dc_reward_remaining d) else unat (dc_deposit d))
     \<le> pool_claim (es_cases w rid)" for rid
    using escrow_inv_case [OF inv, of rid]
    by (auto simp: pool_claim_def case_inv_def verdict_ok_def split: option.split if_splits)
  then have "(\<Sum>rid\<in>UNIV. case es_cases w rid of None \<Rightarrow> 0
      | Some d \<Rightarrow> if dc_resolved d then unat (dc_reward_remaining d) else unat (dc_deposit d))
     \<le> (\<Sum>rid\<in>UNIV. pool_claim (es_cases w rid))" by (rule sum_mono)
  also have "\<dots> \<le> balance (c_tokens w) arbitration_pool_pda"
    using escrow_invD(6) [OF inv] by (simp add: pool_inv_def)
  finally show ?thesis .
qed

theorem arbitration_pool_solvent_witness:
  "es_cases demo_decided 1 = Some demo_verdict
   \<and> (\<Sum>rid\<in>UNIV. case es_cases demo_decided rid of None \<Rightarrow> 0
            | Some d \<Rightarrow> if dc_resolved d then unat (dc_reward_remaining d) else unat (dc_deposit d))
         \<le> balance (c_tokens demo_decided) arbitration_pool_pda"
  using arbitration_pool_solvent [OF ref.token_env_axioms demo_decided_reachable]
  by (simp add: demo_decided_def demo_chain_def)



section \<open>The lifecycle of a trade\<close>

text \<open>The only way onto the books is a reservation, which starts reserved and unapproved.\<close>

lemma trade_ix_new:
  assumes "escrow_dispatch env sv ix w = Inr w'" and "trade_ix ix" and "es_trades w rid = None"
    and "es_trades w' rid = Some e"
  shows "te_state e = Reserved \<and> \<not> te_approved e"
proof (cases ix)
  case (IxCreateTradeEscrow merchant buyer mint tp r amount secs)
  with assms show ?thesis
    by (auto simp: handle_create_trade_escrow_def trade_load_defs escrow_world_simps init_token_def Let_def
        split: if_splits)
next
  case (IxFundTradeEscrow merchant mint tp r)
  with assms show ?thesis
    by (auto simp: handle_fund_trade_escrow_def trade_load_defs escrow_world_simps Let_def
        dest!: cpi_transfer_frame split: if_splits)
next
  case (IxApproveSettlement merchant r)
  with assms show ?thesis
    by (auto simp: handle_approve_settlement_def trade_load_defs escrow_world_simps split: if_splits)
next
  case (IxReleaseEscrow mint tp r account)
  with assms show ?thesis
    by (auto simp: handle_release_escrow_def trade_load_defs escrow_world_simps
        dest!: release_frames split: if_splits)
next
  case (IxCancelReservation signer mint tp r)
  with assms show ?thesis
    by (auto simp: handle_cancel_reservation_def load_open_reservation_def trade_load_defs
        dest!: close_trades split: if_splits)
next
  case (IxExpireReservation mint tp r)
  with assms show ?thesis
    by (auto simp: handle_expire_reservation_def load_open_reservation_def trade_load_defs
        dest!: close_trades split: if_splits)
next
  case (IxOpenDisputeCase signer r mint tp cw rw)
  with assms(1) have "handle_open_dispute_case env sv signer r mint tp cw rw w = Inr w'" by simp
  then obtain e1 where "es_trades w r = Some e1" "es_trades w' = (es_trades w)(r \<mapsto> e1\<lparr>te_state := Frozen\<rparr>)"
    by (rule open_disputeE)
       (auto simp: escrow_world_simps dest!: take_deposit_frame record_shortfall_frame)
  with assms(3,4) show ?thesis by (auto split: if_splits)
next
  case (IxExecuteDisputeOutcome a)
  with assms(1) have "handle_execute_dispute_outcome env sv a w = Inr w'" by simp
  then show ?thesis by (rule executeE) (use assms(3,4) in \<open>auto split: if_splits\<close>)
qed (use assms(2) in auto)

lemma trade_step_new:
  assumes "escrow_step env (t, w) (t', w')" and "es_trades w rid = None" and "es_trades w' rid = Some e"
  shows "te_state e = Reserved \<and> \<not> te_approved e"
  using assms(1)
proof (rule escrow_stepE)
  fix sv ix assume "escrow_dispatch env sv ix w = Inr w'"
  then show ?thesis
    using trade_ix_new [OF _ _ assms(2,3)] other_ix_trades [of env sv ix w w'] assms(2,3)
    by (cases "trade_ix ix") auto
qed (use assms(2,3) in \<open>auto simp: escrow_frame_def\<close>)

lemma trade_edge_final:
  assumes "trade_edge\<^sup>*\<^sup>* s s'" and "s \<in> {Released, Cancelled}"
  shows "s' = s"
  using assms by (induction rule: rtranclp_induct) (auto simp: trade_edge_def)

lemma trade_run_progress:
  assumes "(escrow_step env)\<^sup>*\<^sup>* (t, w) (t', w')" and "es_trades w rid = Some e"
  shows "\<exists>e'. es_trades w' rid = Some e'
     \<and> e' = e\<lparr>te_state := te_state e', te_approved := te_approved e'\<rparr>
     \<and> trade_edge\<^sup>*\<^sup>* (te_state e) (te_state e') \<and> (te_approved e \<longrightarrow> te_approved e')"
  using assms
proof (induction "(t', w')" arbitrary: t' w')
  case base
  then show ?case by auto
next
  case (step s)
  obtain t1 w1 where s: "s = (t1, w1)" by (cases s)
  with step obtain e1 where e1: "es_trades w1 rid = Some e1"
      "e1 = e\<lparr>te_state := te_state e1, te_approved := te_approved e1\<rparr>"
      "trade_edge\<^sup>*\<^sup>* (te_state e) (te_state e1)" "te_approved e \<longrightarrow> te_approved e1"
    by blast
  from trade_step_progress [OF step(2) [unfolded s] e1(1)] obtain e2 where
    e2: "es_trades w' rid = Some e2" "trade_progress e1 e2" by blast
  from e1(2) e2(2) have "e2 = e\<lparr>te_state := te_state e2, te_approved := te_approved e2\<rparr>"
    by (cases e; cases e1; cases e2) (simp add: trade_progress_def)
  moreover have "trade_edge\<^sup>*\<^sup>* (te_state e) (te_state e2)"
    using e1(3) e2(2) by (auto simp: trade_progress_def intro: rtranclp.rtrancl_into_rtrancl)
  ultimately show ?case using e1(4) e2 by (auto simp: trade_progress_def)
qed

text \<open>
  C13. A trade lives by its state machine. In one step its reservation id, parties, mint, amount
  and deadline stay, its state stays or takes exactly one edge (reserved to funded or cancelled;
  funded to released, cancelled or frozen; frozen to released or cancelled), an approval is never
  taken back, and a trade that was not there before enters reserved and unapproved. Along a whole
  run the trade therefore stays on record with its terms, on a path of such edges: once released
  or cancelled it is so for ever.
\<close>

theorem trade_lifecycle:
  assumes "(escrow_step env)\<^sup>*\<^sup>* (t, w) (t1, w1)" and "escrow_step env (t1, w1) (t2, w2)"
  shows "(\<forall>e1. es_trades w1 rid = Some e1 \<longrightarrow> (\<exists>e2. es_trades w2 rid = Some e2
            \<and> e2 = e1\<lparr>te_state := te_state e2, te_approved := te_approved e2\<rparr>
            \<and> (te_state e2 = te_state e1 \<or> trade_edge (te_state e1) (te_state e2))
            \<and> (te_approved e1 \<longrightarrow> te_approved e2)))
     \<and> (\<forall>e2. es_trades w1 rid = None \<and> es_trades w2 rid = Some e2 \<longrightarrow>
            te_state e2 = Reserved \<and> \<not> te_approved e2)
     \<and> (\<forall>e. es_trades w rid = Some e \<longrightarrow> (\<exists>e1. es_trades w1 rid = Some e1
            \<and> e1 = e\<lparr>te_state := te_state e1, te_approved := te_approved e1\<rparr>
            \<and> trade_edge\<^sup>*\<^sup>* (te_state e) (te_state e1) \<and> (te_approved e \<longrightarrow> te_approved e1)
            \<and> (te_state e \<in> {Released, Cancelled} \<longrightarrow> te_state e1 = te_state e)))"
proof (intro conjI allI impI)
  fix e1 assume "es_trades w1 rid = Some e1"
  then obtain e2 where "es_trades w2 rid = Some e2" "trade_progress e1 e2"
    using trade_step_progress [OF assms(2)] by blast
  then show "\<exists>e2. es_trades w2 rid = Some e2
            \<and> e2 = e1\<lparr>te_state := te_state e2, te_approved := te_approved e2\<rparr>
            \<and> (te_state e2 = te_state e1 \<or> trade_edge (te_state e1) (te_state e2))
            \<and> (te_approved e1 \<longrightarrow> te_approved e2)"
    by (intro exI [of _ e2]) (cases e1; cases e2; simp add: trade_progress_def)
next
  fix e2 assume "es_trades w1 rid = None \<and> es_trades w2 rid = Some e2"
  then show "te_state e2 = Reserved" "\<not> te_approved e2"
    using trade_step_new [OF assms(2)] by blast+
next
  fix e assume "es_trades w rid = Some e"
  then show "\<exists>e1. es_trades w1 rid = Some e1
            \<and> e1 = e\<lparr>te_state := te_state e1, te_approved := te_approved e1\<rparr>
            \<and> trade_edge\<^sup>*\<^sup>* (te_state e) (te_state e1) \<and> (te_approved e \<longrightarrow> te_approved e1)
            \<and> (te_state e \<in> {Released, Cancelled} \<longrightarrow> te_state e1 = te_state e)"
    using trade_run_progress [OF assms(1)] trade_edge_final by blast
qed

theorem trade_lifecycle_witness:
  "escrow_step ref_env (109, demo_funded) (110, demo_disputed (demo_dispute [] []))
   \<and> (\<exists>e2. es_trades (demo_disputed (demo_dispute [] [])) 1 = Some e2 \<and> te_state e2 = Frozen
        \<and> (Frozen = AwaitingFiatSettlement \<or> trade_edge AwaitingFiatSettlement Frozen))"
proof -
  have step: "escrow_step ref_env (109, demo_funded) (110, demo_disputed (demo_dispute [] []))"
    using escrow_step_ix [of 109 "fst demo_opening" "snd demo_opening" ref_env demo_funded] demo_opening_run
    by (auto simp: demo_opening_def)
  have e: "es_trades demo_funded 1 = Some (demo_trade AwaitingFiatSettlement False)"
    by (simp add: demo_funded_def demo_chain_def)
  have "es_trades (demo_disputed (demo_dispute [] [])) 1 = Some (demo_trade Frozen False)"
    by (simp add: demo_disputed_def demo_chain_def)
  with trade_lifecycle [OF rtranclp.rtrancl_refl step, of 1] e step show ?thesis
    by (auto simp: demo_trade_def)
qed



section \<open>Release\<close>

text \<open>The counters have room for settling a funded trade either way.\<close>

lemma trade_headroom:
  assumes inv: "escrow_inv env w" and e: "es_trades w rid = Some e" "funded e"
    and v: "es_vaults w (te_seller e, te_mint e) = Some v"
  obtains p s a where "checked_sub (lv_pending_settlement v) (te_amount e) = Some p"
    and "checked_add (lv_settled v) (te_amount e) = Some s"
    and "checked_add (lv_available v) (te_amount e) = Some a"
proof -
  have "unat (te_amount e) \<le> unat (lv_pending_settlement v)"
    by (rule pending_covers [OF escrow_invD(4) [OF inv] v e])
  moreover from this have "unat (lv_settled v) + unat (te_amount e) \<le> unat (lv_total v)"
    "unat (lv_available v) + unat (te_amount e) \<le> unat (lv_total v)"
    using escrow_inv_vault [OF inv v] by (simp_all add: vault_inv_def)
  ultimately show thesis
    using that unat_u64_bound [of "lv_total v"] by (simp add: checked_sub_def checked_add_def)
qed

lemma release_vault:
  assumes "release_trade_escrow_funds env tp mint d e b v fc w = Inr (e', v', x, y, w1)"
  shows "v' = v\<lparr>lv_pending_settlement := lv_pending_settlement v - te_amount e,
                lv_settled := lv_settled v + te_amount e\<rparr>"
  using assms
  by (auto simp: release_trade_escrow_funds_def Let_def checked_sub_def checked_add_def
      simp del: transfer_each.simps split: if_splits)

text \<open>
  C3. A successful release of a trade in a reachable state needs a funded trade the merchant
  approved. It pays the buyer the amount less the fee, the development, infrastructure and
  emergency treasuries the floor of their share of the fee and the ecosystem treasury the rest,
  to the last unit, from the trade's account and no other; moves the amount from the vault's
  pending settlement to its settled counter; marks the trade released; and logs these figures.
\<close>

theorem release_exact:
  assumes "token_env env" and "reachable escrow_genesis (escrow_step env) (t, w)"
    and "handle_release_escrow env sv mint tp rid account w = Inr w'"
  shows "\<exists>e v fc b d c i r a. es_trades w rid = Some e \<and> te_state e = AwaitingFiatSettlement
     \<and> te_approved e \<and> es_vaults w (te_seller e, te_mint e) = Some v \<and> es_fee_config w = Some fc
     \<and> c_tokens w account = Some a \<and> ta_owner a = te_buyer e \<and> ta_mint a = te_mint e
     \<and> unat b = unat (te_amount e) - settlement_fee fc (te_amount e)
     \<and> unat d = settlement_fee fc (te_amount e) * unat (fc_dev_treasury_bps fc) div 10000
     \<and> unat i = settlement_fee fc (te_amount e) * unat (fc_infra_treasury_bps fc) div 10000
     \<and> unat r = settlement_fee fc (te_amount e) * unat (fc_emergency_reserve_bps fc) div 10000
     \<and> unat b + unat d + unat c + unat i + unat r = unat (te_amount e)
     \<and> (\<forall>k. k \<noteq> trade_tokens_pda rid \<longrightarrow> balance (c_tokens w') k = balance (c_tokens w) k
          + paid_to [(b, account), (d, fc_dev_treasury fc), (c, fc_ecosystem_treasury fc),
                     (i, fc_infra_treasury fc), (r, fc_emergency_reserve fc)] k)
     \<and> es_trades w' = (es_trades w)(rid \<mapsto> e\<lparr>te_state := Released\<rparr>)
     \<and> es_vaults w' = (es_vaults w)((te_seller e, te_mint e) \<mapsto>
          v\<lparr>lv_pending_settlement := lv_pending_settlement v - te_amount e,
            lv_settled := lv_settled v + te_amount e\<rparr>)
     \<and> es_log w' = es_log w @ [EscrowReleased rid (te_buyer e) (te_seller e) mint (te_amount e) b
          (te_amount e - b) d c i r False (unix_timestamp sv)]"
proof -
  have inv: "escrow_inv env w" by (rule token_env.escrow_reachable_inv [OF assms(1,2)])
  from assms(3) obtain dec e v fc a e' v' b shares w1 fee where e: "es_trades w rid = Some e"
      "te_reservation_id e = rid" "te_mint e = mint" "te_state e = AwaitingFiatSettlement" "te_approved e"
    and a: "c_tokens w account = Some a" "ta_owner a = te_buyer e" "ta_mint a = te_mint e"
    and v: "es_vaults w (te_seller e, te_mint e) = Some v" and fc: "es_fee_config w = Some fc"
    and rel: "release_trade_escrow_funds env tp mint dec e account v fc w = Inr (e', v', b, shares, w1)"
    and fee: "checked_sub (te_amount e) b = Some fee"
    and w': "w' = emit_escrow (released_event e mint b fee shares False (unix_timestamp sv))
                    (put_trade rid e' (put_vault (te_seller e, te_mint e) v' w1))"
    by (auto simp: handle_release_escrow_def trade_load_defs)
  have split: "fee_split_ok fc" using escrow_invD(1) [OF inv] fc by (simp add: fee_config_inv_def)
  from token_env.release_effect [OF assms(1) split rel] obtain L' where
    L': "w1 = w\<lparr>c_tokens := L'\<rparr>" "e' = e\<lparr>te_state := Released\<rparr>"
      "compute_fee_split fc (te_amount e) = Inr (b, shares)"
      "\<And>k. k \<noteq> trade_tokens_pda rid \<Longrightarrow>
         balance L' k = balance (c_tokens w) k + paid_to (release_destinations fc account b shares) k"
    using e(2) by metis
  from compute_fee_split_shares [OF split, of "te_amount e"] L'(3) obtain d c i r where
    sh: "shares = [d, c, i, r]" "unat b = unat (te_amount e) - settlement_fee fc (te_amount e)"
      "unat d = floor_share (settlement_fee fc (te_amount e)) (fc_dev_treasury_bps fc)"
      "unat i = floor_share (settlement_fee fc (te_amount e)) (fc_infra_treasury_bps fc)"
      "unat r = floor_share (settlement_fee fc (te_amount e)) (fc_emergency_reserve_bps fc)"
      "unat b + unat d + unat c + unat i + unat r = unat (te_amount e)"
    by auto
  have fee': "fee = te_amount e - b" using fee by (auto simp: checked_sub_def split: if_splits)
  have pays: "balance (c_tokens w') k = balance (c_tokens w) k
          + paid_to [(b, account), (d, fc_dev_treasury fc), (c, fc_ecosystem_treasury fc),
                     (i, fc_infra_treasury fc), (r, fc_emergency_reserve fc)] k"
    if "k \<noteq> trade_tokens_pda rid" for k
    using L'(4) [OF that] by (simp add: w' L'(1) sh(1) release_destinations_def fee_treasuries_def
        escrow_world_simps)
  have out: "es_trades w' = (es_trades w)(rid \<mapsto> e\<lparr>te_state := Released\<rparr>)"
    "es_vaults w' = (es_vaults w)((te_seller e, te_mint e) \<mapsto>
          v\<lparr>lv_pending_settlement := lv_pending_settlement v - te_amount e,
            lv_settled := lv_settled v + te_amount e\<rparr>)"
    "es_log w' = es_log w @ [EscrowReleased rid (te_buyer e) (te_seller e) mint (te_amount e) b
          (te_amount e - b) d c i r False (unix_timestamp sv)]"
    using release_vault [OF rel] L'(2) e(2) fee'
    by (simp_all add: w' L'(1) sh(1) escrow_world_simps released_event_def)
  show ?thesis
    by (rule exI [of _ e], rule exI [of _ v], rule exI [of _ fc], rule exI [of _ b],
        rule exI [of _ d], rule exI [of _ c], rule exI [of _ i], rule exI [of _ r],
        rule exI [of _ a])
       (use e a v fc sh(2-6) pays out in \<open>simp add: floor_share_def\<close>)
qed

text \<open>The funded trade of the history, approved and released.\<close>

definition demo_approved :: escrow_chain where
  "demo_approved = demo_funded\<lparr>es_trades := [1 \<mapsto> demo_trade AwaitingFiatSettlement True]\<rparr>"

definition demo_released :: escrow_chain where
  "demo_released = demo_chain (demo_ledger 0 80 500 20 0 0 495 [2, 2, 1, 0])
     [(Key 1, Key 7) \<mapsto> demo_vault (Key 7) 1000 100 400 500 0,
      (Key 1, Key 2) \<mapsto> demo_vault (Key 2) 20 0 20 0 0]
     [1 \<mapsto> demo_trade Released True] (Some demo_fees) Map.empty Map.empty
     [EscrowReleased 1 (Key 5) (Key 1) (Key 7) 500 495 5 2 2 1 0 False 130]"

lemma demo_approved_reachable: "reachable escrow_genesis (escrow_step ref_env) (120, demo_approved)"
proof -
  have "reachable escrow_genesis (escrow_step ref_env)
      (end_time 109 [(demo_sv 120, IxApproveSettlement (Key 1) 1)], demo_approved)"
    by (rule escrow_run_reachable [OF demo_funded_reachable])
       (simp_all add: demo_approved_def demo_funded_def demo_chain_def demo_trade_def escrow_eval)
  then show ?thesis by simp
qed

lemma demo_release_run:
  "handle_release_escrow ref_env (demo_sv 130) (Key 7) (Prog Token2022Program) 1 (Key 51) demo_approved
     = Inr demo_released"
proof -
  have approved: "demo_approved = demo_chain (demo_ledger 0 80 500 20 500 0 0 [0, 0, 0, 0])
     [(Key 1, Key 7) \<mapsto> demo_vault (Key 7) 1000 100 400 0 500,
      (Key 1, Key 2) \<mapsto> demo_vault (Key 2) 20 0 20 0 0]
     [1 \<mapsto> demo_trade AwaitingFiatSettlement True] (Some demo_fees) Map.empty Map.empty []"
    by (simp add: demo_approved_def demo_funded_def demo_chain_def)
  show ?thesis
    unfolding approved
    using demo_release_funds [of AwaitingFiatSettlement True 0 80 500 20 0]
    by (simp add: handle_release_escrow_def trade_load_defs demo_chain_def demo_ledger_def
        demo_accounts_def demo_account_def demo_fees_def fee_treasuries_def demo_trade_def
        demo_vault_def token_interface_ids_def escrow_world_simps released_event_def
        demo_released_def checked_sub_def fun_upd_twist)
qed


theorem release_exact_witness:
  "handle_release_escrow ref_env (demo_sv 130) (Key 7) (Prog Token2022Program) 1 (Key 51) demo_approved
     = Inr demo_released
   \<and> balance (c_tokens demo_released) (Key 51) = balance (c_tokens demo_approved) (Key 51) + 495
   \<and> es_trades demo_released 1 = Some (demo_trade Released True)"
proof -
  have app: "es_trades demo_approved 1 = Some (demo_trade AwaitingFiatSettlement True)"
    "es_fee_config demo_approved = Some demo_fees"
    by (simp_all add: demo_approved_def demo_funded_def demo_chain_def)
  have fee: "settlement_fee demo_fees 500 = 5" by (simp add: settlement_fee_def demo_fees_def)
  show ?thesis
    using release_exact [OF ref.token_env_axioms demo_approved_reachable demo_release_run]
      demo_release_run app fee
    by (auto simp: demo_trade_def demo_fees_def)
qed

text \<open>
  C33. When an approved release goes through. In a reachable state the escrow program itself never
  blocks it: a funded approved trade, whose mint is known and whose token account is not frozen,
  is released by anyone's call whenever the buyer's account and the four treasuries are five
  different unfrozen accounts of the trade's own mint with room for the amount. (Without accounts
  of that mint a release can be stuck.)
\<close>

theorem release_available:
  assumes env: "token_env env" and reach: "reachable escrow_genesis (escrow_step env) (t, w)"
    and e: "es_trades w rid = Some e" "te_state e = AwaitingFiatSettlement" "te_approved e"
    and fc: "es_fee_config w = Some fc"
    and mint: "c_mints w (te_mint e) = Some mi" "mi_program mi \<in> set token_interface_ids"
    and from_open: "\<forall>a. c_tokens w (trade_tokens_pda rid) = Some a \<longrightarrow> \<not> ta_frozen a"
    and buyer: "c_tokens w account = Some b" "ta_owner b = te_buyer e"
    and dests: "\<forall>k \<in> set (account # fee_treasuries fc). receives (c_tokens w) (te_mint e) (unat (te_amount e)) k"
      "distinct (account # fee_treasuries fc)"
  shows "\<exists>w'. handle_release_escrow env sv (te_mint e) (mi_program mi) rid account w = Inr w'"
proof -
  have inv: "escrow_inv env w" by (rule token_env.escrow_reachable_inv [OF env reach])
  have ti: "trade_inv env (es_vaults w) (c_tokens w) rid e" by (rule escrow_inv_trade [OF inv e(1)])
  then obtain v a where v: "es_vaults w (te_seller e, te_mint e) = Some v"
      and a: "c_tokens w (trade_tokens_pda rid) = Some a" "ta_mint a = te_mint e"
        "ta_owner a = trade_escrow_pda rid" "unat (te_amount e) \<le> unat (ta_amount a)"
    using e(2) by (auto simp: trade_inv_def funded_def held_def)
  have vi: "vault_inv env (c_tokens w) (te_seller e, te_mint e) v" by (rule escrow_inv_vault [OF inv v])
  have fci: "fee_split_ok fc" "fc_bump fc = bump_of env fee_config_pda"
    using escrow_invD(1) [OF inv] fc by (simp_all add: fee_config_inv_def)
  obtain bb d c i r where sp: "compute_fee_split fc (te_amount e) = Inr (bb, [d, c, i, r])"
      "unat bb = unat (te_amount e) - settlement_fee fc (te_amount e)"
      "unat bb + unat d + unat c + unat i + unat r = unat (te_amount e)"
    using compute_fee_split_shares [OF fci(1), of "te_amount e"] by blast
  let ?ps = "release_destinations fc account bb [d, c, i, r]"
  have total: "paid_total ?ps = unat (te_amount e)"
    using sp(3) by (simp add: release_destinations_def fee_treasuries_def)
  have "\<exists>w1. transfer_each env (mi_program mi) (trade_tokens_pda rid) (te_mint e) (trade_escrow_pda rid)
      (mi_decimals mi) ?ps w = (Inr w1 :: EscrowErrorCode tx_error + _)"
  proof (rule token_env.transfer_each_live [OF env mint(1) refl a(1)])
    fix x k assume "(x, k) \<in> set ?ps" "0 < x"
    then have "k \<in> set (account # fee_treasuries fc)"
      by (auto simp: release_destinations_def fee_treasuries_def)
    with dests(1) show "receives (c_tokens w) (te_mint e) (paid_total ?ps) k" unfolding total by blast
  qed (use a from_open total in auto)
  then obtain w1 where w1: "transfer_each env (mi_program mi) (trade_tokens_pda rid) (te_mint e)
      (trade_escrow_pda rid) (mi_decimals mi) ?ps w = (Inr w1 :: EscrowErrorCode tx_error + _)" ..
  obtain p s where ps: "checked_sub (lv_pending_settlement v) (te_amount e) = Some p"
      "checked_add (lv_settled v) (te_amount e) = Some s"
    by (rule trade_headroom [OF inv e(1) _ v]) (use e(2) in \<open>simp_all add: funded_def\<close>)
  have "unat bb \<le> unat (te_amount e)" using sp(2) by simp
  then obtain fee where fee: "checked_sub (te_amount e) bb = Some fee" by (simp add: checked_sub_def)
  have rid: "te_reservation_id e = rid" using ti by (simp add: trade_inv_def)
  have treas: "list_all (\<lambda>k. \<exists>x. c_tokens w k = Some x) (fee_treasuries fc)"
    using dests(1) by (auto simp: list_all_iff receives_def)
  have bm: "ta_mint b = te_mint e" using dests(1) buyer(1) by (auto simp: receives_def)
  show ?thesis
    using ti vi v e fc fci(2) mint a(1) buyer bm treas sp(1) w1 ps fee rid
    by (simp add: handle_release_escrow_def trade_load_defs trade_inv_def vault_inv_def
        release_trade_escrow_funds_def Let_def del: transfer_each.simps)
qed


theorem release_available_witness:
  "\<exists>w'. handle_release_escrow ref_env (demo_sv 140) (Key 7) (Prog Token2022Program) 1 (Key 51)
     demo_approved = Inr w'"
proof -
  have app: "es_trades demo_approved 1 = Some (demo_trade AwaitingFiatSettlement True)"
    "es_fee_config demo_approved = Some demo_fees"
    "c_mints demo_approved (te_mint (demo_trade AwaitingFiatSettlement True))
       = Some \<lparr> mi_decimals = 6, mi_program = Prog Token2022Program \<rparr>"
    "c_tokens demo_approved (Key 51) = Some (demo_account (Key 7) (Key 5) 0)"
    by (simp_all add: demo_approved_def demo_funded_def demo_chain_def demo_ledger_def
        demo_accounts_def demo_trade_def)
  show ?thesis
    using release_available [OF ref.token_env_axioms demo_approved_reachable app(1) _ _ app(2,3) _ _
        app(4), of "demo_sv 140"]
    by (simp add: demo_trade_def token_interface_ids_def demo_account_def demo_approved_def
        demo_funded_def demo_chain_def demo_ledger_def demo_accounts_def receives_def
        fee_treasuries_def demo_fees_def)
qed


section \<open>Refunds\<close>

text \<open>
  A funded trade the merchant has not approved returns whole once its deadline is past:
  anyone's expiry call succeeds in a reachable state (the two token accounts not frozen, room in
  the vault's account), the trade is cancelled, exactly its amount moves from the trade's account
  to the merchant's vault account, and the vault's available counter grows by it.
\<close>

theorem expiry_refunds:
  assumes env: "token_env env" and reach: "reachable escrow_genesis (escrow_step env) (t, w)"
    and e: "es_trades w rid = Some e" "te_state e = AwaitingFiatSettlement" "\<not> te_approved e"
    and late: "te_timeout_at e < unix_timestamp sv"
    and mint: "c_mints w (te_mint e) = Some mi" "mi_program mi \<in> set token_interface_ids"
    and from_open: "\<forall>a. c_tokens w (trade_tokens_pda rid) = Some a \<longrightarrow> \<not> ta_frozen a"
    and dest: "receives (c_tokens w) (te_mint e) (unat (te_amount e))
                 (liquidity_tokens_pda (te_seller e) (te_mint e))"
  shows "\<exists>w' v. handle_expire_reservation env sv (te_mint e) (mi_program mi) rid w = Inr w'
     \<and> es_trades w' = (es_trades w)(rid \<mapsto> e\<lparr>te_state := Cancelled\<rparr>)
     \<and> moved (c_tokens w) (trade_tokens_pda rid) (liquidity_tokens_pda (te_seller e) (te_mint e))
         (te_amount e) (c_tokens w')
     \<and> es_vaults w (te_seller e, te_mint e) = Some v
     \<and> es_vaults w' = (es_vaults w)((te_seller e, te_mint e) \<mapsto>
          v\<lparr>lv_pending_settlement := lv_pending_settlement v - te_amount e,
            lv_available := lv_available v + te_amount e\<rparr>)"
proof -
  let ?to = "liquidity_tokens_pda (te_seller e) (te_mint e)"
  have inv: "escrow_inv env w" by (rule token_env.escrow_reachable_inv [OF env reach])
  have ti: "trade_inv env (es_vaults w) (c_tokens w) rid e" by (rule escrow_inv_trade [OF inv e(1)])
  then obtain v a where v: "es_vaults w (te_seller e, te_mint e) = Some v"
      and a: "c_tokens w (trade_tokens_pda rid) = Some a" "ta_mint a = te_mint e"
        "ta_owner a = trade_escrow_pda rid" "unat (te_amount e) \<le> unat (ta_amount a)"
    using e(2) by (auto simp: trade_inv_def funded_def held_def)
  have vi: "vault_inv env (c_tokens w) (te_seller e, te_mint e) v" by (rule escrow_inv_vault [OF inv v])
  obtain b where b: "c_tokens w ?to = Some b" "ta_mint b = te_mint e" "\<not> ta_frozen b"
      "unat (ta_amount b) + unat (te_amount e) < 2 ^ 64"
    using dest by (auto simp: receives_def)
  have "\<exists>w1. (cpi_transfer env (mi_program mi) (trade_tokens_pda rid) (te_mint e) ?to
      (trade_escrow_pda rid) (te_amount e) (mi_decimals mi) w :: EscrowErrorCode tx_error + _) = Inr w1"
    by (rule token_env.cpi_transfer_live [OF env mint(1) refl a(1) b(1)]) (use a b from_open in auto)
  then obtain w1 where w1: "(cpi_transfer env (mi_program mi) (trade_tokens_pda rid) (te_mint e) ?to
      (trade_escrow_pda rid) (te_amount e) (mi_decimals mi) w :: EscrowErrorCode tx_error + _) = Inr w1" ..
  from token_env.cpi_transfer_moved [OF env w1] obtain L where
    L: "w1 = w\<lparr>c_tokens := L\<rparr>" "moved (c_tokens w) (trade_tokens_pda rid) ?to (te_amount e) L" .
  obtain p x where ps: "checked_sub (lv_pending_settlement v) (te_amount e) = Some p"
      "checked_add (lv_available v) (te_amount e) = Some x"
    by (rule trade_headroom [OF inv e(1) _ v]) (use e(2) in \<open>simp_all add: funded_def\<close>)
  then have px: "p = lv_pending_settlement v - te_amount e" "x = lv_available v + te_amount e"
    by (auto simp: checked_sub_def checked_add_def split: if_splits)
  have rid: "te_reservation_id e = rid" using ti by (simp add: trade_inv_def)
  have "close_reservation env (mi_program mi) (te_mint e) (mi_decimals mi) rid e v w
      = Inr (put_trade rid (e\<lparr>te_state := Cancelled\<rparr>) (put_vault (te_seller e, te_mint e)
          (v\<lparr>lv_pending_settlement := p, lv_available := x\<rparr>) w1))"
    using e(2) w1 ps rid by (simp add: close_reservation_def unwind_funded_trade_escrow_def Let_def)
  then have "handle_expire_reservation env sv (te_mint e) (mi_program mi) rid w
      = Inr (put_trade rid (e\<lparr>te_state := Cancelled\<rparr>) (put_vault (te_seller e, te_mint e)
          (v\<lparr>lv_pending_settlement := p, lv_available := x\<rparr>) w1))"
    using ti vi v e mint a(1) b(1) late
    by (simp add: handle_expire_reservation_def load_open_reservation_def trade_load_defs
        trade_inv_def vault_inv_def)
  then show ?thesis using L v px by (auto simp: escrow_world_simps)
qed

theorem expiry_refunds_witness:
  "\<exists>w'. handle_expire_reservation ref_env (demo_sv 2000) (Key 7) (Prog Token2022Program) 1 demo_funded
       = Inr w' \<and> es_trades w' 1 = Some (demo_trade Cancelled False)"
proof -
  have f: "es_trades demo_funded 1 = Some (demo_trade AwaitingFiatSettlement False)"
    "c_mints demo_funded (te_mint (demo_trade AwaitingFiatSettlement False))
       = Some \<lparr> mi_decimals = 6, mi_program = Prog Token2022Program \<rparr>"
    by (simp_all add: demo_funded_def demo_chain_def demo_trade_def)
  show ?thesis
    using expiry_refunds [OF ref.token_env_axioms demo_funded_reachable f(1) _ _ _ f(2),
        of "demo_sv 2000"]
    by (auto simp: demo_trade_def token_interface_ids_def demo_account_def
        demo_funded_def demo_chain_def demo_ledger_def demo_accounts_def receives_def)
qed

end
