(* ===== verification/Dispute_Properties.thy ===== *)
theory Dispute_Properties
  imports Escrow_Properties
begin

text \<open>
  What the escrow program guarantees about disputes: a trade is frozen exactly while its case is
  open, a case ends within three rounds, votes are binding and weighted by stake, winners share the
  forfeited deposit exactly, and opening a case charges the merchant what is there and records the
  rest.
\<close>


section \<open>Frozen trades and open cases\<close>

text \<open>
  C20. In every reachable state a trade is frozen exactly while its dispute case is open; the case
  names that trade and a deposit vault of its merchant; it is in one of three rounds with at most
  seven distinct seats, each with a commitment, a vote slot and a weight; nothing is awarded before
  the verdict; and after it there is an outcome or a recorded reason for the even split.
\<close>

theorem frozen_iff_open_case:
  assumes "token_env env" and "reachable escrow_genesis (escrow_step env) (t, w)"
  shows "((\<exists>e. es_trades w rid = Some e \<and> te_state e = Frozen)
            \<longleftrightarrow> (\<exists>d. es_cases w rid = Some d \<and> \<not> dc_resolved d))
     \<and> (\<forall>d. es_cases w rid = Some d \<longrightarrow>
          (\<exists>e. es_trades w rid = Some e \<and> dc_trade_escrow d = trade_escrow_pda rid
             \<and> dc_deposit_vault d = liquidity_vault_pda (te_seller e) (dc_deposit_mint d))
          \<and> unat (dc_round d) < 3 \<and> length (dc_arbitrators d) \<le> 7 \<and> distinct (dc_arbitrators d)
          \<and> length (dc_commitments d) = length (dc_arbitrators d)
          \<and> length (dc_revealed_outcomes d) = length (dc_arbitrators d)
          \<and> length (dc_weights d) = length (dc_arbitrators d)
          \<and> (\<not> dc_resolved d \<longrightarrow> dc_outcome d = None \<and> dc_reward_remaining d = 0)
          \<and> (dc_resolved d \<longrightarrow> (dc_outcome d = None) = (dc_terminal_reason d \<noteq> None)))"
proof -
  have inv: "escrow_inv env w" by (rule token_env.escrow_reachable_inv [OF assms])
  have case_ok: "case_inv env (es_trades w) (c_tokens w) rid d" if "es_cases w rid = Some d" for d
    by (rule escrow_inv_case [OF inv that])
  have frozen: "\<exists>d. es_cases w rid = Some d" if "es_trades w rid = Some e" "te_state e = Frozen" for e
    using escrow_invD(5) [OF inv] that unfolding cases_inv_def by blast
  show ?thesis
    using case_ok frozen
    by (fastforce simp: case_inv_def seats_ok_def verdict_ok_def MAX_DISPUTE_ROUNDS_def
        MAX_ARBITRATORS_def split: option.splits if_splits)
qed

theorem frozen_iff_open_case_witness:
  "es_trades (demo_disputed demo_voted) 1 = Some (demo_trade Frozen False)
   \<and> (\<exists>d. es_cases (demo_disputed demo_voted) 1 = Some d \<and> \<not> dc_resolved d)"
proof -
  have e: "es_trades (demo_disputed demo_voted) 1 = Some (demo_trade Frozen False)"
    by (simp add: demo_disputed_def demo_chain_def)
  have "\<exists>e. es_trades (demo_disputed demo_voted) 1 = Some e \<and> te_state e = Frozen"
    using e by (simp add: demo_trade_def)
  with e frozen_iff_open_case [OF ref.token_env_axioms demo_voted_reachable, of 1]
  show ?thesis by blast
qed


section \<open>Ending a round\<close>

text \<open>One execution, by what the tally says.\<close>

lemma execution_outcome:
  assumes "handle_execute_dispute_outcome env sv a w = Inr w'"
    and "token_env env" and "reachable escrow_genesis (escrow_step env) (t, w)"
  shows "\<exists>d d' e state. es_cases w (ex_dispute_case a) = Some d \<and> \<not> dc_resolved d
     \<and> dc_reveal_deadline d \<le> unix_timestamp sv
     \<and> es_trades w (ex_dispute_case a) = Some e \<and> te_state e = Frozen
     \<and> es_cases w' = (es_cases w)(ex_dispute_case a \<mapsto> d')
     \<and> es_trades w' = (es_trades w)(ex_dispute_case a \<mapsto> e\<lparr>te_state := state\<rparr>)
     \<and> (case fst (tally d) of
          Some outcome \<Rightarrow> strict_plurality (case_votes d) outcome
            \<and> dc_resolved d' \<and> dc_outcome d' = Some outcome
            \<and> state = (if outcome = BuyerWins \<or> outcome = MutualSettlement then Released else Cancelled)
        | None \<Rightarrow> (\<forall>x. \<not> strict_plurality (case_votes d) x)
            \<and> (dc_resolved d' \<and> dc_outcome d' = None \<and> dc_terminal_reason d' \<noteq> None \<and> state = Released
               \<or> \<not> dc_resolved d' \<and> state = Frozen
                 \<and> unat (dc_round d') = unat (dc_round d) + 1 \<and> unat (dc_round d') < 3))"
  using assms(1)
proof (rule executeE)
  fix d e d' state
  assume d: "es_cases w (ex_dispute_case a) = Some d" "\<not> dc_resolved d"
    and e: "es_trades w (ex_trade_escrow a) = Some e" "te_state e = Frozen"
      "trade_escrow_pda (ex_trade_escrow a) = dc_trade_escrow d"
    and late: "dc_reveal_deadline d \<le> unix_timestamp sv"
    and out: "es_cases w' = (es_cases w)(ex_dispute_case a \<mapsto> d')"
      "es_trades w' = (es_trades w)(ex_trade_escrow a \<mapsto> e\<lparr>te_state := state\<rparr>)"
    and ended: "round_ended d d' Frozen state"
  have ci: "case_inv env (es_trades w) (c_tokens w) (ex_dispute_case a) d"
    by (rule escrow_inv_case [OF token_env.escrow_reachable_inv [OF assms(2,3)] d(1)])
  then have same: "ex_trade_escrow a = ex_dispute_case a" using e(3) by (simp add: case_inv_def)
  have "length (case_votes d) \<le> MAX_ARBITRATORS"
    using ci by (simp add: case_inv_def seats_ok_def case_votes_def)
  then have tally: "fst (tally d) = Some x \<longleftrightarrow> strict_plurality (case_votes d) x" for x
    using tally_spec by blast
  have verdict: "state = (if x = BuyerWins \<or> x = MutualSettlement then Released else Cancelled)"
    if "state = outcome_state (Some x)" for x
    using that by (cases x) auto
  have "case fst (tally d) of
          Some outcome \<Rightarrow> strict_plurality (case_votes d) outcome
            \<and> dc_resolved d' \<and> dc_outcome d' = Some outcome
            \<and> state = (if outcome = BuyerWins \<or> outcome = MutualSettlement then Released else Cancelled)
        | None \<Rightarrow> (\<forall>x. \<not> strict_plurality (case_votes d) x)
            \<and> (dc_resolved d' \<and> dc_outcome d' = None \<and> dc_terminal_reason d' \<noteq> None \<and> state = Released
               \<or> \<not> dc_resolved d' \<and> state = Frozen
                 \<and> unat (dc_round d') = unat (dc_round d) + 1 \<and> unat (dc_round d') < 3)"
  proof (cases "fst (tally d)")
    case None
    then show ?thesis
      using ended tally by (auto simp: round_ended_def MAX_DISPUTE_ROUNDS_def split: if_splits)
  next
    case (Some x)
    then show ?thesis
      using ended tally [of x] verdict [of x] by (auto simp: round_ended_def split: if_splits)
  qed
  then show ?thesis using d e(1,2) late out unfolding same by blast
qed

text \<open>A run of the program with the instructions that took effect; other programs' steps count as none.\<close>

inductive escrow_trace ::
  "env \<Rightarrow> i64 \<times> 'z escrow_chain_scheme \<Rightarrow> escrow_ix option list \<Rightarrow> i64 \<times> 'z escrow_chain_scheme \<Rightarrow> bool"
  for env s where
  trace_nil: "escrow_trace env s [] s"
| trace_ix:
    "\<lbrakk> escrow_trace env s xs (t, w); t \<le> unix_timestamp sv;
       \<forall>k. escrow_signer ix = Some k \<longrightarrow> \<not> signs_for EscrowProgram k;
       escrow_dispatch env sv ix w = Inr w' \<rbrakk>
     \<Longrightarrow> escrow_trace env s (xs @ [Some ix]) (unix_timestamp sv, w')"
| trace_outside:
    "\<lbrakk> escrow_trace env s xs (t, w); t \<le> t'; escrow_frame w w' \<rbrakk>
     \<Longrightarrow> escrow_trace env s (xs @ [None]) (t', w')"

lemma escrow_trace_reachable:
  assumes "escrow_trace env s xs s'" and "escrow_genesis s"
  shows "reachable escrow_genesis (escrow_step env) s'"
  using assms
  by induction (auto intro: reachable_init reachable_step escrow_step_ix escrow_step_outside)

lemma reachable_trace:
  assumes "reachable escrow_genesis (escrow_step env) s'"
  shows "\<exists>s xs. escrow_genesis s \<and> escrow_trace env s xs s'"
  using assms
proof induction
  case (reachable_step s1 s2)
  then obtain s xs where s: "escrow_genesis s" "escrow_trace env s xs s1" by blast
  from reachable_step(2) show ?case
    by cases (use s in \<open>blast intro: trace_ix trace_outside\<close>)+
qed (blast intro: trace_nil)

fun executes :: "u64 \<Rightarrow> escrow_ix option \<Rightarrow> bool" where
  "executes rid (Some (IxExecuteDisputeOutcome a)) \<longleftrightarrow> ex_dispute_case a = rid"
| "executes rid _ \<longleftrightarrow> False"

definition executions :: "u64 \<Rightarrow> escrow_ix option list \<Rightarrow> nat" where
  "executions rid xs = length (filter (executes rid) xs)"

text \<open>The executions of a case so far: none before it is opened, one for every round left behind,
  and one more for the verdict.\<close>

definition rounds_left :: "DisputeCase option \<Rightarrow> nat" where
  "rounds_left x = (case x of None \<Rightarrow> 0
     | Some d \<Rightarrow> unat (dc_round d) + (if dc_resolved d then 1 else 0))"

lemma other_ix_rounds:
  assumes "escrow_dispatch env sv ix w = Inr w'" and "\<not> executes rid (Some ix)"
  shows "rounds_left (es_cases w rid) \<le> rounds_left (es_cases w' rid)"
proof (cases "\<exists>a. ix = IxExecuteDisputeOutcome a")
  case True
  with assms obtain a where "handle_execute_dispute_outcome env sv a w = Inr w'" "ex_dispute_case a \<noteq> rid"
    by auto
  then show ?thesis by (auto elim: executeE)
next
  case False
  then show ?thesis
    using other_ix_same_case [OF assms(1), of rid]
    by (cases "es_cases w rid") (auto simp: rounds_left_def)
qed

lemma execution_rounds:
  assumes "handle_execute_dispute_outcome env sv a w = Inr w'"
  shows "Suc (rounds_left (es_cases w (ex_dispute_case a))) \<le> rounds_left (es_cases w' (ex_dispute_case a))"
  using assms
  by (rule executeE) (auto simp: rounds_left_def round_ended_def split: if_splits)

lemma executions_counted:
  assumes "escrow_trace env s xs (t, w)" and "escrow_genesis s"
  shows "executions rid xs \<le> rounds_left (es_cases w rid)"
  using assms
proof (induction xs "(t, w)" arbitrary: t w rule: escrow_trace.induct)
  case trace_nil
  then show ?case by (simp add: executions_def)
next
  case (trace_ix xs t w sv ix w')
  show ?case
  proof (cases "executes rid (Some ix)")
    case True
    then obtain a where a: "ix = IxExecuteDisputeOutcome a" "ex_dispute_case a = rid"
      by (cases ix) auto
    with trace_ix execution_rounds [of env sv a w w'] show ?thesis by (simp add: executions_def)
  next
    case False
    with trace_ix other_ix_rounds [OF _ False, of env sv w w'] show ?thesis by (simp add: executions_def)
  qed
next
  case (trace_outside xs t w t' w')
  then show ?case by (simp add: executions_def escrow_frame_def)
qed

text \<open>
  C21. Arbitration terminates. Over any run of the program from its start, a case is executed at
  most three times. An execution needs the reveal window of the round over. Where the revealed
  stake has a strict plurality with a quorum, the case is resolved with that outcome and the trade
  released to the buyer, returned to the merchant, or split. Where it has none, either the next
  round opens with the trade still frozen, never beyond the third, or the case is resolved with a
  recorded reason and the trade split.
\<close>

theorem execution_ends_round:
  assumes "token_env env" and "escrow_genesis s" and "escrow_trace env s xs (t, w)"
  shows "executions rid xs \<le> 3
     \<and> (handle_execute_dispute_outcome env sv a w = Inr w' \<longrightarrow> executions (ex_dispute_case a) xs < 3
     \<and> (\<exists>d d' e state. es_cases w (ex_dispute_case a) = Some d \<and> \<not> dc_resolved d
     \<and> dc_reveal_deadline d \<le> unix_timestamp sv
     \<and> es_trades w (ex_dispute_case a) = Some e \<and> te_state e = Frozen
     \<and> es_cases w' = (es_cases w)(ex_dispute_case a \<mapsto> d')
     \<and> es_trades w' = (es_trades w)(ex_dispute_case a \<mapsto> e\<lparr>te_state := state\<rparr>)
     \<and> (case fst (tally d) of
          Some outcome \<Rightarrow> strict_plurality (case_votes d) outcome
            \<and> dc_resolved d' \<and> dc_outcome d' = Some outcome
            \<and> state = (if outcome = BuyerWins \<or> outcome = MutualSettlement then Released else Cancelled)
        | None \<Rightarrow> (\<forall>x. \<not> strict_plurality (case_votes d) x)
            \<and> (dc_resolved d' \<and> dc_outcome d' = None \<and> dc_terminal_reason d' \<noteq> None \<and> state = Released
               \<or> \<not> dc_resolved d' \<and> state = Frozen
                 \<and> unat (dc_round d') = unat (dc_round d) + 1 \<and> unat (dc_round d') < 3))))"
proof (intro conjI impI, goal_cases)
  have reach: "reachable escrow_genesis (escrow_step env) (t, w)"
    by (rule escrow_trace_reachable [OF assms(3,2)])
  have round: "unat (dc_round d) < 3" if "es_cases w i = Some d" for i d
    using escrow_inv_case [OF token_env.escrow_reachable_inv [OF assms(1) reach] that]
    by (simp add: case_inv_def seats_ok_def MAX_DISPUTE_ROUNDS_def)
  note counted = executions_counted [OF assms(3,2)]
  {
    case 1
    show ?case
      using counted [of rid] round [of rid] by (auto simp: rounds_left_def split: option.splits if_splits)
  next
    case 2
    then obtain d where "es_cases w (ex_dispute_case a) = Some d" "\<not> dc_resolved d"
      using execution_outcome [OF _ assms(1) reach] by blast
    then show ?case
      using counted [of "ex_dispute_case a"] round [of "ex_dispute_case a" d] by (simp add: rounds_left_def)
  next
    case 3
    then show ?case by (rule execution_outcome [OF _ assms(1) reach])
  }
qed

theorem execution_ends_round_witness:
  "\<exists>s xs. escrow_genesis s \<and> escrow_trace ref_env s xs (222, demo_disputed demo_voted)
     \<and> handle_execute_dispute_outcome ref_env (demo_sv 320) demo_execute (demo_disputed demo_voted)
         = Inr demo_decided
     \<and> executions 1 xs \<le> 3 \<and> strict_plurality (case_votes demo_voted) BuyerWins"
proof -
  obtain s xs where tr: "escrow_genesis s" "escrow_trace ref_env s xs (222, demo_disputed demo_voted)"
    using reachable_trace [OF demo_voted_reachable] by blast
  have run: "handle_execute_dispute_outcome ref_env (demo_sv 320) demo_execute (demo_disputed demo_voted)
      = Inr demo_decided" using demo_execute_run by simp
  have d: "es_cases (demo_disputed demo_voted) (ex_dispute_case demo_execute) = Some demo_voted"
    by (simp add: demo_disputed_def demo_chain_def demo_execute_def)
  have "fst (tally demo_voted) = Some BuyerWins" by (simp add: demo_tally demo_voted_def)
  with execution_ends_round [OF ref.token_env_axioms tr, of 1 "demo_sv 320" demo_execute demo_decided]
    d run tr show ?thesis by (intro exI [of _ s] exI [of _ xs]) auto
qed


section \<open>What a verdict pays\<close>

text \<open>The payments of a decided round, from the trade's account and from the pool.\<close>

definition even_split :: "TradeEscrowVault \<Rightarrow> pubkey \<Rightarrow> (u64 \<times> pubkey) list" where
  "even_split e account = [(te_amount e div 2, account),
     (te_amount e - te_amount e div 2, liquidity_tokens_pda (te_seller e) (te_mint e))]"

definition trade_payments ::
  "FeeConfig \<Rightarrow> TradeEscrowVault \<Rightarrow> pubkey \<Rightarrow> DisputeOutcome option \<Rightarrow> (u64 \<times> pubkey) list \<Rightarrow> bool"
  where
  "trade_payments fc e account outcome ps \<longleftrightarrow>
     (case outcome of
        Some BuyerWins \<Rightarrow> (\<exists>b shares. compute_fee_split fc (te_amount e) = Inr (b, shares)
           \<and> ps = (b, account) # zip shares (fee_treasuries fc))
      | Some MutualSettlement \<Rightarrow> ps = even_split e account
      | None \<Rightarrow> ps = even_split e account
      | Some _ \<Rightarrow> ps = [(te_amount e, liquidity_tokens_pda (te_seller e) (te_mint e))])"

definition deposit_payment :: "DisputeCase \<Rightarrow> DisputeOutcome option \<Rightarrow> u64" where
  "deposit_payment d outcome = (if outcome = Some BuyerWins then 0 else dc_deposit d)"

text \<open>A set of payments out of one account.\<close>

definition pays :: "pubkey \<Rightarrow> (u64 \<times> pubkey) list \<Rightarrow> ledger \<Rightarrow> ledger \<Rightarrow> bool" where
  "pays from ps L L' \<longleftrightarrow> (\<forall>k. balance L' k + (if k = from then paid_total ps else 0)
     = balance L k + paid_to ps k)"

lemma pays_moved:
  assumes "moved L from to a L'"
  shows "pays from [(a, to)] L L'"
  unfolding pays_def
proof
  fix k
  show "balance L' k + (if k = from then paid_total [(a, to)] else 0)
      = balance L k + paid_to [(a, to)] k"
    using moved_balance [OF assms, of k] by auto
qed

context token_env
begin

lemma settle_deposit_pays:
  assumes "settle_deposit E outcome ctx = Inr (reward, refund, ctx1)"
    and "\<not> dc_deposit_settled (cx_dispute_case ctx)"
  shows "pays arbitration_pool_pda [(deposit_payment (cx_dispute_case ctx) outcome,
      liquidity_tokens_pda (lv_merchant (cx_merchant_open_vault ctx)) (cx_deposit_mint ctx))]
      (c_tokens (cx_world ctx)) (c_tokens (cx_world ctx1))"
proof (cases "dc_deposit (cx_dispute_case ctx) = 0 \<or> outcome = Some BuyerWins")
  case True
  with assms have "c_tokens (cx_world ctx1) = c_tokens (cx_world ctx)"
    by (auto simp: settle_deposit_def Let_def split: if_splits)
  with True show ?thesis by (auto simp: pays_def deposit_payment_def)
next
  case False
  with assms obtain w1 where
    tr: "(cpi_transfer E (cx_deposit_token_program ctx) arbitration_pool_pda (cx_deposit_mint ctx)
       (liquidity_tokens_pda (lv_merchant (cx_merchant_open_vault ctx)) (cx_deposit_mint ctx))
       fee_config_pda (dc_deposit (cx_dispute_case ctx)) (cx_deposit_decimals ctx) (cx_world ctx)
       :: EscrowErrorCode tx_error + _) = Inr w1"
    and w1: "cx_world ctx1 = w1"
    unfolding settle_deposit_def Let_def by auto
  show ?thesis
    by (rule cpi_transfer_moved [OF tr])
       (use w1 False in \<open>simp add: deposit_payment_def pays_moved\<close>)
qed

lemma transfers_pay:
  assumes "transfer_each E tp from mint auth d ps w = (Inr w' :: 'e tx_error + 'z chain_scheme)"
  shows "pays from ps (c_tokens w) (c_tokens w')"
proof -
  from transfer_each_effect [OF assms] obtain L' where "w' = w\<lparr>c_tokens := L'\<rparr>"
    "\<forall>k. balance L' k + (if k = from then paid_total ps else 0)
        = balance (c_tokens w) k + paid_to ps k"
    by blast
  then show ?thesis by (simp add: pays_def)
qed

lemma split_pays:
  assumes "ctx_split E ctx = Inr ctx1"
    and "te_reservation_id (cx_trade_escrow ctx) = rid" and "cx_mint ctx = te_mint (cx_trade_escrow ctx)"
  shows "pays (trade_tokens_pda rid) (even_split (cx_trade_escrow ctx) (cx_buyer_token_account ctx))
           (c_tokens (cx_world ctx)) (c_tokens (cx_world ctx1))"
proof -
  from assms obtain w1 half where "half = te_amount (cx_trade_escrow ctx) div 2"
    "(transfer_each E (cx_token_program ctx) (trade_tokens_pda rid) (cx_mint ctx) (trade_escrow_pda rid)
        (cx_decimals ctx) [(half, cx_buyer_token_account ctx),
           (te_amount (cx_trade_escrow ctx) - half,
            liquidity_tokens_pda (te_seller (cx_trade_escrow ctx)) (cx_mint ctx))] (cx_world ctx)
        :: EscrowErrorCode tx_error + _) = Inr w1"
    and "cx_world ctx1 = w1"
    by (auto simp: ctx_split_def split_trade_escrow_evenly_def Let_def checked_sub_def
        simp del: transfer_each.simps split: if_splits)
  then show ?thesis using assms(3) unfolding even_split_def by (metis transfers_pay)
qed

lemma unwind_pays:
  assumes "ctx_unwind E ctx = Inr ctx1"
    and "te_reservation_id (cx_trade_escrow ctx) = rid"
  shows "pays (trade_tokens_pda rid) [(te_amount (cx_trade_escrow ctx),
             liquidity_tokens_pda (te_seller (cx_trade_escrow ctx)) (cx_mint ctx))]
           (c_tokens (cx_world ctx)) (c_tokens (cx_world ctx1))"
proof -
  from assms obtain w1 where
    "(cpi_transfer E (cx_token_program ctx) (trade_tokens_pda rid) (cx_mint ctx)
        (liquidity_tokens_pda (te_seller (cx_trade_escrow ctx)) (cx_mint ctx)) (trade_escrow_pda rid)
        (te_amount (cx_trade_escrow ctx)) (cx_decimals ctx) (cx_world ctx)
        :: EscrowErrorCode tx_error + _) = Inr w1"
    and "cx_world ctx1 = w1"
    by (auto simp: ctx_unwind_def unwind_funded_trade_escrow_def Let_def)
  then show ?thesis by (elim cpi_transfer_moved) (simp add: pays_moved)
qed

lemma release_pays:
  assumes "ctx_release E now ctx = Inr ctx1" and "te_reservation_id (cx_trade_escrow ctx) = rid"
  obtains b shares where
    "compute_fee_split (cx_fee_config ctx) (te_amount (cx_trade_escrow ctx)) = Inr (b, shares)"
    and "pays (trade_tokens_pda rid)
           ((b, cx_buyer_token_account ctx) # zip shares (fee_treasuries (cx_fee_config ctx)))
           (c_tokens (cx_world ctx)) (c_tokens (cx_world ctx1))"
proof -
  from assms obtain b shares w1 where
    split: "compute_fee_split (cx_fee_config ctx) (te_amount (cx_trade_escrow ctx)) = Inr (b, shares)"
    and tr: "(transfer_each E (cx_token_program ctx) (trade_tokens_pda rid) (cx_mint ctx)
        (trade_escrow_pda rid) (cx_decimals ctx)
        (release_destinations (cx_fee_config ctx) (cx_buyer_token_account ctx) b shares) (cx_world ctx)
        :: EscrowErrorCode tx_error + _) = Inr w1"
    and "c_tokens (cx_world ctx1) = c_tokens w1"
    by (auto simp: ctx_release_def release_trade_escrow_funds_def Let_def emit_escrow_def
        simp del: transfer_each.simps)
  then show thesis using transfers_pay [OF tr] by (intro that [OF split]) (simp add: release_destinations_def)
qed

end


text \<open>Both movements of a decided round.\<close>

definition verdict_paid ::
  "FeeConfig \<Rightarrow> DisputeCase \<Rightarrow> TradeEscrowVault \<Rightarrow> pubkey \<Rightarrow> DisputeOutcome option \<Rightarrow> ledger \<Rightarrow> ledger
   \<Rightarrow> bool" where
  "verdict_paid fc d e account outcome L L' \<longleftrightarrow>
     (\<exists>ps L1. trade_payments fc e account outcome ps
        \<and> pays arbitration_pool_pda [(deposit_payment d outcome,
            liquidity_tokens_pda (te_seller e) (dc_deposit_mint d))] L L1
        \<and> pays (trade_tokens_pda (te_reservation_id e)) ps L1 L')"

context token_env
begin

lemma apply_outcome_pays:
  assumes ok: "apply_outcome E now outcome ctx = Inr ctx1"
    and e: "te_reservation_id (cx_trade_escrow ctx) = rid" "cx_mint ctx = te_mint (cx_trade_escrow ctx)"
  obtains ps where
    "trade_payments (cx_fee_config ctx) (cx_trade_escrow ctx) (cx_buyer_token_account ctx) (Some outcome) ps"
    and "pays (trade_tokens_pda rid) ps (c_tokens (cx_world ctx)) (c_tokens (cx_world ctx1))"
proof (cases outcome)
  case BuyerWins
  with ok have "ctx_release E now ctx = Inr ctx1" by (simp add: apply_outcome_def)
  from release_pays [OF this e(1)] show thesis
    using that BuyerWins unfolding trade_payments_def by simp blast
next
  case MutualSettlement
  with ok have "ctx_split E ctx = Inr ctx1" by (simp add: apply_outcome_def)
  from split_pays [OF this e] show thesis
    using that MutualSettlement by (simp add: trade_payments_def)
next
  case MerchantWins
  with ok have "ctx_unwind E ctx = Inr ctx1" by (simp add: apply_outcome_def)
  from unwind_pays [OF this e(1)] show thesis
    using that MerchantWins e(2) by (simp add: trade_payments_def)
next
  case InvalidDispute
  with ok have "ctx_unwind E ctx = Inr ctx1" by (simp add: apply_outcome_def)
  from unwind_pays [OF this e(1)] show thesis
    using that InvalidDispute e(2) by (simp add: trade_payments_def)
qed

text \<open>The accounts the payments name, as the loaded context has them.\<close>

lemma execute_body_pays:
  assumes body: "execute_body E sv ctx = Inr ctx1"
    and d: "\<not> dc_deposit_settled (cx_dispute_case ctx)" "\<not> dc_resolved (cx_dispute_case ctx)"
    and e: "cx_mint ctx = te_mint (cx_trade_escrow ctx)"
    and ov: "lv_merchant (cx_merchant_open_vault ctx) = te_seller (cx_trade_escrow ctx)"
      "cx_deposit_mint ctx = dc_deposit_mint (cx_dispute_case ctx)"
    and resolved: "dc_resolved (cx_dispute_case ctx1)"
  shows "verdict_paid (cx_fee_config ctx) (cx_dispute_case ctx) (cx_trade_escrow ctx)
    (cx_buyer_token_account ctx) (fst (tally (cx_dispute_case ctx)))
    (c_tokens (cx_world ctx)) (c_tokens (cx_world ctx1))"
proof (cases "fst (tally (cx_dispute_case ctx))")
  case None
  then obtain n where "tally (cx_dispute_case ctx) = (None, n)" by (metis prod.collapse)
  with body have "handle_undecided_round E sv (unix_timestamp sv) n ctx = Inr ctx1"
    by (simp add: execute_body_def Let_def)
  then show ?thesis
  proof (cases rule: undecidedE)
    case (split floor reason m)
    let ?c = "ctx\<lparr>cx_dispute_case := bar_silent_seats (cx_dispute_case ctx)\<rparr>"
    from split obtain rp rf c1 c2 where
      c1: "settle_deposit E None ?c = Inr (rp, rf, c1)" and c2: "ctx_split E c1 = Inr c2"
      and out: "c_tokens (cx_world ctx1) = c_tokens (cx_world c2)"
      by (auto simp: terminal_split_def Let_def ctx_emit_def emit_escrow_def)
    from c1 obtain s p r V L where
      c1': "c1 = ?c\<lparr>cx_dispute_case := (cx_dispute_case ?c)\<lparr>dc_deposit_settled := s,
         dc_reward_pool := p, dc_reward_remaining := r\<rparr>, cx_merchant_open_vault := V,
         cx_world := (cx_world ?c)\<lparr>c_tokens := L\<rparr>\<rparr>"
      by (rule settle_deposit_frame)
    have "pays (trade_tokens_pda (te_reservation_id (cx_trade_escrow ctx)))
        (even_split (cx_trade_escrow ctx) (cx_buyer_token_account ctx))
        (c_tokens (cx_world c1)) (c_tokens (cx_world ctx1))"
      using split_pays [OF c2 refl] e by (simp add: out c1')
    with settle_deposit_pays [OF c1] d(1) ov None show ?thesis
      unfolding verdict_paid_def trade_payments_def
      by (auto simp: deposit_payment_def)
  next
    case reopen
    then have "\<not> dc_resolved (cx_dispute_case ctx1)"
      using d(2) by (auto simp: reopen_round_def Let_def)
    with resolved show ?thesis by simp
  qed
next
  case (Some outcome)
  then obtain n where tally: "tally (cx_dispute_case ctx) = (Some outcome, n)"
    by (metis prod.collapse)
  with body obtain rp rf c1 c2 where
    c1: "settle_deposit E (Some outcome) ctx = Inr (rp, rf, c1)"
    and c2: "apply_outcome E (unix_timestamp sv) outcome c1 = Inr c2"
    and out: "c_tokens (cx_world ctx1) = c_tokens (cx_world c2)"
    by (auto simp: execute_body_def Let_def ctx_emit_def emit_escrow_def)
  from c1 obtain s p r V L where
    c1': "c1 = ctx\<lparr>cx_dispute_case := (cx_dispute_case ctx)\<lparr>dc_deposit_settled := s,
       dc_reward_pool := p, dc_reward_remaining := r\<rparr>, cx_merchant_open_vault := V,
       cx_world := (cx_world ctx)\<lparr>c_tokens := L\<rparr>\<rparr>"
    by (rule settle_deposit_frame)
  from c2 obtain ps where "trade_payments (cx_fee_config c1) (cx_trade_escrow c1)
        (cx_buyer_token_account c1) (Some outcome) ps"
      "pays (trade_tokens_pda (te_reservation_id (cx_trade_escrow c1))) ps
        (c_tokens (cx_world c1)) (c_tokens (cx_world c2))"
    by (rule apply_outcome_pays) (use e in \<open>simp_all add: c1'\<close>)
  with settle_deposit_pays [OF c1 d(1)] ov Some show ?thesis
    unfolding verdict_paid_def out by (auto simp: c1')
qed

end


text \<open>
  C4. The money follows the verdict, to the unit. When an execution in a reachable state resolves
  the case, the trade's account pays: if the buyer wins, the buyer's account the amount less the
  fee and the treasuries the fee; if the merchant wins or the dispute is invalid, the merchant's
  vault the whole amount; on a mutual settlement or an undecided last round, the buyer's account
  half, rounded down, and the merchant's vault the rest. The pool returns the deposit to the
  merchant's deposit vault unless the buyer won. No other balance changes.
\<close>

theorem verdict_pays_exactly:
  assumes ok: "handle_execute_dispute_outcome env sv a w = Inr w'"
    and env: "token_env env" and reach: "reachable escrow_genesis (escrow_step env) (t, w)"
    and resolved: "es_cases w' (ex_dispute_case a) = Some d'" "dc_resolved d'"
  shows "\<exists>d e fc b. es_cases w (ex_dispute_case a) = Some d \<and> es_trades w (ex_dispute_case a) = Some e
     \<and> es_fee_config w = Some fc \<and> c_tokens w (ex_buyer_token_account a) = Some b
     \<and> ta_owner b = te_buyer e \<and> te_reservation_id e = ex_dispute_case a
     \<and> verdict_paid fc d e (ex_buyer_token_account a) (dc_outcome d') (c_tokens w) (c_tokens w')"
proof -
  have inv: "escrow_inv env w" by (rule token_env.escrow_reachable_inv [OF env reach])
  from ok obtain ctx ctx1 where load: "load_execute_ctx env a w = Inr ctx"
    and body: "execute_body env sv ctx = Inr ctx1" and w': "w' = store_execute_ctx a ctx1"
    by (auto simp: handle_execute_dispute_outcome_def)
  have l: "loaded env a w ctx" by (rule token_env.load_execute_loaded [OF env inv load])
  from load obtain b where b: "c_tokens w (ex_buyer_token_account a) = Some b"
      "ta_owner b = te_buyer (cx_trade_escrow ctx)" "cx_buyer_token_account ctx = ex_buyer_token_account a"
    unfolding load_execute_ctx_def Let_def trade_load_defs by auto
  have ci: "case_inv env (es_trades w) (c_tokens w) (ex_dispute_case a) (cx_dispute_case ctx)"
    by (rule escrow_inv_case [OF inv]) (use l in \<open>simp add: loaded_def\<close>)
  have vi: "vault_inv env (c_tokens w) (te_seller (cx_trade_escrow ctx), cx_deposit_mint ctx)
      (cx_merchant_open_vault ctx)"
    by (rule escrow_inv_vault [OF inv]) (use l in \<open>unfold loaded_def, blast\<close>)
  have d': "d' = cx_dispute_case ctx1" using resolved(1) w' by (simp add: store_execute_ctx_def escrow_world_simps)
  from l have adv: "ctx_advanced ctx ctx1" by (intro execute_body_advanced [OF body]) (simp add: loaded_def)
  have "verdict_paid (cx_fee_config ctx) (cx_dispute_case ctx) (cx_trade_escrow ctx)
    (cx_buyer_token_account ctx) (fst (tally (cx_dispute_case ctx)))
    (c_tokens (cx_world ctx)) (c_tokens (cx_world ctx1))"
    by (rule token_env.execute_body_pays [OF env body])
       (use l ci vi resolved(2) d' in \<open>auto simp: loaded_def case_inv_def verdict_ok_def vault_inv_def\<close>)
  moreover have "fst (tally (cx_dispute_case ctx)) = dc_outcome d'"
    using adv resolved(2) d' by (auto simp: ctx_advanced_def round_ended_def)
  moreover have "c_tokens w' = c_tokens (cx_world ctx1)"
    using w' by (simp add: store_execute_ctx_def escrow_world_simps)
  ultimately show ?thesis using l b by (auto simp: loaded_def)
qed

theorem verdict_pays_exactly_witness:
  "handle_execute_dispute_outcome ref_env (demo_sv 320) demo_execute (demo_disputed demo_voted)
     = Inr demo_decided
   \<and> verdict_paid demo_fees demo_voted (demo_trade Frozen False) (Key 51) (Some BuyerWins)
       (c_tokens (demo_disputed demo_voted)) (c_tokens demo_decided)"
proof -
  have run: "handle_execute_dispute_outcome ref_env (demo_sv 320) demo_execute (demo_disputed demo_voted)
      = Inr demo_decided" using demo_execute_run by simp
  have before: "es_cases (demo_disputed demo_voted) (ex_dispute_case demo_execute) = Some demo_voted"
    "es_trades (demo_disputed demo_voted) (ex_dispute_case demo_execute) = Some (demo_trade Frozen False)"
    "es_fee_config (demo_disputed demo_voted) = Some demo_fees"
    "ex_buyer_token_account demo_execute = Key 51"
    by (simp_all add: demo_disputed_def demo_chain_def demo_execute_def)
  have after: "es_cases demo_decided (ex_dispute_case demo_execute) = Some demo_verdict"
    "dc_resolved demo_verdict" "dc_outcome demo_verdict = Some BuyerWins"
    by (simp_all add: demo_decided_def demo_chain_def demo_execute_def demo_verdict_def)
  show ?thesis
    using verdict_pays_exactly [OF run ref.token_env_axioms demo_voted_reachable after(1,2)]
      before after(3) run by auto
qed

end
