(* ===== verification/Arbitration_Properties.thy ===== *)
theory Arbitration_Properties
  imports Dispute_Properties
begin

text \<open>
  Arbitrators and deposits: sealed votes bind, seats are taken by staked wallets only, the winning
  seats share a forfeited deposit exactly and once, and opening a case takes from the merchant what
  its vault has and records the rest as a claim.
\<close>


section \<open>Rewards\<close>

text \<open>
  C32. A successful reward claim in a reachable state is by the holder of a seat that revealed the
  winning outcome with positive weight and was not paid before. It pays the floor of the seat's
  share of the forfeited deposit by weight, or, for the last such seat, all that remains; from the
  arbitration pool to the named account and nowhere else; the case remembers the payment, and the
  same arbitrator's next claim on it fails.
\<close>

theorem reward_claim_exact:
  assumes env: "token_env env" and reach: "reachable escrow_genesis (escrow_step env) (t, w)"
    and ok: "handle_claim_arbitration_reward env sv arbitrator rid mint to tp w = Inr w'"
  shows "\<exists>d outcome i amount. es_cases w rid = Some d \<and> dc_outcome d = Some outcome
     \<and> i < length (dc_arbitrators d) \<and> dc_arbitrators d ! i = arbitrator
     \<and> i \<in> set (unpaid_seats d outcome)
     \<and> unat amount = (if unpaid_seats d outcome = [i] then unat (dc_reward_remaining d)
          else unat (dc_reward_pool d) * unat (dc_weights d ! i) div unat (dc_winning_weight d))
     \<and> moved (c_tokens w) arbitration_pool_pda to amount (c_tokens w')
     \<and> es_cases w' = (es_cases w)(rid \<mapsto> d\<lparr>dc_reward_claimed := (dc_reward_claimed d)[i := True],
          dc_reward_remaining := dc_reward_remaining d - amount\<rparr>)
     \<and> unat amount \<le> unat (dc_reward_remaining d)
     \<and> (\<forall>sv' to' tp' w''. handle_claim_arbitration_reward env sv' arbitrator rid mint to' tp' w' \<noteq> Inr w'')"
  using ok
proof (rule claim_rewardE)
  fix d outcome i dec amount remaining w1
  assume d: "es_cases w rid = Some d" "dc_resolved d" "dc_outcome d = Some outcome"
    and pos: "position arbitrator (dc_arbitrators d) = Some i"
    and seat: "i < length (dc_reward_claimed d)" "\<not> dc_reward_claimed d ! i" "winning_seat d outcome i"
    and share: "reward_share d outcome (dc_weights d ! i) = Inr amount"
    and tr: "(cpi_transfer env tp arbitration_pool_pda mint to fee_config_pda amount dec w
       :: EscrowErrorCode tx_error + _) = Inr w1"
    and rem: "unat (dc_reward_remaining d) = unat amount + unat remaining"
    and w': "w' = emit_escrow (ArbitrationRewardClaimed rid arbitrator (dc_weights d ! i)
               (dc_winning_weight d) amount to (unix_timestamp sv))
          (put_case rid (d\<lparr>dc_reward_claimed := (dc_reward_claimed d)[i := True],
             dc_reward_remaining := remaining\<rparr>) w1)"
  have inv: "escrow_inv env w" by (rule token_env.escrow_reachable_inv [OF env reach])
  have rok: "rewards_ok d outcome"
    using escrow_inv_case [OF inv d(1)] d by (simp add: case_inv_def verdict_ok_def)
  have i: "i \<in> set (unpaid_seats d outcome)" using seat by simp
  have paid: "unat amount = (if unpaid_seats d outcome = [i] then unat (dc_reward_remaining d)
      else unat (dc_reward_pool d) * unat (dc_weights d ! i) div unat (dc_winning_weight d))"
    using reward_share_value [OF rok i] share by (auto simp: seat_share_def)
  have r: "remaining = dc_reward_remaining d - amount"
    using rem by (metis add_diff_cancel_left' unat_sub word_le_nat_alt word_unat_eq_iff le_add1)
  from token_env.cpi_transfer_moved [OF env tr] obtain L where
    L: "w1 = w\<lparr>c_tokens := L\<rparr>" "moved (c_tokens w) arbitration_pool_pda to amount L" .
  let ?d = "d\<lparr>dc_reward_claimed := (dc_reward_claimed d)[i := True],
        dc_reward_remaining := dc_reward_remaining d - amount\<rparr>"
  have cases: "es_cases w' = (es_cases w)(rid \<mapsto> ?d)" by (simp add: w' escrow_world_simps L(1) r)
  have "handle_claim_arbitration_reward env sv' arbitrator rid mint to' tp' w' \<noteq> Inr w''" for sv' to' tp' w''
  proof
    assume "handle_claim_arbitration_reward env sv' arbitrator rid mint to' tp' w' = Inr w''"
    then show False by (rule claim_rewardE) (use cases pos seat(1) in auto)
  qed
  moreover have "i < length (dc_arbitrators d)" "dc_arbitrators d ! i = arbitrator"
    using position_Some [OF pos] by auto
  moreover have "c_tokens w' = L" by (simp add: w' escrow_world_simps L(1))
  ultimately show ?thesis using d i paid L(2) cases rem by (metis le_add1)
qed

text \<open>The first winner of the history, with 40 of 60 units of winning stake, claims 13 of 20.\<close>

lemma demo_reward_share: "reward_share demo_verdict BuyerWins 40 = Inr 13"
proof -
  have "outstanding_seats demo_verdict BuyerWins = 2"
    by (simp add: outstanding_seats_def demo_verdict_def demo_dispute_def winning_seat_def
        list_get_def upt_rec word_gt_0)
  moreover have "mul_div_u64 20 40 60 = Some 13"
    by (simp add: mul_div_u64_def checked_mul_def checked_div_def)
  ultimately show ?thesis
    by (simp add: reward_share_def demo_verdict_def max_def min_def word_le_nat_alt)
qed

lemma demo_claim_run:
  "\<exists>w'. handle_claim_arbitration_reward ref_env (demo_sv 330) (Key 21) 1 (Key 2) (Key 71)
          (Prog SplTokenProgram) demo_decided = Inr w'"
proof -
  have d: "es_cases demo_decided 1 = Some demo_verdict" by (simp add: demo_decided_def demo_chain_def)
  show ?thesis
    using demo_reward_share d
    by (simp add: handle_claim_arbitration_reward_def vault_load_defs demo_decided_def demo_chain_def
        demo_ledger_def demo_accounts_def demo_account_def demo_fees_def token_interface_ids_def
        demo_verdict_def demo_dispute_def list_get_def cpi_transfer_def ref_transfer_checked_def
        checked_sub_def checked_add_def Let_def word_gt_0 word_le_nat_alt)
qed

theorem reward_claim_exact_witness:
  "\<exists>w' amount. handle_claim_arbitration_reward ref_env (demo_sv 330) (Key 21) 1 (Key 2) (Key 71)
          (Prog SplTokenProgram) demo_decided = Inr w'
     \<and> moved (c_tokens demo_decided) arbitration_pool_pda (Key 71) amount (c_tokens w')
     \<and> unat amount \<le> 20"
proof -
  obtain w' where run: "handle_claim_arbitration_reward ref_env (demo_sv 330) (Key 21) 1 (Key 2) (Key 71)
      (Prog SplTokenProgram) demo_decided = Inr w'" using demo_claim_run ..
  have d: "es_cases demo_decided 1 = Some demo_verdict" by (simp add: demo_decided_def demo_chain_def)
  have "dc_reward_remaining demo_verdict = 20" by (simp add: demo_verdict_def)
  with reward_claim_exact [OF ref.token_env_axioms demo_decided_reachable run] d run
  show ?thesis by auto
qed



section \<open>Votes\<close>

lemma revealE:
  assumes "handle_reveal_dispute_vote env sv arbitrator rid outcome salt w = Inr w'"
  obtains d i s c where "es_cases w rid = Some d" and "sk_stakes w (arbitrator, Arbitrator) = Some s"
    and "sk_config w = Some c" and "position arbitrator (dc_arbitrators d) = Some i"
    and "dc_commit_deadline d \<le> unix_timestamp sv" and "unix_timestamp sv < dc_reveal_deadline d"
    and "i < length (dc_revealed_outcomes d)" and "dc_revealed_outcomes d ! i = None"
    and "i < length (dc_commitments d)"
    and "dc_commitments d ! i = sha256 env (word_of_nat (outcome_index outcome) # salt)"
    and "w' = put_case rid (d\<lparr>dc_revealed_outcomes := (dc_revealed_outcomes d)[i := Some outcome],
           dc_weights := (dc_weights d)[i := effective_stake s c]\<rparr>) w"
  using assms
  by (auto simp: handle_reveal_dispute_vote_def load_case_def load_config_def load_arbitrator_stake_def
      Let_def list_get_def intro!: that split: if_splits)

lemma outcome_byte_inj:
  "(word_of_nat (outcome_index x) :: u8) = word_of_nat (outcome_index y) \<longleftrightarrow> x = y"
  by (cases x; cases y) simp_all

text \<open>
  A reveal opens a sealed vote and no other: it succeeds only inside the reveal window, for the
  holder of a seat that has not revealed, when outcome and salt hash to the commitment stored at
  that seat. It writes that outcome, weighted by the arbitrator's effective stake at that moment,
  at that seat only; the arbitrator cannot reveal again; and opening the same commitment as another
  outcome or with another salt would exhibit a SHA-256 collision.
\<close>

theorem reveal_opens_commitment:
  assumes "handle_reveal_dispute_vote env sv arbitrator rid outcome salt w = Inr w'"
  shows "\<exists>d i s c. es_cases w rid = Some d \<and> sk_stakes w (arbitrator, Arbitrator) = Some s
     \<and> sk_config w = Some c \<and> i < length (dc_arbitrators d) \<and> dc_arbitrators d ! i = arbitrator
     \<and> dc_commit_deadline d \<le> unix_timestamp sv \<and> unix_timestamp sv < dc_reveal_deadline d
     \<and> dc_revealed_outcomes d ! i = None
     \<and> dc_commitments d ! i = sha256 env (word_of_nat (outcome_index outcome) # salt)
     \<and> es_cases w' = (es_cases w)(rid \<mapsto>
          d\<lparr>dc_revealed_outcomes := (dc_revealed_outcomes d)[i := Some outcome],
            dc_weights := (dc_weights d)[i := effective_stake s c]\<rparr>)
     \<and> (\<forall>sv' outcome' salt' w''.
          handle_reveal_dispute_vote env sv' arbitrator rid outcome' salt' w' \<noteq> Inr w'')
     \<and> (\<forall>sv' outcome' salt' w''.
          handle_reveal_dispute_vote env sv' arbitrator rid outcome' salt' w = Inr w'' \<longrightarrow>
          outcome' = outcome \<and> salt' = salt \<or> (\<exists>x y. x \<noteq> y \<and> sha256 env x = sha256 env y))"
  using assms
proof (rule revealE)
  fix d i s c
  assume d: "es_cases w rid = Some d" and s: "sk_stakes w (arbitrator, Arbitrator) = Some s"
    "sk_config w = Some c" and pos: "position arbitrator (dc_arbitrators d) = Some i"
    and open_at: "dc_commit_deadline d \<le> unix_timestamp sv" "unix_timestamp sv < dc_reveal_deadline d"
    and i: "i < length (dc_revealed_outcomes d)" "dc_revealed_outcomes d ! i = None"
    and hash: "dc_commitments d ! i = sha256 env (word_of_nat (outcome_index outcome) # salt)"
    and w': "w' = put_case rid (d\<lparr>dc_revealed_outcomes := (dc_revealed_outcomes d)[i := Some outcome],
           dc_weights := (dc_weights d)[i := effective_stake s c]\<rparr>) w"
  have "handle_reveal_dispute_vote env sv' arbitrator rid outcome' salt' w' \<noteq> Inr w''"
    for sv' outcome' salt' w''
  proof
    assume "handle_reveal_dispute_vote env sv' arbitrator rid outcome' salt' w' = Inr w''"
    then show False by (rule revealE) (use pos i in \<open>auto simp: w' put_case_def\<close>)
  qed
  moreover have "outcome' = outcome \<and> salt' = salt \<or> (\<exists>x y. x \<noteq> y \<and> sha256 env x = sha256 env y)"
    if "handle_reveal_dispute_vote env sv' arbitrator rid outcome' salt' w = Inr w''"
    for sv' outcome' salt' w''
    using that
  proof (rule revealE)
    fix d' i' s' c' assume "es_cases w rid = Some d'" "position arbitrator (dc_arbitrators d') = Some i'"
      "dc_commitments d' ! i' = sha256 env (word_of_nat (outcome_index outcome') # salt')"
    with d pos hash have "sha256 env (word_of_nat (outcome_index outcome) # salt)
        = sha256 env (word_of_nat (outcome_index outcome') # salt')" by simp
    then show ?thesis by (metis list.inject outcome_byte_inj)
  qed
  moreover have "i < length (dc_arbitrators d)" "dc_arbitrators d ! i = arbitrator"
    using position_Some [OF pos] by auto
  moreover have "es_cases w' = (es_cases w)(rid \<mapsto>
          d\<lparr>dc_revealed_outcomes := (dc_revealed_outcomes d)[i := Some outcome],
            dc_weights := (dc_weights d)[i := effective_stake s c]\<rparr>)"
    by (simp add: w' put_case_def)
  ultimately show ?thesis using d s open_at i hash by blast
qed

lemma demo_reveal_run:
  "\<exists>w'. handle_reveal_dispute_vote ref_env (demo_sv 220) (Key 21) 1 BuyerWins (replicate 32 7)
          (demo_disputed (demo_dispute [0, 0, 0] [None, None, None])) = Inr w'"
  using demo_revealing_run by (auto simp: demo_revealing_def)

theorem reveal_opens_commitment_witness:
  "\<exists>w'. handle_reveal_dispute_vote ref_env (demo_sv 220) (Key 21) 1 BuyerWins (replicate 32 7)
          (demo_disputed (demo_dispute [0, 0, 0] [None, None, None])) = Inr w'
     \<and> (\<forall>sv' outcome' salt' w''.
          handle_reveal_dispute_vote ref_env sv' (Key 21) 1 outcome' salt' w' \<noteq> Inr w'')"
proof -
  obtain w' where run: "handle_reveal_dispute_vote ref_env (demo_sv 220) (Key 21) 1 BuyerWins
      (replicate 32 7) (demo_disputed (demo_dispute [0, 0, 0] [None, None, None])) = Inr w'"
    using demo_reveal_run ..
  with reveal_opens_commitment [OF run] show ?thesis by blast
qed

text \<open>
  A seat is earned: a commit succeeds only before the commit deadline, for an arbitrator whose
  effective stake reaches the arbitrator minimum, whose stake has the required age, who is drawn
  by the case's sortition, who is not barred from the case and holds no seat of it, while fewer than
  seven seats are taken. It appends exactly that seat, with no vote and no weight.
\<close>

theorem seat_requirements:
  assumes "handle_commit_dispute_vote env sv arbitrator rid commitment w = Inr w'"
  shows "\<exists>d s c fc. es_cases w rid = Some d \<and> sk_stakes w (arbitrator, Arbitrator) = Some s
     \<and> sk_config w = Some c \<and> es_fee_config w = Some fc
     \<and> unat (min_stake_for c Arbitrator) \<le> unat (effective_stake s c)
     \<and> meets_stake_age s (unix_timestamp sv) (fc_min_arbitrator_stake_age_secs fc)
     \<and> unix_timestamp sv < dc_commit_deadline d
     \<and> qualifies_for_seat env (dc_case_seed d) (stake_account_pda arbitrator Arbitrator)
         (fc_arbitrator_sortition_bps fc) (dc_round_opened_at d) (dc_commit_deadline d)
         (unix_timestamp sv)
     \<and> arbitrator \<notin> set (dc_barred d) \<and> arbitrator \<notin> set (dc_arbitrators d)
     \<and> length (dc_arbitrators d) < 7
     \<and> es_cases w' = (es_cases w)(rid \<mapsto> d\<lparr>dc_arbitrators := dc_arbitrators d @ [arbitrator],
          dc_commitments := dc_commitments d @ [commitment],
          dc_revealed_outcomes := dc_revealed_outcomes d @ [None], dc_weights := dc_weights d @ [0],
          dc_seats_taken_total := dc_seats_taken_total d + 1\<rparr>)"
  using assms
  by (auto simp: handle_commit_dispute_vote_def load_case_def load_config_def load_fee_config_def
      load_arbitrator_stake_def Let_def put_case_def checked_add_def MAX_ARBITRATORS_def
      word_le_nat_alt split: if_splits)

theorem seat_requirements_witness:
  "\<exists>w'. handle_commit_dispute_vote ref_env (demo_sv 120) (Key 21) 1 (replicate 32 0)
          (demo_disputed (demo_dispute [] [])) = Inr w'
     \<and> unat (min_stake_for demo_config Arbitrator) \<le> unat (effective_stake (demo_arbitrator (Key 21) 40) demo_config)"
proof -
  obtain w' where run: "handle_commit_dispute_vote ref_env (demo_sv 120) (Key 21) 1 (replicate 32 0)
          (demo_disputed (demo_dispute [] [])) = Inr w'"
    using demo_voting_run by (auto simp: demo_voting_def)
  have "sk_stakes (demo_disputed (demo_dispute [] [])) (Key 21, Arbitrator)
      = Some (demo_arbitrator (Key 21) 40)" "sk_config (demo_disputed (demo_dispute [] [])) = Some demo_config"
    by (simp_all add: demo_disputed_def demo_chain_def)
  with seat_requirements [OF run] run show ?thesis by auto
qed



section \<open>Deposits\<close>

lemma record_shortfall_claim:
  assumes "record_shortfall env rid seller mint shortfall now w = Inr w'"
  shows "\<exists>c. es_claims w' = (es_claims w)((seller, mint) \<mapsto> c)
     \<and> rc_merchant c = seller \<and> rc_mint c = mint
     \<and> unat (rc_owed_total c) = unat (rc_owed_total (claim_or_new w (seller, mint))) + unat shortfall
     \<and> rc_credited_total c = rc_credited_total (claim_or_new w (seller, mint))
     \<and> unat (rc_case_count c) = unat (rc_case_count (claim_or_new w (seller, mint)))
         + (if shortfall > 0 then 1 else 0)"
proof (cases "shortfall > 0")
  case True
  with assms show ?thesis
    by (auto simp: record_shortfall_def Let_def escrow_world_simps checked_add_Some)
next
  case False
  then have "shortfall = 0" by (simp add: word_gt_0)
  with assms show ?thesis
    by (auto simp: record_shortfall_def Let_def escrow_world_simps)
qed

context token_env
begin

lemma take_deposit_pays:
  assumes "take_deposit E tp seller mint d a v w = (Inr (v', w1)
             :: EscrowErrorCode tx_error + _ \<times> 'z escrow_chain_scheme)"
    and "w1 = w\<lparr>c_tokens := L\<rparr>"
  shows "pays (liquidity_tokens_pda seller mint) [(a, arbitration_pool_pda)] (c_tokens w) L
     \<and> v' = v\<lparr>lv_available := lv_available v - a, lv_total := lv_total v - a\<rparr>"
proof (cases "a > 0")
  case True
  with assms(1) have tr: "(cpi_transfer E tp (liquidity_tokens_pda seller mint) mint arbitration_pool_pda
        (liquidity_vault_pda seller mint) a d w :: EscrowErrorCode tx_error + _) = Inr w1"
    and "v' = v\<lparr>lv_available := lv_available v - a, lv_total := lv_total v - a\<rparr>"
    by (auto simp: take_deposit_def checked_sub_def split: if_splits)
  moreover have "pays (liquidity_tokens_pda seller mint) [(a, arbitration_pool_pda)] (c_tokens w) (c_tokens w1)"
    by (rule cpi_transfer_moved [OF tr]) (simp add: pays_moved)
  ultimately show ?thesis using assms(2) by simp
next
  case False
  then have a: "a = 0" by (simp add: word_gt_0)
  with assms have "w = w\<lparr>c_tokens := L\<rparr>" "v' = v" by (auto simp: take_deposit_def)
  from arg_cong [OF this(1), of c_tokens] this(2) a show ?thesis by (simp add: pays_def)
qed

end

text \<open>
  Opening a case freezes a funded trade at the request of one of its
  parties. The deposit is the configured fee or what the merchant's deposit vault has available,
  whichever is less; exactly that moves from the vault to the arbitration pool and leaves the
  vault's available and total counters; and the difference to the configured fee is added to what
  the merchant's recovery claim owes. The case starts in its first round with no seats.
\<close>

theorem dispute_opening_charges:
  assumes env: "token_env env" and ok: "handle_open_dispute_case env sv signer rid mint tp cw rw w = Inr w'"
  shows "\<exists>e fc v d c deposit. es_trades w rid = Some e \<and> (signer = te_buyer e \<or> signer = te_seller e)
     \<and> te_state e = AwaitingFiatSettlement \<and> es_trades w' = (es_trades w)(rid \<mapsto> e\<lparr>te_state := Frozen\<rparr>)
     \<and> es_fee_config w = Some fc \<and> es_vaults w (te_seller e, mint) = Some v
     \<and> deposit = min (fc_dispute_filing_fee fc) (lv_available v)
     \<and> pays (liquidity_tokens_pda (te_seller e) mint) [(deposit, arbitration_pool_pda)]
         (c_tokens w) (c_tokens w')
     \<and> es_vaults w' = (es_vaults w)((te_seller e, mint) \<mapsto>
          v\<lparr>lv_available := lv_available v - deposit, lv_total := lv_total v - deposit\<rparr>)
     \<and> es_claims w' = (es_claims w)((te_seller e, mint) \<mapsto> c)
     \<and> unat (rc_owed_total c) + unat deposit
         = unat (rc_owed_total (claim_or_new w (te_seller e, mint))) + unat (fc_dispute_filing_fee fc)
     \<and> es_cases w' = (es_cases w)(rid \<mapsto> d) \<and> dc_deposit d = deposit \<and> dc_round d = 0
     \<and> unat (dc_deposit d) + unat (dc_deposit_shortfall d) = unat (fc_dispute_filing_fee fc)
     \<and> dc_arbitrators d = [] \<and> \<not> dc_resolved d
     \<and> dc_commit_deadline d = unix_timestamp sv + cw \<and> dc_reveal_deadline d = unix_timestamp sv + cw + rw"
  using ok
proof (rule open_disputeE)
  fix e fc dec v p deposit shortfall v' w1 w2 d
  assume e: "es_trades w rid = Some e" "signer = te_buyer e \<or> signer = te_seller e"
      "te_state e = AwaitingFiatSettlement"
    and fc: "es_fee_config w = Some fc" and v: "es_vaults w (te_seller e, mint) = Some v"
    and dep: "deposit = min (fc_dispute_filing_fee fc) (lv_available v)"
      "unat (fc_dispute_filing_fee fc) = unat deposit + unat shortfall"
    and take: "take_deposit env tp (te_seller e) mint dec deposit v w = Inr (v', w1)"
    and rec: "record_shortfall env rid (te_seller e) mint shortfall (unix_timestamp sv)
       (emit_escrow (ArbitrationDepositTaken rid (te_seller e) signer
          (liquidity_vault_pda (te_seller e) mint) mint deposit shortfall (unix_timestamp sv))
       (put_vault (te_seller e, mint) v' w1)) = Inr w2"
    and w': "w' = put_trade rid (e\<lparr>te_state := Frozen\<rparr>) (put_case rid d w2)"
    and d: "dc_deposit d = deposit" "dc_deposit_shortfall d = shortfall" "dc_round d = 0"
      "dc_arbitrators d = []" "\<not> dc_resolved d" "dc_commit_deadline d = unix_timestamp sv + cw"
      "dc_reveal_deadline d = dc_commit_deadline d + rw"
  from take_deposit_frame [OF take] obtain L where w1: "w1 = w\<lparr>c_tokens := L\<rparr>" ..
  have taken: "pays (liquidity_tokens_pda (te_seller e) mint) [(deposit, arbitration_pool_pda)] (c_tokens w) L
      \<and> v' = v\<lparr>lv_available := lv_available v - deposit, lv_total := lv_total v - deposit\<rparr>"
    by (rule token_env.take_deposit_pays [OF env take w1])
  from record_shortfall_claim [OF rec] obtain c where
    c: "es_claims w2 = (es_claims w)((te_seller e, mint) \<mapsto> c)"
      "unat (rc_owed_total c) = unat (rc_owed_total (claim_or_new w (te_seller e, mint))) + unat shortfall"
    by (auto simp: w1 escrow_world_simps claim_or_new_def)
  have frame: "es_vaults w2 = (es_vaults w)((te_seller e, mint) \<mapsto> v')" "es_trades w2 = es_trades w"
    "es_cases w2 = es_cases w" "c_tokens w2 = L"
    using record_shortfall_frame [OF rec] by (simp_all add: w1 escrow_world_simps)
  show ?thesis
    by (rule exI [of _ e], rule exI [of _ fc], rule exI [of _ v], rule exI [of _ d],
        rule exI [of _ c], rule exI [of _ deposit])
       (use e fc v dep d taken c frame in \<open>simp add: w' put_trade_def put_case_def\<close>)
qed


theorem dispute_opening_charges_witness:
  "handle_open_dispute_case ref_env (demo_sv 110) (Key 5) 1 (Key 2) (Prog SplTokenProgram) 100 100
     demo_funded = Inr (demo_disputed (demo_dispute [] []))
   \<and> pays (liquidity_tokens_pda (Key 1) (Key 2)) [(20, arbitration_pool_pda)]
       (c_tokens demo_funded) (c_tokens (demo_disputed (demo_dispute [] [])))"
proof -
  have run: "handle_open_dispute_case ref_env (demo_sv 110) (Key 5) 1 (Key 2) (Prog SplTokenProgram)
      100 100 demo_funded = Inr (demo_disputed (demo_dispute [] []))"
    using demo_opening_run by (simp add: demo_opening_def)
  have "es_trades demo_funded 1 = Some (demo_trade AwaitingFiatSettlement False)"
    "es_fee_config demo_funded = Some demo_fees"
    "es_vaults demo_funded (Key 1, Key 2) = Some (demo_vault (Key 2) 20 0 20 0 0)"
    by (simp_all add: demo_funded_def demo_chain_def)
  with dispute_opening_charges [OF ref.token_env_axioms run] run show ?thesis
    by (auto simp: demo_trade_def demo_fees_def demo_vault_def min_def word_le_nat_alt)
qed

end
