(* ===== verification/Escrow_Access.thy ===== *)
theory Escrow_Access
  imports Arbitration_Properties
begin

text \<open>
  Who may do what: a ban closes the ways into the market and none of the ways out, only a vault's
  merchant (or a dispute against them) draws on it, and the settlement-mint list is exactly what
  the administrator submits.
\<close>


section \<open>Bans\<close>

text \<open>Replacing the ban list commutes with every stage of a handler that does not read it.\<close>

definition map_ok :: "('a \<Rightarrow> 'b) \<Rightarrow> 'e + 'a \<Rightarrow> 'e + 'b" where
  "map_ok f m = and_then m (\<lambda>x. Inr (f x))"

abbreviation with_bans :: "(pubkey \<Rightarrow> raw_account) \<Rightarrow> 'z chain_scheme \<Rightarrow> 'z chain_scheme" where
  "with_bans B w \<equiv> w\<lparr>c_bans := B\<rparr>"

lemma map_ok_Inr [simp]: "map_ok f (Inr x) = Inr (f x)"
  by (simp add: map_ok_def)

lemma map_ok_Inl [simp]: "map_ok f (Inl e) = Inl e"
  by (simp add: map_ok_def)

lemma map_ok_require [simp]: "map_ok f (require b e k) = require b e (map_ok f k)"
  by (simp add: require_def)

lemma map_ok_ok_or [simp]: "map_ok f (ok_or x e k) = ok_or x e (\<lambda>y. map_ok f (k y))"
  by (cases x) simp_all

lemma map_ok_and_then [simp]: "map_ok f (and_then m k) = and_then m (\<lambda>y. map_ok f (k y))"
  by (cases m) simp_all

lemma and_then_map_ok [simp]: "and_then (map_ok g m) k = and_then m (\<lambda>y. k (g y))"
  by (cases m) simp_all

lemma map_ok_if [simp]: "map_ok f (if b then x else y) = (if b then map_ok f x else map_ok f y)"
  by simp

lemma map_ok_case: "map_ok f m = (case m of Inl err \<Rightarrow> Inl err | Inr x \<Rightarrow> Inr (f x))"
  by (cases m) simp_all

lemma and_then_assoc: "and_then (and_then m k) h = and_then m (\<lambda>x. and_then (k x) h)"
  by (cases m) simp_all

lemma bans_tokens: "with_bans B (w\<lparr>c_tokens := L\<rparr>) = (with_bans B w)\<lparr>c_tokens := L\<rparr>"
  by simp

lemma bans_escrow:
  "with_bans B (w\<lparr>es_vaults := V\<rparr>) = (with_bans B w)\<lparr>es_vaults := V\<rparr>"
  "with_bans B (w\<lparr>es_trades := T\<rparr>) = (with_bans B w)\<lparr>es_trades := T\<rparr>"
  "with_bans B (w\<lparr>es_cases := D\<rparr>) = (with_bans B w)\<lparr>es_cases := D\<rparr>"
  "with_bans B (w\<lparr>es_claims := C\<rparr>) = (with_bans B w)\<lparr>es_claims := C\<rparr>"
  "with_bans B (w\<lparr>es_log := G\<rparr>) = (with_bans B w)\<lparr>es_log := G\<rparr>"
  "with_bans B (w\<lparr>es_fee_config := F\<rparr>) = (with_bans B w)\<lparr>es_fee_config := F\<rparr>"
  "with_bans B (w\<lparr>es_policy := P\<rparr>) = (with_bans B w)\<lparr>es_policy := P\<rparr>"
  by simp_all

lemma cpi_transfer_bans:
  "cpi_transfer env tp from mint to auth a d (with_bans B w)
     = map_ok (with_bans B) (cpi_transfer env tp from mint to auth a d w)"
  by (simp add: cpi_transfer_def bans_tokens)

lemma transfer_each_bans:
  "transfer_each env tp from mint auth d ps (with_bans B w)
     = map_ok (with_bans B) (transfer_each env tp from mint auth d ps w)"
proof (induction ps arbitrary: w)
  case (Cons p ps)
  obtain a to where "p = (a, to)" by (cases p)
  with Cons show ?case by (simp add: cpi_transfer_bans)
qed simp

lemma init_token_bans:
  "init_token addr mint owner (with_bans B w) = map_ok (with_bans B) (init_token addr mint owner w)"
  by (simp add: init_token_def bans_tokens)

lemmas bans_commute = cpi_transfer_bans transfer_each_bans init_token_bans bans_tokens bans_escrow

text \<open>The token movers and the stages of an execution.\<close>

lemma unwind_bans:
  "unwind_funded_trade_escrow env tp mint d e v k (with_bans B w)
     = map_ok (\<lambda>(v, w). (v, with_bans B w)) (unwind_funded_trade_escrow env tp mint d e v k w)"
  by (simp add: unwind_funded_trade_escrow_def Let_def bans_commute)

lemma split_bans:
  "split_trade_escrow_evenly env tp mint d e b v k (with_bans B w)
     = map_ok (\<lambda>(e, v, w). (e, v, with_bans B w)) (split_trade_escrow_evenly env tp mint d e b v k w)"
  by (simp add: split_trade_escrow_evenly_def Let_def bans_commute del: transfer_each.simps)

lemma release_bans:
  "release_trade_escrow_funds env tp mint d e b v fc (with_bans B w)
     = map_ok (\<lambda>(e, v, x, y, w). (e, v, x, y, with_bans B w))
         (release_trade_escrow_funds env tp mint d e b v fc w)"
  by (simp add: release_trade_escrow_funds_def Let_def bans_commute case_prod_beta' del: transfer_each.simps)

lemma close_bans:
  "close_reservation env tp mint d rid e v (with_bans B w)
     = map_ok (with_bans B) (close_reservation env tp mint d rid e v w)"
  by (simp add: close_reservation_def unwind_bans and_then_assoc case_prod_beta' escrow_world_simps
      bans_commute)

lemma take_deposit_bans:
  "take_deposit env tp seller mint d a v (with_bans B w)
     = map_ok (\<lambda>(v, w). (v, with_bans B w)) (take_deposit env tp seller mint d a v w)"
  by (simp add: take_deposit_def bans_commute)

abbreviation ctx_bans ::
  "(pubkey \<Rightarrow> raw_account) \<Rightarrow> 'z escrow_chain_scheme execute_ctx \<Rightarrow> 'z escrow_chain_scheme execute_ctx" where
  "ctx_bans B ctx \<equiv> ctx\<lparr>cx_world := with_bans B (cx_world ctx)\<rparr>"

lemma settle_deposit_bans:
  "settle_deposit env outcome (ctx_bans B ctx)
     = map_ok (\<lambda>(x, y, ctx). (x, y, ctx_bans B ctx)) (settle_deposit env outcome ctx)"
  by (simp add: settle_deposit_def Let_def bans_commute)

lemma ctx_moves_bans:
  "ctx_split env (ctx_bans B ctx) = map_ok (ctx_bans B) (ctx_split env ctx)"
  "ctx_unwind env (ctx_bans B ctx) = map_ok (ctx_bans B) (ctx_unwind env ctx)"
  "ctx_release env now (ctx_bans B ctx) = map_ok (ctx_bans B) (ctx_release env now ctx)"
  "ctx_emit ev (ctx_bans B ctx) = ctx_bans B (ctx_emit ev ctx)"
  by (simp_all add: ctx_split_def ctx_unwind_def ctx_release_def ctx_emit_def emit_escrow_def
      split_bans unwind_bans release_bans case_prod_beta' bans_commute)

lemma apply_outcome_bans:
  "apply_outcome env now outcome (ctx_bans B ctx) = map_ok (ctx_bans B) (apply_outcome env now outcome ctx)"
  by (cases outcome) (simp_all add: apply_outcome_def ctx_moves_bans)


lemma ctx_case_order:
  "ctx\<lparr>cx_world := W, cx_dispute_case := d\<rparr> = ctx\<lparr>cx_dispute_case := d, cx_world := W\<rparr>"
  by simp

lemma terminal_split_bans:
  "terminal_split env now floor reason n m (ctx_bans B ctx)
     = map_ok (ctx_bans B) (terminal_split env now floor reason n m ctx)"
  by (simp add: terminal_split_def Let_def settle_deposit_bans ctx_moves_bans case_prod_beta'
      resolved_event_def ctx_emit_def emit_escrow_def bans_escrow)

lemma reopen_bans:
  "reopen_round env sv now next_round (ctx_bans B ctx)
     = map_ok (ctx_bans B) (reopen_round env sv now next_round ctx)"
  by (simp add: reopen_round_def Let_def ctx_case_order)

lemma undecided_bans:
  "handle_undecided_round env sv now n (ctx_bans B ctx)
     = map_ok (ctx_bans B) (handle_undecided_round env sv now n ctx)"
proof -
  have pool: "published_pool_size (with_bans B w) r = published_pool_size w r" for w r
    by (cases r) (simp_all add: published_pool_size_def)
  have upd: "(ctx_bans B ctx)\<lparr>cx_dispute_case := d\<rparr> = ctx_bans B (ctx\<lparr>cx_dispute_case := d\<rparr>)" for d
    by simp
  have ts: "terminal_split env now floor reason m n
        (ctx\<lparr>cx_dispute_case := d, cx_world := with_bans B (cx_world ctx)\<rparr>)
      = map_ok (ctx_bans B) (terminal_split env now floor reason m n (ctx\<lparr>cx_dispute_case := d\<rparr>))"
    for floor reason m n d
    using terminal_split_bans [of env now floor reason m n B "ctx\<lparr>cx_dispute_case := d\<rparr>"] by simp
  have ro: "reopen_round env sv now r (ctx\<lparr>cx_dispute_case := d, cx_world := with_bans B (cx_world ctx)\<rparr>)
      = map_ok (ctx_bans B) (reopen_round env sv now r (ctx\<lparr>cx_dispute_case := d\<rparr>))" for r d
    using reopen_bans [of env sv now r B "ctx\<lparr>cx_dispute_case := d\<rparr>"] by simp
  show ?thesis
    unfolding handle_undecided_round_def Let_def
    by (simp add: pool upd ts ro cong: if_cong)
qed


lemma execute_body_bans:
  "execute_body env sv (ctx_bans B ctx) = map_ok (ctx_bans B) (execute_body env sv ctx)"
proof (cases "tally (cx_dispute_case ctx)")
  case (Pair x n)
  then show ?thesis
    by (cases x) (simp_all add: execute_body_def Let_def undecided_bans settle_deposit_bans
        apply_outcome_bans case_prod_beta' ctx_moves_bans resolved_event_def ctx_emit_def
        emit_escrow_def bans_escrow)
qed

lemma execute_bans:
  "handle_execute_dispute_outcome env sv a (with_bans B w)
     = map_ok (with_bans B) (handle_execute_dispute_outcome env sv a w)"
proof -
  have load: "load_execute_ctx env a (with_bans B w) = map_ok (ctx_bans B) (load_execute_ctx env a w)"
    by (simp add: load_execute_ctx_def Let_def trade_load_defs)
  have store: "store_execute_ctx a (ctx_bans B c) = with_bans B (store_execute_ctx a c)" for c
    by (simp add: store_execute_ctx_def escrow_world_simps bans_escrow)
  show ?thesis
    by (simp add: handle_execute_dispute_outcome_def load execute_body_bans store)
qed

text \<open>The instructions that look at the signer's ban record.\<close>

fun entry_signer :: "escrow_ix \<Rightarrow> pubkey option" where
  "entry_signer (IxDepositLiquidity merchant _ _ _ _) = Some merchant"
| "entry_signer (IxReserveLiquidity merchant _ _) = Some merchant"
| "entry_signer (IxCreateTradeEscrow merchant _ _ _ _ _ _) = Some merchant"
| "entry_signer (IxOpenDisputeCase signer _ _ _ _ _) = Some signer"
| "entry_signer _ = None"

lemma exit_bans:
  assumes "entry_signer ix = None"
  shows "escrow_dispatch env sv ix (with_bans B w) = map_ok (with_bans B) (escrow_dispatch env sv ix w)"
proof (cases ix)
  case (IxExecuteDisputeOutcome a)
  then show ?thesis by (simp add: execute_bans)
qed (use assms in \<open>simp_all add: handle_initialize_fee_config_def handle_update_fee_config_def
       handle_initialize_arbitration_pool_def handle_publish_arbitrator_pool_size_def
       vault_handler_defs trade_handler_defs dispute_handler_defs trade_load_defs load_mint_token_def Let_def
       load_open_reservation_def load_config_def load_arbitrator_stake_def escrow_world_simps
       close_bans release_bans take_deposit_bans case_prod_beta' bans_commute
       del: transfer_each.simps cong: if_cong\<close>)


lemma entry_refused:
  assumes "entry_signer ix = Some k" and "banned w k"
  shows "\<exists>err. escrow_dispatch env sv ix w = Inl err"
proof -
  have "escrow_dispatch env sv ix w \<noteq> Inr w'" for w'
    using assms
    by (cases ix) (auto simp: vault_handler_defs trade_handler_defs vault_load_defs
        handle_open_dispute_case_def Let_def)
  then show ?thesis by (cases "escrow_dispatch env sv ix w") auto
qed

lemma entry_error:
  assumes "entry_signer ix = Some k" and "banned w k"
    and "escrow_dispatch env sv ix (with_bans B w) = Inr w'"
  shows "escrow_dispatch env sv ix w = Inl (Program WalletBanned)"
  using assms
  by (cases ix) (auto simp: vault_handler_defs trade_handler_defs vault_load_defs
      handle_open_dispute_case_def init_token_def Let_def)

text \<open>
  A ban closes the entrances and no exit. Depositing, reserving, creating a trade and opening
  a dispute fail for a banned signer, and fail with the ban error where they would succeed under
  another ban list. Every other instruction (withdrawing, funding, approving, releasing,
  cancelling, expiring, voting, executing, claiming, configuring) does exactly the same under any
  ban list, so a ban cannot strand money.
\<close>

theorem bans_close_entrances_only:
  "(\<forall>k. entry_signer ix = Some k \<and> wallet_is_banned (c_bans w k) \<longrightarrow>
      (\<exists>err. escrow_dispatch env sv ix w = Inl err)
      \<and> (\<forall>B w'. escrow_dispatch env sv ix (w\<lparr>c_bans := B\<rparr>) = Inr w' \<longrightarrow>
           escrow_dispatch env sv ix w = Inl (Program WalletBanned)))
   \<and> (entry_signer ix = None \<longrightarrow> (\<forall>B. escrow_dispatch env sv ix (w\<lparr>c_bans := B\<rparr>)
        = (case escrow_dispatch env sv ix w of Inl err \<Rightarrow> Inl err | Inr w' \<Rightarrow> Inr (w'\<lparr>c_bans := B\<rparr>))))"
  using entry_refused [of ix _ w env sv] entry_error [of ix _ w env sv] exit_bans [of ix env sv _ w]
  by (simp add: map_ok_case)

text \<open>The merchant of the history, once listed, cannot add liquidity but withdraws as before.\<close>

definition demo_listed :: escrow_chain where
  "demo_listed = demo_funded\<lparr>c_bans := (\<lambda>k. \<lparr> ra_owner = GOVERNANCE_PROGRAM_ID, ra_data = [1] \<rparr>)\<rparr>"

theorem bans_close_entrances_only_witness:
  "escrow_dispatch ref_env (demo_sv 120) (IxReserveLiquidity (Key 1) (Key 7) 10) demo_listed
     = Inl (Program WalletBanned)
   \<and> (\<exists>w'. escrow_dispatch ref_env (demo_sv 120)
        (IxWithdrawLiquidity (Key 1) (Key 31) (Key 7) (Prog Token2022Program) 10) demo_listed = Inr w')"
proof -
  have free: "demo_listed\<lparr>c_bans := c_bans demo_funded\<rparr> = demo_funded" by (simp add: demo_listed_def)
  have banned: "wallet_is_banned (c_bans demo_listed k)" for k
    by (simp add: demo_listed_def wallet_is_banned_def)
  have "\<exists>w'. escrow_dispatch ref_env (demo_sv 120) (IxReserveLiquidity (Key 1) (Key 7) 10) demo_funded = Inr w'"
    by (simp add: demo_funded_def demo_defs escrow_eval word_le_nat_alt)
  then have refused: "escrow_dispatch ref_env (demo_sv 120) (IxReserveLiquidity (Key 1) (Key 7) 10) demo_listed
      = Inl (Program WalletBanned)"
    using bans_close_entrances_only [of "IxReserveLiquidity (Key 1) (Key 7) 10" demo_listed ref_env
        "demo_sv 120"] banned free by (metis entry_signer.simps(2))
  let ?ix = "IxWithdrawLiquidity (Key 1) (Key 31) (Key 7) (Prog Token2022Program) 10"
  have "\<exists>w'. escrow_dispatch ref_env (demo_sv 120) ?ix demo_funded = Inr w'"
    by (simp add: demo_funded_def demo_defs escrow_eval word_le_nat_alt)
  moreover have "escrow_dispatch ref_env (demo_sv 120) ?ix demo_listed
      = (case escrow_dispatch ref_env (demo_sv 120) ?ix demo_funded of
           Inl err \<Rightarrow> Inl err | Inr w' \<Rightarrow> Inr (w'\<lparr>c_bans := c_bans demo_listed\<rparr>))"
  proof -
    have "entry_signer ?ix = None" by simp
    with bans_close_entrances_only [of ?ix demo_funded ref_env "demo_sv 120"]
    have "escrow_dispatch ref_env (demo_sv 120) ?ix (demo_funded\<lparr>c_bans := B\<rparr>)
        = (case escrow_dispatch ref_env (demo_sv 120) ?ix demo_funded of
             Inl err \<Rightarrow> Inl err | Inr w' \<Rightarrow> Inr (w'\<lparr>c_bans := B\<rparr>))" for B
      by blast
    moreover have "demo_funded\<lparr>c_bans := c_bans demo_listed\<rparr> = demo_listed" by (simp add: demo_listed_def)
    ultimately show ?thesis by metis
  qed
  ultimately show ?thesis using refused by auto
qed



section \<open>Drawing on a vault\<close>

text \<open>The vaults an execution writes only gain.\<close>

lemma settle_deposit_vault:
  assumes "settle_deposit env outcome ctx = Inr (x, y, ctx1)"
  shows "unat (lv_available (cx_merchant_open_vault ctx)) \<le> unat (lv_available (cx_merchant_open_vault ctx1))
     \<and> cx_liquidity_vault ctx1 = cx_liquidity_vault ctx"
  using assms by (auto simp: settle_deposit_def Let_def checked_add_Some split: if_splits)

lemma apply_outcome_vault:
  assumes "apply_outcome env now outcome ctx = Inr ctx1"
  shows "unat (lv_available (cx_liquidity_vault ctx)) \<le> unat (lv_available (cx_liquidity_vault ctx1))
     \<and> cx_merchant_open_vault ctx1 = cx_merchant_open_vault ctx"
  using assms
  by (cases outcome)
     (auto simp: apply_outcome_def ctx_release_def ctx_unwind_def ctx_split_def Let_def
       release_trade_escrow_funds_def unwind_funded_trade_escrow_def split_trade_escrow_evenly_def
       checked_add_Some simp del: transfer_each.simps)

lemma ctx_split_vault:
  assumes "ctx_split env ctx = Inr ctx1"
  shows "unat (lv_available (cx_liquidity_vault ctx)) \<le> unat (lv_available (cx_liquidity_vault ctx1))
     \<and> cx_merchant_open_vault ctx1 = cx_merchant_open_vault ctx"
  using assms
  by (auto simp: ctx_split_def Let_def split_trade_escrow_evenly_def
       checked_add_Some simp del: transfer_each.simps)

lemma execute_body_vaults:
  assumes body: "execute_body env sv ctx = Inr ctx1"
  shows "unat (lv_available (cx_merchant_open_vault ctx)) \<le> unat (lv_available (cx_merchant_open_vault ctx1))
     \<and> unat (lv_available (cx_liquidity_vault ctx)) \<le> unat (lv_available (cx_liquidity_vault ctx1))"
proof (cases "tally (cx_dispute_case ctx)")
  case (Pair x n)
  show ?thesis
  proof (cases x)
    case None
    with Pair body have "handle_undecided_round env sv (unix_timestamp sv) n ctx = Inr ctx1"
      by (simp add: execute_body_def Let_def)
    then show ?thesis
    proof (cases rule: undecidedE)
      case split
      then show ?thesis
        by (auto simp: terminal_split_def Let_def ctx_emit_def dest!: settle_deposit_vault ctx_split_vault)
    next
      case reopen
      then show ?thesis by (auto simp: reopen_round_def Let_def)
    qed
  next
    case (Some outcome)
    with Pair body show ?thesis
      by (auto simp: execute_body_def Let_def ctx_emit_def dest!: settle_deposit_vault apply_outcome_vault)
  qed
qed


lemma execute_vault_map:
  fixes w :: "'z escrow_chain_scheme"
  assumes "handle_execute_dispute_outcome env sv a w = Inr w'"
  obtains ctx ctx1 :: "'z escrow_chain_scheme execute_ctx" where "execute_body env sv ctx = Inr ctx1"
    and "es_vaults w (ex_merchant_open_vault a) = Some (cx_merchant_open_vault ctx)"
    and "es_vaults w (te_seller (cx_trade_escrow ctx), cx_mint ctx) = Some (cx_liquidity_vault ctx)"
    and "es_vaults w' = (es_vaults w)
      ((te_seller (cx_trade_escrow ctx), cx_mint ctx) \<mapsto> cx_liquidity_vault ctx1,
       ex_merchant_open_vault a \<mapsto> cx_merchant_open_vault ctx1)"
proof -
  from assms(1) obtain ctx ctx1 where load: "load_execute_ctx env a w = Inr ctx"
    and body: "execute_body env sv ctx = Inr ctx1" and w': "w' = store_execute_ctx a ctx1"
    by (auto simp: handle_execute_dispute_outcome_def)
  from load have l: "\<not> dc_resolved (cx_dispute_case ctx)" "cx_world ctx = w"
    "es_vaults w (ex_merchant_open_vault a) = Some (cx_merchant_open_vault ctx)"
    "es_vaults w (te_seller (cx_trade_escrow ctx), cx_mint ctx) = Some (cx_liquidity_vault ctx)"
    unfolding load_execute_ctx_def Let_def trade_load_defs by auto
  from execute_body_advanced [OF body l(1)] have same: "es_vaults (cx_world ctx1) = es_vaults w"
    "te_seller (cx_trade_escrow ctx1) = te_seller (cx_trade_escrow ctx)" "cx_mint ctx1 = cx_mint ctx"
    by (auto simp: ctx_advanced_def l(2))
  show thesis
    by (rule that [OF body l(3,4)]) (simp add: w' store_execute_ctx_def escrow_world_simps same)
qed

lemma execute_vaults:
  assumes "handle_execute_dispute_outcome env sv a w = Inr w'" and "es_vaults w addr = Some v"
  shows "\<exists>v'. es_vaults w' addr = Some v' \<and> unat (lv_available v) \<le> unat (lv_available v')"
  using assms(1)
proof (rule execute_vault_map)
  fix ctx ctx1 assume body: "execute_body env sv ctx = Inr ctx1"
    and m: "es_vaults w (ex_merchant_open_vault a) = Some (cx_merchant_open_vault ctx)"
      "es_vaults w (te_seller (cx_trade_escrow ctx), cx_mint ctx) = Some (cx_liquidity_vault ctx)"
      "es_vaults w' = (es_vaults w)
        ((te_seller (cx_trade_escrow ctx), cx_mint ctx) \<mapsto> cx_liquidity_vault ctx1,
         ex_merchant_open_vault a \<mapsto> cx_merchant_open_vault ctx1)"
  show ?thesis using execute_body_vaults [OF body] m assms(2) by auto
qed

fun draws :: "'z escrow_chain_scheme \<Rightarrow> escrow_ix \<Rightarrow> pubkey \<times> pubkey \<Rightarrow> bool" where
  "draws w (IxWithdrawLiquidity merchant _ mint _ _) addr \<longleftrightarrow> addr = (merchant, mint)"
| "draws w (IxReserveLiquidity merchant mint _) addr \<longleftrightarrow> addr = (merchant, mint)"
| "draws w (IxChargeAdListingFee merchant mint _ _) addr \<longleftrightarrow> addr = (merchant, mint)"
| "draws w (IxOpenDisputeCase signer rid mint _ _ _) addr \<longleftrightarrow>
     (\<exists>e. es_trades w rid = Some e \<and> te_state e = AwaitingFiatSettlement
        \<and> (signer = te_buyer e \<or> signer = te_seller e) \<and> addr = (te_seller e, mint))"
| "draws w (IxTopUpArbitrationDeposit rid mint _) addr \<longleftrightarrow>
     (\<exists>e. es_trades w rid = Some e \<and> te_state e = Frozen \<and> addr = (te_seller e, mint))"
| "draws w _ addr \<longleftrightarrow> False"

lemma close_vaults:
  assumes "close_reservation env tp mint d rid e v w = Inr w'"
  shows "\<exists>v'. es_vaults w' = (es_vaults w)((te_seller e, mint) \<mapsto> v')
     \<and> unat (lv_available v) \<le> unat (lv_available v')"
  using assms
  by (auto simp: close_reservation_def unwind_funded_trade_escrow_def release_reservation_marking_def
      escrow_world_simps Let_def checked_add_Some dest!: cpi_transfer_frame split: if_splits)

lemma release_available_kept:
  assumes "release_trade_escrow_funds env tp mint d e b v fc w = Inr (e', v', x, y, w1)"
  shows "lv_available v' = lv_available v \<and> es_vaults w1 = es_vaults w"
  using release_vault [OF assms] release_frame [OF assms] by auto

lemma open_vaults:
  assumes "handle_open_dispute_case env sv signer rid mint tp cw rw w = Inr w'"
  shows "\<exists>e v'. es_trades w rid = Some e \<and> te_state e = AwaitingFiatSettlement
     \<and> (signer = te_buyer e \<or> signer = te_seller e) \<and> es_vaults w' = (es_vaults w)((te_seller e, mint) \<mapsto> v')"
  using assms
  by (rule open_disputeE)
     (fastforce simp: escrow_world_simps dest!: take_deposit_frame record_shortfall_frame)

text \<open>
  Only its merchant, or a dispute against them, draws on a vault: a vault never disappears,
  and if an instruction lowers its available liquidity, then the instruction is a withdrawal, a
  reservation or an advertisement fee signed by the vault's merchant, the opening of a dispute by a
  party of one of the merchant's funded trades, or a top-up of such a dispute's deposit.
\<close>

theorem vault_drawn_only_by:
  assumes "escrow_dispatch env sv ix w = Inr w'" and "es_vaults w addr = Some v"
  shows "\<exists>v'. es_vaults w' addr = Some v'
     \<and> (unat (lv_available v') < unat (lv_available v) \<longrightarrow> draws w ix addr)"
proof (cases ix)
  case (IxExecuteDisputeOutcome a)
  with assms(1) have "handle_execute_dispute_outcome env sv a w = Inr w'" by simp
  from execute_vaults [OF this assms(2)] show ?thesis by (auto simp: not_less [symmetric])
next
  case (IxOpenDisputeCase signer rid mint tp cw rw)
  with assms(1) have "handle_open_dispute_case env sv signer rid mint tp cw rw w = Inr w'" by simp
  from open_vaults [OF this] assms(2) IxOpenDisputeCase show ?thesis by auto
next
  case (IxCancelReservation signer mint tp rid)
  with assms show ?thesis
    by (fastforce simp: handle_cancel_reservation_def load_open_reservation_def trade_load_defs
        dest!: close_vaults)
next
  case (IxExpireReservation mint tp rid)
  with assms show ?thesis
    by (fastforce simp: handle_expire_reservation_def load_open_reservation_def trade_load_defs
        dest!: close_vaults)
next
  case (IxReleaseEscrow mint tp rid account)
  with assms show ?thesis
    by (auto simp: handle_release_escrow_def trade_load_defs escrow_world_simps
        dest!: release_available_kept)
qed (use assms in \<open>auto simp: handle_initialize_fee_config_def handle_update_fee_config_def
       handle_initialize_arbitration_pool_def handle_publish_arbitrator_pool_size_def
       vault_handler_defs handle_create_trade_escrow_def handle_fund_trade_escrow_def
       handle_approve_settlement_def dispute_handler_defs trade_load_defs load_mint_token_def Let_def
       load_config_def load_arbitrator_stake_def escrow_world_simps init_token_def checked_add_Some
       simp del: transfer_each.simps
       dest!: cpi_transfer_frame transfer_each_frame take_deposit_frame split: if_splits\<close>)


theorem vault_drawn_only_by_witness:
  "es_vaults demo_funded (Key 1, Key 2) = Some (demo_vault (Key 2) 20 0 20 0 0)
   \<and> es_vaults (demo_disputed (demo_dispute [] [])) (Key 1, Key 2) = Some (demo_vault (Key 2) 0 0 0 0 0)
   \<and> draws demo_funded (IxOpenDisputeCase (Key 5) 1 (Key 2) (Prog SplTokenProgram) 100 100) (Key 1, Key 2)"
proof -
  have v: "es_vaults demo_funded (Key 1, Key 2) = Some (demo_vault (Key 2) 20 0 20 0 0)"
    "es_vaults (demo_disputed (demo_dispute [] [])) (Key 1, Key 2) = Some (demo_vault (Key 2) 0 0 0 0 0)"
    by (simp_all add: demo_funded_def demo_disputed_def demo_chain_def)
  have "unat (lv_available (demo_vault (Key 2) 0 0 0 0 0)) < unat (lv_available (demo_vault (Key 2) 20 0 20 0 0))"
    by (simp add: demo_vault_def)
  moreover from vault_drawn_only_by [OF demo_opening_run v(1)] v(2) have
    "unat (lv_available (demo_vault (Key 2) 0 0 0 0 0)) < unat (lv_available (demo_vault (Key 2) 20 0 20 0 0))
     \<longrightarrow> draws demo_funded (snd demo_opening) (Key 1, Key 2)"
    by auto
  ultimately have "draws demo_funded (snd demo_opening) (Key 1, Key 2)" by blast
  with v show ?thesis by (simp add: demo_opening_def)
qed


section \<open>The settlement-mint list\<close>

lemma settlement_mints_valid_iff:
  "settlement_mints_valid seen mints \<longleftrightarrow>
     distinct mints \<and> default_pubkey \<notin> set mints \<and> set seen \<inter> set mints = {}"
  by (induction mints arbitrary: seen) auto

lemma fee_split_ok_update:
  assumes "handle_update_fee_config env admin mint dev eco infra emergency params w = Inr w'"
  shows "\<exists>fc. es_fee_config w' = Some fc \<and> fee_split_ok fc"
  using assms fee_bps_le [of "uf_settlement_fee_bps params"]
    fee_split_total [of "uf_dev_treasury_bps params" "uf_ecosystem_treasury_bps params"
      "uf_infra_treasury_bps params" "uf_emergency_reserve_bps params"]
  by (auto simp: handle_update_fee_config_def Let_def fee_split_ok_def
      fee_splits_def load_fee_config_def load_mint_token_def load_token_def)

text \<open>
  After a successful configuration update by the administrator, the mints a vault may be
  created, reserved and traded in are exactly the submitted ones: at most sixteen, pairwise
  distinct, none the padding key, at least one; the sixteen slots hold them in order, padded with
  the default key; and the four fee shares add up to the whole fee.
\<close>

theorem settlement_mints_exact:
  assumes "handle_update_fee_config env admin mint dev eco infra emergency params w = Inr w'"
  shows "\<exists>fc fc'. es_fee_config w = Some fc \<and> fc_admin fc = admin \<and> es_fee_config w' = Some fc'
     \<and> fc_admin fc' = admin
     \<and> (\<forall>m. allows_settlement_mint fc' m \<longleftrightarrow> m \<in> set (uf_settlement_mints params))
     \<and> uf_settlement_mints params \<noteq> [] \<and> length (uf_settlement_mints params) \<le> 16
     \<and> distinct (uf_settlement_mints params) \<and> default_pubkey \<notin> set (uf_settlement_mints params)
     \<and> length (fc_settlement_mints fc') = 16
     \<and> fc_settlement_mints fc' = uf_settlement_mints params
         @ replicate (16 - length (uf_settlement_mints params)) default_pubkey
     \<and> fee_split_ok fc'"
proof -
  from assms obtain fc where fc: "es_fee_config w = Some fc" "fc_admin fc = admin"
    and mints: "uf_settlement_mints params \<noteq> []" "length (uf_settlement_mints params) \<le> 16"
      "settlement_mints_valid [] (uf_settlement_mints params)"
    and out: "es_fee_config w' = Some (fc\<lparr>
        fc_ad_listing_fee := uf_ad_listing_fee params,
        fc_dispute_filing_fee := uf_dispute_filing_fee params,
        fc_settlement_fee_bps := uf_settlement_fee_bps params,
        fc_dev_treasury := dev, fc_ecosystem_treasury := eco, fc_infra_treasury := infra,
        fc_emergency_reserve := emergency,
        fc_dev_treasury_bps := uf_dev_treasury_bps params,
        fc_ecosystem_treasury_bps := uf_ecosystem_treasury_bps params,
        fc_infra_treasury_bps := uf_infra_treasury_bps params,
        fc_emergency_reserve_bps := uf_emergency_reserve_bps params,
        fc_timeout_secs := uf_timeout_secs params,
        fc_min_arbitrator_stake_age_secs := uf_min_arbitrator_stake_age_secs params,
        fc_arbitrator_sortition_bps := uf_arbitrator_sortition_bps params,
        fc_settlement_mints := padded_mints (uf_settlement_mints params),
        fc_settlement_mint_count := word_of_nat (length (uf_settlement_mints params))\<rparr>)"
      (is "_ = Some ?fc'")
    by (auto simp: handle_update_fee_config_def load_fee_config_def load_mint_token_def
        load_token_def Let_def MAX_SETTLEMENT_MINTS_def)
  have split: "fee_split_ok ?fc'"
    using fee_split_ok_update [OF assms] out by simp
  have count: "unat (word_of_nat (length (uf_settlement_mints params)) :: u8) = length (uf_settlement_mints params)"
    using mints(2) by (simp add: unsigned_of_nat take_bit_nat_eq_self_iff)
  have "allows_settlement_mint ?fc' m \<longleftrightarrow> m \<in> set (uf_settlement_mints params)" for m
    using mints(2) count by (simp add: allows_settlement_mint_def padded_mints_def MAX_SETTLEMENT_MINTS_def min_def)
  moreover have "length (fc_settlement_mints ?fc') = 16"
    using mints(2) by (simp add: padded_mints_def MAX_SETTLEMENT_MINTS_def)
  moreover have "fc_settlement_mints ?fc' = uf_settlement_mints params
         @ replicate (16 - length (uf_settlement_mints params)) default_pubkey"
    by (simp add: padded_mints_def MAX_SETTLEMENT_MINTS_def)
  ultimately show ?thesis
    using fc mints out split
    by (intro exI [of _ fc] exI [of _ ?fc']) (simp add: settlement_mints_valid_iff)
qed


text \<open>The administrator of the history also allows the staking mint, at a ten per cent fee.\<close>

definition demo_wider :: UpdateFeeConfigParams where
  "demo_wider = \<lparr> uf_ad_listing_fee = 4, uf_dispute_filing_fee = 30, uf_settlement_fee_bps = 1000,
     uf_dev_treasury_bps = 4000, uf_ecosystem_treasury_bps = 3000, uf_infra_treasury_bps = 2000,
     uf_emergency_reserve_bps = 1000, uf_timeout_secs = 1800, uf_min_arbitrator_stake_age_secs = 0,
     uf_arbitrator_sortition_bps = 0, uf_settlement_mints = [Key 7, Key 2] \<rparr>"

definition demo_wide_fees :: FeeConfig where
  "demo_wide_fees = demo_fees\<lparr>fc_settlement_fee_bps := 1000,
     fc_settlement_mints := padded_mints [Key 7, Key 2], fc_settlement_mint_count := 2\<rparr>"

lemma demo_wider_run:
  "handle_update_fee_config ref_env (Key 9) (Key 7) (Key 61) (Key 62) (Key 63) (Key 64) demo_wider demo_open
     = Inr (demo_open\<lparr>es_fee_config := Some demo_wide_fees\<rparr>)"
  by (simp add: demo_wider_def demo_wide_fees_def demo_open_def demo_defs escrow_eval word_le_nat_alt
      word_less_nat_alt)

theorem settlement_mints_exact_witness:
  "handle_update_fee_config ref_env (Key 9) (Key 7) (Key 61) (Key 62) (Key 63) (Key 64) demo_wider demo_open
     = Inr (demo_open\<lparr>es_fee_config := Some demo_wide_fees\<rparr>)
   \<and> (\<forall>m. allows_settlement_mint demo_wide_fees m \<longleftrightarrow> m = Key 7 \<or> m = Key 2)"
  using settlement_mints_exact [OF demo_wider_run] demo_wider_run by (auto simp: demo_wider_def)

end
