(* ===== verification/Escrow_Limits.thy ===== *)
theory Escrow_Limits
  imports Escrow_Access
begin

text \<open>
  Where the escrow program falls short of what its comments promise: a trade in an allow-listed
  mint the treasuries do not share cannot be released, a dispute over a trade in the deposit mint
  can be opened and never resolved, a merchant without a deposit vault cannot be disputed, and
  recovered stake that is in the vault can be refused.
\<close>


section \<open>Trades in a mint the treasuries do not share\<close>

context token_env
begin

lemma transfer_each_mints:
  assumes "transfer_each E tp from mint auth d ps w = (Inr w' :: 'e tx_error + 'z chain_scheme)"
    and "(a, to) \<in> set ps" and "0 < a"
  shows "\<exists>t. c_tokens w to = Some t \<and> ta_mint t = mint"
  using assms
proof (induction ps arbitrary: w)
  case (Cons p ps)
  obtain b k where p: "p = (b, k)" by (cases p)
  show ?case
  proof (cases "b > 0")
    case False
    with Cons p show ?thesis by auto
  next
    case True
    with Cons.prems(1) p obtain w1 where
      step: "(cpi_transfer E tp from mint k auth b d w :: 'e tx_error + 'z chain_scheme) = Inr w1"
      and rest: "transfer_each E tp from mint auth d ps w1 = (Inr w' :: 'e tx_error + 'z chain_scheme)"
      by auto
    show ?thesis
    proof (cases "(a, to) = p")
      case True
      from step show ?thesis by (rule cpi_transfer_authority) (use True p in auto)
    next
      case False
      with Cons.prems(2) have "(a, to) \<in> set ps" by auto
      from Cons.IH [OF rest this Cons.prems(3)] obtain t where
        t: "c_tokens w1 to = Some t" "ta_mint t = mint" by blast
      from step obtain L where L: "w1 = w\<lparr>c_tokens := L\<rparr>" "moved (c_tokens w) from k b L"
        by (rule cpi_transfer_moved)
      from same_accounts_None [OF moved_same [OF L(2)], of to] t(1) L(1) obtain t0 where
        t0: "c_tokens w to = Some t0" by auto
      obtain t1 where "L to = Some t1" "same_account t0 t1"
        using same_accounts_Some [OF moved_same [OF L(2)] t0] .
      with t0 t L(1) show ?thesis by (auto simp: same_account_def)
    qed
  qed
qed simp

end

text \<open>
  C36. All four treasuries of the fee configuration are of one mint, while up to sixteen mints may
  be traded. A trade for which some treasury with a nonzero share is of another mint than the trade
  cannot be released; once the merchant has approved it, it can be neither cancelled nor expired,
  and a verdict for the buyer cannot be executed. Its tokens stay where they are until the
  administrator replaces the treasuries.
\<close>

theorem foreign_mint_release_stuck:
  assumes env: "token_env env" and e: "es_trades w rid = Some e" "te_approved e"
    and fc: "es_fee_config w = Some fc"
    and share: "compute_fee_split fc (te_amount e) = Inr (b, shares)"
      "(share, k) \<in> set (zip shares (fee_treasuries fc))" "0 < share"
    and mint: "c_tokens w k = Some a" "ta_mint a \<noteq> te_mint e"
  shows "handle_release_escrow env sv m tp rid account w \<noteq> Inr w'
     \<and> handle_cancel_reservation env signer m tp rid w \<noteq> Inr w'
     \<and> handle_expire_reservation env sv m tp rid w \<noteq> Inr w'
     \<and> (\<forall>x d. ex_trade_escrow x = rid \<longrightarrow> es_cases w (ex_dispute_case x) = Some d \<longrightarrow>
          fst (tally d) = Some BuyerWins \<longrightarrow> handle_execute_dispute_outcome env sv x w \<noteq> Inr w')"
proof (intro conjI allI impI)
  have blocked: "release_trade_escrow_funds env tp (te_mint e) dec e account v fc w1 \<noteq> Inr r"
    if same: "same_accounts (c_tokens w) (c_tokens w1)"
    for tp dec account v r and w1 :: "'a escrow_chain_scheme"
  proof
    assume "release_trade_escrow_funds env tp (te_mint e) dec e account v fc w1 = Inr r"
    with share(1) obtain w2 where
      "(transfer_each env tp (trade_tokens_pda (te_reservation_id e)) (te_mint e)
         (trade_escrow_pda (te_reservation_id e)) dec (release_destinations fc account b shares) w1
         :: EscrowErrorCode tx_error + _) = Inr w2"
      by (auto simp: release_trade_escrow_funds_def Let_def simp del: transfer_each.simps)
    moreover have "(share, k) \<in> set (release_destinations fc account b shares)"
      using share(2) by (simp add: release_destinations_def)
    ultimately obtain t where t: "c_tokens w1 k = Some t" "ta_mint t = te_mint e"
      using token_env.transfer_each_mints [OF env _ _ share(3)] by blast
    obtain t1 where "c_tokens w1 k = Some t1" "same_account a t1"
      using same_accounts_Some [OF same mint(1)] .
    with t mint(2) show False by (auto simp: same_account_def)
  qed
  show "handle_release_escrow env sv m tp rid account w \<noteq> Inr w'"
    using e(1) fc blocked [of w] by (auto simp: handle_release_escrow_def trade_load_defs)
  show "handle_cancel_reservation env signer m tp rid w \<noteq> Inr w'"
    "handle_expire_reservation env sv m tp rid w \<noteq> Inr w'"
    using e by (auto simp: handle_cancel_reservation_def handle_expire_reservation_def
        load_open_reservation_def trade_load_defs)
  fix x :: ExecuteDisputeOutcome and d assume x: "ex_trade_escrow x = rid" "es_cases w (ex_dispute_case x) = Some d"
    "fst (tally d) = Some BuyerWins"
  show "handle_execute_dispute_outcome env sv x w \<noteq> Inr w'"
  proof
    assume "handle_execute_dispute_outcome env sv x w = Inr w'"
    then obtain ctx ctx1 where load: "load_execute_ctx env x w = Inr ctx"
      and body: "execute_body env sv ctx = Inr ctx1"
      by (auto simp: handle_execute_dispute_outcome_def)
    from load x(1,2) e(1) fc have l: "cx_dispute_case ctx = d" "cx_trade_escrow ctx = e"
      "cx_fee_config ctx = fc" "cx_world ctx = w" "cx_mint ctx = te_mint e"
      unfolding load_execute_ctx_def Let_def trade_load_defs by auto
    from x(3) obtain n where "tally d = (Some BuyerWins, n)" by (metis prod.collapse)
    with body l(1) obtain rp rf c1 c2 where
      c1: "settle_deposit env (Some BuyerWins) ctx = Inr (rp, rf, c1)"
      and c2: "ctx_release env (unix_timestamp sv) c1 = Inr c2"
      by (auto simp: execute_body_def Let_def apply_outcome_def)
    have "cx_trade_escrow c1 = e" "cx_fee_config c1 = fc" "cx_world c1 = w" "cx_mint c1 = te_mint e"
      using c1 l by (auto simp: settle_deposit_def Let_def split: if_splits)
    with c2 blocked [of w] show False by (auto simp: ctx_release_def)
  qed
qed


text \<open>The history with a trade of 50 units of the staking mint, treasuries in mint \<open>Key 7\<close>.\<close>

definition demo_wide :: escrow_chain where
  "demo_wide = demo_open\<lparr>es_fee_config := Some demo_wide_fees\<rparr>"

definition demo_own_trade :: "VaultState \<Rightarrow> bool \<Rightarrow> TradeEscrowVault" where
  "demo_own_trade state approved =
     (demo_trade state approved)\<lparr>te_buyer := Key 21, te_mint := Key 2, te_amount := 50\<rparr>"

definition demo_own_ledger :: "u64 \<Rightarrow> u64 \<Rightarrow> u64 \<Rightarrow> ledger" where
  "demo_own_ledger wo vo pool = (demo_accounts 1000 wo 0 vo pool 0 [0, 0, 0, 0])
     (trade_tokens_pda 1 \<mapsto> demo_account (Key 2) (trade_escrow_pda 1) 50)"

definition demo_own_chain :: "bool \<Rightarrow> escrow_chain" where
  "demo_own_chain approved = demo_chain (demo_own_ledger 0 50 0)
     [(Key 1, Key 7) \<mapsto> demo_vault (Key 7) 0 0 0 0 0,
      (Key 1, Key 2) \<mapsto> demo_vault (Key 2) 100 40 10 0 50]
     [1 \<mapsto> demo_own_trade AwaitingFiatSettlement approved] (Some demo_wide_fees) Map.empty Map.empty []"

definition demo_own_trading :: "(sysvars \<times> escrow_ix) list" where
  "demo_own_trading =
     [(demo_sv 106, IxDepositLiquidity (Key 1) (Key 32) (Key 2) (Prog SplTokenProgram) 100),
      (demo_sv 107, IxReserveLiquidity (Key 1) (Key 2) 90),
      (demo_sv 108, IxCreateTradeEscrow (Key 1) (Key 21) (Key 2) (Prog SplTokenProgram) 1 50 1800),
      (demo_sv 109, IxFundTradeEscrow (Key 1) (Key 2) (Prog SplTokenProgram) 1)]"

lemma demo_own_run: "escrow_run ref_env demo_own_trading demo_wide = Inr (demo_own_chain False)"
  by (simp add: demo_own_trading_def demo_wide_def demo_wide_fees_def demo_open_def
      demo_own_chain_def demo_own_ledger_def demo_own_trade_def demo_defs escrow_eval
      word_le_nat_alt word_less_nat_alt fun_upd_twist)

lemma demo_own_reachable:
  "reachable escrow_genesis (escrow_step ref_env) (109, demo_own_chain False)"
proof -
  have "reachable escrow_genesis (escrow_step ref_env) (end_time 104 [(demo_sv 105,
      IxUpdateFeeConfig (Key 9) (Key 7) (Key 61) (Key 62) (Key 63) (Key 64) demo_wider)], demo_wide)"
    by (rule escrow_run_reachable [OF demo_open_reachable])
       (use demo_wider_run in \<open>simp_all add: demo_wide_def\<close>)
  then have wide: "reachable escrow_genesis (escrow_step ref_env) (105, demo_wide)" by simp
  have "reachable escrow_genesis (escrow_step ref_env) (end_time 105 demo_own_trading, demo_own_chain False)"
    by (rule escrow_run_reachable [OF wide _ demo_own_run]) (simp add: demo_own_trading_def)
  then show ?thesis by (simp add: demo_own_trading_def)
qed

lemma demo_own_approved_reachable:
  "reachable escrow_genesis (escrow_step ref_env) (120, demo_own_chain True)"
proof -
  have "reachable escrow_genesis (escrow_step ref_env)
      (end_time 109 [(demo_sv 120, IxApproveSettlement (Key 1) 1)], demo_own_chain True)"
    by (rule escrow_run_reachable [OF demo_own_reachable])
       (simp_all add: demo_own_chain_def demo_own_trade_def demo_chain_def demo_trade_def escrow_eval)
  then show ?thesis by simp
qed

lemma demo_own_fee_split: "compute_fee_split demo_wide_fees 50 = Inr (45, [2, 2, 1, 0])"
proof -
  have "mul_div_u64 50 1000 10000 = Some 5" by (simp add: mul_div_u64_def checked_mul_def checked_div_def)
  then show ?thesis
    by (simp add: compute_fee_split_def split_fee_four_ways_def fee_splits_def demo_wide_fees_def
        demo_fees_def demo_shares checked_add_def checked_sub_def ESCROW_BPS_DENOMINATOR_def
        ECOSYSTEM_TREASURY_SHARE_def)
qed

theorem foreign_mint_release_stuck_witness:
  "reachable escrow_genesis (escrow_step ref_env) (120, demo_own_chain True)
   \<and> (\<forall>w'. handle_release_escrow ref_env (demo_sv 130) (Key 2) (Prog SplTokenProgram) 1 (Key 71)
       (demo_own_chain True) \<noteq> Inr w')"
proof -
  have t: "es_trades (demo_own_chain True) 1 = Some (demo_own_trade AwaitingFiatSettlement True)"
    "es_fee_config (demo_own_chain True) = Some demo_wide_fees"
    "c_tokens (demo_own_chain True) (Key 61) = Some (demo_account (Key 7) (Key 9) 0)"
    by (simp_all add: demo_own_chain_def demo_chain_def demo_own_ledger_def demo_accounts_def)
  have split: "compute_fee_split demo_wide_fees (te_amount (demo_own_trade AwaitingFiatSettlement True))
      = Inr (45, [2, 2, 1, 0])"
    using demo_own_fee_split by (simp add: demo_own_trade_def)
  show ?thesis
    using foreign_mint_release_stuck [OF ref.token_env_axioms t(1) _ t(2) split _ _ t(3), of 2]
      demo_own_approved_reachable
    by (simp add: demo_own_trade_def demo_trade_def fee_treasuries_def demo_wide_fees_def
        demo_fees_def demo_account_def word_gt_0)
qed


section \<open>Disputes over trades in the deposit mint\<close>

lemma open_case_frozen:
  assumes "escrow_inv env w" and "es_cases w rid = Some d" and "\<not> dc_resolved d"
  obtains e where "es_trades w rid = Some e" and "te_state e = Frozen"
    and "dc_trade_escrow d = trade_escrow_pda rid"
    and "dc_deposit_vault d = liquidity_vault_pda (te_seller e) (dc_deposit_mint d)"
  using escrow_inv_case [OF assms(1,2)] assms(3) by (auto simp: case_inv_def split: option.splits)

definition stuck_dispute :: "u64 \<Rightarrow> pubkey \<Rightarrow> 'z escrow_chain_scheme \<Rightarrow> bool" where
  "stuck_dispute rid m w \<longleftrightarrow>
     (\<exists>e d. es_trades w rid = Some e \<and> te_state e = Frozen \<and> te_mint e = m
        \<and> es_cases w rid = Some d \<and> \<not> dc_resolved d \<and> dc_deposit_mint d = m)"

lemma stuck_dispute_step:
  assumes env: "token_env env" and reach: "reachable escrow_genesis (escrow_step env) (t, w)"
    and step: "escrow_step env (t, w) (t', w')" and stuck: "stuck_dispute rid m w"
  shows "stuck_dispute rid m w'"
proof -
  from stuck obtain e d where e: "es_trades w rid = Some e" "te_state e = Frozen" "te_mint e = m"
    and d: "es_cases w rid = Some d" "\<not> dc_resolved d" "dc_deposit_mint d = m"
    unfolding stuck_dispute_def by blast
  have inv: "escrow_inv env w" by (rule token_env.escrow_reachable_inv [OF env reach])
  have inv': "escrow_inv env w'"
    by (rule token_env.escrow_reachable_inv [OF env reachable_step [OF reach step]])
  obtain e' where e': "es_trades w' rid = Some e'" "trade_progress e e'"
    using trade_step_progress [OF step e(1)] by blast
  have "\<exists>d'. es_cases w' rid = Some d' \<and> same_case d d' \<and> \<not> dc_resolved d'"
    using step
  proof (rule escrow_stepE)
    fix sv ix assume ok: "escrow_dispatch env sv ix w = Inr w'"
    show ?thesis
    proof (cases "\<exists>a. ix = IxExecuteDisputeOutcome a")
      case True
      with ok obtain a where "handle_execute_dispute_outcome env sv a w = Inr w'" by auto
      then show ?thesis
      proof (rule executeE)
        fix d0 e0 d1 assume a: "es_cases w (ex_dispute_case a) = Some d0" "\<not> dc_resolved d0"
          "es_trades w (ex_trade_escrow a) = Some e0"
          "trade_escrow_pda (ex_trade_escrow a) = dc_trade_escrow d0"
          "dc_deposit_vault d0 \<noteq> liquidity_vault_pda (te_seller e0) (te_mint e0)"
          "es_cases w' = (es_cases w)(ex_dispute_case a \<mapsto> d1)"
        obtain e1 where f: "es_trades w (ex_dispute_case a) = Some e1"
          "dc_trade_escrow d0 = trade_escrow_pda (ex_dispute_case a)"
          "dc_deposit_vault d0 = liquidity_vault_pda (te_seller e1) (dc_deposit_mint d0)"
          by (rule open_case_frozen [OF inv a(1,2)])
        have "ex_trade_escrow a = ex_dispute_case a" using a(4) f(2) by simp
        with a f d e have "ex_dispute_case a \<noteq> rid" by force
        with a(6) d show ?thesis by auto
      qed
    qed (use other_ix_same_case [OF ok d(1)] d(2) in blast)
  qed (use d in \<open>auto simp: escrow_frame_def\<close>)
  then obtain d' where d': "es_cases w' rid = Some d'" "same_case d d'" "\<not> dc_resolved d'" by blast
  obtain e1 where "es_trades w' rid = Some e1" "te_state e1 = Frozen"
    by (rule open_case_frozen [OF inv' d'(1,3)])
  with e'(1) have "te_state e' = Frozen" by simp
  moreover obtain s ap where "e' = e\<lparr>te_state := s, te_approved := ap\<rparr>"
    using e'(2) unfolding trade_progress_def by blast
  then have "te_mint e' = m" using e(3) by simp
  moreover have "dc_deposit_mint d' = m" using d'(2) d(3) by (simp add: same_case_def)
  ultimately show ?thesis using e'(1) d'(1,3) unfolding stuck_dispute_def by blast
qed


lemma stuck_dispute_steps:
  assumes "(escrow_step env)\<^sup>*\<^sup>* s s'" and env: "token_env env"
    and reach: "reachable escrow_genesis (escrow_step env) s" and "stuck_dispute rid m (snd s)"
  shows "stuck_dispute rid m (snd s')"
  using assms(1,4)
proof (induction rule: rtranclp_induct)
  case (step x y)
  obtain t w t' w' where "x = (t, w)" "y = (t', w')" by (cases x, cases y)
  with step reachable_steps [OF reach step(1)] show ?case
    by (auto intro: stuck_dispute_step [OF env])
qed

text \<open>
  C35. The dispute deposit is drawn from the merchant's vault of the deposit mint. Where the
  disputed trade is itself in that mint, the deposit vault is the trade's own vault, which opening
  the dispute accepts and executing it refuses: in every reachable state with such a case, whatever
  anyone does afterwards, the trade stays frozen and its tokens are never paid out.
\<close>

theorem deposit_mint_trade_frozen_forever:
  assumes "token_env env" and "reachable escrow_genesis (escrow_step env) (t, w)"
    and "es_trades w rid = Some e" and "te_state e = Frozen"
    and "es_cases w rid = Some d" and "dc_deposit_mint d = te_mint e"
    and "(escrow_step env)\<^sup>*\<^sup>* (t, w) (t', w')"
  shows "\<exists>e'. es_trades w' rid = Some e' \<and> te_state e' = Frozen"
proof -
  have inv: "escrow_inv env w" by (rule token_env.escrow_reachable_inv [OF assms(1,2)])
  have "\<not> dc_resolved d"
    using escrow_inv_case [OF inv assms(5)] assms(3,4) by (auto simp: case_inv_def)
  then have "stuck_dispute rid (te_mint e) w" using assms(3-6) unfolding stuck_dispute_def by blast
  from stuck_dispute_steps [OF assms(7,1,2)] this have "stuck_dispute rid (te_mint e) w'" by simp
  then show ?thesis unfolding stuck_dispute_def by blast
qed

definition demo_own_shortfall :: StakeRecoveryClaim where
  "demo_own_shortfall = demo_shortfall\<lparr>rc_owed_total := 20\<rparr>"

definition demo_own_dispute :: DisputeCase where
  "demo_own_dispute = (demo_dispute [] [])\<lparr>dc_deposit := 10, dc_deposit_shortfall := 20\<rparr>"

definition demo_own_log :: "EscrowEvent list" where
  "demo_own_log =
     [ArbitrationDepositTaken 1 (Key 1) (Key 21) (liquidity_vault_pda (Key 1) (Key 2)) (Key 2) 10 20 110,
      StakeRecoveryClaimRecorded 1 (Key 1) (recovery_claim_pda (Key 1) (Key 2)) (Key 2) 20 20 0 1 110]"

definition demo_own_disputed :: escrow_chain where
  "demo_own_disputed = demo_chain (demo_own_ledger 0 40 10)
     [(Key 1, Key 7) \<mapsto> demo_vault (Key 7) 0 0 0 0 0,
      (Key 1, Key 2) \<mapsto> demo_vault (Key 2) 90 40 0 0 50]
     [1 \<mapsto> demo_own_trade Frozen False] (Some demo_wide_fees) [1 \<mapsto> demo_own_dispute]
     [(Key 1, Key 2) \<mapsto> demo_own_shortfall] demo_own_log"

definition demo_own_opening :: "sysvars \<times> escrow_ix" where
  "demo_own_opening =
     (demo_sv 110, IxOpenDisputeCase (Key 21) 1 (Key 2) (Prog SplTokenProgram) 100 100)"

lemma demo_own_opening_run:
  "escrow_dispatch ref_env (fst demo_own_opening) (snd demo_own_opening) (demo_own_chain False)
     = Inr demo_own_disputed"
  by (simp add: demo_own_opening_def demo_own_chain_def demo_own_disputed_def demo_own_trade_def
      demo_own_dispute_def demo_own_ledger_def demo_own_shortfall_def demo_own_log_def
      demo_wide_fees_def demo_dispute_def demo_shortfall_def demo_defs dispute_eval demo_slots
      word_le_nat_alt word_less_nat_alt fun_upd_twist)

lemma demo_own_disputed_reachable:
  "reachable escrow_genesis (escrow_step ref_env) (110, demo_own_disputed)"
proof -
  have "reachable escrow_genesis (escrow_step ref_env) (end_time 109 [demo_own_opening], demo_own_disputed)"
    by (rule escrow_run_reachable [OF demo_own_reachable])
       (use demo_own_opening_run in \<open>simp_all add: demo_own_opening_def\<close>)
  then show ?thesis by (simp add: demo_own_opening_def)
qed

theorem deposit_mint_trade_frozen_forever_witness:
  "reachable escrow_genesis (escrow_step ref_env) (110, demo_own_disputed)
   \<and> te_mint (demo_own_trade Frozen False) = dc_deposit_mint demo_own_dispute
   \<and> (\<nexists>t' w'. (escrow_step ref_env)\<^sup>*\<^sup>* (110, demo_own_disputed) (t', w')
        \<and> map_option te_state (es_trades w' 1) \<noteq> Some Frozen)"
proof -
  have s: "es_trades demo_own_disputed 1 = Some (demo_own_trade Frozen False)"
    "te_state (demo_own_trade Frozen False) = Frozen" "es_cases demo_own_disputed 1 = Some demo_own_dispute"
    "dc_deposit_mint demo_own_dispute = te_mint (demo_own_trade Frozen False)"
    by (simp_all add: demo_own_disputed_def demo_chain_def demo_own_trade_def demo_trade_def
        demo_own_dispute_def demo_dispute_def)
  show ?thesis
    using deposit_mint_trade_frozen_forever [OF ref.token_env_axioms demo_own_disputed_reachable s]
      demo_own_disputed_reachable s(4) by fastforce
qed


section \<open>Merchants without a deposit vault\<close>

lemma execute_no_new_vault:
  assumes "handle_execute_dispute_outcome env sv a w = Inr w'" and "es_vaults w addr = None"
  shows "es_vaults w' addr = None"
  by (rule execute_vault_map [OF assms(1)]) (use assms(2) in auto)

lemma open_needs_vault:
  assumes "handle_open_dispute_case env sv signer rid mint tp cw rw w = Inr w'"
  shows "\<exists>e pool v. es_trades w rid = Some e \<and> c_tokens w arbitration_pool_pda = Some pool
     \<and> ta_mint pool = mint \<and> es_vaults w (te_seller e, mint) = Some v"
  using assms
  by (auto simp: handle_open_dispute_case_def trade_load_defs load_pool_def load_token_def Let_def)

text \<open>
  C37. A dispute needs a vault of the deposit mint that only the merchant can create. If the seller
  of a trade has none, then nobody can open a dispute over the trade, and no instruction gives them
  one except the seller's own \<open>create_liquidity_vault\<close>; so a seller can keep their trades out of
  arbitration by never creating it.
\<close>

theorem no_deposit_vault_no_dispute:
  assumes "es_trades w rid = Some e" and "c_tokens w arbitration_pool_pda = Some pool"
    and "es_vaults w (te_seller e, ta_mint pool) = None"
  shows "handle_open_dispute_case env sv signer rid mint tp cw rw w \<noteq> Inr w'
     \<and> (escrow_dispatch env sv ix w = Inr w1 \<longrightarrow> es_vaults w1 (te_seller e, ta_mint pool) \<noteq> None
          \<longrightarrow> (\<exists>program. ix = IxCreateLiquidityVault (te_seller e) (ta_mint pool) program))"
proof (intro conjI impI)
  show "handle_open_dispute_case env sv signer rid mint tp cw rw w \<noteq> Inr w'"
    using open_needs_vault [of env sv signer rid mint tp cw rw w w'] assms by auto
  assume ok: "escrow_dispatch env sv ix w = Inr w1"
    and new: "es_vaults w1 (te_seller e, ta_mint pool) \<noteq> None"
  then show "\<exists>program. ix = IxCreateLiquidityVault (te_seller e) (ta_mint pool) program"
  proof (cases ix)
    case (IxExecuteDisputeOutcome a)
    with ok have "handle_execute_dispute_outcome env sv a w = Inr w1" by simp
    from execute_no_new_vault [OF this assms(3)] new show ?thesis by simp
  next
    case (IxOpenDisputeCase signer rid mint tp cw rw)
    with ok have "handle_open_dispute_case env sv signer rid mint tp cw rw w = Inr w1" by simp
    from open_needs_vault [OF this] open_vaults [OF this] assms(2,3) new show ?thesis
      by (auto split: if_splits)
  next
    case (IxCancelReservation signer mint tp rid)
    with ok assms(3) new show ?thesis
      by (auto simp: handle_cancel_reservation_def load_open_reservation_def trade_load_defs
          dest!: close_vaults split: if_splits)
  next
    case (IxExpireReservation mint tp rid)
    with ok assms(3) new show ?thesis
      by (auto simp: handle_expire_reservation_def load_open_reservation_def trade_load_defs
          dest!: close_vaults split: if_splits)
  next
    case (IxReleaseEscrow mint tp rid account)
    with ok assms(3) new show ?thesis
      by (auto simp: handle_release_escrow_def trade_load_defs escrow_world_simps
          dest!: release_available_kept split: if_splits)
  qed (use assms(3) in \<open>auto simp: handle_initialize_fee_config_def handle_update_fee_config_def
       handle_initialize_arbitration_pool_def handle_publish_arbitrator_pool_size_def
       vault_handler_defs handle_create_trade_escrow_def handle_fund_trade_escrow_def
       handle_approve_settlement_def dispute_handler_defs trade_load_defs load_mint_token_def Let_def
       load_config_def load_arbitrator_stake_def escrow_world_simps init_token_def checked_add_Some
       simp del: transfer_each.simps
       dest!: cpi_transfer_frame transfer_each_frame take_deposit_frame split: if_splits\<close>)
qed

theorem no_deposit_vault_no_dispute_witness:
  "\<exists>w :: escrow_chain. es_trades w 1 = Some (demo_trade AwaitingFiatSettlement False) \<and> es_vaults w (Key 1, Key 2) = None
     \<and> (\<forall>sv signer mint tp cw rw w'.
          handle_open_dispute_case ref_env sv signer 1 mint tp cw rw w \<noteq> Inr w')"
proof -
  let ?w = "demo_funded\<lparr>es_vaults := (es_vaults demo_funded)((Key 1, Key 2) := None)\<rparr>"
  have s: "es_trades ?w 1 = Some (demo_trade AwaitingFiatSettlement False)"
    "c_tokens ?w arbitration_pool_pda = Some (demo_account (Key 2) fee_config_pda 0)"
    "es_vaults ?w (te_seller (demo_trade AwaitingFiatSettlement False),
       ta_mint (demo_account (Key 2) fee_config_pda 0)) = None"
    by (simp_all add: demo_funded_def demo_chain_def demo_ledger_def demo_accounts_def demo_trade_def
        demo_account_def)
  show ?thesis
    by (rule exI [of _ ?w])
       (use no_deposit_vault_no_dispute [OF s, where env = ref_env] s in
         \<open>simp add: demo_trade_def demo_account_def\<close>)
qed


section \<open>Absorbing recovered stake\<close>

text \<open>
  C38. The check that recovered tokens have arrived compares the vault's token balance with the
  vault's \<open>total\<close> plus the recovered amount, although \<open>total\<close> still counts what was moved to trades
  or paid out. In a reachable state with the recovered tokens delivered on top of the reserved and
  available liquidity, absorbing them is refused as missing whenever the vault has pending or
  settled liquidity.
\<close>

theorem absorb_refuses_delivered_tokens:
  assumes env: "token_env env" and reach: "reachable escrow_genesis (escrow_step env) (t, w)"
    and v: "es_vaults w (merchant, mint) = Some v" 
    and c: "es_claims w (merchant, mint) = Some c" "rc_merchant c = merchant" "rc_mint c = mint"
      "rc_bump c = bump_of env (recovery_claim_pda merchant mint)"
    and r: "sk_receipts w merchant = Some r" "rr_merchant r = merchant"
      "rr_bump r = bump_of env (stake_recovery_receipt_pda merchant)"
    and m: "c_mints w mint \<noteq> None"
    and amount: "0 < absorbable c (rr_recovered_total r)"
      "unat (lv_total v) + unat (absorbable c (rr_recovered_total r)) < 2 ^ 64"
    and delivered: "balance (c_tokens w) (liquidity_tokens_pda merchant mint)
      = unat (lv_available v) + unat (lv_reserved v) + unat (absorbable c (rr_recovered_total r))"
    and spent: "0 < unat (lv_pending_settlement v) + unat (lv_settled v)"
  shows "handle_absorb_stake_recovery env sv merchant mint w = Inl (Program RecoveredTokensMissing)"
proof -
  have inv: "escrow_inv env w" by (rule token_env.escrow_reachable_inv [OF env reach])
  have vi: "vault_inv env (c_tokens w) (merchant, mint) v" by (rule escrow_inv_vault [OF inv v])
  then obtain a where a: "c_tokens w (liquidity_tokens_pda merchant mint) = Some a"
    by (auto simp: vault_inv_def elim: heldE)
  from vi a delivered spent have "unat (ta_amount a)
      < unat (lv_total v) + unat (absorbable c (rr_recovered_total r))"
    by (simp add: vault_inv_def balance_def)
  then have "\<not> lv_total v + absorbable c (rr_recovered_total r) \<le> ta_amount a"
    using amount(2) by (simp add: word_le_nat_alt unat_plus_simple no_olen_add_nat [symmetric] not_le
        unat_word_ariths)
  with vi a v c r m amount show ?thesis
    by (simp add: handle_absorb_stake_recovery_def vault_load_defs vault_inv_def checked_add_def Let_def)
qed


text \<open>The stake program delivers the twenty units that the disputed merchant owes.\<close>

definition demo_delivered :: escrow_chain where
  "demo_delivered = demo_own_disputed\<lparr>
     c_tokens := (c_tokens demo_own_disputed)
       (liquidity_tokens_pda (Key 1) (Key 2)
          \<mapsto> demo_account (Key 2) (liquidity_vault_pda (Key 1) (Key 2)) 60),
     sk_receipts := [Key 1 \<mapsto> \<lparr> rr_merchant = Key 1, rr_recovered_total = 20,
       rr_recovery_count = 1, rr_bump = 255 \<rparr>]\<rparr>"

lemma demo_delivered_step: "escrow_step ref_env (110, demo_own_disputed) (115, demo_delivered)"
  by (rule escrow_step_outside)
     (auto simp: escrow_frame_def outside_def demo_delivered_def demo_own_disputed_def
        demo_own_ledger_def demo_chain_def demo_accounts_def demo_account_def same_account_def)

theorem absorb_refuses_delivered_tokens_witness:
  "reachable escrow_genesis (escrow_step ref_env) (115, demo_delivered)
   \<and> balance (c_tokens demo_delivered) (liquidity_tokens_pda (Key 1) (Key 2)) = 0 + 40 + 20
   \<and> handle_absorb_stake_recovery ref_env (demo_sv 120) (Key 1) (Key 2) demo_delivered
       = Inl (Program RecoveredTokensMissing)"
proof -
  let ?r = "\<lparr> rr_merchant = Key 1, rr_recovered_total = 20, rr_recovery_count = 1, rr_bump = 255 \<rparr>"
  have reach: "reachable escrow_genesis (escrow_step ref_env) (115, demo_delivered)"
    by (rule reachable_step [OF demo_own_disputed_reachable demo_delivered_step])
  have s: "es_vaults demo_delivered (Key 1, Key 2) = Some (demo_vault (Key 2) 90 40 0 0 50)"
    "es_claims demo_delivered (Key 1, Key 2) = Some demo_own_shortfall"
    "sk_receipts demo_delivered (Key 1) = Some ?r" "c_mints demo_delivered (Key 2) \<noteq> None"
    and bal: "balance (c_tokens demo_delivered) (liquidity_tokens_pda (Key 1) (Key 2)) = 60"
    by (simp_all add: demo_delivered_def demo_own_disputed_def demo_chain_def demo_account_def)
  have "handle_absorb_stake_recovery ref_env (demo_sv 120) (Key 1) (Key 2) demo_delivered
       = Inl (Program RecoveredTokensMissing)"
    by (rule absorb_refuses_delivered_tokens [OF ref.token_env_axioms reach s(1,2) _ _ _ s(3) _ _ s(4)])
       (simp_all add: bal demo_own_shortfall_def demo_shortfall_def demo_vault_def absorbable_def
         saturating_sub_def)
  with reach bal show ?thesis by simp
qed

end
