(* ===== verification/Governance_State.thy ===== *)
theory Governance_State
  imports Escrow_State
begin

text \<open>
  The accounts of the governance program (\<open>programs/governance/src/state.rs\<close>), its constants,
  error codes and events, the category tables and guards of \<open>shared_logic.rs\<close>, and the chain
  state extended by the program's accounts. The ban list is kept twice, as on the chain: as the
  typed records the program reads, and as the raw accounts the other programs' gates look at.
\<close>


section \<open>Constants and errors\<close>

definition GOVERNANCE_CONFIG_SEED :: string where "GOVERNANCE_CONFIG_SEED = ''governance_config''"
definition DEPOSIT_VAULT_SEED :: string where "DEPOSIT_VAULT_SEED = ''deposit_vault''"
definition PROPOSAL_SEED :: string where "PROPOSAL_SEED = ''proposal''"
definition VOTE_RECORD_SEED :: string where "VOTE_RECORD_SEED = ''vote''"
definition PROPOSAL_ACTION_SEED :: string where "PROPOSAL_ACTION_SEED = ''proposal_action''"
definition EMERGENCY_AUTHORITY_SEED :: string where
  "EMERGENCY_AUTHORITY_SEED = ''emergency_authority''"

definition MAX_VOTE_LOCK_SECS :: i64 where "MAX_VOTE_LOCK_SECS = 30 * 24 * 60 * 60"
definition GOVERNANCE_BPS_DENOMINATOR :: u64 where "GOVERNANCE_BPS_DENOMINATOR = 10000"
definition FIRST_YEAR_SECS :: i64 where "FIRST_YEAR_SECS = 365 * 24 * 60 * 60"
definition MIN_VOTING_PERIOD_SECS :: i64 where "MIN_VOTING_PERIOD_SECS = 30"

text \<open>The two holders, as the 32 bytes their base-58 forms decode to.\<close>

definition ALLENHARK_PRIMARY_HOLDER :: pubkey where
  "ALLENHARK_PRIMARY_HOLDER =
     Key 77232095933964170549595277930286351957216942011232585285053975721194670173322"

definition ALLENHARK_SECONDARY_HOLDER :: pubkey where
  "ALLENHARK_SECONDARY_HOLDER =
     Key 96534024144968441185946861151478202073776942144789847831040059245736011872645"

datatype GovernanceErrorCode =
    Unauthorized | InvalidBps | InvalidVoteLock | VotingStillOpen | NotInVotingState
  | AlreadyTallied | DepositAlreadySettled | NotYetTallied | ProposalNotAccepted
  | WrongCategoryForParameterUpdate | WrongCategoryForTreasurySpend | AlreadyExecuted | Overflow
  | MintMismatch | WalletBanned | QuorumNotMet | ExecutionTimelockActive
  | WrongCategoryForBanAction | ProposalActionMismatch | VoteLockTooLong
  | EmergencyPowersExpired | OffchainLinkAlreadySet | NotTheProposer | EmptyOffchainIdHash
  | VotingPeriodTooShort


section \<open>Accounts\<close>

record GovernanceConfig =
  gc_admin :: pubkey
  gc_mint :: pubkey
  gc_total_open_supply :: u64
  gc_quorum_bps :: u16
  gc_threshold_simple_bps :: u16
  gc_threshold_treasury_bps :: u16
  gc_threshold_upgrade_bps :: u16
  gc_quorum_upgrade_bps :: u16
  gc_deposit_amount :: u64
  gc_forfeit_destination :: pubkey
  gc_vote_lock_secs :: i64
  gc_bump :: u8
  gc_deposit_vault_bump :: u8

record EmergencyAuthority =
  ea_primary_holder :: pubkey
  ea_secondary_holder :: pubkey
  ea_initialized_at :: i64
  ea_expires_at :: i64
  ea_bump :: u8

datatype ProposalState = Draft | Voting | Accepted | Rejected

record Proposal =
  pr_id :: u64
  pr_category :: ProposalCategory
  pr_proposer :: pubkey
  pr_title_hash :: "u8 list"
  pr_summary_hash :: "u8 list"
  pr_stake_deposit :: u64
  pr_votes_for :: u64
  pr_votes_against :: u64
  pr_quorum_snapshot :: u64
  pr_threshold_snapshot :: u16
  pr_created_at :: i64
  pr_voting_ends_at :: i64
  pr_state :: ProposalState
  pr_quorum_met :: bool
  pr_deposit_settled :: bool
  pr_executed :: bool
  pr_bump :: u8
  pr_offchain_id_hash :: "u8 list"

datatype BanReason = StolenFunds | Sanctions | Phishing | Scam | Other

datatype GovernanceAction =
    NoAction
  | ListWallet pubkey BanReason "u8 list"
  | DelistWallet pubkey

record ProposalAction =
  pa_proposal :: pubkey
  pa_action :: GovernanceAction
  pa_bump :: u8

record VoteRecord =
  vr_proposal :: pubkey
  vr_voter :: pubkey
  vr_weight :: u64
  vr_in_favor :: bool
  vr_locked_until :: i64
  vr_bump :: u8

record BanRecord =
  br_wallet :: pubkey
  br_reason :: BanReason
  br_evidence_hash :: "u8 list"
  br_listed_at :: i64
  br_authorizing_proposal :: pubkey
  br_bump :: u8


section \<open>Tables and guards\<close>

fun quorum_bps_for :: "GovernanceConfig \<Rightarrow> ProposalCategory \<Rightarrow> u16" where
  "quorum_bps_for config ProtocolUpgrade = gc_quorum_upgrade_bps config"
| "quorum_bps_for config Constitutional = gc_quorum_upgrade_bps config"
| "quorum_bps_for config _ = gc_quorum_bps config"

fun threshold_bps_for :: "GovernanceConfig \<Rightarrow> ProposalCategory \<Rightarrow> u16" where
  "threshold_bps_for config Treasury = gc_threshold_treasury_bps config"
| "threshold_bps_for config ProtocolUpgrade = gc_threshold_upgrade_bps config"
| "threshold_bps_for config Constitutional = gc_threshold_upgrade_bps config"
| "threshold_bps_for config _ = gc_threshold_simple_bps config"

definition require_executable ::
  "Proposal \<Rightarrow> GovernanceConfig \<Rightarrow> i64 \<Rightarrow> GovernanceErrorCode tx_error + 'a
   \<Rightarrow> GovernanceErrorCode tx_error + 'a" where
  "require_executable proposal config now k =
     require (pr_state proposal = Accepted) (Program ProposalNotAccepted)
    (require (pr_quorum_met proposal) (Program QuorumNotMet)
    (require (\<not> pr_executed proposal) (Program AlreadyExecuted)
    (ok_or (checked_add_i64 (pr_voting_ends_at proposal) (gc_vote_lock_secs config))
       (Program Overflow) (\<lambda>executable_at.
     require (now \<ge> executable_at) (Program ExecutionTimelockActive) k))))"

definition require_valid_vote_lock ::
  "i64 \<Rightarrow> GovernanceErrorCode tx_error + 'a \<Rightarrow> GovernanceErrorCode tx_error + 'a" where
  "require_valid_vote_lock vote_lock_secs k =
     require (vote_lock_secs > 0) (Program InvalidVoteLock)
    (require (vote_lock_secs \<le> MAX_VOTE_LOCK_SECS) (Program VoteLockTooLong) k)"

definition emergency_powers_available :: "EmergencyAuthority \<Rightarrow> i64 \<Rightarrow> bool" where
  "emergency_powers_available authority now \<longleftrightarrow> now < ea_expires_at authority"

definition require_vote_lock_change_allowed ::
  "EmergencyAuthority \<Rightarrow> i64 \<Rightarrow> i64 \<Rightarrow> i64 \<Rightarrow> GovernanceErrorCode tx_error + 'a
   \<Rightarrow> GovernanceErrorCode tx_error + 'a" where
  "require_vote_lock_change_allowed authority now current_vote_lock_secs requested_vote_lock_secs k =
     (if emergency_powers_available authority now then k
      else require (requested_vote_lock_secs = current_vote_lock_secs)
             (Program EmergencyPowersExpired) k)"

definition require_valid_bps ::
  "u16 \<Rightarrow> GovernanceErrorCode tx_error + 'a \<Rightarrow> GovernanceErrorCode tx_error + 'a" where
  "require_valid_bps bps k =
     require (ucast bps \<le> GOVERNANCE_BPS_DENOMINATOR) (Program InvalidBps) k"


section \<open>Events\<close>

datatype GovernanceEvent =
    WalletListed pubkey BanReason "u8 list" pubkey u64 i64
      \<comment> \<open>wallet, reason, evidence hash, authorizing proposal, proposal id, timestamp\<close>
  | WalletDelisted pubkey pubkey u64 i64 pubkey i64
      \<comment> \<open>wallet, authorizing proposal, proposal id, listed at, listed by, timestamp\<close>
  | GovernanceConfigInitialized pubkey pubkey pubkey pubkey u64 "u16 list" u64 pubkey i64 i64
      \<comment> \<open>config, admin, mint, deposit vault, supply, the five bps, deposit, forfeit destination,
          vote lock, timestamp\<close>
  | GovernanceConfigUpdated pubkey pubkey u64 "u16 list" u64 pubkey i64 i64
      \<comment> \<open>config, admin, supply, the five bps, deposit, forfeit destination, vote lock,
          timestamp\<close>
  | ProposalCreated pubkey u64 pubkey ProposalCategory "u8 list" "u8 list" GovernanceAction pubkey
      u64 u64 u16 i64 i64
      \<comment> \<open>proposal, id, proposer, category, title hash, summary hash, action, action account,
          deposit, quorum, threshold, voting ends at, timestamp\<close>
  | VoteCast pubkey u64 pubkey pubkey Role bool u64 u64 u64 i64 i64
      \<comment> \<open>proposal, id, voter, stake account, role, in favor, weight, votes for, votes against,
          locked until, timestamp\<close>
  | ProposalFinalized pubkey u64 ProposalCategory u64 u64 u64 u64 u16 bool ProposalState i64
      \<comment> \<open>proposal, id, category, votes for, votes against, total cast, quorum, threshold, quorum
          met, state, timestamp\<close>
  | ProposalDepositSettled pubkey u64 pubkey u64 pubkey bool pubkey bool ProposalState i64
      \<comment> \<open>proposal, id, proposer, amount, mint, refunded, destination, quorum met, state,
          timestamp\<close>
  | ConfigParameterChangeAuthorized pubkey u64 pubkey string u64 i64
      \<comment> \<open>proposal, id, target program, parameter key, authorized value, timestamp\<close>
  | TreasurySpendAuthorized pubkey u64 pubkey u64 i64
      \<comment> \<open>proposal, id, authorized destination, authorized amount, timestamp\<close>
  | EmergencyAuthorityInitialized pubkey pubkey pubkey i64 i64
      \<comment> \<open>authority, primary holder, secondary holder, initialized at, expires at\<close>
  | OffchainProposalLinked pubkey u64 "u8 list" i64
      \<comment> \<open>proposal, id, off-chain id hash, timestamp\<close>


section \<open>Addresses and chain state\<close>

definition governance_config_pda :: pubkey where
  "governance_config_pda = Pda GovernanceProgram [SeedBytes GOVERNANCE_CONFIG_SEED]"

definition deposit_vault_pda :: pubkey where
  "deposit_vault_pda = Pda GovernanceProgram [SeedBytes DEPOSIT_VAULT_SEED]"

definition emergency_authority_pda :: pubkey where
  "emergency_authority_pda = Pda GovernanceProgram [SeedBytes EMERGENCY_AUTHORITY_SEED]"

definition proposal_pda :: "u64 \<Rightarrow> pubkey" where
  "proposal_pda pid = Pda GovernanceProgram [SeedBytes PROPOSAL_SEED, SeedU64 pid]"

definition proposal_action_pda :: "u64 \<Rightarrow> pubkey" where
  "proposal_action_pda pid =
     Pda GovernanceProgram [SeedBytes PROPOSAL_ACTION_SEED, SeedKey (proposal_pda pid)]"

definition vote_record_pda :: "u64 \<Rightarrow> pubkey \<Rightarrow> pubkey" where
  "vote_record_pda pid voter =
     Pda GovernanceProgram [SeedBytes VOTE_RECORD_SEED, SeedKey (proposal_pda pid), SeedKey voter]"

definition ban_record_pda :: "pubkey \<Rightarrow> pubkey" where
  "ban_record_pda wallet = Pda GovernanceProgram [SeedBytes BAN_SEED, SeedKey wallet]"

lemma proposal_pda_inj [simp]: "proposal_pda a = proposal_pda b \<longleftrightarrow> a = b"
  by (simp add: proposal_pda_def)

lemma governance_pdas [simp]:
  "deposit_vault_pda \<noteq> governance_config_pda"
  "signs_for GovernanceProgram governance_config_pda" "signs_for GovernanceProgram deposit_vault_pda"
  by (simp_all add: governance_config_pda_def deposit_vault_pda_def GOVERNANCE_CONFIG_SEED_def
      DEPOSIT_VAULT_SEED_def)

record governance_chain = escrow_chain +
  gv_config :: "GovernanceConfig option"
  gv_emergency :: "EmergencyAuthority option"
  gv_proposals :: "u64 \<rightharpoonup> Proposal"
  gv_actions :: "u64 \<rightharpoonup> ProposalAction"
  gv_votes :: "u64 \<times> pubkey \<rightharpoonup> VoteRecord"
  gv_bans :: "pubkey \<rightharpoonup> BanRecord"
  gv_log :: "GovernanceEvent list"

type_synonym 'z governance_result = "GovernanceErrorCode tx_error + 'z governance_chain_scheme"

definition emit_governance ::
  "GovernanceEvent \<Rightarrow> 'z governance_chain_scheme \<Rightarrow> 'z governance_chain_scheme" where
  "emit_governance e w = w\<lparr>gv_log := gv_log w @ [e]\<rparr>"

definition put_proposal ::
  "u64 \<Rightarrow> Proposal \<Rightarrow> 'z governance_chain_scheme \<Rightarrow> 'z governance_chain_scheme" where
  "put_proposal pid p w = w\<lparr>gv_proposals := (gv_proposals w)(pid \<mapsto> p)\<rparr>"

text \<open>The account data Anchor writes for a ban record, and the account every gate reads.\<close>

fun ban_reason_byte :: "BanReason \<Rightarrow> u8" where
  "ban_reason_byte StolenFunds = 0"
| "ban_reason_byte Sanctions = 1"
| "ban_reason_byte Phishing = 2"
| "ban_reason_byte Scam = 3"
| "ban_reason_byte Other = 4"

definition ban_record_bytes :: "env \<Rightarrow> BanRecord \<Rightarrow> u8 list" where
  "ban_record_bytes env r =
     account_discriminator env ''BanRecord'' @ key_bytes env (br_wallet r)
     @ [ban_reason_byte (br_reason r)] @ br_evidence_hash r @ i64_to_le_bytes (br_listed_at r)
     @ key_bytes env (br_authorizing_proposal r) @ [br_bump r]"

definition put_ban ::
  "env \<Rightarrow> pubkey \<Rightarrow> BanRecord \<Rightarrow> 'z governance_chain_scheme \<Rightarrow> 'z governance_chain_scheme" where
  "put_ban env wallet r w = w\<lparr>gv_bans := (gv_bans w)(wallet \<mapsto> r),
     c_bans := (c_bans w)(wallet := \<lparr> ra_owner = GOVERNANCE_PROGRAM_ID,
                                       ra_data = ban_record_bytes env r \<rparr>)\<rparr>"

text \<open>\<open>#[account(close = submitter)]\<close>: the data is emptied and the address returned to the
  system program.\<close>

definition close_ban :: "pubkey \<Rightarrow> 'z governance_chain_scheme \<Rightarrow> 'z governance_chain_scheme" where
  "close_ban wallet w = w\<lparr>gv_bans := (gv_bans w)(wallet := None),
     c_bans := (c_bans w)(wallet := no_account)\<rparr>"

lemmas governance_world_simps =
  emit_governance_def put_proposal_def put_ban_def close_ban_def


section \<open>Loading accounts\<close>

text \<open>\<open>#[account(seeds = [GOVERNANCE_CONFIG_SEED], bump = governance_config.bump)]\<close>\<close>

definition load_governance_config ::
  "env \<Rightarrow> 'z governance_chain_scheme \<Rightarrow> (GovernanceConfig \<Rightarrow> 'e tx_error + 'a) \<Rightarrow> 'e tx_error + 'a"
  where
  "load_governance_config env w k =
     ok_or (gv_config w) AccountNotInitialized (\<lambda>c.
       require (gc_bump c = bump_of env governance_config_pda) ConstraintSeeds (k c))"

text \<open>\<open>#[account(mut, seeds = [PROPOSAL_SEED, &proposal.id.to_le_bytes()], bump = proposal.bump)]\<close>\<close>

definition load_proposal ::
  "env \<Rightarrow> 'z governance_chain_scheme \<Rightarrow> u64 \<Rightarrow> (Proposal \<Rightarrow> 'e tx_error + 'a) \<Rightarrow> 'e tx_error + 'a"
  where
  "load_proposal env w pid k =
     ok_or (gv_proposals w pid) AccountNotInitialized (\<lambda>p.
       require (pr_id p = pid \<and> pr_bump p = bump_of env (proposal_pda pid)) ConstraintSeeds (k p))"

definition load_proposal_action ::
  "env \<Rightarrow> 'z governance_chain_scheme \<Rightarrow> u64 \<Rightarrow> (ProposalAction \<Rightarrow> 'e tx_error + 'a)
   \<Rightarrow> 'e tx_error + 'a" where
  "load_proposal_action env w pid k =
     ok_or (gv_actions w pid) AccountNotInitialized (\<lambda>a.
       require (pa_bump a = bump_of env (proposal_action_pda pid)) ConstraintSeeds (k a))"

definition load_deposit_vault ::
  "env \<Rightarrow> 'z governance_chain_scheme \<Rightarrow> GovernanceConfig \<Rightarrow> 'e tx_error + 'a \<Rightarrow> 'e tx_error + 'a"
  where
  "load_deposit_vault env w config k =
     load_token w deposit_vault_pda (\<lambda>_.
       require (gc_deposit_vault_bump config = bump_of env deposit_vault_pda) ConstraintSeeds k)"

lemmas governance_load_defs =
  load_governance_config_def load_proposal_def load_proposal_action_def load_deposit_vault_def
  load_mint_def load_token_def

end
