(* ===== verification/Governance_Instructions.thy ===== *)
theory Governance_Instructions
  imports Governance_State
begin

text \<open>
  The instruction handlers of the governance program (\<open>programs/governance/src/instructions\<close>),
  one definition per instruction: the account constraints first, as guards, then the handler's
  body in the order of the source. The arguments are the signers and the addresses the caller is
  free to choose, then the instruction data.
\<close>


section \<open>Configuration\<close>

record InitializeGovernanceConfigParams =
  ig_total_open_supply :: u64
  ig_quorum_bps :: u16
  ig_threshold_simple_bps :: u16
  ig_threshold_treasury_bps :: u16
  ig_threshold_upgrade_bps :: u16
  ig_quorum_upgrade_bps :: u16
  ig_deposit_amount :: u64
  ig_forfeit_destination :: pubkey
  ig_vote_lock_secs :: i64

text \<open>\<open>write_emergency_authority\<close>, the only writer of the deadline.\<close>

definition write_emergency_authority ::
  "i64 \<Rightarrow> u8 \<Rightarrow> (EmergencyAuthority \<Rightarrow> GovernanceErrorCode tx_error + 'a)
   \<Rightarrow> GovernanceErrorCode tx_error + 'a" where
  "write_emergency_authority now bump k =
     ok_or (checked_add_i64 now FIRST_YEAR_SECS) (Program Overflow) (\<lambda>expires_at.
     k \<lparr> ea_primary_holder = ALLENHARK_PRIMARY_HOLDER,
         ea_secondary_holder = ALLENHARK_SECONDARY_HOLDER, ea_initialized_at = now,
         ea_expires_at = expires_at, ea_bump = bump \<rparr>)"

definition emergency_event :: "EmergencyAuthority \<Rightarrow> GovernanceEvent" where
  "emergency_event a = EmergencyAuthorityInitialized emergency_authority_pda (ea_primary_holder a)
     (ea_secondary_holder a) (ea_initialized_at a) (ea_expires_at a)"

definition handle_initialize_governance_config ::
  "env \<Rightarrow> sysvars \<Rightarrow> pubkey \<Rightarrow> pubkey \<Rightarrow> pubkey \<Rightarrow> InitializeGovernanceConfigParams
   \<Rightarrow> 'z governance_chain_scheme \<Rightarrow> 'z governance_result" where
  "handle_initialize_governance_config env sv admin mint token_program params w =
     load_mint w mint token_program (\<lambda>_.
     require (gv_config w = None) AccountInUse
     (and_then (init_token deposit_vault_pda mint governance_config_pda w) (\<lambda>w.
      require (gv_emergency w = None) AccountInUse
     (require_valid_bps (ig_quorum_bps params)
     (require_valid_bps (ig_threshold_simple_bps params)
     (require_valid_bps (ig_threshold_treasury_bps params)
     (require_valid_bps (ig_threshold_upgrade_bps params)
     (require_valid_bps (ig_quorum_upgrade_bps params)
     (require_valid_vote_lock (ig_vote_lock_secs params)
     (let now = unix_timestamp sv in
      write_emergency_authority now (bump_of env emergency_authority_pda) (\<lambda>authority.
      Inr (emit_governance
        (GovernanceConfigInitialized governance_config_pda admin mint deposit_vault_pda
           (ig_total_open_supply params)
           [ig_quorum_bps params, ig_threshold_simple_bps params, ig_threshold_treasury_bps params,
            ig_threshold_upgrade_bps params, ig_quorum_upgrade_bps params]
           (ig_deposit_amount params) (ig_forfeit_destination params) (ig_vote_lock_secs params) now)
        ((emit_governance (emergency_event authority) w)\<lparr>
           gv_emergency := Some authority,
           gv_config := Some
             \<lparr> gc_admin = admin, gc_mint = mint,
               gc_total_open_supply = ig_total_open_supply params,
               gc_quorum_bps = ig_quorum_bps params,
               gc_threshold_simple_bps = ig_threshold_simple_bps params,
               gc_threshold_treasury_bps = ig_threshold_treasury_bps params,
               gc_threshold_upgrade_bps = ig_threshold_upgrade_bps params,
               gc_quorum_upgrade_bps = ig_quorum_upgrade_bps params,
               gc_deposit_amount = ig_deposit_amount params,
               gc_forfeit_destination = ig_forfeit_destination params,
               gc_vote_lock_secs = ig_vote_lock_secs params,
               gc_bump = bump_of env governance_config_pda,
               gc_deposit_vault_bump = bump_of env deposit_vault_pda \<rparr>\<rparr>)))))))))))))"

definition handle_initialize_emergency_authority ::
  "env \<Rightarrow> sysvars \<Rightarrow> 'z governance_chain_scheme \<Rightarrow> 'z governance_result" where
  "handle_initialize_emergency_authority env sv w =
     require (gv_emergency w = None) AccountInUse
     (write_emergency_authority (unix_timestamp sv) (bump_of env emergency_authority_pda) (\<lambda>authority.
      Inr (emit_governance (emergency_event authority) (w\<lparr>gv_emergency := Some authority\<rparr>))))"

record UpdateGovernanceConfigParams =
  ug_total_open_supply :: u64
  ug_quorum_bps :: u16
  ug_threshold_simple_bps :: u16
  ug_threshold_treasury_bps :: u16
  ug_threshold_upgrade_bps :: u16
  ug_quorum_upgrade_bps :: u16
  ug_deposit_amount :: u64
  ug_vote_lock_secs :: i64

definition handle_update_governance_config ::
  "env \<Rightarrow> sysvars \<Rightarrow> pubkey \<Rightarrow> pubkey \<Rightarrow> pubkey \<Rightarrow> UpdateGovernanceConfigParams
   \<Rightarrow> 'z governance_chain_scheme \<Rightarrow> 'z governance_result" where
  "handle_update_governance_config env sv admin mint forfeit_destination params w =
     load_governance_config env w (\<lambda>config.
     require (gc_admin config = admin) (Program Unauthorized)
     (require (gc_mint config = mint) (Program MintMismatch)
     (require (c_mints w mint \<noteq> None) AccountNotInitialized
     (load_token w forfeit_destination (\<lambda>destination.
      require (ta_mint destination = mint) ConstraintTokenMint
     (ok_or (gv_emergency w) AccountNotInitialized (\<lambda>authority.
      require (ea_bump authority = bump_of env emergency_authority_pda) ConstraintSeeds
     (require_valid_bps (ug_quorum_bps params)
     (require_valid_bps (ug_threshold_simple_bps params)
     (require_valid_bps (ug_threshold_treasury_bps params)
     (require_valid_bps (ug_threshold_upgrade_bps params)
     (require_valid_bps (ug_quorum_upgrade_bps params)
     (require_valid_vote_lock (ug_vote_lock_secs params)
     (let now = unix_timestamp sv in
      require_vote_lock_change_allowed authority now (gc_vote_lock_secs config)
        (ug_vote_lock_secs params)
     (Inr (emit_governance
        (GovernanceConfigUpdated governance_config_pda admin (ug_total_open_supply params)
           [ug_quorum_bps params, ug_threshold_simple_bps params, ug_threshold_treasury_bps params,
            ug_threshold_upgrade_bps params, ug_quorum_upgrade_bps params]
           (ug_deposit_amount params) forfeit_destination (ug_vote_lock_secs params) now)
        (w\<lparr>gv_config := Some (config\<lparr>
             gc_total_open_supply := ug_total_open_supply params,
             gc_quorum_bps := ug_quorum_bps params,
             gc_threshold_simple_bps := ug_threshold_simple_bps params,
             gc_threshold_treasury_bps := ug_threshold_treasury_bps params,
             gc_threshold_upgrade_bps := ug_threshold_upgrade_bps params,
             gc_quorum_upgrade_bps := ug_quorum_upgrade_bps params,
             gc_deposit_amount := ug_deposit_amount params,
             gc_forfeit_destination := forfeit_destination,
             gc_vote_lock_secs := ug_vote_lock_secs params\<rparr>)\<rparr>)))))))))))))))))"


section \<open>Proposals\<close>

text \<open>A ban-list action is only allowed on a proposal of the \<open>Standards\<close> category.\<close>

fun action_category_ok :: "GovernanceAction \<Rightarrow> ProposalCategory \<Rightarrow> bool" where
  "action_category_ok NoAction category \<longleftrightarrow> True"
| "action_category_ok (ListWallet _ _ _) category \<longleftrightarrow> category = Standards"
| "action_category_ok (DelistWallet _) category \<longleftrightarrow> category = Standards"

abbreviation zero_hash :: "u8 list" where
  "zero_hash \<equiv> replicate 32 0"

definition handle_create_proposal ::
  "env \<Rightarrow> sysvars \<Rightarrow> pubkey \<Rightarrow> pubkey \<Rightarrow> pubkey \<Rightarrow> pubkey \<Rightarrow> u64 \<Rightarrow> ProposalCategory \<Rightarrow> u8 list
   \<Rightarrow> u8 list \<Rightarrow> i64 \<Rightarrow> GovernanceAction \<Rightarrow> 'z governance_chain_scheme \<Rightarrow> 'z governance_result" where
  "handle_create_proposal env sv proposer mint token_program from pid category title_hash
       summary_hash voting_period_secs action w =
     load_mint w mint token_program (\<lambda>mint_account.
     load_governance_config env w (\<lambda>config.
     require (gc_mint config = mint) ConstraintRaw
     (load_deposit_vault env w config
     (load_token w from (\<lambda>from_account.
      require (ta_mint from_account = mint) ConstraintRaw
     (require (gv_proposals w pid = None) AccountInUse
     (require (gv_actions w pid = None) AccountInUse
     (require (\<not> banned w proposer) (Program WalletBanned)
     (require (voting_period_secs \<ge> MIN_VOTING_PERIOD_SECS) (Program VotingPeriodTooShort)
     (require (action_category_ok action category) (Program WrongCategoryForBanAction)
     (let deposit_amount = gc_deposit_amount config; now = unix_timestamp sv;
          threshold_bps = threshold_bps_for config category
      in
      and_then (cpi_transfer env token_program from mint deposit_vault_pda proposer deposit_amount
                  (mi_decimals mint_account) w) (\<lambda>w.
      ok_or (mul_div_u64 (gc_total_open_supply config) (ucast (quorum_bps_for config category))
               GOVERNANCE_BPS_DENOMINATOR) (Program Overflow) (\<lambda>quorum_snapshot.
      ok_or (checked_add_i64 now voting_period_secs) (Program Overflow) (\<lambda>voting_ends_at.
      Inr (emit_governance
        (ProposalCreated (proposal_pda pid) pid proposer category title_hash summary_hash action
           (proposal_action_pda pid) deposit_amount quorum_snapshot threshold_bps voting_ends_at now)
        ((put_proposal pid
            \<lparr> pr_id = pid, pr_category = category, pr_proposer = proposer,
              pr_title_hash = title_hash, pr_summary_hash = summary_hash,
              pr_stake_deposit = deposit_amount, pr_votes_for = 0, pr_votes_against = 0,
              pr_quorum_snapshot = quorum_snapshot, pr_threshold_snapshot = threshold_bps,
              pr_created_at = now, pr_voting_ends_at = voting_ends_at, pr_state = Voting,
              pr_quorum_met = False, pr_deposit_settled = False, pr_executed = False,
              pr_bump = bump_of env (proposal_pda pid), pr_offchain_id_hash = zero_hash \<rparr> w)
         \<lparr>gv_actions := (gv_actions w)(pid \<mapsto>
            \<lparr> pa_proposal = proposal_pda pid, pa_action = action,
              pa_bump = bump_of env (proposal_action_pda pid) \<rparr>)\<rparr>))))))))))))))))"

definition handle_link_offchain_proposal ::
  "env \<Rightarrow> sysvars \<Rightarrow> pubkey \<Rightarrow> u64 \<Rightarrow> u8 list \<Rightarrow> 'z governance_chain_scheme
   \<Rightarrow> 'z governance_result" where
  "handle_link_offchain_proposal env sv proposer pid offchain_id_hash w =
     load_proposal env w pid (\<lambda>p.
     require (pr_proposer p = proposer) (Program NotTheProposer)
     (require (pr_state p = Voting) (Program NotInVotingState)
     (require (offchain_id_hash \<noteq> zero_hash) (Program EmptyOffchainIdHash)
     (require (pr_offchain_id_hash p = zero_hash) (Program OffchainLinkAlreadySet)
     (Inr (emit_governance
        (OffchainProposalLinked (proposal_pda pid) pid offchain_id_hash (unix_timestamp sv))
        (put_proposal pid (p\<lparr>pr_offchain_id_hash := offchain_id_hash\<rparr>) w)))))))"

definition handle_cast_vote ::
  "env \<Rightarrow> sysvars \<Rightarrow> pubkey \<Rightarrow> u64 \<Rightarrow> bool \<Rightarrow> Role \<Rightarrow> 'z governance_chain_scheme
   \<Rightarrow> 'z governance_result" where
  "handle_cast_vote env sv voter pid in_favor role w =
     load_governance_config env w (\<lambda>config.
     load_proposal env w pid (\<lambda>p.
     require (pr_state p = Voting) (Program NotInVotingState)
     (load_config env w (\<lambda>staking_config.
      ok_or (sk_stakes w (voter, role)) AccountNotInitialized (\<lambda>voter_stake.
      require (sa_bump voter_stake = bump_of env (stake_account_pda voter role)) ConstraintSeeds
     (require (gv_votes w (pid, voter) = None) AccountInUse
     (let now = unix_timestamp sv in
      require (now < pr_voting_ends_at p) (Program NotInVotingState)
     (let weight = effective_stake voter_stake staking_config in
      and_then
        (if in_favor
         then ok_or (checked_add (pr_votes_for p) weight) (Program Overflow) (\<lambda>n.
                Inr (p\<lparr>pr_votes_for := n\<rparr>))
         else ok_or (checked_add (pr_votes_against p) weight) (Program Overflow) (\<lambda>n.
                Inr (p\<lparr>pr_votes_against := n\<rparr>))) (\<lambda>p.
      ok_or (checked_add_i64 now (gc_vote_lock_secs config)) (Program Overflow) (\<lambda>locked_until.
      Inr (emit_governance
        (VoteCast (proposal_pda pid) pid voter (stake_account_pda voter role) role in_favor weight
           (pr_votes_for p) (pr_votes_against p) locked_until now)
        ((put_proposal pid p w)\<lparr>gv_votes := (gv_votes w)((pid, voter) \<mapsto>
            \<lparr> vr_proposal = proposal_pda pid, vr_voter = voter, vr_weight = weight,
              vr_in_favor = in_favor, vr_locked_until = locked_until,
              vr_bump = bump_of env (vote_record_pda pid voter) \<rparr>)\<rparr>))))))))))))"


section \<open>Closing a vote\<close>

text \<open>The share of the votes in favour, in basis points, rounded down.\<close>

definition votes_for_bps :: "Proposal \<Rightarrow> u64 \<Rightarrow> u128 option" where
  "votes_for_bps p total_cast =
     (case checked_mul (ucast (pr_votes_for p) :: u128) (ucast GOVERNANCE_BPS_DENOMINATOR) of
        None \<Rightarrow> None
      | Some n \<Rightarrow> checked_div n (ucast total_cast))"

definition handle_tally_and_finalize ::
  "env \<Rightarrow> sysvars \<Rightarrow> u64 \<Rightarrow> 'z governance_chain_scheme \<Rightarrow> 'z governance_result" where
  "handle_tally_and_finalize env sv pid w =
     load_proposal env w pid (\<lambda>p.
     require (pr_state p = Voting) (Program NotInVotingState)
     (let now = unix_timestamp sv in
      require (now \<ge> pr_voting_ends_at p) (Program VotingStillOpen)
     (ok_or (checked_add (pr_votes_for p) (pr_votes_against p)) (Program Overflow) (\<lambda>total_cast.
      let quorum_met = (total_cast \<ge> pr_quorum_snapshot p) in
      and_then
        (if \<not> quorum_met \<or> total_cast = 0 then Inr False
         else ok_or (votes_for_bps p total_cast) (Program Overflow) (\<lambda>for_bps.
                Inr (for_bps \<ge> ucast (pr_threshold_snapshot p)))) (\<lambda>accepted.
      let state = (if accepted then Accepted else Rejected) in
      Inr (emit_governance
        (ProposalFinalized (proposal_pda pid) pid (pr_category p) (pr_votes_for p)
           (pr_votes_against p) total_cast (pr_quorum_snapshot p) (pr_threshold_snapshot p)
           quorum_met state now)
        (put_proposal pid (p\<lparr>pr_quorum_met := quorum_met, pr_state := state\<rparr>) w)))))))"

definition handle_refund_or_forfeit_deposit ::
  "env \<Rightarrow> sysvars \<Rightarrow> pubkey \<Rightarrow> pubkey \<Rightarrow> u64 \<Rightarrow> pubkey \<Rightarrow> 'z governance_chain_scheme
   \<Rightarrow> 'z governance_result" where
  "handle_refund_or_forfeit_deposit env sv mint token_program pid proposer_token_account w =
     load_mint w mint token_program (\<lambda>mint_account.
     load_governance_config env w (\<lambda>config.
     require (gc_mint config = mint) ConstraintRaw
     (load_deposit_vault env w config
     (load_proposal env w pid (\<lambda>p.
      require (pr_state p \<noteq> Voting) (Program NotYetTallied)
     (require (\<not> pr_deposit_settled p) (Program DepositAlreadySettled)
     (load_token w proposer_token_account (\<lambda>account.
      require (ta_owner account = pr_proposer p) ConstraintRaw
     (require (ta_mint account = mint) ConstraintRaw
     (load_token w (gc_forfeit_destination config) (\<lambda>_.
      let amount = pr_stake_deposit p; refunded = pr_quorum_met p;
          destination = (if refunded then proposer_token_account else gc_forfeit_destination config)
      in
      and_then (cpi_transfer env token_program deposit_vault_pda mint destination
                  governance_config_pda amount (mi_decimals mint_account) w) (\<lambda>w.
      let p = p\<lparr>pr_deposit_settled := True\<rparr> in
      Inr (emit_governance
        (ProposalDepositSettled (proposal_pda pid) pid (pr_proposer p) amount mint refunded
           destination (pr_quorum_met p) (pr_state p) (unix_timestamp sv))
        (put_proposal pid p w))))))))))))))"


section \<open>Executing a passed proposal\<close>

definition handle_update_config_parameter ::
  "env \<Rightarrow> sysvars \<Rightarrow> u64 \<Rightarrow> pubkey \<Rightarrow> string \<Rightarrow> u64 \<Rightarrow> 'z governance_chain_scheme
   \<Rightarrow> 'z governance_result" where
  "handle_update_config_parameter env sv pid target_program parameter_key new_value w =
     load_proposal env w pid (\<lambda>p.
     require (pr_state p = Accepted) (Program ProposalNotAccepted)
     (require (pr_category p = Parameter) (Program WrongCategoryForParameterUpdate)
     (require (\<not> pr_executed p) (Program AlreadyExecuted)
     (Inr (emit_governance
        (ConfigParameterChangeAuthorized (proposal_pda pid) pid target_program parameter_key
           new_value (unix_timestamp sv))
        (put_proposal pid (p\<lparr>pr_executed := True\<rparr>) w))))))"

definition handle_authorize_treasury_spend ::
  "env \<Rightarrow> sysvars \<Rightarrow> u64 \<Rightarrow> pubkey \<Rightarrow> u64 \<Rightarrow> 'z governance_chain_scheme \<Rightarrow> 'z governance_result" where
  "handle_authorize_treasury_spend env sv pid destination amount w =
     load_proposal env w pid (\<lambda>p.
     require (pr_state p = Accepted) (Program ProposalNotAccepted)
     (require (pr_category p = Treasury) (Program WrongCategoryForTreasurySpend)
     (require (\<not> pr_executed p) (Program AlreadyExecuted)
     (Inr (emit_governance
        (TreasurySpendAuthorized (proposal_pda pid) pid destination amount (unix_timestamp sv))
        (put_proposal pid (p\<lparr>pr_executed := True\<rparr>) w))))))"

definition handle_list_wallet ::
  "env \<Rightarrow> sysvars \<Rightarrow> u64 \<Rightarrow> pubkey \<Rightarrow> 'z governance_chain_scheme \<Rightarrow> 'z governance_result" where
  "handle_list_wallet env sv pid wallet w =
     load_governance_config env w (\<lambda>config.
     load_proposal env w pid (\<lambda>p.
     require (pr_category p = Standards) (Program WrongCategoryForBanAction)
     (load_proposal_action env w pid (\<lambda>a.
      require (gv_bans w wallet = None) AccountInUse
     (let now = unix_timestamp sv in
      require_executable p config now
     (case pa_action a of
        ListWallet target reason evidence_hash \<Rightarrow>
          require (target = wallet) (Program ProposalActionMismatch)
         (Inr (emit_governance
            (WalletListed wallet reason evidence_hash (proposal_pda pid) pid now)
            (put_proposal pid (p\<lparr>pr_executed := True\<rparr>)
            (put_ban env wallet
               \<lparr> br_wallet = wallet, br_reason = reason, br_evidence_hash = evidence_hash,
                 br_listed_at = now, br_authorizing_proposal = proposal_pda pid,
                 br_bump = bump_of env (ban_record_pda wallet) \<rparr> w))))
      | _ \<Rightarrow> Inl (Program ProposalActionMismatch)))))))"

definition handle_delist_wallet ::
  "env \<Rightarrow> sysvars \<Rightarrow> u64 \<Rightarrow> pubkey \<Rightarrow> 'z governance_chain_scheme \<Rightarrow> 'z governance_result" where
  "handle_delist_wallet env sv pid wallet w =
     load_governance_config env w (\<lambda>config.
     load_proposal env w pid (\<lambda>p.
     require (pr_category p = Standards) (Program WrongCategoryForBanAction)
     (load_proposal_action env w pid (\<lambda>a.
      ok_or (gv_bans w wallet) AccountNotInitialized (\<lambda>ban_record.
      require (br_bump ban_record = bump_of env (ban_record_pda wallet)) ConstraintSeeds
     (let now = unix_timestamp sv in
      require_executable p config now
     (case pa_action a of
        DelistWallet target \<Rightarrow>
          require (target = wallet) (Program ProposalActionMismatch)
         (Inr (emit_governance
            (WalletDelisted wallet (proposal_pda pid) pid (br_listed_at ban_record)
               (br_authorizing_proposal ban_record) now)
            (put_proposal pid (p\<lparr>pr_executed := True\<rparr>) (close_ban wallet w))))
      | _ \<Rightarrow> Inl (Program ProposalActionMismatch))))))))"

lemmas governance_handler_defs =
  handle_initialize_governance_config_def handle_initialize_emergency_authority_def
  handle_update_governance_config_def handle_create_proposal_def handle_link_offchain_proposal_def
  handle_cast_vote_def handle_tally_and_finalize_def handle_refund_or_forfeit_deposit_def
  handle_update_config_parameter_def handle_authorize_treasury_spend_def handle_list_wallet_def
  handle_delist_wallet_def

lemmas governance_guard_defs =
  require_executable_def require_valid_vote_lock_def require_vote_lock_change_allowed_def
  require_valid_bps_def write_emergency_authority_def governance_load_defs

end
