(* ===== verification/Governance_System.thy ===== *)
theory Governance_System
  imports Governance_Instructions
begin

text \<open>
  The governance program as a transition system: the dispatcher of \<open>programs/governance/src/lib.rs\<close>,
  its steps interleaved with those of the rest of the chain, and the invariant every reachable
  state satisfies: the deposit vault covers the unsettled deposits, a proposal's totals are the
  sums of its vote records, an accepted proposal passed its vote, and every ban was voted.
\<close>


section \<open>Steps\<close>

datatype governance_ix =
    IxInitializeGovernanceConfig pubkey pubkey pubkey InitializeGovernanceConfigParams
  | IxInitializeEmergencyAuthority
  | IxUpdateGovernanceConfig pubkey pubkey pubkey UpdateGovernanceConfigParams
  | IxCreateProposal pubkey pubkey pubkey pubkey u64 ProposalCategory "u8 list" "u8 list" i64
      GovernanceAction
  | IxLinkOffchainProposal pubkey u64 "u8 list"
  | IxCastVote pubkey u64 bool Role
  | IxTallyAndFinalize u64
  | IxRefundOrForfeitDeposit pubkey pubkey u64 pubkey
  | IxUpdateConfigParameter u64 pubkey string u64
  | IxAuthorizeTreasurySpend u64 pubkey u64
  | IxListWallet u64 pubkey
  | IxDelistWallet u64 pubkey

fun governance_dispatch ::
  "env \<Rightarrow> sysvars \<Rightarrow> governance_ix \<Rightarrow> 'z governance_chain_scheme \<Rightarrow> 'z governance_result" where
  "governance_dispatch env sv (IxInitializeGovernanceConfig admin mint tp params) w =
     handle_initialize_governance_config env sv admin mint tp params w"
| "governance_dispatch env sv IxInitializeEmergencyAuthority w =
     handle_initialize_emergency_authority env sv w"
| "governance_dispatch env sv (IxUpdateGovernanceConfig admin mint dest params) w =
     handle_update_governance_config env sv admin mint dest params w"
| "governance_dispatch env sv (IxCreateProposal proposer mint tp from pid category title summary
       period action) w =
     handle_create_proposal env sv proposer mint tp from pid category title summary period action w"
| "governance_dispatch env sv (IxLinkOffchainProposal proposer pid hash) w =
     handle_link_offchain_proposal env sv proposer pid hash w"
| "governance_dispatch env sv (IxCastVote voter pid in_favor role) w =
     handle_cast_vote env sv voter pid in_favor role w"
| "governance_dispatch env sv (IxTallyAndFinalize pid) w = handle_tally_and_finalize env sv pid w"
| "governance_dispatch env sv (IxRefundOrForfeitDeposit mint tp pid account) w =
     handle_refund_or_forfeit_deposit env sv mint tp pid account w"
| "governance_dispatch env sv (IxUpdateConfigParameter pid target key new_value) w =
     handle_update_config_parameter env sv pid target key new_value w"
| "governance_dispatch env sv (IxAuthorizeTreasurySpend pid dest amount) w =
     handle_authorize_treasury_spend env sv pid dest amount w"
| "governance_dispatch env sv (IxListWallet pid wallet) w = handle_list_wallet env sv pid wallet w"
| "governance_dispatch env sv (IxDelistWallet pid wallet) w =
     handle_delist_wallet env sv pid wallet w"

text \<open>The wallet that signs for tokens.\<close>

fun governance_signer :: "governance_ix \<Rightarrow> pubkey option" where
  "governance_signer (IxCreateProposal proposer _ _ _ _ _ _ _ _ _) = Some proposer"
| "governance_signer _ = None"

text \<open>What only the governance program writes; the account at a ban address it does not occupy
  can be given lamports by anyone, but never data or another owner.\<close>

definition governance_frame :: "'z governance_chain_scheme \<Rightarrow> 'z governance_chain_scheme \<Rightarrow> bool" where
  "governance_frame w w' \<longleftrightarrow> gv_config w' = gv_config w \<and> gv_emergency w' = gv_emergency w
     \<and> gv_proposals w' = gv_proposals w \<and> gv_actions w' = gv_actions w \<and> gv_votes w' = gv_votes w
     \<and> gv_bans w' = gv_bans w \<and> gv_log w' = gv_log w
     \<and> (\<forall>k. c_bans w' k = c_bans w k \<or> \<not> banned w k \<and> \<not> banned w' k)
     \<and> outside GovernanceProgram (c_tokens w) (c_tokens w')"

inductive governance_step ::
  "env \<Rightarrow> i64 \<times> 'z governance_chain_scheme \<Rightarrow> i64 \<times> 'z governance_chain_scheme \<Rightarrow> bool" for env where
  governance_step_ix:
    "\<lbrakk> t \<le> unix_timestamp sv; \<forall>k. governance_signer ix = Some k \<longrightarrow> \<not> signs_for GovernanceProgram k;
       governance_dispatch env sv ix w = Inr w' \<rbrakk>
     \<Longrightarrow> governance_step env (t, w) (unix_timestamp sv, w')"
| governance_step_outside:
    "\<lbrakk> t \<le> t'; governance_frame w w' \<rbrakk> \<Longrightarrow> governance_step env (t, w) (t', w')"

inductive_cases governance_stepE: "governance_step env (t, w) (t', w')"

definition governance_genesis :: "i64 \<times> 'z governance_chain_scheme \<Rightarrow> bool" where
  "governance_genesis s \<longleftrightarrow> gv_config (snd s) = None \<and> gv_emergency (snd s) = None
     \<and> gv_proposals (snd s) = Map.empty \<and> gv_actions (snd s) = Map.empty
     \<and> gv_votes (snd s) = Map.empty \<and> gv_bans (snd s) = Map.empty \<and> (\<forall>k. \<not> banned (snd s) k)
     \<and> (\<forall>k. signs_for GovernanceProgram k \<longrightarrow> c_tokens (snd s) k = None)"


section \<open>The invariant\<close>

definition governance_config_ok :: "env \<Rightarrow> GovernanceConfig \<Rightarrow> bool" where
  "governance_config_ok env c \<longleftrightarrow>
     unat (gc_quorum_bps c) \<le> 10000 \<and> unat (gc_quorum_upgrade_bps c) \<le> 10000
     \<and> unat (gc_threshold_simple_bps c) \<le> 10000 \<and> unat (gc_threshold_treasury_bps c) \<le> 10000
     \<and> unat (gc_threshold_upgrade_bps c) \<le> 10000
     \<and> 0 < gc_vote_lock_secs c \<and> gc_vote_lock_secs c \<le> MAX_VOTE_LOCK_SECS
     \<and> gc_bump c = bump_of env governance_config_pda
     \<and> gc_deposit_vault_bump c = bump_of env deposit_vault_pda"

definition deposit_vault_ok :: "env \<Rightarrow> GovernanceConfig option \<Rightarrow> ledger \<Rightarrow> bool" where
  "deposit_vault_ok env config L =
     (case config of
        None \<Rightarrow> L deposit_vault_pda = None
      | Some c \<Rightarrow> governance_config_ok env c
                  \<and> held L deposit_vault_pda (gc_mint c) governance_config_pda)"

definition emergency_ok :: "env \<Rightarrow> GovernanceConfig option \<Rightarrow> EmergencyAuthority option \<Rightarrow> bool" where
  "emergency_ok env config authority =
     (case authority of
        None \<Rightarrow> config = None
      | Some a \<Rightarrow> ea_expires_at a = ea_initialized_at a + FIRST_YEAR_SECS
                  \<and> ea_bump a = bump_of env emergency_authority_pda)"

text \<open>A proposal that passed its vote, on exact numbers.\<close>

definition votes_cast :: "Proposal \<Rightarrow> nat" where
  "votes_cast p = unat (pr_votes_for p) + unat (pr_votes_against p)"

definition passed :: "Proposal \<Rightarrow> bool" where
  "passed p \<longleftrightarrow> 0 < votes_cast p \<and> unat (pr_quorum_snapshot p) \<le> votes_cast p
     \<and> unat (pr_threshold_snapshot p) * votes_cast p \<le> 10000 * unat (pr_votes_for p)"

definition proposal_ok :: "env \<Rightarrow> (u64 \<rightharpoonup> ProposalAction) \<Rightarrow> u64 \<Rightarrow> Proposal \<Rightarrow> bool" where
  "proposal_ok env A pid p \<longleftrightarrow>
     pr_id p = pid \<and> pr_bump p = bump_of env (proposal_pda pid) \<and> pr_state p \<noteq> Draft
     \<and> (\<exists>a. A pid = Some a \<and> pa_proposal a = proposal_pda pid
          \<and> pa_bump a = bump_of env (proposal_action_pda pid)
          \<and> action_category_ok (pa_action a) (pr_category p))
     \<and> (pr_state p = Voting \<longrightarrow> \<not> pr_quorum_met p \<and> \<not> pr_executed p \<and> \<not> pr_deposit_settled p)
     \<and> (pr_state p = Accepted \<longrightarrow> pr_quorum_met p \<and> passed p)
     \<and> (pr_executed p \<longrightarrow> pr_state p = Accepted)"

definition proposals_inv ::
  "env \<Rightarrow> (u64 \<rightharpoonup> Proposal) \<Rightarrow> (u64 \<rightharpoonup> ProposalAction) \<Rightarrow> bool" where
  "proposals_inv env P A \<longleftrightarrow> (\<forall>pid p. P pid = Some p \<longrightarrow> proposal_ok env A pid p)
     \<and> (\<forall>pid. A pid \<noteq> None \<longrightarrow> P pid \<noteq> None)"

text \<open>A proposal's running totals against its vote records.\<close>

definition vote_total :: "(u64 \<times> pubkey \<rightharpoonup> VoteRecord) \<Rightarrow> u64 \<Rightarrow> bool \<Rightarrow> nat" where
  "vote_total V pid in_favor =
     map_total (\<lambda>v. if vr_in_favor v = in_favor then unat (vr_weight v) else 0) (\<lambda>voter. V (pid, voter))"

definition votes_inv :: "(u64 \<rightharpoonup> Proposal) \<Rightarrow> (u64 \<times> pubkey \<rightharpoonup> VoteRecord) \<Rightarrow> bool" where
  "votes_inv P V \<longleftrightarrow>
     (\<forall>pid. finite (dom (\<lambda>voter. V (pid, voter))))
     \<and> (\<forall>pid. case P pid of
           None \<Rightarrow> \<forall>voter. V (pid, voter) = None
         | Some p \<Rightarrow> unat (pr_votes_for p) = vote_total V pid True
                     \<and> unat (pr_votes_against p) = vote_total V pid False)"

definition unsettled_deposit :: "Proposal option \<Rightarrow> nat" where
  "unsettled_deposit x = (case x of None \<Rightarrow> 0
     | Some p \<Rightarrow> if pr_deposit_settled p then 0 else unat (pr_stake_deposit p))"

definition deposits_inv :: "(u64 \<rightharpoonup> Proposal) \<Rightarrow> ledger \<Rightarrow> bool" where
  "deposits_inv P L \<longleftrightarrow> (\<Sum>pid\<in>UNIV. unsettled_deposit (P pid)) \<le> balance L deposit_vault_pda"

definition voted_ban ::
  "(u64 \<rightharpoonup> Proposal) \<Rightarrow> (u64 \<rightharpoonup> ProposalAction) \<Rightarrow> pubkey \<Rightarrow> BanRecord \<Rightarrow> bool" where
  "voted_ban P A k r \<longleftrightarrow>
     (\<exists>pid p a. br_authorizing_proposal r = proposal_pda pid \<and> P pid = Some p
        \<and> pr_state p = Accepted \<and> pr_executed p \<and> pr_voting_ends_at p < br_listed_at r
        \<and> A pid = Some a \<and> pa_action a = ListWallet k (br_reason r) (br_evidence_hash r))"

definition bans_inv ::
  "env \<Rightarrow> (u64 \<rightharpoonup> Proposal) \<Rightarrow> (u64 \<rightharpoonup> ProposalAction) \<Rightarrow> (pubkey \<rightharpoonup> BanRecord)
   \<Rightarrow> (pubkey \<Rightarrow> raw_account) \<Rightarrow> bool" where
  "bans_inv env P A B raw \<longleftrightarrow>
     (\<forall>k. case B k of
        None \<Rightarrow> \<not> wallet_is_banned (raw k)
      | Some r \<Rightarrow> br_wallet r = k \<and> br_bump r = bump_of env (ban_record_pda k)
          \<and> raw k = \<lparr> ra_owner = GOVERNANCE_PROGRAM_ID, ra_data = ban_record_bytes env r \<rparr>
          \<and> voted_ban P A k r)"

definition governance_inv :: "env \<Rightarrow> 'z governance_chain_scheme \<Rightarrow> bool" where
  "governance_inv env w \<longleftrightarrow>
     deposit_vault_ok env (gv_config w) (c_tokens w)
     \<and> emergency_ok env (gv_config w) (gv_emergency w)
     \<and> proposals_inv env (gv_proposals w) (gv_actions w)
     \<and> votes_inv (gv_proposals w) (gv_votes w)
     \<and> deposits_inv (gv_proposals w) (c_tokens w)
     \<and> bans_inv env (gv_proposals w) (gv_actions w) (gv_bans w) (c_bans w)
     \<and> (gv_config w = None \<longrightarrow> gv_proposals w = Map.empty)"


lemmas governance_invD = governance_inv_def [THEN iffD1, THEN conjunct1]
  governance_inv_def [THEN iffD1, THEN conjunct2, THEN conjunct1]
  governance_inv_def [THEN iffD1, THEN conjunct2, THEN conjunct2, THEN conjunct1]
  governance_inv_def [THEN iffD1, THEN conjunct2, THEN conjunct2, THEN conjunct2, THEN conjunct1]
  governance_inv_def [THEN iffD1, THEN conjunct2, THEN conjunct2, THEN conjunct2, THEN conjunct2,
    THEN conjunct1]
  governance_inv_def [THEN iffD1, THEN conjunct2, THEN conjunct2, THEN conjunct2, THEN conjunct2,
    THEN conjunct2, THEN conjunct1]

lemma governance_inv_proposal:
  "governance_inv env w \<Longrightarrow> gv_proposals w pid = Some p \<Longrightarrow> proposal_ok env (gv_actions w) pid p"
  by (simp add: governance_inv_def proposals_inv_def)

lemma governance_inv_configured:
  "governance_inv env w \<Longrightarrow> gv_proposals w pid = Some p \<Longrightarrow> \<exists>c. gv_config w = Some c"
  by (auto simp: governance_inv_def)


section \<open>One proposal changes\<close>

lemma proposals_inv_put:
  assumes "proposals_inv env P A" and "P pid = Some p" and "proposal_ok env A pid p'"
  shows "proposals_inv env (P(pid \<mapsto> p')) A"
  using assms by (auto simp: proposals_inv_def)

lemma votes_inv_put:
  assumes "votes_inv P V" and "P pid = Some p"
    and "pr_votes_for p' = pr_votes_for p" and "pr_votes_against p' = pr_votes_against p"
  shows "votes_inv (P(pid \<mapsto> p')) V"
  using assms by (force simp: votes_inv_def split: option.splits)

lemma deposits_put:
  fixes P :: "u64 \<rightharpoonup> Proposal"
  shows "(\<Sum>i\<in>UNIV. unsettled_deposit ((P(pid \<mapsto> p')) i)) + unsettled_deposit (P pid)
     = (\<Sum>i\<in>UNIV. unsettled_deposit (P i)) + unsettled_deposit (Some p')"
  using sum_upd [of "\<lambda>_. unsettled_deposit" P pid "Some p'"] by simp

text \<open>A proposal that has acted stays the authority of its ban.\<close>

definition keeps_authority :: "Proposal \<Rightarrow> Proposal \<Rightarrow> bool" where
  "keeps_authority p p' \<longleftrightarrow> (pr_state p = Accepted \<and> pr_executed p \<longrightarrow>
     pr_state p' = Accepted \<and> pr_executed p' \<and> pr_voting_ends_at p' = pr_voting_ends_at p)"

lemma voted_ban_put:
  assumes "voted_ban P A k r" and "\<And>p. P pid = Some p \<Longrightarrow> keeps_authority p p'"
  shows "voted_ban (P(pid \<mapsto> p')) A k r"
  using assms unfolding voted_ban_def keeps_authority_def by (fastforce split: if_splits)

lemma bans_inv_mono:
  assumes "bans_inv env P A B raw" and "\<And>k r. voted_ban P A k r \<Longrightarrow> voted_ban P' A' k r"
  shows "bans_inv env P' A' B raw"
  unfolding bans_inv_def
proof
  fix k
  show "case B k of None \<Rightarrow> \<not> wallet_is_banned (raw k)
      | Some r \<Rightarrow> br_wallet r = k \<and> br_bump r = bump_of env (ban_record_pda k)
          \<and> raw k = \<lparr> ra_owner = GOVERNANCE_PROGRAM_ID, ra_data = ban_record_bytes env r \<rparr>
          \<and> voted_ban P' A' k r"
    using assms(1) [unfolded bans_inv_def, rule_format, of k] assms(2)
    by (auto split: option.splits)
qed

lemma bans_inv_put:
  assumes "bans_inv env P A B raw" and "\<And>p. P pid = Some p \<Longrightarrow> keeps_authority p p'"
  shows "bans_inv env (P(pid \<mapsto> p')) A B raw"
  using assms(1) by (rule bans_inv_mono) (erule voted_ban_put [OF _ assms(2)])

lemma governance_inv_put:
  assumes inv: "governance_inv env w" and p: "gv_proposals w pid = Some p"
    and ok: "proposal_ok env (gv_actions w) pid p'"
    and votes: "pr_votes_for p' = pr_votes_for p" "pr_votes_against p' = pr_votes_against p"
    and deposit: "unsettled_deposit (Some p') = unsettled_deposit (Some p)"
    and authority: "keeps_authority p p'"
    and w': "gv_config w' = gv_config w" "gv_emergency w' = gv_emergency w"
      "gv_proposals w' = (gv_proposals w)(pid \<mapsto> p')" "gv_actions w' = gv_actions w"
      "gv_votes w' = gv_votes w" "gv_bans w' = gv_bans w" "c_bans w' = c_bans w"
      "c_tokens w' = c_tokens w"
  shows "governance_inv env w'"
  using governance_invD [OF inv] governance_inv_configured [OF inv p] p authority
    proposals_inv_put [OF governance_invD(3) [OF inv] p ok]
    votes_inv_put [OF governance_invD(4) [OF inv] p votes]
    bans_inv_put [OF governance_invD(6) [OF inv], of pid p']
    deposits_put [of "gv_proposals w" pid p'] deposit
  by (auto simp: governance_inv_def w' deposits_inv_def)


section \<open>Every instruction preserves the invariant\<close>

lemma executable_accepted:
  "require_executable p c now k = Inr x \<longleftrightarrow>
     pr_state p = Accepted \<and> pr_quorum_met p \<and> \<not> pr_executed p
     \<and> in_i64 (pr_voting_ends_at p + gc_vote_lock_secs c)
     \<and> pr_voting_ends_at p + gc_vote_lock_secs c \<le> now \<and> k = Inr x"
  by (auto simp: require_executable_def checked_add_i64_Some)

lemma initialize_governance_config_inv:
  assumes inv: "governance_inv env w"
    and ok: "handle_initialize_governance_config env sv admin mint tp params w = Inr w'"
  shows "governance_inv env w'"
proof -
  from ok have none: "gv_config w = None"
    by (auto simp: handle_initialize_governance_config_def load_mint_def)
  with inv have e: "gv_proposals w = Map.empty" by (simp add: governance_inv_def)
  from ok inv none e show ?thesis
    by (auto simp: handle_initialize_governance_config_def governance_guard_defs init_token_def
        governance_inv_def deposit_vault_ok_def emergency_ok_def governance_config_ok_def
        deposits_inv_def unsettled_deposit_def held_def Let_def governance_world_simps
        checked_add_i64_Some GOVERNANCE_BPS_DENOMINATOR_def word_le_nat_alt)
qed

lemma initialize_emergency_authority_inv:
  assumes "governance_inv env w" and "handle_initialize_emergency_authority env sv w = Inr w'"
  shows "governance_inv env w'"
  using assms
  by (auto simp: handle_initialize_emergency_authority_def write_emergency_authority_def
      governance_inv_def emergency_ok_def governance_world_simps checked_add_i64_Some)

lemma update_governance_config_inv:
  assumes "governance_inv env w"
    and "handle_update_governance_config env sv admin mint dest params w = Inr w'"
  shows "governance_inv env w'"
  using assms
  by (auto simp: handle_update_governance_config_def governance_guard_defs governance_inv_def
      deposit_vault_ok_def emergency_ok_def governance_config_ok_def Let_def governance_world_simps
      GOVERNANCE_BPS_DENOMINATOR_def word_le_nat_alt split: if_splits)

lemma link_offchain_proposal_inv:
  assumes inv: "governance_inv env w"
    and ok: "handle_link_offchain_proposal env sv proposer pid hash w = Inr w'"
  shows "governance_inv env w'"
proof -
  from ok obtain p where p: "gv_proposals w pid = Some p" "pr_state p = Voting"
      and w': "w' = emit_governance (OffchainProposalLinked (proposal_pda pid) pid hash (unix_timestamp sv))
        (put_proposal pid (p\<lparr>pr_offchain_id_hash := hash\<rparr>) w)"
    by (auto simp: handle_link_offchain_proposal_def load_proposal_def)
  from governance_inv_proposal [OF inv p(1)] p(2)
  show ?thesis
    by (intro governance_inv_put [OF inv p(1), of "p\<lparr>pr_offchain_id_hash := hash\<rparr>"])
       (auto simp: w' governance_world_simps proposal_ok_def unsettled_deposit_def
         keeps_authority_def)
qed

lemma record_execution_inv:
  assumes inv: "governance_inv env w" and p: "gv_proposals w pid = Some p" "pr_state p = Accepted"
    and w': "w' = emit_governance event (put_proposal pid (p\<lparr>pr_executed := True\<rparr>) w)"
  shows "governance_inv env w'"
  using governance_inv_proposal [OF inv p(1)] p(2)
  by (intro governance_inv_put [OF inv p(1), of "p\<lparr>pr_executed := True\<rparr>"])
     (auto simp: w' governance_world_simps proposal_ok_def unsettled_deposit_def
       keeps_authority_def passed_def votes_cast_def)

lemma update_config_parameter_inv:
  assumes inv: "governance_inv env w"
    and ok: "handle_update_config_parameter env sv pid target key new_value w = Inr w'"
  shows "governance_inv env w'"
  using ok by (auto simp: handle_update_config_parameter_def load_proposal_def
      intro: record_execution_inv [OF inv])

lemma authorize_treasury_spend_inv:
  assumes inv: "governance_inv env w"
    and ok: "handle_authorize_treasury_spend env sv pid dest amount w = Inr w'"
  shows "governance_inv env w'"
  using ok by (auto simp: handle_authorize_treasury_spend_def load_proposal_def
      intro: record_execution_inv [OF inv])


lemma votes_for_bps_threshold:
  assumes "checked_add (pr_votes_for p) (pr_votes_against p) = Some tot" and "tot \<noteq> 0"
  shows "\<exists>bps. votes_for_bps p tot = Some bps
     \<and> (ucast (pr_threshold_snapshot p) \<le> bps
        \<longleftrightarrow> unat (pr_threshold_snapshot p) * votes_cast p \<le> 10000 * unat (pr_votes_for p))"
proof -
  let ?n = "unat (pr_votes_for p) * 10000"
  have pos: "0 < unat tot" using assms(2) by (simp add: unat_gt_0)
  have tot: "unat tot = votes_cast p" using assms(1) by (simp add: checked_add_Some votes_cast_def)
  have small: "?n < 2 ^ 128"
    using unat_u64_bound [of "pr_votes_for p"] by simp
  have mul: "unat (ucast (pr_votes_for p) * ucast GOVERNANCE_BPS_DENOMINATOR :: u128) = ?n"
    using small by (simp add: GOVERNANCE_BPS_DENOMINATOR_def unat_word_ariths)
  have "(ucast tot :: u128) \<noteq> 0" using pos by (metis unat_0 unat_ucast_u64_u128 less_irrefl)
  then have "votes_for_bps p tot
      = Some (ucast (pr_votes_for p) * ucast GOVERNANCE_BPS_DENOMINATOR div ucast tot)"
    using small
    by (simp add: votes_for_bps_def checked_mul_def checked_div_def GOVERNANCE_BPS_DENOMINATOR_def)
  moreover have "unat (ucast (pr_votes_for p) * ucast GOVERNANCE_BPS_DENOMINATOR div ucast tot :: u128)
      = ?n div votes_cast p"
    by (simp add: unat_div mul tot)
  moreover have "unat (pr_threshold_snapshot p) \<le> ?n div votes_cast p
      \<longleftrightarrow> unat (pr_threshold_snapshot p) * votes_cast p \<le> ?n"
    using tot pos by (simp add: less_eq_div_iff_mult_less_eq)
  ultimately show ?thesis
    by (auto simp: word_le_nat_alt ac_simps)
qed

lemma tallyE:
  assumes "handle_tally_and_finalize env sv pid w = Inr w'"
  obtains p tot where "gv_proposals w pid = Some p" and "pr_state p = Voting"
    and "pr_voting_ends_at p \<le> unix_timestamp sv"
    and "checked_add (pr_votes_for p) (pr_votes_against p) = Some tot"
    and "w' = emit_governance
        (ProposalFinalized (proposal_pda pid) pid (pr_category p) (pr_votes_for p)
           (pr_votes_against p) tot (pr_quorum_snapshot p) (pr_threshold_snapshot p)
           (pr_quorum_snapshot p \<le> tot) (if passed p then Accepted else Rejected) (unix_timestamp sv))
        (put_proposal pid (p\<lparr>pr_quorum_met := pr_quorum_snapshot p \<le> tot,
           pr_state := if passed p then Accepted else Rejected\<rparr>) w)"
proof -
  from assms obtain p tot accepted where p: "gv_proposals w pid = Some p" "pr_state p = Voting"
      "pr_voting_ends_at p \<le> unix_timestamp sv"
      "checked_add (pr_votes_for p) (pr_votes_against p) = Some tot"
    and acc: "(if \<not> pr_quorum_snapshot p \<le> tot \<or> tot = 0 then Inr False
         else ok_or (votes_for_bps p tot) (Program Overflow) (\<lambda>for_bps.
                Inr (ucast (pr_threshold_snapshot p) \<le> for_bps))) = (Inr accepted :: GovernanceErrorCode tx_error + bool)"
    and w': "w' = emit_governance
        (ProposalFinalized (proposal_pda pid) pid (pr_category p) (pr_votes_for p)
           (pr_votes_against p) tot (pr_quorum_snapshot p) (pr_threshold_snapshot p)
           (pr_quorum_snapshot p \<le> tot) (if accepted then Accepted else Rejected) (unix_timestamp sv))
        (put_proposal pid (p\<lparr>pr_quorum_met := pr_quorum_snapshot p \<le> tot,
           pr_state := if accepted then Accepted else Rejected\<rparr>) w)"
    by (auto simp: handle_tally_and_finalize_def load_proposal_def Let_def)
  have tot: "unat tot = votes_cast p" using p(4) by (simp add: checked_add_Some votes_cast_def)
  have "accepted = passed p"
  proof (cases "tot = 0")
    case True
    with acc tot show ?thesis by (auto simp: passed_def)
  next
    case False
    then have "0 < votes_cast p" using tot by (simp add: unat_gt_0 flip: tot)
    with acc votes_for_bps_threshold [OF p(4) False] tot show ?thesis
      by (auto simp: passed_def word_le_nat_alt split: if_splits)
  qed
  with p w' that show thesis by blast
qed

lemma tally_and_finalize_inv:
  assumes inv: "governance_inv env w" and ok: "handle_tally_and_finalize env sv pid w = Inr w'"
  shows "governance_inv env w'"
  using ok
proof (rule tallyE)
  fix p tot
  let ?p = "p\<lparr>pr_quorum_met := pr_quorum_snapshot p \<le> tot,
     pr_state := if passed p then Accepted else Rejected\<rparr>"
  assume p: "gv_proposals w pid = Some p" "pr_state p = Voting"
    and tot: "checked_add (pr_votes_for p) (pr_votes_against p) = Some tot"
    and w': "w' = emit_governance
        (ProposalFinalized (proposal_pda pid) pid (pr_category p) (pr_votes_for p)
           (pr_votes_against p) tot (pr_quorum_snapshot p) (pr_threshold_snapshot p)
           (pr_quorum_snapshot p \<le> tot) (if passed p then Accepted else Rejected) (unix_timestamp sv))
        (put_proposal pid ?p w)"
  have "passed ?p = passed p" by (simp add: passed_def votes_cast_def)
  moreover have "passed p \<longrightarrow> pr_quorum_snapshot p \<le> tot"
    using tot by (auto simp: passed_def votes_cast_def checked_add_Some word_le_nat_alt)
  ultimately have "proposal_ok env (gv_actions w) pid ?p"
    using governance_inv_proposal [OF inv p(1)] p(2) by (auto simp: proposal_ok_def)
  then show ?thesis
    by (rule governance_inv_put [OF inv p(1)])
       (use p in \<open>auto simp: w' governance_world_simps unsettled_deposit_def keeps_authority_def\<close>)
qed


lemma vote_total_upd:
  assumes "finite (dom (\<lambda>voter. V (pid, voter)))" and "V (pid, voter) = None"
  shows "vote_total (V((pid, voter) \<mapsto> v)) i b
     = vote_total V i b + (if i = pid \<and> vr_in_favor v = b then unat (vr_weight v) else 0)"
proof (cases "i = pid")
  case True
  have upd: "(\<lambda>k. (V((pid, voter) \<mapsto> v)) (pid, k)) = (\<lambda>k. V (pid, k))(voter \<mapsto> v)" by auto
  show ?thesis
    using map_total_upd [OF assms(1), of "\<lambda>v. if vr_in_favor v = b then unat (vr_weight v) else 0" voter v]
      assms(2) True
    by (simp only: vote_total_def upd) simp
next
  case False
  then have "(\<lambda>k. (V((pid, voter) \<mapsto> v)) (i, k)) = (\<lambda>k. V (i, k))" by auto
  with False show ?thesis by (simp only: vote_total_def) simp
qed

lemma cast_voteE:
  assumes "handle_cast_vote env sv voter pid in_favor role w = Inr w'"
  obtains c p sc stake n locked where "gv_config w = Some c" and "gv_proposals w pid = Some p"
    and "pr_state p = Voting" and "unix_timestamp sv < pr_voting_ends_at p"
    and "sk_config w = Some sc" and "sk_stakes w (voter, role) = Some stake"
    and "gv_votes w (pid, voter) = None"
    and "unat n = unat (if in_favor then pr_votes_for p else pr_votes_against p)
           + unat (effective_stake stake sc)"
    and "gv_config w' = gv_config w" and "gv_emergency w' = gv_emergency w"
    and "gv_actions w' = gv_actions w" and "gv_bans w' = gv_bans w" and "c_bans w' = c_bans w"
    and "c_tokens w' = c_tokens w"
    and "gv_proposals w' = (gv_proposals w)(pid \<mapsto>
           (if in_favor then p\<lparr>pr_votes_for := n\<rparr> else p\<lparr>pr_votes_against := n\<rparr>))"
    and "gv_votes w' = (gv_votes w)((pid, voter) \<mapsto>
           \<lparr> vr_proposal = proposal_pda pid, vr_voter = voter, vr_weight = effective_stake stake sc,
             vr_in_favor = in_favor, vr_locked_until = locked,
             vr_bump = bump_of env (vote_record_pda pid voter) \<rparr>)"
  using assms
  by (cases in_favor)
     (auto simp: handle_cast_vote_def governance_load_defs load_config_def Let_def checked_add_Some
       governance_world_simps)

lemma cast_vote_inv:
  assumes inv: "governance_inv env w"
    and ok: "handle_cast_vote env sv voter pid in_favor role w = Inr w'"
  shows "governance_inv env w'"
  using ok
proof (rule cast_voteE)
  fix c and p :: Proposal and sc stake and n :: u64 and locked
  let ?p = "if in_favor then p\<lparr>pr_votes_for := n\<rparr> else p\<lparr>pr_votes_against := n\<rparr>"
    and ?v = "\<lparr> vr_proposal = proposal_pda pid, vr_voter = voter,
      vr_weight = effective_stake stake sc, vr_in_favor = in_favor, vr_locked_until = locked,
      vr_bump = bump_of env (vote_record_pda pid voter) \<rparr>"
  assume p: "gv_proposals w pid = Some p" "pr_state p = Voting" and new: "gv_votes w (pid, voter) = None"
    and n: "unat n = unat (if in_favor then pr_votes_for p else pr_votes_against p)
           + unat (effective_stake stake sc)"
    and w': "gv_config w' = gv_config w" "gv_emergency w' = gv_emergency w"
      "gv_actions w' = gv_actions w" "gv_bans w' = gv_bans w" "c_bans w' = c_bans w"
      "c_tokens w' = c_tokens w" "gv_proposals w' = (gv_proposals w)(pid \<mapsto> ?p)"
      "gv_votes w' = (gv_votes w)((pid, voter) \<mapsto> ?v)"
  note inv = inv governance_invD [OF inv]
  have ok: "proposal_ok env (gv_actions w) pid ?p"
    using governance_inv_proposal [OF inv(1) p(1)] p(2) by (auto simp: proposal_ok_def)
  have fin: "finite (dom (\<lambda>k. gv_votes w (i, k)))" for i using inv(5) by (simp add: votes_inv_def)
  have "votes_inv (gv_proposals w') (gv_votes w')"
    unfolding votes_inv_def
  proof (intro conjI allI)
    fix i
    have "dom (\<lambda>k. gv_votes w' (i, k)) \<subseteq> insert voter (dom (\<lambda>k. gv_votes w (i, k)))"
      by (auto simp: w' split: if_splits)
    then show "finite (dom (\<lambda>k. gv_votes w' (i, k)))" by (rule finite_subset) (simp add: fin)
    show "case gv_proposals w' i of None \<Rightarrow> \<forall>k. gv_votes w' (i, k) = None
        | Some p \<Rightarrow> unat (pr_votes_for p) = vote_total (gv_votes w') i True
                    \<and> unat (pr_votes_against p) = vote_total (gv_votes w') i False"
      using inv(5) [unfolded votes_inv_def, THEN conjunct2, rule_format, of i] p(1) n
      by (cases in_favor; cases "gv_proposals w i")
         (auto simp: w' vote_total_upd [OF fin new])
  qed
  moreover have "unsettled_deposit (Some ?p) = unsettled_deposit (gv_proposals w pid)"
    by (simp add: unsettled_deposit_def p(1))
  moreover have "keeps_authority p ?p" using p(2) by (simp add: keeps_authority_def)
  ultimately show ?thesis
    using inv proposals_inv_put [OF inv(4) p(1) ok] bans_inv_put [OF inv(7), of pid ?p] p(1)
      deposits_put [of "gv_proposals w" pid ?p] governance_inv_configured [OF inv(1) p(1)]
    by (auto simp: governance_inv_def w'(1-6) deposits_inv_def) (simp_all add: w')
qed


lemma bans_inv_change:
  assumes "bans_inv env P A B raw"
    and "\<And>k. k \<noteq> wallet \<Longrightarrow> B' k = B k \<and> raw' k = raw k"
    and "\<And>k r. voted_ban P A k r \<Longrightarrow> voted_ban P' A' k r"
    and "case B' wallet of None \<Rightarrow> \<not> wallet_is_banned (raw' wallet)
      | Some r \<Rightarrow> br_wallet r = wallet \<and> br_bump r = bump_of env (ban_record_pda wallet)
          \<and> raw' wallet = \<lparr> ra_owner = GOVERNANCE_PROGRAM_ID, ra_data = ban_record_bytes env r \<rparr>
          \<and> voted_ban P' A' wallet r"
  shows "bans_inv env P' A' B' raw'"
  unfolding bans_inv_def
proof
  fix k
  show "case B' k of None \<Rightarrow> \<not> wallet_is_banned (raw' k)
      | Some r \<Rightarrow> br_wallet r = k \<and> br_bump r = bump_of env (ban_record_pda k)
          \<and> raw' k = \<lparr> ra_owner = GOVERNANCE_PROGRAM_ID, ra_data = ban_record_bytes env r \<rparr>
          \<and> voted_ban P' A' k r"
  proof (cases "k = wallet")
    case False
    with assms(2) have "B' k = B k" "raw' k = raw k" by auto
    then show ?thesis
      using assms(1) [unfolded bans_inv_def, rule_format, of k] assms(3)
      by (simp split: option.splits)
  next
    case True
    show ?thesis unfolding True by (rule assms(4))
  qed
qed

text \<open>Listing and delisting: the proposal is spent and one ban address changes.\<close>

lemma execute_ban_inv:
  assumes inv: "governance_inv env w" and p: "gv_proposals w pid = Some p" "pr_state p = Accepted"
    and ban: "bans_inv env ((gv_proposals w)(pid \<mapsto> p\<lparr>pr_executed := True\<rparr>)) (gv_actions w)
        (gv_bans w') (c_bans w')"
    and w': "gv_config w' = gv_config w" "gv_emergency w' = gv_emergency w"
      "gv_proposals w' = (gv_proposals w)(pid \<mapsto> p\<lparr>pr_executed := True\<rparr>)"
      "gv_actions w' = gv_actions w" "gv_votes w' = gv_votes w" "c_tokens w' = c_tokens w"
  shows "governance_inv env w'"
proof -
  have "governance_inv env (put_proposal pid (p\<lparr>pr_executed := True\<rparr>) w)"
    using record_execution_inv [OF inv p refl, of "WalletDelisted default_pubkey default_pubkey 0 0
        default_pubkey 0"]
    by (simp add: governance_inv_def emit_governance_def)
  with ban show ?thesis by (simp add: governance_inv_def put_proposal_def w')
qed

lemma list_walletE:
  assumes "handle_list_wallet env sv pid wallet w = Inr w'"
  obtains c p a reason evidence where "gv_config w = Some c" and "gv_proposals w pid = Some p"
    and "pr_state p = Accepted" and "pr_quorum_met p" and "\<not> pr_executed p"
    and "pr_voting_ends_at p + gc_vote_lock_secs c \<le> unix_timestamp sv"
    and "gv_actions w pid = Some a" and "pa_action a = ListWallet wallet reason evidence"
    and "gv_bans w wallet = None"
    and "w' = emit_governance (WalletListed wallet reason evidence (proposal_pda pid) pid (unix_timestamp sv))
       (put_proposal pid (p\<lparr>pr_executed := True\<rparr>)
       (put_ban env wallet
         \<lparr> br_wallet = wallet, br_reason = reason, br_evidence_hash = evidence,
           br_listed_at = unix_timestamp sv, br_authorizing_proposal = proposal_pda pid,
           br_bump = bump_of env (ban_record_pda wallet) \<rparr> w))"
proof -
  from assms obtain c p a reason evidence where "gv_config w = Some c" "gv_proposals w pid = Some p"
      "gv_actions w pid = Some a" "pa_action a = ListWallet wallet reason evidence"
      "gv_bans w wallet = None"
    and "require_executable p c (unix_timestamp sv) (Inr (emit_governance
        (WalletListed wallet reason evidence (proposal_pda pid) pid (unix_timestamp sv))
       (put_proposal pid (p\<lparr>pr_executed := True\<rparr>)
       (put_ban env wallet
         \<lparr> br_wallet = wallet, br_reason = reason, br_evidence_hash = evidence,
           br_listed_at = unix_timestamp sv, br_authorizing_proposal = proposal_pda pid,
           br_bump = bump_of env (ban_record_pda wallet) \<rparr> w)))) = Inr w'"
    unfolding handle_list_wallet_def load_governance_config_def load_proposal_def
      load_proposal_action_def Let_def
    by (cases "gv_actions w pid"; cases "pa_action (the (gv_actions w pid))") (auto simp: executable_accepted)
  with that show thesis unfolding executable_accepted by (metis Inr_inject)
qed

lemma delist_walletE:
  assumes "handle_delist_wallet env sv pid wallet w = Inr w'"
  obtains c p a r where "gv_config w = Some c" and "gv_proposals w pid = Some p"
    and "pr_state p = Accepted" and "pr_quorum_met p" and "\<not> pr_executed p"
    and "pr_voting_ends_at p + gc_vote_lock_secs c \<le> unix_timestamp sv"
    and "gv_actions w pid = Some a" and "pa_action a = DelistWallet wallet"
    and "gv_bans w wallet = Some r"
    and "w' = emit_governance (WalletDelisted wallet (proposal_pda pid) pid (br_listed_at r)
         (br_authorizing_proposal r) (unix_timestamp sv))
       (put_proposal pid (p\<lparr>pr_executed := True\<rparr>) (close_ban wallet w))"
proof -
  from assms obtain c p a r where "gv_config w = Some c" "gv_proposals w pid = Some p"
      "gv_actions w pid = Some a" "pa_action a = DelistWallet wallet" "gv_bans w wallet = Some r"
    and "require_executable p c (unix_timestamp sv) (Inr (emit_governance
        (WalletDelisted wallet (proposal_pda pid) pid (br_listed_at r) (br_authorizing_proposal r)
           (unix_timestamp sv))
       (put_proposal pid (p\<lparr>pr_executed := True\<rparr>) (close_ban wallet w)))) = Inr w'"
    unfolding handle_delist_wallet_def load_governance_config_def load_proposal_def
      load_proposal_action_def Let_def
    by (cases "gv_actions w pid"; cases "pa_action (the (gv_actions w pid))") (auto simp: executable_accepted)
  with that show thesis unfolding executable_accepted by (metis Inr_inject)
qed

lemma governance_inv_lock:
  "governance_inv env w \<Longrightarrow> gv_config w = Some c \<Longrightarrow> 0 < gc_vote_lock_secs c"
  by (simp add: governance_inv_def deposit_vault_ok_def governance_config_ok_def)

lemma list_wallet_inv:
  assumes inv: "governance_inv env w" and ok: "handle_list_wallet env sv pid wallet w = Inr w'"
  shows "governance_inv env w'"
  using ok
proof (rule list_walletE)
  fix c p a reason evidence
  let ?P = "(gv_proposals w)(pid \<mapsto> p\<lparr>pr_executed := True\<rparr>)"
    and ?r = "\<lparr> br_wallet = wallet, br_reason = reason, br_evidence_hash = evidence,
      br_listed_at = unix_timestamp sv, br_authorizing_proposal = proposal_pda pid,
      br_bump = bump_of env (ban_record_pda wallet) \<rparr>"
  assume c: "gv_config w = Some c" and p: "gv_proposals w pid = Some p" "pr_state p = Accepted"
      "\<not> pr_executed p" "pr_voting_ends_at p + gc_vote_lock_secs c \<le> unix_timestamp sv"
    and a: "gv_actions w pid = Some a" "pa_action a = ListWallet wallet reason evidence"
    and w': "w' = emit_governance (WalletListed wallet reason evidence (proposal_pda pid) pid (unix_timestamp sv))
       (put_proposal pid (p\<lparr>pr_executed := True\<rparr>) (put_ban env wallet ?r w))"
  have "voted_ban ?P (gv_actions w) wallet ?r"
    unfolding voted_ban_def using p a governance_inv_lock [OF inv c]
    by (intro exI [of _ pid] exI [of _ "p\<lparr>pr_executed := True\<rparr>"] exI [of _ a]) simp
  moreover have "voted_ban (gv_proposals w) (gv_actions w) k r \<Longrightarrow> voted_ban ?P (gv_actions w) k r" for k r
    by (erule voted_ban_put) (simp add: keeps_authority_def p)
  ultimately have "bans_inv env ?P (gv_actions w) (gv_bans w') (c_bans w')"
    by (intro bans_inv_change [OF governance_invD(6) [OF inv], where wallet = wallet])
       (auto simp: w' governance_world_simps)
  then show ?thesis
    by (rule execute_ban_inv [OF inv p(1,2)]) (simp_all add: w' governance_world_simps)
qed

lemma delist_wallet_inv:
  assumes inv: "governance_inv env w" and ok: "handle_delist_wallet env sv pid wallet w = Inr w'"
  shows "governance_inv env w'"
  using ok
proof (rule delist_walletE)
  fix p :: Proposal and r :: BanRecord
  let ?P = "(gv_proposals w)(pid \<mapsto> p\<lparr>pr_executed := True\<rparr>)"
  assume p: "gv_proposals w pid = Some p" "pr_state p = Accepted" "\<not> pr_executed p"
    and w': "w' = emit_governance (WalletDelisted wallet (proposal_pda pid) pid (br_listed_at r)
         (br_authorizing_proposal r) (unix_timestamp sv))
       (put_proposal pid (p\<lparr>pr_executed := True\<rparr>) (close_ban wallet w))"
  have "voted_ban (gv_proposals w) (gv_actions w) k r \<Longrightarrow> voted_ban ?P (gv_actions w) k r" for k r
    by (erule voted_ban_put) (simp add: keeps_authority_def p)
  then have "bans_inv env ?P (gv_actions w) (gv_bans w') (c_bans w')"
    by (intro bans_inv_change [OF governance_invD(6) [OF inv], where wallet = wallet])
       (auto simp: w' governance_world_simps)
  then show ?thesis
    by (rule execute_ban_inv [OF inv p(1,2)]) (simp_all add: w' governance_world_simps)
qed


lemma create_proposalE:
  assumes "handle_create_proposal env sv proposer mint tp from pid category title summary period
      action w = Inr w'"
  obtains c d w1 quorum where "gv_config w = Some c" and "gc_mint c = mint"
    and "gv_proposals w pid = None" and "gv_actions w pid = None" and "\<not> banned w proposer"
    and "MIN_VOTING_PERIOD_SECS \<le> period" and "action_category_ok action category"
    and "(cpi_transfer env tp from mint deposit_vault_pda proposer (gc_deposit_amount c) d w
           :: GovernanceErrorCode tx_error + _) = Inr w1"
    and "mul_div_u64 (gc_total_open_supply c) (ucast (quorum_bps_for c category))
           GOVERNANCE_BPS_DENOMINATOR = Some quorum"
    and "in_i64 (unix_timestamp sv + period)"
    and "w' = emit_governance (ProposalCreated (proposal_pda pid) pid proposer category title summary
           action (proposal_action_pda pid) (gc_deposit_amount c) quorum (threshold_bps_for c category)
           (unix_timestamp sv + period) (unix_timestamp sv))
         ((put_proposal pid
            \<lparr> pr_id = pid, pr_category = category, pr_proposer = proposer,
              pr_title_hash = title, pr_summary_hash = summary,
              pr_stake_deposit = gc_deposit_amount c, pr_votes_for = 0, pr_votes_against = 0,
              pr_quorum_snapshot = quorum, pr_threshold_snapshot = threshold_bps_for c category,
              pr_created_at = unix_timestamp sv, pr_voting_ends_at = unix_timestamp sv + period,
              pr_state = Voting, pr_quorum_met = False, pr_deposit_settled = False,
              pr_executed = False, pr_bump = bump_of env (proposal_pda pid),
              pr_offchain_id_hash = zero_hash \<rparr> w1)
         \<lparr>gv_actions := (gv_actions w1)(pid \<mapsto>
            \<lparr> pa_proposal = proposal_pda pid, pa_action = action,
              pa_bump = bump_of env (proposal_action_pda pid) \<rparr>)\<rparr>)"
  using assms
  by (auto simp: handle_create_proposal_def governance_load_defs Let_def checked_add_i64_Some)

lemma proposals_inv_new:
  assumes "proposals_inv env P A" and "P pid = None" and "proposal_ok env (A(pid \<mapsto> a)) pid p"
  shows "proposals_inv env (P(pid \<mapsto> p)) (A(pid \<mapsto> a))"
  using assms by (fastforce simp: proposals_inv_def proposal_ok_def split: if_splits)

lemma votes_inv_new:
  assumes "votes_inv P V" and "P pid = None" and "pr_votes_for p = 0" and "pr_votes_against p = 0"
  shows "votes_inv (P(pid \<mapsto> p)) V"
proof -
  have "\<forall>voter. V (pid, voter) = None" using assms(1,2) by (force simp: votes_inv_def split: option.splits)
  then have "vote_total V pid b = 0" for b by (simp add: vote_total_def map_total_def)
  with assms show ?thesis by (force simp: votes_inv_def split: option.splits)
qed

lemma voted_ban_new:
  assumes "voted_ban P A k r" and "P pid = None"
  shows "voted_ban (P(pid \<mapsto> p)) (A(pid \<mapsto> a)) k r"
  using assms unfolding voted_ban_def by fastforce

lemma bans_inv_new:
  assumes "bans_inv env P A B raw" and "P pid = None"
  shows "bans_inv env (P(pid \<mapsto> p)) (A(pid \<mapsto> a)) B raw"
  using assms(1) by (rule bans_inv_mono) (simp add: assms(2) voted_ban_new)

context token_env
begin

lemma create_proposal_inv:
  assumes inv: "governance_inv E w" and signer: "\<not> signs_for GovernanceProgram proposer"
    and ok: "handle_create_proposal E sv proposer mint tp from pid category title summary period
      action w = Inr w'"
  shows "governance_inv E w'"
  using ok
proof (rule create_proposalE)
  fix c d w1 quorum
  let ?p = "\<lparr> pr_id = pid, pr_category = category, pr_proposer = proposer,
      pr_title_hash = title, pr_summary_hash = summary,
      pr_stake_deposit = gc_deposit_amount c, pr_votes_for = 0, pr_votes_against = 0,
      pr_quorum_snapshot = quorum, pr_threshold_snapshot = threshold_bps_for c category,
      pr_created_at = unix_timestamp sv, pr_voting_ends_at = unix_timestamp sv + period,
      pr_state = Voting, pr_quorum_met = False, pr_deposit_settled = False,
      pr_executed = False, pr_bump = bump_of E (proposal_pda pid), pr_offchain_id_hash = zero_hash \<rparr>"
    and ?a = "\<lparr> pa_proposal = proposal_pda pid, pa_action = action,
      pa_bump = bump_of E (proposal_action_pda pid) \<rparr>"
  assume c: "gv_config w = Some c" and new: "gv_proposals w pid = None" "gv_actions w pid = None"
    and act: "action_category_ok action category"
    and move: "(cpi_transfer E tp from mint deposit_vault_pda proposer (gc_deposit_amount c) d w
           :: GovernanceErrorCode tx_error + _) = Inr w1"
    and w': "w' = emit_governance (ProposalCreated (proposal_pda pid) pid proposer category title summary
           action (proposal_action_pda pid) (gc_deposit_amount c) quorum (threshold_bps_for c category)
           (unix_timestamp sv + period) (unix_timestamp sv))
         ((put_proposal pid ?p w1)\<lparr>gv_actions := (gv_actions w1)(pid \<mapsto> ?a)\<rparr>)"
  note I = governance_invD [OF inv]
  from move obtain L where L: "w1 = w\<lparr>c_tokens := L\<rparr>"
      "moved (c_tokens w) from deposit_vault_pda (gc_deposit_amount c) L"
    by (rule cpi_transfer_moved)
  have held: "held (c_tokens w) deposit_vault_pda (gc_mint c) governance_config_pda"
    and cok: "governance_config_ok E c"
    using I(1) c by (simp_all add: deposit_vault_ok_def)
  from move obtain s where s: "c_tokens w from = Some s" "ta_owner s = proposer \<or> ta_delegate s = Some proposer"
    by (rule cpi_transfer_authority)
  have "from \<noteq> deposit_vault_pda" using s held signer by (auto simp: held_def)
  then have bal: "balance L deposit_vault_pda
      = balance (c_tokens w) deposit_vault_pda + unat (gc_deposit_amount c)"
    using moved_balance [OF L(2), of deposit_vault_pda] by simp
  have "proposal_ok E ((gv_actions w)(pid \<mapsto> ?a)) pid ?p"
    using act by (simp add: proposal_ok_def)
  from proposals_inv_new [OF I(3) new(1) this]
    votes_inv_new [OF I(4) new(1), of ?p] deposits_put [of "gv_proposals w" pid ?p]
    held_same [OF held moved_same [OF L(2)]]
    bans_inv_new [OF I(6) new(1), of ?p ?a] I(2,5) bal c cok
  show ?thesis
    by (auto simp: governance_inv_def w' L(1) governance_world_simps deposit_vault_ok_def
        deposits_inv_def unsettled_deposit_def new(1))
qed

end

lemma refund_or_forfeitE:
  assumes "handle_refund_or_forfeit_deposit env sv mint tp pid account w = Inr w'"
  obtains c p a d w1 where "gv_config w = Some c" and "gc_mint c = mint"
    and "gv_proposals w pid = Some p" and "pr_state p \<noteq> Voting" and "\<not> pr_deposit_settled p"
    and "c_tokens w account = Some a" and "ta_owner a = pr_proposer p" and "ta_mint a = mint"
    and "(cpi_transfer env tp deposit_vault_pda mint
           (if pr_quorum_met p then account else gc_forfeit_destination c) governance_config_pda
           (pr_stake_deposit p) d w :: GovernanceErrorCode tx_error + _) = Inr w1"
    and "w' = emit_governance (ProposalDepositSettled (proposal_pda pid) pid (pr_proposer p)
           (pr_stake_deposit p) mint (pr_quorum_met p)
           (if pr_quorum_met p then account else gc_forfeit_destination c) (pr_quorum_met p)
           (pr_state p) (unix_timestamp sv))
         (put_proposal pid (p\<lparr>pr_deposit_settled := True\<rparr>) w1)"
  using assms
  by (auto simp: handle_refund_or_forfeit_deposit_def governance_load_defs Let_def)

context token_env
begin

lemma refund_or_forfeit_inv:
  assumes inv: "governance_inv E w"
    and ok: "handle_refund_or_forfeit_deposit E sv mint tp pid account w = Inr w'"
  shows "governance_inv E w'"
  using ok
proof (rule refund_or_forfeitE)
  fix c :: GovernanceConfig and p :: Proposal and d w1
  let ?p = "p\<lparr>pr_deposit_settled := True\<rparr>"
    and ?to = "if pr_quorum_met p then account else gc_forfeit_destination c"
  assume c: "gv_config w = Some c" and p: "gv_proposals w pid = Some p" "pr_state p \<noteq> Voting"
      "\<not> pr_deposit_settled p"
    and move: "(cpi_transfer E tp deposit_vault_pda mint ?to governance_config_pda
           (pr_stake_deposit p) d w :: GovernanceErrorCode tx_error + _) = Inr w1"
    and w': "w' = emit_governance (ProposalDepositSettled (proposal_pda pid) pid (pr_proposer p)
           (pr_stake_deposit p) mint (pr_quorum_met p) ?to (pr_quorum_met p) (pr_state p)
           (unix_timestamp sv)) (put_proposal pid ?p w1)"
  note I = governance_invD [OF inv]
  from move obtain L where L: "w1 = w\<lparr>c_tokens := L\<rparr>"
      "moved (c_tokens w) deposit_vault_pda ?to (pr_stake_deposit p) L"
    by (rule cpi_transfer_moved)
  have held: "held (c_tokens w) deposit_vault_pda (gc_mint c) governance_config_pda"
    and cok: "governance_config_ok E c"
    using I(1) c by (simp_all add: deposit_vault_ok_def)
  have "proposal_ok E (gv_actions w) pid ?p"
    using governance_inv_proposal [OF inv p(1)] p(2) by (auto simp: proposal_ok_def passed_def votes_cast_def)
  from proposals_inv_put [OF I(3) p(1) this] votes_inv_put [OF I(4) p(1), of ?p]
    deposits_put [of "gv_proposals w" pid ?p] held_same [OF held moved_same [OF L(2)]]
    bans_inv_put [OF I(6), of pid ?p] moved_from [OF L(2)] I(2,5) c cok p
  show ?thesis
    by (auto simp: governance_inv_def w' L(1) governance_world_simps deposit_vault_ok_def
        deposits_inv_def unsettled_deposit_def keeps_authority_def)
qed

lemma governance_dispatch_inv:
  assumes "governance_inv E w" and "governance_dispatch E sv ix w = Inr w'"
    and "\<forall>k. governance_signer ix = Some k \<longrightarrow> \<not> signs_for GovernanceProgram k"
  shows "governance_inv E w'"
  using assms
  by (cases ix)
     (auto dest: initialize_governance_config_inv initialize_emergency_authority_inv
       update_governance_config_inv create_proposal_inv link_offchain_proposal_inv cast_vote_inv
       tally_and_finalize_inv refund_or_forfeit_inv update_config_parameter_inv
       authorize_treasury_spend_inv list_wallet_inv delist_wallet_inv)

end

lemma bans_inv_frame:
  assumes "bans_inv env P A B raw"
    and "\<And>k. raw' k = raw k \<or> \<not> wallet_is_banned (raw k) \<and> \<not> wallet_is_banned (raw' k)"
  shows "bans_inv env P A B raw'"
  unfolding bans_inv_def
proof
  fix k
  have "wallet_is_banned \<lparr> ra_owner = GOVERNANCE_PROGRAM_ID, ra_data = x \<rparr>" for x
    by (simp add: wallet_is_banned_def)
  with assms(1) [unfolded bans_inv_def, rule_format, of k] assms(2) [of k]
  show "case B k of None \<Rightarrow> \<not> wallet_is_banned (raw' k)
      | Some r \<Rightarrow> br_wallet r = k \<and> br_bump r = bump_of env (ban_record_pda k)
          \<and> raw' k = \<lparr> ra_owner = GOVERNANCE_PROGRAM_ID, ra_data = ban_record_bytes env r \<rparr>
          \<and> voted_ban P A k r"
    by (auto split: option.splits)
qed

lemma governance_inv_frame:
  assumes inv: "governance_inv env w" and frame: "governance_frame w w'"
  shows "governance_inv env w'"
proof -
  note I = governance_invD [OF inv]
  from frame have out: "outside GovernanceProgram (c_tokens w) (c_tokens w')"
    and raw: "\<And>k. c_bans w' k = c_bans w k \<or> \<not> banned w k \<and> \<not> banned w' k"
    and same: "gv_config w' = gv_config w" "gv_emergency w' = gv_emergency w"
      "gv_proposals w' = gv_proposals w" "gv_actions w' = gv_actions w" "gv_votes w' = gv_votes w"
      "gv_bans w' = gv_bans w"
    by (simp_all add: governance_frame_def)
  have vault: "deposit_vault_ok env (gv_config w) (c_tokens w')
      \<and> (gv_config w = None \<or> balance (c_tokens w) deposit_vault_pda \<le> balance (c_tokens w') deposit_vault_pda)"
    using I(1) out held_outside [OF _ out, of deposit_vault_pda _ governance_config_pda]
    by (auto simp: deposit_vault_ok_def outside_def split: option.splits)
  have "deposits_inv (gv_proposals w) (c_tokens w')"
  proof (cases "gv_config w")
    case None
    with inv have "gv_proposals w = Map.empty" by (simp add: governance_inv_def)
    then show ?thesis by (simp add: deposits_inv_def unsettled_deposit_def)
  qed (use vault I(5) in \<open>auto simp: deposits_inv_def\<close>)
  with vault I bans_inv_frame [OF I(6) raw] inv show ?thesis
    by (simp add: governance_inv_def same)
qed

lemma governance_inv_genesis: "governance_genesis (t, w) \<Longrightarrow> governance_inv env w"
  by (simp add: governance_genesis_def governance_inv_def deposit_vault_ok_def emergency_ok_def
      proposals_inv_def votes_inv_def deposits_inv_def unsettled_deposit_def bans_inv_def)

sublocale token_env \<subseteq> governance_sys: invariant_system governance_genesis "governance_step E"
  "\<lambda>(t, w). governance_inv E w"
proof unfold_locales
  fix s :: "i64 \<times> 'b governance_chain_scheme" assume "governance_genesis s"
  then show "case s of (t, w) \<Rightarrow> governance_inv E w" by (cases s) (auto dest: governance_inv_genesis)
next
  fix s t :: "i64 \<times> 'b governance_chain_scheme"
  assume "case s of (t, w) \<Rightarrow> governance_inv E w" and "governance_step E s t"
  then show "case t of (t, w) \<Rightarrow> governance_inv E w"
    by (auto elim!: governance_step.cases intro: governance_dispatch_inv governance_inv_frame)
qed

context token_env
begin

lemma governance_reachable_inv:
  "reachable governance_genesis (governance_step E) (t, w) \<Longrightarrow> governance_inv E w"
  using governance_sys.reachable_inv by fastforce

end

end
