(* ===== verification/Governance_History.thy ===== *)
theory Governance_History
  imports Governance_System Escrow_History
begin

text \<open>
  A concrete history of the governance program on the reference token program: an administrator
  sets up the configuration, \<open>Key 5\<close> deposits ten units and proposes to ban \<open>Key 6\<close>, two
  stakers vote on opposite sides with equal weight, and after the delay the ban is listed and the
  deposit returned. The properties take their witnesses from its states.
\<close>


section \<open>Runs\<close>

fun governance_run ::
  "env \<Rightarrow> (sysvars \<times> governance_ix) list \<Rightarrow> 'z governance_chain_scheme \<Rightarrow> 'z governance_result" where
  "governance_run env [] w = Inr w"
| "governance_run env ((sv, ix) # ixs) w =
     and_then (governance_dispatch env sv ix w) (governance_run env ixs)"

fun governance_timed :: "i64 \<Rightarrow> (sysvars \<times> governance_ix) list \<Rightarrow> bool" where
  "governance_timed t [] \<longleftrightarrow> True"
| "governance_timed t ((sv, ix) # ixs) \<longleftrightarrow> t \<le> unix_timestamp sv
     \<and> (case governance_signer ix of None \<Rightarrow> True | Some k \<Rightarrow> \<not> signs_for GovernanceProgram k)
     \<and> governance_timed (unix_timestamp sv) ixs"

lemma governance_run_steps:
  assumes "governance_timed t ixs" and "governance_run env ixs w = Inr w'"
  shows "(governance_step env)\<^sup>*\<^sup>* (t, w) (end_time t ixs, w')"
  using assms
proof (induction ixs arbitrary: t w)
  case (Cons x ixs)
  obtain sv ix where x: "x = (sv, ix)" by (cases x)
  from Cons.prems(2) x obtain w1 where
    w1: "governance_dispatch env sv ix w = Inr w1" "governance_run env ixs w1 = Inr w'"
    by auto
  have "governance_step env (t, w) (unix_timestamp sv, w1)"
    by (rule governance_step_ix [OF _ _ w1(1)])
       (use Cons.prems(1) x in \<open>auto split: option.splits\<close>)
  also have "(governance_step env)\<^sup>*\<^sup>* (unix_timestamp sv, w1) (end_time (unix_timestamp sv) ixs, w')"
    using Cons.IH Cons.prems(1) w1(2) x by auto
  finally show ?case using x by simp
qed simp


section \<open>The states\<close>

definition gov_params :: InitializeGovernanceConfigParams where
  "gov_params = \<lparr> ig_total_open_supply = 1000, ig_quorum_bps = 1000,
     ig_threshold_simple_bps = 5000, ig_threshold_treasury_bps = 6000,
     ig_threshold_upgrade_bps = 7500, ig_quorum_upgrade_bps = 2000, ig_deposit_amount = 10,
     ig_forfeit_destination = Key 53, ig_vote_lock_secs = 100 \<rparr>"

definition gov_start :: governance_chain where
  "gov_start = \<lparr> c_tokens = [Key 52 \<mapsto> demo_account (Key 2) (Key 5) 100,
                              Key 53 \<mapsto> demo_account (Key 2) (Key 9) 0],
     c_mints = [Key 2 \<mapsto> \<lparr> mi_decimals = 6, mi_program = Prog SplTokenProgram \<rparr>],
     c_bans = (\<lambda>_. no_account), sk_config = Some demo_config,
     sk_stakes = [(Key 21, Arbitrator) \<mapsto> demo_arbitrator (Key 21) 100,
                  (Key 22, Arbitrator) \<mapsto> demo_arbitrator (Key 22) 100],
     sk_receipts = Map.empty, sk_log = [], es_vaults = Map.empty, es_trades = Map.empty,
     es_fee_config = None, es_cases = Map.empty, es_claims = Map.empty, es_policy = None,
     es_log = [], gv_config = None, gv_emergency = None, gv_proposals = Map.empty,
     gv_actions = Map.empty, gv_votes = Map.empty, gv_bans = Map.empty, gv_log = [] \<rparr>"

definition gov_voting_ixs :: "(sysvars \<times> governance_ix) list" where
  "gov_voting_ixs =
     [(demo_sv 100, IxInitializeGovernanceConfig (Key 9) (Key 2) (Prog SplTokenProgram) gov_params),
      (demo_sv 101, IxCreateProposal (Key 5) (Key 2) (Prog SplTokenProgram) (Key 52) 1 Standards
         zero_hash zero_hash 50 (ListWallet (Key 6) Scam zero_hash)),
      (demo_sv 110, IxCastVote (Key 21) 1 True Arbitrator),
      (demo_sv 111, IxCastVote (Key 22) 1 False Arbitrator)]"

definition gov_config :: GovernanceConfig where
  "gov_config = \<lparr> gc_admin = Key 9, gc_mint = Key 2, gc_total_open_supply = 1000,
     gc_quorum_bps = 1000, gc_threshold_simple_bps = 5000, gc_threshold_treasury_bps = 6000,
     gc_threshold_upgrade_bps = 7500, gc_quorum_upgrade_bps = 2000, gc_deposit_amount = 10,
     gc_forfeit_destination = Key 53, gc_vote_lock_secs = 100, gc_bump = 255,
     gc_deposit_vault_bump = 255 \<rparr>"

definition gov_emergency :: EmergencyAuthority where
  "gov_emergency = \<lparr> ea_primary_holder = ALLENHARK_PRIMARY_HOLDER,
     ea_secondary_holder = ALLENHARK_SECONDARY_HOLDER, ea_initialized_at = 100,
     ea_expires_at = 31536100, ea_bump = 255 \<rparr>"

definition gov_proposal :: "ProposalState \<Rightarrow> bool \<Rightarrow> bool \<Rightarrow> bool \<Rightarrow> Proposal" where
  "gov_proposal state quorum_met settled executed =
     \<lparr> pr_id = 1, pr_category = Standards, pr_proposer = Key 5, pr_title_hash = zero_hash,
       pr_summary_hash = zero_hash, pr_stake_deposit = 10, pr_votes_for = 100,
       pr_votes_against = 100, pr_quorum_snapshot = 100, pr_threshold_snapshot = 5000,
       pr_created_at = 101, pr_voting_ends_at = 151, pr_state = state, pr_quorum_met = quorum_met,
       pr_deposit_settled = settled, pr_executed = executed, pr_bump = 255,
       pr_offchain_id_hash = zero_hash \<rparr>"

definition gov_action :: ProposalAction where
  "gov_action = \<lparr> pa_proposal = proposal_pda 1, pa_action = ListWallet (Key 6) Scam zero_hash,
     pa_bump = 255 \<rparr>"

definition gov_vote :: "pubkey \<Rightarrow> bool \<Rightarrow> i64 \<Rightarrow> VoteRecord" where
  "gov_vote k in_favor t = \<lparr> vr_proposal = proposal_pda 1, vr_voter = k, vr_weight = 100,
     vr_in_favor = in_favor, vr_locked_until = t, vr_bump = 255 \<rparr>"

definition gov_ban :: BanRecord where
  "gov_ban = \<lparr> br_wallet = Key 6, br_reason = Scam, br_evidence_hash = zero_hash,
     br_listed_at = 300, br_authorizing_proposal = proposal_pda 1, br_bump = 255 \<rparr>"

lemma deposit_vault_not_key [simp]: "deposit_vault_pda \<noteq> Key x" "Key x \<noteq> deposit_vault_pda"
  by (simp_all add: deposit_vault_pda_def)

lemma quorum_demo: "mul_div_u64 1000 1000 10000 = Some 100"
  by (simp add: mul_div_u64_def checked_mul_def checked_div_def)

lemmas governance_eval =
  governance_handler_defs governance_guard_defs governance_world_simps load_config_def
  cpi_transfer_def ref_transfer_checked_def init_token_def token_interface_ids_def Let_def
  checked_add_def checked_sub_def checked_add_i64_def in_i64_def I64_MIN_def I64_MAX_def
  MAX_VOTE_LOCK_SECS_def FIRST_YEAR_SECS_def MIN_VOTING_PERIOD_SECS_def
  GOVERNANCE_BPS_DENOMINATOR_def effective_stake_def min_stake_for_def

text \<open>The states after the configuration, which differ in the two balances, the proposal, the
  ban and the log.\<close>

definition gov_state :: "u64 \<Rightarrow> u64 \<Rightarrow> Proposal \<Rightarrow> bool \<Rightarrow> GovernanceEvent list \<Rightarrow> governance_chain" where
  "gov_state wallet vault p listed log = gov_start\<lparr>
     c_tokens := [Key 52 \<mapsto> demo_account (Key 2) (Key 5) wallet,
                  Key 53 \<mapsto> demo_account (Key 2) (Key 9) 0,
                  deposit_vault_pda \<mapsto> demo_account (Key 2) governance_config_pda vault],
     c_bans := (if listed
                then (\<lambda>_. no_account)(Key 6 := \<lparr> ra_owner = GOVERNANCE_PROGRAM_ID,
                                              ra_data = ban_record_bytes ref_env gov_ban \<rparr>)
                else (\<lambda>_. no_account)),
     gv_config := Some gov_config, gv_emergency := Some gov_emergency, gv_proposals := [1 \<mapsto> p],
     gv_actions := [1 \<mapsto> gov_action],
     gv_votes := [(1, Key 21) \<mapsto> gov_vote (Key 21) True 210,
                  (1, Key 22) \<mapsto> gov_vote (Key 22) False 211],
     gv_bans := (if listed then [Key 6 \<mapsto> gov_ban] else Map.empty), gv_log := log\<rparr>"

definition gov_voted_log :: "GovernanceEvent list" where
  "gov_voted_log = gv_log (projr (governance_run ref_env gov_voting_ixs gov_start))"

definition gov_voted :: governance_chain where
  "gov_voted = gov_state 90 10 (gov_proposal Voting False False False) False gov_voted_log"

definition gov_tallied_log :: "GovernanceEvent list" where
  "gov_tallied_log = gov_voted_log
     @ [ProposalFinalized (proposal_pda 1) 1 Standards 100 100 200 100 5000 True Accepted 160]"

definition gov_tallied :: governance_chain where
  "gov_tallied = gov_state 90 10 (gov_proposal Accepted True False False) False gov_tallied_log"

definition gov_listed_log :: "GovernanceEvent list" where
  "gov_listed_log = gov_tallied_log @ [WalletListed (Key 6) Scam zero_hash (proposal_pda 1) 1 300]"

definition gov_listed :: governance_chain where
  "gov_listed = gov_state 90 10 (gov_proposal Accepted True False True) True gov_listed_log"

definition gov_settled :: governance_chain where
  "gov_settled = gov_state 100 0 (gov_proposal Accepted True True True) True
     (gov_listed_log @ [ProposalDepositSettled (proposal_pda 1) 1 (Key 5) 10 (Key 2) True (Key 52)
        True Accepted 301])"

lemmas gov_state_defs =
  gov_state_def gov_start_def demo_account_def gov_config_def gov_proposal_def gov_action_def
  gov_vote_def gov_ban_def

lemma governance_id_not_default [simp]: "default_pubkey \<noteq> GOVERNANCE_PROGRAM_ID"
  by (simp add: GOVERNANCE_PROGRAM_ID_def)


section \<open>The runs\<close>

lemma gov_voted_run: "governance_run ref_env gov_voting_ixs gov_start = Inr gov_voted"
proof -
  have "\<exists>log. governance_run ref_env gov_voting_ixs gov_start
      = Inr (gov_state 90 10 (gov_proposal Voting False False False) False log)"
    by (simp add: gov_voting_ixs_def gov_params_def gov_state_defs governance_eval
        gov_emergency_def wallet_is_banned_def demo_config_def demo_arbitrator_def quorum_demo
        fun_upd_twist word_le_nat_alt)
  then show ?thesis
    by (auto simp: gov_voted_def gov_voted_log_def gov_state_def)
qed

lemma votes_demo: "votes_for_bps (gov_proposal s q e d) 200 = Some 5000"
  by (simp add: votes_for_bps_def gov_proposal_def GOVERNANCE_BPS_DENOMINATOR_def checked_mul_def
      checked_div_def)

lemma gov_tally_run:
  "governance_dispatch ref_env (demo_sv 160) (IxTallyAndFinalize 1) gov_voted = Inr gov_tallied"
  using votes_demo [of Voting False False False]
  by (simp add: gov_voted_def gov_tallied_def gov_tallied_log_def gov_state_defs governance_eval
      word_le_nat_alt)

lemma gov_list_run:
  "governance_dispatch ref_env (demo_sv 300) (IxListWallet 1 (Key 6)) gov_tallied = Inr gov_listed"
  by (simp add: gov_tallied_def gov_listed_def gov_listed_log_def gov_state_defs governance_eval)

lemma gov_refund_run:
  "governance_dispatch ref_env (demo_sv 301)
     (IxRefundOrForfeitDeposit (Key 2) (Prog SplTokenProgram) 1 (Key 52)) gov_listed = Inr gov_settled"
  by (simp add: gov_listed_def gov_settled_def gov_state_defs governance_eval word_le_nat_alt
      fun_upd_twist)

lemma gov_voted_reachable:
  "reachable governance_genesis (governance_step ref_env) (111, gov_voted)"
proof -
  have "governance_genesis (100, gov_start)"
    by (auto simp: governance_genesis_def gov_start_def wallet_is_banned_def)
  then have "reachable governance_genesis (governance_step ref_env) (100, gov_start)"
    by (rule reachable_init)
  then have "reachable governance_genesis (governance_step ref_env)
      (end_time 100 gov_voting_ixs, gov_voted)"
    by (rule reachable_steps [OF _ governance_run_steps [OF _ gov_voted_run]])
       (simp add: gov_voting_ixs_def)
  then show ?thesis by (simp add: gov_voting_ixs_def)
qed

lemma gov_steps:
  "governance_step ref_env (111, gov_voted) (160, gov_tallied)"
  "governance_step ref_env (160, gov_tallied) (300, gov_listed)"
  "governance_step ref_env (300, gov_listed) (301, gov_settled)"
  using governance_step_ix [OF _ _ gov_tally_run, of 111] governance_step_ix [OF _ _ gov_list_run, of 160]
    governance_step_ix [OF _ _ gov_refund_run, of 300]
  by simp_all

lemma gov_reachable:
  "reachable governance_genesis (governance_step ref_env) (160, gov_tallied)"
  "reachable governance_genesis (governance_step ref_env) (300, gov_listed)"
  "reachable governance_genesis (governance_step ref_env) (301, gov_settled)"
  using gov_voted_reachable gov_steps by (blast intro: reachable_step)+

end
