(* ===== verification/Governance_Properties.thy ===== *)
theory Governance_Properties
  imports Governance_History
begin

text \<open>
  What the governance program guarantees over its reachable states and along every run: deposits
  are covered, every wallet votes once with its recorded weight, the tally decides by exact
  ratio, terms and actions are fixed and spent once, bans come and go only by passed proposals,
  and the first-year exception ends for good.
\<close>


section \<open>How proposals, actions and the exception change\<close>

definition proposal_edge :: "ProposalState \<Rightarrow> ProposalState \<Rightarrow> bool" where
  "proposal_edge s s' \<longleftrightarrow> s = Voting \<and> (s' = Accepted \<or> s' = Rejected)"

definition proposal_progress :: "Proposal \<Rightarrow> Proposal \<Rightarrow> bool" where
  "proposal_progress p p' \<longleftrightarrow>
     p' = p\<lparr>pr_votes_for := pr_votes_for p', pr_votes_against := pr_votes_against p',
            pr_state := pr_state p', pr_quorum_met := pr_quorum_met p',
            pr_deposit_settled := pr_deposit_settled p', pr_executed := pr_executed p',
            pr_offchain_id_hash := pr_offchain_id_hash p'\<rparr>
     \<and> (pr_state p' = pr_state p \<or> proposal_edge (pr_state p) (pr_state p'))
     \<and> (pr_state p \<noteq> Voting \<longrightarrow> pr_votes_for p' = pr_votes_for p
          \<and> pr_votes_against p' = pr_votes_against p \<and> pr_quorum_met p' = pr_quorum_met p)
     \<and> (pr_executed p \<longrightarrow> pr_executed p') \<and> (pr_deposit_settled p \<longrightarrow> pr_deposit_settled p')
     \<and> (pr_offchain_id_hash p \<noteq> zero_hash \<longrightarrow> pr_offchain_id_hash p' = pr_offchain_id_hash p)"

lemma proposal_progress_refl [simp]: "proposal_progress p p"
  by (simp add: proposal_progress_def)

lemma proposal_progress_trans:
  assumes "proposal_progress p q" and "proposal_progress q r"
  shows "proposal_progress p r"
  using assms by (cases p; cases q; cases r) (auto simp: proposal_progress_def proposal_edge_def)

lemma dispatch_proposal_progress:
  assumes "governance_dispatch env sv ix w = Inr w'" and "gv_proposals w pid = Some p"
    and "gv_actions w pid = Some a"
  shows "(\<exists>p'. gv_proposals w' pid = Some p' \<and> proposal_progress p p') \<and> gv_actions w' pid = Some a"
proof (cases ix)
  case (IxTallyAndFinalize i)
  with assms(1) have "handle_tally_and_finalize env sv i w = Inr w'" by simp
  then show ?thesis
    by (rule tallyE) (use assms(2,3) in
      \<open>auto simp: governance_world_simps proposal_progress_def proposal_edge_def\<close>)
next
  case (IxCastVote voter i in_favor role)
  with assms(1) have "handle_cast_vote env sv voter i in_favor role w = Inr w'" by simp
  then show ?thesis
    by (rule cast_voteE) (use assms(2,3) in \<open>auto simp: proposal_progress_def\<close>)
next
  case (IxListWallet i k)
  with assms(1) have "handle_list_wallet env sv i k w = Inr w'" by simp
  then show ?thesis
    by (rule list_walletE) (use assms(2,3) in \<open>auto simp: governance_world_simps proposal_progress_def\<close>)
next
  case (IxDelistWallet i k)
  with assms(1) have "handle_delist_wallet env sv i k w = Inr w'" by simp
  then show ?thesis
    by (rule delist_walletE) (use assms(2,3) in \<open>auto simp: governance_world_simps proposal_progress_def\<close>)
qed (use assms in \<open>auto simp: governance_handler_defs governance_guard_defs governance_world_simps
       init_token_def proposal_progress_def Let_def dest!: cpi_transfer_frame split: if_splits\<close>)

lemma step_proposal_progress:
  assumes "governance_step env (t, w) (t', w')" and "gv_proposals w pid = Some p"
    and "gv_actions w pid = Some a"
  shows "(\<exists>p'. gv_proposals w' pid = Some p' \<and> proposal_progress p p') \<and> gv_actions w' pid = Some a"
  using assms(1)
proof (rule governance_stepE)
  fix sv ix assume "governance_dispatch env sv ix w = Inr w'"
  from dispatch_proposal_progress [OF this assms(2,3)] show ?thesis .
qed (use assms(2,3) in \<open>auto simp: governance_frame_def\<close>)

text \<open>
  C25. Along every sequence of steps a proposal's terms and its action never change, its state
  moves only from voting to accepted or rejected, its totals and quorum verdict are fixed once it
  leaves voting, and the execution, the settlement of its deposit and its off-chain link are
  one-way.
\<close>

theorem proposal_lifecycle:
  assumes "(governance_step env)\<^sup>*\<^sup>* (t, w) (t', w')" and "gv_proposals w pid = Some p"
    and "gv_actions w pid = Some a"
  shows "\<exists>p'. gv_proposals w' pid = Some p' \<and> proposal_progress p p' \<and> gv_actions w' pid = Some a"
  using assms
proof (induction "(t', w')" arbitrary: t' w')
  case (step s)
  obtain t1 w1 where s: "s = (t1, w1)" by (cases s)
  with step obtain q where "gv_proposals w1 pid = Some q" "proposal_progress p q"
    "gv_actions w1 pid = Some a" by blast
  with step_proposal_progress [OF step(2) [unfolded s]] show ?case
    by (meson proposal_progress_trans)
qed simp

theorem proposal_lifecycle_witness:
  "\<exists>p'. gv_proposals gov_settled 1 = Some p'
     \<and> proposal_progress (gov_proposal Voting False False False) p'
     \<and> gv_actions gov_settled 1 = Some gov_action"
  by (rule proposal_lifecycle [of ref_env 111 gov_voted 301])
     (use gov_steps in \<open>auto simp: gov_voted_def gov_state_def\<close>)


section \<open>The first-year exception\<close>

lemma dispatch_sunset:
  assumes "governance_dispatch env sv ix w = Inr w'" and "gv_emergency w = Some a"
    and "gv_config w = Some c"
  shows "gv_emergency w' = Some a
     \<and> (\<exists>c'. gv_config w' = Some c'
          \<and> (gc_vote_lock_secs c' = gc_vote_lock_secs c \<or> unix_timestamp sv < ea_expires_at a))"
proof (cases ix)
  case (IxTallyAndFinalize i)
  with assms(1) have "handle_tally_and_finalize env sv i w = Inr w'" by simp
  then show ?thesis by (rule tallyE) (use assms(2,3) in \<open>auto simp: governance_world_simps\<close>)
next
  case (IxCastVote voter i in_favor role)
  with assms(1) have "handle_cast_vote env sv voter i in_favor role w = Inr w'" by simp
  then show ?thesis by (rule cast_voteE) (use assms(2,3) in auto)
next
  case (IxListWallet i k)
  with assms(1) have "handle_list_wallet env sv i k w = Inr w'" by simp
  then show ?thesis by (rule list_walletE) (use assms(2,3) in \<open>auto simp: governance_world_simps\<close>)
next
  case (IxDelistWallet i k)
  with assms(1) have "handle_delist_wallet env sv i k w = Inr w'" by simp
  then show ?thesis by (rule delist_walletE) (use assms(2,3) in \<open>auto simp: governance_world_simps\<close>)
qed (use assms in \<open>auto simp: governance_handler_defs governance_guard_defs governance_world_simps
       init_token_def emergency_powers_available_def Let_def dest!: cpi_transfer_frame
       split: if_splits\<close>)


text \<open>
  The first-year exception ends and nothing reopens it. Along every sequence of steps the
  recorded deadline never changes, and once the clock has reached it no sequence of steps changes
  the execution delay any more, whoever signs and whatever is voted.
\<close>

theorem sunset_final:
  assumes "(governance_step env)\<^sup>*\<^sup>* (t, w) (t', w')" and "gv_emergency w = Some a"
    and "gv_config w = Some c"
  shows "gv_emergency w' = Some a
     \<and> (\<exists>c'. gv_config w' = Some c'
          \<and> (ea_expires_at a \<le> t \<longrightarrow> gc_vote_lock_secs c' = gc_vote_lock_secs c)) \<and> t \<le> t'"
  using assms
proof (induction "(t', w')" arbitrary: t' w')
  case (step s)
  obtain t1 w1 where s: "s = (t1, w1)" by (cases s)
  with step obtain c1 where e1: "gv_emergency w1 = Some a" and c1: "gv_config w1 = Some c1"
      "ea_expires_at a \<le> t \<longrightarrow> gc_vote_lock_secs c1 = gc_vote_lock_secs c" "t \<le> t1" by blast
  from step(2) [unfolded s] show ?case
  proof (rule governance_stepE)
    fix sv ix assume "t' = unix_timestamp sv" "t1 \<le> unix_timestamp sv"
      "governance_dispatch env sv ix w1 = Inr w'"
    with dispatch_sunset [OF _ e1 c1(1), of env sv ix w'] c1 show ?case by auto
  qed (use e1 c1 in \<open>auto simp: governance_frame_def\<close>)
qed simp

theorem sunset_final_witness:
  "gv_emergency gov_settled = Some gov_emergency \<and> ea_expires_at gov_emergency = 31536100
     \<and> (\<exists>c'. gv_config gov_settled = Some c' \<and> gc_vote_lock_secs c' = 100)"
proof -
  have "governance_frame gov_settled gov_settled" by (simp add: governance_frame_def outside_def)
  then have "(governance_step ref_env)\<^sup>*\<^sup>* (31536100, gov_settled) (31536200, gov_settled)"
    by (intro r_into_rtranclp governance_step_outside) simp_all
  then show ?thesis
    using sunset_final [of ref_env 31536100 gov_settled 31536200 gov_settled gov_emergency gov_config]
    by (simp add: gov_settled_def gov_state_def gov_emergency_def gov_config_def)
qed


section \<open>Bans\<close>

lemma dispatch_bans:
  assumes "governance_dispatch env sv ix w = Inr w'"
    and "\<And>pid. ix \<noteq> IxListWallet pid k" and "\<And>pid. ix \<noteq> IxDelistWallet pid k"
  shows "c_bans w' k = c_bans w k"
proof (cases ix)
  case (IxTallyAndFinalize i)
  with assms(1) have "handle_tally_and_finalize env sv i w = Inr w'" by simp
  then show ?thesis by (rule tallyE) (auto simp: governance_world_simps)
next
  case (IxCastVote voter i in_favor role)
  with assms(1) have "handle_cast_vote env sv voter i in_favor role w = Inr w'" by simp
  then show ?thesis by (rule cast_voteE) auto
next
  case (IxListWallet i x)
  with assms(1) have "handle_list_wallet env sv i x w = Inr w'" by simp
  then show ?thesis by (rule list_walletE) (use IxListWallet assms(2) in \<open>auto simp: governance_world_simps\<close>)
next
  case (IxDelistWallet i x)
  with assms(1) have "handle_delist_wallet env sv i x w = Inr w'" by simp
  then show ?thesis by (rule delist_walletE) (use IxDelistWallet assms(3) in \<open>auto simp: governance_world_simps\<close>)
qed (use assms in \<open>auto simp: governance_handler_defs governance_guard_defs governance_world_simps
       init_token_def Let_def dest!: cpi_transfer_frame split: if_splits\<close>)

text \<open>
  C7. A wallet is banned exactly while governance keeps a record for it, and every record was
  voted: it names an accepted proposal, executed once, that met its quorum and its threshold on
  the counted votes, was of the \<open>Standards\<close> category, and whose action fixed at creation names
  this wallet with this reason and this evidence; and it was listed after the voting closed.
\<close>

theorem bans_are_voted:
  assumes "token_env env" and "reachable governance_genesis (governance_step env) (t, w)"
  shows "(banned w k \<longleftrightarrow> gv_bans w k \<noteq> None)
     \<and> (\<forall>r. gv_bans w k = Some r \<longrightarrow>
          (\<exists>pid p a. br_authorizing_proposal r = proposal_pda pid \<and> gv_proposals w pid = Some p
             \<and> pr_state p = Accepted \<and> pr_executed p \<and> pr_category p = Standards
             \<and> pr_voting_ends_at p < br_listed_at r
             \<and> 0 < unat (pr_votes_for p) + unat (pr_votes_against p)
             \<and> unat (pr_quorum_snapshot p) \<le> unat (pr_votes_for p) + unat (pr_votes_against p)
             \<and> unat (pr_threshold_snapshot p) * (unat (pr_votes_for p) + unat (pr_votes_against p))
                 \<le> 10000 * unat (pr_votes_for p)
             \<and> gv_actions w pid = Some a
             \<and> pa_action a = ListWallet k (br_reason r) (br_evidence_hash r)))"
proof -
  have inv: "governance_inv env w" by (rule token_env.governance_reachable_inv [OF assms])
  have b: "case gv_bans w k of None \<Rightarrow> \<not> banned w k
      | Some r \<Rightarrow> br_wallet r = k \<and> br_bump r = bump_of env (ban_record_pda k)
          \<and> c_bans w k = \<lparr> ra_owner = GOVERNANCE_PROGRAM_ID, ra_data = ban_record_bytes env r \<rparr>
          \<and> voted_ban (gv_proposals w) (gv_actions w) k r"
    using governance_invD(6) [OF inv] by (simp add: bans_inv_def)
  have "\<exists>pid p a. br_authorizing_proposal r = proposal_pda pid \<and> gv_proposals w pid = Some p
             \<and> pr_state p = Accepted \<and> pr_executed p \<and> pr_category p = Standards
             \<and> pr_voting_ends_at p < br_listed_at r \<and> passed p \<and> gv_actions w pid = Some a
             \<and> pa_action a = ListWallet k (br_reason r) (br_evidence_hash r)"
    if r: "gv_bans w k = Some r" for r
  proof -
    from b r have "voted_ban (gv_proposals w) (gv_actions w) k r" by simp
    then obtain pid p a where p: "br_authorizing_proposal r = proposal_pda pid"
        "gv_proposals w pid = Some p" "pr_state p = Accepted" "pr_executed p"
        "pr_voting_ends_at p < br_listed_at r" "gv_actions w pid = Some a"
        "pa_action a = ListWallet k (br_reason r) (br_evidence_hash r)"
      unfolding voted_ban_def by blast
    with governance_inv_proposal [OF inv p(2)] show ?thesis by (auto simp: proposal_ok_def)
  qed
  with b show ?thesis
    by (auto simp: wallet_is_banned_def passed_def votes_cast_def split: option.splits)
qed

theorem bans_are_voted_witness:
  "banned gov_listed (Key 6)
     \<and> (\<exists>pid p a. proposal_pda 1 = proposal_pda pid \<and> gv_proposals gov_listed pid = Some p
          \<and> pr_state p = Accepted \<and> pr_executed p \<and> gv_actions gov_listed pid = Some a
          \<and> pa_action a = ListWallet (Key 6) Scam zero_hash)"
  using bans_are_voted [OF ref.token_env_axioms gov_reachable(2), of "Key 6"]
  by (auto simp: gov_listed_def gov_state_def gov_ban_def)


text \<open>
  Exclusion and readmission face the same test. If a step changes whether a wallet is banned,
  then it spends an accepted proposal that met its quorum, was not executed before and whose
  execution delay has elapsed, and that proposal's action is to list this wallet when it becomes
  banned and to delist this wallet when it becomes free.
\<close>

theorem ban_moves_only_by_vote:
  assumes "token_env env" and "reachable governance_genesis (governance_step env) (t, w)"
    and step: "governance_step env (t, w) (t', w')" and change: "banned w' k \<noteq> banned w k"
  shows "\<exists>pid p a c. gv_config w = Some c \<and> gv_proposals w pid = Some p \<and> pr_state p = Accepted
     \<and> pr_quorum_met p \<and> \<not> pr_executed p \<and> pr_voting_ends_at p + gc_vote_lock_secs c \<le> t'
     \<and> gv_actions w pid = Some a
     \<and> (if banned w' k then \<exists>reason evidence. pa_action a = ListWallet k reason evidence
        else pa_action a = DelistWallet k)
     \<and> gv_proposals w' = (gv_proposals w)(pid \<mapsto> p\<lparr>pr_executed := True\<rparr>)"
  using step
proof (rule governance_stepE)
  fix sv ix assume t': "t' = unix_timestamp sv" and ok: "governance_dispatch env sv ix w = Inr w'"
  consider pid where "ix = IxListWallet pid k" | pid where "ix = IxDelistWallet pid k"
    using dispatch_bans [OF ok, of k] change by metis
  then show ?thesis
  proof cases
    case (1 pid)
    with ok have "handle_list_wallet env sv pid k w = Inr w'" by simp
    then show ?thesis
      by (rule list_walletE)
         (simp add: t' governance_world_simps wallet_is_banned_def, blast)
  next
    case (2 pid)
    with ok have "handle_delist_wallet env sv pid k w = Inr w'" by simp
    then show ?thesis
      by (rule delist_walletE) (simp add: t' governance_world_simps, blast)
  qed
next
  assume "governance_frame w w'"
  with change show ?thesis by (metis governance_frame_def)
qed

theorem ban_moves_only_by_vote_witness:
  "\<not> banned gov_tallied (Key 6) \<and> banned gov_listed (Key 6)
     \<and> (\<exists>pid p a c. gv_config gov_tallied = Some c \<and> gv_proposals gov_tallied pid = Some p
          \<and> pr_state p = Accepted \<and> \<not> pr_executed p
          \<and> pr_voting_ends_at p + gc_vote_lock_secs c \<le> 300 \<and> gv_actions gov_tallied pid = Some a
          \<and> gv_proposals gov_listed = (gv_proposals gov_tallied)(pid \<mapsto> p\<lparr>pr_executed := True\<rparr>))"
proof -
  have b: "\<not> banned gov_tallied (Key 6)" "banned gov_listed (Key 6)"
    by (simp_all add: gov_tallied_def gov_listed_def gov_state_def wallet_is_banned_def
        ban_record_bytes_def)
  then show ?thesis
    using ban_moves_only_by_vote [OF ref.token_env_axioms gov_reachable(1) gov_steps(2), of "Key 6"]
    by blast
qed


section \<open>Votes and deposits\<close>

text \<open>
  C24. In every reachable state the totals of a proposal are the sums of the weights of its vote
  records, one record per wallet: no vote is counted twice or dropped, and nothing but a recorded
  vote counts.
\<close>

theorem votes_counted_once:
  assumes "token_env env" and "reachable governance_genesis (governance_step env) (t, w)"
    and "gv_proposals w pid = Some p"
  shows "finite {k. gv_votes w (pid, k) \<noteq> None}
     \<and> unat (pr_votes_for p) = (\<Sum>k | gv_votes w (pid, k) \<noteq> None.
         if vr_in_favor (the (gv_votes w (pid, k))) then unat (vr_weight (the (gv_votes w (pid, k)))) else 0)
     \<and> unat (pr_votes_against p) = (\<Sum>k | gv_votes w (pid, k) \<noteq> None.
         if \<not> vr_in_favor (the (gv_votes w (pid, k))) then unat (vr_weight (the (gv_votes w (pid, k)))) else 0)"
proof -
  have inv: "governance_inv env w" by (rule token_env.governance_reachable_inv [OF assms(1,2)])
  have v: "finite (dom (\<lambda>k. gv_votes w (pid, k)))"
    "unat (pr_votes_for p) = vote_total (gv_votes w) pid True"
    "unat (pr_votes_against p) = vote_total (gv_votes w) pid False"
    using governance_invD(4) [OF inv, unfolded votes_inv_def] assms(3)
    by (auto dest: spec [of _ pid])
  then show ?thesis
    by (simp add: vote_total_def map_total_def dom_def if_distrib cong: if_cong)
qed

theorem votes_counted_once_witness:
  "finite {k. gv_votes gov_voted (1, k) \<noteq> None}
     \<and> 100 = (\<Sum>k | gv_votes gov_voted (1, k) \<noteq> None.
         if vr_in_favor (the (gv_votes gov_voted (1, k)))
         then unat (vr_weight (the (gv_votes gov_voted (1, k)))) else 0)"
  using votes_counted_once [OF ref.token_env_axioms gov_voted_reachable,
      of 1 "gov_proposal Voting False False False"]
  by (simp add: gov_voted_def gov_state_def gov_proposal_def)

text \<open>
  C23. The tally decides by the exact ratio. After the voting period it accepts a proposal if and
  only if some vote was cast, the votes cast reach the quorum fixed at creation, and the votes in
  favour are at least the threshold's share of them; the rounding of the division never matters.
  A tie that meets the quorum is accepted exactly when the threshold is at most one half.
\<close>

theorem tally_decides_exactly:
  assumes "handle_tally_and_finalize env sv pid w = Inr w'"
  shows "\<exists>p p'. gv_proposals w pid = Some p \<and> pr_state p = Voting
     \<and> pr_voting_ends_at p \<le> unix_timestamp sv
     \<and> gv_proposals w' = (gv_proposals w)(pid \<mapsto> p') \<and> proposal_progress p p'
     \<and> (pr_quorum_met p' \<longleftrightarrow> unat (pr_quorum_snapshot p) \<le> unat (pr_votes_for p) + unat (pr_votes_against p))
     \<and> pr_state p' = (if 0 < unat (pr_votes_for p) + unat (pr_votes_against p) \<and> pr_quorum_met p'
           \<and> unat (pr_threshold_snapshot p) * (unat (pr_votes_for p) + unat (pr_votes_against p))
               \<le> 10000 * unat (pr_votes_for p)
         then Accepted else Rejected)
     \<and> (pr_votes_for p = pr_votes_against p \<and> pr_votes_for p \<noteq> 0 \<and> pr_quorum_met p' \<longrightarrow>
          (pr_state p' = Accepted \<longleftrightarrow> unat (pr_threshold_snapshot p) \<le> 5000))"
  using assms
proof (rule tallyE)
  fix p tot
  let ?p = "p\<lparr>pr_quorum_met := pr_quorum_snapshot p \<le> tot,
     pr_state := if passed p then Accepted else Rejected\<rparr>"
  assume p: "gv_proposals w pid = Some p" "pr_state p = Voting"
      "pr_voting_ends_at p \<le> unix_timestamp sv"
    and tot: "checked_add (pr_votes_for p) (pr_votes_against p) = Some tot"
    and w': "w' = emit_governance
        (ProposalFinalized (proposal_pda pid) pid (pr_category p) (pr_votes_for p)
           (pr_votes_against p) tot (pr_quorum_snapshot p) (pr_threshold_snapshot p)
           (pr_quorum_snapshot p \<le> tot) (if passed p then Accepted else Rejected) (unix_timestamp sv))
        (put_proposal pid ?p w)"
  have sum: "pr_quorum_snapshot p \<le> tot \<longleftrightarrow>
      unat (pr_quorum_snapshot p) \<le> unat (pr_votes_for p) + unat (pr_votes_against p)"
    using tot by (simp add: checked_add_Some word_le_nat_alt)
  have tie: "passed p \<longleftrightarrow> unat (pr_threshold_snapshot p) \<le> 5000"
    if "pr_votes_for p = pr_votes_against p" "pr_votes_for p \<noteq> 0" "pr_quorum_snapshot p \<le> tot"
  proof -
    let ?n = "unat (pr_votes_for p)" and ?th = "unat (pr_threshold_snapshot p)"
    have n: "0 < ?n" using that(2) by (simp add: unat_gt_0)
    have "?th * (?n + ?n) = (2 * ?th) * ?n" by (simp add: distrib_left)
    then have "?th * (?n + ?n) \<le> 10000 * ?n \<longleftrightarrow> (2 * ?th) * ?n \<le> 10000 * ?n" by (simp only:)
    also have "\<dots> \<longleftrightarrow> ?th \<le> 5000" using n by (simp only: mult_le_cancel2) auto
    finally show ?thesis using that(1,3) sum n by (simp add: passed_def votes_cast_def)
  qed
  show ?thesis
    using p w' sum tie
    by (intro exI [of _ p] exI [of _ ?p])
       (auto simp: governance_world_simps proposal_progress_def proposal_edge_def passed_def votes_cast_def)
qed

theorem tally_decides_exactly_witness:
  "\<exists>p p'. gv_proposals gov_voted 1 = Some p \<and> pr_votes_for p = pr_votes_against p
     \<and> gv_proposals gov_tallied = (gv_proposals gov_voted)(1 \<mapsto> p') \<and> pr_state p' = Accepted"
  using tally_decides_exactly [OF gov_tally_run [unfolded governance_dispatch.simps]]
  by (auto simp: gov_voted_def gov_tallied_def gov_state_def gov_proposal_def)

text \<open>
  C26. In every reachable state the deposit vault holds at least the deposits of all proposals
  that have not been settled, so every refund and every forfeit can be paid.
\<close>

theorem deposits_covered:
  assumes "token_env env" and "reachable governance_genesis (governance_step env) (t, w)"
  shows "(\<Sum>pid\<in>UNIV. case gv_proposals w pid of None \<Rightarrow> 0
            | Some p \<Rightarrow> if pr_deposit_settled p then 0 else unat (pr_stake_deposit p))
         \<le> balance (c_tokens w) deposit_vault_pda"
  using governance_invD(5) [OF token_env.governance_reachable_inv [OF assms]]
  by (simp add: deposits_inv_def unsettled_deposit_def)

theorem deposits_covered_witness:
  "(\<Sum>pid\<in>UNIV. case gv_proposals gov_voted pid of None \<Rightarrow> 0
      | Some p \<Rightarrow> if pr_deposit_settled p then 0 else unat (pr_stake_deposit p))
   \<le> balance (c_tokens gov_voted) deposit_vault_pda
   \<and> balance (c_tokens gov_voted) deposit_vault_pda = 10"
  using deposits_covered [OF ref.token_env_axioms gov_voted_reachable]
  by (simp add: gov_voted_def gov_state_def demo_account_def balance_def)

end
