(* ===== verification/Presale_State.thy ===== *)
theory Presale_State
  imports Governance_State
begin

text \<open>
  The accounts of the presale program (\<open>programs/presale/src/state.rs\<close>), its constants, error
  codes and events, the conversion of a USDC amount to an OPEN entitlement, and the chain state
  extended by the program's accounts.
\<close>


section \<open>Constants and errors\<close>

definition SALE_CONFIG_SEED :: string where "SALE_CONFIG_SEED = ''sale_config''"
definition PRESALE_VAULT_SEED :: string where "PRESALE_VAULT_SEED = ''presale_vault''"
definition SALE_USDC_VAULT_SEED :: string where "SALE_USDC_VAULT_SEED = ''sale_usdc_vault''"
definition CONTRIBUTION_SEED :: string where "CONTRIBUTION_SEED = ''contribution''"
definition MAX_STABLECOINS :: nat where "MAX_STABLECOINS = 5"
definition PRESALE_BPS_DENOMINATOR :: u64 where "PRESALE_BPS_DENOMINATOR = 10000"

text \<open>The wrapped-SOL mint, as the 32 bytes its base-58 form decodes to.\<close>

definition WSOL_MINT :: pubkey where
  "WSOL_MINT =
     Key 452312848682254728109074716018410578554233241794521621781515434726607330054"

datatype PresaleErrorCode =
    Unauthorized | WhitelistTooLong | HardCapNotGreaterThanSoftCap | InvalidContributionBounds
  | InvalidSaleWindow | InvalidSlippageBps | SaleNotStarted | SaleEnded | SaleNotActive
  | AssetNotWhitelisted | UseDirectUsdcPath | BelowMinimumContribution | AboveMaximumContribution
  | HardCapExceeded | SwapProgramMismatch | SlippageExceeded | SaleNotEnded | SaleAlreadyResolved
  | SaleNotFinalized | AlreadyClaimed | SaleNotRefundable | AlreadyRefunded | Overflow
  | WalletBanned | SoftCapNotSupported | NothingToClaim | InvalidSweepAmount | InvalidRate
  | UsdcDeliveryMismatch


section \<open>Accounts\<close>

datatype SaleState = Active | Finalized

record SaleConfig =
  sl_admin :: pubkey
  sl_open_mint :: pubkey
  sl_usdc_mint :: pubkey
  sl_presale_vault :: pubkey
  sl_usdc_vault :: pubkey
  sl_treasury :: pubkey
  sl_swap_program :: pubkey
  sl_hard_cap :: u64
  sl_soft_cap :: u64
  sl_min_contribution :: u64
  sl_max_contribution :: u64
  sl_max_slippage_bps :: u16
  sl_open_per_usdc :: u64
  sl_open_decimals :: u8
  sl_usdc_decimals :: u8
  sl_start_time :: i64
  sl_end_time :: i64
  sl_stablecoin_whitelist :: "pubkey list"
  sl_total_raised :: u64
  sl_state :: SaleState
  sl_bump :: u8
  sl_usdc_vault_bump :: u8

record Contribution =
  cb_buyer :: pubkey
  cb_amount_usdc :: u64
  cb_open_entitlement :: u64
  cb_claimed_open :: u64
  cb_bump :: u8

text \<open>\<open>10u64.checked_pow(n)\<close>, and the conversion: the decimals are subtracted with overflow
  checks on, the products are checked.\<close>

definition checked_pow10 :: "nat \<Rightarrow> u64 option" where
  "checked_pow10 n = (if (10::nat) ^ n < 2 ^ 64 then Some (10 ^ n) else None)"

definition open_entitlement_for ::
  "SaleConfig \<Rightarrow> u64 \<Rightarrow> (u64 \<Rightarrow> PresaleErrorCode tx_error + 'a) \<Rightarrow> PresaleErrorCode tx_error + 'a"
  where
  "open_entitlement_for config usdc_amount k =
     ok_or (checked_sub (sl_open_decimals config) (sl_usdc_decimals config)) Panicked (\<lambda>digits.
     ok_or (checked_pow10 (unat digits)) (Program Overflow) (\<lambda>scale.
     ok_or (checked_mul usdc_amount scale) (Program Overflow) (\<lambda>scaled.
     ok_or (checked_mul scaled (sl_open_per_usdc config)) (Program Overflow) k)))"

datatype PresaleEvent =
    ProceedsSwept pubkey pubkey u64 u64
      \<comment> \<open>sale config, treasury, amount, vault remaining\<close>
  | ContributionDelivered pubkey u64 u64 u64
      \<comment> \<open>recipient, usdc amount, open delivered, total raised\<close>


section \<open>Addresses and chain state\<close>

definition sale_config_pda :: "u64 \<Rightarrow> pubkey" where
  "sale_config_pda nonce = Pda PresaleProgram [SeedBytes SALE_CONFIG_SEED, SeedU64 nonce]"

definition presale_vault_authority_pda :: pubkey where
  "presale_vault_authority_pda = Pda PresaleProgram [SeedBytes PRESALE_VAULT_SEED]"

definition sale_usdc_vault_pda :: "u64 \<Rightarrow> pubkey" where
  "sale_usdc_vault_pda nonce = Pda PresaleProgram [SeedBytes SALE_USDC_VAULT_SEED, SeedU64 nonce]"

definition contribution_pda :: "u64 \<Rightarrow> pubkey \<Rightarrow> pubkey" where
  "contribution_pda nonce buyer =
     Pda PresaleProgram [SeedBytes CONTRIBUTION_SEED, SeedKey (sale_config_pda nonce), SeedKey buyer]"

definition associated_token_address :: "pubkey \<Rightarrow> pubkey \<Rightarrow> pubkey \<Rightarrow> pubkey" where
  "associated_token_address owner token_program mint =
     Pda AssociatedTokenProgram [SeedKey owner, SeedKey token_program, SeedKey mint]"

lemma presale_pdas [simp]:
  "sale_config_pda a = sale_config_pda b \<longleftrightarrow> a = b"
  "sale_usdc_vault_pda a = sale_usdc_vault_pda b \<longleftrightarrow> a = b"
  "sale_config_pda a \<noteq> presale_vault_authority_pda" "presale_vault_authority_pda \<noteq> sale_config_pda a"
  "signs_for PresaleProgram (sale_config_pda a)" "signs_for PresaleProgram (sale_usdc_vault_pda a)"
  "signs_for PresaleProgram presale_vault_authority_pda"
  "\<not> signs_for PresaleProgram (associated_token_address owner tp mint)"
  by (simp_all add: sale_config_pda_def sale_usdc_vault_pda_def presale_vault_authority_pda_def
      associated_token_address_def)

record presale_chain = governance_chain +
  ps_sales :: "u64 \<rightharpoonup> SaleConfig"
  ps_contributions :: "u64 \<times> pubkey \<rightharpoonup> Contribution"
  ps_log :: "PresaleEvent list"

type_synonym 'z presale_result = "PresaleErrorCode tx_error + 'z presale_chain_scheme"

definition emit_presale :: "PresaleEvent \<Rightarrow> 'z presale_chain_scheme \<Rightarrow> 'z presale_chain_scheme" where
  "emit_presale e w = w\<lparr>ps_log := ps_log w @ [e]\<rparr>"

definition put_sale :: "u64 \<Rightarrow> SaleConfig \<Rightarrow> 'z presale_chain_scheme \<Rightarrow> 'z presale_chain_scheme" where
  "put_sale nonce c w = w\<lparr>ps_sales := (ps_sales w)(nonce \<mapsto> c)\<rparr>"

definition put_contribution ::
  "u64 \<Rightarrow> pubkey \<Rightarrow> Contribution \<Rightarrow> 'z presale_chain_scheme \<Rightarrow> 'z presale_chain_scheme" where
  "put_contribution nonce buyer c w =
     w\<lparr>ps_contributions := (ps_contributions w)((nonce, buyer) \<mapsto> c)\<rparr>"

lemmas presale_world_simps = emit_presale_def put_sale_def put_contribution_def


section \<open>Loading accounts\<close>

text \<open>\<open>#[account(seeds = [SALE_CONFIG_SEED, &sale_nonce.to_le_bytes()], bump = sale_config.bump)]\<close>\<close>

definition load_sale_config ::
  "env \<Rightarrow> 'z presale_chain_scheme \<Rightarrow> u64 \<Rightarrow> (SaleConfig \<Rightarrow> 'e tx_error + 'a) \<Rightarrow> 'e tx_error + 'a"
  where
  "load_sale_config env w nonce k =
     ok_or (ps_sales w nonce) AccountNotInitialized (\<lambda>c.
       require (sl_bump c = bump_of env (sale_config_pda nonce)) ConstraintSeeds (k c))"

text \<open>\<open>#[account(init_if_needed, seeds = [CONTRIBUTION_SEED, sale_config, buyer])]\<close>: a new
  account is zeroed.\<close>

definition contribution_or_new :: "'z presale_chain_scheme \<Rightarrow> u64 \<Rightarrow> pubkey \<Rightarrow> Contribution" where
  "contribution_or_new w nonce buyer =
     (case ps_contributions w (nonce, buyer) of
        Some c \<Rightarrow> c
      | None \<Rightarrow> \<lparr> cb_buyer = default_pubkey, cb_amount_usdc = 0, cb_open_entitlement = 0,
                  cb_claimed_open = 0, cb_bump = 0 \<rparr>)"

text \<open>\<open>#[account(init_if_needed, associated_token::mint = .., associated_token::authority = ..)]\<close>\<close>

definition associated_token_or_new ::
  "pubkey \<Rightarrow> pubkey \<Rightarrow> pubkey \<Rightarrow> 'z chain_scheme \<Rightarrow> 'e tx_error + 'z chain_scheme" where
  "associated_token_or_new owner token_program mint w =
     (case c_tokens w (associated_token_address owner token_program mint) of
        None \<Rightarrow> init_token (associated_token_address owner token_program mint) mint owner w
      | Some t \<Rightarrow> require (ta_mint t = mint) ConstraintTokenMint
                 (require (ta_owner t = owner) ConstraintTokenOwner (Inr w)))"

lemmas presale_load_defs =
  load_sale_config_def contribution_or_new_def associated_token_or_new_def load_mint_def
  load_token_def

end
