(* ===== verification/Presale_Instructions.thy ===== *)
theory Presale_Instructions
  imports Presale_State
begin

text \<open>
  The instruction handlers of the presale program (\<open>programs/presale/src/instructions\<close>). An
  account that the sale pins by address (its vaults, its mints, its treasury) is read from the
  sale, since no other address passes the constraint; the arguments are the signers, the accounts
  the caller is free to choose and the instruction data. The swap aggregator a contribution may
  go through is third-party code and an argument of its handler.
\<close>


section \<open>Setting up a sale\<close>

record InitializeSaleParams =
  is_hard_cap :: u64
  is_soft_cap :: u64
  is_min_contribution :: u64
  is_max_contribution :: u64
  is_max_slippage_bps :: u16
  is_open_per_usdc :: u64
  is_start_time :: i64
  is_end_time :: i64
  is_stablecoin_whitelist :: "pubkey list"

definition handle_initialize_sale ::
  "env \<Rightarrow> pubkey \<Rightarrow> u64 \<Rightarrow> pubkey \<Rightarrow> pubkey \<Rightarrow> pubkey \<Rightarrow> pubkey \<Rightarrow> pubkey \<Rightarrow> pubkey
   \<Rightarrow> InitializeSaleParams \<Rightarrow> 'z presale_chain_scheme \<Rightarrow> 'z presale_result" where
  "handle_initialize_sale env admin nonce open_mint usdc_mint token_program presale_vault treasury
       swap_program params w =
     ok_or (c_mints w open_mint) AccountNotInitialized (\<lambda>open_account.
     load_mint w usdc_mint token_program (\<lambda>usdc_account.
     load_token w presale_vault (\<lambda>vault_account.
     load_token w treasury (\<lambda>treasury_account.
     require (ps_sales w nonce = None) AccountInUse
     (and_then (init_token (sale_usdc_vault_pda nonce) usdc_mint (sale_config_pda nonce) w) (\<lambda>w.
      require (ta_mint vault_account = open_mint) ConstraintRaw
     (require (ta_owner vault_account = presale_vault_authority_pda) (Program Unauthorized)
     (require (ta_mint treasury_account = usdc_mint) ConstraintRaw
     (require (length (is_stablecoin_whitelist params) \<le> MAX_STABLECOINS) (Program WhitelistTooLong)
     (require (is_hard_cap params > is_soft_cap params) (Program HardCapNotGreaterThanSoftCap)
     (require (is_soft_cap params = 0) (Program SoftCapNotSupported)
     (require (is_min_contribution params > 0
               \<and> is_min_contribution params \<le> is_max_contribution params)
        (Program InvalidContributionBounds)
     (require (is_end_time params > is_start_time params) (Program InvalidSaleWindow)
     (require (is_max_slippage_bps params > 0
               \<and> ucast (is_max_slippage_bps params) \<le> PRESALE_BPS_DENOMINATOR)
        (Program InvalidSlippageBps)
     (require (is_open_per_usdc params > 0) (Program InvalidRate)
     (require (mi_decimals open_account \<ge> mi_decimals usdc_account) (Program Overflow)
     (Inr (put_sale nonce
        \<lparr> sl_admin = admin, sl_open_mint = open_mint, sl_usdc_mint = usdc_mint,
          sl_presale_vault = presale_vault, sl_usdc_vault = sale_usdc_vault_pda nonce,
          sl_treasury = treasury, sl_swap_program = swap_program,
          sl_hard_cap = is_hard_cap params, sl_soft_cap = is_soft_cap params,
          sl_min_contribution = is_min_contribution params,
          sl_max_contribution = is_max_contribution params,
          sl_max_slippage_bps = is_max_slippage_bps params,
          sl_open_per_usdc = is_open_per_usdc params,
          sl_open_decimals = mi_decimals open_account, sl_usdc_decimals = mi_decimals usdc_account,
          sl_start_time = is_start_time params, sl_end_time = is_end_time params,
          sl_stablecoin_whitelist = is_stablecoin_whitelist params, sl_total_raised = 0,
          sl_state = Active, sl_bump = bump_of env (sale_config_pda nonce),
          sl_usdc_vault_bump = bump_of env (sale_usdc_vault_pda nonce) \<rparr> w))))))))))))))))))"

record UpdateSaleParamsArgs =
  us_hard_cap :: u64
  us_soft_cap :: u64
  us_min_contribution :: u64
  us_max_contribution :: u64
  us_max_slippage_bps :: u16
  us_open_per_usdc :: u64
  us_end_time :: i64

definition handle_update_sale_params ::
  "env \<Rightarrow> pubkey \<Rightarrow> u64 \<Rightarrow> UpdateSaleParamsArgs \<Rightarrow> 'z presale_chain_scheme \<Rightarrow> 'z presale_result" where
  "handle_update_sale_params env admin nonce params w =
     load_sale_config env w nonce (\<lambda>sale.
     require (sl_admin sale = admin) (Program Unauthorized)
     (require (sl_state sale = Active) (Program SaleAlreadyResolved)
     (require (us_hard_cap params > us_soft_cap params) (Program HardCapNotGreaterThanSoftCap)
     (require (us_soft_cap params = 0) (Program SoftCapNotSupported)
     (require (us_min_contribution params > 0
               \<and> us_min_contribution params \<le> us_max_contribution params)
        (Program InvalidContributionBounds)
     (require (us_max_slippage_bps params > 0
               \<and> ucast (us_max_slippage_bps params) \<le> PRESALE_BPS_DENOMINATOR)
        (Program InvalidSlippageBps)
     (require (us_open_per_usdc params > 0) (Program InvalidRate)
     (require (us_end_time params > sl_start_time sale) (Program InvalidSaleWindow)
     (require (us_hard_cap params \<ge> sl_total_raised sale) (Program HardCapExceeded)
     (Inr (put_sale nonce (sale\<lparr>
        sl_hard_cap := us_hard_cap params, sl_soft_cap := us_soft_cap params,
        sl_min_contribution := us_min_contribution params,
        sl_max_contribution := us_max_contribution params,
        sl_max_slippage_bps := us_max_slippage_bps params,
        sl_open_per_usdc := us_open_per_usdc params, sl_end_time := us_end_time params\<rparr>) w)))))))))))"


section \<open>Contributing\<close>

definition handle_contribute_usdc ::
  "env \<Rightarrow> sysvars \<Rightarrow> pubkey \<Rightarrow> u64 \<Rightarrow> pubkey \<Rightarrow> pubkey \<Rightarrow> u64 \<Rightarrow> 'z presale_chain_scheme
   \<Rightarrow> 'z presale_result" where
  "handle_contribute_usdc env sv buyer nonce buyer_usdc token_program amount w =
     load_sale_config env w nonce (\<lambda>sale.
     load_token w buyer_usdc (\<lambda>buyer_account.
     load_token w (sl_usdc_vault sale) (\<lambda>_.
     load_mint w (sl_usdc_mint sale) token_program (\<lambda>_.
     require (ta_owner buyer_account = buyer) ConstraintRaw
     (require (ta_mint buyer_account = sl_usdc_mint sale) ConstraintRaw
     (require (\<not> banned w buyer) (Program WalletBanned)
     (let now = unix_timestamp sv; contribution = contribution_or_new w nonce buyer in
      require (sl_state sale = Active) (Program SaleNotActive)
     (require (now \<ge> sl_start_time sale) (Program SaleNotStarted)
     (require (now \<le> sl_end_time sale) (Program SaleEnded)
     (require (cb_amount_usdc contribution = 0 \<longrightarrow> amount \<ge> sl_min_contribution sale)
        (Program BelowMinimumContribution)
     (ok_or (checked_add (cb_amount_usdc contribution) amount) (Program Overflow) (\<lambda>new_wallet_total.
      require (new_wallet_total \<le> sl_max_contribution sale) (Program AboveMaximumContribution)
     (ok_or (checked_add (sl_total_raised sale) amount) (Program Overflow) (\<lambda>new_total_raised.
      require (new_total_raised \<le> sl_hard_cap sale) (Program HardCapExceeded)
     (and_then (cpi_transfer env token_program buyer_usdc (sl_usdc_mint sale) (sl_usdc_vault sale)
                  buyer amount (sl_usdc_decimals sale) w) (\<lambda>w.
      open_entitlement_for sale amount (\<lambda>open_delta.
      ok_or (checked_add (cb_open_entitlement contribution) open_delta) (Program Overflow)
        (\<lambda>open_entitlement.
      Inr (put_sale nonce (sale\<lparr>sl_total_raised := new_total_raised\<rparr>)
          (put_contribution nonce buyer (contribution\<lparr>
             cb_buyer := buyer, cb_amount_usdc := new_wallet_total,
             cb_open_entitlement := open_entitlement,
             cb_bump := bump_of env (contribution_pda nonce buyer)\<rparr>) w))))))))))))))))))))"

text \<open>
  A call into a program: which one, the accounts and the data it is given, and the chain it finds.
  The callee may change anything on the chain; the caller holds the sale and the contribution it
  read before the call, and writes those copies back.
\<close>

type_synonym 'z swap_fn =
  "pubkey \<Rightarrow> pubkey list \<Rightarrow> u8 list \<Rightarrow> 'z presale_chain_scheme \<Rightarrow> 'z presale_chain_scheme option"

definition handle_contribute_with_swap ::
  "env \<Rightarrow> 'z swap_fn \<Rightarrow> sysvars \<Rightarrow> pubkey \<Rightarrow> u64 \<Rightarrow> pubkey \<Rightarrow> pubkey \<Rightarrow> pubkey list \<Rightarrow> u64 \<Rightarrow> u8 list
   \<Rightarrow> 'z presale_chain_scheme \<Rightarrow> 'z presale_result" where
  "handle_contribute_with_swap env swap sv buyer nonce source_mint swap_program remaining_accounts
       expected_usdc_out swap_instruction_data w =
     load_sale_config env w nonce (\<lambda>sale.
     ok_or (c_mints w source_mint) AccountNotInitialized (\<lambda>_.
     load_token w (sl_usdc_vault sale) (\<lambda>vault_before.
     require (\<not> banned w buyer) (Program WalletBanned)
     (let now = unix_timestamp sv; contribution = contribution_or_new w nonce buyer in
      require (sl_state sale = Active) (Program SaleNotActive)
     (require (now \<ge> sl_start_time sale) (Program SaleNotStarted)
     (require (now \<le> sl_end_time sale) (Program SaleEnded)
     (require (source_mint \<noteq> sl_usdc_mint sale) (Program UseDirectUsdcPath)
     (require (source_mint = WSOL_MINT \<or> source_mint \<in> set (sl_stablecoin_whitelist sale))
        (Program AssetNotWhitelisted)
     (require (swap_program = sl_swap_program sale) (Program SwapProgramMismatch)
     (ok_or (checked_sub PRESALE_BPS_DENOMINATOR (ucast (sl_max_slippage_bps sale))) Panicked
        (\<lambda>keep_bps.
      ok_or (mul_div_u64 expected_usdc_out keep_bps PRESALE_BPS_DENOMINATOR) (Program Overflow)
        (\<lambda>min_usdc_out.
      ok_or (swap swap_program remaining_accounts swap_instruction_data w) CpiFailed (\<lambda>w.
      load_token w (sl_usdc_vault sale) (\<lambda>vault_after.
      ok_or (checked_sub (ta_amount vault_after) (ta_amount vault_before)) (Program Overflow) (\<lambda>delta.
      require (delta \<ge> min_usdc_out) (Program SlippageExceeded)
     (require (cb_amount_usdc contribution = 0 \<longrightarrow> delta \<ge> sl_min_contribution sale)
        (Program BelowMinimumContribution)
     (ok_or (checked_add (cb_amount_usdc contribution) delta) (Program Overflow) (\<lambda>new_wallet_total.
      require (new_wallet_total \<le> sl_max_contribution sale) (Program AboveMaximumContribution)
     (ok_or (checked_add (sl_total_raised sale) delta) (Program Overflow) (\<lambda>new_total_raised.
      require (new_total_raised \<le> sl_hard_cap sale) (Program HardCapExceeded)
     (open_entitlement_for sale delta (\<lambda>open_delta.
      ok_or (checked_add (cb_open_entitlement contribution) open_delta) (Program Overflow)
        (\<lambda>open_entitlement.
      Inr (put_sale nonce (sale\<lparr>sl_total_raised := new_total_raised\<rparr>)
          (put_contribution nonce buyer (contribution\<lparr>
             cb_buyer := buyer, cb_amount_usdc := new_wallet_total,
             cb_open_entitlement := open_entitlement,
             cb_bump := bump_of env (contribution_pda nonce buyer)\<rparr>) w)))))))))))))))))))))))))"

definition handle_deliver_contribution ::
  "env \<Rightarrow> sysvars \<Rightarrow> pubkey \<Rightarrow> u64 \<Rightarrow> pubkey \<Rightarrow> pubkey \<Rightarrow> pubkey \<Rightarrow> pubkey \<Rightarrow> u64
   \<Rightarrow> 'z presale_chain_scheme \<Rightarrow> 'z presale_result" where
  "handle_deliver_contribution env sv payer nonce recipient source_usdc usdc_token_program
       open_token_program usdc_amount w =
     load_sale_config env w nonce (\<lambda>sale.
     load_mint w (sl_usdc_mint sale) usdc_token_program (\<lambda>_.
     load_token w source_usdc (\<lambda>_.
     load_token w (sl_usdc_vault sale) (\<lambda>vault_before.
     load_mint w (sl_open_mint sale) open_token_program (\<lambda>_.
     load_token w (sl_presale_vault sale) (\<lambda>_.
     and_then (associated_token_or_new recipient open_token_program (sl_open_mint sale) w) (\<lambda>w.
     let now = unix_timestamp sv; contribution = contribution_or_new w nonce recipient;
         recipient_open = associated_token_address recipient open_token_program (sl_open_mint sale)
     in
     require (\<not> banned w recipient) (Program WalletBanned)
     (require (sl_state sale = Active) (Program SaleNotActive)
     (require (now \<ge> sl_start_time sale) (Program SaleNotStarted)
     (require (now \<le> sl_end_time sale) (Program SaleEnded)
     (and_then (cpi_transfer env usdc_token_program source_usdc (sl_usdc_mint sale)
                  (sl_usdc_vault sale) payer usdc_amount (sl_usdc_decimals sale) w) (\<lambda>w.
      load_token w (sl_usdc_vault sale) (\<lambda>vault_after.
      ok_or (checked_sub (ta_amount vault_after) (ta_amount vault_before)) (Program Overflow) (\<lambda>delta.
      require (delta = usdc_amount) (Program UsdcDeliveryMismatch)
     (require (cb_amount_usdc contribution = 0 \<longrightarrow> delta \<ge> sl_min_contribution sale)
        (Program BelowMinimumContribution)
     (ok_or (checked_add (cb_amount_usdc contribution) delta) (Program Overflow) (\<lambda>new_wallet_total.
      require (new_wallet_total \<le> sl_max_contribution sale) (Program AboveMaximumContribution)
     (ok_or (checked_add (sl_total_raised sale) delta) (Program Overflow) (\<lambda>new_total_raised.
      require (new_total_raised \<le> sl_hard_cap sale) (Program HardCapExceeded)
     (open_entitlement_for sale delta (\<lambda>open_out.
      and_then (cpi_transfer env open_token_program (sl_presale_vault sale) (sl_open_mint sale)
                  recipient_open presale_vault_authority_pda open_out (sl_open_decimals sale) w) (\<lambda>w.
      ok_or (checked_add (cb_open_entitlement contribution) open_out) (Program Overflow)
        (\<lambda>open_entitlement.
      ok_or (checked_add (cb_claimed_open contribution) open_out) (Program Overflow) (\<lambda>claimed_open.
      Inr (emit_presale (ContributionDelivered recipient delta open_out new_total_raised)
          (put_sale nonce (sale\<lparr>sl_total_raised := new_total_raised\<rparr>)
          (put_contribution nonce recipient (contribution\<lparr>
             cb_buyer := recipient, cb_amount_usdc := new_wallet_total,
             cb_open_entitlement := open_entitlement, cb_claimed_open := claimed_open,
             cb_bump := bump_of env (contribution_pda nonce recipient)\<rparr>) w)))))))))))))))))))))))))))"


section \<open>Paying out\<close>

definition handle_claim ::
  "env \<Rightarrow> pubkey \<Rightarrow> u64 \<Rightarrow> pubkey \<Rightarrow> pubkey \<Rightarrow> 'z presale_chain_scheme \<Rightarrow> 'z presale_result" where
  "handle_claim env buyer nonce buyer_open token_program w =
     load_sale_config env w nonce (\<lambda>sale.
     load_mint w (sl_open_mint sale) token_program (\<lambda>_.
     load_token w (sl_presale_vault sale) (\<lambda>_.
     ok_or (ps_contributions w (nonce, buyer)) AccountNotInitialized (\<lambda>contribution.
     load_token w buyer_open (\<lambda>buyer_account.
     require (cb_bump contribution = bump_of env (contribution_pda nonce buyer)) ConstraintSeeds
     (require (cb_buyer contribution = buyer) (Program Unauthorized)
     (require (ta_owner buyer_account = buyer) ConstraintRaw
     (require (ta_mint buyer_account = sl_open_mint sale) ConstraintRaw
     (ok_or (checked_sub (cb_open_entitlement contribution) (cb_claimed_open contribution))
        (Program Overflow) (\<lambda>unclaimed.
      require (unclaimed > 0) (Program NothingToClaim)
     (and_then (cpi_transfer env token_program (sl_presale_vault sale) (sl_open_mint sale) buyer_open
                  presale_vault_authority_pda unclaimed (sl_open_decimals sale) w) (\<lambda>w.
      Inr (put_contribution nonce buyer
        (contribution\<lparr>cb_claimed_open := cb_open_entitlement contribution\<rparr>) w)))))))))))))"

definition handle_sweep_proceeds ::
  "env \<Rightarrow> pubkey \<Rightarrow> u64 \<Rightarrow> pubkey \<Rightarrow> u64 \<Rightarrow> 'z presale_chain_scheme \<Rightarrow> 'z presale_result" where
  "handle_sweep_proceeds env admin nonce token_program amount w =
     load_sale_config env w nonce (\<lambda>sale.
     load_token w (sl_usdc_vault sale) (\<lambda>vault.
     load_token w (sl_treasury sale) (\<lambda>_.
     load_mint w (sl_usdc_mint sale) token_program (\<lambda>_.
     require (sl_admin sale = admin) (Program Unauthorized)
     (require (sl_state sale = Active) (Program SaleAlreadyResolved)
     (require (amount > 0 \<and> amount \<le> ta_amount vault) (Program InvalidSweepAmount)
     (and_then (cpi_transfer env token_program (sl_usdc_vault sale) (sl_usdc_mint sale)
                  (sl_treasury sale) (sale_config_pda nonce) amount (sl_usdc_decimals sale) w) (\<lambda>w.
      Inr (emit_presale
        (ProceedsSwept (sale_config_pda nonce) (sl_treasury sale) amount (ta_amount vault - amount)) w)))))))))"

definition handle_finalize_sale ::
  "env \<Rightarrow> sysvars \<Rightarrow> pubkey \<Rightarrow> u64 \<Rightarrow> pubkey \<Rightarrow> 'z presale_chain_scheme \<Rightarrow> 'z presale_result" where
  "handle_finalize_sale env sv admin nonce token_program w =
     load_sale_config env w nonce (\<lambda>sale.
     load_token w (sl_usdc_vault sale) (\<lambda>vault.
     load_token w (sl_treasury sale) (\<lambda>_.
     load_mint w (sl_usdc_mint sale) token_program (\<lambda>_.
     require (sl_admin sale = admin) (Program Unauthorized)
     (require (sl_state sale = Active) (Program SaleAlreadyResolved)
     (require (unix_timestamp sv > sl_end_time sale \<or> sl_total_raised sale \<ge> sl_hard_cap sale)
        (Program SaleNotEnded)
     (and_then
        (if ta_amount vault > 0
         then cpi_transfer env token_program (sl_usdc_vault sale) (sl_usdc_mint sale)
                (sl_treasury sale) (sale_config_pda nonce) (ta_amount vault) (sl_usdc_decimals sale) w
         else Inr w) (\<lambda>w.
      Inr (put_sale nonce (sale\<lparr>sl_state := Finalized\<rparr>) w)))))))))"

lemmas presale_handler_defs =
  handle_initialize_sale_def handle_update_sale_params_def handle_contribute_usdc_def
  handle_contribute_with_swap_def handle_deliver_contribution_def handle_claim_def
  handle_sweep_proceeds_def handle_finalize_sale_def

end
