(* ===== verification/Presale_System.thy ===== *)
theory Presale_System
  imports Presale_Instructions
begin

text \<open>
  The presale program as a transition system: the dispatcher of \<open>programs/presale/src/lib.rs\<close>,
  its steps interleaved with the rest of the chain, what the three ways to contribute have in
  common as one abstract credit, and the invariant of every reachable state: a sale's total is
  the sum of its contributions, stays under its hard cap, and is covered by its vault together
  with what was swept.
\<close>


section \<open>Steps\<close>

datatype presale_ix =
    IxInitializeSale pubkey u64 pubkey pubkey pubkey pubkey pubkey pubkey InitializeSaleParams
  | IxContributeUsdc pubkey u64 pubkey pubkey u64
  | IxContributeWithSwap pubkey u64 pubkey pubkey "pubkey list" u64 "u8 list"
  | IxDeliverContribution pubkey u64 pubkey pubkey pubkey pubkey u64
  | IxFinalizeSale pubkey u64 pubkey
  | IxClaim pubkey u64 pubkey pubkey
  | IxSweepProceeds pubkey u64 pubkey u64
  | IxUpdateSaleParams pubkey u64 UpdateSaleParamsArgs

fun presale_dispatch ::
  "env \<Rightarrow> 'z swap_fn \<Rightarrow> sysvars \<Rightarrow> presale_ix \<Rightarrow> 'z presale_chain_scheme \<Rightarrow> 'z presale_result" where
  "presale_dispatch env swap sv (IxInitializeSale admin nonce open_mint usdc_mint tp presale_vault
       treasury swap_program params) w =
     handle_initialize_sale env admin nonce open_mint usdc_mint tp presale_vault treasury
       swap_program params w"
| "presale_dispatch env swap sv (IxContributeUsdc buyer nonce buyer_usdc tp amount) w =
     handle_contribute_usdc env sv buyer nonce buyer_usdc tp amount w"
| "presale_dispatch env swap sv (IxContributeWithSwap buyer nonce source_mint swap_program accounts
       expected data) w =
     handle_contribute_with_swap env swap sv buyer nonce source_mint swap_program accounts expected
       data w"
| "presale_dispatch env swap sv (IxDeliverContribution payer nonce recipient source utp otp amount) w =
     handle_deliver_contribution env sv payer nonce recipient source utp otp amount w"
| "presale_dispatch env swap sv (IxFinalizeSale admin nonce tp) w =
     handle_finalize_sale env sv admin nonce tp w"
| "presale_dispatch env swap sv (IxClaim buyer nonce buyer_open tp) w =
     handle_claim env buyer nonce buyer_open tp w"
| "presale_dispatch env swap sv (IxSweepProceeds admin nonce tp amount) w =
     handle_sweep_proceeds env admin nonce tp amount w"
| "presale_dispatch env swap sv (IxUpdateSaleParams admin nonce params) w =
     handle_update_sale_params env admin nonce params w"

fun presale_signer :: "presale_ix \<Rightarrow> pubkey" where
  "presale_signer (IxInitializeSale admin _ _ _ _ _ _ _ _) = admin"
| "presale_signer (IxContributeUsdc buyer _ _ _ _) = buyer"
| "presale_signer (IxContributeWithSwap buyer _ _ _ _ _ _) = buyer"
| "presale_signer (IxDeliverContribution payer _ _ _ _ _ _) = payer"
| "presale_signer (IxFinalizeSale admin _ _) = admin"
| "presale_signer (IxClaim buyer _ _ _) = buyer"
| "presale_signer (IxSweepProceeds admin _ _ _) = admin"
| "presale_signer (IxUpdateSaleParams admin _ _) = admin"

definition presale_frame :: "'z presale_chain_scheme \<Rightarrow> 'z presale_chain_scheme \<Rightarrow> bool" where
  "presale_frame w w' \<longleftrightarrow> ps_sales w' = ps_sales w \<and> ps_contributions w' = ps_contributions w
     \<and> ps_log w' = ps_log w \<and> outside PresaleProgram (c_tokens w) (c_tokens w')"

inductive presale_step ::
  "env \<Rightarrow> 'z swap_fn \<Rightarrow> i64 \<times> 'z presale_chain_scheme \<Rightarrow> i64 \<times> 'z presale_chain_scheme \<Rightarrow> bool"
  for env swap where
  presale_step_ix:
    "\<lbrakk> t \<le> unix_timestamp sv; \<not> signs_for PresaleProgram (presale_signer ix);
       presale_dispatch env swap sv ix w = Inr w' \<rbrakk>
     \<Longrightarrow> presale_step env swap (t, w) (unix_timestamp sv, w')"
| presale_step_outside:
    "\<lbrakk> t \<le> t'; presale_frame w w' \<rbrakk> \<Longrightarrow> presale_step env swap (t, w) (t', w')"

inductive_cases presale_stepE: "presale_step env swap (t, w) (t', w')"

definition presale_genesis :: "i64 \<times> 'z presale_chain_scheme \<Rightarrow> bool" where
  "presale_genesis s \<longleftrightarrow> ps_sales (snd s) = Map.empty \<and> ps_contributions (snd s) = Map.empty
     \<and> (\<forall>nonce. c_tokens (snd s) (sale_usdc_vault_pda nonce) = None)"

text \<open>
  What the program relies on when it calls the swap program. A sale records its swap program
  unchecked; it has to be the trusted aggregator (\<open>initialize_sale.rs\<close>). The aggregator is none of
  the four programs: it moves tokens and changes no account of theirs, and as the call carries no
  signature of a program-derived address, it is to their token accounts what the rest of the chain
  is. A sale whose swap program is the presale itself is outside this law.
\<close>

definition protocol_programs :: "program_id set" where
  "protocol_programs = {EscrowProgram, StakingProgram, GovernanceProgram, PresaleProgram}"

locale swap_env = token_env +
  fixes S :: "'z swap_fn"
  assumes swap_tokens:
    "S program accounts data w = Some w' \<Longrightarrow> w' = w\<lparr>c_tokens := c_tokens w'\<rparr>"
  assumes swap_outside:
    "\<lbrakk> S program accounts data w = Some w'; p \<in> protocol_programs \<rbrakk>
     \<Longrightarrow> outside p (c_tokens w) (c_tokens w')"

text \<open>A reference aggregator: it pays from an account whose owner is no protocol address.\<close>

definition ref_swap :: "'z swap_fn" where
  "ref_swap program accounts data w =
     (case accounts of
        [from, mint, to, authority, tp] \<Rightarrow>
          if (\<exists>p\<in>protocol_programs. signs_for p authority) then None
          else (case c_mints w mint of None \<Rightarrow> None | Some mi \<Rightarrow>
            map_option (\<lambda>L. w\<lparr>c_tokens := L\<rparr>) (ref_transfer_checked tp
              \<lparr> tc_from = from, tc_mint = mint, tc_to = to, tc_authority = authority \<rparr>
              (u64_from_le_bytes data) (mi_decimals mi) (c_mints w) (c_tokens w)))
      | _ \<Rightarrow> None)"

interpretation ref_swap: swap_env ref_env ref_swap
proof unfold_locales
  fix program accounts data and w w' :: "'a presale_chain_scheme"
  assume "ref_swap program accounts data w = Some w'"
  then show "w' = w\<lparr>c_tokens := c_tokens w'\<rparr>"
    by (auto simp: ref_swap_def split: list.splits if_splits option.splits)
next
  fix program accounts data p and w w' :: "'a presale_chain_scheme"
  assume "ref_swap program accounts data w = Some w'" and p: "p \<in> protocol_programs"
  then obtain "from" mint to authority tp and mi :: mint_account where
    ok: "\<not> signs_for p authority" "ref_transfer_checked tp
      \<lparr> tc_from = from, tc_mint = mint, tc_to = to, tc_authority = authority \<rparr>
      (u64_from_le_bytes data) (mi_decimals mi) (c_mints w) (c_tokens w) = Some (c_tokens w')"
    by (auto simp: ref_swap_def split: list.splits if_splits option.splits)
  have "cpi_transfer ref_env tp from mint to authority (u64_from_le_bytes data) (mi_decimals mi) w
      = (Inr (w\<lparr>c_tokens := c_tokens w'\<rparr>) :: unit tx_error + 'a presale_chain_scheme)"
    using ok(2) by (simp add: cpi_transfer_def ref_env_def)
  from ref.transfer_outside [OF this ok(1)] show "outside p (c_tokens w) (c_tokens w')" by simp
qed


section \<open>The abstract credit\<close>

lemma checked_pow10_Some: "checked_pow10 n = Some s \<longleftrightarrow> (10::nat) ^ n < 2 ^ 64 \<and> unat s = 10 ^ n"
proof -
  have "unat ((10::u64) ^ n) = 10 ^ n" if "(10::nat) ^ n < 2 ^ 64"
  proof -
    have "unat (word_of_nat (10 ^ n) :: u64) = 10 ^ n"
      using that by (simp add: unat_of_nat del: of_nat_power)
    then show ?thesis by simp
  qed
  then show ?thesis by (auto simp: checked_pow10_def word_unat_eq_iff)
qed

lemma checked_mul_Some: "checked_mul a b = Some c \<longleftrightarrow> unat c = unat a * unat b"
proof
  assume "checked_mul a b = Some c"
  then show "unat c = unat a * unat b"
    by (auto simp: checked_mul_def unat_word_ariths split: if_splits)
next
  assume eq: "unat c = unat a * unat b"
  then have "unat a * unat b < 2 ^ LENGTH('a)" using unat_lt_2p [of c] by simp
  with eq show "checked_mul a b = Some c"
    by (simp add: checked_mul_def word_unat_eq_iff unat_word_ariths)
qed

text \<open>The exact OPEN value of an amount of USDC.\<close>

definition open_value :: "SaleConfig \<Rightarrow> nat \<Rightarrow> nat" where
  "open_value s usdc =
     usdc * 10 ^ (unat (sl_open_decimals s) - unat (sl_usdc_decimals s)) * unat (sl_open_per_usdc s)"

lemma open_value_zero [simp]: "open_value s 0 = 0"
  by (simp add: open_value_def)

lemma open_entitlement_forE:
  assumes "open_entitlement_for s a k = Inr x"
  obtains e where "unat e = open_value s (unat a)" and "k e = Inr x"
  using assms
  by (auto simp: open_entitlement_for_def open_value_def checked_sub_Some checked_pow10_Some
      checked_mul_Some)

text \<open>What every way to contribute does: it credits wallet \<open>k\<close> with \<open>d\<close> units of USDC and
  \<open>e\<close> of OPEN, of which \<open>paid\<close> are handed over at once, under the sale's conditions.\<close>

definition credit ::
  "env \<Rightarrow> u64 \<Rightarrow> pubkey \<Rightarrow> SaleConfig \<Rightarrow> u64 \<Rightarrow> u64 \<Rightarrow> u64 \<Rightarrow> 'z presale_chain_scheme
   \<Rightarrow> 'z presale_chain_scheme" where
  "credit env nonce k sale d e paid w =
     put_sale nonce (sale\<lparr>sl_total_raised := sl_total_raised sale + d\<rparr>)
     (put_contribution nonce k
        (let c = contribution_or_new w nonce k in
         c\<lparr>cb_buyer := k, cb_amount_usdc := cb_amount_usdc c + d,
           cb_open_entitlement := cb_open_entitlement c + e,
           cb_claimed_open := cb_claimed_open c + paid,
           cb_bump := bump_of env (contribution_pda nonce k)\<rparr>) w)"

definition credit_ok ::
  "'z presale_chain_scheme \<Rightarrow> i64 \<Rightarrow> u64 \<Rightarrow> pubkey \<Rightarrow> SaleConfig \<Rightarrow> u64 \<Rightarrow> u64 \<Rightarrow> u64 \<Rightarrow> bool" where
  "credit_ok w now nonce k sale d e paid \<longleftrightarrow>
     ps_sales w nonce = Some sale \<and> sl_state sale = Active \<and> \<not> banned w k
     \<and> sl_start_time sale \<le> now \<and> now \<le> sl_end_time sale
     \<and> unat (sl_total_raised sale) + unat d \<le> unat (sl_hard_cap sale)
     \<and> unat (cb_amount_usdc (contribution_or_new w nonce k)) + unat d
         \<le> unat (sl_max_contribution sale)
     \<and> (cb_amount_usdc (contribution_or_new w nonce k) = 0 \<longrightarrow>
          unat (sl_min_contribution sale) \<le> unat d)
     \<and> unat e = open_value sale (unat d)
     \<and> unat (cb_open_entitlement (contribution_or_new w nonce k)) + unat e < 2 ^ 64
     \<and> unat (cb_claimed_open (contribution_or_new w nonce k)) + unat paid < 2 ^ 64
     \<and> (paid = 0 \<or> paid = e)"

lemma contribution_or_new_tokens [simp]:
  "contribution_or_new (w\<lparr>c_tokens := L\<rparr>) nonce k = contribution_or_new w nonce k"
  by (simp add: contribution_or_new_def)

lemma credit_fields [simp]:
  "ps_sales (credit env nonce k sale d e paid w)
     = (ps_sales w)(nonce \<mapsto> sale\<lparr>sl_total_raised := sl_total_raised sale + d\<rparr>)"
  "c_tokens (credit env nonce k sale d e paid w) = c_tokens w"
  "ps_log (credit env nonce k sale d e paid w) = ps_log w"
  by (simp_all add: credit_def presale_world_simps)

lemma credit_contribution:
  "ps_contributions (credit env nonce k sale d e paid w) =
     (ps_contributions w)((nonce, k) \<mapsto>
        (let c = contribution_or_new w nonce k in
         c\<lparr>cb_buyer := k, cb_amount_usdc := cb_amount_usdc c + d,
           cb_open_entitlement := cb_open_entitlement c + e,
           cb_claimed_open := cb_claimed_open c + paid,
           cb_bump := bump_of env (contribution_pda nonce k)\<rparr>))"
  by (simp add: credit_def presale_world_simps)

lemma credit_sums:
  assumes "credit_ok w now nonce k sale d e paid"
  shows "unat (sl_total_raised sale + d) = unat (sl_total_raised sale) + unat d"
    and "unat (cb_amount_usdc (contribution_or_new w nonce k) + d)
      = unat (cb_amount_usdc (contribution_or_new w nonce k)) + unat d"
    and "unat (cb_open_entitlement (contribution_or_new w nonce k) + e)
      = unat (cb_open_entitlement (contribution_or_new w nonce k)) + unat e"
    and "unat (cb_claimed_open (contribution_or_new w nonce k) + paid)
      = unat (cb_claimed_open (contribution_or_new w nonce k)) + unat paid"
  using assms unat_lt_2p [of "sl_hard_cap sale"] unat_lt_2p [of "sl_max_contribution sale"]
  by (auto simp: credit_ok_def unat_word_ariths)

lemma checked_add_sum: "checked_add a b = Some c \<Longrightarrow> c = a + b \<and> unat a + unat b = unat c"
  by (metis checked_add_Some checked_add_def option.distinct(1) option.inject)

lemma contribute_usdcE:
  fixes w :: "'z presale_chain_scheme"
  assumes "handle_contribute_usdc env sv buyer nonce buyer_usdc tp amount w = Inr w'"
  obtains sale e t w1 where "credit_ok w (unix_timestamp sv) nonce buyer sale amount e 0"
    and "w' = credit env nonce buyer sale amount e 0 w1"
    and "c_tokens w buyer_usdc = Some t" and "ta_owner t = buyer"
    and "cpi_transfer env tp buyer_usdc (sl_usdc_mint sale) (sl_usdc_vault sale) buyer amount
           (sl_usdc_decimals sale) w = (Inr w1 :: PresaleErrorCode tx_error + 'z presale_chain_scheme)"
proof -
  let ?c = "contribution_or_new w nonce buyer"
  from assms obtain sale t w1 tot raised ent where
    a: "ps_sales w nonce = Some sale" "c_tokens w buyer_usdc = Some t" "ta_owner t = buyer"
      "\<not> banned w buyer" "sl_state sale = Active" "sl_start_time sale \<le> unix_timestamp sv"
      "unix_timestamp sv \<le> sl_end_time sale"
      "cb_amount_usdc ?c = 0 \<longrightarrow> sl_min_contribution sale \<le> amount"
      "checked_add (cb_amount_usdc ?c) amount = Some tot" "tot \<le> sl_max_contribution sale"
      "checked_add (sl_total_raised sale) amount = Some raised" "raised \<le> sl_hard_cap sale"
    and cpi: "cpi_transfer env tp buyer_usdc (sl_usdc_mint sale) (sl_usdc_vault sale) buyer amount
           (sl_usdc_decimals sale) w = (Inr w1 :: PresaleErrorCode tx_error + 'z presale_chain_scheme)"
    and k: "open_entitlement_for sale amount (\<lambda>open_delta.
        ok_or (checked_add (cb_open_entitlement ?c) open_delta) (Program Overflow) (\<lambda>open_entitlement.
        Inr (put_sale nonce (sale\<lparr>sl_total_raised := raised\<rparr>)
          (put_contribution nonce buyer (?c\<lparr>cb_buyer := buyer, cb_amount_usdc := tot,
             cb_open_entitlement := open_entitlement,
             cb_bump := bump_of env (contribution_pda nonce buyer)\<rparr>) w1)))) = Inr w'"
    by (auto simp: handle_contribute_usdc_def presale_load_defs(1,4,5) Let_def)
  from k obtain e ent where e: "unat e = open_value sale (unat amount)"
      "checked_add (cb_open_entitlement ?c) e = Some ent"
      and w': "w' = put_sale nonce (sale\<lparr>sl_total_raised := raised\<rparr>)
          (put_contribution nonce buyer (?c\<lparr>cb_buyer := buyer, cb_amount_usdc := tot,
             cb_open_entitlement := ent, cb_bump := bump_of env (contribution_pda nonce buyer)\<rparr>) w1)"
    by (elim open_entitlement_forE) auto
  obtain L where "w1 = w\<lparr>c_tokens := L\<rparr>" using cpi_transfer_frame [OF cpi] by blast
  then have c1: "contribution_or_new w1 nonce buyer = ?c" by (simp add: contribution_or_new_def)
  note sums = checked_add_sum [OF a(9)] checked_add_sum [OF a(11)] checked_add_sum [OF e(2)]
  have "credit_ok w (unix_timestamp sv) nonce buyer sale amount e 0"
    using a e(1) sums unat_lt_2p [of ent] unat_lt_2p [of "cb_claimed_open ?c"]
    by (simp add: credit_ok_def word_le_nat_alt)
  moreover have "w' = credit env nonce buyer sale amount e 0 w1"
    using sums by (simp add: w' credit_def c1 Let_def)
  ultimately show thesis using that a(2,3) cpi by blast
qed

text \<open>
  Whatever the called program did to the chain, the handler credits the buyer on the copies it read
  before the call.
\<close>

lemma contribute_with_swap_anyE:
  fixes w :: "'z presale_chain_scheme"
  assumes "handle_contribute_with_swap env swap sv buyer nonce source program accounts expected data w
     = Inr w'"
  obtains sale d e w1 t t' where "credit_ok w (unix_timestamp sv) nonce buyer sale d e 0"
    and "contribution_or_new w1 nonce buyer = contribution_or_new w nonce buyer
           \<Longrightarrow> w' = credit env nonce buyer sale d e 0 w1"
    and "swap (sl_swap_program sale) accounts data w = Some w1"
    and "c_tokens w (sl_usdc_vault sale) = Some t" and "c_tokens w1 (sl_usdc_vault sale) = Some t'"
    and "unat (ta_amount t') = unat (ta_amount t) + unat d"
    and "unat expected * (10000 - unat (sl_max_slippage_bps sale)) div 10000 \<le> unat d"
proof -
  let ?c = "contribution_or_new w nonce buyer"
  from assms obtain sale t t' w1 d tot raised keep least where
    a: "ps_sales w nonce = Some sale" "c_tokens w (sl_usdc_vault sale) = Some t"
      "\<not> banned w buyer" "sl_state sale = Active" "sl_start_time sale \<le> unix_timestamp sv"
      "unix_timestamp sv \<le> sl_end_time sale"
      "cb_amount_usdc ?c = 0 \<longrightarrow> sl_min_contribution sale \<le> d"
      "checked_add (cb_amount_usdc ?c) d = Some tot" "tot \<le> sl_max_contribution sale"
      "checked_add (sl_total_raised sale) d = Some raised" "raised \<le> sl_hard_cap sale"
    and keep: "checked_sub PRESALE_BPS_DENOMINATOR (ucast (sl_max_slippage_bps sale)) = Some keep"
      "mul_div_u64 expected keep PRESALE_BPS_DENOMINATOR = Some least" "least \<le> d"
    and swap: "swap (sl_swap_program sale) accounts data w = Some w1"
      "c_tokens w1 (sl_usdc_vault sale) = Some t'" "checked_sub (ta_amount t') (ta_amount t) = Some d"
    and k: "open_entitlement_for sale d (\<lambda>open_delta.
        ok_or (checked_add (cb_open_entitlement ?c) open_delta) (Program Overflow) (\<lambda>open_entitlement.
        Inr (put_sale nonce (sale\<lparr>sl_total_raised := raised\<rparr>)
          (put_contribution nonce buyer (?c\<lparr>cb_buyer := buyer, cb_amount_usdc := tot,
             cb_open_entitlement := open_entitlement,
             cb_bump := bump_of env (contribution_pda nonce buyer)\<rparr>) w1)))) = Inr w'"
    by (clarsimp simp: handle_contribute_with_swap_def presale_load_defs(1,4,5) Let_def)
  from k obtain e ent where e: "unat e = open_value sale (unat d)"
      "checked_add (cb_open_entitlement ?c) e = Some ent"
      and w': "w' = put_sale nonce (sale\<lparr>sl_total_raised := raised\<rparr>)
          (put_contribution nonce buyer (?c\<lparr>cb_buyer := buyer, cb_amount_usdc := tot,
             cb_open_entitlement := ent, cb_bump := bump_of env (contribution_pda nonce buyer)\<rparr>) w1)"
    by (elim open_entitlement_forE) auto
  note sums = checked_add_sum [OF a(8)] checked_add_sum [OF a(10)] checked_add_sum [OF e(2)]
  have "credit_ok w (unix_timestamp sv) nonce buyer sale d e 0"
    using a e(1) sums unat_lt_2p [of ent] unat_lt_2p [of "cb_claimed_open ?c"]
    by (simp add: credit_ok_def word_le_nat_alt)
  moreover have "w' = credit env nonce buyer sale d e 0 w1"
    if "contribution_or_new w1 nonce buyer = ?c"
    using sums that by (simp add: w' credit_def Let_def)
  moreover have "unat expected * (10000 - unat (sl_max_slippage_bps sale)) div 10000 \<le> unat d"
  proof -
    from keep(1) have n: "unat keep = 10000 - unat (sl_max_slippage_bps sale)"
      by (simp add: checked_sub_Some PRESALE_BPS_DENOMINATOR_def)
    then have "unat least = unat expected * unat keep div 10000"
      using mul_div_u64_Some_share [OF keep(2)] by (simp add: PRESALE_BPS_DENOMINATOR_def)
    with n keep(3) show ?thesis by (simp add: word_le_nat_alt)
  qed
  ultimately show thesis
    using swap a(2) by (intro that [of sale d e w1 t t']) (simp_all add: checked_sub_Some)
qed

text \<open>Under the law of the aggregator the call changed the token balances only.\<close>

lemma contribute_with_swapE:
  fixes w :: "'z presale_chain_scheme"
  assumes "swap_env env swap"
    and "handle_contribute_with_swap env swap sv buyer nonce source program accounts expected data w
     = Inr w'"
  obtains sale d e L t t' where "credit_ok w (unix_timestamp sv) nonce buyer sale d e 0"
    and "w' = credit env nonce buyer sale d e 0 (w\<lparr>c_tokens := L\<rparr>)"
    and "swap (sl_swap_program sale) accounts data w = Some (w\<lparr>c_tokens := L\<rparr>)"
    and "c_tokens w (sl_usdc_vault sale) = Some t" and "L (sl_usdc_vault sale) = Some t'"
    and "unat (ta_amount t') = unat (ta_amount t) + unat d"
    and "unat expected * (10000 - unat (sl_max_slippage_bps sale)) div 10000 \<le> unat d"
  using assms(2)
proof (rule contribute_with_swap_anyE, goal_cases)
  case (1 sale d e w1 t t')
  have w1: "w1 = w\<lparr>c_tokens := c_tokens w1\<rparr>" by (rule swap_env.swap_tokens [OF assms(1) 1(4)])
  then have "contribution_or_new w1 nonce buyer = contribution_or_new w nonce buyer"
    by (metis contribution_or_new_tokens)
  from 1(3) [OF this] 1(4) w1 have "w' = credit env nonce buyer sale d e 0 (w\<lparr>c_tokens := c_tokens w1\<rparr>)"
    "swap (sl_swap_program sale) accounts data w = Some (w\<lparr>c_tokens := c_tokens w1\<rparr>)" by simp_all
  from 1(1) [OF 1(2) this 1(5-8)] show ?case .
qed

lemma deliver_contributionE:
  fixes w :: "'z presale_chain_scheme"
  assumes "handle_deliver_contribution env sv payer nonce k source utp otp amount w = Inr w'"
  obtains sale e t t' w0 w1 w2 where "credit_ok w (unix_timestamp sv) nonce k sale amount e e"
    and "w' = emit_presale (ContributionDelivered k amount e (sl_total_raised sale + amount))
           (credit env nonce k sale amount e e w2)"
    and "associated_token_or_new k otp (sl_open_mint sale) w
           = (Inr w0 :: PresaleErrorCode tx_error + 'z presale_chain_scheme)"
    and "cpi_transfer env utp source (sl_usdc_mint sale) (sl_usdc_vault sale) payer amount
           (sl_usdc_decimals sale) w0 = (Inr w1 :: PresaleErrorCode tx_error + 'z presale_chain_scheme)"
    and "cpi_transfer env otp (sl_presale_vault sale) (sl_open_mint sale)
           (associated_token_address k otp (sl_open_mint sale)) presale_vault_authority_pda e
           (sl_open_decimals sale) w1 = (Inr w2 :: PresaleErrorCode tx_error + 'z presale_chain_scheme)"
    and "c_tokens w (sl_usdc_vault sale) = Some t" and "c_tokens w1 (sl_usdc_vault sale) = Some t'"
    and "unat (ta_amount t') = unat (ta_amount t) + unat amount"
proof -
  let ?c = "contribution_or_new w nonce k"
  from assms obtain sale w0 where
    a0: "ps_sales w nonce = Some sale" "associated_token_or_new k otp (sl_open_mint sale) w
           = (Inr w0 :: PresaleErrorCode tx_error + 'z presale_chain_scheme)"
    by (auto simp: handle_deliver_contribution_def load_sale_config_def load_token_def load_mint_def)
  then obtain L0 where w0: "w0 = w\<lparr>c_tokens := L0\<rparr>"
    by (cases "c_tokens w (associated_token_address k otp (sl_open_mint sale))")
       (auto simp: associated_token_or_new_def init_token_def intro: that [of "c_tokens w"])
  then have c0: "contribution_or_new w0 nonce k = ?c" "banned w0 k = banned w k"
    by (simp_all add: contribution_or_new_def)
  from assms a0 obtain t w1 t' tot raised where
    a: "c_tokens w (sl_usdc_vault sale) = Some t"
      "\<not> banned w k" "sl_state sale = Active" "sl_start_time sale \<le> unix_timestamp sv"
      "unix_timestamp sv \<le> sl_end_time sale"
      "cb_amount_usdc ?c = 0 \<longrightarrow> sl_min_contribution sale \<le> amount"
      "checked_add (cb_amount_usdc ?c) amount = Some tot" "tot \<le> sl_max_contribution sale"
      "checked_add (sl_total_raised sale) amount = Some raised" "raised \<le> sl_hard_cap sale"
    and usdc: "cpi_transfer env utp source (sl_usdc_mint sale) (sl_usdc_vault sale) payer amount
           (sl_usdc_decimals sale) w0 = (Inr w1 :: PresaleErrorCode tx_error + 'z presale_chain_scheme)"
      "c_tokens w1 (sl_usdc_vault sale) = Some t'"
      "checked_sub (ta_amount t') (ta_amount t) = Some amount"
    and k: "open_entitlement_for sale amount (\<lambda>open_out.
        and_then (cpi_transfer env otp (sl_presale_vault sale) (sl_open_mint sale)
           (associated_token_address k otp (sl_open_mint sale)) presale_vault_authority_pda open_out
           (sl_open_decimals sale) w1) (\<lambda>w.
        ok_or (checked_add (cb_open_entitlement ?c) open_out) (Program Overflow) (\<lambda>open_entitlement.
        ok_or (checked_add (cb_claimed_open ?c) open_out) (Program Overflow) (\<lambda>claimed_open.
        Inr (emit_presale (ContributionDelivered k amount open_out raised)
          (put_sale nonce (sale\<lparr>sl_total_raised := raised\<rparr>)
          (put_contribution nonce k (?c\<lparr>cb_buyer := k, cb_amount_usdc := tot,
             cb_open_entitlement := open_entitlement, cb_claimed_open := claimed_open,
             cb_bump := bump_of env (contribution_pda nonce k)\<rparr>) w))))))) = Inr w'"
    by (clarsimp simp: handle_deliver_contribution_def load_sale_config_def load_token_def
        load_mint_def Let_def c0)
  from k obtain e w2 ent claimed where e: "unat e = open_value sale (unat amount)"
      "cpi_transfer env otp (sl_presale_vault sale) (sl_open_mint sale)
           (associated_token_address k otp (sl_open_mint sale)) presale_vault_authority_pda e
           (sl_open_decimals sale) w1 = (Inr w2 :: PresaleErrorCode tx_error + 'z presale_chain_scheme)"
      "checked_add (cb_open_entitlement ?c) e = Some ent"
      "checked_add (cb_claimed_open ?c) e = Some claimed"
      and w': "w' = emit_presale (ContributionDelivered k amount e raised)
          (put_sale nonce (sale\<lparr>sl_total_raised := raised\<rparr>)
          (put_contribution nonce k (?c\<lparr>cb_buyer := k, cb_amount_usdc := tot,
             cb_open_entitlement := ent, cb_claimed_open := claimed,
             cb_bump := bump_of env (contribution_pda nonce k)\<rparr>) w2))"
    by (elim open_entitlement_forE) auto
  obtain L where "w2 = w\<lparr>c_tokens := L\<rparr>"
    using cpi_transfer_frame [OF usdc(1)] cpi_transfer_frame [OF e(2)] w0 by auto
  then have c2: "contribution_or_new w2 nonce k = ?c" by (simp add: contribution_or_new_def)
  note sums = checked_add_sum [OF a(7)] checked_add_sum [OF a(9)] checked_add_sum [OF e(3)]
    checked_add_sum [OF e(4)]
  have "credit_ok w (unix_timestamp sv) nonce k sale amount e e"
    using a a0 e(1) sums unat_lt_2p [of ent] unat_lt_2p [of claimed]
    by (simp add: credit_ok_def word_le_nat_alt)
  moreover have "w' = emit_presale (ContributionDelivered k amount e (sl_total_raised sale + amount))
           (credit env nonce k sale amount e e w2)"
    using sums by (simp add: w' credit_def c2 Let_def)
  ultimately show thesis
    using that a0 a(1) usdc e(2) by (simp add: checked_sub_Some)
qed

lemma initialize_saleE:
  fixes w :: "'z presale_chain_scheme"
  assumes "handle_initialize_sale env admin nonce om um tp pv tr prog params w = Inr w'"
  obtains sale where "ps_sales w nonce = None" and "c_tokens w (sale_usdc_vault_pda nonce) = None"
    and "w' = put_sale nonce sale (w\<lparr>c_tokens := (c_tokens w)(sale_usdc_vault_pda nonce \<mapsto>
           \<lparr> ta_mint = um, ta_owner = sale_config_pda nonce, ta_amount = 0, ta_delegate = None,
             ta_frozen = False \<rparr>)\<rparr>)"
    and "sl_usdc_mint sale = um" and "sl_usdc_vault sale = sale_usdc_vault_pda nonce"
    and "sl_soft_cap sale = 0" and "0 < unat (sl_hard_cap sale)"
    and "0 < unat (sl_min_contribution sale)"
    and "unat (sl_min_contribution sale) \<le> unat (sl_max_contribution sale)"
    and "0 < unat (sl_max_slippage_bps sale)" and "unat (sl_max_slippage_bps sale) \<le> 10000"
    and "0 < unat (sl_open_per_usdc sale)"
    and "unat (sl_usdc_decimals sale) \<le> unat (sl_open_decimals sale)"
    and "sl_start_time sale < sl_end_time sale" and "length (sl_stablecoin_whitelist sale) \<le> 5"
    and "sl_total_raised sale = 0" and "sl_state sale = Active"
    and "sl_bump sale = bump_of env (sale_config_pda nonce)"
    and "sl_usdc_vault_bump sale = bump_of env (sale_usdc_vault_pda nonce)"
  using assms
  by (clarsimp simp: handle_initialize_sale_def load_token_def load_mint_def init_token_def
      PRESALE_BPS_DENOMINATOR_def MAX_STABLECOINS_def word_le_nat_alt word_less_nat_alt)

lemma update_sale_paramsE:
  fixes w :: "'z presale_chain_scheme"
  assumes "handle_update_sale_params env admin nonce params w = Inr w'"
  obtains sale sale' where "ps_sales w nonce = Some sale" and "sl_admin sale = admin"
    and "sl_state sale = Active" and "w' = put_sale nonce sale' w"
    and "sale' = sale\<lparr>sl_hard_cap := sl_hard_cap sale', sl_soft_cap := 0,
           sl_min_contribution := sl_min_contribution sale',
           sl_max_contribution := sl_max_contribution sale',
           sl_max_slippage_bps := sl_max_slippage_bps sale',
           sl_open_per_usdc := sl_open_per_usdc sale', sl_end_time := sl_end_time sale'\<rparr>"
    and "0 < unat (sl_hard_cap sale')" and "unat (sl_total_raised sale) \<le> unat (sl_hard_cap sale')"
    and "0 < unat (sl_min_contribution sale')"
    and "unat (sl_min_contribution sale') \<le> unat (sl_max_contribution sale')"
    and "0 < unat (sl_max_slippage_bps sale')" and "unat (sl_max_slippage_bps sale') \<le> 10000"
    and "0 < unat (sl_open_per_usdc sale')" and "sl_start_time sale < sl_end_time sale'"
  using assms
  by (clarsimp simp: handle_update_sale_params_def load_sale_config_def
      PRESALE_BPS_DENOMINATOR_def word_le_nat_alt word_less_nat_alt)

lemma claimE:
  fixes w :: "'z presale_chain_scheme"
  assumes "handle_claim env buyer nonce buyer_open tp w = Inr w'"
  obtains sale c t unclaimed w1 where "ps_sales w nonce = Some sale"
    and "ps_contributions w (nonce, buyer) = Some c"
    and "c_tokens w buyer_open = Some t" and "ta_owner t = buyer"
    and "unat (cb_open_entitlement c) = unat (cb_claimed_open c) + unat unclaimed" and "0 < unclaimed"
    and "cpi_transfer env tp (sl_presale_vault sale) (sl_open_mint sale) buyer_open
           presale_vault_authority_pda unclaimed (sl_open_decimals sale) w
           = (Inr w1 :: PresaleErrorCode tx_error + 'z presale_chain_scheme)"
    and "w' = put_contribution nonce buyer (c\<lparr>cb_claimed_open := cb_open_entitlement c\<rparr>) w1"
  using assms
  by (clarsimp simp: handle_claim_def presale_load_defs(1,4,5) checked_sub_Some)

lemma sweep_proceedsE:
  fixes w :: "'z presale_chain_scheme"
  assumes "handle_sweep_proceeds env admin nonce tp amount w = Inr w'"
  obtains sale v w1 where "ps_sales w nonce = Some sale" and "sl_admin sale = admin"
    and "sl_state sale = Active" and "c_tokens w (sl_usdc_vault sale) = Some v"
    and "0 < amount" and "amount \<le> ta_amount v"
    and "cpi_transfer env tp (sl_usdc_vault sale) (sl_usdc_mint sale) (sl_treasury sale)
           (sale_config_pda nonce) amount (sl_usdc_decimals sale) w
           = (Inr w1 :: PresaleErrorCode tx_error + 'z presale_chain_scheme)"
    and "w' = emit_presale (ProceedsSwept (sale_config_pda nonce) (sl_treasury sale) amount
           (ta_amount v - amount)) w1"
  using assms
  by (clarsimp simp: handle_sweep_proceeds_def presale_load_defs(1,4,5))

lemma finalize_saleE:
  fixes w :: "'z presale_chain_scheme"
  assumes "handle_finalize_sale env sv admin nonce tp w = Inr w'"
  obtains sale v w1 where "ps_sales w nonce = Some sale" and "sl_admin sale = admin"
    and "sl_state sale = Active" and "c_tokens w (sl_usdc_vault sale) = Some v"
    and "sl_end_time sale < unix_timestamp sv \<or> sl_hard_cap sale \<le> sl_total_raised sale"
    and "ta_amount v = 0 \<and> w1 = w
         \<or> cpi_transfer env tp (sl_usdc_vault sale) (sl_usdc_mint sale) (sl_treasury sale)
           (sale_config_pda nonce) (ta_amount v) (sl_usdc_decimals sale) w
           = (Inr w1 :: PresaleErrorCode tx_error + 'z presale_chain_scheme)"
    and "w' = put_sale nonce (sale\<lparr>sl_state := Finalized\<rparr>) w1"
proof -
  from assms obtain sale v where
    a: "ps_sales w nonce = Some sale" "sl_admin sale = admin" "sl_state sale = Active"
      "c_tokens w (sl_usdc_vault sale) = Some v"
      "sl_end_time sale < unix_timestamp sv \<or> sl_hard_cap sale \<le> sl_total_raised sale"
    and m: "and_then (if ta_amount v > 0
         then cpi_transfer env tp (sl_usdc_vault sale) (sl_usdc_mint sale) (sl_treasury sale)
                (sale_config_pda nonce) (ta_amount v) (sl_usdc_decimals sale) w
         else Inr w) (\<lambda>w. Inr (put_sale nonce (sale\<lparr>sl_state := Finalized\<rparr>) w))
       = (Inr w' :: 'z presale_result)"
    by (clarsimp simp: handle_finalize_sale_def presale_load_defs(1,4,5) simp del: and_then_Inr)
  show thesis
  proof (cases "ta_amount v > 0")
    case True
    with m obtain w1 where "cpi_transfer env tp (sl_usdc_vault sale) (sl_usdc_mint sale)
        (sl_treasury sale) (sale_config_pda nonce) (ta_amount v) (sl_usdc_decimals sale) w
        = (Inr w1 :: PresaleErrorCode tx_error + 'z presale_chain_scheme)"
      "w' = put_sale nonce (sale\<lparr>sl_state := Finalized\<rparr>) w1"
      by auto
    with that [of sale v w1] a show thesis by blast
  next
    case False
    with m a that [of sale v w] show thesis by (simp add: word_gt_0)
  qed
qed

end
