(* ===== verification/Presale_Invariants.thy ===== *)
theory Presale_Invariants
  imports Presale_System
begin

text \<open>
  The invariant of the presale program, one sale at a time, and that every instruction and every
  step of the rest of the chain preserves it.
\<close>


section \<open>The invariant\<close>

definition sale_ok :: "env \<Rightarrow> u64 \<Rightarrow> SaleConfig \<Rightarrow> bool" where
  "sale_ok env nonce s \<longleftrightarrow>
     sl_usdc_vault s = sale_usdc_vault_pda nonce
     \<and> sl_bump s = bump_of env (sale_config_pda nonce)
     \<and> sl_usdc_vault_bump s = bump_of env (sale_usdc_vault_pda nonce)
     \<and> sl_soft_cap s = 0 \<and> 0 < unat (sl_hard_cap s)
     \<and> unat (sl_total_raised s) \<le> unat (sl_hard_cap s)
     \<and> 0 < unat (sl_min_contribution s)
     \<and> unat (sl_min_contribution s) \<le> unat (sl_max_contribution s)
     \<and> 0 < unat (sl_max_slippage_bps s) \<and> unat (sl_max_slippage_bps s) \<le> 10000
     \<and> 0 < unat (sl_open_per_usdc s) \<and> unat (sl_usdc_decimals s) \<le> unat (sl_open_decimals s)
     \<and> sl_start_time s < sl_end_time s \<and> length (sl_stablecoin_whitelist s) \<le> 5"

definition contribution_ok :: "env \<Rightarrow> u64 \<Rightarrow> pubkey \<Rightarrow> Contribution \<Rightarrow> bool" where
  "contribution_ok env nonce k c \<longleftrightarrow> cb_buyer c = k
     \<and> cb_bump c = bump_of env (contribution_pda nonce k) \<and> 0 < unat (cb_amount_usdc c)
     \<and> unat (cb_claimed_open c) \<le> unat (cb_open_entitlement c)"

fun swept_by :: "u64 \<Rightarrow> PresaleEvent \<Rightarrow> nat" where
  "swept_by nonce (ProceedsSwept sale _ amount _) =
     (if sale = sale_config_pda nonce then unat amount else 0)"
| "swept_by nonce (ContributionDelivered _ _ _ _) = 0"

definition swept :: "u64 \<Rightarrow> PresaleEvent list \<Rightarrow> nat" where
  "swept nonce log = sum_list (map (swept_by nonce) log)"

definition raised :: "(pubkey \<rightharpoonup> Contribution) \<Rightarrow> nat" where
  "raised C = map_total (\<lambda>c. unat (cb_amount_usdc c)) C"

definition sale_inv ::
  "env \<Rightarrow> u64 \<Rightarrow> SaleConfig option \<Rightarrow> (pubkey \<rightharpoonup> Contribution) \<Rightarrow> ledger \<Rightarrow> PresaleEvent list
   \<Rightarrow> bool" where
  "sale_inv env nonce sale C L log =
     (case sale of
        None \<Rightarrow> C = Map.empty \<and> L (sale_usdc_vault_pda nonce) = None
      | Some s \<Rightarrow> sale_ok env nonce s \<and> finite (dom C)
          \<and> (\<forall>k c. C k = Some c \<longrightarrow> contribution_ok env nonce k c)
          \<and> raised C = unat (sl_total_raised s)
          \<and> held L (sale_usdc_vault_pda nonce) (sl_usdc_mint s) (sale_config_pda nonce)
          \<and> (sl_state s = Active \<longrightarrow>
               unat (sl_total_raised s) \<le> balance L (sale_usdc_vault_pda nonce) + swept nonce log))"

definition presale_inv :: "env \<Rightarrow> 'z presale_chain_scheme \<Rightarrow> bool" where
  "presale_inv env w \<longleftrightarrow>
     (\<forall>nonce. sale_inv env nonce (ps_sales w nonce) (\<lambda>k. ps_contributions w (nonce, k)) (c_tokens w)
        (ps_log w))"

lemma presale_invD:
  "presale_inv env w \<Longrightarrow> sale_inv env nonce (ps_sales w nonce) (\<lambda>k. ps_contributions w (nonce, k))
     (c_tokens w) (ps_log w)"
  by (simp add: presale_inv_def)


section \<open>Vaults that a step leaves alone\<close>

definition vault_kept :: "u64 \<Rightarrow> ledger \<Rightarrow> ledger \<Rightarrow> bool" where
  "vault_kept nonce L L' \<longleftrightarrow>
     (L (sale_usdc_vault_pda nonce) = None \<longrightarrow> L' (sale_usdc_vault_pda nonce) = None)
     \<and> (\<forall>mint. held L (sale_usdc_vault_pda nonce) mint (sale_config_pda nonce) \<longrightarrow>
          held L' (sale_usdc_vault_pda nonce) mint (sale_config_pda nonce)
          \<and> balance L (sale_usdc_vault_pda nonce) \<le> balance L' (sale_usdc_vault_pda nonce))"

lemma vault_kept_refl [simp]: "vault_kept nonce L L"
  by (simp add: vault_kept_def)

lemma vault_kept_trans: "vault_kept nonce L M \<Longrightarrow> vault_kept nonce M N \<Longrightarrow> vault_kept nonce L N"
  unfolding vault_kept_def by (meson le_trans)

lemma vault_kept_outside: "outside PresaleProgram L L' \<Longrightarrow> vault_kept nonce L L'"
  unfolding vault_kept_def using held_outside
  by (metis outside_def presale_pdas(5,6))

lemma vault_kept_new: "k \<noteq> sale_usdc_vault_pda nonce \<Longrightarrow> vault_kept nonce L (L(k \<mapsto> t))"
  by (auto simp: vault_kept_def held_def)

lemma vault_kept_associated:
  "associated_token_or_new k tp mint w = Inr w' \<Longrightarrow> vault_kept nonce (c_tokens w) (c_tokens w')"
  by (auto simp: associated_token_or_new_def init_token_def associated_token_address_def
      sale_usdc_vault_pda_def intro!: vault_kept_new split: option.splits)

lemma sale_inv_kept:
  assumes "sale_inv env nonce sale C L log" and "vault_kept nonce L L'"
    and "swept nonce log \<le> swept nonce log'"
  shows "sale_inv env nonce sale C L' log'"
  using assms by (fastforce simp: sale_inv_def vault_kept_def split: option.splits)

context token_env
begin

lemma vault_kept_transfer:
  assumes "cpi_transfer E tp from mint to auth a d w = Inr w'" and "auth \<noteq> sale_config_pda nonce"
  shows "vault_kept nonce (c_tokens w) (c_tokens w')"
proof -
  from assms(1) obtain L' where L': "w' = w\<lparr>c_tokens := L'\<rparr>" "moved (c_tokens w) from to a L'"
    by (rule cpi_transfer_moved)
  from assms(1) obtain s where s: "c_tokens w from = Some s"
      "ta_owner s = auth \<or> ta_delegate s = Some auth"
    by (rule cpi_transfer_authority)
  show ?thesis
    unfolding vault_kept_def
  proof (intro conjI allI impI)
    fix mint assume h: "held (c_tokens w) (sale_usdc_vault_pda nonce) mint (sale_config_pda nonce)"
    then have "sale_usdc_vault_pda nonce \<noteq> from" using s assms(2) by (auto simp: held_def)
    then show "balance (c_tokens w) (sale_usdc_vault_pda nonce)
        \<le> balance (c_tokens w') (sale_usdc_vault_pda nonce)"
      using L' moved_other by auto
    show "held (c_tokens w') (sale_usdc_vault_pda nonce) mint (sale_config_pda nonce)"
      using held_same [OF h moved_same [OF L'(2)]] L'(1) by simp
  qed (use L' same_accounts_None [OF moved_same [OF L'(2)]] in simp)
qed

end


section \<open>One sale changes\<close>

lemma presale_inv_put:
  assumes inv: "presale_inv env w"
    and same: "\<And>m. m \<noteq> nonce \<Longrightarrow> ps_sales w' m = ps_sales w m"
      "\<And>m k. m \<noteq> nonce \<Longrightarrow> ps_contributions w' (m, k) = ps_contributions w (m, k)"
    and kept: "\<And>m. m \<noteq> nonce \<Longrightarrow> vault_kept m (c_tokens w) (c_tokens w')"
    and log: "\<And>m. swept m (ps_log w) \<le> swept m (ps_log w')"
    and own: "sale_inv env nonce (ps_sales w' nonce) (\<lambda>k. ps_contributions w' (nonce, k))
        (c_tokens w') (ps_log w')"
  shows "presale_inv env w'"
  unfolding presale_inv_def
proof
  fix m
  show "sale_inv env m (ps_sales w' m) (\<lambda>k. ps_contributions w' (m, k)) (c_tokens w') (ps_log w')"
  proof (cases "m = nonce")
    case False
    with sale_inv_kept [OF presale_invD [OF inv, of m] kept log] same show ?thesis by simp
  qed (use own in simp)
qed

lemma credit_inv:
  fixes w :: "'z presale_chain_scheme"
  assumes inv: "presale_inv env w" and ok: "credit_ok w now nonce k sale d e paid"
    and kept: "\<And>m. vault_kept m (c_tokens w) L"
    and gain: "balance (c_tokens w) (sale_usdc_vault_pda nonce) + unat d
        \<le> balance L (sale_usdc_vault_pda nonce)"
  shows "presale_inv env (credit env nonce k sale d e paid (w\<lparr>c_tokens := L\<rparr>))"
proof (rule presale_inv_put [OF inv, of nonce])
  let ?w = "credit env nonce k sale d e paid (w\<lparr>c_tokens := L\<rparr>)"
  let ?c = "contribution_or_new w nonce k" and ?C = "\<lambda>x. ps_contributions w (nonce, x)"
  let ?s = "sale\<lparr>sl_total_raised := sl_total_raised sale + d\<rparr>"
  let ?c' = "?c\<lparr>cb_buyer := k, cb_amount_usdc := cb_amount_usdc ?c + d,
      cb_open_entitlement := cb_open_entitlement ?c + e, cb_claimed_open := cb_claimed_open ?c + paid,
      cb_bump := bump_of env (contribution_pda nonce k)\<rparr>"
  have c1: "contribution_or_new (w\<lparr>c_tokens := L\<rparr>) nonce k = ?c"
    by (simp add: contribution_or_new_def)
  from ok have s: "ps_sales w nonce = Some sale" by (simp add: credit_ok_def)
  with presale_invD [OF inv, of nonce] have I: "sale_ok env nonce sale" "finite (dom ?C)"
      "\<And>x c. ?C x = Some c \<Longrightarrow> contribution_ok env nonce x c"
      "raised ?C = unat (sl_total_raised sale)"
      "held (c_tokens w) (sale_usdc_vault_pda nonce) (sl_usdc_mint sale) (sale_config_pda nonce)"
      "unat (sl_total_raised sale) \<le> balance (c_tokens w) (sale_usdc_vault_pda nonce) + swept nonce (ps_log w)"
    using ok by (auto simp: sale_inv_def credit_ok_def)
  have old: "unat (cb_claimed_open ?c) \<le> unat (cb_open_entitlement ?c)"
    using I(3) by (auto simp: contribution_or_new_def contribution_ok_def split: option.splits)
  note sums = credit_sums [OF ok]
  have pos: "0 < unat (cb_amount_usdc ?c + d)"
  proof (cases "cb_amount_usdc ?c = 0")
    case True
    then have "unat (sl_min_contribution sale) \<le> unat d" using ok by (simp add: credit_ok_def)
    with I(1) show ?thesis unfolding sums(2) by (simp add: sale_ok_def)
  qed (simp add: sums(2) unat_gt_0)
  have c': "contribution_ok env nonce k ?c'"
    using ok old pos sums(3,4) by (auto simp: contribution_ok_def credit_ok_def)
  have C': "(\<lambda>x. ps_contributions ?w (nonce, x)) = ?C(k \<mapsto> ?c')"
    by (auto simp: credit_def presale_world_simps c1 Let_def)
  have "raised (?C(k \<mapsto> ?c')) = unat (sl_total_raised sale) + unat d"
  proof -
    have "(case ?C k of None \<Rightarrow> 0 | Some u \<Rightarrow> unat (cb_amount_usdc u)) = unat (cb_amount_usdc ?c)"
      by (simp add: contribution_or_new_def split: option.splits)
    with map_total_upd [OF I(2), of "\<lambda>c. unat (cb_amount_usdc c)" k ?c'] I(4) sums(2)
    show ?thesis by (simp add: raised_def)
  qed
  moreover have "held L (sale_usdc_vault_pda nonce) (sl_usdc_mint sale) (sale_config_pda nonce)"
    using kept [of nonce] I(5) by (simp add: vault_kept_def)
  moreover have "sale_ok env nonce ?s"
    using I(1) ok sums(1) by (simp add: sale_ok_def credit_ok_def)
  moreover have "ps_sales ?w nonce = Some ?s" "c_tokens ?w = L" "ps_log ?w = ps_log w"
    by (simp_all add: credit_def presale_world_simps)
  ultimately show "sale_inv env nonce (ps_sales ?w nonce) (\<lambda>x. ps_contributions ?w (nonce, x))
      (c_tokens ?w) (ps_log ?w)"
    using I(2,3,6) c' gain sums(1) unfolding C' by (auto simp: sale_inv_def)
qed (use kept in \<open>auto simp: credit_def presale_world_simps\<close>)

lemma swept_append [simp]: "swept nonce (log @ [e]) = swept nonce log + swept_by nonce e"
  by (simp add: swept_def)

lemma presale_inv_emit_delivered:
  assumes "presale_inv env w"
  shows "presale_inv env (emit_presale (ContributionDelivered k a b c) w)"
  by (rule presale_inv_put [OF assms, of 0])
     (use sale_inv_kept [OF presale_invD [OF assms] vault_kept_refl] in
       \<open>simp_all add: emit_presale_def\<close>)


section \<open>Every instruction preserves the invariant\<close>

lemma initialize_sale_inv:
  assumes inv: "presale_inv env w"
    and ok: "handle_initialize_sale env admin nonce om um tp pv tr prog params w = Inr w'"
  shows "presale_inv env w'"
  using ok
proof (rule initialize_saleE, goal_cases)
  case (1 sale)
  have "(\<lambda>k. ps_contributions w (nonce, k)) = Map.empty"
    using presale_invD [OF inv, of nonce] 1(1) by (simp add: sale_inv_def)
  then show ?case
    using 1 by (intro presale_inv_put [OF inv, of nonce])
      (auto simp: put_sale_def sale_inv_def sale_ok_def held_def raised_def map_total_def
        intro!: vault_kept_new)
qed

lemma update_sale_params_inv:
  assumes inv: "presale_inv env w" and ok: "handle_update_sale_params env admin nonce params w = Inr w'"
  shows "presale_inv env w'"
  using ok
proof (rule update_sale_paramsE, goal_cases)
  case (1 sale sale')
  from 1(5) have "sl_usdc_vault sale' = sl_usdc_vault sale \<and> sl_bump sale' = sl_bump sale
      \<and> sl_usdc_vault_bump sale' = sl_usdc_vault_bump sale \<and> sl_soft_cap sale' = 0
      \<and> sl_total_raised sale' = sl_total_raised sale \<and> sl_usdc_decimals sale' = sl_usdc_decimals sale
      \<and> sl_open_decimals sale' = sl_open_decimals sale \<and> sl_start_time sale' = sl_start_time sale
      \<and> sl_stablecoin_whitelist sale' = sl_stablecoin_whitelist sale
      \<and> sl_state sale' = sl_state sale \<and> sl_usdc_mint sale' = sl_usdc_mint sale"
    by (cases sale, cases sale') simp
  then show ?case
    using 1 presale_invD [OF inv, of nonce]
    by (intro presale_inv_put [OF inv, of nonce]) (auto simp: put_sale_def sale_inv_def sale_ok_def)
qed

lemma sale_inv_vault:
  assumes "presale_inv env w" and "ps_sales w nonce = Some sale"
  shows "sl_usdc_vault sale = sale_usdc_vault_pda nonce"
    and "held (c_tokens w) (sale_usdc_vault_pda nonce) (sl_usdc_mint sale) (sale_config_pda nonce)"
  using presale_invD [OF assms(1), of nonce] assms(2) by (simp_all add: sale_inv_def sale_ok_def)

lemma presale_vault_not_associated [simp]:
  "sale_usdc_vault_pda nonce \<noteq> associated_token_address k tp mint"
  by (simp add: sale_usdc_vault_pda_def associated_token_address_def)

context swap_env
begin

text \<open>How the vault of a sale moves when a contribution comes in: by exactly the amount credited.\<close>

lemma contribute_usdc_gain:
  fixes w :: "'z presale_chain_scheme"
  assumes inv: "presale_inv E w" and buyer: "\<not> signs_for PresaleProgram buyer"
    and sale: "ps_sales w nonce = Some sale"
    and t: "c_tokens w buyer_usdc = Some t" "ta_owner t = buyer"
    and cpi: "cpi_transfer E tp buyer_usdc mint (sl_usdc_vault sale) buyer amount d w
      = (Inr w1 :: PresaleErrorCode tx_error + 'z presale_chain_scheme)"
  shows "\<exists>L. w1 = w\<lparr>c_tokens := L\<rparr> \<and> (\<forall>m. vault_kept m (c_tokens w) L)
     \<and> balance L (sale_usdc_vault_pda nonce)
         = balance (c_tokens w) (sale_usdc_vault_pda nonce) + unat amount"
proof -
  from cpi obtain L where L: "w1 = w\<lparr>c_tokens := L\<rparr>"
      "moved (c_tokens w) buyer_usdc (sl_usdc_vault sale) amount L"
    by (rule cpi_transfer_moved)
  have "vault_kept m (c_tokens w) L" for m
    using vault_kept_transfer [OF cpi, of m] L(1) buyer
    by (cases "buyer = sale_config_pda m") simp_all
  moreover have "sale_usdc_vault_pda nonce \<noteq> buyer_usdc"
    using sale_inv_vault(2) [OF inv sale] t buyer by (auto simp: held_def)
  then have "balance L (sale_usdc_vault_pda nonce)
      = balance (c_tokens w) (sale_usdc_vault_pda nonce) + unat amount"
    using moved_balance [OF L(2), of "sale_usdc_vault_pda nonce"] sale_inv_vault(1) [OF inv sale]
    by simp
  ultimately show ?thesis using L(1) by blast
qed

lemma deliver_gain:
  fixes w :: "'z presale_chain_scheme"
  assumes inv: "presale_inv E w" and payer: "\<not> signs_for PresaleProgram payer"
    and sale: "ps_sales w nonce = Some sale"
    and w0: "associated_token_or_new k otp om w
      = (Inr w0 :: PresaleErrorCode tx_error + 'z presale_chain_scheme)"
    and w1: "cpi_transfer E utp source um (sl_usdc_vault sale) payer amount ud w0
      = (Inr w1 :: PresaleErrorCode tx_error + 'z presale_chain_scheme)"
    and w2: "cpi_transfer E otp pv om (associated_token_address k otp om)
      presale_vault_authority_pda e od w1
      = (Inr w2 :: PresaleErrorCode tx_error + 'z presale_chain_scheme)"
    and t: "c_tokens w (sl_usdc_vault sale) = Some t" "c_tokens w1 (sl_usdc_vault sale) = Some t'"
      "unat (ta_amount t') = unat (ta_amount t) + unat amount"
  shows "\<exists>L. w2 = w\<lparr>c_tokens := L\<rparr> \<and> (\<forall>m. vault_kept m (c_tokens w) L)
     \<and> balance L (sale_usdc_vault_pda nonce)
         = balance (c_tokens w) (sale_usdc_vault_pda nonce) + unat amount"
proof -
  note v = sale_inv_vault [OF inv sale]
  have kept1: "vault_kept m (c_tokens w) (c_tokens w1)" for m
    using vault_kept_trans [OF vault_kept_associated [OF w0] vault_kept_transfer [OF w1]] payer
    by (metis presale_pdas(5))
  have kept: "vault_kept m (c_tokens w) (c_tokens w2)" for m
    by (rule vault_kept_trans [OF kept1 vault_kept_transfer [OF w2]]) simp
  from w2 obtain L where L: "w2 = w1\<lparr>c_tokens := L\<rparr>"
      "moved (c_tokens w1) pv (associated_token_address k otp om) e L"
    by (rule cpi_transfer_moved)
  from w2 obtain s where s: "c_tokens w1 pv = Some s"
      "ta_owner s = presale_vault_authority_pda \<or> ta_delegate s = Some presale_vault_authority_pda"
    by (rule cpi_transfer_authority)
  have "held (c_tokens w1) (sale_usdc_vault_pda nonce) (sl_usdc_mint sale) (sale_config_pda nonce)"
    using kept1 [of nonce] v(2) by (simp add: vault_kept_def)
  then have "sale_usdc_vault_pda nonce \<noteq> pv" using s by (auto simp: held_def)
  then have "balance L (sale_usdc_vault_pda nonce) = balance (c_tokens w1) (sale_usdc_vault_pda nonce)"
    by (intro moved_untouched [OF L(2)]) auto
  then have "balance L (sale_usdc_vault_pda nonce)
      = balance (c_tokens w) (sale_usdc_vault_pda nonce) + unat amount"
    using t v(1) by simp
  moreover have "w2 = w\<lparr>c_tokens := L\<rparr>"
    using cpi_transfer_frame [OF w1] L(1) w0
    by (auto simp: associated_token_or_new_def init_token_def split: option.splits)
  ultimately show ?thesis using kept L(1) by auto
qed

lemma contribute_usdc_inv:
  fixes w :: "'z presale_chain_scheme"
  assumes inv: "presale_inv E w" and buyer: "\<not> signs_for PresaleProgram buyer"
    and ok: "handle_contribute_usdc E sv buyer nonce buyer_usdc tp amount w = Inr w'"
  shows "presale_inv E w'"
  using ok
proof (rule contribute_usdcE, goal_cases)
  case (1 sale e t w1)
  then have "ps_sales w nonce = Some sale" by (simp add: credit_ok_def)
  from contribute_usdc_gain [OF inv buyer this 1(3,4,5)] 1(1,2) show ?case
    by (auto intro: credit_inv [OF inv])
qed

lemma contribute_with_swap_inv:
  fixes w :: "'z presale_chain_scheme"
  assumes inv: "presale_inv E w"
    and ok: "handle_contribute_with_swap E S sv buyer nonce source program accounts expected data w
      = Inr w'"
  shows "presale_inv E w'"
  using ok
proof (rule contribute_with_swapE [OF swap_env_axioms], goal_cases)
  case (1 sale d e L t t')
  then have "ps_sales w nonce = Some sale" by (simp add: credit_ok_def)
  with 1(4,5,6) have "balance (c_tokens w) (sale_usdc_vault_pda nonce) + unat d
      \<le> balance L (sale_usdc_vault_pda nonce)"
    using sale_inv_vault(1) [OF inv] by auto
  moreover have "outside PresaleProgram (c_tokens w) L"
    using swap_outside [OF 1(3), of PresaleProgram] by (simp add: protocol_programs_def)
  ultimately show ?case
    unfolding 1(2) by (intro credit_inv [OF inv 1(1)]) (auto intro: vault_kept_outside)
qed

lemma deliver_contribution_inv:
  fixes w :: "'z presale_chain_scheme"
  assumes inv: "presale_inv E w" and payer: "\<not> signs_for PresaleProgram payer"
    and ok: "handle_deliver_contribution E sv payer nonce k source utp otp amount w = Inr w'"
  shows "presale_inv E w'"
  using ok
proof (rule deliver_contributionE, goal_cases)
  case (1 sale e t t' w0 w1 w2)
  then have "ps_sales w nonce = Some sale" by (simp add: credit_ok_def)
  from deliver_gain [OF inv payer this 1(3-8)] 1(1,2) show ?case
    by (auto intro!: presale_inv_emit_delivered credit_inv [OF inv])
qed

lemma claim_inv:
  fixes w :: "'z presale_chain_scheme"
  assumes inv: "presale_inv E w" and ok: "handle_claim E buyer nonce buyer_open tp w = Inr w'"
  shows "presale_inv E w'"
  using ok
proof (rule claimE, goal_cases)
  case (1 sale c t unclaimed w1)
  let ?c = "c\<lparr>cb_claimed_open := cb_open_entitlement c\<rparr>" and ?C = "\<lambda>x. ps_contributions w (nonce, x)"
  from cpi_transfer_frame [OF 1(7)] obtain L where L: "w1 = w\<lparr>c_tokens := L\<rparr>" by blast
  have kept: "vault_kept m (c_tokens w) L" for m
    using vault_kept_transfer [OF 1(7), of m] L by simp
  note I = presale_invD [OF inv, of nonce]
  have fin: "finite (dom ?C)" using I 1(1) by (simp add: sale_inv_def)
  have "raised (?C(buyer \<mapsto> ?c)) = raised ?C"
    using map_total_upd [OF fin, of "\<lambda>c. unat (cb_amount_usdc c)" buyer ?c] 1(2)
    by (simp add: raised_def)
  then have "sale_inv E nonce (Some sale) (?C(buyer \<mapsto> ?c)) L (ps_log w)"
    using sale_inv_kept [OF I kept order_refl] 1(1,2)
    by (auto simp: sale_inv_def contribution_ok_def)
  moreover have "(\<lambda>x. ps_contributions w' (nonce, x)) = ?C(buyer \<mapsto> ?c)"
    using 1(8) L by (auto simp: put_contribution_def)
  ultimately show ?case
    using 1(1,8) L kept
    by (intro presale_inv_put [OF inv, of nonce]) (simp_all add: put_contribution_def)
qed

lemma sweep_proceeds_inv:
  fixes w :: "'z presale_chain_scheme"
  assumes inv: "presale_inv E w" and ok: "handle_sweep_proceeds E admin nonce tp amount w = Inr w'"
  shows "presale_inv E w'"
  using ok
proof (rule sweep_proceedsE, goal_cases)
  case (1 sale v w1)
  note vault = sale_inv_vault [OF inv 1(1)]
  from 1(7) obtain L where L: "w1 = w\<lparr>c_tokens := L\<rparr>"
      "moved (c_tokens w) (sl_usdc_vault sale) (sl_treasury sale) amount L"
    by (rule cpi_transfer_moved)
  have kept: "vault_kept m (c_tokens w) L" if "m \<noteq> nonce" for m
    using vault_kept_transfer [OF 1(7), of m] L(1) that by simp
  have "sale_inv E nonce (Some sale) (\<lambda>k. ps_contributions w (nonce, k)) L
      (ps_log w @ [ProceedsSwept (sale_config_pda nonce) (sl_treasury sale) amount
         (ta_amount v - amount)])"
    using presale_invD [OF inv, of nonce] 1(1) moved_from [OF L(2)] vault
      held_same [OF vault(2) moved_same [OF L(2)]]
    by (auto simp: sale_inv_def)
  then show ?case
    using 1(1,8) L(1) kept
    by (intro presale_inv_put [OF inv, of nonce]) (simp_all add: emit_presale_def)
qed

lemma finalize_sale_inv:
  fixes w :: "'z presale_chain_scheme"
  assumes inv: "presale_inv E w" and ok: "handle_finalize_sale E sv admin nonce tp w = Inr w'"
  shows "presale_inv E w'"
  using ok
proof (rule finalize_saleE, goal_cases)
  case (1 sale v w1)
  note vault = sale_inv_vault [OF inv 1(1)]
  have "\<exists>L. w1 = w\<lparr>c_tokens := L\<rparr> \<and> same_accounts (c_tokens w) L
      \<and> (\<forall>m. m \<noteq> nonce \<longrightarrow> vault_kept m (c_tokens w) L)"
    using 1(6)
  proof
    assume cpi: "cpi_transfer E tp (sl_usdc_vault sale) (sl_usdc_mint sale) (sl_treasury sale)
           (sale_config_pda nonce) (ta_amount v) (sl_usdc_decimals sale) w
           = (Inr w1 :: PresaleErrorCode tx_error + 'z presale_chain_scheme)"
    then obtain L where "w1 = w\<lparr>c_tokens := L\<rparr>"
        "moved (c_tokens w) (sl_usdc_vault sale) (sl_treasury sale) (ta_amount v) L"
      by (rule cpi_transfer_moved)
    with vault_kept_transfer [OF cpi] show ?thesis by (auto dest: moved_same)
  qed (auto intro: exI [of _ "c_tokens w"])
  then obtain L where L: "w1 = w\<lparr>c_tokens := L\<rparr>" "same_accounts (c_tokens w) L"
      "\<And>m. m \<noteq> nonce \<Longrightarrow> vault_kept m (c_tokens w) L" by blast
  then show ?case
    using presale_invD [OF inv, of nonce] 1(1,7) held_same [OF vault(2) L(2)]
    by (intro presale_inv_put [OF inv, of nonce]) (auto simp: put_sale_def sale_inv_def sale_ok_def)
qed

lemma presale_dispatch_inv:
  assumes "presale_inv E w" and "presale_dispatch E S sv ix w = Inr w'"
    and "\<not> signs_for PresaleProgram (presale_signer ix)"
  shows "presale_inv E w'"
  using assms
  by (cases ix) (auto intro: initialize_sale_inv update_sale_params_inv contribute_usdc_inv
      contribute_with_swap_inv deliver_contribution_inv claim_inv sweep_proceeds_inv finalize_sale_inv)

end

lemma presale_inv_frame:
  assumes "presale_inv env w" and "presale_frame w w'"
  shows "presale_inv env w'"
  by (rule presale_inv_put [OF assms(1), of 0])
     (use assms sale_inv_kept [OF presale_invD [OF assms(1), of 0] vault_kept_outside] in
       \<open>auto simp: presale_frame_def intro: vault_kept_outside\<close>)

sublocale swap_env \<subseteq> presale_sys: invariant_system presale_genesis "presale_step E S"
  "\<lambda>(t, w). presale_inv E w"
proof unfold_locales
  fix s :: "i64 \<times> 'z presale_chain_scheme" assume "presale_genesis s"
  then show "case s of (t, w) \<Rightarrow> presale_inv E w"
    by (cases s) (simp add: presale_genesis_def presale_inv_def sale_inv_def)
next
  fix s t :: "i64 \<times> 'z presale_chain_scheme"
  assume "case s of (t, w) \<Rightarrow> presale_inv E w" and "presale_step E S s t"
  then show "case t of (t, w) \<Rightarrow> presale_inv E w"
    by (auto elim!: presale_step.cases intro: presale_dispatch_inv presale_inv_frame)
qed

context swap_env
begin

lemma presale_reachable_inv:
  "reachable presale_genesis (presale_step E S) (t, w) \<Longrightarrow> presale_inv E w"
  using presale_sys.reachable_inv by fastforce

end

end
