(* ===== verification/Presale_Properties.thy ===== *)
theory Presale_Properties
  imports Presale_Invariants Governance_History
begin

text \<open>
  What the presale program guarantees: a sale's books balance and its raise is covered by USDC,
  nothing is credited without the vault receiving it, terms and totals only move forward and a
  finalized sale is closed, a claim pays what is outstanding once; and what it does not: a sale
  anyone opens pays out of the same OPEN vault.
\<close>


section \<open>A concrete sale\<close>

fun presale_run ::
  "env \<Rightarrow> 'z swap_fn \<Rightarrow> (sysvars \<times> presale_ix) list \<Rightarrow> 'z presale_chain_scheme \<Rightarrow> 'z presale_result" where
  "presale_run env swap [] w = Inr w"
| "presale_run env swap ((sv, ix) # ixs) w =
     and_then (presale_dispatch env swap sv ix w) (presale_run env swap ixs)"

fun presale_timed :: "i64 \<Rightarrow> (sysvars \<times> presale_ix) list \<Rightarrow> bool" where
  "presale_timed t [] \<longleftrightarrow> True"
| "presale_timed t ((sv, ix) # ixs) \<longleftrightarrow> t \<le> unix_timestamp sv
     \<and> \<not> signs_for PresaleProgram (presale_signer ix) \<and> presale_timed (unix_timestamp sv) ixs"

lemma presale_run_steps:
  assumes "presale_timed t ixs" and "presale_run env swap ixs w = Inr w'"
  shows "(presale_step env swap)\<^sup>*\<^sup>* (t, w) (end_time t ixs, w')"
  using assms
proof (induction ixs arbitrary: t w)
  case (Cons x ixs)
  obtain sv ix where x: "x = (sv, ix)" by (cases x)
  from Cons.prems(2) x obtain w1 where
    w1: "presale_dispatch env swap sv ix w = Inr w1" "presale_run env swap ixs w1 = Inr w'"
    by auto
  have "presale_step env swap (t, w) (unix_timestamp sv, w1)"
    by (rule presale_step_ix [OF _ _ w1(1)]) (use Cons.prems(1) x in auto)
  also have "(presale_step env swap)\<^sup>*\<^sup>* (unix_timestamp sv, w1) (end_time (unix_timestamp sv) ixs, w')"
    using Cons.IH Cons.prems(1) w1(2) x by auto
  finally show ?case using x by simp
qed simp

text \<open>OPEN is mint \<open>Key 2\<close>, its presale vault \<open>Key 71\<close> holds 1000; USDC is mint \<open>Key 8\<close>;
  \<open>Key 5\<close> buys for 30 at a rate of 10 and claims. \<open>Key 66\<close> holds a mint of no value,
  \<open>Key 7\<close>.\<close>

definition sale_params :: InitializeSaleParams where
  "sale_params = \<lparr> is_hard_cap = 50, is_soft_cap = 0, is_min_contribution = 1,
     is_max_contribution = 40, is_max_slippage_bps = 100, is_open_per_usdc = 10,
     is_start_time = 10, is_end_time = 1000, is_stablecoin_whitelist = [] \<rparr>"

definition sale_demo :: "nat \<Rightarrow> SaleConfig" where
  "sale_demo n = \<lparr> sl_admin = Key 9, sl_open_mint = Key 2, sl_usdc_mint = Key 8,
     sl_presale_vault = Key 71, sl_usdc_vault = sale_usdc_vault_pda 0, sl_treasury = Key 72,
     sl_swap_program = Key 73, sl_hard_cap = 50, sl_soft_cap = 0, sl_min_contribution = 1,
     sl_max_contribution = 40, sl_max_slippage_bps = 100, sl_open_per_usdc = 10,
     sl_open_decimals = 6, sl_usdc_decimals = 6, sl_start_time = 10, sl_end_time = 1000,
     sl_stablecoin_whitelist = [], sl_total_raised = of_nat n, sl_state = Active, sl_bump = 255,
     sl_usdc_vault_bump = 255 \<rparr>"

definition sale_buyer :: "u64 \<Rightarrow> Contribution" where
  "sale_buyer claimed = \<lparr> cb_buyer = Key 5, cb_amount_usdc = 30, cb_open_entitlement = 300,
     cb_claimed_open = claimed, cb_bump = 255 \<rparr>"

definition sale_tokens :: "u64 \<Rightarrow> u64 \<Rightarrow> u64 \<Rightarrow> ledger" where
  "sale_tokens bucket usdc bought =
     [Key 71 \<mapsto> demo_account (Key 2) presale_vault_authority_pda bucket,
      Key 72 \<mapsto> demo_account (Key 8) (Key 9) 0, Key 55 \<mapsto> demo_account (Key 8) (Key 5) usdc,
      Key 52 \<mapsto> demo_account (Key 2) (Key 5) bought,
      Key 67 \<mapsto> demo_account (Key 7) (Key 66) 1000, Key 68 \<mapsto> demo_account (Key 2) (Key 66) 0]"

definition sale_chain ::
  "ledger \<Rightarrow> (u64 \<rightharpoonup> SaleConfig) \<Rightarrow> (u64 \<times> pubkey \<rightharpoonup> Contribution) \<Rightarrow> presale_chain" where
  "sale_chain L S C = \<lparr> c_tokens = L,
     c_mints = [Key 2 \<mapsto> \<lparr> mi_decimals = 6, mi_program = Prog Token2022Program \<rparr>,
                Key 7 \<mapsto> \<lparr> mi_decimals = 6, mi_program = Prog SplTokenProgram \<rparr>,
                Key 8 \<mapsto> \<lparr> mi_decimals = 6, mi_program = Prog SplTokenProgram \<rparr>],
     c_bans = (\<lambda>_. no_account), sk_config = None, sk_stakes = Map.empty,
     sk_receipts = Map.empty, sk_log = [], es_vaults = Map.empty, es_trades = Map.empty,
     es_fee_config = None, es_cases = Map.empty, es_claims = Map.empty, es_policy = None,
     es_log = [], gv_config = None, gv_emergency = None, gv_proposals = Map.empty,
     gv_actions = Map.empty, gv_votes = Map.empty, gv_bans = Map.empty, gv_log = [],
     ps_sales = S, ps_contributions = C, ps_log = [] \<rparr>"

definition sale_start :: presale_chain where
  "sale_start = sale_chain (sale_tokens 1000 100 0) Map.empty Map.empty"

definition sale_opened :: presale_chain where
  "sale_opened = sale_chain ((sale_tokens 1000 100 0)
     (sale_usdc_vault_pda 0 \<mapsto> demo_account (Key 8) (sale_config_pda 0) 0))
     [0 \<mapsto> sale_demo 0] Map.empty"

definition sale_bought :: presale_chain where
  "sale_bought = sale_chain ((sale_tokens 1000 70 0)
     (sale_usdc_vault_pda 0 \<mapsto> demo_account (Key 8) (sale_config_pda 0) 30))
     [0 \<mapsto> sale_demo 30] [(0, Key 5) \<mapsto> sale_buyer 0]"

definition sale_claimed :: presale_chain where
  "sale_claimed = sale_chain ((sale_tokens 700 70 300)
     (sale_usdc_vault_pda 0 \<mapsto> demo_account (Key 8) (sale_config_pda 0) 30))
     [0 \<mapsto> sale_demo 30] [(0, Key 5) \<mapsto> sale_buyer 300]"

lemma sale_vault_not_key [simp]: "sale_usdc_vault_pda n \<noteq> Key x" "Key x \<noteq> sale_usdc_vault_pda n"
  by (simp_all add: sale_usdc_vault_pda_def)

lemmas presale_eval =
  presale_handler_defs presale_load_defs presale_world_simps open_entitlement_for_def
  checked_pow10_def checked_mul_def cpi_transfer_def ref_transfer_checked_def init_token_def
  token_interface_ids_def Let_def checked_add_def checked_sub_def PRESALE_BPS_DENOMINATOR_def
  MAX_STABLECOINS_def

lemmas sale_demo_defs =
  sale_chain_def sale_tokens_def sale_demo_def sale_buyer_def demo_account_def

lemma sale_opened_run:
  "presale_dispatch ref_env ref_swap (demo_sv 5) (IxInitializeSale (Key 9) 0 (Key 2) (Key 8)
     (Prog SplTokenProgram) (Key 71) (Key 72) (Key 73) sale_params) sale_start = Inr sale_opened"
  by (simp add: sale_start_def sale_opened_def sale_params_def sale_demo_defs presale_eval
      word_le_nat_alt)

lemma sale_bought_run:
  "presale_dispatch ref_env ref_swap (demo_sv 20)
     (IxContributeUsdc (Key 5) 0 (Key 55) (Prog SplTokenProgram) 30) sale_opened = Inr sale_bought"
  by (simp add: sale_bought_def sale_opened_def sale_demo_defs presale_eval word_le_nat_alt
      wallet_is_banned_def fun_upd_twist)

lemma sale_claimed_run:
  "presale_dispatch ref_env ref_swap (demo_sv 30)
     (IxClaim (Key 5) 0 (Key 52) (Prog Token2022Program)) sale_bought = Inr sale_claimed"
  by (simp add: sale_bought_def sale_claimed_def sale_demo_defs presale_eval word_le_nat_alt
      fun_upd_twist)

lemma sale_steps:
  "presale_step ref_env ref_swap (0, sale_start) (5, sale_opened)"
  "presale_step ref_env ref_swap (5, sale_opened) (20, sale_bought)"
  "presale_step ref_env ref_swap (20, sale_bought) (30, sale_claimed)"
  using presale_step_ix [OF _ _ sale_opened_run, of 0] presale_step_ix [OF _ _ sale_bought_run, of 5]
    presale_step_ix [OF _ _ sale_claimed_run, of 20]
  by simp_all

lemma sale_reachable:
  "reachable presale_genesis (presale_step ref_env ref_swap) (5, sale_opened)"
  "reachable presale_genesis (presale_step ref_env ref_swap) (20, sale_bought)"
  "reachable presale_genesis (presale_step ref_env ref_swap) (30, sale_claimed)"
proof -
  have "presale_genesis (0, sale_start)"
    by (simp add: presale_genesis_def sale_start_def sale_chain_def sale_tokens_def)
  then show "reachable presale_genesis (presale_step ref_env ref_swap) (5, sale_opened)"
    "reachable presale_genesis (presale_step ref_env ref_swap) (20, sale_bought)"
    "reachable presale_genesis (presale_step ref_env ref_swap) (30, sale_claimed)"
    using sale_steps by (blast intro: reachable_init reachable_step)+
qed


section \<open>The books\<close>

text \<open>
  C8. In every reachable state a sale's total is exactly the sum of its buyers' contributions and
  never above its hard cap, no buyer has claimed more OPEN than they are entitled to, and while
  the sale is open its vault together with the swept proceeds covers everything raised.
\<close>

theorem presale_books_balance:
  assumes "swap_env env swap" and "reachable presale_genesis (presale_step env swap) (t, w)"
    and "ps_sales w nonce = Some s"
  shows "unat (sl_total_raised s) = (\<Sum>k | ps_contributions w (nonce, k) \<noteq> None.
           unat (cb_amount_usdc (the (ps_contributions w (nonce, k)))))
     \<and> unat (sl_total_raised s) \<le> unat (sl_hard_cap s) \<and> sl_soft_cap s = 0
     \<and> (\<forall>k c. ps_contributions w (nonce, k) = Some c \<longrightarrow> cb_buyer c = k
          \<and> unat (cb_claimed_open c) \<le> unat (cb_open_entitlement c))
     \<and> (sl_state s = Active \<longrightarrow> unat (sl_total_raised s)
          \<le> balance (c_tokens w) (sale_usdc_vault_pda nonce) + swept nonce (ps_log w))"
  using presale_invD [OF swap_env.presale_reachable_inv [OF assms(1,2)], of nonce] assms(3)
  by (auto simp: sale_inv_def sale_ok_def contribution_ok_def raised_def map_total_def dom_def)

theorem presale_books_balance_witness:
  "30 = (\<Sum>k | ps_contributions sale_claimed (0, k) \<noteq> None.
      unat (cb_amount_usdc (the (ps_contributions sale_claimed (0, k)))))
   \<and> 30 \<le> balance (c_tokens sale_claimed) (sale_usdc_vault_pda 0) + swept 0 []"
  using presale_books_balance [OF ref_swap.swap_env_axioms sale_reachable(3), of 0 "sale_demo 30"]
  by (simp add: sale_claimed_def sale_chain_def sale_demo_def)

text \<open>A raise of \<open>nonce\<close> by some \<open>d > 0\<close> that the vault received.\<close>

definition backed ::
  "i64 \<Rightarrow> u64 \<Rightarrow> SaleConfig \<Rightarrow> SaleConfig \<Rightarrow> 'z presale_chain_scheme \<Rightarrow> 'z presale_chain_scheme \<Rightarrow> bool"
  where
  "backed now nonce s s' w w' \<longleftrightarrow>
     sl_state s = Active \<and> sl_start_time s \<le> now \<and> now \<le> sl_end_time s
     \<and> (\<exists>k c' d. \<not> banned w k
          \<and> unat (sl_total_raised s') = unat (sl_total_raised s) + d
          \<and> unat (sl_total_raised s') \<le> unat (sl_hard_cap s)
          \<and> balance (c_tokens w') (sale_usdc_vault_pda nonce)
              = balance (c_tokens w) (sale_usdc_vault_pda nonce) + d
          \<and> ps_contributions w' = (ps_contributions w)((nonce, k) \<mapsto> c')
          \<and> unat (cb_amount_usdc c') = unat (cb_amount_usdc (contribution_or_new w nonce k)) + d
          \<and> unat (cb_amount_usdc c') \<le> unat (sl_max_contribution s)
          \<and> unat (cb_open_entitlement c')
              = unat (cb_open_entitlement (contribution_or_new w nonce k)) + open_value s d)"

lemma credit_backed:
  assumes ok: "credit_ok w now n k sale d e paid"
    and w': "ps_sales w' = ps_sales (credit env n k sale d e paid (w\<lparr>c_tokens := L\<rparr>))"
      "ps_contributions w' = ps_contributions (credit env n k sale d e paid (w\<lparr>c_tokens := L\<rparr>))"
      "c_tokens w' = L"
    and gain: "balance L (sale_usdc_vault_pda n) = balance (c_tokens w) (sale_usdc_vault_pda n) + unat d"
    and s: "ps_sales w nonce = Some s" "ps_sales w' nonce = Some s'"
      "sl_total_raised s' \<noteq> sl_total_raised s"
  shows "backed now nonce s s' w w'"
proof -
  have n: "n = nonce" using s w'(1) by (auto split: if_splits)
  then have ss: "s = sale" "s' = sale\<lparr>sl_total_raised := sl_total_raised sale + d\<rparr>"
    using s w'(1) ok by (auto simp: credit_ok_def)
  have c: "contribution_or_new (w\<lparr>c_tokens := L\<rparr>) n k = contribution_or_new w n k"
    by (simp add: contribution_or_new_def)
  show ?thesis
    unfolding backed_def
    using ok gain w'(3) credit_sums [OF ok] w'(2) [unfolded credit_contribution c Let_def]
    by (auto simp: credit_ok_def ss n intro!: exI [of _ k] exI [of _ "unat d"])
qed

lemma dispatch_backed:
  fixes w :: "'z presale_chain_scheme"
  assumes "swap_env env swap" and inv: "presale_inv env w"
    and ok: "presale_dispatch env swap sv ix w = Inr w'"
    and signer: "\<not> signs_for PresaleProgram (presale_signer ix)"
    and s: "ps_sales w nonce = Some s" "ps_sales w' nonce = Some s'"
      "sl_total_raised s' \<noteq> sl_total_raised s"
  shows "backed (unix_timestamp sv) nonce s s' w w'"
proof (cases ix)
  case (IxContributeUsdc b n bu tp a)
  with ok have "handle_contribute_usdc env sv b n bu tp a w = Inr w'" by simp
  then show ?thesis
  proof (rule contribute_usdcE, goal_cases)
    case (1 sale e t w1)
    then have "ps_sales w n = Some sale" by (simp add: credit_ok_def)
    from swap_env.contribute_usdc_gain [OF assms(1) inv _ this 1(3,4,5)] signer IxContributeUsdc
    obtain L where "w1 = w\<lparr>c_tokens := L\<rparr>"
        "balance L (sale_usdc_vault_pda n) = balance (c_tokens w) (sale_usdc_vault_pda n) + unat a"
      by auto
    with 1(1,2) show ?thesis by (intro credit_backed [OF 1(1) _ _ _ _ s]) auto
  qed
next
  case (IxContributeWithSwap b n m p as x d)
  with ok have "handle_contribute_with_swap env swap sv b n m p as x d w = Inr w'" by simp
  then show ?thesis
  proof (rule contribute_with_swapE [OF assms(1)], goal_cases)
    case (1 sale d e L t t')
    then have "ps_sales w n = Some sale" by (simp add: credit_ok_def)
    from sale_inv_vault(1) [OF inv this] 1(2,4,5,6) show ?thesis
      by (intro credit_backed [OF 1(1) _ _ _ _ s]) auto
  qed
next
  case (IxDeliverContribution p n k su ut ot a)
  with ok have "handle_deliver_contribution env sv p n k su ut ot a w = Inr w'" by simp
  then show ?thesis
  proof (rule deliver_contributionE, goal_cases)
    case (1 sale e t t' w0 w1 w2)
    then have "ps_sales w n = Some sale" by (simp add: credit_ok_def)
    from swap_env.deliver_gain [OF assms(1) inv _ this 1(3-8)] signer IxDeliverContribution
    obtain L where "w2 = w\<lparr>c_tokens := L\<rparr>"
        "balance L (sale_usdc_vault_pda n) = balance (c_tokens w) (sale_usdc_vault_pda n) + unat a"
      by auto
    with 1(1,2) show ?thesis
      by (intro credit_backed [OF 1(1) _ _ _ _ s]) (auto simp: emit_presale_def)
  qed
next
  case (IxUpdateSaleParams admin n params)
  with ok have "handle_update_sale_params env admin n params w = Inr w'" by simp
  then have "sl_total_raised s' = sl_total_raised s"
    using s(1,2) by (auto simp: handle_update_sale_params_def load_sale_config_def put_sale_def
        split: if_splits)
  with s(3) show ?thesis by simp
qed (use ok s in \<open>auto simp: handle_initialize_sale_def handle_claim_def
       handle_sweep_proceeds_def handle_finalize_sale_def presale_load_defs(1,4,5) presale_world_simps
       init_token_def dest!: cpi_transfer_frame split: if_splits\<close>)

text \<open>
  C9. Nothing is credited for free. Whenever a step changes what a sale has raised, the sale was
  open, its vault received exactly the difference in USDC in that step, and exactly one
  wallet, not banned, was credited with that amount and with the OPEN it is worth at the sale's
  rate, within its own maximum and the sale's hard cap; whichever way the contribution came in,
  for a swap program that, as the trusted aggregator, changes token accounts only and spends
  nothing the four programs sign for.
\<close>

theorem contributions_are_backed:
  assumes "swap_env env swap" and "reachable presale_genesis (presale_step env swap) (t, w)"
    and step: "presale_step env swap (t, w) (t', w')"
    and s: "ps_sales w nonce = Some s" "ps_sales w' nonce = Some s'"
      "sl_total_raised s' \<noteq> sl_total_raised s"
  shows "sl_state s = Active \<and> sl_start_time s \<le> t' \<and> t' \<le> sl_end_time s
     \<and> (\<exists>k c' d. \<not> banned w k
          \<and> unat (sl_total_raised s') = unat (sl_total_raised s) + d
          \<and> unat (sl_total_raised s') \<le> unat (sl_hard_cap s)
          \<and> balance (c_tokens w') (sale_usdc_vault_pda nonce)
              = balance (c_tokens w) (sale_usdc_vault_pda nonce) + d
          \<and> ps_contributions w' = (ps_contributions w)((nonce, k) \<mapsto> c')
          \<and> unat (cb_amount_usdc c') = unat (cb_amount_usdc (contribution_or_new w nonce k)) + d
          \<and> unat (cb_amount_usdc c') \<le> unat (sl_max_contribution s)
          \<and> unat (cb_open_entitlement c')
              = unat (cb_open_entitlement (contribution_or_new w nonce k)) + open_value s d)"
  using step
proof (rule presale_stepE)
  fix sv ix assume "t' = unix_timestamp sv" "presale_dispatch env swap sv ix w = Inr w'"
    "\<not> signs_for PresaleProgram (presale_signer ix)"
  with dispatch_backed [OF assms(1) swap_env.presale_reachable_inv [OF assms(1,2)] _ _ s]
  show ?thesis unfolding backed_def by blast
qed (use s in \<open>auto simp: presale_frame_def\<close>)

theorem contributions_are_backed_witness:
  "\<exists>k c' d. 30 = 0 + d
     \<and> balance (c_tokens sale_bought) (sale_usdc_vault_pda 0)
         = balance (c_tokens sale_opened) (sale_usdc_vault_pda 0) + d
     \<and> ps_contributions sale_bought = (ps_contributions sale_opened)((0, k) \<mapsto> c')"
  using contributions_are_backed [OF ref_swap.swap_env_axioms sale_reachable(1) sale_steps(2),
      of 0 "sale_demo 0" "sale_demo 30"]
  by (simp add: sale_bought_def sale_opened_def sale_chain_def sale_demo_def) blast



section \<open>How a sale moves\<close>

definition sale_progress :: "SaleConfig \<Rightarrow> SaleConfig \<Rightarrow> bool" where
  "sale_progress s s' \<longleftrightarrow>
     sl_admin s' = sl_admin s \<and> sl_open_mint s' = sl_open_mint s \<and> sl_usdc_mint s' = sl_usdc_mint s
     \<and> sl_presale_vault s' = sl_presale_vault s \<and> sl_usdc_vault s' = sl_usdc_vault s
     \<and> sl_treasury s' = sl_treasury s \<and> sl_swap_program s' = sl_swap_program s
     \<and> sl_start_time s' = sl_start_time s
     \<and> sl_stablecoin_whitelist s' = sl_stablecoin_whitelist s
     \<and> sl_total_raised s \<le> sl_total_raised s'
     \<and> (sl_state s = Finalized \<longrightarrow> s' = s)"

definition contribution_progress :: "SaleState \<Rightarrow> Contribution \<Rightarrow> Contribution \<Rightarrow> bool" where
  "contribution_progress state c c' \<longleftrightarrow>
     cb_amount_usdc c \<le> cb_amount_usdc c' \<and> cb_open_entitlement c \<le> cb_open_entitlement c'
     \<and> cb_claimed_open c \<le> cb_claimed_open c'
     \<and> (state = Finalized \<longrightarrow> cb_amount_usdc c' = cb_amount_usdc c
          \<and> cb_open_entitlement c' = cb_open_entitlement c)
     \<and> (cb_amount_usdc c' = cb_amount_usdc c \<and> cb_claimed_open c = cb_open_entitlement c \<longrightarrow>
          cb_claimed_open c' = cb_open_entitlement c')"

lemma sale_progress_refl [simp]: "sale_progress s s"
  by (simp add: sale_progress_def)

lemma contribution_progress_refl [simp]: "contribution_progress state c c"
  by (simp add: contribution_progress_def)

lemma sale_progress_trans: "sale_progress s s1 \<Longrightarrow> sale_progress s1 s2 \<Longrightarrow> sale_progress s s2"
  by (auto simp: sale_progress_def)

lemma contribution_progress_trans:
  "\<lbrakk> contribution_progress state c c1; contribution_progress state1 c1 c2;
     state = Finalized \<longrightarrow> state1 = Finalized \<rbrakk> \<Longrightarrow> contribution_progress state c c2"
  by (auto simp: contribution_progress_def)

definition sale_moves :: "u64 \<Rightarrow> 'z presale_chain_scheme \<Rightarrow> 'z presale_chain_scheme \<Rightarrow> bool" where
  "sale_moves nonce w w' \<longleftrightarrow>
     (\<forall>s. ps_sales w nonce = Some s \<longrightarrow>
        (\<exists>s'. ps_sales w' nonce = Some s' \<and> sale_progress s s')
        \<and> (\<forall>k c. ps_contributions w (nonce, k) = Some c \<longrightarrow>
             (\<exists>c'. ps_contributions w' (nonce, k) = Some c' \<and> contribution_progress (sl_state s) c c')))"

lemma sale_moves_trans:
  assumes "sale_moves nonce w w1" and "sale_moves nonce w1 w2"
  shows "sale_moves nonce w w2"
  unfolding sale_moves_def
proof (intro allI impI)
  fix s assume s: "ps_sales w nonce = Some s"
  with assms(1) obtain s1 where s1: "ps_sales w1 nonce = Some s1" "sale_progress s s1"
    unfolding sale_moves_def by blast
  have fin: "sl_state s = Finalized \<longrightarrow> sl_state s1 = Finalized"
    using s1(2) by (auto simp: sale_progress_def)
  from assms(2) s1 obtain s2 where "ps_sales w2 nonce = Some s2" "sale_progress s1 s2"
    unfolding sale_moves_def by blast
  with s1(2) have "\<exists>s'. ps_sales w2 nonce = Some s' \<and> sale_progress s s'"
    using sale_progress_trans by blast
  moreover have "\<exists>c'. ps_contributions w2 (nonce, k) = Some c' \<and> contribution_progress (sl_state s) c c'"
    if "ps_contributions w (nonce, k) = Some c" for k c
  proof -
    from assms(1) s that obtain c1 where
      c1: "ps_contributions w1 (nonce, k) = Some c1" "contribution_progress (sl_state s) c c1"
      unfolding sale_moves_def by blast
    with assms(2) s1(1) obtain c2 where
      "ps_contributions w2 (nonce, k) = Some c2" "contribution_progress (sl_state s1) c1 c2"
      unfolding sale_moves_def by blast
    with c1(2) fin show ?thesis by (blast intro: contribution_progress_trans)
  qed
  ultimately show "(\<exists>s'. ps_sales w2 nonce = Some s' \<and> sale_progress s s')
      \<and> (\<forall>k c. ps_contributions w (nonce, k) = Some c \<longrightarrow>
           (\<exists>c'. ps_contributions w2 (nonce, k) = Some c' \<and> contribution_progress (sl_state s) c c'))"
    by blast
qed

lemma sale_moves_same:
  "ps_sales w' = ps_sales w \<Longrightarrow> ps_contributions w' = ps_contributions w \<Longrightarrow> sale_moves nonce w w'"
  by (simp add: sale_moves_def)

lemma credit_moves:
  assumes ok: "credit_ok w now n k sale d e paid"
    and w': "ps_sales w' = ps_sales (credit env n k sale d e paid (w\<lparr>c_tokens := L\<rparr>))"
      "ps_contributions w' = ps_contributions (credit env n k sale d e paid (w\<lparr>c_tokens := L\<rparr>))"
  shows "sale_moves nonce w w'"
proof -
  have c: "contribution_or_new (w\<lparr>c_tokens := L\<rparr>) n k = contribution_or_new w n k"
    by (simp add: contribution_or_new_def)
  have zero: "d = 0 \<longrightarrow> e = 0" using ok by (auto simp: credit_ok_def unat_eq_zero)
  show ?thesis
    using ok credit_sums [OF ok] zero
    by (auto simp: sale_moves_def w' credit_contribution c Let_def credit_ok_def sale_progress_def
        contribution_progress_def word_le_nat_alt contribution_or_new_def)
qed

lemma dispatch_moves:
  assumes env: "swap_env env swap" and ok: "presale_dispatch env swap sv ix w = Inr w'"
  shows "sale_moves nonce w w'"
proof (cases ix)
  case (IxContributeUsdc b n bu tp a)
  with ok have "handle_contribute_usdc env sv b n bu tp a w = Inr w'" by simp
  then show ?thesis
    by (rule contribute_usdcE) (auto dest!: cpi_transfer_frame intro: credit_moves)
next
  case (IxContributeWithSwap b n m p as x d)
  with ok have "handle_contribute_with_swap env swap sv b n m p as x d w = Inr w'" by simp
  then show ?thesis by (rule contribute_with_swapE [OF env]) (auto intro: credit_moves)
next
  case (IxDeliverContribution p n k su ut ot a)
  with ok have "handle_deliver_contribution env sv p n k su ut ot a w = Inr w'" by simp
  then show ?thesis
  proof (rule deliver_contributionE, goal_cases)
    case (1 sale e t t' w0 w1 w2)
    then obtain L where "w2 = w\<lparr>c_tokens := L\<rparr>"
      using cpi_transfer_frame [OF 1(4)] cpi_transfer_frame [OF 1(5)]
      by (auto simp: associated_token_or_new_def init_token_def split: option.splits)
    with 1(2) show ?thesis by (intro credit_moves [OF 1(1)]) (simp_all add: emit_presale_def)
  qed
next
  case (IxClaim b n bo tp)
  with ok have "handle_claim env b n bo tp w = Inr w'" by simp
  then show ?thesis
    by (rule claimE) (auto dest!: cpi_transfer_frame simp: sale_moves_def put_contribution_def
        contribution_progress_def word_le_nat_alt)
next
  case (IxFinalizeSale a n tp)
  with ok have "handle_finalize_sale env sv a n tp w = Inr w'" by simp
  then show ?thesis
    by (rule finalize_saleE) (auto dest!: cpi_transfer_frame simp: sale_moves_def put_sale_def
        sale_progress_def)
next
  case (IxUpdateSaleParams a n params)
  with ok show ?thesis
    by (auto simp: handle_update_sale_params_def load_sale_config_def put_sale_def sale_moves_def
        sale_progress_def)
next
  case (IxSweepProceeds a n tp x)
  with ok have "handle_sweep_proceeds env a n tp x w = Inr w'" by simp
  then show ?thesis
    by (rule sweep_proceedsE) (auto dest!: cpi_transfer_frame simp: emit_presale_def
        intro: sale_moves_same)
next
  case (IxInitializeSale a n om um tp pv tr sp params)
  with ok have "handle_initialize_sale env a n om um tp pv tr sp params w = Inr w'" by simp
  then show ?thesis by (rule initialize_saleE) (auto simp: put_sale_def sale_moves_def)
qed

lemma sale_run_moves:
  assumes env: "swap_env env swap"
    and "(presale_step env swap)\<^sup>*\<^sup>* (t, w) (t', w')" and "ps_sales w nonce = Some s"
  shows "(\<exists>s'. ps_sales w' nonce = Some s' \<and> sale_progress s s')
     \<and> (\<forall>k c. ps_contributions w (nonce, k) = Some c \<longrightarrow>
          (\<exists>c'. ps_contributions w' (nonce, k) = Some c' \<and> contribution_progress (sl_state s) c c'))"
proof -
  have "sale_moves nonce w w'"
    using assms(2)
  proof (induction "(t', w')" arbitrary: t' w')
    case (step s1)
    obtain t1 w1 where s1: "s1 = (t1, w1)" by (cases s1)
    from step(2) [unfolded s1] have "sale_moves nonce w1 w'"
      by (rule presale_stepE) (auto simp: presale_frame_def intro: dispatch_moves [OF env] sale_moves_same)
    with step(3) [OF s1] show ?case by (rule sale_moves_trans)
  qed (simp add: sale_moves_def)
  with assms(3) show ?thesis unfolding sale_moves_def by blast
qed

text \<open>
  Along every sequence of steps a sale keeps its administrator, mints, vaults, treasury,
  swap program, start and whitelist, its total never falls, and once finalized nothing about it
  changes again; every buyer's contribution, entitlement and claims only grow, after the
  finalization only claims do, and a buyer who has claimed everything stays so until their
  contribution grows.
\<close>

theorem sale_lifecycle:
  assumes "swap_env env swap"
    and "(presale_step env swap)\<^sup>*\<^sup>* (t, w) (t', w')" and "ps_sales w nonce = Some s"
  shows "(\<exists>s'. ps_sales w' nonce = Some s' \<and> sale_progress s s')
     \<and> (\<forall>k c. ps_contributions w (nonce, k) = Some c \<longrightarrow>
          (\<exists>c'. ps_contributions w' (nonce, k) = Some c' \<and> contribution_progress (sl_state s) c c'))"
  by (rule sale_run_moves [OF assms])

theorem sale_lifecycle_witness:
  "(\<exists>s'. ps_sales sale_claimed 0 = Some s' \<and> sale_progress (sale_demo 0) s')
     \<and> ps_sales sale_opened 0 = Some (sale_demo 0)"
proof -
  have "(presale_step ref_env ref_swap)\<^sup>*\<^sup>* (5, sale_opened) (30, sale_claimed)"
    using sale_steps(2,3) by (meson r_into_rtranclp rtranclp.rtrancl_into_rtrancl)
  moreover have "ps_sales sale_opened 0 = Some (sale_demo 0)"
    by (simp add: sale_opened_def sale_chain_def)
  ultimately show ?thesis using sale_lifecycle [OF ref_swap.swap_env_axioms] by blast
qed


section \<open>Claims\<close>

lemma nothing_left_to_claim:
  assumes "ps_contributions w (nonce, buyer) = Some c" and "cb_claimed_open c = cb_open_entitlement c"
  shows "handle_claim env buyer nonce account tp w \<noteq> Inr w'"
proof
  assume "handle_claim env buyer nonce account tp w = Inr w'"
  then show False by (rule claimE) (use assms in \<open>auto simp: word_less_nat_alt\<close>)
qed

text \<open>
  C27. A successful claim moves exactly what the buyer is still owed out of the presale vault and
  into the buyer's own account and leaves every other token account as it was. Repeated at once it
  is refused with \<open>NothingToClaim\<close>; and in every later state in which the buyer's contribution is
  what it was at the claim, whatever else happened, no claim of the buyer succeeds, to whatever
  token account.
\<close>

theorem claim_pays_once:
  fixes w :: "'z presale_chain_scheme"
  assumes swap: "swap_env env swap"
    and s: "ps_sales w nonce = Some sale" "sl_presale_vault sale \<noteq> buyer_open"
    and ok: "handle_claim env buyer nonce buyer_open tp w = Inr w'"
  shows "\<exists>c n. ps_contributions w (nonce, buyer) = Some c
     \<and> n = unat (cb_open_entitlement c) - unat (cb_claimed_open c) \<and> 0 < n
     \<and> balance (c_tokens w) (sl_presale_vault sale)
         = balance (c_tokens w') (sl_presale_vault sale) + n
     \<and> balance (c_tokens w') buyer_open = balance (c_tokens w) buyer_open + n
     \<and> (\<forall>k. k \<noteq> sl_presale_vault sale \<and> k \<noteq> buyer_open \<longrightarrow>
          balance (c_tokens w') k = balance (c_tokens w) k)
     \<and> handle_claim env buyer nonce buyer_open tp w' = Inl (Program NothingToClaim)
     \<and> (\<forall>t1 t2 w2 c2 account tp2 w3. (presale_step env swap)\<^sup>*\<^sup>* (t1, w') (t2, w2)
          \<and> ps_contributions w2 (nonce, buyer) = Some c2 \<and> cb_amount_usdc c2 = cb_amount_usdc c \<longrightarrow>
          handle_claim env buyer nonce account tp2 w2 \<noteq> Inr w3)"
proof -
  have env: "token_env env" using swap by (rule swap_env.axioms)
  from ok obtain sale' c t u w1 where
    g: "ps_sales w nonce = Some sale'" "ps_contributions w (nonce, buyer) = Some c"
      "c_tokens w buyer_open = Some t" "ta_owner t = buyer"
      "unat (cb_open_entitlement c) = unat (cb_claimed_open c) + unat u" "0 < u"
      "cpi_transfer env tp (sl_presale_vault sale') (sl_open_mint sale') buyer_open
           presale_vault_authority_pda u (sl_open_decimals sale') w
           = (Inr w1 :: PresaleErrorCode tx_error + 'z presale_chain_scheme)"
    and w': "w' = put_contribution nonce buyer (c\<lparr>cb_claimed_open := cb_open_entitlement c\<rparr>) w1"
    by (rule claimE)
  have cpi: "cpi_transfer env tp (sl_presale_vault sale) (sl_open_mint sale) buyer_open
           presale_vault_authority_pda u (sl_open_decimals sale) w
           = (Inr w1 :: PresaleErrorCode tx_error + 'z presale_chain_scheme)"
    using g(1,7) s(1) by simp
  have guards: "sl_bump sale = bump_of env (sale_config_pda nonce)
      \<and> cb_bump c = bump_of env (contribution_pda nonce buyer) \<and> cb_buyer c = buyer
      \<and> ta_mint t = sl_open_mint sale \<and> tp \<in> set token_interface_ids
      \<and> (\<exists>mi. c_mints w (sl_open_mint sale) = Some mi \<and> mi_program mi = tp)
      \<and> (\<exists>v. c_tokens w (sl_presale_vault sale) = Some v)"
    using ok s(1) g(2,3) by (auto simp: handle_claim_def presale_load_defs(1,4,5))
  from env cpi obtain L where L: "w1 = w\<lparr>c_tokens := L\<rparr>"
      "moved (c_tokens w) (sl_presale_vault sale) buyer_open u L"
    by (rule token_env.cpi_transfer_moved)
  obtain v' where v': "L (sl_presale_vault sale) = Some v'"
    using same_accounts_Some [OF moved_same [OF L(2)]] guards by blast
  obtain t' where t': "L buyer_open = Some t'" "same_account t t'"
    using same_accounts_Some [OF moved_same [OF L(2)] g(3)] .
  have "handle_claim env buyer nonce buyer_open tp w' = Inl (Program NothingToClaim)"
    using s(1) guards g(4) v' t' by (auto simp: handle_claim_def presale_load_defs(1,4,5) w' L(1)
        put_contribution_def same_account_def checked_sub_def)
  moreover have "0 < unat u" using g(6) by (simp add: word_less_nat_alt)
  moreover have "handle_claim env buyer nonce account tp2 w2 \<noteq> Inr w3"
    if run: "(presale_step env swap)\<^sup>*\<^sup>* (t1, w') (t2, w2)"
      and c2: "ps_contributions w2 (nonce, buyer) = Some c2" "cb_amount_usdc c2 = cb_amount_usdc c"
    for t1 t2 w2 c2 account tp2 w3
  proof -
    have "ps_sales w' nonce = Some sale" using s(1) by (simp add: w' L(1) put_contribution_def)
    moreover have "ps_contributions w' (nonce, buyer) = Some (c\<lparr>cb_claimed_open := cb_open_entitlement c\<rparr>)"
      by (simp add: w' put_contribution_def)
    ultimately have "contribution_progress (sl_state sale) (c\<lparr>cb_claimed_open := cb_open_entitlement c\<rparr>) c2"
      using sale_run_moves [OF swap run] c2(1) by fastforce
    with c2(2) have "cb_claimed_open c2 = cb_open_entitlement c2" by (simp add: contribution_progress_def)
    with c2(1) show ?thesis by (rule nothing_left_to_claim)
  qed
  moreover have "balance (c_tokens w) (sl_presale_vault sale) = balance L (sl_presale_vault sale) + unat u"
    "balance L buyer_open = balance (c_tokens w) buyer_open + unat u"
    using moved_balance [OF L(2), of "sl_presale_vault sale"] moved_balance [OF L(2), of buyer_open] s(2)
    by simp_all
  moreover have "balance L k = balance (c_tokens w) k"
    if "k \<noteq> sl_presale_vault sale" "k \<noteq> buyer_open" for k
    using moved_untouched [OF L(2) that] .
  ultimately show ?thesis
    using g(2,5) L(1) by (intro exI [of _ c] exI [of _ "unat u"]) (auto simp: w' put_contribution_def)
qed

theorem claim_pays_once_witness:
  "\<exists>n. 300 - 0 = n \<and> balance (c_tokens sale_claimed) (Key 52) = balance (c_tokens sale_bought) (Key 52) + n
     \<and> handle_claim ref_env (Key 5) 0 (Key 52) (Prog Token2022Program) sale_claimed
         = Inl (Program NothingToClaim)"
  using claim_pays_once [OF ref_swap.swap_env_axioms _ _ sale_claimed_run [unfolded presale_dispatch.simps],
      of "sale_demo 30"]
  by (auto simp: sale_bought_def sale_chain_def sale_demo_def sale_buyer_def)


section \<open>A sale that swaps through the presale itself\<close>

text \<open>
  The presale as the swap program of a sale: the runtime lets a program call itself directly, and
  the call runs \<open>contribute_usdc\<close> for a second wallet that signed the transaction.
\<close>

definition presale_as_swap ::
  "env \<Rightarrow> sysvars \<Rightarrow> pubkey \<Rightarrow> u64 \<Rightarrow> pubkey \<Rightarrow> pubkey \<Rightarrow> u64 \<Rightarrow> 'z swap_fn" where
  "presale_as_swap env sv payer nonce account tp amount program accounts data w =
     (case handle_contribute_usdc env sv payer nonce account tp amount w of
        Inl _ \<Rightarrow> None | Inr w' \<Rightarrow> Some w')"

text \<open>
  C10. The law of the swap program is needed. \<open>initialize_sale\<close> records any swap program, and the
  check after the call looks at the vault only. If a sale swaps through the presale itself, a
  purchase whose inner call contributes \<open>amount\<close> for a second wallet credits both wallets with
  that amount and its OPEN value, while the vault receives it once and the recorded total grows by
  it once: the handler writes back the sale it read before the call.
\<close>

theorem self_swap_credits_twice:
  fixes w :: "'z presale_chain_scheme"
  assumes "token_env env" and "buyer \<noteq> payer"
    and s: "ps_sales w nonce = Some s" "sl_usdc_vault s \<noteq> account"
    and ok: "handle_contribute_with_swap env (presale_as_swap env sv payer nonce account tp amount) sv
        buyer nonce source program accounts expected data w = Inr w'"
  shows "\<exists>s'. ps_sales w' nonce = Some s'
     \<and> unat (sl_total_raised s') = unat (sl_total_raised s) + unat amount
     \<and> balance (c_tokens w') (sl_usdc_vault s) = balance (c_tokens w) (sl_usdc_vault s) + unat amount
     \<and> (\<forall>k \<in> {buyer, payer}. \<exists>c. ps_contributions w' (nonce, k) = Some c
          \<and> unat (cb_amount_usdc c)
              = unat (cb_amount_usdc (contribution_or_new w nonce k)) + unat amount
          \<and> unat (cb_open_entitlement c)
              = unat (cb_open_entitlement (contribution_or_new w nonce k)) + open_value s (unat amount))"
  using ok
proof (rule contribute_with_swap_anyE, goal_cases)
  case outer: (1 sale d e w1 t t')
  have sale: "sale = s" using outer(1) s(1) by (simp add: credit_ok_def)
  from outer(3) have "handle_contribute_usdc env sv payer nonce account tp amount w = Inr w1"
    by (simp add: presale_as_swap_def split: sum.splits)
  then show ?case
  proof (rule contribute_usdcE, goal_cases)
    case (1 sale1 e1 t1 w0)
    have sale1: "sale1 = s" using 1(1) s(1) by (simp add: credit_ok_def)
    obtain L where L: "w0 = w\<lparr>c_tokens := L\<rparr>" "moved (c_tokens w) account (sl_usdc_vault s) amount L"
      using assms(1) 1(5) unfolding sale1 by (rule token_env.cpi_transfer_moved)
    have gain: "balance L (sl_usdc_vault s) = balance (c_tokens w) (sl_usdc_vault s) + unat amount"
      using moved_balance [OF L(2), of "sl_usdc_vault s"] s(2) by simp
    have w1: "w1 = credit env nonce payer s amount e1 0 (w\<lparr>c_tokens := L\<rparr>)" using 1(2) by (simp add: L(1) sale1)
    have c1: "contribution_or_new w1 nonce buyer = contribution_or_new w nonce buyer"
      using assms(2) unfolding w1 by (simp add: contribution_or_new_def credit_contribution Let_def)
    have "d = amount" using outer(4-6) gain by (simp add: sale w1 word_unat_eq_iff)
    with outer(2) [OF c1] have w': "w' = credit env nonce buyer s amount e 0 w1" by (simp add: sale)
    show ?case
      using assms(2) gain credit_sums [OF outer(1)] credit_sums [OF 1(1)] outer(1) 1(1) \<open>d = amount\<close>
      by (auto simp: w' w1 c1 [unfolded w1] sale sale1 credit_contribution Let_def credit_ok_def)
  qed
qed

definition self_swap_sale :: "nat \<Rightarrow> SaleConfig" where
  "self_swap_sale n = (sale_demo n)\<lparr>sl_swap_program := Prog PresaleProgram,
     sl_stablecoin_whitelist := [Key 7]\<rparr>"

definition self_swap_start :: presale_chain where
  "self_swap_start = sale_opened\<lparr>ps_sales := [0 \<mapsto> self_swap_sale 0]\<rparr>"

theorem self_swap_credits_twice_witness:
  "\<exists>w'. handle_contribute_with_swap ref_env
      (presale_as_swap ref_env (demo_sv 20) (Key 5) 0 (Key 55) (Prog SplTokenProgram) 20) (demo_sv 20)
      (Key 66) 0 (Key 7) (Prog PresaleProgram) [] 20 [] self_swap_start = Inr w'
    \<and> (\<exists>s'. ps_sales w' 0 = Some s' \<and> unat (sl_total_raised s') = 20)
    \<and> (\<exists>c. ps_contributions w' (0, Key 5) = Some c \<and> unat (cb_amount_usdc c) = 20)
    \<and> (\<exists>c. ps_contributions w' (0, Key 66) = Some c \<and> unat (cb_amount_usdc c) = 20)"
proof -
  have "\<exists>w'. handle_contribute_with_swap ref_env
      (presale_as_swap ref_env (demo_sv 20) (Key 5) 0 (Key 55) (Prog SplTokenProgram) 20) (demo_sv 20)
      (Key 66) 0 (Key 7) (Prog PresaleProgram) [] 20 [] self_swap_start = Inr w'"
    by (simp add: self_swap_start_def self_swap_sale_def presale_as_swap_def sale_opened_def sale_demo_defs
        presale_eval word_le_nat_alt wallet_is_banned_def mul_div_u64_def checked_div_def)
  then obtain w' where run: "handle_contribute_with_swap ref_env
      (presale_as_swap ref_env (demo_sv 20) (Key 5) 0 (Key 55) (Prog SplTokenProgram) 20) (demo_sv 20)
      (Key 66) 0 (Key 7) (Prog PresaleProgram) [] 20 [] self_swap_start = Inr w'" by blast
  have "ps_sales self_swap_start 0 = Some (self_swap_sale 0)" "sl_usdc_vault (self_swap_sale 0) \<noteq> Key 55"
    by (simp_all add: self_swap_start_def self_swap_sale_def sale_demo_def)
  with self_swap_credits_twice [OF ref.token_env_axioms _ _ _ run, of "self_swap_sale 0"] run show ?thesis
    by (auto simp: self_swap_start_def self_swap_sale_def sale_opened_def sale_demo_defs
        contribution_or_new_def)
qed


section \<open>Who can open a sale\<close>

text \<open>The terms and the three instructions of an outsider who holds \<open>amount\<close> units of a mint.\<close>

definition outsider_params :: "u64 \<Rightarrow> i64 \<Rightarrow> InitializeSaleParams" where
  "outsider_params amount now = \<lparr> is_hard_cap = amount, is_soft_cap = 0, is_min_contribution = 1,
     is_max_contribution = amount, is_max_slippage_bps = 1, is_open_per_usdc = 1,
     is_start_time = now, is_end_time = now + 1, is_stablecoin_whitelist = [] \<rparr>"

definition outsider_ixs ::
  "sysvars \<Rightarrow> pubkey \<Rightarrow> u64 \<Rightarrow> pubkey \<Rightarrow> pubkey \<Rightarrow> pubkey \<Rightarrow> pubkey \<Rightarrow> pubkey \<Rightarrow> pubkey \<Rightarrow> pubkey
   \<Rightarrow> u64 \<Rightarrow> (sysvars \<times> presale_ix) list" where
  "outsider_ixs sv k nonce open_mint own_mint own_tp open_tp bucket own_account open_account amount =
     [(sv, IxInitializeSale k nonce open_mint own_mint own_tp bucket own_account k
             (outsider_params amount (unix_timestamp sv))),
      (sv, IxContributeUsdc k nonce own_account own_tp amount),
      (sv, IxClaim k nonce open_account open_tp)]"

lemma entitlement_identity:
  assumes "sl_open_decimals s = sl_usdc_decimals s" and "sl_open_per_usdc s = 1"
  shows "open_entitlement_for s a k = k a"
  using assms unat_lt_2p [of a]
  by (simp add: open_entitlement_for_def checked_sub_def checked_pow10_def checked_mul_def)

definition outsider_sale ::
  "env \<Rightarrow> pubkey \<Rightarrow> u64 \<Rightarrow> pubkey \<Rightarrow> pubkey \<Rightarrow> pubkey \<Rightarrow> pubkey \<Rightarrow> u64 \<Rightarrow> u8 \<Rightarrow> i64 \<Rightarrow> SaleConfig" where
  "outsider_sale env k nonce open_mint own_mint bucket own_account amount decimals now =
     \<lparr> sl_admin = k, sl_open_mint = open_mint, sl_usdc_mint = own_mint, sl_presale_vault = bucket,
       sl_usdc_vault = sale_usdc_vault_pda nonce, sl_treasury = own_account, sl_swap_program = k,
       sl_hard_cap = amount, sl_soft_cap = 0, sl_min_contribution = 1, sl_max_contribution = amount,
       sl_max_slippage_bps = 1, sl_open_per_usdc = 1, sl_open_decimals = decimals,
       sl_usdc_decimals = decimals, sl_start_time = now, sl_end_time = now + 1,
       sl_stablecoin_whitelist = [], sl_total_raised = 0, sl_state = Active,
       sl_bump = bump_of env (sale_config_pda nonce),
       sl_usdc_vault_bump = bump_of env (sale_usdc_vault_pda nonce) \<rparr>"

lemma outsider_initializes:
  fixes w :: "'z presale_chain_scheme"
  assumes "c_mints w om = Some oi" and "c_mints w um = Some ui"
    and "mi_program ui \<in> set token_interface_ids" and "mi_decimals ui = mi_decimals oi"
    and "c_tokens w bucket = Some v" and "ta_mint v = om"
    and "ta_owner v = presale_vault_authority_pda" and "0 < amount"
    and "c_tokens w own = Some a" and "ta_mint a = um"
    and "ps_sales w nonce = None" and "c_tokens w (sale_usdc_vault_pda nonce) = None"
  shows "handle_initialize_sale env k nonce om um (mi_program ui) bucket own k
       (outsider_params amount now) w =
     Inr (put_sale nonce (outsider_sale env k nonce om um bucket own amount (mi_decimals oi) now)
       (w\<lparr>c_tokens := (c_tokens w)(sale_usdc_vault_pda nonce \<mapsto>
          \<lparr> ta_mint = um, ta_owner = sale_config_pda nonce, ta_amount = 0, ta_delegate = None,
            ta_frozen = False \<rparr>)\<rparr>))"
  using assms
  by (simp add: handle_initialize_sale_def load_mint_def load_token_def init_token_def
      outsider_params_def outsider_sale_def MAX_STABLECOINS_def PRESALE_BPS_DENOMINATOR_def
      word_le_nat_alt word_less_nat_alt)

context token_env
begin

lemma outsider_contributes:
  fixes w :: "'z presale_chain_scheme"
  assumes sale: "ps_sales w nonce = Some (outsider_sale E k nonce om um bucket own amount dec now)"
    and mint: "c_mints w um = Some ui" "mi_program ui \<in> set token_interface_ids" "mi_decimals ui = dec"
    and own: "c_tokens w own = Some a" "ta_mint a = um" "ta_owner a = k" "\<not> ta_frozen a"
      "amount \<le> ta_amount a"
    and vault: "c_tokens w (sale_usdc_vault_pda nonce) = Some u" "ta_mint u = um" "\<not> ta_frozen u"
      "ta_amount u = 0"
    and k: "\<not> banned w k" "ps_contributions w (nonce, k) = None" and amount: "0 < amount"
    and now: "unix_timestamp sv = now"
  shows "\<exists>w1 sale. handle_contribute_usdc E sv k nonce own (mi_program ui) amount w = Inr w1
     \<and> (\<exists>L. moved (c_tokens w) own (sale_usdc_vault_pda nonce) amount L
          \<and> w1 = put_sale nonce sale (put_contribution nonce k
              \<lparr> cb_buyer = k, cb_amount_usdc = amount, cb_open_entitlement = amount,
                cb_claimed_open = 0, cb_bump = bump_of E (contribution_pda nonce k) \<rparr> (w\<lparr>c_tokens := L\<rparr>)))
     \<and> sl_bump sale = bump_of E (sale_config_pda nonce) \<and> sl_open_mint sale = om
     \<and> sl_presale_vault sale = bucket \<and> sl_open_decimals sale = dec"
proof -
  let ?s = "outsider_sale E k nonce om um bucket own amount dec now"
  have "\<exists>w1. cpi_transfer E (mi_program ui) own um (sale_usdc_vault_pda nonce) k amount dec w
      = (Inr w1 :: PresaleErrorCode tx_error + 'z presale_chain_scheme)"
    using cpi_transfer_live [OF mint(1) refl own(1) vault(1) own(2) vault(2) own(3,4) vault(3), of amount]
      mint(3) own(5) vault(4) unat_lt_2p [of amount] by (simp add: word_le_nat_alt)
  then obtain w1 where cpi: "cpi_transfer E (mi_program ui) own um (sale_usdc_vault_pda nonce) k
      amount dec w = (Inr w1 :: PresaleErrorCode tx_error + 'z presale_chain_scheme)" by blast
  then obtain L where L: "w1 = w\<lparr>c_tokens := L\<rparr>" "moved (c_tokens w) own (sale_usdc_vault_pda nonce) amount L"
    by (rule cpi_transfer_moved)
  have one: "1 \<le> amount" using amount by (simp add: word_le_nat_alt word_less_nat_alt)
  have "open_entitlement_for ?s amount f = f amount"
    for f :: "u64 \<Rightarrow> PresaleErrorCode tx_error + 'z presale_chain_scheme"
    by (rule entitlement_identity) (simp_all add: outsider_sale_def)
  then have "handle_contribute_usdc E sv k nonce own (mi_program ui) amount w =
      Inr (put_sale nonce (?s\<lparr>sl_total_raised := amount\<rparr>) (put_contribution nonce k
        \<lparr> cb_buyer = k, cb_amount_usdc = amount, cb_open_entitlement = amount,
          cb_claimed_open = 0, cb_bump = bump_of E (contribution_pda nonce k) \<rparr> w1))"
    using sale mint own vault k now one cpi unat_lt_2p [of amount]
    by (simp add: handle_contribute_usdc_def presale_load_defs outsider_sale_def Let_def checked_add_def)
  with L show ?thesis
    by (intro exI [of _ "put_sale nonce (?s\<lparr>sl_total_raised := amount\<rparr>) (put_contribution nonce k
        \<lparr> cb_buyer = k, cb_amount_usdc = amount, cb_open_entitlement = amount,
          cb_claimed_open = 0, cb_bump = bump_of E (contribution_pda nonce k) \<rparr> w1)"]
        exI [of _ "?s\<lparr>sl_total_raised := amount\<rparr>"]) (auto simp: outsider_sale_def)
qed

lemma outsider_claims:
  fixes w :: "'z presale_chain_scheme"
  assumes sale: "ps_sales w nonce = Some sale" "sl_bump sale = bump_of E (sale_config_pda nonce)"
      "sl_open_mint sale = om" "sl_presale_vault sale = bucket" "sl_open_decimals sale = mi_decimals oi"
    and mint: "c_mints w om = Some oi" "mi_program oi \<in> set token_interface_ids"
    and v: "c_tokens w bucket = Some v" "ta_mint v = om" "ta_owner v = presale_vault_authority_pda"
      "\<not> ta_frozen v" "amount \<le> ta_amount v"
    and b: "c_tokens w out = Some b" "ta_mint b = om" "ta_owner b = k" "\<not> ta_frozen b"
      "unat (ta_amount b) + unat amount < 2 ^ 64"
    and c: "ps_contributions w (nonce, k) = Some \<lparr> cb_buyer = k, cb_amount_usdc = amount,
      cb_open_entitlement = amount, cb_claimed_open = 0, cb_bump = bump_of E (contribution_pda nonce k) \<rparr>"
    and amount: "0 < amount"
  shows "\<exists>w'. handle_claim E k nonce out (mi_program oi) w = Inr w'
     \<and> moved (c_tokens w) bucket out amount (c_tokens w')"
proof -
  have "\<exists>w1. cpi_transfer E (mi_program oi) bucket om out presale_vault_authority_pda amount
      (mi_decimals oi) w = (Inr w1 :: PresaleErrorCode tx_error + 'z presale_chain_scheme)"
    using cpi_transfer_live [OF mint(1) refl v(1) b(1) v(2) b(2) v(3,4) b(4), of amount] v(5) b(5)
    by (simp add: word_le_nat_alt)
  then obtain w1 where cpi: "cpi_transfer E (mi_program oi) bucket om out presale_vault_authority_pda
      amount (mi_decimals oi) w = (Inr w1 :: PresaleErrorCode tx_error + 'z presale_chain_scheme)"
    by blast
  then obtain L where L: "w1 = w\<lparr>c_tokens := L\<rparr>" "moved (c_tokens w) bucket out amount L"
    by (rule cpi_transfer_moved)
  show ?thesis
    using sale mint v b c amount cpi L
    by (auto simp: handle_claim_def presale_load_defs(1,4,5) checked_sub_def put_contribution_def)
qed

end

text \<open>
  C40. Whoever holds tokens of any mint of their own can empty the presale vault. An outsider
  whose wallet is not banned, with \<open>amount\<close> units of a mint that has OPEN's decimals, opens a
  sale under an unused nonce in which that mint plays the part of USDC and the treasury is their
  own account, contributes the tokens to it and claims: the three instructions succeed, no
  signature but theirs is needed, and the whole balance of the presale vault is theirs.
\<close>

theorem anyone_drains_presale_vault:
  fixes w :: "'z presale_chain_scheme"
  assumes env: "token_env env"
    and mints: "c_mints w om = Some oi" "c_mints w um = Some ui" "um \<noteq> om"
      "mi_program oi \<in> set token_interface_ids" "mi_program ui \<in> set token_interface_ids"
      "mi_decimals ui = mi_decimals oi"
    and v: "c_tokens w bucket = Some v" "ta_mint v = om" "ta_owner v = presale_vault_authority_pda"
      "\<not> ta_frozen v" "0 < ta_amount v"
    and a: "c_tokens w own = Some a" "ta_mint a = um" "ta_owner a = k" "\<not> ta_frozen a"
      "ta_amount v \<le> ta_amount a"
    and b: "c_tokens w out = Some b" "ta_mint b = om" "ta_owner b = k" "\<not> ta_frozen b"
      "unat (ta_amount b) + unat (ta_amount v) < 2 ^ 64"
    and k: "\<not> banned w k" "\<not> signs_for PresaleProgram k"
    and fresh: "ps_sales w nonce = None" "ps_contributions w (nonce, k) = None"
      "c_tokens w (sale_usdc_vault_pda nonce) = None"
  shows "\<exists>w'. presale_run env swap (outsider_ixs sv k nonce om um (mi_program ui) (mi_program oi)
           bucket own out (ta_amount v)) w = Inr w'
     \<and> balance (c_tokens w') bucket = 0
     \<and> balance (c_tokens w') out = balance (c_tokens w) out + unat (ta_amount v)"
proof -
  let ?v = "ta_amount v" and ?now = "unix_timestamp sv"
  let ?u = "\<lparr> ta_mint = um, ta_owner = sale_config_pda nonce, ta_amount = 0, ta_delegate = None,
    ta_frozen = False \<rparr>"
  define w1 where "w1 = put_sale nonce
    (outsider_sale env k nonce om um bucket own ?v (mi_decimals oi) ?now)
    (w\<lparr>c_tokens := (c_tokens w)(sale_usdc_vault_pda nonce \<mapsto> ?u)\<rparr>)"
  have init: "handle_initialize_sale env k nonce om um (mi_program ui) bucket own k
      (outsider_params ?v ?now) w = Inr w1"
    unfolding w1_def
    by (rule outsider_initializes [OF mints(1,2,5,6) v(1-3) v(5) a(1,2) fresh(1,3)])
  have ne: "bucket \<noteq> sale_usdc_vault_pda nonce" "own \<noteq> sale_usdc_vault_pda nonce"
      "out \<noteq> sale_usdc_vault_pda nonce" "bucket \<noteq> own" "out \<noteq> own" "bucket \<noteq> out"
    using fresh(3) v(1-3) a(1,2) b(1-3) mints(3) k(2) by auto
  have c1: "c_tokens w1 own = Some a" "c_tokens w1 (sale_usdc_vault_pda nonce) = Some ?u"
      "c_mints w1 = c_mints w" "c_bans w1 = c_bans w" "c_tokens w1 bucket = Some v"
      "c_tokens w1 out = Some b" "ps_contributions w1 = ps_contributions w"
      "ps_sales w1 nonce = Some (outsider_sale env k nonce om um bucket own ?v (mi_decimals oi) ?now)"
    using ne v a b by (simp_all add: w1_def put_sale_def)
  obtain w2 sale L where
    c2: "handle_contribute_usdc env sv k nonce own (mi_program ui) ?v w1 = Inr w2"
      "moved (c_tokens w1) own (sale_usdc_vault_pda nonce) ?v L"
      "w2 = put_sale nonce sale (put_contribution nonce k
         \<lparr> cb_buyer = k, cb_amount_usdc = ?v, cb_open_entitlement = ?v, cb_claimed_open = 0,
           cb_bump = bump_of env (contribution_pda nonce k) \<rparr> (w1\<lparr>c_tokens := L\<rparr>))"
      "sl_bump sale = bump_of env (sale_config_pda nonce)" "sl_open_mint sale = om"
      "sl_presale_vault sale = bucket" "sl_open_decimals sale = mi_decimals oi"
    using token_env.outsider_contributes [OF env c1(8), of ui a ?u sv] mints(2,5,6) a c1 k(1) fresh(2) v(5)
    by auto
  have same: "balance L bucket = unat ?v" "balance L out = unat (ta_amount b)"
    using moved_untouched [OF c2(2)] ne c1(5,6) by simp_all
  obtain v2 where v2: "L bucket = Some v2" "same_account v v2"
    using same_accounts_Some [OF moved_same [OF c2(2)] c1(5)] .
  obtain b2 where b2: "L out = Some b2" "same_account b b2"
    using same_accounts_Some [OF moved_same [OF c2(2)] c1(6)] .
  have amounts: "ta_amount v2 = ?v" "ta_amount b2 = ta_amount b"
    using same v2(1) b2(1) by (simp_all add: word_unat_eq_iff)
  obtain w' where
    c3: "handle_claim env k nonce out (mi_program oi) w2 = Inr w'" "moved L bucket out ?v (c_tokens w')"
    using token_env.outsider_claims [OF env, of w2 nonce sale om bucket oi v2 ?v out b2 k] c2(3-7)
      mints(1,4) c1(3) v(2-5) v2 b b2 amounts
    by (auto simp: presale_world_simps same_account_def)
  have "presale_run env swap (outsider_ixs sv k nonce om um (mi_program ui) (mi_program oi) bucket own
      out ?v) w = Inr w'"
    using init c2(1) c3(1) by (simp add: outsider_ixs_def)
  moreover have "balance (c_tokens w') bucket = 0" "balance (c_tokens w') out = unat (ta_amount b) + unat ?v"
    using moved_balance [OF c3(2), of bucket] moved_balance [OF c3(2), of out] ne(6) same by simp_all
  ultimately show ?thesis using b(1) by auto
qed

theorem anyone_drains_presale_vault_witness:
  "\<exists>w'. presale_run ref_env ref_swap (outsider_ixs (demo_sv 40) (Key 66) 7 (Key 2) (Key 7)
        (Prog SplTokenProgram) (Prog Token2022Program) (Key 71) (Key 67) (Key 68) 700) sale_claimed
      = Inr w'
     \<and> balance (c_tokens w') (Key 71) = 0 \<and> balance (c_tokens w') (Key 68) = 700"
proof -
  note defs = sale_claimed_def sale_chain_def sale_tokens_def demo_account_def
  let ?oi = "\<lparr> mi_decimals = 6, mi_program = Prog Token2022Program \<rparr> :: mint_account"
  let ?ui = "\<lparr> mi_decimals = 6, mi_program = Prog SplTokenProgram \<rparr> :: mint_account"
  have "\<exists>w'. presale_run ref_env ref_swap (outsider_ixs (demo_sv 40) (Key 66) 7 (Key 2) (Key 7)
        (mi_program ?ui) (mi_program ?oi) (Key 71) (Key 67) (Key 68)
        (ta_amount (demo_account (Key 2) presale_vault_authority_pda 700))) sale_claimed = Inr w'
     \<and> balance (c_tokens w') (Key 71) = 0
     \<and> balance (c_tokens w') (Key 68) = balance (c_tokens sale_claimed) (Key 68)
         + unat (ta_amount (demo_account (Key 2) presale_vault_authority_pda 700))"
    by (rule anyone_drains_presale_vault [OF ref.token_env_axioms, where
          a = "demo_account (Key 7) (Key 66) 1000" and b = "demo_account (Key 2) (Key 66) 0"])
       (simp_all add: defs token_interface_ids_def wallet_is_banned_def word_le_nat_alt)
  moreover have "balance (c_tokens sale_claimed) (Key 68) = 0" by (simp add: defs)
  ultimately show ?thesis by (simp add: demo_account_def)
qed

end
