(* ===== verification/Protocol_Effects.thy ===== *)
theory Protocol_Effects
  imports Presale_Invariants Escrow_System Staking_Invariants Governance_System
begin

text \<open>
  What an instruction of one program does to the accounts of the others: nothing. It writes only
  its own accounts, and the only token accounts it draws on are those its own addresses or its
  signer control, so to every other program it is a step of the rest of the chain.
\<close>


section \<open>Accounts of each program\<close>

definition staking_same :: "'z staking_chain_scheme \<Rightarrow> 'z staking_chain_scheme \<Rightarrow> bool" where
  "staking_same w w' \<longleftrightarrow> sk_config w' = sk_config w \<and> sk_stakes w' = sk_stakes w
     \<and> sk_receipts w' = sk_receipts w \<and> sk_log w' = sk_log w"

definition escrow_same :: "'z escrow_chain_scheme \<Rightarrow> 'z escrow_chain_scheme \<Rightarrow> bool" where
  "escrow_same w w' \<longleftrightarrow> es_vaults w' = es_vaults w \<and> es_trades w' = es_trades w
     \<and> es_fee_config w' = es_fee_config w \<and> es_cases w' = es_cases w \<and> es_claims w' = es_claims w
     \<and> es_policy w' = es_policy w \<and> es_log w' = es_log w"

definition governance_same :: "'z governance_chain_scheme \<Rightarrow> 'z governance_chain_scheme \<Rightarrow> bool" where
  "governance_same w w' \<longleftrightarrow> gv_config w' = gv_config w \<and> gv_emergency w' = gv_emergency w
     \<and> gv_proposals w' = gv_proposals w \<and> gv_actions w' = gv_actions w \<and> gv_votes w' = gv_votes w
     \<and> gv_bans w' = gv_bans w \<and> gv_log w' = gv_log w \<and> c_bans w' = c_bans w"

definition presale_same :: "'z presale_chain_scheme \<Rightarrow> 'z presale_chain_scheme \<Rightarrow> bool" where
  "presale_same w w' \<longleftrightarrow> ps_sales w' = ps_sales w \<and> ps_contributions w' = ps_contributions w
     \<and> ps_log w' = ps_log w"

lemmas same_defs = staking_same_def escrow_same_def governance_same_def presale_same_def


section \<open>Token accounts\<close>

text \<open>The ledger after some token movements of program \<open>q\<close> with at most one wallet's signature.\<close>

definition foreign :: "program_id \<Rightarrow> pubkey option \<Rightarrow> ledger \<Rightarrow> ledger \<Rightarrow> bool" where
  "foreign q s L L' \<longleftrightarrow>
     (\<forall>p\<in>protocol_programs. p \<noteq> q \<and> (\<forall>k. s = Some k \<longrightarrow> \<not> signs_for p k) \<longrightarrow> outside p L L')"

lemma foreign_refl [simp]: "foreign q s L L"
  by (simp add: foreign_def)

lemma foreign_trans: "foreign q s L M \<Longrightarrow> foreign q s M N \<Longrightarrow> foreign q s L N"
  unfolding foreign_def by (blast intro: outside_trans)

lemma outside_new:
  assumes "L addr = None" and "\<not> signs_for p addr"
  shows "outside p L (L(addr \<mapsto> t))"
  using assms by (auto simp: outside_def)

lemma foreign_new:
  assumes "L addr = None" and "\<And>p. p \<in> protocol_programs \<Longrightarrow> signs_for p addr \<Longrightarrow> p = q"
  shows "foreign q s L (L(addr \<mapsto> t))"
  using assms by (auto simp: foreign_def intro: outside_new)

lemma signs_for_unique: "signs_for p k \<Longrightarrow> signs_for q k \<Longrightarrow> p = q"
  by (cases k) auto

lemma init_token_foreign:
  assumes "init_token addr mint owner w = Inr w'" and "signs_for q addr"
  shows "foreign q s (c_tokens w) (c_tokens w')"
  using assms by (auto simp: init_token_def intro!: foreign_new dest: signs_for_unique)

lemma associated_token_foreign:
  assumes "associated_token_or_new owner tp mint w = Inr w'"
  shows "foreign q s (c_tokens w) (c_tokens w')"
  using assms
  by (auto simp: associated_token_or_new_def init_token_def associated_token_address_def
      protocol_programs_def intro!: foreign_new split: option.splits)

context token_env
begin

lemma transfer_foreign:
  assumes "cpi_transfer E tp from mint to auth a d w = Inr w'"
    and "signs_for q auth \<or> s = Some auth"
  shows "foreign q s (c_tokens w) (c_tokens w')"
  unfolding foreign_def using transfer_outside [OF assms(1)] assms(2) signs_for_unique by blast

lemma transfer_each_foreign:
  assumes "transfer_each E tp from mint auth d ps w = (Inr w' :: 'e tx_error + 'z chain_scheme)"
    and "signs_for q auth"
  shows "foreign q s (c_tokens w) (c_tokens w')"
  unfolding foreign_def using transfer_each_outside [OF assms(1)] assms(2) signs_for_unique by blast

end


section \<open>The staking program\<close>

definition staking_effect ::
  "pubkey option \<Rightarrow> 'z presale_chain_scheme \<Rightarrow> 'z presale_chain_scheme \<Rightarrow> bool" where
  "staking_effect s w w' \<longleftrightarrow> escrow_same w w' \<and> governance_same w w' \<and> presale_same w w'
     \<and> foreign StakingProgram s (c_tokens w) (c_tokens w')"

lemma staking_effect_refl [simp]: "staking_effect s w w"
  by (simp add: staking_effect_def same_defs)

lemma staking_effect_writes [simp]:
  "staking_effect s w (put_stake addr a w') = staking_effect s w w'"
  "staking_effect s w (emit_staking e w') = staking_effect s w w'"
  "staking_effect s w (w'\<lparr>sk_receipts := R\<rparr>) = staking_effect s w w'"
  "staking_effect s w (w'\<lparr>sk_config := C\<rparr>) = staking_effect s w w'"
  "staking_effect s w (w'\<lparr>sk_stakes := X\<rparr>) = staking_effect s w w'"
  by (simp_all add: staking_effect_def same_defs staking_world_simps)

lemma staking_effect_init:
  assumes "staking_effect s w w1" and "init_token addr mint owner w1 = Inr w2"
    and "signs_for StakingProgram addr"
  shows "staking_effect s w w2"
proof -
  have "foreign StakingProgram s (c_tokens w1) (c_tokens w2)"
    by (rule init_token_foreign [OF assms(2,3)])
  moreover have "\<exists>L. w2 = w1\<lparr>c_tokens := L\<rparr>" using assms(2) by (auto simp: init_token_def)
  ultimately show ?thesis
    using assms(1) by (auto simp: staking_effect_def same_defs intro: foreign_trans)
qed

context token_env
begin

lemma staking_effect_transfer:
  assumes "staking_effect s w w1" and "cpi_transfer E tp from mint to auth a d w1 = Inr w2"
    and "signs_for StakingProgram auth \<or> s = Some auth"
  shows "staking_effect s w w2"
proof -
  have "foreign StakingProgram s (c_tokens w1) (c_tokens w2)"
    by (rule transfer_foreign [OF assms(2,3)])
  with cpi_transfer_frame [OF assms(2)] assms(1) show ?thesis
    by (auto simp: staking_effect_def same_defs intro: foreign_trans)
qed

lemma staking_effect_vault:
  "cpi_transfer E tp from mint to staking_config_pda a d w = Inr w2 \<Longrightarrow> staking_effect s w w2"
  by (erule staking_effect_transfer [OF staking_effect_refl]) simp

lemma staking_effect_wallet:
  "cpi_transfer E tp from mint to k a d w = Inr w2 \<Longrightarrow> staking_effect (Some k) w w2"
  by (erule staking_effect_transfer [OF staking_effect_refl]) simp

lemma staking_dispatch_effect:
  fixes w :: "'z presale_chain_scheme"
  assumes "staking_dispatch E sv ix w = Inr w'"
  shows "staking_effect (staking_signer ix) w w'"
proof (cases ix)
  case (IxSlash authority addr dest mint tp code)
  with assms have "handle_slash E sv authority addr dest mint tp code w = Inr w'" by simp
  then show ?thesis using IxSlash
    by (auto simp: handle_slash_def load_defs Let_def split: if_splits
        dest: staking_effect_vault)
next
  case (IxRecoverStakeShortfall addr mint tp claim)
  with assms have "handle_recover_stake_shortfall E sv addr mint tp claim w = Inr w'" by simp
  then show ?thesis using IxRecoverStakeShortfall
    by (auto simp: handle_recover_stake_shortfall_def load_defs Let_def
        dest: staking_effect_vault)
next
  case (IxInitializeStakingConfig admin mint tp params)
  with assms have "handle_initialize_staking_config E admin mint tp params w = Inr w'" by simp
  then obtain wa wb C where
    i: "init_token stake_vault_pda mint staking_config_pda w
       = (Inr wa :: StakingErrorCode tx_error + 'z presale_chain_scheme)"
    "init_token rewards_vault_pda mint staking_config_pda wa
       = (Inr wb :: StakingErrorCode tx_error + 'z presale_chain_scheme)" "w' = wb\<lparr>sk_config := C\<rparr>"
    by (auto simp: handle_initialize_staking_config_def load_defs Let_def)
  have "staking_effect (staking_signer ix) w wa"
    by (rule staking_effect_init [OF staking_effect_refl i(1)]) (simp add: stake_vault_pda_def)
  then have "staking_effect (staking_signer ix) w wb"
    by (rule staking_effect_init [OF _ i(2)]) (simp add: rewards_vault_pda_def)
  with i(3) show ?thesis by simp
qed (use assms in \<open>auto simp: staking_handler_defs load_defs Let_def split: if_splits
       dest: staking_effect_vault staking_effect_wallet\<close>)

end



section \<open>The escrow program\<close>

definition escrow_effect ::
  "pubkey option \<Rightarrow> 'z presale_chain_scheme \<Rightarrow> 'z presale_chain_scheme \<Rightarrow> bool" where
  "escrow_effect s w w' \<longleftrightarrow> staking_same w w' \<and> governance_same w w' \<and> presale_same w w'
     \<and> foreign EscrowProgram s (c_tokens w) (c_tokens w')"

lemma escrow_effect_refl [simp]: "escrow_effect s w w"
  by (simp add: escrow_effect_def same_defs)

lemma escrow_effect_writes [simp]:
  "escrow_effect s w (put_vault a v w') = escrow_effect s w w'"
  "escrow_effect s w (put_trade i e w') = escrow_effect s w w'"
  "escrow_effect s w (put_case i d w') = escrow_effect s w w'"
  "escrow_effect s w (put_claim a c w') = escrow_effect s w w'"
  "escrow_effect s w (emit_escrow ev w') = escrow_effect s w w'"
  "escrow_effect s w (w'\<lparr>es_fee_config := F\<rparr>) = escrow_effect s w w'"
  "escrow_effect s w (w'\<lparr>es_policy := P\<rparr>) = escrow_effect s w w'"
  by (simp_all add: escrow_effect_def same_defs escrow_world_simps)

lemma escrow_effect_trans: "escrow_effect s w w1 \<Longrightarrow> escrow_effect s w1 w2 \<Longrightarrow> escrow_effect s w w2"
  by (auto simp: escrow_effect_def same_defs intro: foreign_trans)

lemma escrow_effect_init:
  assumes "init_token addr mint owner w = Inr w'" and "signs_for EscrowProgram addr"
  shows "escrow_effect s w w'"
  using init_token_foreign [OF assms] assms(1)
  by (auto simp: escrow_effect_def same_defs init_token_def)

context token_env
begin

lemma escrow_effect_transfer:
  assumes "cpi_transfer E tp from mint to auth a d w = Inr w'" and "signs_for EscrowProgram auth"
  shows "escrow_effect s w w'"
  using transfer_foreign [OF assms(1) disjI1 [OF assms(2)]] cpi_transfer_frame [OF assms(1)]
  by (auto simp: escrow_effect_def same_defs)

lemma escrow_effect_wallet:
  assumes "cpi_transfer E tp from mint to k a d w = Inr w'"
  shows "escrow_effect (Some k) w w'"
  using transfer_foreign [OF assms, of EscrowProgram "Some k"] cpi_transfer_frame [OF assms]
  by (auto simp: escrow_effect_def same_defs)

lemma escrow_effect_each:
  fixes w :: "'z presale_chain_scheme"
  assumes "transfer_each E tp from mint auth d ps w
      = (Inr w' :: EscrowErrorCode tx_error + 'z presale_chain_scheme)" and "signs_for EscrowProgram auth"
  shows "escrow_effect s w w'"
  using transfer_each_foreign [OF assms] transfer_each_frame [OF assms(1)]
  by (auto simp: escrow_effect_def same_defs)

lemma unwind_escrow_effect:
  fixes w :: "'z presale_chain_scheme"
  assumes "unwind_funded_trade_escrow E tp mint d e v lt w = Inr (v', w')"
  shows "escrow_effect s w w'"
  using assms
  by (auto simp: unwind_funded_trade_escrow_def Let_def dest: escrow_effect_transfer)

lemma split_escrow_effect:
  fixes w :: "'z presale_chain_scheme"
  assumes "split_trade_escrow_evenly E tp mint d e b v lt w = Inr (e', v', w')"
  shows "escrow_effect s w w'"
  using assms
  by (auto simp: split_trade_escrow_evenly_def Let_def simp del: transfer_each.simps
      dest: escrow_effect_each)

lemma release_escrow_effect:
  fixes w :: "'z presale_chain_scheme"
  assumes "release_trade_escrow_funds E tp mint d e b v fc w = Inr (e', v', x, y, w')"
  shows "escrow_effect s w w'"
  using assms
  by (auto simp: release_trade_escrow_funds_def release_destinations_def Let_def
      simp del: transfer_each.simps dest: escrow_effect_each)

lemma take_deposit_escrow_effect:
  fixes w :: "'z presale_chain_scheme"
  assumes "take_deposit E tp seller mint d deposit v w = Inr (v', w')"
  shows "escrow_effect s w w'"
  using assms by (auto simp: take_deposit_def dest: escrow_effect_transfer split: if_splits)

lemma record_shortfall_escrow_effect:
  fixes w :: "'z presale_chain_scheme"
  assumes "record_shortfall E rid seller mint shortfall now w = Inr w'"
  shows "escrow_effect s w w'"
  using assms by (auto simp: record_shortfall_def Let_def split: if_splits)

lemma close_reservation_escrow_effect:
  fixes w :: "'z presale_chain_scheme"
  assumes "close_reservation E tp mint d rid e v w = Inr w'"
  shows "escrow_effect s w w'"
  using assms
  by (auto simp: close_reservation_def dest: unwind_escrow_effect split: if_splits)

text \<open>Executing a case, stage by stage.\<close>

lemma settle_deposit_escrow_effect:
  fixes ctx :: "'z presale_chain_scheme execute_ctx"
  assumes "settle_deposit E outcome ctx = Inr (a, b, ctx')"
  shows "escrow_effect s (cx_world ctx) (cx_world ctx')"
  using assms
  by (auto simp: settle_deposit_def Let_def dest: escrow_effect_transfer split: if_splits)

lemma ctx_escrow_effects:
  fixes ctx :: "'z presale_chain_scheme execute_ctx"
  shows "ctx_split E ctx = Inr ctx' \<Longrightarrow> escrow_effect s (cx_world ctx) (cx_world ctx')"
    and "ctx_unwind E ctx = Inr ctx' \<Longrightarrow> escrow_effect s (cx_world ctx) (cx_world ctx')"
    and "ctx_release E now ctx = Inr ctx' \<Longrightarrow> escrow_effect s (cx_world ctx) (cx_world ctx')"
  by (auto simp: ctx_split_def ctx_unwind_def ctx_release_def
      dest: split_escrow_effect unwind_escrow_effect release_escrow_effect)

lemma terminal_split_escrow_effect:
  fixes ctx :: "'z presale_chain_scheme execute_ctx"
  assumes "terminal_split E now floor reason m n ctx = Inr ctx'"
  shows "escrow_effect s (cx_world ctx) (cx_world ctx')"
  using assms
  by (auto simp: terminal_split_def Let_def ctx_emit_def
      dest!: settle_deposit_escrow_effect ctx_escrow_effects(1) intro: escrow_effect_trans)

lemma undecided_escrow_effect:
  fixes ctx :: "'z presale_chain_scheme execute_ctx"
  assumes "handle_undecided_round E sv now n ctx = Inr ctx'"
  shows "escrow_effect s (cx_world ctx) (cx_world ctx')"
  using assms
  by (auto simp: handle_undecided_round_def reopen_round_def Let_def
      dest!: terminal_split_escrow_effect [where s = s] split: if_splits)

lemma execute_body_escrow_effect:
  fixes ctx :: "'z presale_chain_scheme execute_ctx"
  assumes "execute_body E sv ctx = Inr ctx'"
  shows "escrow_effect s (cx_world ctx) (cx_world ctx')"
proof (cases "fst (tally (cx_dispute_case ctx))")
  case None
  then show ?thesis using assms
    by (auto simp: execute_body_def Let_def split: prod.splits dest: undecided_escrow_effect)
next
  case (Some outcome)
  with assms obtain a b ctx1 ctx2 where "settle_deposit E (Some outcome) ctx = Inr (a, b, ctx1)"
      "apply_outcome E (unix_timestamp sv) outcome ctx1 = Inr ctx2"
      and w: "escrow_effect s (cx_world ctx2) (cx_world ctx')"
    by (auto simp: execute_body_def Let_def ctx_emit_def split: prod.splits)
  then have "escrow_effect s (cx_world ctx) (cx_world ctx1)" "escrow_effect s (cx_world ctx1) (cx_world ctx2)"
    by (auto simp: apply_outcome_def split: DisputeOutcome.splits
        dest: settle_deposit_escrow_effect ctx_escrow_effects)
  with w show ?thesis by (blast intro: escrow_effect_trans)
qed

lemma execute_escrow_effect:
  fixes w :: "'z presale_chain_scheme"
  assumes "handle_execute_dispute_outcome E sv a w = Inr w'"
  shows "escrow_effect s w w'"
proof -
  from assms obtain ctx ctx1 :: "'z presale_chain_scheme execute_ctx" where
    c: "load_execute_ctx E a w = Inr ctx" "execute_body E sv ctx = Inr ctx1"
      "w' = store_execute_ctx a ctx1"
    by (auto simp: handle_execute_dispute_outcome_def)
  have "cx_world ctx = w" using c(1) by (auto simp: load_execute_ctx_def trade_load_defs Let_def)
  with execute_body_escrow_effect [OF c(2)] c(3) show ?thesis by (simp add: store_execute_ctx_def)
qed

lemma open_dispute_escrow_effect:
  fixes w :: "'z presale_chain_scheme"
  assumes "handle_open_dispute_case E sv signer rid mint tp cw rw w = Inr w'"
  shows "escrow_effect s w w'"
proof -
  from assms obtain seller d deposit v v' shortfall now ev w1 w2 where
    t: "take_deposit E tp seller mint d deposit v w = Inr (v', w1)"
    and r: "record_shortfall E rid seller mint shortfall now
        (emit_escrow ev (put_vault (seller, mint) v' w1)) = Inr w2"
    and w': "escrow_effect s w2 w'"
    by (auto simp: handle_open_dispute_case_def trade_load_defs Let_def)
  from take_deposit_escrow_effect [OF t]
  have "escrow_effect s w (emit_escrow ev (put_vault (seller, mint) v' w1))" by simp
  with record_shortfall_escrow_effect [OF r] w' show ?thesis by (meson escrow_effect_trans)
qed

lemma escrow_dispatch_effect:
  fixes w :: "'z presale_chain_scheme"
  assumes "escrow_dispatch E sv ix w = Inr w'"
  shows "escrow_effect (escrow_signer ix) w w'"
proof (cases ix)
  case (IxOpenDisputeCase signer rid mint tp cw rw)
  with assms show ?thesis by (auto dest: open_dispute_escrow_effect)
next
  case (IxExecuteDisputeOutcome a)
  with assms show ?thesis by (auto dest: execute_escrow_effect)
next
  case (IxReleaseEscrow mint tp rid account)
  with assms show ?thesis
    by (auto simp: handle_release_escrow_def trade_load_defs dest: release_escrow_effect)
next
  case (IxDepositLiquidity merchant from' mint tp amount)
  with assms show ?thesis
    by (auto simp: handle_deposit_liquidity_def trade_load_defs dest: escrow_effect_wallet)
next
  case (IxTopUpArbitrationDeposit rid mint tp)
  with assms show ?thesis
    by (auto simp: handle_top_up_arbitration_deposit_def trade_load_defs Let_def
        dest: take_deposit_escrow_effect)
next
  case (IxChargeAdListingFee merchant mint tp ad)
  with assms show ?thesis
    by (auto simp: handle_charge_ad_listing_fee_def trade_load_defs Let_def
        simp del: transfer_each.simps dest: escrow_effect_each)
qed (use assms in \<open>auto simp: handle_initialize_fee_config_def handle_update_fee_config_def
       handle_initialize_arbitration_pool_def handle_publish_arbitrator_pool_size_def
       vault_handler_defs trade_handler_defs dispute_handler_defs trade_load_defs load_mint_token_def
       Let_def load_config_def load_arbitrator_stake_def load_open_reservation_def
       dest: escrow_effect_transfer escrow_effect_init close_reservation_escrow_effect\<close>)

end



section \<open>The governance program\<close>

definition governance_effect ::
  "pubkey option \<Rightarrow> 'z presale_chain_scheme \<Rightarrow> 'z presale_chain_scheme \<Rightarrow> bool" where
  "governance_effect s w w' \<longleftrightarrow> staking_same w w' \<and> escrow_same w w' \<and> presale_same w w'
     \<and> foreign GovernanceProgram s (c_tokens w) (c_tokens w')"

lemma governance_effect_refl [simp]: "governance_effect s w w"
  by (simp add: governance_effect_def same_defs)

lemma governance_effect_writes [simp]:
  "governance_effect s w (put_proposal i p w') = governance_effect s w w'"
  "governance_effect s w (emit_governance ev w') = governance_effect s w w'"
  "governance_effect s w (put_ban env k r w') = governance_effect s w w'"
  "governance_effect s w (close_ban k w') = governance_effect s w w'"
  "governance_effect s w (w'\<lparr>gv_config := C\<rparr>) = governance_effect s w w'"
  "governance_effect s w (w'\<lparr>gv_emergency := X\<rparr>) = governance_effect s w w'"
  "governance_effect s w (w'\<lparr>gv_actions := A\<rparr>) = governance_effect s w w'"
  "governance_effect s w (w'\<lparr>gv_votes := V\<rparr>) = governance_effect s w w'"
  by (simp_all add: governance_effect_def same_defs governance_world_simps)

lemma governance_effect_init:
  assumes "init_token addr mint owner w = Inr w'" and "signs_for GovernanceProgram addr"
  shows "governance_effect s w w'"
  using init_token_foreign [OF assms] assms(1)
  by (auto simp: governance_effect_def same_defs init_token_def)

context token_env
begin

lemma governance_effect_transfer:
  assumes "cpi_transfer E tp from mint to auth a d w = Inr w'" and "signs_for GovernanceProgram auth"
  shows "governance_effect s w w'"
  using transfer_foreign [OF assms(1) disjI1 [OF assms(2)]] cpi_transfer_frame [OF assms(1)]
  by (auto simp: governance_effect_def same_defs)

lemma governance_effect_wallet:
  assumes "cpi_transfer E tp from mint to k a d w = Inr w'"
  shows "governance_effect (Some k) w w'"
  using transfer_foreign [OF assms, of GovernanceProgram "Some k"] cpi_transfer_frame [OF assms]
  by (auto simp: governance_effect_def same_defs)

lemma governance_dispatch_effect:
  fixes w :: "'z presale_chain_scheme"
  assumes "governance_dispatch E sv ix w = Inr w'"
  shows "governance_effect (governance_signer ix) w w'"
proof (cases ix)
  case (IxTallyAndFinalize i)
  with assms have "handle_tally_and_finalize E sv i w = Inr w'" by simp
  then show ?thesis by (rule tallyE) simp
next
  case (IxCastVote voter i in_favor role)
  with assms have "handle_cast_vote E sv voter i in_favor role w = Inr w'" by simp
  then show ?thesis
    by (auto simp: handle_cast_vote_def load_governance_config_def load_proposal_def load_config_def
        Let_def split: if_splits)
next
  case (IxListWallet i k)
  with assms have "handle_list_wallet E sv i k w = Inr w'" by simp
  then show ?thesis by (rule list_walletE) simp
next
  case (IxDelistWallet i k)
  with assms have "handle_delist_wallet E sv i k w = Inr w'" by simp
  then show ?thesis by (rule delist_walletE) simp
qed (use assms in \<open>auto simp: governance_handler_defs governance_guard_defs Let_def
       dest: governance_effect_transfer governance_effect_wallet governance_effect_init
       split: if_splits\<close>)

end


section \<open>The presale program\<close>

definition presale_effect ::
  "pubkey option \<Rightarrow> 'z presale_chain_scheme \<Rightarrow> 'z presale_chain_scheme \<Rightarrow> bool" where
  "presale_effect s w w' \<longleftrightarrow> staking_same w w' \<and> escrow_same w w' \<and> governance_same w w'
     \<and> foreign PresaleProgram s (c_tokens w) (c_tokens w')"

lemma presale_effect_refl [simp]: "presale_effect s w w"
  by (simp add: presale_effect_def same_defs)

lemma presale_effect_writes [simp]:
  "presale_effect s w (put_sale n c w') = presale_effect s w w'"
  "presale_effect s w (put_contribution n k x w') = presale_effect s w w'"
  "presale_effect s w (emit_presale ev w') = presale_effect s w w'"
  "presale_effect s w (credit env n k c d e paid w') = presale_effect s w w'"
  by (simp_all add: presale_effect_def same_defs presale_world_simps credit_def)

lemma presale_effect_trans:
  "presale_effect s w w1 \<Longrightarrow> presale_effect s w1 w2 \<Longrightarrow> presale_effect s w w2"
  by (auto simp: presale_effect_def same_defs intro: foreign_trans)

lemma presale_effect_tokens:
  "foreign PresaleProgram s (c_tokens w) L \<Longrightarrow> presale_effect s w (w\<lparr>c_tokens := L\<rparr>)"
  by (simp add: presale_effect_def same_defs)

lemma presale_effect_associated:
  assumes "associated_token_or_new k tp mint w = Inr w'"
  shows "presale_effect s w w'"
  using associated_token_foreign [OF assms] assms
  by (auto simp: presale_effect_def same_defs associated_token_or_new_def init_token_def
      split: option.splits)

context swap_env
begin

lemma swap_ledger_outside:
  "\<lbrakk> S program accounts data w = Some (w\<lparr>c_tokens := L\<rparr>); p \<in> protocol_programs \<rbrakk>
   \<Longrightarrow> outside p (c_tokens w) L"
  using swap_outside [of program accounts data w "w\<lparr>c_tokens := L\<rparr>"] by simp

lemma presale_effect_transfer:
  assumes "cpi_transfer E tp from mint to auth a d w = Inr w'"
    and "signs_for PresaleProgram auth \<or> s = Some auth"
  shows "presale_effect s w w'"
  using transfer_foreign [OF assms] cpi_transfer_frame [OF assms(1)]
  by (auto simp: presale_effect_def same_defs)

lemma presale_dispatch_effect:
  fixes w :: "'z presale_chain_scheme"
  assumes "presale_dispatch E S sv ix w = Inr w'"
  shows "presale_effect (Some (presale_signer ix)) w w'"
proof (cases ix)
  case (IxContributeUsdc b n bu tp a)
  with assms have "handle_contribute_usdc E sv b n bu tp a w = Inr w'" by simp
  then show ?thesis
    by (rule contribute_usdcE) (use IxContributeUsdc in \<open>auto dest: presale_effect_transfer\<close>)
next
  case (IxContributeWithSwap b n m p as x d)
  with assms have "handle_contribute_with_swap E S sv b n m p as x d w = Inr w'" by simp
  then show ?thesis
    by (rule contribute_with_swapE [OF swap_env_axioms])
       (auto intro!: presale_effect_tokens simp: foreign_def dest: swap_ledger_outside)
next
  case (IxDeliverContribution p n k su ut ot a)
  with assms have "handle_deliver_contribution E sv p n k su ut ot a w = Inr w'" by simp
  then show ?thesis
  proof (rule deliver_contributionE, goal_cases)
    case (1 sale e t t' w0 w1 w2)
    have "presale_effect (Some p) w w0" by (rule presale_effect_associated [OF 1(3)])
    moreover have "presale_effect (Some p) w0 w1" by (rule presale_effect_transfer [OF 1(4)]) simp
    moreover have "presale_effect (Some p) w1 w2" by (rule presale_effect_transfer [OF 1(5)]) simp
    ultimately have "presale_effect (Some p) w w2" by (meson presale_effect_trans)
    with 1(2) IxDeliverContribution show ?case by simp
  qed
next
  case (IxClaim b n bo tp)
  with assms have "handle_claim E b n bo tp w = Inr w'" by simp
  then show ?thesis
    by (rule claimE) (auto dest: presale_effect_transfer)
next
  case (IxFinalizeSale a n tp)
  with assms have "handle_finalize_sale E sv a n tp w = Inr w'" by simp
  then show ?thesis
    by (rule finalize_saleE) (auto dest: presale_effect_transfer)
next
  case (IxSweepProceeds a n tp x)
  with assms have "handle_sweep_proceeds E a n tp x w = Inr w'" by simp
  then show ?thesis
    by (rule sweep_proceedsE) (auto dest: presale_effect_transfer)
next
  case (IxInitializeSale a n om um tp pv tr sp params)
  with assms have "handle_initialize_sale E a n om um tp pv tr sp params w = Inr w'" by simp
  then show ?thesis
    by (rule initialize_saleE)
       (auto intro!: presale_effect_tokens foreign_new simp: sale_usdc_vault_pda_def)
next
  case (IxUpdateSaleParams a n params)
  with assms have "handle_update_sale_params E a n params w = Inr w'" by simp
  then show ?thesis by (rule update_sale_paramsE) simp
qed

end

end
