(* ===== verification/Protocol.thy ===== *)
theory Protocol
  imports Protocol_Effects
begin

text \<open>
  The four programs on one chain. A step of the protocol is an instruction of one of them, or a
  step of the rest of the chain; every such step is a step of each program on its own, so what
  holds of each program's runs holds of the whole. The staking program reads the escrow
  program's recovery claims as raw accounts; here it is given the accounts escrow really wrote.
\<close>


section \<open>The recovery claim as an account\<close>

text \<open>The account data Anchor writes for a \<open>StakeRecoveryClaim\<close>, and the account at the claim's
  address.\<close>

definition claim_bytes :: "env \<Rightarrow> StakeRecoveryClaim \<Rightarrow> u8 list" where
  "claim_bytes env c =
     account_discriminator env ''StakeRecoveryClaim'' @ key_bytes env (rc_merchant c)
     @ key_bytes env (rc_mint c) @ u64_to_le_bytes (rc_owed_total c)
     @ u64_to_le_bytes (rc_credited_total c) @ u32_to_le_bytes (rc_case_count c) @ [rc_bump c]"

definition claim_info :: "env \<Rightarrow> 'z escrow_chain_scheme \<Rightarrow> pubkey \<Rightarrow> pubkey \<Rightarrow> raw_account" where
  "claim_info env w merchant mint =
     (case es_claims w (merchant, mint) of
        None \<Rightarrow> no_account
      | Some c \<Rightarrow> \<lparr> ra_owner = ESCROW_PROGRAM_ID, ra_data = claim_bytes env c \<rparr>)"

definition claim_owed :: "'z escrow_chain_scheme \<Rightarrow> pubkey \<Rightarrow> pubkey \<Rightarrow> nat" where
  "claim_owed w merchant mint =
     (case es_claims w (merchant, mint) of None \<Rightarrow> 0 | Some c \<Rightarrow> unat (rc_owed_total c))"

text \<open>Keys are 32 bytes and a discriminator is 8 bytes.\<close>

definition account_layout :: "env \<Rightarrow> bool" where
  "account_layout env \<longleftrightarrow> (\<forall>name. length (account_discriminator env name) = 8)
     \<and> (\<forall>k. length (key_bytes env k) = 32)"

lemma ref_account_layout [simp]: "account_layout ref_env"
  by (auto simp: account_layout_def ref_env_def split: pubkey.splits)


section \<open>Steps\<close>

datatype protocol_ix =
    StakingIx staking_ix
  | EscrowIx escrow_ix
  | GovernanceIx governance_ix
  | PresaleIx presale_ix

fun protocol_dispatch ::
  "env \<Rightarrow> 'z swap_fn \<Rightarrow> sysvars \<Rightarrow> protocol_ix \<Rightarrow> 'z presale_chain_scheme
   \<Rightarrow> 'z presale_chain_scheme option" where
  "protocol_dispatch env swap sv (StakingIx ix) w =
     (case staking_dispatch env sv ix w of Inl _ \<Rightarrow> None | Inr w' \<Rightarrow> Some w')"
| "protocol_dispatch env swap sv (EscrowIx ix) w =
     (case escrow_dispatch env sv ix w of Inl _ \<Rightarrow> None | Inr w' \<Rightarrow> Some w')"
| "protocol_dispatch env swap sv (GovernanceIx ix) w =
     (case governance_dispatch env sv ix w of Inl _ \<Rightarrow> None | Inr w' \<Rightarrow> Some w')"
| "protocol_dispatch env swap sv (PresaleIx ix) w =
     (case presale_dispatch env swap sv ix w of Inl _ \<Rightarrow> None | Inr w' \<Rightarrow> Some w')"

fun protocol_signer :: "protocol_ix \<Rightarrow> pubkey option" where
  "protocol_signer (StakingIx ix) = staking_signer ix"
| "protocol_signer (EscrowIx ix) = escrow_signer ix"
| "protocol_signer (GovernanceIx ix) = governance_signer ix"
| "protocol_signer (PresaleIx ix) = Some (presale_signer ix)"

text \<open>The claim account a staking instruction is given is the one at the claim's address.\<close>

fun reads_claim :: "env \<Rightarrow> 'z escrow_chain_scheme \<Rightarrow> protocol_ix \<Rightarrow> bool" where
  "reads_claim env w (StakingIx (IxWithdrawUnstaked owner addr to mint tp claim)) \<longleftrightarrow>
     claim = claim_info env w owner mint"
| "reads_claim env w (StakingIx (IxRecoverStakeShortfall addr mint tp claim)) \<longleftrightarrow>
     claim = claim_info env w (fst addr) mint"
| "reads_claim env w _ \<longleftrightarrow> True"

fun protocol_ix_wf :: "protocol_ix \<Rightarrow> bool" where
  "protocol_ix_wf (StakingIx ix) \<longleftrightarrow> staking_ix_wf ix"
| "protocol_ix_wf _ \<longleftrightarrow> True"

definition wallet_signer :: "protocol_ix \<Rightarrow> bool" where
  "wallet_signer ix \<longleftrightarrow>
     (\<forall>k p. protocol_signer ix = Some k \<and> p \<in> protocol_programs \<longrightarrow> \<not> signs_for p k)"

inductive protocol_step ::
  "env \<Rightarrow> 'z swap_fn \<Rightarrow> i64 \<times> 'z presale_chain_scheme \<Rightarrow> i64 \<times> 'z presale_chain_scheme \<Rightarrow> bool"
  for env swap where
  protocol_step_ix:
    "\<lbrakk> t \<le> unix_timestamp sv; in_i64 (unix_timestamp sv); protocol_ix_wf ix; reads_claim env w ix;
       wallet_signer ix; protocol_dispatch env swap sv ix w = Some w' \<rbrakk>
     \<Longrightarrow> protocol_step env swap (t, w) (unix_timestamp sv, w')"
| protocol_step_outside:
    "\<lbrakk> t \<le> t'; in_i64 t'; staking_frame w w'; escrow_frame w w'; governance_frame w w';
       presale_frame w w' \<rbrakk>
     \<Longrightarrow> protocol_step env swap (t, w) (t', w')"

inductive_cases protocol_stepE: "protocol_step env swap (t, w) (t', w')"

definition protocol_genesis :: "i64 \<times> 'z presale_chain_scheme \<Rightarrow> bool" where
  "protocol_genesis s \<longleftrightarrow>
     staking_genesis s \<and> escrow_genesis s \<and> governance_genesis s \<and> presale_genesis s"


section \<open>Each step is a step of every program\<close>

lemma programs_in_protocol [simp]:
  "EscrowProgram \<in> protocol_programs" "StakingProgram \<in> protocol_programs"
  "GovernanceProgram \<in> protocol_programs" "PresaleProgram \<in> protocol_programs"
  by (simp_all add: protocol_programs_def)

lemma foreign_outside:
  assumes "foreign q s L L'" and "p \<in> protocol_programs" and "p \<noteq> q"
    and "\<And>k. s = Some k \<Longrightarrow> \<not> signs_for p k"
  shows "outside p L L'"
  using assms by (auto simp: foreign_def)

lemma effect_frames:
  fixes w :: "'z presale_chain_scheme"
  assumes s: "\<And>k p. s = Some k \<Longrightarrow> p \<in> protocol_programs \<Longrightarrow> \<not> signs_for p k"
  shows "staking_effect s w w' \<Longrightarrow> escrow_frame w w' \<and> governance_frame w w' \<and> presale_frame w w'"
    and "escrow_effect s w w' \<Longrightarrow> staking_frame w w' \<and> governance_frame w w' \<and> presale_frame w w'"
    and "governance_effect s w w' \<Longrightarrow> staking_frame w w' \<and> escrow_frame w w' \<and> presale_frame w w'"
    and "presale_effect s w w' \<Longrightarrow> staking_frame w w' \<and> escrow_frame w w' \<and> governance_frame w w'"
  using s
  by (auto simp: staking_effect_def escrow_effect_def governance_effect_def presale_effect_def
      same_defs staking_frame_def escrow_frame_def governance_frame_def presale_frame_def
      elim!: foreign_outside)

lemma option_case_Some:
  "(case x of Inl _ \<Rightarrow> None | Inr y \<Rightarrow> Some y) = Some z \<longleftrightarrow> x = Inr z"
  by (auto split: sum.splits)

lemma dispatched_frames:
  fixes w :: "'z presale_chain_scheme"
  assumes "swap_env E S" and "protocol_dispatch E S sv ix w = Some w'" and "wallet_signer ix"
  shows "case ix of
      StakingIx _ \<Rightarrow> escrow_frame w w' \<and> governance_frame w w' \<and> presale_frame w w'
    | EscrowIx _ \<Rightarrow> staking_frame w w' \<and> governance_frame w w' \<and> presale_frame w w'
    | GovernanceIx _ \<Rightarrow> staking_frame w w' \<and> escrow_frame w w' \<and> presale_frame w w'
    | PresaleIx _ \<Rightarrow> staking_frame w w' \<and> escrow_frame w w' \<and> governance_frame w w'"
proof -
  have T: "token_env E" using assms(1) by (rule swap_env.axioms)
  have s: "\<And>k p. protocol_signer ix = Some k \<Longrightarrow> p \<in> protocol_programs \<Longrightarrow> \<not> signs_for p k"
    using assms(3) by (simp add: wallet_signer_def)
  show ?thesis
  proof (cases ix)
    case (StakingIx i)
    with assms(2) have "staking_effect (protocol_signer ix) w w'"
      using token_env.staking_dispatch_effect [OF T] by (simp add: option_case_Some)
    from effect_frames(1) [OF s this] StakingIx show ?thesis by simp
  next
    case (EscrowIx i)
    with assms(2) have "escrow_effect (protocol_signer ix) w w'"
      using token_env.escrow_dispatch_effect [OF T] by (simp add: option_case_Some)
    from effect_frames(2) [OF s this] EscrowIx show ?thesis by simp
  next
    case (GovernanceIx i)
    with assms(2) have "governance_effect (protocol_signer ix) w w'"
      using token_env.governance_dispatch_effect [OF T] by (simp add: option_case_Some)
    from effect_frames(3) [OF s this] GovernanceIx show ?thesis by simp
  next
    case (PresaleIx i)
    with assms(2) have "presale_effect (protocol_signer ix) w w'"
      using swap_env.presale_dispatch_effect [OF assms(1)] by (simp add: option_case_Some)
    from effect_frames(4) [OF s this] PresaleIx show ?thesis by simp
  qed
qed

lemmas outside_steps =
  staking_step_outside escrow_step_outside governance_step_outside presale_step_outside

lemma protocol_step_splits:
  fixes w :: "'z presale_chain_scheme"
  assumes "swap_env E S" and "protocol_step E S (t, w) (t', w')"
  shows "staking_step E (t, w) (t', w') \<and> escrow_step E (t, w) (t', w')
       \<and> governance_step E (t, w) (t', w') \<and> presale_step E S (t, w) (t', w')"
  using assms(2)
proof (rule protocol_stepE)
  fix sv ix
  assume t: "t' = unix_timestamp sv" "t \<le> unix_timestamp sv" "in_i64 (unix_timestamp sv)"
    and wf: "protocol_ix_wf ix" "wallet_signer ix"
    and ok: "protocol_dispatch E S sv ix w = Some w'"
  have outside: "staking_frame w w' \<Longrightarrow> staking_step E (t, w) (t', w')"
      "escrow_frame w w' \<Longrightarrow> escrow_step E (t, w) (t', w')"
      "governance_frame w w' \<Longrightarrow> governance_step E (t, w) (t', w')"
      "presale_frame w w' \<Longrightarrow> presale_step E S (t, w) (t', w')"
    using t by (auto intro: outside_steps)
  have inside: "ix = StakingIx i \<Longrightarrow> staking_step E (t, w) (t', w')"
      "ix = EscrowIx j \<Longrightarrow> escrow_step E (t, w) (t', w')"
      "ix = GovernanceIx g \<Longrightarrow> governance_step E (t, w) (t', w')"
      "ix = PresaleIx p \<Longrightarrow> presale_step E S (t, w) (t', w')" for i j g p
    unfolding t(1) using t(2,3) wf ok
    by (auto simp: option_case_Some wallet_signer_def
        intro!: staking_step_ix escrow_step_ix governance_step_ix presale_step_ix)
  from dispatched_frames [OF assms(1) ok wf(2)] inside outside show ?thesis
    by (cases ix) simp_all
qed (auto intro: outside_steps)

text \<open>So a run of the protocol is a run of each program.\<close>

lemma protocol_reachable_splits:
  fixes s :: "i64 \<times> 'z presale_chain_scheme"
  assumes "swap_env E S" and "reachable protocol_genesis (protocol_step E S) s"
  shows "reachable staking_genesis (staking_step E) s" and "reachable escrow_genesis (escrow_step E) s"
    and "reachable governance_genesis (governance_step E) s"
    and "reachable presale_genesis (presale_step E S) s"
proof -
  have "reachable staking_genesis (staking_step E) s \<and> reachable escrow_genesis (escrow_step E) s
      \<and> reachable governance_genesis (governance_step E) s
      \<and> reachable presale_genesis (presale_step E S) s"
    using assms(2)
  proof induction
    case (reachable_init s)
    then show ?case by (auto simp: protocol_genesis_def intro: reachable.intros)
  next
    case (reachable_step s s')
    have "staking_step E s s' \<and> escrow_step E s s' \<and> governance_step E s s' \<and> presale_step E S s s'"
      using protocol_step_splits [OF assms(1), of "fst s" "snd s" "fst s'" "snd s'"] reachable_step(2)
      by simp
    with reachable_step.IH show ?case by (blast intro: reachable.reachable_step)
  qed
  then show "reachable staking_genesis (staking_step E) s"
    and "reachable escrow_genesis (escrow_step E) s"
    and "reachable governance_genesis (governance_step E) s"
    and "reachable presale_genesis (presale_step E S) s"
    by blast+
qed

end
