(* ===== verification/Recovery_Relay.thy ===== *)
theory Recovery_Relay
  imports Protocol Escrow_Frames
begin

text \<open>
  The recovery of a dispute deposit's shortfall runs through two programs: escrow records what a
  merchant owes on a claim, staking pays it from the merchant's stake and keeps a receipt, and
  escrow credits what the receipt shows. Each program reads the other's account. Over the runs of
  both, what was credited was recovered, and what was recovered was owed.
\<close>


section \<open>What staking reads off escrow's claim\<close>

text \<open>Staking derives escrow's addresses from its own copies of the seeds.\<close>

lemma recovery_addresses:
  "merchant_open_token_vault_pda m k = liquidity_tokens_pda m k"
  "stake_recovery_claim_pda m k = recovery_claim_pda m k"
  by (simp_all add: merchant_open_token_vault_pda_def liquidity_tokens_pda_def
      LIQUIDITY_VAULT_TOKENS_SEED_def ESCROW_LIQUIDITY_VAULT_TOKENS_SEED_def
      stake_recovery_claim_pda_def recovery_claim_pda_def STAKE_RECOVERY_CLAIM_SEED_def
      ESCROW_STAKE_RECOVERY_CLAIM_SEED_def)

lemma u64_bytes_length [simp]: "length (u64_to_le_bytes n) = 8"
  by (simp add: u64_to_le_bytes_def)

lemma claim_bytes_not_empty: "account_layout env \<Longrightarrow> claim_bytes env c \<noteq> []"
  by (auto simp: claim_bytes_def account_layout_def)

lemma claim_bytes_owed:
  assumes "account_layout env"
  shows "bytes_at CLAIM_OWED_TOTAL_OFFSET 8 (claim_bytes env c) = u64_to_le_bytes (rc_owed_total c)"
  using assms by (simp add: claim_bytes_def account_layout_def claim_offsets)

lemma read_claim_owed:
  assumes "account_layout env"
    and "read_stake_recovery_claim env (claim_info env w merchant mint) merchant mint = Inr cv"
  shows "unat (owed_total_of cv) = claim_owed w merchant mint"
proof (cases "es_claims w (merchant, mint)")
  case None
  with assms(2) show ?thesis by (simp add: claim_info_def claim_owed_def owed_total_of_def)
next
  case (Some c)
  with assms(2) claim_bytes_not_empty [OF assms(1), of c]
  have "cv_owed_total (the cv) = rc_owed_total c \<and> cv \<noteq> None"
    by (auto simp: claim_info_def read_stake_recovery_claim_def Let_def claim_bytes_owed [OF assms(1)])
  with Some show ?thesis by (auto simp: claim_owed_def owed_total_of_def)
qed

lemma read_receipt_total:
  assumes "account_layout env"
    and "recovered_total_of env (receipt_info env w merchant) merchant = Inr n"
  shows "unat n = receipt_total w merchant"
proof (cases "sk_receipts w merchant")
  case None
  with assms(2) show ?thesis by (simp add: receipt_info_def receipt_total_def recovered_total_of_def)
next
  case (Some r)
  with assms show ?thesis
    by (auto simp: receipt_info_def receipt_total_def recovered_total_of_def receipt_bytes_def
        account_layout_def Let_def)
qed

section \<open>Who writes claims and receipts\<close>

lemma recovery_only_receipts:
  assumes "staking_dispatch env sv ix w = Inr w'"
    and "\<And>addr mint tp claim. ix \<noteq> IxRecoverStakeShortfall addr mint tp claim"
  shows "sk_receipts w' = sk_receipts w"
proof (cases ix)
  case (IxRecoverStakeShortfall addr mint tp claim)
  with assms(2) show ?thesis by blast
qed (use assms(1) in \<open>auto simp: staking_handler_defs load_defs Let_def staking_world_simps
       init_token_def split: if_splits dest!: cpi_transfer_frame\<close>)

lemma staking_mint_fixed:
  assumes "staking_dispatch env sv ix w = Inr w'" and "sk_config w = Some c"
  shows "\<exists>c'. sk_config w' = Some c' \<and> sc_mint c' = sc_mint c"
  using assms
  by (cases ix)
     (auto simp: staking_handler_defs load_defs Let_def staking_world_simps init_token_def
       split: if_splits dest!: cpi_transfer_frame)

lemma other_ix_claims:
  assumes "escrow_dispatch env sv ix w = Inr w'"
    and "\<And>k rid mint tp cw rw. ix \<noteq> IxOpenDisputeCase k rid mint tp cw rw"
    and "\<And>m mint. ix \<noteq> IxAbsorbStakeRecovery m mint"
  shows "es_claims w' = es_claims w"
proof (cases ix)
  case (IxOpenDisputeCase k rid mint tp cw rw)
  with assms(2) show ?thesis by blast
next
  case (IxAbsorbStakeRecovery m mint)
  with assms(3) show ?thesis by blast
next
  case (IxExecuteDisputeOutcome a)
  with assms(1) show ?thesis by (auto elim: executeE)
qed (use assms(1) in \<open>auto simp: handle_initialize_fee_config_def handle_update_fee_config_def
       handle_initialize_arbitration_pool_def handle_publish_arbitrator_pool_size_def
       vault_handler_defs trade_handler_defs dispute_handler_defs trade_load_defs
       load_mint_token_def Let_def load_config_def load_arbitrator_stake_def
       load_open_reservation_def escrow_world_simps init_token_def simp del: transfer_each.simps
       dest!: cpi_transfer_frame transfer_each_frame release_frame close_frame take_deposit_frame
       split: if_splits\<close>)


section \<open>How a claim may change\<close>

definition credited_of :: "'z escrow_chain_scheme \<Rightarrow> pubkey \<Rightarrow> pubkey \<Rightarrow> nat" where
  "credited_of w merchant mint =
     (case es_claims w (merchant, mint) of None \<Rightarrow> 0 | Some c \<Rightarrow> unat (rc_credited_total c))"

text \<open>A claim's debt never shrinks, and its credit grows only to what the receipt shows.\<close>

definition claim_advance :: "'z escrow_chain_scheme \<Rightarrow> 'z escrow_chain_scheme \<Rightarrow> bool" where
  "claim_advance w w' \<longleftrightarrow> (\<forall>m mint. claim_owed w m mint \<le> claim_owed w' m mint
     \<and> (credited_of w' m mint = credited_of w m mint \<or> credited_of w' m mint = receipt_total w m))"

lemma claim_advance_same: "es_claims w' = es_claims w \<Longrightarrow> claim_advance w w'"
  by (simp add: claim_advance_def claim_owed_def credited_of_def)

lemma record_shortfall_claims:
  assumes "record_shortfall env rid seller mint shortfall now w = Inr w'"
  shows "\<exists>c. es_claims w' = (es_claims w)((seller, mint) \<mapsto> c) \<and> rc_merchant c = seller
     \<and> rc_mint c = mint \<and> rc_bump c = bump_of env (recovery_claim_pda seller mint)
     \<and> unat (rc_owed_total c) = claim_owed w seller mint + unat shortfall
     \<and> unat (rc_credited_total c) = credited_of w seller mint"
  using assms
  by (auto simp: record_shortfall_def claim_or_new_def claim_owed_def credited_of_def Let_def
      escrow_world_simps checked_add_Some word_gt_0 split: if_splits option.splits)

text \<open>Every claim sits at the address of its merchant and mint.\<close>

definition claims_keyed :: "env \<Rightarrow> 'z escrow_chain_scheme \<Rightarrow> bool" where
  "claims_keyed env w \<longleftrightarrow> (\<forall>m k c. es_claims w (m, k) = Some c \<longrightarrow>
     rc_merchant c = m \<and> rc_mint c = k \<and> rc_bump c = bump_of env (recovery_claim_pda m k))"

lemma open_dispute_claims:
  assumes "handle_open_dispute_case env sv signer rid mint tp cw rw w = Inr w'"
  shows "claim_advance w w'" and "claims_keyed env w \<Longrightarrow> claims_keyed env w'"
proof -
  from assms obtain seller c shortfall where c: "es_claims w' = (es_claims w)((seller, mint) \<mapsto> c)"
      "rc_merchant c = seller" "rc_mint c = mint" "rc_bump c = bump_of env (recovery_claim_pda seller mint)"
      "unat (rc_owed_total c) = claim_owed w seller mint + unat (shortfall :: u64)"
      "unat (rc_credited_total c) = credited_of w seller mint"
  proof (rule open_disputeE, goal_cases)
    case (1 e fc dec v p deposit shortfall v' w1 w2 d)
    have "es_claims w1 = es_claims w" using take_deposit_frame [OF 1(15)] by auto
    moreover from this record_shortfall_claims [OF 1(16)] obtain c where
      "es_claims w2 = (es_claims w)((te_seller e, mint) \<mapsto> c)" "rc_merchant c = te_seller e"
      "rc_mint c = mint" "rc_bump c = bump_of env (recovery_claim_pda (te_seller e) mint)"
      "unat (rc_owed_total c) = claim_owed w (te_seller e) mint + unat shortfall"
      "unat (rc_credited_total c) = credited_of w (te_seller e) mint"
      by (auto simp: claim_owed_def credited_of_def escrow_world_simps)
    ultimately show ?case using 1(17) by (intro 1(1)) (simp_all add: escrow_world_simps)
  qed
  show "claim_advance w w'"
    using c by (auto simp: claim_advance_def claim_owed_def credited_of_def)
  show "claims_keyed env w'" if "claims_keyed env w"
    using that c by (auto simp: claims_keyed_def)
qed

lemma absorb_claims:
  assumes "handle_absorb_stake_recovery env sv m mint w = Inr w'"
  shows "claim_advance w w'" and "claims_keyed env w \<Longrightarrow> claims_keyed env w'"
proof -
  from assms obtain c cr where c: "es_claims w (m, mint) = Some c"
      "es_claims w' = (es_claims w)((m, mint) \<mapsto> c\<lparr>rc_credited_total := cr\<rparr>)"
      "unat cr = receipt_total w m"
    by (rule absorbE)
       (simp add: receipt_total_def absorbable_def unat_saturating_sub word_less_nat_alt
         escrow_world_simps)
  show "claim_advance w w'"
    using c by (auto simp: claim_advance_def claim_owed_def credited_of_def)
  show "claims_keyed env w'" if "claims_keyed env w"
    using that c by (auto simp: claims_keyed_def)
qed

lemma escrow_dispatch_claims:
  assumes "escrow_dispatch env sv ix w = Inr w'"
  shows "claim_advance w w' \<and> (claims_keyed env w \<longrightarrow> claims_keyed env w')"
proof (cases ix)
  case (IxOpenDisputeCase k rid mint tp cw rw)
  with assms show ?thesis by (auto intro: open_dispute_claims)
next
  case (IxAbsorbStakeRecovery m mint)
  with assms show ?thesis by (auto intro: absorb_claims)
qed (use other_ix_claims [OF assms] in \<open>simp_all add: claim_advance_same claims_keyed_def\<close>)

lemma claims_keyed_reachable:
  assumes "reachable escrow_genesis (escrow_step env) (t, w)"
  shows "claims_keyed env w"
proof -
  have "claims_keyed env (snd s)" if "reachable escrow_genesis (escrow_step env) s" for s
    using that
  proof induction
    case (reachable_init s)
    then show ?case by (simp add: escrow_genesis_def claims_keyed_def)
  next
    case (reachable_step s s')
    have "escrow_step env (fst s, snd s) (fst s', snd s')" using reachable_step(2) by simp
    then show ?case
    proof (rule escrow_stepE)
      fix sv ix assume "escrow_dispatch env sv ix (snd s) = Inr (snd s')"
      with reachable_step.IH show ?case using escrow_dispatch_claims by blast
    next
      assume "escrow_frame (snd s) (snd s')"
      with reachable_step.IH show ?case by (simp add: escrow_frame_def claims_keyed_def)
    qed
  qed
  from this [OF assms] show ?thesis by simp
qed


section \<open>Over the runs of both programs\<close>

definition relay_inv :: "'z escrow_chain_scheme \<Rightarrow> bool" where
  "relay_inv w \<longleftrightarrow> (\<forall>m mint. credited_of w m mint \<le> receipt_total w m)
     \<and> (\<forall>m. 0 < receipt_total w m \<longrightarrow>
          (\<exists>c. sk_config w = Some c \<and> receipt_total w m \<le> claim_owed w m (sc_mint c)))"

lemma relay_inv_owed:
  assumes "relay_inv w" and "0 < receipt_total w m"
  obtains c where "sk_config w = Some c" and "receipt_total w m \<le> claim_owed w m (sc_mint c)"
  using assms unfolding relay_inv_def by blast

lemma relay_inv_staking:
  assumes "token_env E" and "account_layout E" and inv: "relay_inv w"
    and ok: "staking_dispatch E sv ix w = Inr w'" and reads: "reads_claim E w (StakingIx ix)"
    and same: "es_claims w' = es_claims w"
  shows "relay_inv w'"
proof -
  have owed: "claim_owed w' m mint = claim_owed w m mint"
      and credited: "credited_of w' m mint = credited_of w m mint" for m mint
    using same by (simp_all add: claim_owed_def credited_of_def)
  have "receipt_total w' m = receipt_total w m
      \<or> receipt_total w m \<le> receipt_total w' m \<and> 0 < receipt_total w' m
        \<and> (\<exists>c. sk_config w = Some c
              \<and> receipt_total w' m \<le> max (receipt_total w m) (claim_owed w m (sc_mint c)))" for m
  proof (cases ix)
    case (IxRecoverStakeShortfall addr mint tp claim)
    with ok have "handle_recover_stake_shortfall E sv addr mint tp claim w = Inr w'" by simp
    then show ?thesis
    proof (rule token_env.recover_shortfallE [OF assms(1)], goal_cases)
      case (1 c s cv ub act am d w1)
      have "claim = claim_info E w (sa_owner s) mint"
        using reads IxRecoverStakeShortfall 1(4) by simp
      with 1(6) have "unat (owed_total_of cv) = claim_owed w (sa_owner s) mint"
        using read_claim_owed [OF assms(2)] by blast
      moreover have "receipt_total w' k = (if k = sa_owner s then receipt_total w (sa_owner s) + unat am
          else receipt_total w k)" for k
        using 1(15) by (auto simp: receipt_total_def)
      ultimately show ?case using 1(1,2,8,9) by auto
    qed
  qed (use recovery_only_receipts [OF ok] in \<open>simp_all add: receipt_total_def\<close>)
  note paid = this
  show ?thesis
    unfolding relay_inv_def owed credited
  proof (intro conjI allI impI)
    fix m mint show "credited_of w m mint \<le> receipt_total w' m"
      using inv paid [of m] by (auto simp: relay_inv_def intro: order_trans)
  next
    fix m assume "0 < receipt_total w' m"
    obtain c where "sk_config w = Some c" "receipt_total w' m \<le> claim_owed w m (sc_mint c)"
    proof (cases "receipt_total w m = 0")
      case True
      with paid [of m] \<open>0 < receipt_total w' m\<close> show thesis by (auto intro: that)
    next
      case False
      then obtain c where "sk_config w = Some c" "receipt_total w m \<le> claim_owed w m (sc_mint c)"
        using relay_inv_owed [OF inv] by blast
      with paid [of m] show thesis by (auto intro: that)
    qed
    with staking_mint_fixed [OF ok]
    show "\<exists>c. sk_config w' = Some c \<and> receipt_total w' m \<le> claim_owed w m (sc_mint c)" by fastforce
  qed
qed

lemma relay_inv_escrow:
  assumes inv: "relay_inv w" and "escrow_dispatch env sv ix w = Inr w'"
    and same: "sk_receipts w' = sk_receipts w" "sk_config w' = sk_config w"
  shows "relay_inv w'"
proof -
  have rt: "receipt_total w' m = receipt_total w m" for m using same by (simp add: receipt_total_def)
  have adv: "claim_advance w w'" using escrow_dispatch_claims [OF assms(2)] by blast
  show ?thesis
    unfolding relay_inv_def rt same
  proof (intro conjI allI impI)
    fix m mint show "credited_of w' m mint \<le> receipt_total w m"
      using inv adv by (auto simp: relay_inv_def claim_advance_def) (metis order_refl)
  next
    fix m assume "0 < receipt_total w m"
    with inv obtain c where "sk_config w = Some c" "receipt_total w m \<le> claim_owed w m (sc_mint c)"
      by (rule relay_inv_owed)
    with adv show "\<exists>c. sk_config w = Some c \<and> receipt_total w m \<le> claim_owed w' m (sc_mint c)"
      by (fastforce simp: claim_advance_def intro: order_trans)
  qed
qed

lemma relay_inv_frame:
  assumes "relay_inv w" and "staking_frame w w'" and "escrow_frame w w'"
  shows "relay_inv w'"
  using assms
  by (simp add: relay_inv_def staking_frame_def escrow_frame_def credited_of_def receipt_total_def
      claim_owed_def)

lemma relay_inv_step:
  fixes w :: "'z presale_chain_scheme"
  assumes env: "swap_env E S" "account_layout E" and inv: "relay_inv w"
    and step: "protocol_step E S (t, w) (t', w')"
  shows "relay_inv w'"
  using step
proof (rule protocol_stepE)
  fix sv ix
  assume reads: "reads_claim E w ix" and signer: "wallet_signer ix"
    and ok: "protocol_dispatch E S sv ix w = Some w'"
  note frames = dispatched_frames [OF env(1) ok signer]
  show ?thesis
  proof (cases ix)
    case (StakingIx i)
    with frames ok reads show ?thesis
      using relay_inv_staking [OF swap_env.axioms(1) [OF env(1)] env(2) inv]
      by (auto simp: option_case_Some escrow_frame_def)
  next
    case (EscrowIx i)
    with frames ok show ?thesis
      using relay_inv_escrow [OF inv] by (auto simp: option_case_Some staking_frame_def)
  qed (use frames relay_inv_frame [OF inv] in simp_all)
qed (use relay_inv_frame [OF inv] in simp_all)

lemma relay_reachable:
  assumes "swap_env E S" and "account_layout E"
    and "reachable protocol_genesis (protocol_step E S) (t, w)"
  shows "relay_inv w"
proof -
  have "relay_inv (snd s)" if "reachable protocol_genesis (protocol_step E S) s" for s
    using that
  proof induction
    case (reachable_init s)
    then show ?case
      by (simp add: protocol_genesis_def staking_genesis_def escrow_genesis_def relay_inv_def
          credited_of_def receipt_total_def)
  next
    case (reachable_step s s')
    then show ?case
      using relay_inv_step [OF assms(1,2), of "snd s" "fst s" "fst s'" "snd s'"] by simp
  qed
  from this [OF assms(3)] show ?thesis by simp
qed

end
