(* ===== verification/Protocol_History.thy ===== *)
theory Protocol_History
  imports Recovery_Relay Presale_Properties
begin

text \<open>
  Two concrete histories of the whole protocol on the reference token program and swap. In the
  first, merchant \<open>Key 1\<close> stakes sixty units, sells from a vault, and is disputed with nothing in
  its deposit vault: the claim of thirty is recovered from the stake and absorbed. In the second,
  two stakers vote on banning \<open>Key 6\<close>, and the ban is listed.
\<close>


section \<open>Runs\<close>

fun protocol_run ::
  "env \<Rightarrow> 'z swap_fn \<Rightarrow> i64 \<Rightarrow> (sysvars \<times> protocol_ix) list \<Rightarrow> 'z presale_chain_scheme
   \<Rightarrow> (i64 \<times> 'z presale_chain_scheme) option" where
  "protocol_run env swap t [] w = Some (t, w)"
| "protocol_run env swap t ((sv, ix) # ixs) w =
     (if t \<le> unix_timestamp sv \<and> in_i64 (unix_timestamp sv) \<and> protocol_ix_wf ix
         \<and> reads_claim env w ix
         \<and> (case protocol_signer ix of None \<Rightarrow> True | Some k \<Rightarrow> \<exists>x. k = Key x)
      then case protocol_dispatch env swap sv ix w of
          None \<Rightarrow> None
        | Some w' \<Rightarrow> protocol_run env swap (unix_timestamp sv) ixs w'
      else None)"

lemma protocol_run_reachable:
  assumes "protocol_run env swap t ixs w = Some s"
    and "reachable protocol_genesis (protocol_step env swap) (t, w)"
  shows "reachable protocol_genesis (protocol_step env swap) s"
  using assms
proof (induction ixs arbitrary: t w)
  case (Cons x ixs)
  obtain sv ix where x: "x = (sv, ix)" by (cases x)
  from Cons.prems(1) x obtain w' where g: "t \<le> unix_timestamp sv" "in_i64 (unix_timestamp sv)"
      "protocol_ix_wf ix" "reads_claim env w ix" and s: "protocol_signer ix = Some k \<Longrightarrow> \<exists>x. k = Key x"
      and d: "protocol_dispatch env swap sv ix w = Some w'"
      and r: "protocol_run env swap (unix_timestamp sv) ixs w' = Some s" for k
    by (auto split: if_splits option.splits)
  have "wallet_signer ix" using s by (fastforce simp: wallet_signer_def)
  with g d have "protocol_step env swap (t, w) (unix_timestamp sv, w')" by (blast intro: protocol_step_ix)
  with Cons.prems(2) have "reachable protocol_genesis (protocol_step env swap) (unix_timestamp sv, w')"
    by (rule reachable_step)
  with r show ?case by (rule Cons.IH)
qed simp


section \<open>A recovered shortfall\<close>

definition joint_accounts :: "u64 \<Rightarrow> u64 \<Rightarrow> u64 \<Rightarrow> ledger" where
  "joint_accounts settlement stake vault =
     [Key 31 \<mapsto> demo_account (Key 7) (Key 1) settlement, Key 32 \<mapsto> demo_account (Key 2) (Key 1) 40,
      Key 4 \<mapsto> demo_account (Key 2) (Key 9) 0,
      Key 61 \<mapsto> demo_account (Key 7) (Key 9) 0, Key 62 \<mapsto> demo_account (Key 7) (Key 9) 0,
      Key 63 \<mapsto> demo_account (Key 7) (Key 9) 0, Key 64 \<mapsto> demo_account (Key 7) (Key 9) 0,
      stake_vault_pda \<mapsto> demo_account (Key 2) staking_config_pda stake,
      rewards_vault_pda \<mapsto> demo_account (Key 2) staking_config_pda 0,
      arbitration_pool_pda \<mapsto> demo_account (Key 2) fee_config_pda 0,
      liquidity_tokens_pda (Key 1) (Key 7)
        \<mapsto> demo_account (Key 7) (liquidity_vault_pda (Key 1) (Key 7)) vault,
      liquidity_tokens_pda (Key 1) (Key 2)
        \<mapsto> demo_account (Key 2) (liquidity_vault_pda (Key 1) (Key 2)) (60 - stake)]"

definition joint_start :: presale_chain where
  "joint_start = \<lparr> c_tokens = [Key 31 \<mapsto> demo_account (Key 7) (Key 1) 1000,
        Key 32 \<mapsto> demo_account (Key 2) (Key 1) 100, Key 4 \<mapsto> demo_account (Key 2) (Key 9) 0,
        Key 61 \<mapsto> demo_account (Key 7) (Key 9) 0, Key 62 \<mapsto> demo_account (Key 7) (Key 9) 0,
        Key 63 \<mapsto> demo_account (Key 7) (Key 9) 0, Key 64 \<mapsto> demo_account (Key 7) (Key 9) 0],
     c_mints = [Key 2 \<mapsto> \<lparr> mi_decimals = 6, mi_program = Prog SplTokenProgram \<rparr>,
                Key 7 \<mapsto> \<lparr> mi_decimals = 6, mi_program = Prog Token2022Program \<rparr>],
     c_bans = (\<lambda>_. no_account), sk_config = None, sk_stakes = Map.empty, sk_receipts = Map.empty,
     sk_log = [], es_vaults = Map.empty, es_trades = Map.empty, es_fee_config = None,
     es_cases = Map.empty, es_claims = Map.empty, es_policy = None, es_log = [],
     gv_config = None, gv_emergency = None, gv_proposals = Map.empty, gv_actions = Map.empty,
     gv_votes = Map.empty, gv_bans = Map.empty, gv_log = [], ps_sales = Map.empty,
     ps_contributions = Map.empty, ps_log = [] \<rparr>"

definition joint_stake :: "u64 \<Rightarrow> StakeAccount" where
  "joint_stake amount = \<lparr> sa_owner = Key 1, sa_role = Merchant, sa_amount = amount,
     sa_unbonding_amount = 0, sa_unbonding_release_at = 0, sa_slashed_total = 0,
     sa_pending_rewards = 0, sa_bump = 255, sa_first_staked_at = 52 \<rparr>"

definition joint_setup :: "(sysvars \<times> protocol_ix) list" where
  "joint_setup =
     [(demo_sv 50, StakingIx (IxInitializeStakingConfig (Key 9) (Key 2) (Prog SplTokenProgram)
         demo_params)),
      (demo_sv 51, StakingIx (IxInitializeStakeAccount (Key 1) Merchant)),
      (demo_sv 52, StakingIx (IxStake (Key 1) (Key 1, Merchant) (Key 32) (Key 2)
         (Prog SplTokenProgram) 60))]
     @ map (\<lambda>(sv, ix). (sv, EscrowIx ix)) demo_setup"

definition joint_trading :: "(sysvars \<times> protocol_ix) list" where
  "joint_trading = map (\<lambda>(sv, ix). (sv, EscrowIx ix))
     (filter (\<lambda>(sv, ix). unix_timestamp sv \<noteq> 106) demo_trading)"

text \<open>The claim the dispute records, and the recovery.\<close>

definition joint_claim :: "u64 \<Rightarrow> StakeRecoveryClaim" where
  "joint_claim credited = \<lparr> rc_merchant = Key 1, rc_mint = Key 2, rc_owed_total = 30,
     rc_credited_total = credited, rc_case_count = 1, rc_bump = 255 \<rparr>"

definition joint_claim_account :: raw_account where
  "joint_claim_account = \<lparr> ra_owner = ESCROW_PROGRAM_ID, ra_data = claim_bytes ref_env (joint_claim 0) \<rparr>"

definition joint_opening :: "(sysvars \<times> protocol_ix) list" where
  "joint_opening =
     [(demo_sv 110, EscrowIx (IxOpenDisputeCase (Key 5) 1 (Key 2) (Prog SplTokenProgram) 100 100))]"

definition joint_recovery :: "(sysvars \<times> protocol_ix) list" where
  "joint_recovery =
     [(demo_sv 111, StakingIx (IxRecoverStakeShortfall (Key 1, Merchant) (Key 2)
         (Prog SplTokenProgram) joint_claim_account))]"

definition joint_absorption :: "(sysvars \<times> protocol_ix) list" where
  "joint_absorption = [(demo_sv 112, EscrowIx (IxAbsorbStakeRecovery (Key 1) (Key 2)))]"

definition joint_state :: "ledger \<Rightarrow> u64 \<Rightarrow> StakingEvent list \<Rightarrow> presale_chain" where
  "joint_state L staked log = joint_start\<lparr>c_tokens := L, sk_config := Some demo_config,
     sk_stakes := [(Key 1, Merchant) \<mapsto> joint_stake staked], sk_log := log,
     es_vaults := [(Key 1, Key 7) \<mapsto> demo_vault (Key 7) 0 0 0 0 0,
                   (Key 1, Key 2) \<mapsto> demo_vault (Key 2) 0 0 0 0 0],
     es_fee_config := Some demo_fees\<rparr>"

lemmas joint_defs =
  joint_state_def joint_start_def joint_accounts_def joint_stake_def demo_account_def
  demo_vault_def demo_trade_def demo_fees_def demo_config_def

lemma escrow_staking_distinct [simp]:
  "liquidity_tokens_pda m k \<noteq> stake_vault_pda" "liquidity_tokens_pda m k \<noteq> rewards_vault_pda"
  "arbitration_pool_pda \<noteq> stake_vault_pda" "arbitration_pool_pda \<noteq> rewards_vault_pda"
  "trade_tokens_pda i \<noteq> stake_vault_pda" "trade_tokens_pda i \<noteq> rewards_vault_pda"
  by (simp_all add: escrow_pda_defs stake_vault_pda_def rewards_vault_pda_def)

lemmas escrow_staking_distinct_sym [simp] = escrow_staking_distinct [symmetric]

lemma joint_setup_run:
  "\<exists>log. protocol_run ref_env ref_swap 50 joint_setup joint_start
     = Some (104, joint_state (joint_accounts 1000 60 0) 60 log)"
  by (simp add: joint_setup_def demo_setup_def demo_params_def Role_COUNT_def joint_defs
      staking_eval escrow_eval word_le_nat_alt word_less_nat_alt fun_upd_twist wallet_is_banned_def)


text \<open>The trade, and the states of the dispute: opened, recovered, absorbed.\<close>

definition joint_funded :: "StakingEvent list \<Rightarrow> presale_chain" where
  "joint_funded log = (joint_state ((joint_accounts 0 60 500)
       (trade_tokens_pda 1 \<mapsto> demo_account (Key 7) (trade_escrow_pda 1) 500)) 60 log)
     \<lparr>es_vaults := [(Key 1, Key 7) \<mapsto> demo_vault (Key 7) 1000 100 400 0 500,
                   (Key 1, Key 2) \<mapsto> demo_vault (Key 2) 0 0 0 0 0],
      es_trades := [1 \<mapsto> demo_trade AwaitingFiatSettlement False]\<rparr>"

definition joint_case :: DisputeCase where
  "joint_case = (demo_dispute [] [])\<lparr>dc_deposit := 0, dc_deposit_shortfall := 30\<rparr>"

definition joint_disputed ::
  "u64 \<Rightarrow> u64 \<Rightarrow> (pubkey \<rightharpoonup> StakeRecoveryReceipt) \<Rightarrow> StakingEvent list \<Rightarrow> EscrowEvent list \<Rightarrow> presale_chain" where
  "joint_disputed staked credited R log elog = (joint_state ((joint_accounts 0 staked 500)
       (trade_tokens_pda 1 \<mapsto> demo_account (Key 7) (trade_escrow_pda 1) 500)) staked log)
     \<lparr>es_vaults := [(Key 1, Key 7) \<mapsto> demo_vault (Key 7) 1000 100 400 0 500,
                   (Key 1, Key 2) \<mapsto> demo_vault (Key 2) credited 0 credited 0 0],
      es_trades := [1 \<mapsto> demo_trade Frozen False], es_cases := [1 \<mapsto> joint_case],
      es_claims := [(Key 1, Key 2) \<mapsto> joint_claim credited], sk_receipts := R, es_log := elog\<rparr>"

definition joint_receipt :: StakeRecoveryReceipt where
  "joint_receipt = \<lparr> rr_merchant = Key 1, rr_recovered_total = 30, rr_recovery_count = 1,
     rr_bump = 255 \<rparr>"

lemma joint_trading_run:
  "protocol_run ref_env ref_swap 104 joint_trading
     (joint_state (joint_accounts 1000 60 0) 60 log) = Some (109, joint_funded log)"
  by (simp add: joint_trading_def demo_trading_def joint_funded_def joint_defs escrow_eval
      word_le_nat_alt word_less_nat_alt fun_upd_twist wallet_is_banned_def)

lemma joint_opening_run:
  "\<exists>elog. protocol_run ref_env ref_swap 109 joint_opening (joint_funded log)
     = Some (110, joint_disputed 60 0 Map.empty log elog)"
  by (simp add: joint_opening_def joint_funded_def joint_disputed_def joint_case_def
      demo_dispute_def joint_claim_def joint_defs dispute_eval demo_slots
      word_le_nat_alt word_less_nat_alt fun_upd_twist wallet_is_banned_def)

lemma joint_claim_info:
  "claim_info ref_env (joint_disputed 60 0 R log elog) (Key 1) (Key 2) = joint_claim_account"
  by (simp add: claim_info_def joint_claim_account_def joint_disputed_def)

lemma ref_claim_discriminator:
  "account_discriminator ref_env ''StakeRecoveryClaim'' = STAKE_RECOVERY_CLAIM_DISCRIMINATOR"
  by (simp add: ref_env_def STAKE_RECOVERY_CLAIM_DISCRIMINATOR_def)

lemma joint_claim_read:
  "read_stake_recovery_claim ref_env joint_claim_account (Key 1) (Key 2)
     = Inr (Some \<lparr> cv_merchant = Key 1, cv_mint = Key 2, cv_owed_total = 30 \<rparr>)"
  by (rule read_claim_bytes)
     (simp_all add: joint_claim_account_def claim_bytes_def joint_claim_def ref_claim_discriminator)

lemma joint_recovery_run:
  "\<exists>log'. protocol_run ref_env ref_swap 110 joint_recovery (joint_disputed 60 0 Map.empty log elog)
     = Some (111, joint_disputed 30 0 [Key 1 \<mapsto> joint_receipt] log' elog)"
  by (simp add: joint_recovery_def joint_claim_info joint_claim_read,
      simp add: joint_disputed_def joint_receipt_def joint_defs staking_eval
        joint_claim_read recovery_addresses stop_empty_clock_def receipt_or_new_def outstanding_def saturating_sub_def owed_total_of_def
        recover_from_unbonding_def recover_from_active_def min_def in_i64_def I64_MIN_def I64_MAX_def
        word_le_nat_alt word_less_nat_alt fun_upd_twist)

lemma joint_absorption_run:
  "\<exists>elog'. protocol_run ref_env ref_swap 111 joint_absorption
       (joint_disputed 30 0 [Key 1 \<mapsto> joint_receipt] log elog)
     = Some (112, joint_disputed 30 30 [Key 1 \<mapsto> joint_receipt] log elog')"
  by (simp add: joint_absorption_def joint_disputed_def joint_receipt_def joint_claim_def joint_defs
      escrow_eval absorbable_def saturating_sub_def word_le_nat_alt word_less_nat_alt fun_upd_twist)


lemma no_programs_genesis:
  assumes "c_tokens w = L" and "\<And>k t. L k = Some t \<Longrightarrow> \<exists>x. k = Key x"
    and "w = joint_start\<lparr>c_tokens := L\<rparr>"
  shows "protocol_genesis (50, w)"
proof -
  have none: "L k = None" if "\<nexists>x. k = Key x" for k
    using assms(2) [of k] that by (cases "L k") auto
  have "signs_for p k \<longrightarrow> L k = None" for p k using none [of k] by (cases k) auto
  moreover have "L (sale_usdc_vault_pda n) = None" for n by (rule none) simp
  ultimately show ?thesis
    unfolding assms(3)
    by (simp add: protocol_genesis_def staking_genesis_def escrow_genesis_def governance_genesis_def
        presale_genesis_def joint_start_def in_i64_def I64_MIN_def I64_MAX_def wallet_is_banned_def)
qed

lemma joint_start_reachable:
  "reachable protocol_genesis (protocol_step ref_env ref_swap) (50, joint_start)"
  by (rule reachable_init, rule no_programs_genesis [OF refl])
     (auto simp: joint_start_def split: if_splits)

lemma joint_reachable:
  obtains log elog log1 elog1 where
    "reachable protocol_genesis (protocol_step ref_env ref_swap)
       (110, joint_disputed 60 0 Map.empty log elog)"
    and "reachable protocol_genesis (protocol_step ref_env ref_swap)
       (112, joint_disputed 30 30 [Key 1 \<mapsto> joint_receipt] log1 elog1)"
proof -
  obtain log where a: "protocol_run ref_env ref_swap 50 joint_setup joint_start
      = Some (104, joint_state (joint_accounts 1000 60 0) 60 log)"
    using joint_setup_run by blast
  obtain elog where c: "protocol_run ref_env ref_swap 109 joint_opening (joint_funded log)
      = Some (110, joint_disputed 60 0 Map.empty log elog)"
    using joint_opening_run by blast
  obtain log1 where d: "protocol_run ref_env ref_swap 110 joint_recovery
        (joint_disputed 60 0 Map.empty log elog)
      = Some (111, joint_disputed 30 0 [Key 1 \<mapsto> joint_receipt] log1 elog)"
    using joint_recovery_run by blast
  obtain elog1 where e: "protocol_run ref_env ref_swap 111 joint_absorption
        (joint_disputed 30 0 [Key 1 \<mapsto> joint_receipt] log1 elog)
      = Some (112, joint_disputed 30 30 [Key 1 \<mapsto> joint_receipt] log1 elog1)"
    using joint_absorption_run by blast
  note r1 = protocol_run_reachable [OF c protocol_run_reachable [OF joint_trading_run
      protocol_run_reachable [OF a joint_start_reachable]]]
  note r2 = protocol_run_reachable [OF e protocol_run_reachable [OF d r1]]
  from r1 r2 show thesis by (rule that)
qed


section \<open>A listed wallet\<close>

definition ban_start :: presale_chain where
  "ban_start = joint_start\<lparr>c_tokens :=
     [Key 52 \<mapsto> demo_account (Key 2) (Key 5) 100, Key 53 \<mapsto> demo_account (Key 2) (Key 9) 0,
      Key 33 \<mapsto> demo_account (Key 2) (Key 21) 100, Key 34 \<mapsto> demo_account (Key 2) (Key 22) 100,
      Key 4 \<mapsto> demo_account (Key 2) (Key 9) 0]\<rparr>"

definition ban_staking :: "(sysvars \<times> protocol_ix) list" where
  "ban_staking =
     [(demo_sv 50, StakingIx (IxInitializeStakingConfig (Key 9) (Key 2) (Prog SplTokenProgram)
         demo_params)),
      (demo_sv 50, StakingIx (IxInitializeStakeAccount (Key 21) Arbitrator)),
      (demo_sv 50, StakingIx (IxInitializeStakeAccount (Key 22) Arbitrator)),
      (demo_sv 50, StakingIx (IxStake (Key 21) (Key 21, Arbitrator) (Key 33) (Key 2)
         (Prog SplTokenProgram) 100)),
      (demo_sv 50, StakingIx (IxStake (Key 22) (Key 22, Arbitrator) (Key 34) (Key 2)
         (Prog SplTokenProgram) 100))]"

definition ban_voting :: "(sysvars \<times> protocol_ix) list" where
  "ban_voting = map (\<lambda>(sv, ix). (sv, GovernanceIx ix)) gov_voting_ixs"

definition ban_listing :: "(sysvars \<times> protocol_ix) list" where
  "ban_listing = [(demo_sv 160, GovernanceIx (IxTallyAndFinalize 1)),
     (demo_sv 300, GovernanceIx (IxListWallet 1 (Key 6)))]"

definition ban_staked :: "StakingEvent list \<Rightarrow> presale_chain" where
  "ban_staked log = ban_start\<lparr>c_tokens :=
     [Key 52 \<mapsto> demo_account (Key 2) (Key 5) 100, Key 53 \<mapsto> demo_account (Key 2) (Key 9) 0,
      Key 33 \<mapsto> demo_account (Key 2) (Key 21) 0, Key 34 \<mapsto> demo_account (Key 2) (Key 22) 0,
      Key 4 \<mapsto> demo_account (Key 2) (Key 9) 0,
      stake_vault_pda \<mapsto> demo_account (Key 2) staking_config_pda 200,
      rewards_vault_pda \<mapsto> demo_account (Key 2) staking_config_pda 0],
     sk_config := Some demo_config, sk_log := log,
     sk_stakes := [(Key 21, Arbitrator) \<mapsto> demo_arbitrator (Key 21) 100,
                   (Key 22, Arbitrator) \<mapsto> demo_arbitrator (Key 22) 100]\<rparr>"

definition ban_state :: "Proposal \<Rightarrow> bool \<Rightarrow> StakingEvent list \<Rightarrow> GovernanceEvent list \<Rightarrow> presale_chain" where
  "ban_state p listed log glog = (ban_staked log)\<lparr>c_tokens := (c_tokens (ban_staked log))
       (Key 52 \<mapsto> demo_account (Key 2) (Key 5) 90,
        deposit_vault_pda \<mapsto> demo_account (Key 2) governance_config_pda 10),
     c_bans := (if listed
                then (\<lambda>_. no_account)(Key 6 := \<lparr> ra_owner = GOVERNANCE_PROGRAM_ID,
                                              ra_data = ban_record_bytes ref_env gov_ban \<rparr>)
                else (\<lambda>_. no_account)),
     gv_config := Some gov_config, gv_emergency := Some gov_emergency, gv_proposals := [1 \<mapsto> p],
     gv_actions := [1 \<mapsto> gov_action],
     gv_votes := [(1, Key 21) \<mapsto> gov_vote (Key 21) True 210,
                  (1, Key 22) \<mapsto> gov_vote (Key 22) False 211],
     gv_bans := (if listed then [Key 6 \<mapsto> gov_ban] else Map.empty), gv_log := glog\<rparr>"

lemma deposit_vault_distinct [simp]:
  "deposit_vault_pda \<noteq> stake_vault_pda" "deposit_vault_pda \<noteq> rewards_vault_pda"
  "stake_vault_pda \<noteq> deposit_vault_pda" "rewards_vault_pda \<noteq> deposit_vault_pda"
  by (simp_all add: deposit_vault_pda_def stake_vault_pda_def rewards_vault_pda_def)

lemmas ban_defs =
  ban_start_def ban_staked_def joint_start_def demo_account_def demo_config_def demo_arbitrator_def

lemma ban_staking_run:
  "\<exists>log. protocol_run ref_env ref_swap 50 ban_staking ban_start = Some (50, ban_staked log)"
  by (simp add: ban_staking_def demo_params_def Role_COUNT_def ban_defs staking_eval in_i64_def
      I64_MIN_def I64_MAX_def word_le_nat_alt word_less_nat_alt fun_upd_twist wallet_is_banned_def)

lemma ban_voting_run:
  "\<exists>glog. protocol_run ref_env ref_swap 50 ban_voting (ban_staked log)
     = Some (111, ban_state (gov_proposal Voting False False False) False log glog)"
  by (simp add: ban_voting_def gov_voting_ixs_def gov_params_def ban_state_def ban_defs
      gov_config_def gov_proposal_def gov_action_def gov_vote_def governance_eval gov_emergency_def
      wallet_is_banned_def quorum_demo fun_upd_twist word_le_nat_alt)

lemma ban_listing_run:
  "\<exists>glog'. protocol_run ref_env ref_swap 111 ban_listing
       (ban_state (gov_proposal Voting False False False) False log glog)
     = Some (300, ban_state (gov_proposal Accepted True False True) True log glog')"
  using votes_demo [of Voting False False False]
  by (simp add: ban_listing_def ban_state_def ban_defs gov_config_def gov_proposal_def gov_action_def
      gov_vote_def gov_ban_def governance_eval fun_upd_twist word_le_nat_alt)

lemma ban_reachable:
  obtains log glog where "reachable protocol_genesis (protocol_step ref_env ref_swap)
    (300, ban_state (gov_proposal Accepted True False True) True log glog)"
proof -
  have g: "reachable protocol_genesis (protocol_step ref_env ref_swap) (50, ban_start)"
    by (rule reachable_init, rule no_programs_genesis [OF refl])
       (auto simp: ban_start_def split: if_splits)
  obtain log where a: "protocol_run ref_env ref_swap 50 ban_staking ban_start = Some (50, ban_staked log)"
    using ban_staking_run by blast
  obtain glog where b: "protocol_run ref_env ref_swap 50 ban_voting (ban_staked log)
      = Some (111, ban_state (gov_proposal Voting False False False) False log glog)"
    using ban_voting_run by blast
  obtain glog' where c: "protocol_run ref_env ref_swap 111 ban_listing
        (ban_state (gov_proposal Voting False False False) False log glog)
      = Some (300, ban_state (gov_proposal Accepted True False True) True log glog')"
    using ban_listing_run by blast
  show thesis
    by (rule that, rule protocol_run_reachable [OF c protocol_run_reachable [OF b
        protocol_run_reachable [OF a g]]])
qed

end
