(* ===== verification/Account_Keys.thy ===== *)
theory Account_Keys
  imports Recovery_Relay
begin

text \<open>
  The keys and bumps that the programs write into accounts but never read back: those of vote
  records, of recovery receipts and of the arbitration policy. Each sits at its own address in
  every reachable state.
\<close>


section \<open>Vote records\<close>

definition votes_keyed :: "env \<Rightarrow> 'z governance_chain_scheme \<Rightarrow> bool" where
  "votes_keyed env w \<longleftrightarrow> (\<forall>i k v. gv_votes w (i, k) = Some v \<longrightarrow>
     vr_voter v = k \<and> vr_proposal v = proposal_pda i \<and> vr_bump v = bump_of env (vote_record_pda i k))"

lemma governance_dispatch_votes:
  assumes "governance_dispatch env sv ix w = Inr w'" and "votes_keyed env w"
  shows "votes_keyed env w'"
proof (cases ix)
  case (IxCastVote voter pid in_favor role)
  with assms show ?thesis by (auto simp: votes_keyed_def elim!: cast_voteE split: if_splits)
next
  case (IxTallyAndFinalize pid)
  with assms show ?thesis by (auto simp: votes_keyed_def governance_world_simps elim!: tallyE)
next
  case (IxCreateProposal proposer mint tp account pid category title summary period action)
  with assms show ?thesis by (auto simp: votes_keyed_def governance_world_simps elim!: create_proposalE
        dest!: cpi_transfer_frame)
next
  case (IxRefundOrForfeitDeposit mint tp pid account)
  with assms show ?thesis by (auto simp: votes_keyed_def governance_world_simps elim!: refund_or_forfeitE
        dest!: cpi_transfer_frame split: if_splits)
next
  case (IxListWallet pid wallet)
  with assms show ?thesis by (auto simp: votes_keyed_def governance_world_simps elim!: list_walletE)
next
  case (IxDelistWallet pid wallet)
  with assms show ?thesis by (auto simp: votes_keyed_def governance_world_simps elim!: delist_walletE)
qed (use assms in \<open>auto simp: votes_keyed_def governance_handler_defs governance_guard_defs init_token_def
       Let_def governance_world_simps split: if_splits\<close>)

lemma votes_keyed_reachable:
  assumes "reachable governance_genesis (governance_step env) s"
  shows "votes_keyed env (snd s)"
  using assms
proof induction
  case (reachable_init s)
  then show ?case by (simp add: governance_genesis_def votes_keyed_def)
next
  case (reachable_step s s')
  from reachable_step(2) show ?case
  proof cases
    case governance_step_ix
    with reachable_step(3) show ?thesis by (auto intro: governance_dispatch_votes)
  next
    case governance_step_outside
    with reachable_step(3) show ?thesis by (simp add: governance_frame_def votes_keyed_def)
  qed
qed


section \<open>Recovery receipts\<close>

definition receipts_bumped :: "env \<Rightarrow> 'z staking_chain_scheme \<Rightarrow> bool" where
  "receipts_bumped env w \<longleftrightarrow> (\<forall>m r. sk_receipts w m = Some r \<longrightarrow>
     rr_bump r = bump_of env (stake_recovery_receipt_pda m))"

lemma staking_dispatch_receipts:
  assumes "staking_dispatch env sv ix w = Inr w'" and "receipts_bumped env w"
  shows "receipts_bumped env w'"
proof (cases ix)
  case (IxRecoverStakeShortfall addr mint tp claim)
  with assms(1) have "handle_recover_stake_shortfall env sv addr mint tp claim w = Inr w'" by simp
  then obtain m r where "sk_receipts w' = (sk_receipts w)(m \<mapsto> r)"
      "rr_bump r = bump_of env (stake_recovery_receipt_pda m)"
    by (auto simp: handle_recover_stake_shortfall_def load_defs Let_def staking_world_simps
        split: if_splits dest!: cpi_transfer_frame)
  with assms(2) show ?thesis by (simp add: receipts_bumped_def)
qed (use recovery_only_receipts [OF assms(1)] assms(2) in \<open>simp_all add: receipts_bumped_def\<close>)

lemma receipts_bumped_reachable:
  assumes "reachable staking_genesis (staking_step env) s"
  shows "receipts_bumped env (snd s)"
  using assms
proof induction
  case (reachable_init s)
  then show ?case by (simp add: staking_genesis_def receipts_bumped_def)
next
  case (reachable_step s s')
  from reachable_step(2) show ?case
  proof cases
    case staking_step_ix
    with reachable_step(3) show ?thesis by (auto intro: staking_dispatch_receipts)
  next
    case staking_step_outside
    with reachable_step(3) show ?thesis by (simp add: staking_frame_def receipts_bumped_def)
  qed
qed


section \<open>The arbitration policy\<close>

definition policy_bumped :: "env \<Rightarrow> 'z escrow_chain_scheme \<Rightarrow> bool" where
  "policy_bumped env w \<longleftrightarrow> (\<forall>p. es_policy w = Some p \<longrightarrow> ap_bump p = bump_of env arbitration_policy_pda)"

lemma execute_policy:
  assumes "handle_execute_dispute_outcome env sv a w = Inr w'"
  shows "es_policy w' = es_policy w"
proof -
  from assms obtain ctx ctx1 where load: "load_execute_ctx env a w = Inr ctx"
    and body: "execute_body env sv ctx = Inr ctx1" and w': "w' = store_execute_ctx a ctx1"
    by (auto simp: handle_execute_dispute_outcome_def)
  from load have "cx_world ctx = w" "\<not> dc_resolved (cx_dispute_case ctx)"
    unfolding load_execute_ctx_def Let_def trade_load_defs by auto
  with execute_body_advanced [OF body] show ?thesis
    by (auto simp: w' store_execute_ctx_def escrow_world_simps ctx_advanced_def)
qed

lemma record_shortfall_policy:
  "record_shortfall env rid seller mint shortfall now w = Inr w' \<Longrightarrow> es_policy w' = es_policy w"
  by (auto simp: record_shortfall_def Let_def escrow_world_simps split: if_splits)

lemma escrow_dispatch_policy:
  assumes "escrow_dispatch env sv ix w = Inr w'" and "policy_bumped env w"
  shows "policy_bumped env w'"
proof (cases ix)
  case (IxOpenDisputeCase k rid mint tp cw rw)
  with assms(1) have "handle_open_dispute_case env sv k rid mint tp cw rw w = Inr w'" by simp
  then have "es_policy w' = es_policy w"
    by (rule open_disputeE)
       (auto simp: escrow_world_simps dest!: take_deposit_frame record_shortfall_policy)
  with assms(2) show ?thesis by (simp add: policy_bumped_def)
next
  case (IxAbsorbStakeRecovery m mint)
  with assms(1) have "handle_absorb_stake_recovery env sv m mint w = Inr w'" by simp
  then have "es_policy w' = es_policy w" by (rule absorbE) (auto simp: escrow_world_simps)
  with assms(2) show ?thesis by (simp add: policy_bumped_def)
next
  case (IxExecuteDisputeOutcome a)
  with assms show ?thesis by (simp add: policy_bumped_def execute_policy [of env sv a w w'])
qed (use assms in \<open>auto simp: policy_bumped_def handle_initialize_fee_config_def
       handle_update_fee_config_def
       handle_initialize_arbitration_pool_def handle_publish_arbitrator_pool_size_def
       vault_handler_defs trade_handler_defs dispute_handler_defs trade_load_defs
       load_mint_token_def Let_def load_config_def load_arbitrator_stake_def
       load_open_reservation_def escrow_world_simps init_token_def simp del: transfer_each.simps
       dest!: cpi_transfer_frame transfer_each_frame release_frame close_frame take_deposit_frame
       split: if_splits\<close>)

lemma policy_bumped_reachable:
  assumes "reachable escrow_genesis (escrow_step env) s"
  shows "policy_bumped env (snd s)"
  using assms
proof induction
  case (reachable_init s)
  then show ?case by (simp add: escrow_genesis_def policy_bumped_def)
next
  case (reachable_step s s')
  from reachable_step(2) show ?case
  proof cases
    case escrow_step_ix
    with reachable_step(3) show ?thesis by (auto intro: escrow_dispatch_policy)
  next
    case escrow_step_outside
    with reachable_step(3) show ?thesis by (simp add: escrow_frame_def policy_bumped_def)
  qed
qed

end
