(* ===== verification/Protocol_Properties.thy ===== *)
theory Protocol_Properties
  imports Protocol_History Escrow_Access Account_Keys
begin

text \<open>
  Properties of the four programs together: that each program's runs are what the joint runs
  show of it, that accounts sit at the addresses they name, how a recovery passes between escrow
  and staking, and what a ban by governance closes in every program.
\<close>


section \<open>Composition\<close>

text \<open>
  C5. The protocol refines each program. A step of the protocol, an instruction of any of the four
  programs or a step of the rest of the chain, is a step of the staking program, of the escrow
  program, of the governance program and of the presale program, each taken alone with everything
  else as its environment; and a reachable state of the protocol is a reachable state of each.
\<close>

theorem protocol_refines_programs:
  fixes w :: "'z presale_chain_scheme"
  assumes "swap_env env swap"
  shows "(protocol_step env swap (t, w) (t', w') \<longrightarrow>
       staking_step env (t, w) (t', w') \<and> escrow_step env (t, w) (t', w')
       \<and> governance_step env (t, w) (t', w') \<and> presale_step env swap (t, w) (t', w'))
     \<and> (reachable protocol_genesis (protocol_step env swap) (t, w) \<longrightarrow>
       reachable staking_genesis (staking_step env) (t, w)
       \<and> reachable escrow_genesis (escrow_step env) (t, w)
       \<and> reachable governance_genesis (governance_step env) (t, w)
       \<and> reachable presale_genesis (presale_step env swap) (t, w))"
  using protocol_step_splits [OF assms] protocol_reachable_splits [OF assms] by blast

theorem protocol_refines_programs_witness:
  "\<exists>log elog. reachable staking_genesis (staking_step ref_env)
       (112, joint_disputed 30 30 [Key 1 \<mapsto> joint_receipt] log elog)
     \<and> reachable escrow_genesis (escrow_step ref_env)
       (112, joint_disputed 30 30 [Key 1 \<mapsto> joint_receipt] log elog)
     \<and> reachable governance_genesis (governance_step ref_env)
       (112, joint_disputed 30 30 [Key 1 \<mapsto> joint_receipt] log elog)
     \<and> reachable presale_genesis (presale_step ref_env ref_swap)
       (112, joint_disputed 30 30 [Key 1 \<mapsto> joint_receipt] log elog)"
proof (rule joint_reachable, goal_cases)
  case (1 log elog log1 elog1)
  from 1(2) show ?case
    using protocol_refines_programs [OF ref_swap.swap_env_axioms] by blast
qed


section \<open>The recovery relay\<close>

text \<open>
  C6. Between escrow and staking no unit is credited that was not recovered, and none recovered
  that was not owed. In every reachable state of the protocol, what escrow has credited on any of a
  merchant's claims is at most what the merchant's receipt in the staking program shows, and that
  is at most what escrow's claim in the staking mint records as owed.
\<close>

theorem recovery_relay_sound:
  assumes "swap_env env swap" and "account_layout env"
    and "reachable protocol_genesis (protocol_step env swap) (t, w)"
  shows "credited_of w merchant mint \<le> receipt_total w merchant
     \<and> (case sk_config w of
          None \<Rightarrow> receipt_total w merchant = 0
        | Some c \<Rightarrow> receipt_total w merchant \<le> claim_owed w merchant (sc_mint c))"
proof -
  have inv: "relay_inv w" by (rule relay_reachable [OF assms])
  have "credited_of w merchant mint \<le> receipt_total w merchant"
    using inv unfolding relay_inv_def by blast
  moreover have "case sk_config w of
      None \<Rightarrow> receipt_total w merchant = 0
    | Some c \<Rightarrow> receipt_total w merchant \<le> claim_owed w merchant (sc_mint c)"
  proof (cases "receipt_total w merchant = 0")
    case False
    then obtain c where "sk_config w = Some c"
        "receipt_total w merchant \<le> claim_owed w merchant (sc_mint c)"
      using relay_inv_owed [OF inv, of merchant] by blast
    then show ?thesis by simp
  qed (simp split: option.splits)
  ultimately show ?thesis by blast
qed

theorem recovery_relay_sound_witness:
  "\<exists>log elog. credited_of (joint_disputed 30 30 [Key 1 \<mapsto> joint_receipt] log elog) (Key 1) (Key 2) = 30
     \<and> receipt_total (joint_disputed 30 30 [Key 1 \<mapsto> joint_receipt] log elog) (Key 1) = 30
     \<and> 30 \<le> claim_owed (joint_disputed 30 30 [Key 1 \<mapsto> joint_receipt] log elog) (Key 1) (Key 2)"
proof (rule joint_reachable, goal_cases)
  case (1 log elog log1 elog1)
  have "credited_of (joint_disputed 30 30 [Key 1 \<mapsto> joint_receipt] log1 elog1) (Key 1) (Key 2) = 30"
    "receipt_total (joint_disputed 30 30 [Key 1 \<mapsto> joint_receipt] log1 elog1) (Key 1) = 30"
    "sk_config (joint_disputed 30 30 [Key 1 \<mapsto> joint_receipt] log1 elog1) = Some demo_config"
    by (simp_all add: credited_of_def receipt_total_def joint_disputed_def joint_claim_def
        joint_receipt_def joint_state_def)
  with recovery_relay_sound [OF ref_swap.swap_env_axioms ref_account_layout 1(2),
      of "Key 1" "Key 2"]
  have "30 \<le> claim_owed (joint_disputed 30 30 [Key 1 \<mapsto> joint_receipt] log1 elog1) (Key 1) (Key 2)"
    by (simp add: demo_config_def)
  with 1(2) show ?case
    by (intro exI [of _ log1] exI [of _ elog1])
       (simp add: credited_of_def receipt_total_def joint_disputed_def joint_claim_def joint_receipt_def)
qed


text \<open>
  C30. Staking reads exactly what escrow wrote. In every reachable state, for keys that survive the
  wire, the staking program's parser accepts the account at a claim's address, whether it exists
  or not, and finds the merchant, the mint and the debt the escrow program recorded; and the
  addresses it derives for the claim and for the merchant's vault are escrow's own.
\<close>

theorem claim_read_back:
  assumes "reachable escrow_genesis (escrow_step env) (t, w)"
    and "account_discriminator env ''StakeRecoveryClaim'' = STAKE_RECOVERY_CLAIM_DISCRIMINATOR"
    and "wire_key env merchant" and "wire_key env mint"
  shows "read_stake_recovery_claim env (claim_info env w merchant mint) merchant mint
       = Inr (case es_claims w (merchant, mint) of
           None \<Rightarrow> None
         | Some c \<Rightarrow> Some \<lparr> cv_merchant = merchant, cv_mint = mint, cv_owed_total = rc_owed_total c \<rparr>)
     \<and> stake_recovery_claim_pda merchant mint = recovery_claim_pda merchant mint
     \<and> merchant_open_token_vault_pda merchant mint = liquidity_tokens_pda merchant mint"
proof (cases "es_claims w (merchant, mint)")
  case None
  then show ?thesis by (simp add: claim_info_def recovery_addresses)
next
  case (Some c)
  with claims_keyed_reachable [OF assms(1)] have "rc_merchant c = merchant" "rc_mint c = mint"
    by (simp_all add: claims_keyed_def)
  with Some assms(2) have "read_stake_recovery_claim env (claim_info env w merchant mint) merchant mint
      = Inr (Some \<lparr> cv_merchant = merchant, cv_mint = mint, cv_owed_total = rc_owed_total c \<rparr>)"
    by (intro read_claim_bytes [OF assms(3,4)]) (simp_all add: claim_info_def claim_bytes_def)
  with Some show ?thesis by (simp add: recovery_addresses)
qed

theorem claim_read_back_witness:
  "\<exists>log elog. read_stake_recovery_claim ref_env
       (claim_info ref_env (joint_disputed 60 0 Map.empty log elog) (Key 1) (Key 2)) (Key 1) (Key 2)
     = Inr (Some \<lparr> cv_merchant = Key 1, cv_mint = Key 2, cv_owed_total = 30 \<rparr>)"
proof (rule joint_reachable, goal_cases)
  case (1 log elog log1 elog1)
  have "es_claims (joint_disputed 60 0 Map.empty log elog) (Key 1, Key 2) = Some (joint_claim 0)"
    by (simp add: joint_disputed_def)
  with claim_read_back [OF protocol_reachable_splits(2) [OF ref_swap.swap_env_axioms 1(1)]
      ref_claim_discriminator, of "Key 1" "Key 2"] show ?case
    by (auto simp: joint_claim_def)
qed


text \<open>
  C29. A merchant who withdraws unstaked tokens has paid. If a withdrawal from a merchant position
  succeeds in a reachable state, given the claim account that is at the claim's address, then what
  the staking program has recovered from this merchant is exactly what the escrow program's claim
  says the merchant owes.
\<close>

theorem merchant_exit_has_paid:
  assumes "swap_env env swap" and "account_layout env"
    and "reachable protocol_genesis (protocol_step env swap) (t, w)"
    and "handle_withdraw_unstaked env sv merchant (merchant, Merchant) to mint tp
           (claim_info env w merchant mint) w = Inr w'"
  shows "receipt_total w merchant = claim_owed w merchant mint"
proof -
  from assms(4) obtain cv n where
    r: "read_stake_recovery_claim env (claim_info env w merchant mint) merchant mint = Inr cv"
      "recovered_total_of env (receipt_info env w merchant) merchant = Inr n"
      "unat (owed_total_of cv) \<le> unat n"
    by (rule withdraw_unstakedE) auto
  from assms(4) obtain c where c: "sk_config w = Some c" "sc_mint c = mint"
    by (auto simp: handle_withdraw_unstaked_def load_defs)
  from r have le: "claim_owed w merchant mint \<le> receipt_total w merchant"
    using read_claim_owed [OF assms(2) r(1)] read_receipt_total [OF assms(2) r(2)] by simp
  have inv: "relay_inv w" by (rule relay_reachable [OF assms(1-3)])
  show ?thesis
  proof (cases "receipt_total w merchant = 0")
    case False
    then show ?thesis using relay_inv_owed [OF inv, of merchant] c le by fastforce
  qed (use le in simp)
qed

text \<open>The merchant of the history asks for the remaining thirty units back.\<close>

definition joint_leaving :: "StakingEvent list \<Rightarrow> EscrowEvent list \<Rightarrow> presale_chain" where
  "joint_leaving log elog = put_stake (Key 1, Merchant)
     ((joint_stake 0)\<lparr>sa_unbonding_amount := 30, sa_unbonding_release_at := 213, sa_first_staked_at := 0\<rparr>)
     (joint_disputed 30 30 [Key 1 \<mapsto> joint_receipt] log elog)"

lemma joint_leaving_run:
  "protocol_run ref_env ref_swap 112
     [(demo_sv 113, StakingIx (IxRequestUnstake (Key 1) (Key 1, Merchant) 30))]
     (joint_disputed 30 30 [Key 1 \<mapsto> joint_receipt] log elog) = Some (113, joint_leaving log elog)"
  by (simp add: joint_leaving_def joint_disputed_def joint_defs staking_eval checked_add_i64_def
      in_i64_def I64_MIN_def I64_MAX_def stop_empty_clock_def)

theorem merchant_exit_has_paid_witness:
  "\<exists>log elog w'. handle_withdraw_unstaked ref_env (demo_sv 213) (Key 1) (Key 1, Merchant) (Key 32)
       (Key 2) (Prog SplTokenProgram)
       (claim_info ref_env (joint_leaving log elog) (Key 1) (Key 2)) (joint_leaving log elog) = Inr w'
     \<and> receipt_total (joint_leaving log elog) (Key 1) = claim_owed (joint_leaving log elog) (Key 1) (Key 2)"
proof (rule joint_reachable, goal_cases)
  case (1 log elog log1 elog1)
  let ?w = "joint_leaving log1 elog1"
  have info: "claim_info ref_env ?w (Key 1) (Key 2)
      = \<lparr> ra_owner = ESCROW_PROGRAM_ID, ra_data = claim_bytes ref_env (joint_claim 30) \<rparr>"
    by (simp add: claim_info_def joint_leaving_def joint_disputed_def staking_world_simps)
  have read: "read_stake_recovery_claim ref_env (claim_info ref_env ?w (Key 1) (Key 2)) (Key 1) (Key 2)
      = Inr (Some \<lparr> cv_merchant = Key 1, cv_mint = Key 2, cv_owed_total = 30 \<rparr>)"
    by (rule read_claim_bytes)
       (simp_all add: info claim_bytes_def joint_claim_def ref_claim_discriminator)
  have "\<exists>n. recovered_total_of ref_env (receipt_info ref_env ?w (Key 1)) (Key 1) = Inr n
      \<and> unat n = receipt_total ?w (Key 1)"
    by (rule recovered_total_of_receipt_info)
       (use ref_account_layout in \<open>auto simp: joint_leaving_def joint_disputed_def joint_receipt_def
          staking_world_simps account_layout_def\<close>)
  moreover have "receipt_total ?w (Key 1) = 30"
    by (simp add: receipt_total_def joint_leaving_def joint_disputed_def joint_receipt_def
        staking_world_simps)
  ultimately have rec: "recovered_total_of ref_env (receipt_info ref_env ?w (Key 1)) (Key 1) = Inr 30"
    by (auto simp: word_unat_eq_iff)
  have "\<exists>w'. handle_withdraw_unstaked ref_env (demo_sv 213) (Key 1) (Key 1, Merchant) (Key 32) (Key 2)
      (Prog SplTokenProgram) (claim_info ref_env ?w (Key 1) (Key 2)) ?w = Inr w'"
    using read rec
    by (simp add: handle_withdraw_unstaked_def,
        simp add: joint_leaving_def joint_disputed_def joint_defs staking_eval owed_total_of_def
          outstanding_def saturating_sub_def)
  then obtain w' where w': "handle_withdraw_unstaked ref_env (demo_sv 213) (Key 1) (Key 1, Merchant)
      (Key 32) (Key 2) (Prog SplTokenProgram) (claim_info ref_env ?w (Key 1) (Key 2)) ?w = Inr w'" ..
  with merchant_exit_has_paid [OF ref_swap.swap_env_axioms ref_account_layout
      protocol_run_reachable [OF joint_leaving_run 1(2)] w'] show ?case by blast
qed



section \<open>Bans\<close>

text \<open>The wallet an instruction lets in: the one whose ban record it looks at.\<close>

fun entrant :: "protocol_ix \<Rightarrow> pubkey option" where
  "entrant (StakingIx (IxStake owner _ _ _ _ _)) = Some owner"
| "entrant (StakingIx (IxFundRewardsVault funder _ _ _ _)) = Some funder"
| "entrant (EscrowIx ix) = entry_signer ix"
| "entrant (GovernanceIx (IxCreateProposal proposer _ _ _ _ _ _ _ _ _)) = Some proposer"
| "entrant (PresaleIx (IxContributeUsdc buyer _ _ _ _)) = Some buyer"
| "entrant (PresaleIx (IxContributeWithSwap buyer _ _ _ _ _ _)) = Some buyer"
| "entrant (PresaleIx (IxDeliverContribution _ _ recipient _ _ _ _)) = Some recipient"
| "entrant _ = None"

lemma staking_entrant_refused:
  assumes "entrant (StakingIx ix) = Some k" and "banned w k"
  shows "staking_dispatch env sv ix w \<noteq> Inr w'"
  using assms by (cases ix) (auto simp: handle_stake_def handle_fund_rewards_vault_def load_defs)

lemma governance_entrant_refused:
  assumes "entrant (GovernanceIx ix) = Some k" and "banned w k"
  shows "governance_dispatch env sv ix w \<noteq> Inr w'"
  using assms by (cases ix) (auto simp: handle_create_proposal_def governance_guard_defs Let_def)

lemma deliver_to_banned_refused:
  assumes "banned w k"
  shows "handle_deliver_contribution env sv payer nonce k src utp otp amount w \<noteq> Inr w'"
proof
  assume "handle_deliver_contribution env sv payer nonce k src utp otp amount w = Inr w'"
  then show False by (rule deliver_contributionE) (use assms in \<open>simp add: credit_ok_def\<close>)
qed

lemma presale_entrant_refused:
  assumes "entrant (PresaleIx ix) = Some k" and "banned w k"
  shows "presale_dispatch env swap sv ix w \<noteq> Inr w'"
proof (cases ix)
  case (IxDeliverContribution payer nonce recipient src utp otp amount)
  with assms show ?thesis by (auto dest: deliver_to_banned_refused)
qed (use assms in \<open>auto simp: handle_contribute_usdc_def handle_contribute_with_swap_def
       presale_load_defs Let_def\<close>)

text \<open>
  C28. A wallet that governance has listed is shut out of every program. While the governance
  program keeps a ban record for a wallet, that wallet can neither stake nor fund rewards, neither
  deposit, reserve, open a trade nor open a dispute, nor create a proposal, nor buy or be
  delivered a purchase in a sale: every such instruction of the four programs fails. A wallet with
  no record is on no program's list.
\<close>

theorem listed_wallet_shut_out:
  assumes "swap_env env swap" and "reachable protocol_genesis (protocol_step env swap) (t, w)"
  shows "(gv_bans w k \<noteq> None \<and> entrant ix = Some k \<longrightarrow> protocol_dispatch env swap sv ix w = None)
     \<and> (gv_bans w k = None \<longrightarrow> \<not> wallet_is_banned (c_bans w k))"
proof -
  have "governance_inv env w"
    by (rule token_env.governance_reachable_inv [OF swap_env.axioms(1) [OF assms(1)]
        protocol_reachable_splits(3) [OF assms]])
  then have bans: "banned w k \<longleftrightarrow> gv_bans w k \<noteq> None"
    using governance_invD(6) by (fastforce simp: bans_inv_def wallet_is_banned_def split: option.splits)
  have "protocol_dispatch env swap sv ix w = None" if "entrant ix = Some k" "banned w k"
    using that staking_entrant_refused [of _ k w env sv] governance_entrant_refused [of _ k w env sv]
      presale_entrant_refused [of _ k w env swap sv] entry_refused [of _ k w env sv]
    by (cases ix) (fastforce split: sum.splits)+
  with bans show ?thesis by blast
qed

theorem listed_wallet_shut_out_witness:
  "\<exists>log glog. protocol_dispatch ref_env ref_swap (demo_sv 301)
       (StakingIx (IxStake (Key 6) (Key 6, Merchant) (Key 36) (Key 2) (Prog SplTokenProgram) 50))
       (ban_state (gov_proposal Accepted True False True) True log glog) = None
     \<and> protocol_dispatch ref_env ref_swap (demo_sv 301)
       (PresaleIx (IxContributeUsdc (Key 6) 0 (Key 36) (Prog SplTokenProgram) 30))
       (ban_state (gov_proposal Accepted True False True) True log glog) = None"
proof (rule ban_reachable)
  fix log glog
  let ?w = "ban_state (gov_proposal Accepted True False True) True log glog"
  assume r: "reachable protocol_genesis (protocol_step ref_env ref_swap) (300, ?w)"
  have "gv_bans ?w (Key 6) \<noteq> None" by (simp add: ban_state_def)
  then have "protocol_dispatch ref_env ref_swap (demo_sv 301) ix ?w = None"
    if "entrant ix = Some (Key 6)" for ix
    using that listed_wallet_shut_out [OF ref_swap.swap_env_axioms r] by blast
  from this [of "StakingIx _"] this [of "PresaleIx _"] show ?thesis
    by (intro exI [of _ log] exI [of _ glog] conjI) (simp_all only: entrant.simps)
qed


section \<open>Accounts at their addresses\<close>

definition well_keyed :: "env \<Rightarrow> 'z presale_chain_scheme \<Rightarrow> bool" where
  "well_keyed env w \<longleftrightarrow>
     (\<forall>c. sk_config w = Some c \<longrightarrow> sc_bump c = bump_of env staking_config_pda
        \<and> sc_stake_vault_bump c = bump_of env stake_vault_pda
        \<and> sc_rewards_vault_bump c = bump_of env rewards_vault_pda
        \<and> held (c_tokens w) stake_vault_pda (sc_mint c) staking_config_pda
        \<and> held (c_tokens w) rewards_vault_pda (sc_mint c) staking_config_pda)
     \<and> (\<forall>k role s. sk_stakes w (k, role) = Some s \<longrightarrow> sa_owner s = k \<and> sa_role s = role
        \<and> sa_bump s = bump_of env (stake_account_pda k role))
     \<and> (\<forall>m r. sk_receipts w m = Some r \<longrightarrow> rr_merchant r = m
        \<and> rr_bump r = bump_of env (stake_recovery_receipt_pda m))
     \<and> (\<forall>c. es_fee_config w = Some c \<longrightarrow> fc_bump c = bump_of env fee_config_pda)
     \<and> (\<forall>p. es_policy w = Some p \<longrightarrow> ap_bump p = bump_of env arbitration_policy_pda)
     \<and> (\<forall>a. c_tokens w arbitration_pool_pda = Some a \<longrightarrow>
          ta_owner a = fee_config_pda \<and> ta_delegate a = None)
     \<and> (\<forall>m mint v. es_vaults w (m, mint) = Some v \<longrightarrow> lv_merchant v = m \<and> lv_mint v = mint
        \<and> lv_bump v = bump_of env (liquidity_vault_pda m mint)
        \<and> lv_token_vault_bump v = bump_of env (liquidity_tokens_pda m mint)
        \<and> held (c_tokens w) (liquidity_tokens_pda m mint) mint (liquidity_vault_pda m mint))
     \<and> (\<forall>i e. es_trades w i = Some e \<longrightarrow> te_reservation_id e = i
        \<and> te_bump e = bump_of env (trade_escrow_pda i)
        \<and> es_vaults w (te_seller e, te_mint e) \<noteq> None
        \<and> held (c_tokens w) (trade_tokens_pda i) (te_mint e) (trade_escrow_pda i))
     \<and> (\<forall>i d. es_cases w i = Some d \<longrightarrow> dc_reservation_id d = i
        \<and> dc_bump d = bump_of env (dispute_case_pda i) \<and> dc_trade_escrow d = trade_escrow_pda i
        \<and> es_trades w i \<noteq> None
        \<and> held (c_tokens w) arbitration_pool_pda (dc_deposit_mint d) fee_config_pda)
     \<and> (\<forall>m mint c. es_claims w (m, mint) = Some c \<longrightarrow> rc_merchant c = m \<and> rc_mint c = mint
        \<and> rc_bump c = bump_of env (recovery_claim_pda m mint))
     \<and> (\<forall>c. gv_config w = Some c \<longrightarrow> gc_bump c = bump_of env governance_config_pda
        \<and> gc_deposit_vault_bump c = bump_of env deposit_vault_pda
        \<and> held (c_tokens w) deposit_vault_pda (gc_mint c) governance_config_pda)
     \<and> (\<forall>a. gv_emergency w = Some a \<longrightarrow> ea_bump a = bump_of env emergency_authority_pda)
     \<and> (\<forall>i p. gv_proposals w i = Some p \<longrightarrow> pr_id p = i \<and> pr_bump p = bump_of env (proposal_pda i)
        \<and> (\<exists>a. gv_actions w i = Some a \<and> pa_proposal a = proposal_pda i
              \<and> pa_bump a = bump_of env (proposal_action_pda i)))
     \<and> (\<forall>i k v. gv_votes w (i, k) = Some v \<longrightarrow> vr_voter v = k \<and> vr_proposal v = proposal_pda i
        \<and> vr_bump v = bump_of env (vote_record_pda i k) \<and> gv_proposals w i \<noteq> None)
     \<and> (\<forall>k r. gv_bans w k = Some r \<longrightarrow> br_wallet r = k \<and> br_bump r = bump_of env (ban_record_pda k))
     \<and> (\<forall>n s. ps_sales w n = Some s \<longrightarrow> sl_bump s = bump_of env (sale_config_pda n)
        \<and> sl_usdc_vault s = sale_usdc_vault_pda n
        \<and> sl_usdc_vault_bump s = bump_of env (sale_usdc_vault_pda n)
        \<and> held (c_tokens w) (sale_usdc_vault_pda n) (sl_usdc_mint s) (sale_config_pda n))
     \<and> (\<forall>n k c. ps_contributions w (n, k) = Some c \<longrightarrow> cb_buyer c = k
        \<and> cb_bump c = bump_of env (contribution_pda n k) \<and> ps_sales w n \<noteq> None)"

text \<open>
  C31. Every account is of its type and at its own address. In every reachable state each account
  the four programs keep (the staking, fee and governance configurations, the arbitration policy
  and the emergency authority; stakes, receipts, vaults, trades, cases, claims, proposals, actions,
  votes, bans, sales and contributions) carries the keys it is addressed by and the bump of its
  address; the stake, rewards, deposit, vault, trade, pool and sale token accounts have the
  recorded mint and are owned, with no delegate, by the program's own address; and what an account
  refers to exists.
\<close>

theorem accounts_well_keyed:
  assumes "swap_env env swap" and "reachable protocol_genesis (protocol_step env swap) (t, w)"
  shows "well_keyed env w"
proof -
  have T: "token_env env" by (rule swap_env.axioms(1) [OF assms(1)])
  note r = protocol_reachable_splits [OF assms]
  have s: "staking_inv env t w" by (rule token_env.staking_reachable_inv [OF T r(1)])
  have e: "escrow_inv env w" by (rule token_env.escrow_reachable_inv [OF T r(2)])
  have g: "governance_inv env w" by (rule token_env.governance_reachable_inv [OF T r(3)])
  have p: "sale_inv env n (ps_sales w n) (\<lambda>k. ps_contributions w (n, k)) (c_tokens w) (ps_log w)" for n
    using swap_env.presale_reachable_inv [OF assms(1) r(4)] by (rule presale_invD)
  show ?thesis
    unfolding well_keyed_def
  proof (intro conjI, goal_cases)
    case 1 then show ?case
      using s by (auto simp: staking_inv_def vaults_ok_def config_ok_def vault_ok_def held_def)
  next
    case 2 then show ?case using staking_inv_stake_ok [OF s] by (fastforce simp: stake_ok_def)
  next
    case 3 then show ?case
      using s receipts_bumped_reachable [OF r(1)] by (simp add: staking_inv_def receipts_ok_def receipts_bumped_def)
  next
    case 4 then show ?case using escrow_invD(1) [OF e] by (auto simp: fee_config_inv_def)
  next
    case 5 then show ?case using policy_bumped_reachable [OF r(2)] by (simp add: policy_bumped_def)
  next
    case 6 then show ?case using escrow_invD(7) [OF e] by (fastforce simp: pool_account_inv_def held_def)
  next
    case 7 then show ?case
      using escrow_invD(2) [OF e] by (fastforce simp: vaults_inv_def vault_inv_def)
  next
    case 8 then show ?case
      using escrow_invD(3) [OF e] by (fastforce simp: trades_inv_def trade_inv_def)
  next
    case 9 then show ?case
      using escrow_invD(5) [OF e] by (fastforce simp: cases_inv_def case_inv_def)
  next
    case 10 then show ?case using claims_keyed_reachable [OF r(2)] by (simp add: claims_keyed_def)
  next
    case 11 then show ?case
      using governance_invD(1) [OF g] by (auto simp: deposit_vault_ok_def governance_config_ok_def)
  next
    case 12 then show ?case using governance_invD(2) [OF g] by (auto simp: emergency_ok_def)
  next
    case 13 then show ?case using governance_inv_proposal [OF g] by (fastforce simp: proposal_ok_def)
  next
    case 14 then show ?case
      using governance_invD(4) [OF g] votes_keyed_reachable [OF r(3)]
      by (fastforce simp: votes_inv_def votes_keyed_def split: option.splits)
  next
    case 15 then show ?case
      using governance_invD(6) [OF g] by (fastforce simp: bans_inv_def split: option.splits)
  next
    case 16
    have "sl_bump s = bump_of env (sale_config_pda n) \<and> sl_usdc_vault s = sale_usdc_vault_pda n
        \<and> sl_usdc_vault_bump s = bump_of env (sale_usdc_vault_pda n)
        \<and> held (c_tokens w) (sale_usdc_vault_pda n) (sl_usdc_mint s) (sale_config_pda n)"
      if "ps_sales w n = Some s" for n s
      using p [of n] that by (simp add: sale_inv_def sale_ok_def)
    then show ?case by blast
  next
    case 17
    have "cb_buyer c = k \<and> cb_bump c = bump_of env (contribution_pda n k) \<and> ps_sales w n \<noteq> None"
      if "ps_contributions w (n, k) = Some c" for n k c
      using p [of n] that
      by (cases "ps_sales w n") (auto simp: sale_inv_def contribution_ok_def dest: fun_cong [of _ _ k])
    then show ?case by blast
  qed
qed

theorem accounts_well_keyed_witness:
  "\<exists>log elog. well_keyed ref_env (joint_disputed 60 0 Map.empty log elog)
     \<and> es_claims (joint_disputed 60 0 Map.empty log elog) (Key 1, Key 2) = Some (joint_claim 0)"
proof (rule joint_reachable, goal_cases)
  case (1 log elog log1 elog1)
  from accounts_well_keyed [OF ref_swap.swap_env_axioms 1(1)] show ?case
    by (intro exI [of _ log] exI [of _ elog]) (simp add: joint_disputed_def)
qed

end
