(* ===== verification/Float64.thy ===== *)
theory Float64
  imports Prelude "HOL-Library.Log_Nat"
begin

text \<open>
  Rust's \<open>f64\<close> as far as the node's pricing code uses it: IEEE 754 binary64 with rounding to
  nearest, ties to even. A finite value is the rational number it denotes, so that every
  operation is the exact operation followed by one rounding. The sign of a zero is not kept:
  no comparison, conversion or rounding of the modelled code can tell the two zeros apart.
  \<open>powi\<close> is the square-and-multiply loop the compiler emits for it.
\<close>


section \<open>Rounding\<close>

text \<open>The nearest integer, the even one of two equally near.\<close>

definition round_even :: "rat \<Rightarrow> int" where
  "round_even x =
     (let f = \<lfloor>x\<rfloor>; d = x - of_int f
      in if d < 1 / 2 then f else if 1 / 2 < d then f + 1 else if even f then f else f + 1)"

definition pow2 :: "int \<Rightarrow> rat" where
  "pow2 e = 2 powi e"

text \<open>\<open>\<lfloor>log2 |x|\<rfloor>\<close> of a nonzero rational, from the bit lengths of numerator and denominator.\<close>

definition log2_floor :: "rat \<Rightarrow> int" where
  "log2_floor x =
     (let (p, q) = quotient_of \<bar>x\<bar>; e = bitlen p - bitlen q
      in if pow2 e \<le> \<bar>x\<bar> then e else e - 1)"

datatype f64 = NaN | Inf bool | Fin rat

definition f64_round :: "rat \<Rightarrow> f64" where
  "f64_round x =
     (if x = 0 then Fin 0
      else let e = max (log2_floor x) (- 1022);
               ulp = pow2 (e - 52);
               y = of_int (round_even (x / ulp)) * ulp
           in if 2 ^ 1024 \<le> \<bar>y\<bar> then Inf (y < 0) else Fin y)"


section \<open>Operations\<close>

fun f64_add :: "f64 \<Rightarrow> f64 \<Rightarrow> f64" where
  "f64_add (Fin x) (Fin y) = f64_round (x + y)"
| "f64_add (Inf s) (Inf t) = (if s = t then Inf s else NaN)"
| "f64_add (Inf s) (Fin y) = Inf s"
| "f64_add (Fin x) (Inf t) = Inf t"
| "f64_add NaN b = NaN"
| "f64_add a NaN = NaN"

fun f64_mul :: "f64 \<Rightarrow> f64 \<Rightarrow> f64" where
  "f64_mul (Fin x) (Fin y) = f64_round (x * y)"
| "f64_mul (Inf s) (Inf t) = Inf (s \<noteq> t)"
| "f64_mul (Inf s) (Fin y) = (if y = 0 then NaN else Inf (s \<noteq> (y < 0)))"
| "f64_mul (Fin x) (Inf t) = (if x = 0 then NaN else Inf (t \<noteq> (x < 0)))"
| "f64_mul NaN b = NaN"
| "f64_mul a NaN = NaN"

text \<open>Division by a nonzero constant, the only division the pricing code has.\<close>

fun f64_div_const :: "f64 \<Rightarrow> rat \<Rightarrow> f64" where
  "f64_div_const (Fin x) c = f64_round (x / c)"
| "f64_div_const (Inf s) c = Inf (s \<noteq> (c < 0))"
| "f64_div_const NaN c = NaN"

fun is_finite :: "f64 \<Rightarrow> bool" where
  "is_finite (Fin x) = True"
| "is_finite _ = False"

fun f64_less_zero :: "f64 \<Rightarrow> bool" where
  "f64_less_zero (Fin x) = (x < 0)"
| "f64_less_zero (Inf s) = s"
| "f64_less_zero NaN = False"

fun round_ties_even :: "f64 \<Rightarrow> f64" where
  "round_ties_even (Fin x) = Fin (of_int (round_even x))"
| "round_ties_even a = a"

function f64_powi_loop :: "f64 \<Rightarrow> f64 \<Rightarrow> nat \<Rightarrow> f64" where
  "f64_powi_loop r a b =
     (let r = (if odd b then f64_mul r a else r); b = b div 2
      in if b = 0 then r else f64_powi_loop r (f64_mul a a) b)"
  by auto
termination by (relation "measure (\<lambda>(r, a, b). b)") auto

definition f64_powi :: "f64 \<Rightarrow> nat \<Rightarrow> f64" where
  "f64_powi a b = f64_powi_loop (Fin 1) a b"

declare f64_powi_loop.simps [simp del]


section \<open>What rounding guarantees\<close>

lemma round_even_error: "\<bar>of_int (round_even x) - x\<bar> \<le> 1 / 2"
proof -
  have "of_int \<lfloor>x\<rfloor> \<le> x" "x < of_int \<lfloor>x\<rfloor> + 1" by linarith+
  then show ?thesis by (auto simp: round_even_def Let_def)
qed

lemma round_even_of_int [simp]: "round_even (of_int n) = n"
  by (simp add: round_even_def Let_def)

lemma round_even_nonneg: "0 \<le> x \<Longrightarrow> 0 \<le> round_even x"
  by (auto simp: round_even_def Let_def)

lemma round_even_tie:
  assumes "x = of_int n + 1 / 2"
  shows "even (round_even x)"
proof -
  have "\<lfloor>x\<rfloor> = n" using assms by linarith
  with assms show ?thesis by (auto simp: round_even_def Let_def)
qed

lemma round_even_mono:
  assumes "x \<le> y" shows "round_even x \<le> round_even y"
proof -
  have "of_int (round_even x) - x \<le> 1 / 2" "y - of_int (round_even y) \<le> 1 / 2"
    using round_even_error [of x] round_even_error [of y] by linarith+
  show ?thesis
  proof (rule ccontr)
    assume "\<not> ?thesis"
    then have gap: "of_int (round_even y) + 1 \<le> (of_int (round_even x) :: rat)"
      by (metis int_one_le_iff_zero_less linorder_not_le of_int_1 of_int_add of_int_le_iff
          zle_add1_eq_le add.commute zless_add1_eq order_le_less add1_zle_eq)
    have ex: "of_int (round_even x) = x + 1 / 2" and ey: "of_int (round_even y) = y - 1 / 2"
      and "x = y"
      using gap assms round_even_error [of x] round_even_error [of y] by linarith+
    then show False using gap by simp
  qed
qed

lemma pow2_pos [simp]: "0 < pow2 e"
  by (simp add: pow2_def)

lemma pow2_nonneg [simp]: "0 \<le> pow2 e"
  by (simp add: pow2_def)

lemma pow2_nonzero [simp]: "pow2 e \<noteq> 0"
  by (simp add: pow2_def)

lemma pow2_add: "pow2 (a + b) = pow2 a * pow2 b"
  by (simp add: pow2_def power_int_add)

lemma pow2_of_nat: "pow2 (int n) = 2 ^ n"
  by (simp add: pow2_def)

lemma pow2_mono: "a \<le> b \<Longrightarrow> pow2 a \<le> pow2 b"
  by (simp add: pow2_def power_int_increasing)

text \<open>The exponent found is the right one.\<close>

lemma bitlen_bracket:
  assumes "0 < p"
  shows "pow2 (bitlen p - 1) \<le> of_int p" "of_int p < pow2 (bitlen p)"
proof -
  obtain n where n: "bitlen p = int n" by (metis bitlen_nonneg nonneg_int_cases)
  have b: "2 ^ nat (bitlen p - 1) \<le> p" "p < 2 ^ nat (bitlen p)"
    using bitlen_bounds [OF assms] by auto
  with assms n have n0: "0 < n" by (cases n) auto
  have "pow2 (bitlen p - 1) = of_int (2 ^ nat (bitlen p - 1))"
    using n n0 pow2_of_nat [of "n - 1"] by (simp add: of_nat_diff nat_diff_distrib)
  with b(1) show "pow2 (bitlen p - 1) \<le> of_int p" by (simp only: of_int_le_iff)
  have "pow2 (bitlen p) = of_int (2 ^ nat (bitlen p))"
    using n pow2_of_nat [of n] by simp
  with b(2) show "of_int p < pow2 (bitlen p)" by (simp only: of_int_less_iff)
qed

lemma log2_floor_bracket:
  assumes "x \<noteq> 0"
  shows "pow2 (log2_floor x) \<le> \<bar>x\<bar>" "\<bar>x\<bar> < pow2 (log2_floor x + 1)"
proof -
  obtain p q where pq: "quotient_of \<bar>x\<bar> = (p, q)" by (cases "quotient_of \<bar>x\<bar>")
  have q: "0 < q" using quotient_of_denom_pos [OF pq] .
  have x: "\<bar>x\<bar> = of_int p / of_int q" using quotient_of_div [OF pq] .
  have "0 < of_int p / (of_int q :: rat)" using assms by (simp flip: x)
  with q have p: "0 < p" by (simp add: zero_less_divide_iff)
  let ?e = "bitlen p - bitlen q"
  note P = bitlen_bracket [OF p] and Q = bitlen_bracket [OF q]
  have up: "\<bar>x\<bar> < pow2 (?e + 1)"
  proof -
    have "\<bar>x\<bar> < pow2 (bitlen p) / of_int q"
      unfolding x using P(2) q by (intro divide_strict_right_mono) auto
    also have "\<dots> \<le> pow2 (bitlen p) / pow2 (bitlen q - 1)"
      using Q(1) q by (intro divide_left_mono) auto
    also have "\<dots> = pow2 (?e + 1)"
      using pow2_add [of "?e + 1" "bitlen q - 1"] by (simp add: field_simps)
    finally show ?thesis .
  qed
  have low: "pow2 (?e - 1) \<le> \<bar>x\<bar>"
  proof -
    have "pow2 (?e - 1) = pow2 (bitlen p - 1) / pow2 (bitlen q)"
      using pow2_add [of "?e - 1" "bitlen q"] by (simp add: field_simps)
    also have "\<dots> \<le> pow2 (bitlen p - 1) / of_int q"
      using Q(2) q by (intro divide_left_mono) auto
    also have "\<dots> \<le> \<bar>x\<bar>"
      unfolding x using P(1) q by (intro divide_right_mono) auto
    finally show ?thesis .
  qed
  show "pow2 (log2_floor x) \<le> \<bar>x\<bar>" "\<bar>x\<bar> < pow2 (log2_floor x + 1)"
    using up low by (auto simp: log2_floor_def pq Let_def)
qed

text \<open>One rounding is off by at most half a unit in the last place: relative error \<open>2 ^ -53\<close>
  wherever the exponent does not underflow.\<close>

lemma f64_round_error:
  assumes "f64_round x = Fin y" and "pow2 (- 1022) \<le> \<bar>x\<bar> \<or> x = 0"
  shows "\<bar>y - x\<bar> \<le> \<bar>x\<bar> / 2 ^ 53"
proof (cases "x = 0")
  case True
  with assms show ?thesis by (simp add: f64_round_def)
next
  case False
  let ?e = "max (log2_floor x) (- 1022)" and ?u = "pow2 (max (log2_floor x) (- 1022) - 52)"
  have y: "y = of_int (round_even (x / ?u)) * ?u"
    using assms(1) False by (simp add: f64_round_def Let_def split: if_splits)
  have "pow2 ?e \<le> \<bar>x\<bar>"
    using log2_floor_bracket(1) [OF False] assms(2) False by (auto simp: max_def)
  moreover have "?u = pow2 ?e / 2 ^ 52"
    using pow2_add [of "?e - 52" "int 52"] pow2_of_nat [of 52] by simp
  ultimately have u: "?u \<le> \<bar>x\<bar> / 2 ^ 52" by (simp add: divide_right_mono)
  have "y - x = (of_int (round_even (x / ?u)) - x / ?u) * ?u"
    unfolding y using pow2_pos [of "max (log2_floor x) (- 1022) - 52"]
    by (simp add: left_diff_distrib del: pow2_pos)
  then have "\<bar>y - x\<bar> = \<bar>of_int (round_even (x / ?u)) - x / ?u\<bar> * ?u"
    using pow2_nonneg [of "max (log2_floor x) (- 1022) - 52"] by (simp add: abs_mult)
  also have "\<dots> \<le> 1 / 2 * ?u"
    by (intro mult_right_mono round_even_error) simp
  also have "\<dots> \<le> \<bar>x\<bar> / 2 ^ 53" using u by simp
  finally show ?thesis .
qed

text \<open>A number with at most 53 significant bits is its own rounding.\<close>

lemma f64_round_exact:
  assumes x: "x = of_int m * pow2 k" and m: "\<bar>m\<bar> < 2 ^ 53" and k: "- 1074 \<le> k"
    and top: "\<bar>x\<bar> < 2 ^ 1024"
  shows "f64_round x = Fin x"
proof (cases "x = 0")
  case False
  let ?e = "max (log2_floor x) (- 1022)" and ?u = "pow2 (max (log2_floor x) (- 1022) - 52)"
  have "of_int \<bar>m\<bar> < (of_int (2 ^ 53) :: rat)" using m by (simp only: of_int_less_iff)
  then have "\<bar>x\<bar> < 2 ^ 53 * pow2 k"
    unfolding x by (simp add: abs_mult)
  also have "\<dots> = pow2 (53 + k)" using pow2_add [of 53 k] pow2_of_nat [of 53] by simp
  finally have lt: "\<bar>x\<bar> < pow2 (53 + k)" .
  have "?e - 52 \<le> k"
  proof (rule ccontr)
    assume "\<not> ?e - 52 \<le> k"
    with k have "53 + k \<le> log2_floor x" by (auto simp: max_def split: if_splits)
    then have "pow2 (53 + k) \<le> \<bar>x\<bar>"
      using log2_floor_bracket(1) [OF False] pow2_mono order_trans by blast
    with lt show False by simp
  qed
  then obtain n where n: "k = (?e - 52) + int n" by (metis zle_iff_zadd)
  define u where "u = ?u"
  have "pow2 k = u * 2 ^ n"
    using pow2_add [of "?e - 52" "int n"] pow2_of_nat [of n] n by (simp add: u_def)
  then have xu: "of_int (m * 2 ^ n) * u = x" by (simp add: x)
  then have "x / u = of_int (m * 2 ^ n)" by (auto simp: field_simps u_def)
  then have "round_even (x / u) = m * 2 ^ n" by (simp only: round_even_of_int)
  moreover note xu
  ultimately show ?thesis
    using False top by (simp add: f64_round_def Let_def flip: u_def)
qed (simp add: f64_round_def)

lemma f64_round_pow10:
  assumes "d \<le> 22" shows "f64_round (10 ^ d) = Fin (10 ^ d)"
proof (rule f64_round_exact [where m = "5 ^ d" and k = "int d"])
  show "10 ^ d = of_int (5 ^ d) * pow2 (int d)"
    by (simp add: pow2_of_nat flip: power_mult_distrib)
  have "(5 :: int) ^ d \<le> 5 ^ 22" using assms by (intro power_increasing) auto
  then show "\<bar>5 ^ d\<bar> < (2 ^ 53 :: int)" by simp
  have "(10 :: rat) ^ d \<le> 10 ^ 22" using assms by (intro power_increasing) auto
  also have "\<dots> < 2 ^ 1024" by simp
  finally show "\<bar>10 ^ d\<bar> < (2 ^ 1024 :: rat)" by simp
qed simp

lemma f64_powi_loop_pow10:
  "i + j * b \<le> 22 \<Longrightarrow> f64_powi_loop (Fin (10 ^ i)) (Fin (10 ^ j)) b = Fin (10 ^ (i + j * b))"
proof (induction b arbitrary: i j rule: less_induct)
  case (less b)
  let ?i = "if odd b then i + j else i" and ?b = "b div 2"
  have b: "b = (if odd b then 1 else 0) + 2 * ?b" by simp
  have sum: "?i + (2 * j) * ?b = i + j * b"
    by (subst (3) b) (simp add: algebra_simps)
  have i: "?i \<le> 22" using sum less.prems by linarith
  have step: "(if odd b then f64_mul (Fin (10 ^ i)) (Fin (10 ^ j)) else Fin (10 ^ i)) = Fin (10 ^ ?i)"
    using i by (auto simp: f64_round_pow10 simp flip: power_add)
  show ?case
  proof (cases "?b = 0")
    case True
    with sum step show ?thesis by (subst f64_powi_loop.simps) (simp add: Let_def)
  next
    case False
    then have "2 * j \<le> 22" using sum less.prems
      by (metis One_nat_def Suc_leI add_leD2 bot_nat_0.not_eq_extremum mult_le_mono2 nat_mult_1_right
          order_trans)
    then have "f64_mul (Fin (10 ^ j)) (Fin (10 ^ j)) = Fin (10 ^ (2 * j))"
      by (simp add: f64_round_pow10 mult_2 flip: power_add)
    moreover have "f64_powi_loop (Fin (10 ^ ?i)) (Fin (10 ^ (2 * j))) ?b = Fin (10 ^ (i + j * b))"
      using less.IH [of ?b ?i "2 * j"] sum False less.prems by simp
    ultimately show ?thesis
      using step False by (subst f64_powi_loop.simps) (simp add: Let_def)
  qed
qed

lemma f64_powi_pow10: "d \<le> 22 \<Longrightarrow> f64_powi (Fin 10) d = Fin (10 ^ d)"
  using f64_powi_loop_pow10 [of 0 1 d] by (simp add: f64_powi_def)

text \<open>A finite result comes from finite operands.\<close>

lemma f64_mul_Fin:
  assumes "f64_mul a b = Fin s"
  obtains x y where "a = Fin x" "b = Fin y" "f64_round (x * y) = Fin s"
  using assms by (cases "(a, b)" rule: f64_mul.cases) (auto split: if_splits)

lemma f64_add_Fin:
  assumes "f64_add a b = Fin s"
  obtains x y where "a = Fin x" "b = Fin y" "f64_round (x + y) = Fin s"
  using assms by (cases "(a, b)" rule: f64_add.cases) (auto split: if_splits)

lemma normal_range: "1 / 10 ^ 20 \<le> \<bar>x\<bar> \<Longrightarrow> pow2 (- 1022) \<le> \<bar>x\<bar>"
proof -
  assume "1 / 10 ^ 20 \<le> \<bar>x\<bar>"
  moreover have "pow2 (- 1022) \<le> pow2 (- 100)" by (rule pow2_mono) simp
  moreover have "pow2 (- 100) * pow2 100 = 1" using pow2_add [of "- 100" 100] by (simp add: pow2_def)
  then have "pow2 (- 100) = 1 / 2 ^ 100" using pow2_of_nat [of 100] by (simp add: field_simps)
  moreover have "(1 / 2 ^ 100 :: rat) \<le> 1 / 10 ^ 20" by simp
  ultimately show ?thesis by linarith
qed

end
