(* ===== verification/Node_Base.thy ===== *)
theory Node_Base
  imports Float64 "HOL-Library.Char_ord" "HOL-Library.List_Lexorder"
begin

text \<open>
  What the crates of the peer-to-peer node share: amounts and timestamps (\<open>crates/types\<close>), the
  in-memory key-value store and the registry pattern every crate lays over it
  (\<open>crates/storage\<close>), and the domain-separated bytes every signed event is signed over
  (\<open>crates/serialization\<close>).

  Identities, public keys and signatures are modelled by their base58 spelling, which is what
  they serialize to. The signature scheme, SHA-256, the derivation of a peer id from a key, and
  the JSON and wire encoders are third-party code: they are the fields of \<open>node_env\<close>.
\<close>


section \<open>Outcomes\<close>

text \<open>
  An operation of the node refuses with one of its crate's errors or panics (the workspace
  builds with \<open>overflow-checks = true\<close>).
\<close>

datatype 'e node_error = Refused 'e | NodePanic

definition lift_refused :: "'e + 'a \<Rightarrow> 'e node_error + 'a" where
  "lift_refused r = (case r of Inl e \<Rightarrow> Inl (Refused e) | Inr x \<Rightarrow> Inr x)"

lemma lift_refused_Inr [simp]: "lift_refused r = Inr x \<longleftrightarrow> r = Inr x"
  by (auto simp: lift_refused_def split: sum.splits)

lemma lift_refused_value [simp]: "lift_refused (Inr x) = Inr x"
  by (simp add: lift_refused_def)

fun is_ok :: "'e + 'a \<Rightarrow> bool" where
  "is_ok (Inl e) = False"
| "is_ok (Inr x) = True"

lemma is_ok_iff: "is_ok r \<longleftrightarrow> (\<exists>x. r = Inr x)"
  by (cases r) auto

text \<open>\<open>let _ = op(..)\<close>: the result is dropped, so a refused operation leaves the state as it was.\<close>

definition ignore_error :: "('e + 's) \<Rightarrow> 's \<Rightarrow> 's" where
  "ignore_error r s = (case r of Inl e \<Rightarrow> s | Inr s' \<Rightarrow> s')"

lemma ignore_error_Inr [simp]: "ignore_error (Inr s') s = s'"
  by (simp add: ignore_error_def)

lemma ignore_error_Inl [simp]: "ignore_error (Inl e) s = s"
  by (simp add: ignore_error_def)


section \<open>Amounts and timestamps\<close>

record Amount =
  base_units :: u64
  decimals :: u8

definition amount_checked_add :: "Amount \<Rightarrow> Amount \<Rightarrow> Amount option" where
  "amount_checked_add a b =
     (if decimals a = decimals b
      then map_option (\<lambda>u. \<lparr>base_units = u, decimals = decimals a\<rparr>)
             (checked_add (base_units a) (base_units b))
      else None)"

definition amount_checked_sub :: "Amount \<Rightarrow> Amount \<Rightarrow> Amount option" where
  "amount_checked_sub a b =
     (if decimals a = decimals b
      then map_option (\<lambda>u. \<lparr>base_units = u, decimals = decimals a\<rparr>)
             (checked_sub (base_units a) (base_units b))
      else None)"

type_synonym timestamp = u64
type_synonym peer_id = string
type_synonym public_key = string
type_synonym signature = string

abbreviation units :: "Amount \<Rightarrow> nat" where
  "units a \<equiv> unat (base_units a)"

lemma amount_checked_add_Some [num_simps]:
  "amount_checked_add a b = Some c
     \<longleftrightarrow> decimals a = decimals b \<and> decimals c = decimals a \<and> units c = units a + units b"
  by (cases c) (auto simp: amount_checked_add_def num_simps)

lemma amount_checked_sub_Some [num_simps]:
  "amount_checked_sub a b = Some c
     \<longleftrightarrow> decimals a = decimals b \<and> decimals c = decimals a \<and> units a = units b + units c"
  by (cases c) (auto simp: amount_checked_sub_def num_simps)

lemma amount_checked_add_fits:
  assumes "decimals a = decimals b" "units a + units b < 2 ^ 64"
  obtains c where "amount_checked_add a b = Some c" "decimals c = decimals a"
    "units c = units a + units b"
  using assms by (auto simp: amount_checked_add_def checked_add_def unat_word_ariths)


section \<open>Ordered maps\<close>

text \<open>
  A \<open>BTreeMap\<close> is the list of its entries in key order. Looking a key up is \<open>map_of\<close>.
\<close>

type_synonym ('k, 'v) btree = "('k \<times> 'v) list"

fun bt_insert :: "'k::linorder \<Rightarrow> 'v \<Rightarrow> ('k, 'v) btree \<Rightarrow> ('k, 'v) btree" where
  "bt_insert k v [] = [(k, v)]"
| "bt_insert k v (e # es) =
     (if fst e < k then e # bt_insert k v es
      else if k < fst e then (k, v) # e # es
      else (k, v) # es)"

definition bt_remove :: "'k \<Rightarrow> ('k, 'v) btree \<Rightarrow> ('k, 'v) btree" where
  "bt_remove k es = filter (\<lambda>e. fst e \<noteq> k) es"

definition bt_wf :: "('k::linorder, 'v) btree \<Rightarrow> bool" where
  "bt_wf es \<longleftrightarrow> sorted_wrt (<) (map fst es)"

lemma map_of_bt_insert [simp]: "map_of (bt_insert k v es) = (map_of es)(k \<mapsto> v)"
  by (induction es) (auto simp: fun_eq_iff)

lemma map_of_bt_remove [simp]: "map_of (bt_remove k es) = (map_of es)(k := None)"
  unfolding bt_remove_def by (induction es) (auto simp: fun_eq_iff)

lemma keys_bt_insert: "fst ` set (bt_insert k v es) = insert k (fst ` set es)"
  by (induction es) auto

lemma bt_wf_Nil [simp, intro]: "bt_wf []"
  by (simp add: bt_wf_def)

lemma bt_wf_single [simp, intro]: "bt_wf [e]"
  by (simp add: bt_wf_def)

lemma bt_wf_Cons: "bt_wf (e # es) \<longleftrightarrow> (\<forall>k \<in> fst ` set es. fst e < k) \<and> bt_wf es"
  by (simp add: bt_wf_def)

lemma bt_wf_insert [intro]: "bt_wf es \<Longrightarrow> bt_wf (bt_insert k v es)"
proof (induction es)
  case (Cons e es)
  then show ?case
    by (auto simp: bt_wf_Cons keys_bt_insert)
qed (simp add: bt_wf_def)

lemma bt_wf_remove [intro]: "bt_wf es \<Longrightarrow> bt_wf (bt_remove k es)"
  unfolding bt_remove_def by (induction es) (auto simp: bt_wf_Cons)

lemma bt_wf_distinct: "bt_wf es \<Longrightarrow> distinct (map fst es)"
  by (simp add: bt_wf_def strict_sorted_iff)

lemma bt_get_iff: "bt_wf es \<Longrightarrow> map_of es k = Some v \<longleftrightarrow> (k, v) \<in> set es"
  by (simp add: bt_wf_distinct)

text \<open>A total over the entries, and how an insertion moves it.\<close>

definition bt_sum :: "('k \<Rightarrow> 'v \<Rightarrow> nat) \<Rightarrow> ('k, 'v) btree \<Rightarrow> nat" where
  "bt_sum f es = sum_list (map (\<lambda>(k, v). f k v) es)"

lemma bt_sum_Nil [simp]: "bt_sum f [] = 0"
  by (simp add: bt_sum_def)

lemma bt_sum_Cons: "bt_sum f (e # es) = f (fst e) (snd e) + bt_sum f es"
  by (simp add: bt_sum_def split_beta)

lemma bt_sum_insert_new:
  "map_of es k = None \<Longrightarrow> bt_sum f (bt_insert k v es) = bt_sum f es + f k v"
proof (induction es)
  case (Cons e es)
  then show ?case by (cases e) (auto simp: bt_sum_Cons split: if_splits)
qed (simp add: bt_sum_Cons)

lemma bt_sum_insert_old:
  "bt_wf es \<Longrightarrow> map_of es k = Some u \<Longrightarrow>
     bt_sum f (bt_insert k v es) + f k u = bt_sum f es + f k v"
proof (induction es)
  case (Cons e es)
  show ?case
  proof (cases "fst e = k")
    case True
    with Cons.prems show ?thesis by (cases e) (simp add: bt_sum_Cons)
  next
    case False
    with Cons.prems have mem: "map_of es k = Some u" by (cases e) (auto split: if_splits)
    then have "k \<in> fst ` set es" by (force dest: map_of_SomeD)
    with Cons.prems(1) have "fst e < k" by (auto simp: bt_wf_Cons)
    with Cons.IH Cons.prems(1) mem show ?thesis by (simp add: bt_sum_Cons bt_wf_Cons)
  qed
qed simp

lemma bt_sum_member:
  "map_of es k = Some v \<Longrightarrow> f k v \<le> bt_sum f es"
proof (induction es)
  case (Cons e es)
  then show ?case by (cases e) (auto simp: bt_sum_Cons split: if_splits)
qed simp

lemma bt_sum_cong:
  "(\<And>k v. (k, v) \<in> set es \<Longrightarrow> f k v = g k v) \<Longrightarrow> bt_sum f es = bt_sum g es"
  by (induction es) (auto simp: bt_sum_Cons)


section \<open>The in-memory store\<close>

text \<open>
  \<open>MemoryStore\<close>: column families by name, each an ordered map from byte strings to byte
  strings. \<open>iter_prefix\<close> seeks to the prefix and takes keys while they carry it.
\<close>

type_synonym MemoryStore = "(string, (u8 list, u8 list) btree) btree"

definition ms_get :: "MemoryStore \<Rightarrow> string \<Rightarrow> u8 list \<Rightarrow> u8 list option" where
  "ms_get st cf key = (case map_of st cf of None \<Rightarrow> None | Some es \<Rightarrow> map_of es key)"

definition ms_put :: "MemoryStore \<Rightarrow> string \<Rightarrow> u8 list \<Rightarrow> u8 list \<Rightarrow> MemoryStore" where
  "ms_put st cf key val =
     bt_insert cf (bt_insert key val (case map_of st cf of None \<Rightarrow> [] | Some es \<Rightarrow> es)) st"

definition ms_delete :: "MemoryStore \<Rightarrow> string \<Rightarrow> u8 list \<Rightarrow> MemoryStore" where
  "ms_delete st cf key =
     (case map_of st cf of None \<Rightarrow> st | Some es \<Rightarrow> bt_insert cf (bt_remove key es) st)"

fun starts_with :: "'a list \<Rightarrow> 'a list \<Rightarrow> bool" where
  "starts_with [] xs = True"
| "starts_with (p # ps) [] = False"
| "starts_with (p # ps) (x # xs) = (p = x \<and> starts_with ps xs)"

definition ms_iter_prefix ::
  "MemoryStore \<Rightarrow> string \<Rightarrow> u8 list \<Rightarrow> (u8 list \<times> u8 list) list" where
  "ms_iter_prefix st cf prefix =
     (case map_of st cf of
        None \<Rightarrow> []
      | Some es \<Rightarrow> takeWhile (\<lambda>e. starts_with prefix (fst e))
                    (dropWhile (\<lambda>e. fst e < prefix) es))"

definition ms_wf :: "MemoryStore \<Rightarrow> bool" where
  "ms_wf st \<longleftrightarrow> bt_wf st \<and> (\<forall>cf es. map_of st cf = Some es \<longrightarrow> bt_wf es)"

lemma ms_wf_put [intro]: "ms_wf st \<Longrightarrow> ms_wf (ms_put st cf key val)"
  by (auto simp: ms_wf_def ms_put_def split: option.splits if_splits)

lemma ms_wf_delete [intro]: "ms_wf st \<Longrightarrow> ms_wf (ms_delete st cf key)"
  by (auto simp: ms_wf_def ms_delete_def split: option.splits if_splits)

text \<open>The keys that carry a prefix are contiguous, and none of them is below it.\<close>

lemma starts_with_not_below: "starts_with p x \<Longrightarrow> \<not> x < (p :: 'a::linorder list)"
  by (induction p x rule: starts_with.induct) auto

lemma starts_with_between:
  "starts_with p z \<Longrightarrow> p \<le> y \<Longrightarrow> y < z \<Longrightarrow> starts_with p (y :: 'a::linorder list)"
proof (induction p z arbitrary: y rule: starts_with.induct)
  case (3 p ps x xs)
  then show ?case by (cases y) (auto simp: less_le_not_le)
qed auto

lemma prefix_run_above:
  assumes "bt_wf es" "\<forall>k \<in> fst ` set es. p \<le> k"
  shows "takeWhile (\<lambda>e. starts_with p (fst e)) es = filter (\<lambda>e. starts_with p (fst e)) es"
  using assms
proof (induction es)
  case (Cons e es)
  show ?case
  proof (cases "starts_with p (fst e)")
    case True
    with Cons show ?thesis by (simp add: bt_wf_Cons)
  next
    case False
    then have "\<not> starts_with p (fst z)" if "z \<in> set es" for z
      using Cons.prems that starts_with_between [of p "fst z" "fst e"]
      by (auto simp: bt_wf_Cons)
    with False show ?thesis by (simp add: filter_empty_conv)
  qed
qed simp

lemma prefix_run:
  assumes "bt_wf es"
  shows "takeWhile (\<lambda>e. starts_with p (fst e)) (dropWhile (\<lambda>e. fst e < p) es)
           = filter (\<lambda>e. starts_with p (fst e)) es"
  using assms
proof (induction es)
  case (Cons e es)
  show ?case
  proof (cases "fst e < p")
    case True
    with Cons show ?thesis by (auto simp: bt_wf_Cons dest: starts_with_not_below)
  next
    case False
    with Cons.prems have "\<forall>k \<in> fst ` set (e # es). p \<le> k"
      by (auto simp: bt_wf_Cons)
    with prefix_run_above [OF Cons.prems] False show ?thesis by simp
  qed
qed simp


section \<open>Registries over a store\<close>

text \<open>
  The interface \<open>KvStore\<close>: what a value read back is, and that column families do not interfere.
\<close>

locale kv_store =
  fixes get :: "'s \<Rightarrow> string \<Rightarrow> u8 list \<Rightarrow> u8 list option"
    and put :: "'s \<Rightarrow> string \<Rightarrow> u8 list \<Rightarrow> u8 list \<Rightarrow> 's"
    and delete :: "'s \<Rightarrow> string \<Rightarrow> u8 list \<Rightarrow> 's"
    and iter :: "'s \<Rightarrow> string \<Rightarrow> u8 list \<Rightarrow> (u8 list \<times> u8 list) list"
    and inv :: "'s \<Rightarrow> bool"
  assumes inv_put: "inv s \<Longrightarrow> inv (put s cf k v)"
    and inv_delete: "inv s \<Longrightarrow> inv (delete s cf k)"
    and iter_wf: "inv s \<Longrightarrow> bt_wf (iter s cf [])"
    and get_iter: "inv s \<Longrightarrow> get s cf k = map_of (iter s cf []) k"
    and iter_prefix: "inv s \<Longrightarrow> iter s cf p = filter (\<lambda>e. starts_with p (fst e)) (iter s cf [])"
    and iter_put: "inv s \<Longrightarrow>
          iter (put s cf k v) cf' [] = (if cf' = cf then bt_insert k v (iter s cf []) else iter s cf' [])"
    and iter_delete: "inv s \<Longrightarrow>
          iter (delete s cf k) cf' [] = (if cf' = cf then bt_remove k (iter s cf []) else iter s cf' [])"

lemma takeWhile_True [simp]: "takeWhile (\<lambda>e. True) es = es"
  by (induction es) auto

lemma ms_iter_all: "ms_iter_prefix st cf [] = (case map_of st cf of None \<Rightarrow> [] | Some es \<Rightarrow> es)"
  by (auto simp: ms_iter_prefix_def dropWhile_eq_self_iff takeWhile_eq_all_conv split: option.splits)

interpretation memory: kv_store ms_get ms_put ms_delete ms_iter_prefix ms_wf
proof unfold_locales
  fix st :: MemoryStore and cf and p k v :: "u8 list"
  assume wf: "ms_wf st"
  show "ms_wf (ms_put st cf k v)" "ms_wf (ms_delete st cf k)"
    using wf by blast+
  show "bt_wf (ms_iter_prefix st cf [])"
    using wf by (auto simp: ms_iter_all ms_wf_def split: option.splits)
  show "ms_iter_prefix st cf p
          = filter (\<lambda>e. starts_with p (fst e)) (ms_iter_prefix st cf [])"
    using wf by (auto simp: ms_iter_all ms_iter_prefix_def ms_wf_def prefix_run split: option.splits)
qed (auto simp: ms_iter_all ms_get_def ms_put_def ms_delete_def bt_remove_def split: option.splits)

text \<open>
  Every domain crate keeps its records in one column family of its own, keyed by the UTF-8
  bytes of the record's id and encoded by the wire codec, with the same three accessors:
  \<open>get\<close>, \<open>put\<close> and \<open>all\<close>. Ids are ASCII strings here, so their bytes are their characters.
\<close>

definition id_bytes :: "string \<Rightarrow> u8 list" where
  "id_bytes s = map (\<lambda>c. word_of_nat (of_char c)) s"

definition registry_get ::
  "('s \<Rightarrow> string \<Rightarrow> u8 list \<Rightarrow> u8 list option) \<Rightarrow> (u8 list \<Rightarrow> 'v option) \<Rightarrow> string
   \<Rightarrow> 's \<Rightarrow> string \<Rightarrow> 'v option" where
  "registry_get get dec cf s i =
     (case get s cf (id_bytes i) of None \<Rightarrow> None | Some bytes \<Rightarrow> dec bytes)"

definition registry_put ::
  "('s \<Rightarrow> string \<Rightarrow> u8 list \<Rightarrow> u8 list \<Rightarrow> 's) \<Rightarrow> ('v \<Rightarrow> u8 list option) \<Rightarrow> string
   \<Rightarrow> 's \<Rightarrow> string \<Rightarrow> 'v \<Rightarrow> 's" where
  "registry_put put enc cf s i v =
     (case enc v of None \<Rightarrow> s | Some bytes \<Rightarrow> put s cf (id_bytes i) bytes)"

definition registry_all ::
  "('s \<Rightarrow> string \<Rightarrow> u8 list \<Rightarrow> (u8 list \<times> u8 list) list) \<Rightarrow> (u8 list \<Rightarrow> 'v option) \<Rightarrow> string
   \<Rightarrow> 's \<Rightarrow> 'v list" where
  "registry_all iter dec cf s = List.map_filter (\<lambda>e. dec (snd e)) (iter s cf [])"

text \<open>
  The typed column a column family stands for: the component theories work on these. A store
  represents a column when the family holds the encodings of its entries under their ids.
\<close>

type_synonym 'v column = "(string, 'v) btree"

definition represents ::
  "('s \<Rightarrow> string \<Rightarrow> u8 list \<Rightarrow> (u8 list \<times> u8 list) list) \<Rightarrow> ('v \<Rightarrow> u8 list option) \<Rightarrow> string
   \<Rightarrow> 's \<Rightarrow> 'v column \<Rightarrow> bool" where
  "represents iter enc cf s col \<longleftrightarrow>
     list_all2 (\<lambda>e c. fst e = id_bytes (fst c) \<and> enc (snd c) = Some (snd e)) (iter s cf []) col"

lemma char_byte_less:
  "(word_of_nat (of_char c) :: u8) < word_of_nat (of_char d) \<longleftrightarrow> c < d"
proof -
  have "(of_char e :: nat) < 256" for e by simp
  then show ?thesis by (simp add: less_char_def word_less_nat_alt unat_of_nat)
qed

lemma char_byte_eq: "(word_of_nat (of_char c) :: u8) = word_of_nat (of_char d) \<longleftrightarrow> c = d"
  using char_byte_less [of c d] char_byte_less [of d c] by (metis linorder_neqE order_less_irrefl)

lemma id_bytes_less [simp]: "id_bytes a < id_bytes b \<longleftrightarrow> a < b"
proof (induction a arbitrary: b)
  case Nil
  then show ?case by (cases b) (auto simp: id_bytes_def)
next
  case (Cons c a)
  then show ?case
    by (cases b) (auto simp: id_bytes_def char_byte_less char_byte_eq)
qed

lemma id_bytes_eq [simp]: "id_bytes a = id_bytes b \<longleftrightarrow> a = b"
  using id_bytes_less [of a b] id_bytes_less [of b a] by (metis linorder_neqE order_less_irrefl)

lemma represents_insert:
  "list_all2 (\<lambda>e c. fst e = id_bytes (fst c) \<and> enc (snd c) = Some (snd e)) es col \<Longrightarrow>
   enc v = Some bytes \<Longrightarrow>
   list_all2 (\<lambda>e c. fst e = id_bytes (fst c) \<and> enc (snd c) = Some (snd e))
     (bt_insert (id_bytes i) bytes es) (bt_insert i v col)"
  by (induction rule: list_all2_induct) auto

lemma represents_lookup:
  "list_all2 (\<lambda>e c. fst e = id_bytes (fst c) \<and> enc (snd c) = Some (snd e)) es col \<Longrightarrow>
   map_of es (id_bytes i) = (case map_of col i of None \<Rightarrow> None | Some v \<Rightarrow> enc v)"
  by (induction rule: list_all2_induct) auto

lemma represents_values:
  "list_all2 (\<lambda>e c. fst e = id_bytes (fst c) \<and> enc (snd c) = Some (snd e)) es col \<Longrightarrow>
   (\<And>v bytes. enc v = Some bytes \<Longrightarrow> dec bytes = Some v) \<Longrightarrow>
   List.map_filter (\<lambda>e. dec (snd e)) es = map snd col"
  by (induction rule: list_all2_induct) (auto simp: List.map_filter_simps)

context kv_store
begin

text \<open>Over any store, the three accessors of a registry refine the typed column.\<close>

lemma registry_refines_get:
  assumes "inv s" "represents iter enc cf s col"
    and "\<And>v bytes. enc v = Some bytes \<Longrightarrow> dec bytes = Some v" "\<And>v. enc v \<noteq> None"
  shows "registry_get get dec cf s i = map_of col i"
  using assms represents_lookup [of enc "iter s cf []" col i]
  by (auto simp: registry_get_def represents_def get_iter split: option.splits)

lemma registry_refines_all:
  assumes "represents iter enc cf s col"
    and "\<And>v bytes. enc v = Some bytes \<Longrightarrow> dec bytes = Some v"
  shows "registry_all iter dec cf s = map snd col"
  using assms by (auto simp: registry_all_def represents_def intro: represents_values)

lemma registry_refines_put:
  assumes "inv s" "represents iter enc cf s col" "\<And>v. enc v \<noteq> None"
  shows "represents iter enc cf (registry_put put enc cf s i v) (bt_insert i v col)"
    and "cf' \<noteq> cf \<Longrightarrow> represents iter enc' cf' s col' \<Longrightarrow>
           represents iter enc' cf' (registry_put put enc cf s i v) col'"
    and "inv (registry_put put enc cf s i v)"
proof -
  obtain bytes where v: "enc v = Some bytes" using assms(3) [of v] by blast
  show "represents iter enc cf (registry_put put enc cf s i v) (bt_insert i v col)"
    and "cf' \<noteq> cf \<Longrightarrow> represents iter enc' cf' s col' \<Longrightarrow>
           represents iter enc' cf' (registry_put put enc cf s i v) col'"
    and "inv (registry_put put enc cf s i v)"
    using assms v
    by (auto simp: registry_put_def represents_def iter_put inv_put intro: represents_insert)
qed

end


section \<open>Signed bytes\<close>

text \<open>
  \<open>domain::preimage_raw\<close>: the length of the tag as four big-endian bytes, the tag, the body.
\<close>

definition be32_bytes :: "nat \<Rightarrow> u8 list" where
  "be32_bytes n = rev (le_bytes 4 n)"

definition preimage_raw :: "string \<Rightarrow> u8 list \<Rightarrow> u8 list" where
  "preimage_raw tag body = be32_bytes (length tag) @ id_bytes tag @ body"

lemma length_be32_bytes [simp]: "length (be32_bytes n) = 4"
  by (simp add: be32_bytes_def)

lemma be32_bytes_inj:
  assumes "be32_bytes m = be32_bytes n" "m < 2 ^ 32" "n < 2 ^ 32"
  shows "m = n"
proof -
  have "le_nat (le_bytes 4 m) = le_nat (le_bytes 4 n)"
    using assms(1) by (simp add: be32_bytes_def)
  with assms(2,3) show ?thesis by (simp add: le_nat_le_bytes)
qed

lemma length_id_bytes [simp]: "length (id_bytes s) = length s"
  by (simp add: id_bytes_def)

lemma preimage_raw_inj:
  assumes eq: "preimage_raw t b = preimage_raw t' b'"
    and len: "length t < 2 ^ 32" "length t' < 2 ^ 32"
  shows "t = t' \<and> b = b'"
proof -
  have "be32_bytes (length t) = be32_bytes (length t')"
    and rest: "id_bytes t @ b = id_bytes t' @ b'"
    using eq by (simp_all add: preimage_raw_def)
  with len have "length t = length t'" by (blast dest: be32_bytes_inj)
  with rest show ?thesis by simp
qed

text \<open>
  JSON values, as \<open>serde\<close> produces them from the signed structs: the struct's name is not part
  of them, only the field names and values. \<open>JText\<close> is a string by its code points, \<open>JStr\<close>
  an ASCII one.
\<close>

datatype json =
    JNull
  | JBool bool
  | JInt int
  | JFloat f64
  | JStr string
  | JText "nat list"
  | JArr "json list"
  | JObj "(string \<times> json) list"

fun json_option :: "('a \<Rightarrow> json) \<Rightarrow> 'a option \<Rightarrow> json" where
  "json_option f None = JNull"
| "json_option f (Some x) = f x"

definition json_u64 :: "u64 \<Rightarrow> json" where
  "json_u64 x = JInt (uint x)"

definition json_bytes :: "u8 list \<Rightarrow> json" where
  "json_bytes bs = JArr (map (\<lambda>b. JInt (uint b)) bs)"

definition json_amount :: "Amount \<Rightarrow> json" where
  "json_amount a = JObj [(''base_units'', json_u64 (base_units a)),
                         (''decimals'', JInt (uint (decimals a)))]"

record node_env =
  peer_id_from_public_key :: "public_key \<Rightarrow> peer_id option"
  verify_signature :: "public_key \<Rightarrow> u8 list \<Rightarrow> signature \<Rightarrow> bool"
  json_to_bytes :: "json \<Rightarrow> u8 list option"
  sha256 :: "u8 list \<Rightarrow> u8 list"

definition preimage :: "('z node_env_scheme) \<Rightarrow> string \<Rightarrow> json \<Rightarrow> u8 list option" where
  "preimage env tag payload = map_option (preimage_raw tag) (json_to_bytes env payload)"

text \<open>The two-step check of a signed event against a key: build the bytes, verify them.\<close>

definition check_signed ::
  "'z node_env_scheme \<Rightarrow> string \<Rightarrow> json \<Rightarrow> public_key \<Rightarrow> signature \<Rightarrow> 'e \<Rightarrow> 'e
   \<Rightarrow> 'e + 'a \<Rightarrow> 'e + 'a" where
  "check_signed env tag payload key sig malformed invalid k =
     ok_or (preimage env tag payload) malformed (\<lambda>bytes.
     require (verify_signature env key bytes sig) invalid k)"

text \<open>The check of an event that brings its signer's key along: the key must be the claimed
  peer's own.\<close>

definition check_self_signed ::
  "'z node_env_scheme \<Rightarrow> string \<Rightarrow> json \<Rightarrow> public_key \<Rightarrow> peer_id \<Rightarrow> signature \<Rightarrow> 'e \<Rightarrow> 'e \<Rightarrow> 'e
   \<Rightarrow> 'e + 'a \<Rightarrow> 'e + 'a" where
  "check_self_signed env tag payload key claimed sig malformed invalid unauthorized k =
     ok_or (peer_id_from_public_key env key) invalid (\<lambda>expected.
     require (expected = claimed) unauthorized
     (check_signed env tag payload key sig malformed invalid k))"

text \<open>A signature that covers a payload under a tag and a key.\<close>

definition signed_by :: "'z node_env_scheme \<Rightarrow> string \<Rightarrow> json \<Rightarrow> public_key \<Rightarrow> signature \<Rightarrow> bool" where
  "signed_by env tag payload key sig \<longleftrightarrow>
     (case preimage env tag payload of
        None \<Rightarrow> False
      | Some bytes \<Rightarrow> verify_signature env key bytes sig)"

lemma check_signed_Inr [simp]:
  "check_signed env tag payload key sig m i k = Inr x
     \<longleftrightarrow> signed_by env tag payload key sig \<and> k = Inr x"
  by (auto simp: check_signed_def signed_by_def split: option.splits)

lemma check_self_signed_Inr [simp]:
  "check_self_signed env tag payload key claimed sig m i u k = Inr x
     \<longleftrightarrow> peer_id_from_public_key env key = Some claimed
         \<and> signed_by env tag payload key sig \<and> k = Inr x"
  by (auto simp: check_self_signed_def)

lemma check_signed_pass [simp]:
  "signed_by env tag payload key sig \<Longrightarrow> check_signed env tag payload key sig m i k = k"
  by (auto simp: check_signed_def signed_by_def split: option.splits)

lemma check_self_signed_pass [simp]:
  "signed_by env tag payload key sig \<Longrightarrow> peer_id_from_public_key env key = Some claimed \<Longrightarrow>
     check_self_signed env tag payload key claimed sig m i u k = k"
  by (simp add: check_self_signed_def)

text \<open>The tags of \<open>domain::tag\<close>, in the order of the source.\<close>

definition domain_tags :: "string list" where
  "domain_tags =
    [''openfiat/identity/ClaimVerify/v1'',
     ''openfiat/identity/ClaimRevoke/v1'',
     ''openfiat/governance/ProposalWithdraw/v1'',
     ''openfiat/governance/ProposalActivate/v1'',
     ''openfiat/disputes/MutualSettlementAgree/v1'',
     ''openfiat/taxonomy/PaymentMethodDefine/v1'',
     ''openfiat/registry/FeeSettlement/v1'',
     ''openfiat/advertisements/AdvertisementCreate/v1'',
     ''openfiat/advertisements/AdvertisementStatusSet/v1'',
     ''openfiat/advertisements/AdvertisementTermsUpdate/v1'',
     ''openfiat/advertisements/AdvertisementPriceUpdate/v1'',
     ''openfiat/reservations/ReservationRequest/v1'',
     ''openfiat/reservations/ReservationCancel/v1'',
     ''openfiat/settlement/SettlementInitiate/v1'',
     ''openfiat/settlement/PaymentSubmitted/v1'',
     ''openfiat/settlement/PaymentReversed/v1'',
     ''openfiat/settlement/SettlementApproved/v1'',
     ''openfiat/settlement/SettlementRejected/v1'',
     ''openfiat/settlement/SettlementCancelled/v1'',
     ''openfiat/registry/Registration/v1'',
     ''openfiat/registry/HealthUpdate/v1'',
     ''openfiat/registry/Withdrawal/v1'',
     ''openfiat/sessions/SessionCreate/v1'',
     ''openfiat/sessions/SessionRenew/v1'',
     ''openfiat/sessions/SessionRevoke/v1'',
     ''openfiat/sessions/SessionMigrate/v1'',
     ''openfiat/reviews/ReviewPublish/v1'',
     ''openfiat/risk/RiskPublish/v1'',
     ''openfiat/oracles/OraclePublish/v1'',
     ''openfiat/snapshot/SnapshotAnnounce/v1'',
     ''openfiat/disputes/DisputeOpen/v1'',
     ''openfiat/disputes/ArbitratorJoin/v1'',
     ''openfiat/disputes/VoteCommit/v1'',
     ''openfiat/disputes/VoteReveal/v1'',
     ''openfiat/governance/ProposalCreate/v1'',
     ''openfiat/governance/VoteCast/v1'',
     ''openfiat/identity/ClaimPublish/v1'',
     ''openfiat/content/AttachmentPublish/v1'',
     ''openfiat/notifications/SubscriptionUpdate/v1'',
     ''openfiat/notifications/DeliveryReport/v1'',
     ''openfiat/tradechannel/TradeChannelKeyGrant/v1'',
     ''openfiat/tradechannel/TradeChannelEntryPost/v1'']"

lemma domain_tags_distinct: "distinct domain_tags"
  by code_simp

lemma domain_tags_short: "list_all (\<lambda>t. length t < 2 ^ 32) domain_tags"
  by (simp add: domain_tags_def)


section \<open>Gossip events\<close>

text \<open>
  The envelope every event travels in. A crate reads the spec number, the event name and the
  payload; the transport fields (version, origin, ttl, priority, signature) are the gossip
  layer's and are not read by any registry.
\<close>

record EventEnvelope =
  ev_id :: "u8 list"
  ev_event_type :: string
  ev_ofs_spec :: u16
  ev_timestamp :: timestamp
  ev_payload :: "u8 list"

text \<open>\<open>if let Ok(signed) = wire::from_bytes(&event.payload) { let _ = self.apply(signed); }\<close>\<close>

definition apply_payload :: "(u8 list \<Rightarrow> 'm option) \<Rightarrow> EventEnvelope \<Rightarrow> ('m \<Rightarrow> 'e + 's) \<Rightarrow> 's \<Rightarrow> 's" where
  "apply_payload dec ev f s =
     (case dec (ev_payload ev) of None \<Rightarrow> s | Some m \<Rightarrow> ignore_error (f m) s)"

lemma apply_payload_cases:
  assumes "P s" "\<And>m s'. dec (ev_payload ev) = Some m \<Longrightarrow> f m = Inr s' \<Longrightarrow> P s'"
  shows "P (apply_payload dec ev f s)"
  using assms by (auto simp: apply_payload_def ignore_error_def split: option.splits sum.splits)


section \<open>A reference environment\<close>

text \<open>
  An instance of the third-party parameters, on which the witnesses evaluate: a key is its own
  peer id, a signature is the key and the bytes it covers, JSON is printed without punctuation
  and the digest is the padded sum of the bytes.
\<close>

fun ref_json_bytes :: "json \<Rightarrow> u8 list" where
  "ref_json_bytes JNull = [0]"
| "ref_json_bytes (JBool b) = [if b then 1 else 0]"
| "ref_json_bytes (JInt i) = [word_of_int i]"
| "ref_json_bytes (JFloat x) = [2]"
| "ref_json_bytes (JStr s) = id_bytes s"
| "ref_json_bytes (JText cs) = map word_of_nat cs"
| "ref_json_bytes (JArr xs) = concat (map ref_json_bytes xs)"
| "ref_json_bytes (JObj kvs) = concat (map (\<lambda>kv. id_bytes (fst kv) @ ref_json_bytes (snd kv)) kvs)"

definition ref_sign :: "public_key \<Rightarrow> u8 list \<Rightarrow> signature" where
  "ref_sign key bytes = key @ map (\<lambda>b. char_of (unat b)) bytes"

definition ref_node_env :: node_env where
  "ref_node_env = \<lparr>
     peer_id_from_public_key = (\<lambda>key. if 16 \<le> length key then Some key else None),
     verify_signature = (\<lambda>key bytes sig. sig = ref_sign key bytes),
     json_to_bytes = (\<lambda>j. Some (ref_json_bytes j)),
     sha256 = (\<lambda>bytes. sum_list bytes # replicate 31 0) \<rparr>"

lemma ref_node_env_simps [simp]:
  "peer_id_from_public_key ref_node_env key = (if 16 \<le> length key then Some key else None)"
  "verify_signature ref_node_env key bytes sig \<longleftrightarrow> sig = ref_sign key bytes"
  "json_to_bytes ref_node_env j = Some (ref_json_bytes j)"
  by (simp_all add: ref_node_env_def)

text \<open>The signature a key holder makes for a payload under a tag.\<close>

definition ref_signature :: "string \<Rightarrow> json \<Rightarrow> public_key \<Rightarrow> signature" where
  "ref_signature tag payload key = ref_sign key (preimage_raw tag (ref_json_bytes payload))"

lemma ref_signed_by [simp]:
  "signed_by ref_node_env tag payload key sig \<longleftrightarrow> sig = ref_signature tag payload key"
  by (simp add: signed_by_def preimage_def ref_signature_def)

end
