(* ===== verification/Pricing.thy ===== *)
theory Pricing
  imports Node_Base
begin

text \<open>
  How an advertisement's price is resolved and checked (\<open>crates/advertisements/src/pricing.rs\<close>
  and the pricing model of \<open>record.rs\<close>). A fixed price is the merchant's number; a floating
  one is an oracle mid times the merchant's premium in floating point, rounded half to even
  onto a fixed-point amount.
\<close>


section \<open>Model\<close>

datatype PricingModel =
    Fixed (fixed_price: Amount)
  | Floating (oracle_provider: string) (premium_bps: int) (price_decimals: u8)

datatype MidPrice = Available f64 timestamp | NoOracleData | StaleOracleData

datatype UnpriceableReason = NoOracleDataReason | StaleOracleDataReason | PriceOutOfRange

datatype PriceQuote =
    QuoteFixed Amount
  | QuoteFloating Amount f64 int timestamp
  | Unpriceable UnpriceableReason int

fun quote_price :: "PriceQuote \<Rightarrow> Amount option" where
  "quote_price (QuoteFixed price) = Some price"
| "quote_price (QuoteFloating price rate bps expires) = Some price"
| "quote_price (Unpriceable reason bps) = None"

fun is_floating :: "PriceQuote \<Rightarrow> bool" where
  "is_floating (QuoteFixed price) = False"
| "is_floating _ = True"

definition to_amount :: "f64 \<Rightarrow> u8 \<Rightarrow> Amount option" where
  "to_amount val d =
     (let scaled = f64_mul val (f64_powi (Fin 10) (unat d))
      in if \<not> is_finite scaled \<or> f64_less_zero scaled then None
         else case round_ties_even scaled of
             Fin rounded \<Rightarrow>
               if 18446744073709551616 \<le> rounded then None
               else Some \<lparr>base_units = word_of_int \<lfloor>rounded\<rfloor>, decimals = d\<rparr>
           | _ \<Rightarrow> None)"

definition quote_floating :: "int \<Rightarrow> u8 \<Rightarrow> MidPrice \<Rightarrow> PriceQuote" where
  "quote_floating bps d mid =
     (case mid of
        NoOracleData \<Rightarrow> Unpriceable NoOracleDataReason bps
      | StaleOracleData \<Rightarrow> Unpriceable StaleOracleDataReason bps
      | Available rate expires \<Rightarrow>
          let multiplier = f64_add (Fin 1) (f64_div_const (Fin (of_int bps)) 10000)
          in case to_amount (f64_mul rate multiplier) d of
               Some price \<Rightarrow> QuoteFloating price rate bps expires
             | None \<Rightarrow> Unpriceable PriceOutOfRange bps)"

fun quote :: "PricingModel \<Rightarrow> MidPrice \<Rightarrow> PriceQuote" where
  "quote (Fixed price) mid = QuoteFixed price"
| "quote (Floating provider bps d) mid = quote_floating bps d mid"

fun agrees_with :: "PricingModel \<Rightarrow> Amount \<Rightarrow> f64 option \<Rightarrow> bool" where
  "agrees_with (Fixed price) agreed mid =
     (mid = None \<and> base_units agreed = base_units price \<and> decimals agreed = decimals price)"
| "agrees_with (Floating provider bps d) agreed None = False"
| "agrees_with (Floating provider bps d) agreed (Some mid) =
     (case quote_floating bps d (Available mid 0) of
        QuoteFloating price rate b expires \<Rightarrow>
          base_units agreed = base_units price \<and> decimals agreed = decimals price
      | _ \<Rightarrow> False)"


section \<open>Rounding onto an amount\<close>

lemma to_amount_Some:
  assumes "to_amount val d = Some a"
  obtains s where "f64_mul val (f64_powi (Fin 10) (unat d)) = Fin s"
    and "0 \<le> s" and "of_nat (units a) = (of_int (round_even s) :: rat)"
    and "decimals a = d"
proof -
  obtain s where s: "f64_mul val (f64_powi (Fin 10) (unat d)) = Fin s" "0 \<le> s"
    and top: "(of_int (round_even s) :: rat) < 18446744073709551616"
    and a: "a = \<lparr>base_units = word_of_int (round_even s), decimals = d\<rparr>"
    using assms by (cases "f64_mul val (f64_powi (Fin 10) (unat d))")
      (auto simp: to_amount_def Let_def not_le not_less split: if_splits)
  have "0 \<le> round_even s" using s(2) by (rule round_even_nonneg)
  moreover have "round_even s < 18446744073709551616"
    using top by (metis of_int_less_iff of_int_numeral)
  ultimately have "units a = nat (round_even s)"
    by (simp add: a unat_eq_nat_uint uint_word_of_int)
  with \<open>0 \<le> round_even s\<close> have "of_nat (units a) = (of_int (round_even s) :: rat)"
    by (metis of_int_of_nat_eq of_nat_nat)
  with s a show ?thesis by (intro that [of s]) auto
qed

lemma amount_eqI: "base_units a = base_units b \<Longrightarrow> decimals a = decimals b \<Longrightarrow> a = (b :: Amount)"
  by (cases a; cases b) simp

lemma quote_floating_expiry:
  "quote_floating bps d (Available rate e) = QuoteFloating p r b e'
     \<Longrightarrow> quote_floating bps d (Available rate e'') = QuoteFloating p r b e'' \<and> r = rate \<and> b = bps"
  by (auto simp: quote_floating_def Let_def split: option.splits)

lemma agrees_unique:
  assumes "agrees_with m p x" "agrees_with m q x"
  shows "p = q"
  using assms by (cases "(m, p, x)" rule: agrees_with.cases)
    (auto split: PriceQuote.splits intro: amount_eqI)


section \<open>Accuracy of a floating price\<close>

text \<open>How four roundings, each off by at most the relative error \<open>u\<close>, add up.\<close>

lemma abs_approx:
  fixes x y :: rat
  shows "\<bar>x - y\<bar> \<le> e \<Longrightarrow> \<bar>y\<bar> \<le> c \<Longrightarrow> \<bar>x\<bar> \<le> c + e"
  by linarith

lemma price_error_chain:
  fixes q0 q1 m p1 s r T u B :: rat
  assumes u: "0 \<le> u" "u \<le> 1 / 8" and r: "0 \<le> r" and T: "0 \<le> T" and B: "\<bar>q0\<bar> \<le> B"
    and e1: "\<bar>q1 - q0\<bar> \<le> B * u" and e2: "\<bar>m - (1 + q1)\<bar> \<le> \<bar>1 + q1\<bar> * u"
    and e3: "\<bar>p1 - r * m\<bar> \<le> \<bar>r * m\<bar> * u" and e4: "\<bar>s - p1 * T\<bar> \<le> \<bar>p1 * T\<bar> * u"
  shows "\<bar>s - r * (1 + q0) * T\<bar> \<le> 8 * u * (r * (1 + B) * T)"
proof -
  let ?C = "1 + B"
  have B0: "0 \<le> B" using B by linarith
  have Cu: "?C * u \<le> ?C / 8" and Bu: "B * u \<le> ?C * u"
    using u B0 by (auto intro: mult_right_mono mult_left_mono)
  have "\<bar>1 + q1\<bar> \<le> ?C + ?C / 8" using B e1 Bu Cu by linarith
  then have "\<bar>1 + q1\<bar> * u \<le> (?C + ?C / 8) * u" using u(1) by (rule mult_right_mono)
  also have "\<dots> = 9 / 8 * (?C * u)" by (simp add: field_simps)
  finally have "\<bar>1 + q1\<bar> * u \<le> 9 / 8 * (?C * u)" .
  moreover have "0 \<le> ?C * u" using B0 u(1) by simp
  ultimately have m1: "\<bar>m - (1 + q0)\<bar> \<le> 3 * (?C * u)"
    using e1 e2 Bu by linarith
  moreover have "\<bar>1 + q0\<bar> \<le> ?C" using B by linarith
  ultimately have "\<bar>m\<bar> \<le> ?C + 3 * (?C * u)" by (rule abs_approx)
  moreover have "x \<le> ?C + 3 * y \<Longrightarrow> y \<le> ?C / 8 \<Longrightarrow> x \<le> 2 * ?C" for x y
    using B0 by (simp add: field_simps)
  ultimately have m2: "\<bar>m\<bar> \<le> 2 * ?C" using Cu by blast
  have rm: "\<bar>r * m\<bar> \<le> r * (2 * ?C)" using m2 r by (simp add: abs_mult mult_left_mono)
  have p1: "\<bar>p1 - r * m\<bar> \<le> r * (2 * ?C) * u"
    using e3 mult_right_mono [OF rm u(1)] by linarith
  have "r * (2 * ?C) * u \<le> r * (2 * ?C) * (1 / 8)"
    using u r B0 by (intro mult_left_mono) auto
  with p1 rm have p2: "\<bar>p1\<bar> \<le> r * (3 * ?C)" using r B0 by (simp add: algebra_simps)
  have p1T: "\<bar>p1 * T\<bar> * u \<le> r * (3 * ?C) * T * u"
    using mult_right_mono [OF mult_right_mono [OF p2 T] u(1)] T by (simp add: abs_mult)
  have A: "\<bar>s - p1 * T\<bar> \<le> 3 * (r * ?C * T * u)"
    using e4 p1T by (simp add: algebra_simps)
  have "\<bar>(p1 - r * m) * T\<bar> \<le> r * (2 * ?C) * u * T"
    using mult_right_mono [OF p1 T] T by (simp add: abs_mult)
  then have A': "\<bar>p1 * T - r * m * T\<bar> \<le> 2 * (r * ?C * T * u)" by (simp add: algebra_simps)
  have "\<bar>r * (m - (1 + q0)) * T\<bar> \<le> r * (3 * (?C * u)) * T"
    using mult_right_mono [OF mult_left_mono [OF m1 r] T] r T by (simp add: abs_mult)
  then have A'': "\<bar>r * m * T - r * (1 + q0) * T\<bar> \<le> 3 * (r * ?C * T * u)" by (simp add: algebra_simps)
  have "\<bar>s - r * (1 + q0) * T\<bar> \<le> 8 * (r * ?C * T * u)" using A A' A'' by linarith
  then show ?thesis by (simp add: algebra_simps)
qed

text \<open>
  The quoted price is within half a minor unit of the exact one, plus a relative error of
  \<open>2 ^ -50\<close> from the floating-point steps, whenever the precision is at most 22 decimals, the
  premium keeps the price positive and the mid is not vanishingly small.
\<close>

lemma quote_floating_accurate:
  assumes q: "quote_floating bps d (Available (Fin r) e) = QuoteFloating price rate b e'"
    and r: "1 / 10 ^ 6 \<le> r" and bps: "- 9999 \<le> bps" and d: "unat d \<le> 22"
  shows "\<bar>of_nat (units price) - r * (1 + of_int bps / 10000) * 10 ^ unat d\<bar>
           \<le> 1 / 2 + r * (1 + \<bar>of_int bps\<bar> / 10000) * 10 ^ unat d / 2 ^ 50"
proof -
  let ?q0 = "of_int bps / 10000 :: rat" and ?T = "10 ^ unat d :: rat"
  let ?u = "1 / 2 ^ 53 :: rat" and ?B = "\<bar>of_int bps\<bar> / 10000 :: rat"
  obtain M where "to_amount (f64_mul (Fin r) M) d = Some price"
    and M: "M = f64_add (Fin 1) (f64_div_const (Fin (of_int bps)) 10000)"
    using q by (auto simp: quote_floating_def Let_def split: option.splits)
  then obtain s where s: "f64_mul (f64_mul (Fin r) M) (f64_powi (Fin 10) (unat d)) = Fin s"
    and units: "of_nat (units price) = (of_int (round_even s) :: rat)"
    by (elim to_amount_Some)
  from s obtain p1 where p1: "f64_mul (Fin r) M = Fin p1" and s4: "f64_round (p1 * ?T) = Fin s"
    by (elim f64_mul_Fin) (simp add: f64_powi_pow10 [OF d])
  from p1 obtain m where m: "M = Fin m" and s3: "f64_round (r * m) = Fin p1"
    by (elim f64_mul_Fin) simp
  from m M obtain q1 where s1: "f64_round ?q0 = Fin q1" and s2: "f64_round (1 + q1) = Fin m"
    by (auto elim!: f64_add_Fin)
  have e1: "\<bar>q1 - ?q0\<bar> \<le> ?B * ?u"
  proof -
    have "bps = 0 \<or> 1 \<le> \<bar>bps\<bar>" by linarith
    then have "?q0 = 0 \<or> 1 / 10 ^ 20 \<le> \<bar>?q0\<bar>"
      by (auto simp: abs_divide)
    then show ?thesis using f64_round_error [OF s1] normal_range [of ?q0] by (auto simp: abs_divide)
  qed
  have low: "1 / 10 ^ 5 \<le> 1 + q1"
  proof (cases "0 \<le> bps")
    case True
    then have q0: "0 \<le> ?q0" "?B = ?q0" by auto
    have "?q0 * ?u \<le> ?q0 * 1" by (rule mult_left_mono [OF _ q0(1)]) simp
    then have "?B * ?u \<le> ?q0" by (simp only: q0(2) mult_1_right)
    with e1 have "0 \<le> q1" by linarith
    then show ?thesis by simp
  next
    case False
    with bps have "- 9999 / 10000 \<le> ?q0" "?B \<le> 1" by auto
    moreover have "?B * ?u \<le> 1 * ?u" using \<open>?B \<le> 1\<close> by (rule mult_right_mono) simp
    ultimately have "\<bar>q1 - ?q0\<bar> \<le> 1 * ?u" using e1 by (blast intro: order_trans)
    then have "\<bar>q1 - ?q0\<bar> \<le> 1 / 1000000" by (rule order_trans) simp
    with \<open>- 9999 / 10000 \<le> ?q0\<close> have "1 / 100000 \<le> 1 + q1" by linarith
    then show ?thesis by simp
  qed
  then have e2: "\<bar>m - (1 + q1)\<bar> \<le> \<bar>1 + q1\<bar> * ?u"
    using f64_round_error [OF s2] normal_range [of "1 + q1"] by simp
  have "1 / 10 ^ 6 \<le> m" using e2 low by (auto simp: abs_if split: if_splits)
  then have rm: "1 / 10 ^ 6 * (1 / 10 ^ 6) \<le> r * m" using r by (intro mult_mono) auto
  then have e3: "\<bar>p1 - r * m\<bar> \<le> \<bar>r * m\<bar> * ?u"
    using f64_round_error [OF s3] normal_range [of "r * m"] by simp
  have "1 / 10 ^ 12 \<le> x \<Longrightarrow> \<bar>p1 - x\<bar> \<le> \<bar>x\<bar> * ?u \<Longrightarrow> 1 / 10 ^ 13 \<le> p1" for x
    by (auto simp: abs_if split: if_splits)
  with e3 rm have "1 / 10 ^ 13 \<le> p1" by simp
  moreover have "1 \<le> ?T" by simp
  ultimately have "1 / 10 ^ 13 * 1 \<le> p1 * ?T" by (intro mult_mono) auto
  then have e4: "\<bar>s - p1 * ?T\<bar> \<le> \<bar>p1 * ?T\<bar> * ?u"
    using f64_round_error [OF s4] normal_range [of "p1 * ?T"] by simp
  have "\<bar>s - r * (1 + ?q0) * ?T\<bar> \<le> 8 * ?u * (r * (1 + ?B) * ?T)"
    by (rule price_error_chain [OF _ _ _ _ _ e1 e2 e3 e4]) (use r in \<open>auto simp: abs_divide\<close>)
  moreover have "8 * ?u * X = X / 2 ^ 50" for X :: rat by simp
  ultimately have "\<bar>s - r * (1 + ?q0) * ?T\<bar> \<le> r * (1 + ?B) * ?T / 2 ^ 50" by simp
  moreover have "\<bar>a - y\<bar> \<le> c \<Longrightarrow> \<bar>y - z\<bar> \<le> e \<Longrightarrow> \<bar>a - z\<bar> \<le> c + e" for a c e y z :: rat
    by linarith
  ultimately show ?thesis using round_even_error [of s] unfolding units by blast
qed

end
