(* ===== verification/Payment_Methods.thy ===== *)
theory Payment_Methods
  imports Node_Base
begin

text \<open>
  Payment methods (\<open>crates/taxonomy\<close>): how an advertisement names one, which names a merchant may
  give a method of their own, and the replicated index of merchant-defined methods with its
  bound of thirty-two per merchant.

  A name is a list of Unicode code points. The character database of the standard library is
  the record \<open>unicode\<close>; the built-in catalogue is a table of data and a parameter here.
\<close>


section \<open>Errors and records\<close>

datatype TaxonomyError =
    TaxInvalidSignature | MalformedDefinition | ImpersonatesKnownMethod | TooManyMethods

datatype PaymentMethodCategory = MobileMoney | BankTransfer | Fintech | Cash

type_synonym PaymentMethodRef = string
type_synonym text_chars = "nat list"

record PaymentMethod =
  pm_id :: PaymentMethodRef
  pm_name :: text_chars
  pm_category :: PaymentMethodCategory
  pm_aliases :: "text_chars list"
  pm_countries :: "string list option"

record MerchantPaymentMethod =
  mpm_merchant :: peer_id
  mpm_merchant_public_key :: public_key
  mpm_name :: text_chars
  mpm_category :: PaymentMethodCategory

record unicode =
  to_lowercase :: "nat \<Rightarrow> nat list"
  is_alphanumeric :: "nat \<Rightarrow> bool"
  is_control :: "nat \<Rightarrow> bool"
  is_whitespace :: "nat \<Rightarrow> bool"


section \<open>References\<close>

abbreviation char_code :: "char \<Rightarrow> nat" where
  "char_code c \<equiv> of_char c"

definition ascii_lowercase :: "char \<Rightarrow> bool" where
  "ascii_lowercase c \<longleftrightarrow> 97 \<le> char_code c \<and> char_code c \<le> 122"

definition ascii_uppercase :: "char \<Rightarrow> bool" where
  "ascii_uppercase c \<longleftrightarrow> 65 \<le> char_code c \<and> char_code c \<le> 90"

definition ascii_digit :: "char \<Rightarrow> bool" where
  "ascii_digit c \<longleftrightarrow> 48 \<le> char_code c \<and> char_code c \<le> 57"

fun split_once :: "char \<Rightarrow> string \<Rightarrow> (string \<times> string) option" where
  "split_once c [] = None"
| "split_once c (x # xs) =
     (if x = c then Some ([], xs) else map_option (\<lambda>(a, b). (x # a, b)) (split_once c xs))"

fun has_pair :: "'a \<Rightarrow> 'a list \<Rightarrow> bool" where
  "has_pair c (x # y # xs) = (x = c \<and> y = c \<or> has_pair c (y # xs))"
| "has_pair c _ = False"

definition BUILTIN :: string where "BUILTIN = ''builtin''"

definition DIGEST_HEX_LEN :: nat where "DIGEST_HEX_LEN = 16"

definition is_slug :: "string \<Rightarrow> bool" where
  "is_slug body \<longleftrightarrow>
     body \<noteq> [] \<and> length body \<le> 48 \<and> hd body \<noteq> CHR ''-'' \<and> last body \<noteq> CHR ''-''
     \<and> \<not> has_pair (CHR ''-'') body
     \<and> list_all (\<lambda>c. ascii_lowercase c \<or> ascii_digit c \<or> c = CHR ''-'') body"

definition is_peer_id :: "string \<Rightarrow> bool" where
  "is_peer_id body \<longleftrightarrow>
     16 \<le> length body \<and> length body \<le> 64
     \<and> list_all (\<lambda>c. (ascii_lowercase c \<or> ascii_uppercase c \<or> ascii_digit c)
                    \<and> c \<notin> {CHR ''0'', CHR ''O'', CHR ''I'', CHR ''l''}) body"

definition is_digest :: "string \<Rightarrow> bool" where
  "is_digest body \<longleftrightarrow>
     length body = DIGEST_HEX_LEN
     \<and> list_all (\<lambda>c. ascii_digit c \<or> 97 \<le> char_code c \<and> char_code c \<le> 102) body"

definition parse_ref :: "string \<Rightarrow> TaxonomyError + PaymentMethodRef" where
  "parse_ref input =
     ok_or (split_once (CHR '':'') input) MalformedDefinition (\<lambda>(namespace, body).
     require (CHR '':'' \<notin> set body) MalformedDefinition
     (require (if namespace = BUILTIN then is_slug body else is_peer_id namespace \<and> is_digest body)
        MalformedDefinition
     (Inr input)))"

definition builtin_ref :: "string \<Rightarrow> TaxonomyError + PaymentMethodRef" where
  "builtin_ref slug = parse_ref (BUILTIN @ '':'' @ slug)"

definition ref_owner :: "PaymentMethodRef \<Rightarrow> string option" where
  "ref_owner r =
     (case split_once (CHR '':'') r of
        None \<Rightarrow> None
      | Some (namespace, body) \<Rightarrow> if namespace \<noteq> BUILTIN then Some namespace else None)"

definition is_selectable_by :: "PaymentMethodRef \<Rightarrow> peer_id \<Rightarrow> bool" where
  "is_selectable_by r merchant = (case ref_owner r of None \<Rightarrow> True | Some owner \<Rightarrow> owner = merchant)"


section \<open>Names\<close>

definition MAX_NAME_CHARS :: nat where "MAX_NAME_CHARS = 64"

definition in_ranges :: "(nat \<times> nat) list \<Rightarrow> nat \<Rightarrow> bool" where
  "in_ranges rs c \<longleftrightarrow> list_ex (\<lambda>(lo, hi). lo \<le> c \<and> c \<le> hi) rs"

definition is_invisible :: "nat \<Rightarrow> bool" where
  "is_invisible = in_ranges
     [(0xAD, 0xAD), (0x61C, 0x61C), (0x180E, 0x180E), (0x200B, 0x200F), (0x2060, 0x2064),
      (0x206A, 0x206F), (0x2800, 0x2800), (0xFEFF, 0xFEFF), (0xFFF9, 0xFFFB), (0xE0000, 0xE007F)]"

text \<open>The classes of \<open>fold\<close>: first and last code point, and the Latin letters they read as.\<close>

definition fold_table :: "(nat \<times> nat \<times> string) list" where
  "fold_table =
    [(48, 48, ''o''), (49, 49, ''l''), (105, 105, ''l''), (51, 51, ''e''), (52, 52, ''a''),
     (53, 53, ''s''), (55, 55, ''t''), (224, 229, ''a''), (257, 257, ''a''),
     (259, 259, ''a''), (261, 261, ''a''), (230, 230, ''ae''), (231, 231, ''c''),
     (263, 263, ''c''), (265, 265, ''c''), (267, 267, ''c''), (269, 269, ''c''),
     (240, 240, ''d''), (271, 271, ''d''), (273, 273, ''d''), (232, 235, ''e''),
     (275, 275, ''e''), (277, 277, ''e''), (279, 279, ''e''), (281, 281, ''e''),
     (283, 283, ''e''), (285, 285, ''g''), (287, 287, ''g''), (289, 289, ''g''),
     (291, 291, ''g''), (293, 293, ''h''), (295, 295, ''h''), (236, 239, ''l''),
     (297, 297, ''l''), (299, 299, ''l''), (301, 301, ''l''), (303, 303, ''l''),
     (305, 305, ''l''), (309, 309, ''j''), (311, 311, ''k''), (314, 314, ''l''),
     (316, 316, ''l''), (318, 318, ''l''), (320, 320, ''l''), (322, 322, ''l''),
     (241, 241, ''n''), (324, 324, ''n''), (326, 326, ''n''), (328, 328, ''n''),
     (242, 246, ''o''), (248, 248, ''o''), (333, 333, ''o''), (335, 335, ''o''),
     (337, 337, ''o''), (339, 339, ''oe''), (341, 341, ''r''), (343, 343, ''r''),
     (345, 345, ''r''), (347, 347, ''s''), (349, 349, ''s''), (351, 351, ''s''),
     (353, 353, ''s''), (223, 223, ''ss''), (355, 355, ''t''), (357, 357, ''t''),
     (359, 359, ''t''), (254, 254, ''th''), (249, 252, ''u''), (361, 361, ''u''),
     (363, 363, ''u''), (365, 365, ''u''), (367, 367, ''u''), (369, 369, ''u''),
     (371, 371, ''u''), (373, 373, ''w''), (253, 253, ''y''), (255, 255, ''y''),
     (375, 375, ''y''), (378, 378, ''z''), (380, 380, ''z''), (382, 382, ''z''),
     (1072, 1072, ''a''), (1074, 1074, ''b''), (1089, 1089, ''c''), (1281, 1281, ''d''),
     (1077, 1077, ''e''), (1105, 1105, ''e''), (1211, 1211, ''h''), (1085, 1085, ''h''),
     (1110, 1110, ''l''), (1112, 1112, ''j''), (1082, 1082, ''k''), (1231, 1231, ''l''),
     (1084, 1084, ''m''), (1086, 1086, ''o''), (1088, 1088, ''p''), (1307, 1307, ''q''),
     (1109, 1109, ''s''), (1090, 1090, ''t''), (1091, 1091, ''y''), (1309, 1309, ''w''),
     (1093, 1093, ''x''), (945, 945, ''a''), (946, 946, ''b''), (949, 949, ''e''),
     (951, 951, ''n''), (953, 953, ''l''), (954, 954, ''k''), (957, 957, ''v''),
     (959, 959, ''o''), (961, 961, ''p''), (964, 964, ''t''), (965, 965, ''u''),
     (967, 967, ''x''), (950, 950, ''z'')]"

definition fold_char :: "nat \<Rightarrow> nat list option" where
  "fold_char c =
     map_option (\<lambda>(lo, hi, latin). map char_code latin)
       (List.find (\<lambda>(lo, hi, latin). lo \<le> c \<and> c \<le> hi) fold_table)"

definition skeleton :: "'z unicode_scheme \<Rightarrow> text_chars \<Rightarrow> text_chars" where
  "skeleton uc name =
     concat (map (\<lambda>original.
       let wide_folded = (if 0xFF01 \<le> original \<and> original \<le> 0xFF5E then original - 0xFEE0 else original)
       in concat (map (\<lambda>lowered.
            case fold_char lowered of
              Some latin \<Rightarrow> latin
            | None \<Rightarrow> if is_alphanumeric uc lowered then [lowered] else [])
          (to_lowercase uc wide_folded))) name)"

definition check_name ::
  "'z unicode_scheme \<Rightarrow> text_chars \<Rightarrow> TaxonomyError + 'a \<Rightarrow> TaxonomyError + 'a" where
  "check_name uc name k =
     require (name \<noteq> [] \<and> length name \<le> MAX_NAME_CHARS) MalformedDefinition
     (require (hd name \<noteq> 0x20 \<and> last name \<noteq> 0x20 \<and> \<not> has_pair 0x20 name) MalformedDefinition
     (require (list_all (\<lambda>c. \<not> is_control uc c \<and> \<not> is_invisible c
                            \<and> (\<not> is_whitespace uc c \<or> c = 0x20)
                            \<and> \<not> in_ranges [(0x202A, 0x202E), (0x2066, 0x2069)] c) name)
        MalformedDefinition
     (require (skeleton uc name \<noteq> []) MalformedDefinition k)))"

definition validate_method ::
  "'z unicode_scheme \<Rightarrow> PaymentMethod list \<Rightarrow> MerchantPaymentMethod
   \<Rightarrow> TaxonomyError + 'a \<Rightarrow> TaxonomyError + 'a" where
  "validate_method uc catalog m k =
     check_name uc (mpm_name m)
     (let folded = skeleton uc (mpm_name m)
      in require (\<not> list_ex (\<lambda>known. skeleton uc (pm_name known) = folded
                     \<or> list_ex (\<lambda>alias. skeleton uc alias = folded) (pm_aliases known)) catalog)
           ImpersonatesKnownMethod k)"

definition for_country :: "PaymentMethod list \<Rightarrow> string option \<Rightarrow> PaymentMethod list \<times> PaymentMethod list" where
  "for_country catalog country =
     partition (\<lambda>m. case country of
         None \<Rightarrow> False
       | Some code \<Rightarrow> (case pm_countries m of None \<Rightarrow> False | Some listed \<Rightarrow> code \<in> set listed)) catalog"


section \<open>The index of merchant-defined methods\<close>

definition json_text :: "text_chars \<Rightarrow> json" where
  "json_text cs = JText cs"

fun json_category :: "PaymentMethodCategory \<Rightarrow> json" where
  "json_category MobileMoney = JStr ''MobileMoney''"
| "json_category BankTransfer = JStr ''BankTransfer''"
| "json_category Fintech = JStr ''Fintech''"
| "json_category Cash = JStr ''Cash''"

definition json_method :: "MerchantPaymentMethod \<Rightarrow> json" where
  "json_method m = JObj
     [(''merchant'', JStr (mpm_merchant m)),
      (''merchant_public_key'', JStr (mpm_merchant_public_key m)),
      (''name'', json_text (mpm_name m)),
      (''category'', json_category (mpm_category m))]"

definition hex_digit :: "nat \<Rightarrow> char" where
  "hex_digit n = char_of (if n < 10 then 48 + n else 87 + n)"

definition hex_bytes :: "u8 list \<Rightarrow> string" where
  "hex_bytes bs = concat (map (\<lambda>b. [hex_digit (unat b div 16), hex_digit (unat b mod 16)]) bs)"

text \<open>\<open>MerchantPaymentMethod::id\<close>; a method that does not serialize is a panic, \<open>None\<close>.\<close>

definition method_id :: "'z node_env_scheme \<Rightarrow> MerchantPaymentMethod \<Rightarrow> PaymentMethodRef option" where
  "method_id env m =
     map_option (\<lambda>bytes. mpm_merchant m @ '':''
                          @ hex_bytes (take (DIGEST_HEX_LEN div 2) (sha256 env bytes)))
       (json_to_bytes env (json_method m))"

definition published :: "'z node_env_scheme \<Rightarrow> MerchantPaymentMethod \<Rightarrow> PaymentMethod option" where
  "published env m =
     map_option (\<lambda>i. \<lparr>pm_id = i, pm_name = mpm_name m, pm_category = mpm_category m,
                      pm_aliases = [], pm_countries = None\<rparr>) (method_id env m)"

record SignedPaymentMethodDefine =
  spm_method :: MerchantPaymentMethod
  spm_signature :: signature

definition verify_define ::
  "'z node_env_scheme \<Rightarrow> SignedPaymentMethodDefine \<Rightarrow> TaxonomyError + 'a \<Rightarrow> TaxonomyError + 'a" where
  "verify_define env msg k =
     check_self_signed env ''openfiat/taxonomy/PaymentMethodDefine/v1'' (json_method (spm_method msg))
       (mpm_merchant_public_key (spm_method msg)) (mpm_merchant (spm_method msg))
       (spm_signature msg) MalformedDefinition TaxInvalidSignature TaxInvalidSignature k"

type_synonym method_store = "MerchantPaymentMethod column"

definition MAX_METHODS_PER_MERCHANT :: nat where "MAX_METHODS_PER_MERCHANT = 32"

definition prefix_of :: "peer_id \<Rightarrow> string" where
  "prefix_of merchant = merchant @ '':''"

definition for_merchant :: "method_store \<Rightarrow> peer_id \<Rightarrow> (PaymentMethodRef \<times> MerchantPaymentMethod) list" where
  "for_merchant st merchant =
     sort_key fst (filter (\<lambda>(k, m). starts_with (prefix_of merchant) k \<and> is_ok (parse_ref k)) st)"

definition apply_define ::
  "'z node_env_scheme \<Rightarrow> 'u unicode_scheme \<Rightarrow> PaymentMethod list \<Rightarrow> SignedPaymentMethodDefine
   \<Rightarrow> method_store \<Rightarrow> TaxonomyError node_error + method_store" where
  "apply_define env uc catalog msg st =
     and_then (lift_refused (verify_define env msg
                (validate_method uc catalog (spm_method msg) (Inr ())))) (\<lambda>_.
     ok_or (method_id env (spm_method msg)) NodePanic (\<lambda>i.
     if map_of st i \<noteq> None then Inr st
     else let held = for_merchant st (mpm_merchant (spm_method msg))
          in if MAX_METHODS_PER_MERCHANT \<le> length held
             then let largest = fst (last held)
                  in require (i < largest) (Refused TooManyMethods)
                     (Inr (bt_insert i (spm_method msg) (bt_remove largest st)))
             else Inr (bt_insert i (spm_method msg) st)))"

text \<open>\<open>apply_event\<close> drops the result, so a replica folds the definitions it hears.\<close>

definition define_all ::
  "'z node_env_scheme \<Rightarrow> 'u unicode_scheme \<Rightarrow> PaymentMethod list \<Rightarrow> SignedPaymentMethodDefine list
   \<Rightarrow> method_store \<Rightarrow> method_store" where
  "define_all env uc catalog msgs st =
     foldl (\<lambda>st msg. ignore_error (apply_define env uc catalog msg st) st) st msgs"


section \<open>Ids of accepted definitions\<close>

lemma split_once_append:
  "c \<notin> set a \<Longrightarrow> split_once c (a @ c # b) = Some (a, b)"
  by (induction a) auto

lemma colon_not_alphanumeric:
  "\<not> ascii_lowercase (CHR '':'')" "\<not> ascii_uppercase (CHR '':'')" "\<not> ascii_digit (CHR '':'')"
  by (simp_all add: ascii_lowercase_def ascii_uppercase_def ascii_digit_def)

lemma is_peer_id_no_colon: "is_peer_id p \<Longrightarrow> CHR '':'' \<notin> set p"
  unfolding is_peer_id_def list_all_iff using colon_not_alphanumeric by blast

lemma is_digest_no_colon:
  assumes "is_digest d" shows "CHR '':'' \<notin> set d"
proof
  assume "CHR '':'' \<in> set d"
  with assms have "ascii_digit (CHR '':'') \<or> 97 \<le> char_code (CHR '':'')"
    unfolding is_digest_def list_all_iff by blast
  with colon_not_alphanumeric show False by simp
qed

text \<open>No peer id spells the built-in namespace, so the two halves cannot be confused.\<close>

lemma is_peer_id_not_builtin: "is_peer_id p \<Longrightarrow> p \<noteq> BUILTIN"
  by (auto simp: is_peer_id_def BUILTIN_def)

lemma parse_ref_merchant:
  assumes "is_peer_id p" "is_digest d"
  shows "parse_ref (p @ CHR '':'' # d) = Inr (p @ CHR '':'' # d)"
  using assms
  by (simp add: parse_ref_def split_once_append is_peer_id_no_colon is_digest_no_colon
      is_peer_id_not_builtin)

lemma hex_digit_ok:
  assumes "n < 16"
  shows "ascii_digit (hex_digit n) \<or> 97 \<le> char_code (hex_digit n) \<and> char_code (hex_digit n) \<le> 102"
  using assms by (auto simp: hex_digit_def ascii_digit_def)

lemma length_hex_bytes [simp]: "length (hex_bytes bs) = 2 * length bs"
  by (simp add: hex_bytes_def length_concat sum_list_triv comp_def)

lemma hex_bytes_digest:
  assumes "length bs = 8" shows "is_digest (hex_bytes bs)"
proof -
  have "unat b div 16 < 16" "unat b mod 16 < 16" for b :: u8
    using unat_lt_2p [of b] by auto
  then have "list_all (\<lambda>c. ascii_digit c \<or> 97 \<le> char_code c \<and> char_code c \<le> 102) (hex_bytes bs)"
    by (auto simp: hex_bytes_def list_all_iff hex_digit_ok)
  with assms show ?thesis by (simp add: is_digest_def DIGEST_HEX_LEN_def)
qed

definition accepted_define ::
  "'z node_env_scheme \<Rightarrow> 'u unicode_scheme \<Rightarrow> PaymentMethod list \<Rightarrow> SignedPaymentMethodDefine
   \<Rightarrow> PaymentMethodRef \<Rightarrow> bool" where
  "accepted_define env uc catalog msg i \<longleftrightarrow>
     verify_define env msg (validate_method uc catalog (spm_method msg) (Inr ())) = Inr ()
     \<and> method_id env (spm_method msg) = Some i"

text \<open>What the node relies on: peer ids are base58 spellings and the digest has 32 bytes.\<close>

definition identity_ok :: "'z node_env_scheme \<Rightarrow> bool" where
  "identity_ok env \<longleftrightarrow>
     (\<forall>key p. peer_id_from_public_key env key = Some p \<longrightarrow> is_peer_id p)
     \<and> (\<forall>bytes. length (sha256 env bytes) = 32)"

lemma accepted_id:
  assumes "identity_ok env" "accepted_define env uc catalog msg i"
  obtains d where "is_peer_id (mpm_merchant (spm_method msg))" "is_digest d"
    "i = mpm_merchant (spm_method msg) @ CHR '':'' # d"
proof -
  let ?m = "spm_method msg"
  have "is_peer_id (mpm_merchant ?m)"
    using assms by (auto simp: accepted_define_def verify_define_def identity_ok_def)
  moreover obtain bytes where "i = mpm_merchant ?m @ CHR '':'' # hex_bytes (take 8 (sha256 env bytes))"
    using assms(2) by (auto simp: accepted_define_def method_id_def DIGEST_HEX_LEN_def)
  moreover have "is_digest (hex_bytes (take 8 (sha256 env bytes)))" for bytes
    using assms(1) by (intro hex_bytes_digest) (simp add: identity_ok_def)
  ultimately show ?thesis using that by blast
qed

lemma starts_with_iff: "starts_with p x \<longleftrightarrow> (\<exists>y. x = p @ y)"
  by (induction p x rule: starts_with.induct) auto

lemma prefix_names_owner:
  assumes "starts_with (prefix_of q) (p @ CHR '':'' # d)" "CHR '':'' \<notin> set p" "CHR '':'' \<notin> set d"
  shows "q = p"
proof -
  obtain y where y: "p @ CHR '':'' # d = q @ CHR '':'' # y"
    using assms(1) by (auto simp: starts_with_iff prefix_of_def)
  with assms(2,3) show ?thesis by (simp add: append_Cons_eq_iff)
qed


section \<open>The smallest ids survive\<close>

text \<open>\<open>T\<close> is the \<open>n\<close> smallest elements of \<open>A\<close>, all of them when there are fewer.\<close>

definition is_smallest :: "nat \<Rightarrow> 'a::linorder set \<Rightarrow> 'a set \<Rightarrow> bool" where
  "is_smallest n A T \<longleftrightarrow>
     finite A \<and> T \<subseteq> A \<and> card T = min n (card A) \<and> (\<forall>x \<in> T. \<forall>y \<in> A - T. x < y)"

lemma is_smallest_unique:
  assumes "is_smallest n A T" "is_smallest n A U"
  shows "T = U"
proof -
  have fin: "finite T" "finite U" and card: "card T = card U"
    using assms by (auto simp: is_smallest_def dest: finite_subset)
  show ?thesis
  proof (rule ccontr)
    assume "T \<noteq> U"
    then have "\<not> T \<subseteq> U" "\<not> U \<subseteq> T"
      using card_subset_eq [OF fin(2), of T] card_subset_eq [OF fin(1), of U] card by auto
    then obtain x y where "x \<in> T - U" "y \<in> U - T" by auto
    then have "x < y" "y < x" using assms by (auto simp: is_smallest_def)
    then show False by simp
  qed
qed

lemma is_smallest_empty [simp]: "is_smallest n {} {}"
  by (simp add: is_smallest_def)

lemma is_smallest_room:
  assumes "is_smallest n A T" "card T < n"
  shows "is_smallest n (insert i A) (insert i T)"
proof -
  have "finite A" "T \<subseteq> A" "card T = card A" using assms by (auto simp: is_smallest_def min_def split: if_splits)
  then have "T = A" by (rule card_subset_eq)
  with assms show ?thesis by (auto simp: is_smallest_def card_insert_if)
qed

lemma is_smallest_known:
  assumes "is_smallest n A T" "i \<in> T"
  shows "is_smallest n (insert i A) T"
  using assms by (auto simp: is_smallest_def insert_absorb)

lemma is_smallest_above:
  assumes "is_smallest n A T" "card T = n" "\<forall>x \<in> T. x < i"
  shows "is_smallest n (insert i A) T"
  using assms by (auto simp: is_smallest_def card_insert_if)

lemma is_smallest_displace:
  assumes "is_smallest n A T" "card T = n" "i \<notin> T" "m \<in> T" "\<forall>x \<in> T. x \<le> m" "i < m"
  shows "is_smallest n (insert i A) (insert i (T - {m}))"
proof -
  have A: "finite A" "T \<subseteq> A" "n = min n (card A)" and sep: "\<And>x y. x \<in> T \<Longrightarrow> y \<in> A - T \<Longrightarrow> x < y"
    using assms(1,2) by (auto simp: is_smallest_def)
  have i: "i \<notin> A" using sep [OF assms(4), of i] assms(3,6) by auto
  have T: "finite T" using A finite_subset by blast
  have "card (insert i (T - {m})) = n" using T assms(2-4) card_Suc_Diff1 [of T m] by simp
  moreover have "min n (card (insert i A)) = n" using A i by simp
  moreover have "x < y" if "x \<in> insert i (T - {m})" "y \<in> insert i A - insert i (T - {m})" for x y
  proof -
    have "x < m" using that(1) assms(5,6) by (auto simp: order_less_le)
    moreover have "m \<le> y"
    proof (cases "y = m")
      case False
      with that(2) have "y \<in> A - T" by auto
      then show ?thesis using sep [OF assms(4)] by (simp add: less_imp_le)
    qed simp
    ultimately show ?thesis by simp
  qed
  ultimately show ?thesis using A by (auto simp: is_smallest_def)
qed

definition valid_ids ::
  "'z node_env_scheme \<Rightarrow> 'u unicode_scheme \<Rightarrow> PaymentMethod list \<Rightarrow> SignedPaymentMethodDefine set
   \<Rightarrow> peer_id \<Rightarrow> PaymentMethodRef set" where
  "valid_ids env uc catalog msgs p =
     {i. \<exists>msg \<in> msgs. accepted_define env uc catalog msg i \<and> mpm_merchant (spm_method msg) = p}"

definition merchant_keys :: "method_store \<Rightarrow> peer_id \<Rightarrow> PaymentMethodRef set" where
  "merchant_keys st p = {k \<in> fst ` set st. starts_with (prefix_of p) k}"

definition shelf_inv ::
  "'z node_env_scheme \<Rightarrow> 'u unicode_scheme \<Rightarrow> PaymentMethod list \<Rightarrow> SignedPaymentMethodDefine set
   \<Rightarrow> method_store \<Rightarrow> bool" where
  "shelf_inv env uc catalog msgs st \<longleftrightarrow>
     bt_wf st \<and> fst ` set st \<subseteq> (\<Union>p. valid_ids env uc catalog msgs p)
     \<and> (\<forall>p. is_smallest MAX_METHODS_PER_MERCHANT (valid_ids env uc catalog msgs p) (merchant_keys st p))"

lemma valid_id_owner:
  assumes "identity_ok env" "i \<in> valid_ids env uc catalog msgs p"
  shows "starts_with (prefix_of q) i \<longleftrightarrow> q = p" and "is_ok (parse_ref i)"
proof -
  obtain d where "is_peer_id p" "is_digest d" "i = p @ CHR '':'' # d"
    using assms by (auto simp: valid_ids_def elim!: accepted_id)
  then show "starts_with (prefix_of q) i \<longleftrightarrow> q = p" and "is_ok (parse_ref i)"
    using prefix_names_owner [of q p d]
    by (auto simp: parse_ref_merchant is_peer_id_no_colon is_digest_no_colon starts_with_iff prefix_of_def)
qed

lemma bt_wf_filter: "bt_wf es \<Longrightarrow> bt_wf (filter P es)"
  by (induction es) (auto simp: bt_wf_Cons)

lemma sorted_le_last: "sorted xs \<Longrightarrow> x \<in> set xs \<Longrightarrow> x \<le> last xs"
proof (induction xs)
  case (Cons y ys)
  show ?case
  proof (cases "ys = []")
    case False
    then have "y \<le> last ys" using Cons.prems(1) by (simp add: last_in_set)
    with False Cons show ?thesis by auto
  qed (use Cons in simp)
qed simp

text \<open>What \<open>for_merchant\<close> lists: the merchant's keys, in order.\<close>

lemma for_merchant_keys:
  fixes p :: peer_id
  assumes ok: "identity_ok env" and inv: "shelf_inv env uc catalog msgs st"
  defines "held \<equiv> for_merchant st p"
  shows "fst ` set held = merchant_keys st p" and "length held = card (merchant_keys st p)"
    and "held \<noteq> [] \<Longrightarrow> fst (last held) \<in> merchant_keys st p"
    and "held \<noteq> [] \<Longrightarrow> k \<in> merchant_keys st p \<Longrightarrow> k \<le> fst (last held)"
proof -
  let ?f = "filter (\<lambda>e. starts_with (prefix_of p) (fst e)) st"
  have parse: "is_ok (parse_ref (fst e))" if "e \<in> set st" for e
  proof -
    have "fst e \<in> (\<Union>p. valid_ids env uc catalog msgs p)"
      using inv that unfolding shelf_inv_def by blast
    then show ?thesis using valid_id_owner(2) [OF ok] by blast
  qed
  have "filter (\<lambda>(k, m). starts_with (prefix_of p) k \<and> is_ok (parse_ref k)) st = ?f"
    using parse by (intro filter_cong) (auto simp: split_beta)
  moreover have wf: "bt_wf ?f" using inv by (simp add: shelf_inv_def bt_wf_filter)
  then have srt: "sorted (map fst ?f)" and dst: "distinct (map fst ?f)"
    by (simp_all add: bt_wf_def strict_sorted_iff)
  ultimately have held: "held = ?f"
    by (simp add: held_def for_merchant_def sort_key_id_if_sorted)
  show keys: "fst ` set held = merchant_keys st p" by (auto simp: held merchant_keys_def)
  then show "length held = card (merchant_keys st p)"
    using dst distinct_card [of "map fst held"] by (simp add: held)
  assume ne: "held \<noteq> []"
  then show "fst (last held) \<in> merchant_keys st p" using keys last_in_set by blast
  assume "k \<in> merchant_keys st p"
  then have "k \<in> set (map fst held)" using keys by simp
  moreover have "sorted (map fst held)" using srt by (simp only: held)
  ultimately have "k \<le> last (map fst held)" by (rule sorted_le_last [rotated])
  with ne show "k \<le> fst (last held)" by (simp add: last_map)
qed

lemma define_refused:
  assumes "\<nexists>i. accepted_define env uc catalog msg i"
  shows "ignore_error (apply_define env uc catalog msg st) st = st"
proof (cases "apply_define env uc catalog msg st")
  case (Inr st')
  then have "\<exists>i. accepted_define env uc catalog msg i"
    by (auto simp: apply_define_def accepted_define_def)
  with assms show ?thesis by blast
qed simp

lemma define_accepted:
  assumes "accepted_define env uc catalog msg i"
  shows "apply_define env uc catalog msg st =
     (if map_of st i \<noteq> None then Inr st
      else let held = for_merchant st (mpm_merchant (spm_method msg))
           in if MAX_METHODS_PER_MERCHANT \<le> length held
              then let largest = fst (last held)
                   in require (i < largest) (Refused TooManyMethods)
                      (Inr (bt_insert i (spm_method msg) (bt_remove largest st)))
              else Inr (bt_insert i (spm_method msg) st))"
  using assms by (simp add: apply_define_def accepted_define_def)

lemma keys_bt_remove: "fst ` set (bt_remove k es) = fst ` set es - {k}"
  by (force simp: bt_remove_def)

lemma merchant_keys_insert:
  "merchant_keys (bt_insert i m st) p
     = (if starts_with (prefix_of p) i then insert i (merchant_keys st p) else merchant_keys st p)"
  by (auto simp: merchant_keys_def keys_bt_insert)

lemma merchant_keys_remove: "merchant_keys (bt_remove k st) p = merchant_keys st p - {k}"
  by (auto simp: merchant_keys_def keys_bt_remove)

lemma valid_ids_insert:
  assumes "accepted_define env uc catalog msg i"
  shows "valid_ids env uc catalog (insert msg M) p
           = (if mpm_merchant (spm_method msg) = p then insert i (valid_ids env uc catalog M p)
              else valid_ids env uc catalog M p)"
  using assms by (auto simp: valid_ids_def accepted_define_def)

lemma valid_ids_refused:
  assumes "\<nexists>i. accepted_define env uc catalog msg i"
  shows "valid_ids env uc catalog (insert msg M) p = valid_ids env uc catalog M p"
  using assms by (auto simp: valid_ids_def)

text \<open>A shelf updated under one id stays right when its owner's part does.\<close>

lemma shelf_inv_update:
  assumes acc: "accepted_define env uc catalog msg i" and inv: "shelf_inv env uc catalog M st"
    and q: "mpm_merchant (spm_method msg) = q"
    and st': "bt_wf st'" "fst ` set st' \<subseteq> insert i (fst ` set st)"
    and small: "is_smallest MAX_METHODS_PER_MERCHANT (insert i (valid_ids env uc catalog M q)) (merchant_keys st' q)"
    and other: "\<And>p. p \<noteq> q \<Longrightarrow> merchant_keys st' p = merchant_keys st p"
  shows "shelf_inv env uc catalog (insert msg M) st'"
  unfolding shelf_inv_def
proof (intro conjI allI)
  let ?U = "\<Union>p. valid_ids env uc catalog (insert msg M) p"
  have "(\<Union>p. valid_ids env uc catalog M p) \<subseteq> ?U"
    by (intro UN_mono) (auto simp: valid_ids_def)
  then have "fst ` set st \<subseteq> ?U" using inv unfolding shelf_inv_def by (elim conjE) (rule order_trans)
  moreover have "i \<in> ?U"
    by (rule UN_I [where a = q]) (use acc q in \<open>simp_all add: valid_ids_insert [OF acc]\<close>)
  ultimately have "insert i (fst ` set st) \<subseteq> ?U" by (simp only: insert_subset simp_thms)
  with st'(2) show "fst ` set st' \<subseteq> ?U" by (rule order_trans)
  show "is_smallest MAX_METHODS_PER_MERCHANT (valid_ids env uc catalog (insert msg M) p)
          (merchant_keys st' p)" for p
  proof (cases "p = q")
    case True
    with small show ?thesis by (simp add: valid_ids_insert [OF acc] q)
  next
    case False
    with inv other [OF False] show ?thesis by (simp add: valid_ids_insert [OF acc] q shelf_inv_def)
  qed
qed (rule st'(1))

lemma accepted_owner:
  assumes "identity_ok env" "accepted_define env uc catalog msg i"
  shows "starts_with (prefix_of p) i \<longleftrightarrow> p = mpm_merchant (spm_method msg)"
  using assms by (intro valid_id_owner(1) [of env i uc catalog "{msg}"]) (auto simp: valid_ids_def)

text \<open>The full shelf: the new id displaces the largest one or is refused.\<close>

lemma shelf_inv_full:
  assumes ok: "identity_ok env" and inv: "shelf_inv env uc catalog M st"
    and acc: "accepted_define env uc catalog msg i" and new: "map_of st i = None"
    and q: "mpm_merchant (spm_method msg) = q"
    and full: "MAX_METHODS_PER_MERCHANT \<le> length (for_merchant st q)"
  shows "shelf_inv env uc catalog (insert msg M)
           (ignore_error (apply_define env uc catalog msg st) st)"
proof -
  let ?n = MAX_METHODS_PER_MERCHANT and ?V = "valid_ids env uc catalog M" and ?K = "merchant_keys st"
  let ?l = "fst (last (for_merchant st q))"
  note held = for_merchant_keys [OF ok inv, of q] and owner = accepted_owner [OF ok acc, unfolded q]
  have wf: "bt_wf st" and small: "is_smallest ?n (?V q) (?K q)" using inv by (auto simp: shelf_inv_def)
  have card: "card (?K q) = ?n" using full held(2) small by (simp add: is_smallest_def)
  have ne: "for_merchant st q \<noteq> []" using full by (auto simp: MAX_METHODS_PER_MERCHANT_def)
  have l: "?l \<in> ?K q" "\<forall>x \<in> ?K q. x \<le> ?l" using held(3,4) ne by auto
  have fresh: "i \<notin> ?K p" for p using new by (simp add: merchant_keys_def map_of_eq_None_iff)
  show ?thesis
  proof (cases "i < ?l")
    case True
    have "is_smallest ?n (insert i (?V q)) (insert i (?K q - {?l}))"
      using is_smallest_displace [OF small card fresh l True] .
    moreover have lV: "?l \<in> ?V q" using l(1) small by (auto simp: is_smallest_def)
    have "?l \<notin> ?K p" if "p \<noteq> q" for p
      using that valid_id_owner(1) [OF ok lV, of p] by (simp add: merchant_keys_def)
    ultimately have "shelf_inv env uc catalog (insert msg M)
                       (bt_insert i (spm_method msg) (bt_remove ?l st))"
      using wf by (intro shelf_inv_update [OF acc inv q])
        (auto simp: merchant_keys_insert merchant_keys_remove keys_bt_insert keys_bt_remove owner)
    with new full True show ?thesis by (simp add: define_accepted [OF acc] Let_def q)
  next
    case False
    have "x < i" if "x \<in> ?K q" for x
    proof -
      have "x \<le> ?l" "x \<noteq> i" using that l(2) fresh by auto
      with False show ?thesis by simp
    qed
    then have "is_smallest ?n (insert i (?V q)) (?K q)"
      using small card by (blast intro: is_smallest_above)
    with wf have "shelf_inv env uc catalog (insert msg M) st"
      by (intro shelf_inv_update [OF acc inv q]) auto
    with new full False show ?thesis by (simp add: define_accepted [OF acc] Let_def q)
  qed
qed

text \<open>One more definition heard: the shelf is still the smallest ids of all that were valid.\<close>

lemma shelf_inv_step:
  assumes ok: "identity_ok env" and inv: "shelf_inv env uc catalog M st"
  shows "shelf_inv env uc catalog (insert msg M)
           (ignore_error (apply_define env uc catalog msg st) st)"
proof (cases "\<exists>i. accepted_define env uc catalog msg i")
  case False
  then show ?thesis
    using inv define_refused [OF False] by (simp add: shelf_inv_def valid_ids_refused [OF False])
next
  case True
  then obtain i where acc: "accepted_define env uc catalog msg i" by blast
  let ?q = "mpm_merchant (spm_method msg)"
  note owner = accepted_owner [OF ok acc]
  have wf: "bt_wf st"
    and small: "is_smallest MAX_METHODS_PER_MERCHANT (valid_ids env uc catalog M ?q) (merchant_keys st ?q)"
    using inv by (auto simp: shelf_inv_def)
  show ?thesis
  proof (cases "map_of st i")
    case (Some m)
    then have "i \<in> fst ` set st" by (force dest: map_of_SomeD)
    then have "i \<in> merchant_keys st ?q" using owner by (simp add: merchant_keys_def)
    with wf small have "shelf_inv env uc catalog (insert msg M) st"
      by (intro shelf_inv_update [OF acc inv refl]) (auto intro: is_smallest_known)
    with Some show ?thesis by (simp add: define_accepted [OF acc])
  next
    case None
    show ?thesis
    proof (cases "MAX_METHODS_PER_MERCHANT \<le> length (for_merchant st ?q)")
      case True
      with shelf_inv_full [OF ok inv acc None refl] show ?thesis by blast
    next
      case False
      then have "is_smallest MAX_METHODS_PER_MERCHANT (insert i (valid_ids env uc catalog M ?q))
                   (insert i (merchant_keys st ?q))"
        using small for_merchant_keys(2) [OF ok inv, of ?q] by (intro is_smallest_room) auto
      with wf have "shelf_inv env uc catalog (insert msg M) (bt_insert i (spm_method msg) st)"
        by (intro shelf_inv_update [OF acc inv refl]) (auto simp: merchant_keys_insert keys_bt_insert owner)
      with None False show ?thesis by (simp add: define_accepted [OF acc])
    qed
  qed
qed

lemma shelf_inv_all:
  assumes "identity_ok env" "shelf_inv env uc catalog M st"
  shows "shelf_inv env uc catalog (M \<union> set msgs) (define_all env uc catalog msgs st)"
  using assms(2)
proof (induction msgs arbitrary: M st)
  case (Cons msg msgs)
  from Cons.IH [OF shelf_inv_step [OF assms(1) Cons.prems]]
  show ?case by (simp add: define_all_def)
qed (simp add: define_all_def)

lemma shelf_inv_empty: "shelf_inv env uc catalog {} []"
  by (simp add: shelf_inv_def valid_ids_def merchant_keys_def)

lemma shelf_keys:
  assumes ok: "identity_ok env" and inv: "shelf_inv env uc catalog M st"
  shows "fst ` set st = (\<Union>p. merchant_keys st p)"
proof
  show "fst ` set st \<subseteq> (\<Union>p. merchant_keys st p)"
  proof
    fix k
    assume k: "k \<in> fst ` set st"
    with inv obtain p where "k \<in> valid_ids env uc catalog M p" unfolding shelf_inv_def by blast
    with valid_id_owner(1) [OF ok, of k uc catalog M p p] k have "k \<in> merchant_keys st p"
      by (simp add: merchant_keys_def)
    then show "k \<in> (\<Union>p. merchant_keys st p)" by blast
  qed
qed (auto simp: merchant_keys_def)


section \<open>Convergence\<close>

definition ref_unicode :: unicode where
  "ref_unicode = \<lparr> to_lowercase = (\<lambda>c. [if 65 \<le> c \<and> c \<le> 90 then c + 32 else c]),
                   is_alphanumeric = (\<lambda>c. 48 \<le> c), is_control = (\<lambda>c. c < 32),
                   is_whitespace = (\<lambda>c. c = 32) \<rparr>"

definition ref_taxonomy_env :: node_env where
  "ref_taxonomy_env = ref_node_env\<lparr>peer_id_from_public_key :=
     (\<lambda>key. if is_peer_id key then Some key else None)\<rparr>"

definition ref_define :: "text_chars \<Rightarrow> SignedPaymentMethodDefine" where
  "ref_define name =
     (let m = \<lparr>mpm_merchant = ''12D3KooWMerchant'', mpm_merchant_public_key = ''12D3KooWMerchant'',
               mpm_name = name, mpm_category = Cash\<rparr>
      in \<lparr>spm_method = m,
          spm_signature = ref_signature ''openfiat/taxonomy/PaymentMethodDefine/v1'' (json_method m)
                            ''12D3KooWMerchant''\<rparr>)"

text \<open>
  C19. Replicas of the index of merchant-defined payment methods converge: whatever the order in
  which gossip delivers a set of signed definitions, and however often it repeats one, a node
  ends up with the same ids, and these are, for every merchant, the thirty-two
  lexicographically smallest of the ids validly defined by that merchant (all of them when
  there are fewer).
\<close>

theorem definitions_converge:
  assumes "identity_ok env" and "set msgs = set msgs'"
  shows "is_smallest MAX_METHODS_PER_MERCHANT (valid_ids env uc catalog (set msgs) p)
           (merchant_keys (define_all env uc catalog msgs []) p)
         \<and> fst ` set (define_all env uc catalog msgs []) = fst ` set (define_all env uc catalog msgs' [])"
proof -
  have inv: "shelf_inv env uc catalog (set ms) (define_all env uc catalog ms [])" for ms
    using shelf_inv_all [OF assms(1) shelf_inv_empty, of uc catalog ms] by simp
  have small: "is_smallest MAX_METHODS_PER_MERCHANT (valid_ids env uc catalog (set ms) p)
                 (merchant_keys (define_all env uc catalog ms []) p)" for ms p
    using inv [of ms] by (simp add: shelf_inv_def)
  have same: "merchant_keys (define_all env uc catalog msgs []) q
          = merchant_keys (define_all env uc catalog msgs' []) q" for q
    by (rule is_smallest_unique [OF small [of msgs q] small [of msgs' q, folded assms(2)]])
  have "fst ` set (define_all env uc catalog msgs []) = fst ` set (define_all env uc catalog msgs' [])"
    by (simp add: shelf_keys [OF assms(1) inv] same)
  then show ?thesis using small by blast
qed

lemma ref_taxonomy_ok: "identity_ok ref_taxonomy_env"
  by (simp add: identity_ok_def ref_taxonomy_env_def ref_node_env_def)

lemma ref_names_valid:
  "validate_method ref_unicode [] (spm_method (ref_define [65, 99])) (Inr ()) = Inr ()"
  "validate_method ref_unicode [] (spm_method (ref_define [66, 100])) (Inr ()) = Inr ()"
  by (simp_all add: validate_method_def check_name_def ref_unicode_def ref_define_def Let_def
      skeleton_def fold_char_def fold_table_def in_ranges_def is_invisible_def MAX_NAME_CHARS_def)

lemma ref_define_verified: "verify_define ref_taxonomy_env (ref_define name) k = k"
proof -
  have "is_peer_id ''12D3KooWMerchant''"
    by (simp add: is_peer_id_def ascii_lowercase_def ascii_uppercase_def ascii_digit_def)
  then show ?thesis
    by (simp add: verify_define_def check_self_signed_def check_signed_def preimage_def
        ref_taxonomy_env_def ref_define_def ref_signature_def Let_def)
qed

lemma ref_ids:
  obtains a b where "accepted_define ref_taxonomy_env ref_unicode [] (ref_define [65, 99]) a"
    "accepted_define ref_taxonomy_env ref_unicode [] (ref_define [66, 100]) b" "a \<noteq> b"
proof -
  let ?a = "method_id ref_taxonomy_env (spm_method (ref_define [65, 99]))"
  let ?b = "method_id ref_taxonomy_env (spm_method (ref_define [66, 100]))"
  have "?a = Some (the ?a)" "?b = Some (the ?b)" "the ?a \<noteq> the ?b"
    by (simp_all add: method_id_def ref_taxonomy_env_def ref_node_env_def ref_define_def
        json_method_def json_text_def id_bytes_def DIGEST_HEX_LEN_def hex_bytes_def hex_digit_def
        char_of_eq_iff)
  then show ?thesis
    by (intro that [of "the ?a" "the ?b"])
      (simp_all add: accepted_define_def ref_define_verified ref_names_valid)
qed

theorem definitions_converge_witness:
  "set [ref_define [65, 99], ref_define [66, 100]] = set [ref_define [66, 100], ref_define [65, 99]]
   \<and> fst ` set (define_all ref_taxonomy_env ref_unicode [] [ref_define [65, 99], ref_define [66, 100]] [])
       = fst ` set (define_all ref_taxonomy_env ref_unicode [] [ref_define [66, 100], ref_define [65, 99]] [])
   \<and> length (define_all ref_taxonomy_env ref_unicode [] [ref_define [65, 99], ref_define [66, 100]] []) = 2"
proof (intro conjI)
  show sets: "set [ref_define [65, 99], ref_define [66, 100]] = set [ref_define [66, 100], ref_define [65, 99]]"
    by auto
  show "fst ` set (define_all ref_taxonomy_env ref_unicode [] [ref_define [65, 99], ref_define [66, 100]] [])
       = fst ` set (define_all ref_taxonomy_env ref_unicode [] [ref_define [66, 100], ref_define [65, 99]] [])"
    using definitions_converge [OF ref_taxonomy_ok sets] by blast
  show "length (define_all ref_taxonomy_env ref_unicode [] [ref_define [65, 99], ref_define [66, 100]] []) = 2"
  proof -
    obtain a b where ids: "accepted_define ref_taxonomy_env ref_unicode [] (ref_define [65, 99]) a"
      "accepted_define ref_taxonomy_env ref_unicode [] (ref_define [66, 100]) b" "a \<noteq> b"
      by (rule ref_ids)
    show ?thesis
      using ids(3)
      by (simp add: define_all_def define_accepted [OF ids(1)] define_accepted [OF ids(2)]
          for_merchant_def MAX_METHODS_PER_MERCHANT_def)
  qed
qed

end
