(* ===== verification/Advertisements.thy ===== *)
theory Advertisements
  imports Pricing Payment_Methods
begin

text \<open>
  The replicated advertisement index (\<open>crates/advertisements\<close>): the record, the four
  merchant-signed events, the two liquidity adjustments reservations drive, the gossip
  dispatcher, and the order-book query with its paging cursor.

  \<open>Timestamp::now()\<close> is the argument \<open>now\<close>. An operation returns the new store; the id a
  creating operation also returns is the one in its message.
\<close>


section \<open>Records and events\<close>

type_synonym AdvertisementId = string
type_synonym MintAddress = string
type_synonym FiatCurrency = string

datatype Direction = Sell | Buy

datatype AdvertisementStatus = AS_Active | AS_Disabled | AS_Vacation | AS_Deleted

record Advertisement =
  ad_id :: AdvertisementId
  ad_merchant :: peer_id
  ad_merchant_public_key :: public_key
  ad_asset_mint :: MintAddress
  ad_direction :: Direction
  ad_fiat_currency :: FiatCurrency
  ad_min_trade :: Amount
  ad_max_trade :: Amount
  ad_available_liquidity :: Amount
  ad_pricing :: PricingModel
  ad_payment_methods :: "PaymentMethodRef list"
  ad_status :: AdvertisementStatus
  ad_created_at :: timestamp
  ad_updated_at :: timestamp

datatype AdvertisementError =
    AE_InvalidSignature
  | AE_UnauthorizedUpdate
  | AE_DuplicateAdvertisementId
  | AE_MalformedAdvertisement
  | AE_NegativeLiquidity
  | AE_AdvertisementNotFound
  | AE_InsufficientLiquidity
  | AE_AdvertisementDeleted
  | AE_UnusableTerms

record AdvertisementCreate =
  ac_id :: AdvertisementId
  ac_merchant :: peer_id
  ac_merchant_public_key :: public_key
  ac_asset_mint :: MintAddress
  ac_direction :: Direction
  ac_fiat_currency :: FiatCurrency
  ac_min_trade :: Amount
  ac_max_trade :: Amount
  ac_initial_liquidity :: Amount
  ac_pricing :: PricingModel
  ac_payment_methods :: "PaymentMethodRef list"
  ac_timestamp :: timestamp

record AdvertisementStatusSet =
  ast_id :: AdvertisementId
  ast_merchant :: peer_id
  ast_status :: AdvertisementStatus
  ast_timestamp :: timestamp

record AdvertisementTermsUpdate =
  atu_id :: AdvertisementId
  atu_merchant :: peer_id
  atu_min_trade :: Amount
  atu_max_trade :: Amount
  atu_payment_methods :: "PaymentMethodRef list"
  atu_timestamp :: timestamp

record AdvertisementPriceUpdate =
  apu_id :: AdvertisementId
  apu_merchant :: peer_id
  apu_pricing :: PricingModel
  apu_timestamp :: timestamp

text \<open>A signed event is the payload and its signature.\<close>

type_synonym 'm with_signature = "'m \<times> signature"

type_synonym SignedAdvertisementCreate = "AdvertisementCreate with_signature"
type_synonym SignedAdvertisementStatusSet = "AdvertisementStatusSet with_signature"
type_synonym SignedAdvertisementTermsUpdate = "AdvertisementTermsUpdate with_signature"
type_synonym SignedAdvertisementPriceUpdate = "AdvertisementPriceUpdate with_signature"

fun json_direction :: "Direction \<Rightarrow> json" where
  "json_direction Sell = JStr ''Sell''"
| "json_direction Buy = JStr ''Buy''"

fun json_ad_status :: "AdvertisementStatus \<Rightarrow> json" where
  "json_ad_status AS_Active = JStr ''Active''"
| "json_ad_status AS_Disabled = JStr ''Disabled''"
| "json_ad_status AS_Vacation = JStr ''Vacation''"
| "json_ad_status AS_Deleted = JStr ''Deleted''"

fun json_pricing :: "PricingModel \<Rightarrow> json" where
  "json_pricing (Fixed price) = JObj [(''Fixed'', JObj [(''price'', json_amount price)])]"
| "json_pricing (Floating provider bps d) =
     JObj [(''Floating'', JObj [(''oracle_provider'', JStr provider), (''premium_bps'', JInt bps),
                               (''price_decimals'', JInt (uint d))])]"

definition json_ad_create :: "AdvertisementCreate \<Rightarrow> json" where
  "json_ad_create c = JObj
     [(''id'', JStr (ac_id c)), (''merchant'', JStr (ac_merchant c)),
      (''merchant_public_key'', JStr (ac_merchant_public_key c)),
      (''asset_mint'', JStr (ac_asset_mint c)), (''direction'', json_direction (ac_direction c)),
      (''fiat_currency'', JStr (ac_fiat_currency c)), (''min_trade'', json_amount (ac_min_trade c)),
      (''max_trade'', json_amount (ac_max_trade c)),
      (''initial_liquidity'', json_amount (ac_initial_liquidity c)),
      (''pricing'', json_pricing (ac_pricing c)),
      (''payment_methods'', JArr (map JStr (ac_payment_methods c))),
      (''timestamp'', json_u64 (ac_timestamp c))]"

definition json_ad_status_set :: "AdvertisementStatusSet \<Rightarrow> json" where
  "json_ad_status_set c = JObj
     [(''id'', JStr (ast_id c)), (''merchant'', JStr (ast_merchant c)),
      (''status'', json_ad_status (ast_status c)), (''timestamp'', json_u64 (ast_timestamp c))]"

definition json_ad_terms :: "AdvertisementTermsUpdate \<Rightarrow> json" where
  "json_ad_terms c = JObj
     [(''id'', JStr (atu_id c)), (''merchant'', JStr (atu_merchant c)),
      (''min_trade'', json_amount (atu_min_trade c)), (''max_trade'', json_amount (atu_max_trade c)),
      (''payment_methods'', JArr (map JStr (atu_payment_methods c))),
      (''timestamp'', json_u64 (atu_timestamp c))]"

definition json_ad_price :: "AdvertisementPriceUpdate \<Rightarrow> json" where
  "json_ad_price c = JObj
     [(''id'', JStr (apu_id c)), (''merchant'', JStr (apu_merchant c)),
      (''pricing'', json_pricing (apu_pricing c)), (''timestamp'', json_u64 (apu_timestamp c))]"

definition verify_ad_create ::
  "'z node_env_scheme \<Rightarrow> SignedAdvertisementCreate \<Rightarrow> AdvertisementError + 'a \<Rightarrow> AdvertisementError + 'a" where
  "verify_ad_create env msg k =
     check_self_signed env ''openfiat/advertisements/AdvertisementCreate/v1''
       (json_ad_create (fst msg)) (ac_merchant_public_key (fst msg)) (ac_merchant (fst msg)) (snd msg)
       AE_MalformedAdvertisement AE_InvalidSignature AE_UnauthorizedUpdate k"


section \<open>The registry\<close>

record ad_store =
  advertisements :: "Advertisement column"

definition ad_get :: "'s ad_store_scheme \<Rightarrow> AdvertisementId \<Rightarrow> Advertisement option" where
  "ad_get st i = map_of (advertisements st) i"

definition ad_put :: "Advertisement \<Rightarrow> 's ad_store_scheme \<Rightarrow> 's ad_store_scheme" where
  "ad_put ad st = st\<lparr>advertisements := bt_insert (ad_id ad) ad (advertisements st)\<rparr>"

definition ad_all :: "'s ad_store_scheme \<Rightarrow> Advertisement list" where
  "ad_all st = map snd (advertisements st)"

definition find_active :: "'s ad_store_scheme \<Rightarrow> Direction \<Rightarrow> Advertisement list" where
  "find_active st dir = filter (\<lambda>ad. ad_direction ad = dir \<and> ad_status ad = AS_Active) (ad_all st)"

definition check_terms ::
  "Amount \<Rightarrow> Amount \<Rightarrow> PaymentMethodRef list \<Rightarrow> peer_id \<Rightarrow> AdvertisementError + 'a \<Rightarrow> AdvertisementError + 'a" where
  "check_terms min_trade max_trade methods merchant k =
     require (methods \<noteq> []) AE_UnusableTerms
     (require (list_all (\<lambda>m. is_selectable_by m merchant) methods) AE_UnusableTerms
     (require (decimals min_trade = decimals max_trade \<and> base_units min_trade \<le> base_units max_trade)
        AE_UnusableTerms k))"

definition apply_create ::
  "'z node_env_scheme \<Rightarrow> SignedAdvertisementCreate \<Rightarrow> 's ad_store_scheme
   \<Rightarrow> AdvertisementError + 's ad_store_scheme" where
  "apply_create env msg st =
     (let c = fst msg in
      verify_ad_create env msg
      (require (ad_get st (ac_id c) = None) AE_DuplicateAdvertisementId
      (check_terms (ac_min_trade c) (ac_max_trade c) (ac_payment_methods c) (ac_merchant c)
      (Inr (ad_put \<lparr>
         ad_id = ac_id c, ad_merchant = ac_merchant c,
         ad_merchant_public_key = ac_merchant_public_key c, ad_asset_mint = ac_asset_mint c,
         ad_direction = ac_direction c, ad_fiat_currency = ac_fiat_currency c,
         ad_min_trade = ac_min_trade c, ad_max_trade = ac_max_trade c,
         ad_available_liquidity = ac_initial_liquidity c, ad_pricing = ac_pricing c,
         ad_payment_methods = ac_payment_methods c, ad_status = AS_Active,
         ad_created_at = ac_timestamp c, ad_updated_at = ac_timestamp c\<rparr> st)))))"

text \<open>The checks every merchant-signed edit shares.\<close>

definition authorize ::
  "'z node_env_scheme \<Rightarrow> 's ad_store_scheme \<Rightarrow> AdvertisementId \<Rightarrow> peer_id \<Rightarrow> u8 list \<Rightarrow> signature
   \<Rightarrow> (Advertisement \<Rightarrow> AdvertisementError + 'a) \<Rightarrow> AdvertisementError + 'a" where
  "authorize env st i merchant bytes sig k =
     ok_or (ad_get st i) AE_AdvertisementNotFound (\<lambda>ad.
     require (verify_signature env (ad_merchant_public_key ad) bytes sig) AE_InvalidSignature
     (require (ad_merchant ad = merchant) AE_UnauthorizedUpdate
     (require (ad_status ad \<noteq> AS_Deleted) AE_AdvertisementDeleted (k ad))))"

definition apply_status_set ::
  "'z node_env_scheme \<Rightarrow> SignedAdvertisementStatusSet \<Rightarrow> 's ad_store_scheme
   \<Rightarrow> AdvertisementError + 's ad_store_scheme" where
  "apply_status_set env msg st =
     (let c = fst msg in
      ok_or (preimage env ''openfiat/advertisements/AdvertisementStatusSet/v1'' (json_ad_status_set c))
        AE_MalformedAdvertisement (\<lambda>bytes.
      authorize env st (ast_id c) (ast_merchant c) bytes (snd msg) (\<lambda>ad.
      require (\<not> (ast_status c = AS_Active \<and> base_units (ad_available_liquidity ad) = 0))
        AE_InsufficientLiquidity
      (Inr (ad_put (ad\<lparr>ad_status := ast_status c, ad_updated_at := ast_timestamp c\<rparr>) st)))))"

definition apply_terms_update ::
  "'z node_env_scheme \<Rightarrow> SignedAdvertisementTermsUpdate \<Rightarrow> 's ad_store_scheme
   \<Rightarrow> AdvertisementError + 's ad_store_scheme" where
  "apply_terms_update env msg st =
     (let c = fst msg in
      ok_or (preimage env ''openfiat/advertisements/AdvertisementTermsUpdate/v1'' (json_ad_terms c))
        AE_MalformedAdvertisement (\<lambda>bytes.
      authorize env st (atu_id c) (atu_merchant c) bytes (snd msg) (\<lambda>ad.
      check_terms (atu_min_trade c) (atu_max_trade c) (atu_payment_methods c) (atu_merchant c)
      (Inr (ad_put (ad\<lparr>ad_min_trade := atu_min_trade c, ad_max_trade := atu_max_trade c,
                       ad_payment_methods := atu_payment_methods c,
                       ad_updated_at := atu_timestamp c\<rparr>) st)))))"

definition apply_pricing_update ::
  "'z node_env_scheme \<Rightarrow> SignedAdvertisementPriceUpdate \<Rightarrow> 's ad_store_scheme
   \<Rightarrow> AdvertisementError + 's ad_store_scheme" where
  "apply_pricing_update env msg st =
     (let c = fst msg in
      ok_or (preimage env ''openfiat/advertisements/AdvertisementPriceUpdate/v1'' (json_ad_price c))
        AE_MalformedAdvertisement (\<lambda>bytes.
      authorize env st (apu_id c) (apu_merchant c) bytes (snd msg) (\<lambda>ad.
      Inr (ad_put (ad\<lparr>ad_pricing := apu_pricing c, ad_updated_at := apu_timestamp c\<rparr>) st))))"

definition reserve_liquidity ::
  "timestamp \<Rightarrow> AdvertisementId \<Rightarrow> Amount \<Rightarrow> 's ad_store_scheme
   \<Rightarrow> AdvertisementError + 's ad_store_scheme" where
  "reserve_liquidity now i amount st =
     ok_or (ad_get st i) AE_AdvertisementNotFound (\<lambda>ad.
     ok_or (amount_checked_sub (ad_available_liquidity ad) amount) AE_InsufficientLiquidity (\<lambda>remaining.
     Inr (ad_put (ad\<lparr>ad_available_liquidity := remaining,
                     ad_status := if base_units remaining = 0 then AS_Disabled else ad_status ad,
                     ad_updated_at := now\<rparr>) st)))"

definition release_liquidity ::
  "timestamp \<Rightarrow> AdvertisementId \<Rightarrow> Amount \<Rightarrow> 's ad_store_scheme
   \<Rightarrow> AdvertisementError + 's ad_store_scheme" where
  "release_liquidity now i amount st =
     ok_or (ad_get st i) AE_AdvertisementNotFound (\<lambda>ad.
     ok_or (amount_checked_add (ad_available_liquidity ad) amount) AE_MalformedAdvertisement (\<lambda>returned.
     Inr (ad_put (ad\<lparr>ad_available_liquidity := returned, ad_updated_at := now\<rparr>) st)))"

record ad_wire = node_env +
  de_ad_create :: "u8 list \<Rightarrow> SignedAdvertisementCreate option"
  de_ad_status_set :: "u8 list \<Rightarrow> SignedAdvertisementStatusSet option"
  de_ad_terms_update :: "u8 list \<Rightarrow> SignedAdvertisementTermsUpdate option"
  de_ad_price_update :: "u8 list \<Rightarrow> SignedAdvertisementPriceUpdate option"

definition ad_apply_event ::
  "'z ad_wire_scheme \<Rightarrow> EventEnvelope \<Rightarrow> 's ad_store_scheme \<Rightarrow> 's ad_store_scheme" where
  "ad_apply_event env ev st =
     (if ev_ofs_spec ev \<noteq> 2100 then st
      else if ev_event_type ev = ''AdvertisementCreated''
        then apply_payload (de_ad_create env) ev (\<lambda>m. apply_create env m st) st
      else if ev_event_type ev = ''AdvertisementStatusSet''
        then apply_payload (de_ad_status_set env) ev (\<lambda>m. apply_status_set env m st) st
      else if ev_event_type ev = ''AdvertisementTermsUpdated''
        then apply_payload (de_ad_terms_update env) ev (\<lambda>m. apply_terms_update env m st) st
      else if ev_event_type ev = ''AdvertisementPricingUpdated''
        then apply_payload (de_ad_price_update env) ev (\<lambda>m. apply_pricing_update env m st) st
      else st)"


section \<open>Reading the order book\<close>

definition MAX_PAGE :: nat where "MAX_PAGE = 100"
definition DEFAULT_PAGE :: nat where "DEFAULT_PAGE = 25"

record AdvertisementFilter =
  af_asset_mint :: "MintAddress option"
  af_fiat_currency :: "FiatCurrency option"
  af_direction :: "Direction option"
  af_payment_method :: "PaymentMethodRef option"
  af_amount :: "Amount option"
  af_merchant :: "peer_id option"
  af_statuses :: "AdvertisementStatus list option"

record Page =
  page_after :: "AdvertisementId option"
  page_limit :: "nat option"

definition clamped_limit :: "Page \<Rightarrow> nat" where
  "clamped_limit p = max 1 (min MAX_PAGE (case page_limit p of None \<Rightarrow> DEFAULT_PAGE | Some l \<Rightarrow> l))"

record AdvertisementPage =
  ap_advertisements :: "Advertisement list"
  ap_next_cursor :: "AdvertisementId option"

definition status_wanted :: "AdvertisementFilter \<Rightarrow> Advertisement \<Rightarrow> bool" where
  "status_wanted f ad =
     (case af_statuses f of
        Some wanted \<Rightarrow> ad_status ad \<in> set wanted
      | None \<Rightarrow> ad_status ad = AS_Active)"

definition wants :: "'a option \<Rightarrow> 'a \<Rightarrow> bool" where
  "wants constraint x = (case constraint of None \<Rightarrow> True | Some y \<Rightarrow> x = y)"

definition filter_matches :: "AdvertisementFilter \<Rightarrow> Advertisement \<Rightarrow> bool" where
  "filter_matches f ad =
     (status_wanted f ad
      \<and> wants (af_merchant f) (ad_merchant ad)
      \<and> wants (af_asset_mint f) (ad_asset_mint ad)
      \<and> wants (af_fiat_currency f) (ad_fiat_currency ad)
      \<and> wants (af_direction f) (ad_direction ad)
      \<and> (case af_payment_method f of None \<Rightarrow> True | Some m \<Rightarrow> m \<in> set (ad_payment_methods ad))
      \<and> (case af_amount f of
           None \<Rightarrow> True
         | Some a \<Rightarrow> decimals a = decimals (ad_min_trade ad)
                    \<and> base_units (ad_min_trade ad) \<le> base_units a
                    \<and> base_units a \<le> base_units (ad_max_trade ad)
                    \<and> base_units a \<le> base_units (ad_available_liquidity ad)))"

text \<open>
  \<open>partition_point\<close> of a slice sorted by id is the length of the leading run at or below the
  cursor.
\<close>

definition page :: "Advertisement list \<Rightarrow> AdvertisementFilter \<Rightarrow> Page \<Rightarrow> AdvertisementPage" where
  "page ads f p =
     (let matching = sort_key ad_id (filter (filter_matches f) ads);
          start = (case page_after p of
                     Some cursor \<Rightarrow> length (takeWhile (\<lambda>ad. ad_id ad \<le> cursor) matching)
                   | None \<Rightarrow> 0);
          limit = clamped_limit p;
          rows = take limit (drop start matching)
      in \<lparr>ap_advertisements = rows,
          ap_next_cursor = (if length rows = limit then Some (ad_id (last rows)) else None)\<rparr>)"

text \<open>A reader that follows the cursor until there is none, for at most \<open>n\<close> requests.\<close>

fun read_pages ::
  "nat \<Rightarrow> Advertisement list \<Rightarrow> AdvertisementFilter \<Rightarrow> Page \<Rightarrow> Advertisement list option" where
  "read_pages 0 ads f p = None"
| "read_pages (Suc n) ads f p =
     (let r = page ads f p
      in case ap_next_cursor r of
           None \<Rightarrow> Some (ap_advertisements r)
         | Some c \<Rightarrow> map_option ((@) (ap_advertisements r)) (read_pages n ads f (p\<lparr>page_after := Some c\<rparr>)))"


section \<open>What the registry keeps\<close>

text \<open>
  The invariant of the index: entries sit under their own id, the merchant's identity derives
  from the key edits are checked against, and the terms can be traded against.
\<close>

definition usable_terms :: "Advertisement \<Rightarrow> bool" where
  "usable_terms ad \<longleftrightarrow>
     ad_payment_methods ad \<noteq> []
     \<and> list_all (\<lambda>m. is_selectable_by m (ad_merchant ad)) (ad_payment_methods ad)
     \<and> decimals (ad_min_trade ad) = decimals (ad_max_trade ad)
     \<and> base_units (ad_min_trade ad) \<le> base_units (ad_max_trade ad)"

definition ad_wf :: "'z node_env_scheme \<Rightarrow> Advertisement \<Rightarrow> bool" where
  "ad_wf env ad \<longleftrightarrow>
     peer_id_from_public_key env (ad_merchant_public_key ad) = Some (ad_merchant ad) \<and> usable_terms ad"

definition ads_inv :: "'z node_env_scheme \<Rightarrow> 's ad_store_scheme \<Rightarrow> bool" where
  "ads_inv env st \<longleftrightarrow>
     bt_wf (advertisements st)
     \<and> (\<forall>i ad. ad_get st i = Some ad \<longrightarrow> ad_id ad = i \<and> ad_wf env ad)"

text \<open>What no later event changes about an advertisement.\<close>

definition same_offer :: "Advertisement \<Rightarrow> Advertisement \<Rightarrow> bool" where
  "same_offer a b \<longleftrightarrow>
     ad_id a = ad_id b \<and> ad_merchant a = ad_merchant b
     \<and> ad_merchant_public_key a = ad_merchant_public_key b \<and> ad_asset_mint a = ad_asset_mint b
     \<and> ad_direction a = ad_direction b \<and> ad_fiat_currency a = ad_fiat_currency b
     \<and> ad_created_at a = ad_created_at b
     \<and> decimals (ad_available_liquidity a) = decimals (ad_available_liquidity b)"

lemma ad_get_put [simp]:
  "ad_get (ad_put ad st) i = (if i = ad_id ad then Some ad else ad_get st i)"
  by (simp add: ad_get_def ad_put_def)

lemma advertisements_put [simp]:
  "advertisements (ad_put ad st) = bt_insert (ad_id ad) ad (advertisements st)"
  by (simp add: ad_put_def)

lemma ads_inv_put:
  "ads_inv env st \<Longrightarrow> ad_wf env ad \<Longrightarrow> ads_inv env (ad_put ad st)"
  by (auto simp: ads_inv_def)

lemma ads_inv_entry:
  "ads_inv env st \<Longrightarrow> ad_get st i = Some ad \<Longrightarrow> ad_id ad = i \<and> ad_wf env ad"
  by (simp add: ads_inv_def)

lemma ads_inv_empty [simp, intro]: "advertisements st = [] \<Longrightarrow> ads_inv env st"
  by (simp add: ads_inv_def ad_get_def)

lemma check_terms_Inr [simp]:
  "check_terms mn mx ms p k = Inr x \<longleftrightarrow>
     ms \<noteq> [] \<and> list_all (\<lambda>m. is_selectable_by m p) ms \<and> decimals mn = decimals mx
     \<and> base_units mn \<le> base_units mx \<and> k = Inr x"
  by (simp add: check_terms_def)

lemma authorize_Inr:
  "authorize env st i p bytes sig k = Inr x \<longleftrightarrow>
     (\<exists>ad. ad_get st i = Some ad \<and> verify_signature env (ad_merchant_public_key ad) bytes sig
        \<and> ad_merchant ad = p \<and> ad_status ad \<noteq> AS_Deleted \<and> k ad = Inr x)"
  by (auto simp: authorize_def)

text \<open>
  A merchant's edit, in one shape: it replaces one live advertisement by another of the same
  offer with the same liquidity, and it carries that merchant's signature.
\<close>

lemma apply_status_set_edit:
  assumes "apply_status_set env (c, sig) st = Inr st'"
  obtains ad where "ad_get st (ast_id c) = Some ad" "ad_status ad \<noteq> AS_Deleted"
    "signed_by env ''openfiat/advertisements/AdvertisementStatusSet/v1'' (json_ad_status_set c)
       (ad_merchant_public_key ad) sig"
    "st' = ad_put (ad\<lparr>ad_status := ast_status c, ad_updated_at := ast_timestamp c\<rparr>) st"
  using assms by (auto simp: apply_status_set_def Let_def authorize_Inr signed_by_def)

lemma apply_terms_update_edit:
  assumes "apply_terms_update env (c, sig) st = Inr st'"
  obtains ad where "ad_get st (atu_id c) = Some ad" "ad_status ad \<noteq> AS_Deleted"
    "signed_by env ''openfiat/advertisements/AdvertisementTermsUpdate/v1'' (json_ad_terms c)
       (ad_merchant_public_key ad) sig"
    "ad_merchant ad = atu_merchant c" "atu_payment_methods c \<noteq> []"
    "list_all (\<lambda>m. is_selectable_by m (atu_merchant c)) (atu_payment_methods c)"
    "decimals (atu_min_trade c) = decimals (atu_max_trade c)"
    "base_units (atu_min_trade c) \<le> base_units (atu_max_trade c)"
    "st' = ad_put (ad\<lparr>ad_min_trade := atu_min_trade c, ad_max_trade := atu_max_trade c,
       ad_payment_methods := atu_payment_methods c, ad_updated_at := atu_timestamp c\<rparr>) st"
  using assms by (auto simp: apply_terms_update_def Let_def authorize_Inr signed_by_def)

lemma apply_pricing_update_edit:
  assumes "apply_pricing_update env (c, sig) st = Inr st'"
  obtains ad where "ad_get st (apu_id c) = Some ad" "ad_status ad \<noteq> AS_Deleted"
    "signed_by env ''openfiat/advertisements/AdvertisementPriceUpdate/v1'' (json_ad_price c)
       (ad_merchant_public_key ad) sig"
    "st' = ad_put (ad\<lparr>ad_pricing := apu_pricing c, ad_updated_at := apu_timestamp c\<rparr>) st"
  using assms by (auto simp: apply_pricing_update_def Let_def authorize_Inr signed_by_def)

lemma apply_create_new:
  assumes "apply_create env (c, sig) st = Inr st'"
  obtains ad where "ad_get st (ac_id c) = None" "st' = ad_put ad st" "ad_id ad = ac_id c"
    "ad_wf env ad" "ad_available_liquidity ad = ac_initial_liquidity c"
    "signed_by env ''openfiat/advertisements/AdvertisementCreate/v1'' (json_ad_create c)
       (ad_merchant_public_key ad) sig"
  using assms
  by (auto simp: apply_create_def verify_ad_create_def Let_def ad_wf_def usable_terms_def)

lemma same_offer_refl [simp]: "same_offer a a"
  by (simp add: same_offer_def)

text \<open>Liquidity moves by exactly the amount asked, in the same decimals.\<close>

lemma reserve_liquidity_Inr:
  assumes "reserve_liquidity now i amount st = Inr st'"
  obtains ad remaining where "ad_get st i = Some ad"
    "decimals (ad_available_liquidity ad) = decimals amount"
    "decimals remaining = decimals amount"
    "units (ad_available_liquidity ad) = units amount + units remaining"
    "st' = ad_put (ad\<lparr>ad_available_liquidity := remaining,
                     ad_status := if base_units remaining = 0 then AS_Disabled else ad_status ad,
                     ad_updated_at := now\<rparr>) st"
  using assms by (auto simp: reserve_liquidity_def num_simps)

lemma release_liquidity_Inr:
  assumes "release_liquidity now i amount st = Inr st'"
  obtains ad returned where "ad_get st i = Some ad"
    "decimals (ad_available_liquidity ad) = decimals amount"
    "decimals returned = decimals amount"
    "units returned = units (ad_available_liquidity ad) + units amount"
    "st' = ad_put (ad\<lparr>ad_available_liquidity := returned, ad_updated_at := now\<rparr>) st"
  using assms by (auto simp: release_liquidity_def num_simps)

lemma release_liquidity_fits:
  assumes "ad_get st i = Some ad" "decimals (ad_available_liquidity ad) = decimals amount"
    "units (ad_available_liquidity ad) + units amount < 2 ^ 64"
  obtains st' where "release_liquidity now i amount st = Inr st'"
proof -
  obtain c where "amount_checked_add (ad_available_liquidity ad) amount = Some c"
    using amount_checked_add_fits [OF assms(2,3)] by blast
  with assms(1) show ?thesis by (intro that) (simp add: release_liquidity_def)
qed

text \<open>Every operation keeps the invariant.\<close>

lemma ad_wf_edit:
  "ad_wf env ad \<Longrightarrow> ad_wf env (ad\<lparr>ad_status := s, ad_updated_at := t\<rparr>)"
  "ad_wf env ad \<Longrightarrow> ad_wf env (ad\<lparr>ad_pricing := m, ad_updated_at := t\<rparr>)"
  "ad_wf env ad \<Longrightarrow> ad_wf env (ad\<lparr>ad_available_liquidity := l, ad_status := s, ad_updated_at := t\<rparr>)"
  "ad_wf env ad \<Longrightarrow> ad_wf env (ad\<lparr>ad_available_liquidity := l, ad_updated_at := t\<rparr>)"
  by (simp_all add: ad_wf_def usable_terms_def)

lemma ads_inv_create:
  assumes "ads_inv env st" "apply_create env msg st = Inr st'"
  shows "ads_inv env st'"
  using assms by (cases msg) (auto elim!: apply_create_new intro: ads_inv_put)

lemma ads_inv_status_set:
  assumes "ads_inv env st" "apply_status_set env msg st = Inr st'"
  shows "ads_inv env st'"
  using assms by (cases msg) (auto elim!: apply_status_set_edit intro!: ads_inv_put ad_wf_edit
      dest: ads_inv_entry)

lemma ads_inv_terms_update:
  assumes "ads_inv env st" "apply_terms_update env msg st = Inr st'"
  shows "ads_inv env st'"
  using assms by (cases msg) (auto elim!: apply_terms_update_edit intro!: ads_inv_put
      simp: ad_wf_def usable_terms_def dest: ads_inv_entry)

lemma ads_inv_pricing_update:
  assumes "ads_inv env st" "apply_pricing_update env msg st = Inr st'"
  shows "ads_inv env st'"
  using assms by (cases msg) (auto elim!: apply_pricing_update_edit intro!: ads_inv_put ad_wf_edit
      dest: ads_inv_entry)

lemma ads_inv_reserve:
  assumes "ads_inv env st" "reserve_liquidity now i amount st = Inr st'"
  shows "ads_inv env st'"
  using assms(2)
proof (rule reserve_liquidity_Inr)
  fix ad remaining
  assume "ad_get st i = Some ad" and st': "st' = ad_put (ad\<lparr>ad_available_liquidity := remaining,
                     ad_status := if base_units remaining = 0 then AS_Disabled else ad_status ad,
                     ad_updated_at := now\<rparr>) st"
  then show ?thesis
    unfolding st' using assms(1) by (blast intro: ads_inv_put ad_wf_edit dest: ads_inv_entry)
qed

lemma ads_inv_release:
  assumes "ads_inv env st" "release_liquidity now i amount st = Inr st'"
  shows "ads_inv env st'"
  using assms(2)
proof (rule release_liquidity_Inr)
  fix ad returned
  assume "ad_get st i = Some ad"
    and st': "st' = ad_put (ad\<lparr>ad_available_liquidity := returned, ad_updated_at := now\<rparr>) st"
  then show ?thesis
    unfolding st' using assms(1) by (blast intro: ads_inv_put ad_wf_edit dest: ads_inv_entry)
qed

lemma ad_apply_event_cases:
  assumes "P st"
    and "\<And>m st'. apply_create env m st = Inr st' \<Longrightarrow> P st'"
    and "\<And>m st'. apply_status_set env m st = Inr st' \<Longrightarrow> P st'"
    and "\<And>m st'. apply_terms_update env m st = Inr st' \<Longrightarrow> P st'"
    and "\<And>m st'. apply_pricing_update env m st = Inr st' \<Longrightarrow> P st'"
  shows "P (ad_apply_event env ev st)"
  unfolding ad_apply_event_def using assms by (auto intro: apply_payload_cases)

lemma ads_inv_event: "ads_inv env st \<Longrightarrow> ads_inv env (ad_apply_event env ev st)"
  by (rule ad_apply_event_cases)
    (blast intro: ads_inv_create ads_inv_status_set ads_inv_terms_update ads_inv_pricing_update)+


section \<open>Paging\<close>

definition by_id :: "Advertisement list \<Rightarrow> bool" where
  "by_id ads \<longleftrightarrow> sorted_wrt (\<lambda>a b. ad_id a < ad_id b) ads"

lemma by_id_matching:
  assumes "distinct (map ad_id ads)"
  shows "by_id (sort_key ad_id (filter f ads))"
proof -
  have "distinct (map ad_id (sort_key ad_id (filter f ads)))"
    using assms by (simp add: distinct_map inj_on_def)
  then have "sorted_wrt (<) (map ad_id (sort_key ad_id (filter f ads)))"
    by (simp add: strict_sorted_iff)
  then show ?thesis by (simp add: by_id_def sorted_wrt_map)
qed

lemma by_id_append:
  "by_id (xs @ ys) \<longleftrightarrow> by_id xs \<and> by_id ys \<and> (\<forall>x \<in> set xs. \<forall>y \<in> set ys. ad_id x < ad_id y)"
  by (simp add: by_id_def sorted_wrt_append)

lemma resume_after:
  assumes "by_id (before @ rows @ rest)" "rows \<noteq> []"
  shows "dropWhile (\<lambda>ad. ad_id ad \<le> ad_id (last rows)) (before @ rows @ rest) = rest"
proof -
  have "by_id (butlast rows @ [last rows])"
    using assms by (simp add: by_id_append)
  then have "ad_id a \<le> ad_id (last rows)" if "a \<in> set rows" for a
    using that assms(2) append_butlast_last_id [OF assms(2)]
    by (metis Un_iff by_id_append list.set_intros(1) order.refl order_less_imp_le set_ConsD set_append
        empty_iff empty_set)
  moreover have "ad_id a < ad_id (last rows)" if "a \<in> set before" for a
    using that assms by (auto simp: by_id_append)
  moreover have "dropWhile (\<lambda>ad. ad_id ad \<le> ad_id (last rows)) rest = rest"
    using assms by (cases rest) (auto simp: by_id_append not_le)
  ultimately show ?thesis
    by (simp add: dropWhile_append3 dropWhile_append2 less_imp_le)
qed

lemma dropWhile_by_id:
  "by_id ads \<Longrightarrow> dropWhile (\<lambda>ad. ad_id ad \<le> c) ads = filter (\<lambda>ad. c < ad_id ad) ads"
proof (induction ads)
  case (Cons a ads)
  show ?case
  proof (cases "ad_id a \<le> c")
    case False
    then have "\<forall>b \<in> set ads. c < ad_id b"
      using Cons.prems by (auto simp: by_id_def)
    with False show ?thesis by (simp add: filter_id_conv not_le)
  next
    case True
    with Cons show ?thesis by (simp add: by_id_def)
  qed
qed simp

text \<open>Where a cursor stands in the sorted book.\<close>

definition rows_after :: "Advertisement list \<Rightarrow> AdvertisementFilter \<Rightarrow> AdvertisementId option \<Rightarrow> Advertisement list" where
  "rows_after ads f after =
     (let m = sort_key ad_id (filter (filter_matches f) ads)
      in case after of None \<Rightarrow> m | Some c \<Rightarrow> dropWhile (\<lambda>ad. ad_id ad \<le> c) m)"

lemma rows_after_drop:
  "rows_after ads f a =
     drop (case a of Some c \<Rightarrow> length (takeWhile (\<lambda>ad. ad_id ad \<le> c)
                                  (sort_key ad_id (filter (filter_matches f) ads)))
                   | None \<Rightarrow> 0) (sort_key ad_id (filter (filter_matches f) ads))"
  by (simp add: rows_after_def Let_def dropWhile_eq_drop split: option.splits)

lemma page_rows: "ap_advertisements (page ads f p) = take (clamped_limit p) (rows_after ads f (page_after p))"
  by (simp add: page_def Let_def flip: rows_after_drop)

lemma page_cursor:
  "ap_next_cursor (page ads f p) =
     (let rows = take (clamped_limit p) (rows_after ads f (page_after p))
      in if length rows = clamped_limit p then Some (ad_id (last rows)) else None)"
  unfolding page_def Let_def rows_after_drop [symmetric] by simp

lemma clamped_limit_pos: "1 \<le> clamped_limit p"
  by (simp add: clamped_limit_def)

lemma clamped_limit_after [simp]: "clamped_limit (p\<lparr>page_after := a\<rparr>) = clamped_limit p"
  by (simp add: clamped_limit_def)

lemma rows_after_next:
  assumes "distinct (map ad_id ads)" "length (take l (rows_after ads f a)) = l" "1 \<le> l"
  shows "rows_after ads f (Some (ad_id (last (take l (rows_after ads f a)))))
           = drop l (rows_after ads f a)"
proof -
  define m where "m = sort_key ad_id (filter (filter_matches f) ads)"
  obtain s where s: "rows_after ads f a = drop s m"
    unfolding rows_after_drop m_def by blast
  let ?rows = "take l (drop s m)"
  have split: "m = take s m @ ?rows @ drop l (drop s m)"
    by (metis append_take_drop_id)
  have "?rows \<noteq> []" using assms(2,3) s by auto
  moreover have "by_id (take s m @ ?rows @ drop l (drop s m))"
    using split by_id_matching [OF assms(1), of "filter_matches f"] by (simp add: m_def)
  ultimately have "dropWhile (\<lambda>ad. ad_id ad \<le> ad_id (last ?rows)) (take s m @ ?rows @ drop l (drop s m))
      = drop l (drop s m)"
    by (rule resume_after [rotated])
  then have "dropWhile (\<lambda>ad. ad_id ad \<le> ad_id (last ?rows)) m = drop l (drop s m)"
    using split by simp
  then show ?thesis unfolding s by (simp add: rows_after_def Let_def m_def)
qed

lemma read_pages_all:
  assumes "distinct (map ad_id ads)" "length (rows_after ads f (page_after p)) < n"
  shows "read_pages n ads f p = Some (rows_after ads f (page_after p))"
  using assms
proof (induction n arbitrary: p)
  case (Suc n)
  let ?rest = "rows_after ads f (page_after p)" and ?l = "clamped_limit p"
  show ?case
  proof (cases "length (take ?l ?rest) = ?l")
    case False
    then show ?thesis by (simp add: page_cursor page_rows Let_def min_def split: if_splits)
  next
    case True
    let ?c = "ad_id (last (take ?l ?rest))"
    have next_rows: "rows_after ads f (Some ?c) = drop ?l ?rest"
      using rows_after_next [OF Suc.prems(1) True clamped_limit_pos] .
    have "length ?rest \<ge> ?l" using True by simp
    then have "length (drop ?l ?rest) < n"
      using Suc.prems(2) clamped_limit_pos [of p] by simp
    then have "read_pages n ads f (p\<lparr>page_after := Some ?c\<rparr>) = Some (drop ?l ?rest)"
      using Suc.IH [OF Suc.prems(1), of "p\<lparr>page_after := Some ?c\<rparr>"] next_rows by simp
    with True show ?thesis by (simp add: page_cursor page_rows Let_def)
  qed
qed simp

text \<open>
  Reading the order book page by page. Following the cursor until there is none terminates
  and shows every matching advertisement exactly once, in the order of their ids; and a page
  after a cursor is the first rows beyond it of the book as it then stands, whether or not the
  row the cursor names still exists.
\<close>

theorem order_book_paging:
  assumes "distinct (map ad_id ads)"
  shows "read_pages (Suc (length ads)) ads f (p\<lparr>page_after := None\<rparr>)
           = Some (sort_key ad_id (filter (filter_matches f) ads))
         \<and> ap_advertisements (page ads f (p\<lparr>page_after := Some c\<rparr>))
           = take (clamped_limit p) (filter (\<lambda>ad. c < ad_id ad) (sort_key ad_id (filter (filter_matches f) ads)))"
proof
  have "length (rows_after ads f None) < Suc (length ads)"
    by (simp add: rows_after_def le_imp_less_Suc)
  then show "read_pages (Suc (length ads)) ads f (p\<lparr>page_after := None\<rparr>)
           = Some (sort_key ad_id (filter (filter_matches f) ads))"
    using read_pages_all [OF assms, of f "p\<lparr>page_after := None\<rparr>" "Suc (length ads)"]
    by (simp add: rows_after_def)
  show "ap_advertisements (page ads f (p\<lparr>page_after := Some c\<rparr>))
           = take (clamped_limit p) (filter (\<lambda>ad. c < ad_id ad) (sort_key ad_id (filter (filter_matches f) ads)))"
    by (simp add: page_rows rows_after_def dropWhile_by_id [OF by_id_matching [OF assms]])
qed

text \<open>A concrete offer, for the witnesses.\<close>

definition ref_ad :: "AdvertisementId \<Rightarrow> Advertisement" where
  "ref_ad i = \<lparr>
     ad_id = i, ad_merchant = ''12D3KooWMerchant'', ad_merchant_public_key = ''12D3KooWMerchant'',
     ad_asset_mint = ''So11111111111111111111111111111111111111112'', ad_direction = Sell,
     ad_fiat_currency = ''KES'', ad_min_trade = \<lparr>base_units = 10, decimals = 6\<rparr>,
     ad_max_trade = \<lparr>base_units = 60, decimals = 6\<rparr>,
     ad_available_liquidity = \<lparr>base_units = 100, decimals = 6\<rparr>,
     ad_pricing = Fixed \<lparr>base_units = 129, decimals = 2\<rparr>,
     ad_payment_methods = [''builtin:mpesa-kenya''], ad_status = AS_Active,
     ad_created_at = 1000, ad_updated_at = 1000\<rparr>"

definition ref_filter :: AdvertisementFilter where
  "ref_filter = \<lparr>af_asset_mint = None, af_fiat_currency = Some ''KES'', af_direction = Some Sell,
     af_payment_method = None, af_amount = Some \<lparr>base_units = 50, decimals = 6\<rparr>,
     af_merchant = None, af_statuses = None\<rparr>"

theorem order_book_paging_witness:
  "distinct (map ad_id [ref_ad ''c'', ref_ad ''a'', ref_ad ''b''])
   \<and> read_pages (Suc (Suc (Suc (Suc 0)))) [ref_ad ''c'', ref_ad ''a'', ref_ad ''b''] ref_filter
       \<lparr>page_after = None, page_limit = Some 1\<rparr> = Some [ref_ad ''a'', ref_ad ''b'', ref_ad ''c'']
   \<and> ap_advertisements (page [ref_ad ''c'', ref_ad ''a'', ref_ad ''b''] ref_filter
       \<lparr>page_after = Some ''aa'', page_limit = Some 1\<rparr>) = [ref_ad ''b'']"
  using order_book_paging [of "[ref_ad ''c'', ref_ad ''a'', ref_ad ''b'']" ref_filter
      "\<lparr>page_after = None, page_limit = Some 1\<rparr>" "''aa''"]
  by (simp add: ref_ad_def ref_filter_def filter_matches_def status_wanted_def wants_def
      clamped_limit_def MAX_PAGE_def del: read_pages.simps)

end
