(* ===== verification/Reservations.thy ===== *)
theory Reservations
  imports Advertisements
begin

text \<open>
  The replicated reservation index (\<open>crates/reservations\<close>): requests that lock an
  advertisement's liquidity, cancellations and the expiry sweep that give it back, and the three
  transitions a settlement drives. The store extends the advertisement store, whose liquidity
  these operations move.

  A sweep reads the clock once. An addition of milliseconds that leaves \<open>u64\<close> panics.
\<close>


section \<open>Records and events\<close>

type_synonym ReservationId = string

datatype ReservationState = RS_EscrowLocked | RS_Settling | RS_Settled | RS_Cancelled | RS_Expired

record Reservation =
  rv_id :: ReservationId
  rv_advertisement_id :: AdvertisementId
  rv_requester :: peer_id
  rv_requester_public_key :: public_key
  rv_amount :: Amount
  rv_agreed_price :: Amount
  rv_agreed_mid :: "f64 option"
  rv_state :: ReservationState
  rv_requested_at :: timestamp
  rv_updated_at :: timestamp
  rv_expires_at :: timestamp

datatype ReservationError =
    RE_InvalidSignature
  | RE_UnauthorizedUpdate
  | RE_DuplicateReservationId
  | RE_MalformedReservation
  | RE_ReservationNotFound
  | RE_AdvertisementNotFound
  | RE_InvalidAmount
  | RE_InsufficientLiquidity
  | RE_InvalidReservationState
  | RE_SettlementInFlight
  | RE_PriceDisagreement
  | RE_TimestampTooFarAhead

definition VALIDATION_WINDOW :: u64 where "VALIDATION_WINDOW = 1800000"
definition MAX_CLOCK_SKEW :: u64 where "MAX_CLOCK_SKEW = 300000"

record ReservationRequest =
  rq_id :: ReservationId
  rq_advertisement_id :: AdvertisementId
  rq_requester :: peer_id
  rq_requester_public_key :: public_key
  rq_amount :: Amount
  rq_agreed_price :: Amount
  rq_agreed_mid :: "f64 option"
  rq_timestamp :: timestamp

record ReservationCancel =
  rc_id :: ReservationId
  rc_requester :: peer_id
  rc_timestamp :: timestamp

type_synonym SignedReservationRequest = "ReservationRequest with_signature"
type_synonym SignedReservationCancel = "ReservationCancel with_signature"

definition json_request :: "ReservationRequest \<Rightarrow> json" where
  "json_request r = JObj
     [(''id'', JStr (rq_id r)), (''advertisement_id'', JStr (rq_advertisement_id r)),
      (''requester'', JStr (rq_requester r)),
      (''requester_public_key'', JStr (rq_requester_public_key r)),
      (''amount'', json_amount (rq_amount r)), (''agreed_price'', json_amount (rq_agreed_price r)),
      (''agreed_mid'', json_option JFloat (rq_agreed_mid r)),
      (''timestamp'', json_u64 (rq_timestamp r))]"

definition json_cancel :: "ReservationCancel \<Rightarrow> json" where
  "json_cancel c = JObj
     [(''id'', JStr (rc_id c)), (''requester'', JStr (rc_requester c)),
      (''timestamp'', json_u64 (rc_timestamp c))]"

definition verify_request ::
  "'z node_env_scheme \<Rightarrow> SignedReservationRequest
   \<Rightarrow> ReservationError node_error + 'a \<Rightarrow> ReservationError node_error + 'a" where
  "verify_request env msg k =
     check_self_signed env ''openfiat/reservations/ReservationRequest/v1''
       (json_request (fst msg)) (rq_requester_public_key (fst msg)) (rq_requester (fst msg)) (snd msg)
       (Refused RE_MalformedReservation) (Refused RE_InvalidSignature) (Refused RE_UnauthorizedUpdate) k"


section \<open>The registry\<close>

record res_store = ad_store +
  reservations :: "Reservation column"

definition res_get :: "'s res_store_scheme \<Rightarrow> ReservationId \<Rightarrow> Reservation option" where
  "res_get st i = map_of (reservations st) i"

definition res_put :: "Reservation \<Rightarrow> 's res_store_scheme \<Rightarrow> 's res_store_scheme" where
  "res_put r st = st\<lparr>reservations := bt_insert (rv_id r) r (reservations st)\<rparr>"

definition res_all :: "'s res_store_scheme \<Rightarrow> Reservation list" where
  "res_all st = map snd (reservations st)"

definition new_reservation :: "ReservationRequest \<Rightarrow> timestamp \<Rightarrow> Reservation" where
  "new_reservation r expires_at = \<lparr>
     rv_id = rq_id r, rv_advertisement_id = rq_advertisement_id r,
     rv_requester = rq_requester r, rv_requester_public_key = rq_requester_public_key r,
     rv_amount = rq_amount r, rv_agreed_price = rq_agreed_price r,
     rv_agreed_mid = rq_agreed_mid r, rv_state = RS_EscrowLocked,
     rv_requested_at = rq_timestamp r, rv_updated_at = rq_timestamp r,
     rv_expires_at = expires_at\<rparr>"

definition apply_request ::
  "'z node_env_scheme \<Rightarrow> timestamp \<Rightarrow> SignedReservationRequest \<Rightarrow> 's res_store_scheme
   \<Rightarrow> ReservationError node_error + 's res_store_scheme" where
  "apply_request env now msg st =
     (let r = fst msg in
      verify_request env msg
      (require (res_get st (rq_id r) = None) (Refused RE_DuplicateReservationId)
      (require (base_units (rq_amount r) \<noteq> 0) (Refused RE_InvalidAmount)
      (ok_or (checked_add now MAX_CLOCK_SKEW) NodePanic (\<lambda>latest.
       require (rq_timestamp r \<le> latest) (Refused RE_TimestampTooFarAhead)
      (ok_or (ad_get st (rq_advertisement_id r)) (Refused RE_AdvertisementNotFound) (\<lambda>ad.
       require (ad_status ad = AS_Active) (Refused RE_AdvertisementNotFound)
      (require (base_units (ad_min_trade ad) \<le> base_units (rq_amount r)
                \<and> base_units (rq_amount r) \<le> base_units (ad_max_trade ad)) (Refused RE_InvalidAmount)
      (require (agrees_with (ad_pricing ad) (rq_agreed_price r) (rq_agreed_mid r))
         (Refused RE_PriceDisagreement)
      (case reserve_liquidity now (rq_advertisement_id r) (rq_amount r) st of
         Inl e \<Rightarrow> Inl (Refused RE_InsufficientLiquidity)
       | Inr st1 \<Rightarrow>
           ok_or (checked_add (rq_timestamp r) VALIDATION_WINDOW) NodePanic (\<lambda>expires_at.
           Inr (res_put (new_reservation r expires_at) st1))))))))))))"

definition apply_cancel ::
  "'z node_env_scheme \<Rightarrow> timestamp \<Rightarrow> SignedReservationCancel \<Rightarrow> 's res_store_scheme
   \<Rightarrow> ReservationError + 's res_store_scheme" where
  "apply_cancel env now msg st =
     (let c = fst msg in
      ok_or (res_get st (rc_id c)) RE_ReservationNotFound (\<lambda>r.
      require (rv_requester r = rc_requester c) RE_UnauthorizedUpdate
      (check_signed env ''openfiat/reservations/ReservationCancel/v1'' (json_cancel c)
         (rv_requester_public_key r) (snd msg) RE_MalformedReservation RE_InvalidSignature
      (require (rv_state r \<noteq> RS_Settling) RE_SettlementInFlight
      (require (rv_state r = RS_EscrowLocked) RE_InvalidReservationState
      (Inr (res_put (r\<lparr>rv_state := RS_Cancelled, rv_updated_at := rc_timestamp c\<rparr>)
             (ignore_error (release_liquidity now (rv_advertisement_id r) (rv_amount r) st) st))))))))"

definition res_transition ::
  "timestamp \<Rightarrow> ReservationId \<Rightarrow> ReservationState list \<Rightarrow> ReservationState \<Rightarrow> 's res_store_scheme
   \<Rightarrow> ReservationError + 's res_store_scheme" where
  "res_transition now i from to st =
     ok_or (res_get st i) RE_ReservationNotFound (\<lambda>r.
     require (rv_state r \<in> set from) RE_InvalidReservationState
     (Inr (res_put (r\<lparr>rv_state := to, rv_updated_at := now\<rparr>) st)))"

definition settlement_started ::
  "timestamp \<Rightarrow> ReservationId \<Rightarrow> 's res_store_scheme \<Rightarrow> ReservationError + 's res_store_scheme" where
  "settlement_started now i st = res_transition now i [RS_EscrowLocked] RS_Settling st"

definition settlement_completed ::
  "timestamp \<Rightarrow> ReservationId \<Rightarrow> 's res_store_scheme \<Rightarrow> ReservationError + 's res_store_scheme" where
  "settlement_completed now i st = res_transition now i [RS_Settling] RS_Settled st"

definition settlement_abandoned ::
  "timestamp \<Rightarrow> ReservationId \<Rightarrow> 's res_store_scheme \<Rightarrow> ReservationError + 's res_store_scheme" where
  "settlement_abandoned now i st = res_transition now i [RS_Settling, RS_Settled] RS_EscrowLocked st"

text \<open>The sweep: one pass over the reservations held when it starts.\<close>

record ExpirySweep =
  sweep_expired :: nat
  sweep_deferred :: nat

definition expire_one ::
  "timestamp \<Rightarrow> u64 \<Rightarrow> Reservation \<Rightarrow> 's res_store_scheme \<times> ExpirySweep \<Rightarrow> 's res_store_scheme \<times> ExpirySweep" where
  "expire_one now cutoff r acc =
     (if rv_state r \<noteq> RS_EscrowLocked \<or> cutoff \<le> rv_requested_at r then acc
      else case release_liquidity now (rv_advertisement_id r) (rv_amount r) (fst acc) of
             Inl e \<Rightarrow> (fst acc, (snd acc)\<lparr>sweep_deferred := sweep_deferred (snd acc) + 1\<rparr>)
           | Inr st' \<Rightarrow> (res_put (r\<lparr>rv_state := RS_Expired, rv_updated_at := now\<rparr>) st',
                         (snd acc)\<lparr>sweep_expired := sweep_expired (snd acc) + 1\<rparr>))"

definition expire_stale ::
  "timestamp \<Rightarrow> u64 \<Rightarrow> 's res_store_scheme \<Rightarrow> 's res_store_scheme \<times> ExpirySweep" where
  "expire_stale now window st =
     fold (expire_one now (saturating_sub now window)) (res_all st)
       (st, \<lparr>sweep_expired = 0, sweep_deferred = 0\<rparr>)"

record res_wire = ad_wire +
  de_request :: "u8 list \<Rightarrow> SignedReservationRequest option"
  de_cancel :: "u8 list \<Rightarrow> SignedReservationCancel option"

definition res_apply_event ::
  "'z res_wire_scheme \<Rightarrow> timestamp \<Rightarrow> EventEnvelope \<Rightarrow> 's res_store_scheme \<Rightarrow> 's res_store_scheme" where
  "res_apply_event env now ev st =
     (if ev_ofs_spec ev \<noteq> 2200 then st
      else if ev_event_type ev = ''ReservationRequested''
        then apply_payload (de_request env) ev (\<lambda>m. apply_request env now m st) st
      else if ev_event_type ev = ''ReservationCancelled''
        then apply_payload (de_cancel env) ev (\<lambda>m. apply_cancel env now m st) st
      else st)"


section \<open>Liquidity held\<close>

text \<open>
  The states in which a reservation still holds what it took from its advertisement, the total
  held against an advertisement, and the pool: what is available plus what is held.
\<close>

definition holds :: "ReservationState \<Rightarrow> bool" where
  "holds s \<longleftrightarrow> s = RS_EscrowLocked \<or> s = RS_Settling \<or> s = RS_Settled"

definition held_by :: "AdvertisementId \<Rightarrow> ReservationId \<Rightarrow> Reservation \<Rightarrow> nat" where
  "held_by a i r = (if rv_advertisement_id r = a \<and> holds (rv_state r) then units (rv_amount r) else 0)"

definition held :: "'s res_store_scheme \<Rightarrow> AdvertisementId \<Rightarrow> nat" where
  "held st a = bt_sum (held_by a) (reservations st)"

definition pool :: "'s res_store_scheme \<Rightarrow> AdvertisementId \<Rightarrow> nat option" where
  "pool st a = map_option (\<lambda>ad. units (ad_available_liquidity ad) + held st a) (ad_get st a)"

text \<open>
  The invariant: entries sit under their ids, every reservation names an advertisement of the
  index in its decimals, and no pool exceeds an amount.
\<close>

definition res_inv :: "'s res_store_scheme \<Rightarrow> bool" where
  "res_inv st \<longleftrightarrow>
     bt_wf (reservations st)
     \<and> (\<forall>i r. res_get st i = Some r \<longrightarrow> rv_id r = i
          \<and> (\<exists>ad. ad_get st (rv_advertisement_id r) = Some ad
               \<and> decimals (ad_available_liquidity ad) = decimals (rv_amount r)))
     \<and> (\<forall>a ad. ad_get st a = Some ad \<longrightarrow>
          ad_id ad = a \<and> units (ad_available_liquidity ad) + held st a < 2 ^ 64)"

lemma res_get_put [simp]: "res_get (res_put r st) i = (if i = rv_id r then Some r else res_get st i)"
  by (simp add: res_get_def res_put_def)

lemma res_get_ad_put [simp]: "res_get (ad_put ad st) i = res_get st i"
  by (simp add: res_get_def ad_put_def)

lemma ad_get_res_put [simp]: "ad_get (res_put r st) a = ad_get st a"
  by (simp add: ad_get_def res_put_def)

lemma reservations_put [simp]:
  "reservations (res_put r st) = bt_insert (rv_id r) r (reservations st)"
  "reservations (ad_put ad st) = reservations st"
  by (simp_all add: res_put_def ad_put_def)

lemma advertisements_res_put [simp]: "advertisements (res_put r st) = advertisements st"
  by (simp add: res_put_def)

lemma held_ad_put [simp]: "held (ad_put ad st) a = held st a"
  by (simp add: held_def)

lemma held_put_new:
  "res_get st (rv_id r) = None \<Longrightarrow> held (res_put r st) a = held st a + held_by a (rv_id r) r"
  by (simp add: held_def res_get_def bt_sum_insert_new)

lemma held_put_old:
  "bt_wf (reservations st) \<Longrightarrow> res_get st (rv_id r) = Some r0 \<Longrightarrow>
     held (res_put r st) a + held_by a (rv_id r) r0 = held st a + held_by a (rv_id r) r"
  by (simp add: held_def res_get_def bt_sum_insert_old)

lemma held_member:
  "res_get st i = Some r \<Longrightarrow> held_by a i r \<le> held st a"
  unfolding held_def res_get_def by (rule bt_sum_member)

lemma res_inv_reservation:
  assumes "res_inv st" "res_get st i = Some r"
  obtains ad where "rv_id r = i" "ad_get st (rv_advertisement_id r) = Some ad"
    "decimals (ad_available_liquidity ad) = decimals (rv_amount r)"
  using assms unfolding res_inv_def by blast

lemma res_inv_pool:
  "res_inv st \<Longrightarrow> ad_get st a = Some ad \<Longrightarrow>
     ad_id ad = a \<and> units (ad_available_liquidity ad) + held st a < 2 ^ 64"
  by (simp add: res_inv_def)

lemma res_inv_wf: "res_inv st \<Longrightarrow> bt_wf (reservations st)"
  by (simp add: res_inv_def)

text \<open>An advertisement nobody has published holds nothing.\<close>

lemma held_unpublished:
  assumes "res_inv st" "ad_get st a = None"
  shows "held st a = 0"
proof -
  have "held_by a i r = 0" if "(i, r) \<in> set (reservations st)" for i r
  proof -
    have "res_get st i = Some r"
      using that res_inv_wf [OF assms(1)] by (simp add: res_get_def bt_get_iff)
    with assms show ?thesis by (auto elim!: res_inv_reservation simp: held_by_def)
  qed
  then have "bt_sum (held_by a) (reservations st) = bt_sum (\<lambda>i r. 0) (reservations st)"
    by (rule bt_sum_cong)
  then show ?thesis by (simp add: held_def bt_sum_def split_beta)
qed


text \<open>
  The one accounting step: a reservation and its advertisement change together, and what the
  advertisement loses is what the reservation gains.
\<close>

definition old_hold :: "'s res_store_scheme \<Rightarrow> AdvertisementId \<Rightarrow> ReservationId \<Rightarrow> nat" where
  "old_hold st a i = (case res_get st i of None \<Rightarrow> 0 | Some r0 \<Rightarrow> held_by a i r0)"

lemma held_put:
  assumes "bt_wf (reservations st)"
  shows "held (res_put r st) a + old_hold st a (rv_id r) = held st a + held_by a (rv_id r) r"
  using assms by (auto simp: old_hold_def held_put_new held_put_old split: option.splits)

lemma held_put_other:
  assumes "res_inv st" "rv_advertisement_id r \<noteq> a"
    "\<And>r0. res_get st (rv_id r) = Some r0 \<Longrightarrow> rv_advertisement_id r0 = rv_advertisement_id r"
  shows "held (res_put r st) a = held st a"
proof -
  have "old_hold st a (rv_id r) = 0"
    using assms(2,3) by (auto simp: old_hold_def held_by_def split: option.splits)
  moreover have "held_by a (rv_id r) r = 0"
    using assms(2) by (simp add: held_by_def)
  ultimately show ?thesis using held_put [OF res_inv_wf [OF assms(1)], of r a] by simp
qed

lemma res_inv_update:
  assumes inv: "res_inv st" and ad: "ad_get st (rv_advertisement_id r) = Some ad"
    and dec: "decimals (ad_available_liquidity ad) = decimals (rv_amount r)"
      "decimals (ad_available_liquidity ad') = decimals (rv_amount r)"
    and idx: "ad_id ad' = rv_advertisement_id r"
    and old: "\<And>r0. res_get st (rv_id r) = Some r0 \<Longrightarrow> rv_advertisement_id r0 = rv_advertisement_id r"
    and bal: "units (ad_available_liquidity ad') + held_by (rv_advertisement_id r) (rv_id r) r
                = units (ad_available_liquidity ad) + old_hold st (rv_advertisement_id r) (rv_id r)"
  shows "res_inv (res_put r (ad_put ad' st))" and "pool (res_put r (ad_put ad' st)) b = pool st b"
proof -
  let ?st = "res_put r (ad_put ad' st)" and ?a = "rv_advertisement_id r"
  have held_eq: "held ?st b = held (res_put r st) b" for b
    by (simp add: held_def)
  have other: "held ?st b = held st b" if "b \<noteq> ?a" for b
    using held_put_other [OF inv _ old, of b] that by (simp add: held_eq)
  have same: "units (ad_available_liquidity ad') + held ?st ?a
                = units (ad_available_liquidity ad) + held st ?a"
    using held_put [OF res_inv_wf [OF inv], of r ?a] bal by (simp add: held_eq)
  show "pool ?st b = pool st b"
    using ad idx other [of b] same by (auto simp: pool_def)
  have bound: "units (ad_available_liquidity ad'') + held ?st c < 2 ^ 64 \<and> ad_id ad'' = c"
    if "ad_get ?st c = Some ad''" for c ad''
  proof (cases "c = ?a")
    case True
    with that idx have "ad'' = ad'" by simp
    with True same idx res_inv_pool [OF inv ad] show ?thesis by simp
  next
    case False
    with that idx have "ad_get st c = Some ad''" by simp
    with other [OF False] res_inv_pool [OF inv] show ?thesis by simp
  qed
  have named: "rv_id q = i \<and> (\<exists>x. ad_get ?st (rv_advertisement_id q) = Some x
                 \<and> decimals (ad_available_liquidity x) = decimals (rv_amount q))"
    if "res_get ?st i = Some q" for i q
  proof (cases "i = rv_id r")
    case True
    with that dec idx show ?thesis by simp
  next
    case False
    with that have "res_get st i = Some q" by simp
    then obtain x where "rv_id q = i" "ad_get st (rv_advertisement_id q) = Some x"
      "decimals (ad_available_liquidity x) = decimals (rv_amount q)"
      by (rule res_inv_reservation [OF inv])
    with ad dec idx show ?thesis by (cases "rv_advertisement_id q = ?a") simp_all
  qed
  have "bt_wf (reservations ?st)" using res_inv_wf [OF inv] by (simp add: bt_wf_insert)
  then show "res_inv ?st"
    unfolding res_inv_def using named bound by blast
qed

text \<open>An edit of an advertisement that leaves its liquidity alone.\<close>

lemma res_inv_edit:
  assumes inv: "res_inv st" and "ad_get st (ad_id ad') = Some ad"
    and "ad_available_liquidity ad' = ad_available_liquidity ad"
  shows "res_inv (ad_put ad' st)" and "pool (ad_put ad' st) b = pool st b"
proof -
  show "pool (ad_put ad' st) b = pool st b" using assms by (auto simp: pool_def)
  show "res_inv (ad_put ad' st)"
    unfolding res_inv_def
  proof (intro conjI allI impI)
    show "bt_wf (reservations (ad_put ad' st))" using res_inv_wf [OF inv] by simp
  next
    fix i r assume "res_get (ad_put ad' st) i = Some r"
    then show "rv_id r = i" "\<exists>x. ad_get (ad_put ad' st) (rv_advertisement_id r) = Some x
        \<and> decimals (ad_available_liquidity x) = decimals (rv_amount r)"
      using assms by (auto elim!: res_inv_reservation)
  next
    fix c x assume "ad_get (ad_put ad' st) c = Some x"
    then show "ad_id x = c" "units (ad_available_liquidity x) + held (ad_put ad' st) c < 2 ^ 64"
      using assms res_inv_pool [OF inv] by (auto split: if_splits)
  qed
qed

lemma units_bound: "units a < 2 ^ 64"
  using unat_u64_bound [of "base_units a"] by simp

lemma res_inv_publish:
  assumes inv: "res_inv st" and new: "ad_get st (ad_id ad) = None"
  shows "res_inv (ad_put ad st)"
    and "pool (ad_put ad st) b
           = (if b = ad_id ad then Some (units (ad_available_liquidity ad)) else pool st b)"
proof -
  have zero: "held st (ad_id ad) = 0" using held_unpublished [OF inv new] .
  then show "pool (ad_put ad st) b
           = (if b = ad_id ad then Some (units (ad_available_liquidity ad)) else pool st b)"
    by (simp add: pool_def)
  show "res_inv (ad_put ad st)"
    unfolding res_inv_def
  proof (intro conjI allI impI)
    show "bt_wf (reservations (ad_put ad st))" using res_inv_wf [OF inv] by simp
  next
    fix i r assume "res_get (ad_put ad st) i = Some r"
    then show "rv_id r = i" "\<exists>x. ad_get (ad_put ad st) (rv_advertisement_id r) = Some x
        \<and> decimals (ad_available_liquidity x) = decimals (rv_amount r)"
      using inv new by (auto elim!: res_inv_reservation)
  next
    fix c x assume "ad_get (ad_put ad st) c = Some x"
    then show "ad_id x = c" "units (ad_available_liquidity x) + held (ad_put ad st) c < 2 ^ 64"
      using zero res_inv_pool [OF inv] units_bound [of "ad_available_liquidity ad"]
      by (auto split: if_splits)
  qed
qed

text \<open>A change of a reservation's state that keeps what it holds.\<close>

lemma res_inv_move:
  assumes inv: "res_inv st" and old: "res_get st (rv_id r) = Some r0"
    and same: "rv_advertisement_id r = rv_advertisement_id r0" "rv_amount r = rv_amount r0"
      "holds (rv_state r) \<longleftrightarrow> holds (rv_state r0)"
  shows "res_inv (res_put r st)" and "pool (res_put r st) b = pool st b"
proof -
  have keep: "held (res_put r st) c = held st c" for c
  proof -
    have "held_by c (rv_id r) r = held_by c (rv_id r) r0" using same by (simp add: held_by_def)
    then show ?thesis using held_put_old [OF res_inv_wf [OF inv] old, of c] by simp
  qed
  then show "pool (res_put r st) b = pool st b" by (simp add: pool_def)
  show "res_inv (res_put r st)"
    unfolding res_inv_def
  proof (intro conjI allI impI)
    show "bt_wf (reservations (res_put r st))" using res_inv_wf [OF inv] by auto
  next
    fix i q assume q: "res_get (res_put r st) i = Some q"
    then show "rv_id q = i" using inv by (auto elim!: res_inv_reservation split: if_splits)
    obtain q' where "res_get st i = Some q'" "rv_advertisement_id q = rv_advertisement_id q'"
      "rv_amount q = rv_amount q'"
      using q old same by (auto split: if_splits)
    then show "\<exists>x. ad_get (res_put r st) (rv_advertisement_id q) = Some x
        \<and> decimals (ad_available_liquidity x) = decimals (rv_amount q)"
      using inv by (auto elim!: res_inv_reservation)
  next
    fix c x assume "ad_get (res_put r st) c = Some x"
    then show "ad_id x = c" "units (ad_available_liquidity x) + held (res_put r st) c < 2 ^ 64"
      using res_inv_pool [OF inv] by (auto simp: keep)
  qed
qed



section \<open>What the operations do\<close>

lemma new_reservation_sel [simp]:
  "rv_id (new_reservation r e) = rq_id r"
  "rv_advertisement_id (new_reservation r e) = rq_advertisement_id r"
  "rv_requester (new_reservation r e) = rq_requester r"
  "rv_requester_public_key (new_reservation r e) = rq_requester_public_key r"
  "rv_amount (new_reservation r e) = rq_amount r"
  "rv_state (new_reservation r e) = RS_EscrowLocked"
  "rv_requested_at (new_reservation r e) = rq_timestamp r"
  "rv_expires_at (new_reservation r e) = e"
  by (simp_all add: new_reservation_def)

lemma apply_request_Inr:
  assumes "apply_request env now (rq, sig) st = Inr st'"
  obtains ad remaining expires where
    "peer_id_from_public_key env (rq_requester_public_key rq) = Some (rq_requester rq)"
    "signed_by env ''openfiat/reservations/ReservationRequest/v1'' (json_request rq)
       (rq_requester_public_key rq) sig"
    "res_get st (rq_id rq) = None" "base_units (rq_amount rq) \<noteq> 0"
    "unat (rq_timestamp rq) \<le> unat now + 300000"
    "ad_get st (rq_advertisement_id rq) = Some ad" "ad_status ad = AS_Active"
    "base_units (ad_min_trade ad) \<le> base_units (rq_amount rq)"
    "base_units (rq_amount rq) \<le> base_units (ad_max_trade ad)"
    "agrees_with (ad_pricing ad) (rq_agreed_price rq) (rq_agreed_mid rq)"
    "decimals (ad_available_liquidity ad) = decimals (rq_amount rq)"
    "decimals remaining = decimals (rq_amount rq)"
    "units (ad_available_liquidity ad) = units (rq_amount rq) + units remaining"
    "unat expires = unat (rq_timestamp rq) + 1800000"
    "st' = res_put (new_reservation rq expires) (ad_put (ad\<lparr>ad_available_liquidity := remaining,
             ad_status := if base_units remaining = 0 then AS_Disabled else ad_status ad,
             ad_updated_at := now\<rparr>) st)"
  using assms
  apply (clarsimp simp: apply_request_def verify_request_def Let_def split: sum.splits)
  apply (erule reserve_liquidity_Inr)
  apply (simp add: num_simps MAX_CLOCK_SKEW_def VALIDATION_WINDOW_def word_le_nat_alt)
  done

lemma apply_request_inv:
  assumes inv: "res_inv st" and run: "apply_request env now msg st = Inr st'"
  shows "res_inv st'" and "pool st' b = pool st b"
proof -
  obtain rq sig where msg: "msg = (rq, sig)" by fastforce
  have "res_inv st' \<and> pool st' b = pool st b"
    using run [unfolded msg]
  proof (rule apply_request_Inr)
    fix ad :: Advertisement and remaining :: Amount and expires
    let ?ad = "ad\<lparr>ad_available_liquidity := remaining,
             ad_status := if base_units remaining = 0 then AS_Disabled else ad_status ad,
             ad_updated_at := now\<rparr>"
    assume new: "res_get st (rq_id rq) = None" and ad: "ad_get st (rq_advertisement_id rq) = Some ad"
      and dec: "decimals (ad_available_liquidity ad) = decimals (rq_amount rq)"
        "decimals remaining = decimals (rq_amount rq)"
      and bal: "units (ad_available_liquidity ad) = units (rq_amount rq) + units remaining"
      and st': "st' = res_put (new_reservation rq expires) (ad_put ?ad st)"
    have "ad_id ?ad = rq_advertisement_id rq" using res_inv_pool [OF inv ad] by simp
    then show ?thesis
      unfolding st' using res_inv_update [OF inv, of "new_reservation rq expires" ad ?ad] new ad dec bal
      by (simp add: old_hold_def held_by_def holds_def)
  qed
  then show "res_inv st'" "pool st' b = pool st b" by simp_all
qed

text \<open>Giving back what a reservation holds always succeeds.\<close>

lemma release_held:
  assumes inv: "res_inv st" and r: "res_get st i = Some r" and h: "holds (rv_state r)"
  obtains ad returned where "ad_get st (rv_advertisement_id r) = Some ad"
    "units returned = units (ad_available_liquidity ad) + units (rv_amount r)"
    "decimals returned = decimals (rv_amount r)"
    "decimals (ad_available_liquidity ad) = decimals (rv_amount r)" "ad_id ad = rv_advertisement_id r"
    "release_liquidity now (rv_advertisement_id r) (rv_amount r) st
       = Inr (ad_put (ad\<lparr>ad_available_liquidity := returned, ad_updated_at := now\<rparr>) st)"
proof -
  obtain ad where ad: "ad_get st (rv_advertisement_id r) = Some ad"
    and dec: "decimals (ad_available_liquidity ad) = decimals (rv_amount r)"
    using inv r by (rule res_inv_reservation)
  have "units (rv_amount r) \<le> held st (rv_advertisement_id r)"
    using held_member [OF r, of "rv_advertisement_id r"] h by (simp add: held_by_def)
  then have "units (ad_available_liquidity ad) + units (rv_amount r) < 2 ^ 64"
    using res_inv_pool [OF inv ad] by linarith
  then obtain c where c: "amount_checked_add (ad_available_liquidity ad) (rv_amount r) = Some c"
      "decimals c = decimals (ad_available_liquidity ad)"
      "units c = units (ad_available_liquidity ad) + units (rv_amount r)"
    using amount_checked_add_fits [OF dec] by blast
  show ?thesis
    using c ad dec res_inv_pool [OF inv ad]
    by (intro that [of ad c]) (simp_all add: release_liquidity_def)
qed

lemma give_back:
  assumes inv: "res_inv st" and r: "res_get st i = Some r" and h: "holds (rv_state r)"
    and final: "\<not> holds s"
    and rel: "release_liquidity now (rv_advertisement_id r) (rv_amount r) st = Inr st1"
  shows "res_inv (res_put (r\<lparr>rv_state := s, rv_updated_at := t\<rparr>) st1)"
    and "pool (res_put (r\<lparr>rv_state := s, rv_updated_at := t\<rparr>) st1) b = pool st b"
proof -
  let ?r = "r\<lparr>rv_state := s, rv_updated_at := t\<rparr>"
  have "rv_id r = i" using inv r by (rule res_inv_reservation)
  obtain ad returned where ad: "ad_get st (rv_advertisement_id r) = Some ad"
    and amounts: "units returned = units (ad_available_liquidity ad) + units (rv_amount r)"
      "decimals returned = decimals (rv_amount r)"
      "decimals (ad_available_liquidity ad) = decimals (rv_amount r)" "ad_id ad = rv_advertisement_id r"
    and st1: "st1 = ad_put (ad\<lparr>ad_available_liquidity := returned, ad_updated_at := now\<rparr>) st"
    by (rule release_held [OF inv r h, of now]) (use rel in simp)
  let ?ad = "ad\<lparr>ad_available_liquidity := returned, ad_updated_at := now\<rparr>"
  have old: "rv_advertisement_id r0 = rv_advertisement_id ?r" if "res_get st (rv_id ?r) = Some r0" for r0
    using that r \<open>rv_id r = i\<close> by simp
  have bal: "units (ad_available_liquidity ?ad) + held_by (rv_advertisement_id ?r) (rv_id ?r) ?r
               = units (ad_available_liquidity ad) + old_hold st (rv_advertisement_id ?r) (rv_id ?r)"
    using amounts(1) r h final \<open>rv_id r = i\<close> by (simp add: old_hold_def held_by_def)
  show "res_inv (res_put ?r st1)" "pool (res_put ?r st1) b = pool st b"
    unfolding st1 using ad amounts
    by (intro res_inv_update [OF inv _ _ _ _ old bal]; simp)+
qed

lemma apply_cancel_Inr:
  assumes inv: "res_inv st" and run: "apply_cancel env now (c, sig) st = Inr st'"
  obtains r st1 where "res_get st (rc_id c) = Some r" "rv_state r = RS_EscrowLocked"
    "rv_requester r = rc_requester c"
    "signed_by env ''openfiat/reservations/ReservationCancel/v1'' (json_cancel c)
       (rv_requester_public_key r) sig"
    "release_liquidity now (rv_advertisement_id r) (rv_amount r) st = Inr st1"
    "st' = res_put (r\<lparr>rv_state := RS_Cancelled, rv_updated_at := rc_timestamp c\<rparr>) st1"
proof -
  obtain r where r: "res_get st (rc_id c) = Some r" "rv_state r = RS_EscrowLocked"
    "rv_requester r = rc_requester c"
    "signed_by env ''openfiat/reservations/ReservationCancel/v1'' (json_cancel c)
       (rv_requester_public_key r) sig"
    and st': "st' = res_put (r\<lparr>rv_state := RS_Cancelled, rv_updated_at := rc_timestamp c\<rparr>)
           (ignore_error (release_liquidity now (rv_advertisement_id r) (rv_amount r) st) st)"
    using run by (auto simp: apply_cancel_def Let_def)
  have "holds (rv_state r)" using r(2) by (simp add: holds_def)
  then obtain st1 where "release_liquidity now (rv_advertisement_id r) (rv_amount r) st = Inr st1"
    using release_held [OF inv r(1), of now] by metis
  with r st' show ?thesis by (intro that) simp_all
qed

lemma apply_cancel_inv:
  assumes inv: "res_inv st" and run: "apply_cancel env now msg st = Inr st'"
  shows "res_inv st'" and "pool st' b = pool st b"
proof -
  obtain c sig where msg: "msg = (c, sig)" by fastforce
  obtain r st1 where "res_get st (rc_id c) = Some r" "rv_state r = RS_EscrowLocked"
    "release_liquidity now (rv_advertisement_id r) (rv_amount r) st = Inr st1"
    "st' = res_put (r\<lparr>rv_state := RS_Cancelled, rv_updated_at := rc_timestamp c\<rparr>) st1"
    using apply_cancel_Inr [OF inv run [unfolded msg]] by metis
  then show "res_inv st'" "pool st' b = pool st b"
    using give_back [OF inv, of "rc_id c" r RS_Cancelled now st1] by (simp_all add: holds_def)
qed

lemma res_transition_Inr:
  assumes "res_transition now i from to st = Inr st'"
  obtains r where "res_get st i = Some r" "rv_state r \<in> set from"
    "st' = res_put (r\<lparr>rv_state := to, rv_updated_at := now\<rparr>) st"
  using assms by (auto simp: res_transition_def)

lemma res_transition_inv:
  assumes inv: "res_inv st" and run: "res_transition now i from to st = Inr st'"
    and "list_all holds from" "holds to"
  shows "res_inv st'" and "pool st' b = pool st b"
proof -
  obtain r where r: "res_get st i = Some r" "rv_state r \<in> set from"
    "st' = res_put (r\<lparr>rv_state := to, rv_updated_at := now\<rparr>) st"
    using run by (rule res_transition_Inr)
  moreover have "rv_id r = i" using inv r(1) by (rule res_inv_reservation)
  ultimately show "res_inv st'" "pool st' b = pool st b"
    using res_inv_move [OF inv, of "r\<lparr>rv_state := to, rv_updated_at := now\<rparr>" r] assms(3,4)
    by (simp_all add: list_all_iff)
qed



section \<open>The sweep\<close>

definition stale :: "u64 \<Rightarrow> Reservation \<Rightarrow> bool" where
  "stale cutoff r \<longleftrightarrow> rv_state r = RS_EscrowLocked \<and> rv_requested_at r < cutoff"

definition expired :: "timestamp \<Rightarrow> Reservation \<Rightarrow> Reservation" where
  "expired now r = r\<lparr>rv_state := RS_Expired, rv_updated_at := now\<rparr>"

lemma expired_sel [simp]:
  "rv_id (expired now r) = rv_id r" "rv_state (expired now r) = RS_Expired"
  "rv_advertisement_id (expired now r) = rv_advertisement_id r"
  by (simp_all add: expired_def)

lemma expire_one_stale:
  assumes "res_inv st" "res_get st (rv_id r) = Some r" "stale cutoff r"
  obtains st' where "expire_one now cutoff r (st, sw) = (st', sw\<lparr>sweep_expired := sweep_expired sw + 1\<rparr>)"
    "res_inv st'" "\<forall>b. pool st' b = pool st b"
    "\<forall>i. res_get st' i = (if i = rv_id r then Some (expired now r) else res_get st i)"
proof -
  have h: "holds (rv_state r)" using assms(3) by (simp add: stale_def holds_def)
  obtain ad returned where
    rel: "release_liquidity now (rv_advertisement_id r) (rv_amount r) st
       = Inr (ad_put (ad\<lparr>ad_available_liquidity := returned, ad_updated_at := now\<rparr>) st)"
    by (rule release_held [OF assms(1,2) h, of now])
  show ?thesis
  proof (rule that)
    let ?st1 = "ad_put (ad\<lparr>ad_available_liquidity := returned, ad_updated_at := now\<rparr>) st"
    show "expire_one now cutoff r (st, sw)
            = (res_put (expired now r) ?st1, sw\<lparr>sweep_expired := sweep_expired sw + 1\<rparr>)"
    proof -
      have "\<not> cutoff \<le> rv_requested_at r" "rv_state r = RS_EscrowLocked"
        using assms(3) by (simp_all add: stale_def not_le)
      with rel show ?thesis by (simp add: expire_one_def expired_def)
    qed
    show "res_inv (res_put (expired now r) ?st1)"
      "\<forall>b. pool (res_put (expired now r) ?st1) b = pool st b"
      unfolding expired_def using give_back [OF assms(1,2) h _ rel] by (simp_all add: holds_def)
    show "\<forall>i. res_get (res_put (expired now r) ?st1) i
                = (if i = rv_id r then Some (expired now r) else res_get st i)"
      by simp
  qed
qed

lemma expire_one_fresh: "\<not> stale cutoff r \<Longrightarrow> expire_one now cutoff r acc = acc"
  by (auto simp: expire_one_def stale_def not_le)

definition sweep_of :: "timestamp \<Rightarrow> u64 \<Rightarrow> Reservation set \<Rightarrow> Reservation \<Rightarrow> Reservation" where
  "sweep_of now cutoff rs r = (if r \<in> rs \<and> stale cutoff r then expired now r else r)"

definition swept ::
  "timestamp \<Rightarrow> u64 \<Rightarrow> Reservation list \<Rightarrow> 's res_store_scheme \<Rightarrow> 's res_store_scheme \<Rightarrow> bool" where
  "swept now cutoff rs st st' \<longleftrightarrow>
     res_inv st' \<and> (\<forall>b. pool st' b = pool st b)
     \<and> (\<forall>i. res_get st' i = map_option (sweep_of now cutoff (set rs)) (res_get st i))"

lemma swept_Cons_fresh:
  assumes "swept now cutoff rs st st'" "\<not> stale cutoff r"
  shows "swept now cutoff (r # rs) st st'"
proof -
  have eq: "sweep_of now cutoff (set (r # rs)) = sweep_of now cutoff (set rs)"
    using assms(2) by (intro ext) (auto simp: sweep_of_def)
  show ?thesis using assms(1) unfolding swept_def eq .
qed

lemma swept_Cons_stale:
  assumes inv: "res_inv st" and r: "res_get st (rv_id r) = Some r" "stale cutoff r"
    and st1: "\<forall>b. pool st1 b = pool st b"
      "\<forall>i. res_get st1 i = (if i = rv_id r then Some (expired now r) else res_get st i)"
    and rest: "swept now cutoff rs st1 st'"
  shows "swept now cutoff (r # rs) st st'"
proof -
  have get: "res_get st' i = map_option (sweep_of now cutoff (set rs)) (res_get st1 i)" for i
    using rest by (simp add: swept_def)
  have "res_get st' i = map_option (sweep_of now cutoff (set (r # rs))) (res_get st i)" for i
  proof (cases "i = rv_id r")
    case True
    have "\<not> stale cutoff (expired now r)" by (simp add: stale_def)
    with True r show ?thesis by (simp add: get st1(2) sweep_of_def)
  next
    case False
    have "sweep_of now cutoff (set (r # rs)) q = sweep_of now cutoff (set rs) q"
      if q: "res_get st i = Some q" for q
    proof -
      have "rv_id q = i" using inv q by (rule res_inv_reservation)
      with False have "q \<noteq> r" by blast
      then show ?thesis by (simp add: sweep_of_def)
    qed
    with False show ?thesis by (cases "res_get st i") (simp_all add: get st1(2))
  qed
  with rest st1(1) show ?thesis by (simp add: swept_def)
qed

lemma expire_fold:
  assumes "res_inv st" "distinct (map rv_id rs)" "\<forall>r \<in> set rs. res_get st (rv_id r) = Some r"
  shows "\<exists>st'. fold (expire_one now cutoff) rs (st, sw)
                 = (st', sw\<lparr>sweep_expired := sweep_expired sw + length (filter (stale cutoff) rs)\<rparr>)
               \<and> swept now cutoff rs st st'"
  using assms
proof (induction rs arbitrary: st sw)
  case Nil
  have "sweep_of now cutoff {} = (\<lambda>r. r)" by (simp add: sweep_of_def fun_eq_iff)
  with Nil show ?case by (simp add: swept_def option.map_ident)
next
  case (Cons r rs)
  have r: "res_get st (rv_id r) = Some r" and d: "distinct (map rv_id rs)" "rv_id r \<notin> rv_id ` set rs"
    using Cons.prems(2,3) by simp_all
  show ?case
  proof (cases "stale cutoff r")
    case False
    have "\<forall>q \<in> set rs. res_get st (rv_id q) = Some q" using Cons.prems(3) by simp
    from Cons.IH [OF Cons.prems(1) d(1) this, of sw] obtain st' where
      "fold (expire_one now cutoff) rs (st, sw)
         = (st', sw\<lparr>sweep_expired := sweep_expired sw + length (filter (stale cutoff) rs)\<rparr>)"
      "swept now cutoff rs st st'"
      by (elim exE conjE)
    with False show ?thesis
      by (intro exI [of _ st'] conjI) (simp_all add: expire_one_fresh swept_Cons_fresh)
  next
    case True
    obtain st1 where
      one: "expire_one now cutoff r (st, sw) = (st1, sw\<lparr>sweep_expired := sweep_expired sw + 1\<rparr>)"
      and st1: "res_inv st1" "\<forall>b. pool st1 b = pool st b"
        "\<forall>i. res_get st1 i = (if i = rv_id r then Some (expired now r) else res_get st i)"
      by (rule expire_one_stale [OF Cons.prems(1) r True, of now sw])
    have "\<forall>q \<in> set rs. res_get st1 (rv_id q) = Some q"
    proof
      fix q assume q: "q \<in> set rs"
      then have "rv_id q \<noteq> rv_id r" using d(2) imageI [OF q, of rv_id] by metis
      moreover have "res_get st (rv_id q) = Some q"
        using Cons.prems(3) q by (meson list.set_intros(2))
      ultimately show "res_get st1 (rv_id q) = Some q" using st1(3) by simp
    qed
    from Cons.IH [OF st1(1) d(1) this, of "sw\<lparr>sweep_expired := sweep_expired sw + 1\<rparr>"]
    obtain st' where st':
      "fold (expire_one now cutoff) rs (st1, sw\<lparr>sweep_expired := sweep_expired sw + 1\<rparr>)
         = (st', sw\<lparr>sweep_expired := sweep_expired sw + 1,
                     sweep_expired := sweep_expired (sw\<lparr>sweep_expired := sweep_expired sw + 1\<rparr>)
                                        + length (filter (stale cutoff) rs)\<rparr>)"
      "swept now cutoff rs st1 st'"
      by (elim exE conjE)
    have "swept now cutoff (r # rs) st st'"
      using swept_Cons_stale [OF Cons.prems(1) r True st1(2,3) st'(2)] .
    with True one st'(1) show ?thesis by (intro exI [of _ st'] conjI) simp_all
  qed
qed

lemma res_all_entries:
  assumes "res_inv st"
  shows "distinct (map rv_id (res_all st))"
    and "set (res_all st) = {r. \<exists>i. res_get st i = Some r}"
    and "\<forall>r \<in> set (res_all st). res_get st (rv_id r) = Some r"
proof -
  have wf: "bt_wf (reservations st)" using res_inv_wf [OF assms] .
  show entries: "set (res_all st) = {r. \<exists>i. res_get st i = Some r}"
    using bt_get_iff [OF wf] by (force simp: res_all_def res_get_def)
  have ids: "rv_id r = i" if "(i, r) \<in> set (reservations st)" for i r
    using that bt_get_iff [OF wf] res_inv_reservation [OF assms] by (metis res_get_def)
  then have "map rv_id (res_all st) = map fst (reservations st)"
    by (auto simp: res_all_def)
  then show "distinct (map rv_id (res_all st))" using bt_wf_distinct [OF wf] by simp
  show "\<forall>r \<in> set (res_all st). res_get st (rv_id r) = Some r"
    using entries res_inv_reservation [OF assms] by blast
qed

text \<open>The whole sweep: nothing is deferred, exactly the stale reservations expire, and every pool
  is what it was.\<close>

lemma expire_stale_spec:
  assumes "res_inv st"
  obtains st' where
    "expire_stale now window st
       = (st', \<lparr>sweep_expired = length (filter (stale (saturating_sub now window)) (res_all st)),
                sweep_deferred = 0\<rparr>)"
    "res_inv st'" "\<And>b. pool st' b = pool st b"
    "\<And>i. res_get st' i = map_option (\<lambda>r. if stale (saturating_sub now window) r then expired now r else r)
                            (res_get st i)"
proof -
  let ?c = "saturating_sub now window"
  obtain st' where st': "expire_stale now window st
       = (st', \<lparr>sweep_expired = length (filter (stale ?c) (res_all st)), sweep_deferred = 0\<rparr>)"
    and sw: "swept now ?c (res_all st) st st'"
    using expire_fold [OF assms res_all_entries(1,3) [OF assms], of now ?c
        "\<lparr>sweep_expired = 0, sweep_deferred = 0\<rparr>"]
    by (auto simp: expire_stale_def)
  have "res_get st' i = map_option (\<lambda>r. if stale ?c r then expired now r else r) (res_get st i)" for i
  proof (cases "res_get st i")
    case (Some r)
    then have "r \<in> set (res_all st)" using res_all_entries(2) [OF assms] by blast
    with Some sw show ?thesis by (simp add: swept_def sweep_of_def)
  qed (use sw in \<open>simp add: swept_def\<close>)
  with st' sw [unfolded swept_def] show ?thesis by (intro that [of st']) simp_all
qed

lemma res_apply_event_cases:
  assumes "P st"
    and "\<And>m st'. apply_request env now m st = Inr st' \<Longrightarrow> P st'"
    and "\<And>m st'. apply_cancel env now m st = Inr st' \<Longrightarrow> P st'"
  shows "P (res_apply_event env now ev st)"
  unfolding res_apply_event_def using assms by (auto intro: apply_payload_cases)

end
