(* ===== verification/Settlements.thy ===== *)
theory Settlements
  imports Reservations
begin

text \<open>
  The replicated settlement index (\<open>crates/settlement\<close>): the life of a trade from its initiation
  by the buyer to its conclusion, with the reservation it was raised against moved along. The
  store extends the reservation store. Dispute outcomes arrive from the dispute registry, and the
  confirmation of the on-chain release from the node's chain observer.
\<close>


section \<open>Records and events\<close>

type_synonym SettlementId = string

datatype SettlementState =
    SS_AwaitingPayment
  | SS_PaymentSubmitted
  | SS_Approved
  | SS_Completed
  | SS_Rejected
  | SS_Cancelled
  | SS_Disputed

datatype DisputeVerdict = DV_EscrowReleased | DV_EscrowReturned

datatype PaymentDiscrepancy = IncorrectAmount | WrongReference | DuplicatePayment | IncorrectAccount | OtherDiscrepancy

definition is_payment_accuracy_fault :: "PaymentDiscrepancy \<Rightarrow> bool" where
  "is_payment_accuracy_fault d \<longleftrightarrow> d \<noteq> OtherDiscrepancy"

record Settlement =
  sm_id :: SettlementId
  sm_reservation_id :: ReservationId
  sm_buyer :: peer_id
  sm_buyer_public_key :: public_key
  sm_seller :: peer_id
  sm_seller_public_key :: public_key
  sm_amount :: Amount
  sm_state :: SettlementState
  sm_payment_reference :: "nat list option"
  sm_escrow_release_signature :: "string option"
  sm_payment_submitted_at :: "timestamp option"
  sm_merchant_responded_at :: "timestamp option"
  sm_payment_discrepancy :: "PaymentDiscrepancy option"
  sm_disputed_at :: "timestamp option"
  sm_created_at :: timestamp
  sm_updated_at :: timestamp

datatype SettlementError =
    SE_InvalidSignature
  | SE_Unauthorized
  | SE_DuplicateSettlementId
  | SE_MalformedSettlement
  | SE_SettlementNotFound
  | SE_InvalidStateTransition

record SettlementInitiate =
  si_id :: SettlementId
  si_reservation_id :: ReservationId
  si_buyer :: peer_id
  si_buyer_public_key :: public_key
  si_seller :: peer_id
  si_seller_public_key :: public_key
  si_amount :: Amount
  si_timestamp :: timestamp

record PaymentSubmitted =
  ps_settlement_id :: SettlementId
  ps_buyer :: peer_id
  ps_payment_reference :: "nat list option"
  ps_timestamp :: timestamp

record PaymentReversed =
  pr_settlement_id :: SettlementId
  pr_buyer :: peer_id
  pr_timestamp :: timestamp

record SettlementApproved =
  sa_settlement_id :: SettlementId
  sa_seller :: peer_id
  sa_timestamp :: timestamp

record SettlementRejected =
  sr_settlement_id :: SettlementId
  sr_seller :: peer_id
  sr_reason :: "nat list"
  sr_discrepancy :: PaymentDiscrepancy
  sr_timestamp :: timestamp

record SettlementCancelled =
  sc_settlement_id :: SettlementId
  sc_canceller :: peer_id
  sc_timestamp :: timestamp

type_synonym SignedSettlementInitiate = "SettlementInitiate with_signature"
type_synonym SignedPaymentSubmitted = "PaymentSubmitted with_signature"
type_synonym SignedPaymentReversed = "PaymentReversed with_signature"
type_synonym SignedSettlementApproved = "SettlementApproved with_signature"
type_synonym SignedSettlementRejected = "SettlementRejected with_signature"
type_synonym SignedSettlementCancelled = "SettlementCancelled with_signature"

definition json_initiate :: "SettlementInitiate \<Rightarrow> json" where
  "json_initiate c = JObj
     [(''id'', JStr (si_id c)), (''reservation_id'', JStr (si_reservation_id c)),
      (''buyer'', JStr (si_buyer c)), (''buyer_public_key'', JStr (si_buyer_public_key c)),
      (''seller'', JStr (si_seller c)), (''seller_public_key'', JStr (si_seller_public_key c)),
      (''amount'', json_amount (si_amount c)), (''timestamp'', json_u64 (si_timestamp c))]"

definition json_payment_submitted :: "PaymentSubmitted \<Rightarrow> json" where
  "json_payment_submitted c = JObj
     [(''settlement_id'', JStr (ps_settlement_id c)), (''buyer'', JStr (ps_buyer c)),
      (''payment_reference'', json_option JText (ps_payment_reference c)),
      (''timestamp'', json_u64 (ps_timestamp c))]"

definition json_payment_reversed :: "PaymentReversed \<Rightarrow> json" where
  "json_payment_reversed c = JObj
     [(''settlement_id'', JStr (pr_settlement_id c)), (''buyer'', JStr (pr_buyer c)),
      (''timestamp'', json_u64 (pr_timestamp c))]"

definition json_approved :: "SettlementApproved \<Rightarrow> json" where
  "json_approved c = JObj
     [(''settlement_id'', JStr (sa_settlement_id c)), (''seller'', JStr (sa_seller c)),
      (''timestamp'', json_u64 (sa_timestamp c))]"

fun json_discrepancy :: "PaymentDiscrepancy \<Rightarrow> json" where
  "json_discrepancy IncorrectAmount = JStr ''IncorrectAmount''"
| "json_discrepancy WrongReference = JStr ''WrongReference''"
| "json_discrepancy DuplicatePayment = JStr ''DuplicatePayment''"
| "json_discrepancy IncorrectAccount = JStr ''IncorrectAccount''"
| "json_discrepancy OtherDiscrepancy = JStr ''Other''"

definition json_rejected :: "SettlementRejected \<Rightarrow> json" where
  "json_rejected c = JObj
     [(''settlement_id'', JStr (sr_settlement_id c)), (''seller'', JStr (sr_seller c)),
      (''reason'', JText (sr_reason c)), (''discrepancy'', json_discrepancy (sr_discrepancy c)),
      (''timestamp'', json_u64 (sr_timestamp c))]"

definition json_cancelled :: "SettlementCancelled \<Rightarrow> json" where
  "json_cancelled c = JObj
     [(''settlement_id'', JStr (sc_settlement_id c)), (''canceller'', JStr (sc_canceller c)),
      (''timestamp'', json_u64 (sc_timestamp c))]"

definition verify_initiate ::
  "'z node_env_scheme \<Rightarrow> SignedSettlementInitiate \<Rightarrow> SettlementError + 'a \<Rightarrow> SettlementError + 'a" where
  "verify_initiate env msg k =
     check_self_signed env ''openfiat/settlement/SettlementInitiate/v1''
       (json_initiate (fst msg)) (si_buyer_public_key (fst msg)) (si_buyer (fst msg)) (snd msg)
       SE_MalformedSettlement SE_InvalidSignature SE_Unauthorized k"


section \<open>The registry\<close>

record set_store = res_store +
  settlements :: "Settlement column"

definition set_get :: "'s set_store_scheme \<Rightarrow> SettlementId \<Rightarrow> Settlement option" where
  "set_get st i = map_of (settlements st) i"

definition set_put :: "Settlement \<Rightarrow> 's set_store_scheme \<Rightarrow> 's set_store_scheme" where
  "set_put m st = st\<lparr>settlements := bt_insert (sm_id m) m (settlements st)\<rparr>"

definition set_all :: "'s set_store_scheme \<Rightarrow> Settlement list" where
  "set_all st = map snd (settlements st)"

definition new_settlement :: "SettlementInitiate \<Rightarrow> Settlement" where
  "new_settlement c = \<lparr>
     sm_id = si_id c, sm_reservation_id = si_reservation_id c, sm_buyer = si_buyer c,
     sm_buyer_public_key = si_buyer_public_key c, sm_seller = si_seller c,
     sm_seller_public_key = si_seller_public_key c, sm_amount = si_amount c,
     sm_state = SS_AwaitingPayment, sm_payment_reference = None, sm_escrow_release_signature = None,
     sm_payment_submitted_at = None, sm_merchant_responded_at = None, sm_payment_discrepancy = None,
     sm_disputed_at = None, sm_created_at = si_timestamp c, sm_updated_at = si_timestamp c\<rparr>"

definition apply_initiate ::
  "'z node_env_scheme \<Rightarrow> timestamp \<Rightarrow> SignedSettlementInitiate \<Rightarrow> 's set_store_scheme
   \<Rightarrow> SettlementError + 's set_store_scheme" where
  "apply_initiate env now msg st =
     (let c = fst msg in
      verify_initiate env msg
      (require (set_get st (si_id c) = None) SE_DuplicateSettlementId
      (Inr (set_put (new_settlement c)
             (ignore_error (settlement_started now (si_reservation_id c) st) st)))))"

definition apply_payment_submitted ::
  "'z node_env_scheme \<Rightarrow> SignedPaymentSubmitted \<Rightarrow> 's set_store_scheme
   \<Rightarrow> SettlementError + 's set_store_scheme" where
  "apply_payment_submitted env msg st =
     (let c = fst msg in
      ok_or (set_get st (ps_settlement_id c)) SE_SettlementNotFound (\<lambda>m.
      require (sm_buyer m = ps_buyer c) SE_Unauthorized
      (check_signed env ''openfiat/settlement/PaymentSubmitted/v1'' (json_payment_submitted c)
         (sm_buyer_public_key m) (snd msg) SE_MalformedSettlement SE_InvalidSignature
      (require (sm_state m = SS_AwaitingPayment) SE_InvalidStateTransition
      (Inr (set_put (m\<lparr>sm_state := SS_PaymentSubmitted,
                       sm_payment_reference := ps_payment_reference c,
                       sm_payment_submitted_at := Some (ps_timestamp c),
                       sm_updated_at := ps_timestamp c\<rparr>) st))))))"

definition apply_payment_reversed ::
  "'z node_env_scheme \<Rightarrow> SignedPaymentReversed \<Rightarrow> 's set_store_scheme
   \<Rightarrow> SettlementError + 's set_store_scheme" where
  "apply_payment_reversed env msg st =
     (let c = fst msg in
      ok_or (set_get st (pr_settlement_id c)) SE_SettlementNotFound (\<lambda>m.
      require (sm_buyer m = pr_buyer c) SE_Unauthorized
      (check_signed env ''openfiat/settlement/PaymentReversed/v1'' (json_payment_reversed c)
         (sm_buyer_public_key m) (snd msg) SE_MalformedSettlement SE_InvalidSignature
      (require (sm_state m = SS_PaymentSubmitted) SE_InvalidStateTransition
      (Inr (set_put (m\<lparr>sm_state := SS_AwaitingPayment, sm_payment_reference := None,
                       sm_payment_submitted_at := None, sm_updated_at := pr_timestamp c\<rparr>) st))))))"

definition apply_approved ::
  "'z node_env_scheme \<Rightarrow> timestamp \<Rightarrow> SignedSettlementApproved \<Rightarrow> 's set_store_scheme
   \<Rightarrow> SettlementError + 's set_store_scheme" where
  "apply_approved env now msg st =
     (let c = fst msg in
      ok_or (set_get st (sa_settlement_id c)) SE_SettlementNotFound (\<lambda>m.
      require (sm_seller m = sa_seller c) SE_Unauthorized
      (check_signed env ''openfiat/settlement/SettlementApproved/v1'' (json_approved c)
         (sm_seller_public_key m) (snd msg) SE_MalformedSettlement SE_InvalidSignature
      (require (sm_state m = SS_PaymentSubmitted) SE_InvalidStateTransition
      (Inr (set_put (m\<lparr>sm_state := SS_Approved, sm_merchant_responded_at := Some (sa_timestamp c),
                       sm_updated_at := sa_timestamp c\<rparr>)
             (ignore_error (settlement_completed now (sm_reservation_id m) st) st)))))))"

definition apply_escrow_released ::
  "timestamp \<Rightarrow> SettlementId \<Rightarrow> string \<Rightarrow> 's set_store_scheme \<Rightarrow> SettlementError + 's set_store_scheme" where
  "apply_escrow_released now i sig st =
     ok_or (set_get st i) SE_SettlementNotFound (\<lambda>m.
     require (sm_state m = SS_Approved) SE_InvalidStateTransition
     (Inr (set_put (m\<lparr>sm_state := SS_Completed, sm_escrow_release_signature := Some sig,
                      sm_updated_at := now\<rparr>) st)))"

definition apply_rejected ::
  "'z node_env_scheme \<Rightarrow> timestamp \<Rightarrow> SignedSettlementRejected \<Rightarrow> 's set_store_scheme
   \<Rightarrow> SettlementError + 's set_store_scheme" where
  "apply_rejected env now msg st =
     (let c = fst msg in
      ok_or (set_get st (sr_settlement_id c)) SE_SettlementNotFound (\<lambda>m.
      require (sm_seller m = sr_seller c) SE_Unauthorized
      (check_signed env ''openfiat/settlement/SettlementRejected/v1'' (json_rejected c)
         (sm_seller_public_key m) (snd msg) SE_MalformedSettlement SE_InvalidSignature
      (require (sm_state m = SS_PaymentSubmitted) SE_InvalidStateTransition
      (Inr (set_put (m\<lparr>sm_state := SS_Rejected, sm_merchant_responded_at := Some (sr_timestamp c),
                       sm_payment_discrepancy := Some (sr_discrepancy c),
                       sm_updated_at := sr_timestamp c\<rparr>)
             (ignore_error (settlement_abandoned now (sm_reservation_id m) st) st)))))))"

definition apply_cancelled ::
  "'z node_env_scheme \<Rightarrow> timestamp \<Rightarrow> SignedSettlementCancelled \<Rightarrow> 's set_store_scheme
   \<Rightarrow> SettlementError + 's set_store_scheme" where
  "apply_cancelled env now msg st =
     (let c = fst msg in
      ok_or (set_get st (sc_settlement_id c)) SE_SettlementNotFound (\<lambda>m.
      ok_or (if sc_canceller c = sm_buyer m then Some (sm_buyer_public_key m)
             else if sc_canceller c = sm_seller m then Some (sm_seller_public_key m)
             else None) SE_Unauthorized (\<lambda>key.
      check_signed env ''openfiat/settlement/SettlementCancelled/v1'' (json_cancelled c)
         key (snd msg) SE_MalformedSettlement SE_InvalidSignature
      (require (sm_state m = SS_AwaitingPayment) SE_InvalidStateTransition
      (Inr (set_put (m\<lparr>sm_state := SS_Cancelled, sm_updated_at := sc_timestamp c\<rparr>)
             (ignore_error (settlement_abandoned now (sm_reservation_id m) st) st)))))))"

definition apply_dispute_opened ::
  "SettlementId \<Rightarrow> timestamp \<Rightarrow> 's set_store_scheme \<Rightarrow> SettlementError + 's set_store_scheme" where
  "apply_dispute_opened i opened_at st =
     ok_or (set_get st i) SE_SettlementNotFound (\<lambda>m.
     require (\<not> (sm_state m = SS_Cancelled \<or> sm_state m = SS_Disputed)) SE_InvalidStateTransition
     (Inr (set_put (m\<lparr>sm_state := SS_Disputed, sm_disputed_at := Some opened_at,
                      sm_updated_at := opened_at\<rparr>) st)))"

definition apply_dispute_resolved ::
  "timestamp \<Rightarrow> SettlementId \<Rightarrow> DisputeVerdict \<Rightarrow> string \<Rightarrow> 's set_store_scheme
   \<Rightarrow> SettlementError + 's set_store_scheme" where
  "apply_dispute_resolved now i verdict sig st =
     ok_or (set_get st i) SE_SettlementNotFound (\<lambda>m.
     require (sm_state m = SS_Disputed) SE_InvalidStateTransition
     (case verdict of
        DV_EscrowReleased \<Rightarrow>
          Inr (set_put (m\<lparr>sm_state := SS_Completed,
                          sm_escrow_release_signature :=
                            (case sm_escrow_release_signature m of None \<Rightarrow> Some sig | Some s \<Rightarrow> Some s),
                          sm_updated_at := now\<rparr>)
                (ignore_error (settlement_completed now (sm_reservation_id m) st) st))
      | DV_EscrowReturned \<Rightarrow>
          Inr (set_put (m\<lparr>sm_state := SS_Cancelled, sm_updated_at := now\<rparr>)
                (ignore_error (settlement_abandoned now (sm_reservation_id m) st) st))))"

record set_wire = res_wire +
  de_initiate :: "u8 list \<Rightarrow> SignedSettlementInitiate option"
  de_payment_submitted :: "u8 list \<Rightarrow> SignedPaymentSubmitted option"
  de_payment_reversed :: "u8 list \<Rightarrow> SignedPaymentReversed option"
  de_approved :: "u8 list \<Rightarrow> SignedSettlementApproved option"
  de_rejected :: "u8 list \<Rightarrow> SignedSettlementRejected option"
  de_cancelled :: "u8 list \<Rightarrow> SignedSettlementCancelled option"

definition set_apply_event ::
  "'z set_wire_scheme \<Rightarrow> timestamp \<Rightarrow> EventEnvelope \<Rightarrow> 's set_store_scheme \<Rightarrow> 's set_store_scheme" where
  "set_apply_event env now ev st =
     (if ev_ofs_spec ev \<noteq> 2300 then st
      else if ev_event_type ev = ''SettlementInitiated''
        then apply_payload (de_initiate env) ev (\<lambda>m. apply_initiate env now m st) st
      else if ev_event_type ev = ''PaymentSubmitted''
        then apply_payload (de_payment_submitted env) ev (\<lambda>m. apply_payment_submitted env m st) st
      else if ev_event_type ev = ''PaymentReversed''
        then apply_payload (de_payment_reversed env) ev (\<lambda>m. apply_payment_reversed env m st) st
      else if ev_event_type ev = ''SettlementApproved''
        then apply_payload (de_approved env) ev (\<lambda>m. apply_approved env now m st) st
      else if ev_event_type ev = ''SettlementRejected''
        then apply_payload (de_rejected env) ev (\<lambda>m. apply_rejected env now m st) st
      else if ev_event_type ev = ''SettlementCancelled''
        then apply_payload (de_cancelled env) ev (\<lambda>m. apply_cancelled env now m st) st
      else st)"



section \<open>The life of a settlement\<close>

text \<open>The edges of the state machine, from nothing to the first state and onwards.\<close>

inductive legal_move :: "SettlementState option \<Rightarrow> SettlementState \<Rightarrow> bool" where
  initiated: "legal_move None SS_AwaitingPayment"
| submitted: "legal_move (Some SS_AwaitingPayment) SS_PaymentSubmitted"
| reversed: "legal_move (Some SS_PaymentSubmitted) SS_AwaitingPayment"
| approved: "legal_move (Some SS_PaymentSubmitted) SS_Approved"
| released: "legal_move (Some SS_Approved) SS_Completed"
| rejected: "legal_move (Some SS_PaymentSubmitted) SS_Rejected"
| cancelled: "legal_move (Some SS_AwaitingPayment) SS_Cancelled"
| disputed: "s \<noteq> SS_Cancelled \<Longrightarrow> s \<noteq> SS_Disputed \<Longrightarrow> legal_move (Some s) SS_Disputed"
| awarded: "legal_move (Some SS_Disputed) SS_Completed"
| returned: "legal_move (Some SS_Disputed) SS_Cancelled"

code_pred legal_move .

inductive_cases legal_from_cancelled: "legal_move (Some SS_Cancelled) s"
inductive_cases legal_from_none: "legal_move None s"
inductive_cases legal_from_disputed: "legal_move (Some SS_Disputed) s"
inductive_cases legal_to_disputed: "legal_move s SS_Disputed"
inductive_cases legal_to_approved: "legal_move s SS_Approved"

text \<open>What happens to the reservation along each edge.\<close>

fun reservation_hook ::
  "SettlementState option \<Rightarrow> SettlementState \<Rightarrow> timestamp \<Rightarrow> ReservationId \<Rightarrow> 's res_store_scheme
   \<Rightarrow> ReservationError + 's res_store_scheme" where
  "reservation_hook None SS_AwaitingPayment now i st = settlement_started now i st"
| "reservation_hook (Some SS_PaymentSubmitted) SS_Approved now i st = settlement_completed now i st"
| "reservation_hook (Some SS_Disputed) SS_Completed now i st = settlement_completed now i st"
| "reservation_hook (Some SS_PaymentSubmitted) SS_Rejected now i st = settlement_abandoned now i st"
| "reservation_hook (Some SS_AwaitingPayment) SS_Cancelled now i st = settlement_abandoned now i st"
| "reservation_hook (Some SS_Disputed) SS_Cancelled now i st = settlement_abandoned now i st"
| "reservation_hook _ _ now i st = Inr st"

text \<open>What never changes about a settlement: who trades, what, and against which reservation.\<close>

definition same_trade :: "Settlement \<Rightarrow> Settlement \<Rightarrow> bool" where
  "same_trade a b \<longleftrightarrow>
     sm_id a = sm_id b \<and> sm_reservation_id a = sm_reservation_id b \<and> sm_buyer a = sm_buyer b
     \<and> sm_buyer_public_key a = sm_buyer_public_key b \<and> sm_seller a = sm_seller b
     \<and> sm_seller_public_key a = sm_seller_public_key b \<and> sm_amount a = sm_amount b
     \<and> sm_created_at a = sm_created_at b"

text \<open>
  One move of one settlement: every operation of the registry is of this form.
\<close>

definition moved ::
  "timestamp \<Rightarrow> Settlement option \<Rightarrow> Settlement \<Rightarrow> 's set_store_scheme \<Rightarrow> 's set_store_scheme \<Rightarrow> bool" where
  "moved now old m st st' \<longleftrightarrow>
     set_get st (sm_id m) = old \<and> legal_move (map_option sm_state old) (sm_state m)
     \<and> pred_option (\<lambda>o'. same_trade o' m) old
     \<and> st' = set_put m (ignore_error (reservation_hook (map_option sm_state old) (sm_state m) now
                          (sm_reservation_id m) st) st)"

definition set_wf :: "'s set_store_scheme \<Rightarrow> bool" where
  "set_wf st \<longleftrightarrow> bt_wf (settlements st) \<and> (\<forall>i m. set_get st i = Some m \<longrightarrow> sm_id m = i)"

lemma set_wf_id: "set_wf st \<Longrightarrow> set_get st i = Some m \<Longrightarrow> sm_id m = i"
  by (simp add: set_wf_def)

lemma set_get_put [simp]: "set_get (set_put m st) i = (if i = sm_id m then Some m else set_get st i)"
  by (simp add: set_get_def set_put_def)

lemma set_put_frame [simp]:
  "ad_get (set_put m st) a = ad_get st a" "res_get (set_put m st) i = res_get st i"
  "reservations (set_put m st) = reservations st" "advertisements (set_put m st) = advertisements st"
  "settlements (set_put m st) = bt_insert (sm_id m) m (settlements st)"
  by (simp_all add: ad_get_def res_get_def set_put_def)

lemma settlements_put [simp]:
  "settlements (res_put r st) = settlements st" "settlements (ad_put ad st) = settlements st"
  "set_get (res_put r st) i = set_get st i" "set_get (ad_put ad st) i = set_get st i"
  by (simp_all add: set_get_def res_put_def ad_put_def)

lemma held_set_put [simp]: "held (set_put m st) a = held st a"
  by (simp add: held_def)

lemma pool_set_put [simp]: "pool (set_put m st) a = pool st a"
  by (simp add: pool_def)

lemma res_inv_set_put [simp]: "res_inv (set_put m st) \<longleftrightarrow> res_inv st"
  by (simp add: res_inv_def)

subsection \<open>Every operation is a move\<close>

lemma new_settlement_sel [simp]:
  "sm_id (new_settlement c) = si_id c" "sm_reservation_id (new_settlement c) = si_reservation_id c"
  "sm_state (new_settlement c) = SS_AwaitingPayment"
  "sm_buyer (new_settlement c) = si_buyer c" "sm_seller (new_settlement c) = si_seller c"
  by (simp_all add: new_settlement_def)

lemma apply_initiate_moved:
  assumes "apply_initiate env now (c, sig) st = Inr st'"
  shows "moved now None (new_settlement c) st st'"
    and "signed_by env ''openfiat/settlement/SettlementInitiate/v1'' (json_initiate c)
           (si_buyer_public_key c) sig"
    and "peer_id_from_public_key env (si_buyer_public_key c) = Some (si_buyer c)"
  using assms by (auto simp: apply_initiate_def verify_initiate_def Let_def moved_def intro: legal_move.intros)

lemma apply_payment_submitted_moved:
  assumes "set_wf st" "apply_payment_submitted env (c, sig) st = Inr st'"
  obtains m where "set_get st (ps_settlement_id c) = Some m" "sm_state m = SS_AwaitingPayment"
    "signed_by env ''openfiat/settlement/PaymentSubmitted/v1'' (json_payment_submitted c)
       (sm_buyer_public_key m) sig"
    "moved now (Some m) (m\<lparr>sm_state := SS_PaymentSubmitted,
                       sm_payment_reference := ps_payment_reference c,
                       sm_payment_submitted_at := Some (ps_timestamp c),
                       sm_updated_at := ps_timestamp c\<rparr>) st st'"
  using assms
  by (auto simp: apply_payment_submitted_def Let_def moved_def same_trade_def set_wf_id
      intro: legal_move.intros)

lemma apply_payment_reversed_moved:
  assumes "set_wf st" "apply_payment_reversed env (c, sig) st = Inr st'"
  obtains m where "set_get st (pr_settlement_id c) = Some m" "sm_state m = SS_PaymentSubmitted"
    "signed_by env ''openfiat/settlement/PaymentReversed/v1'' (json_payment_reversed c)
       (sm_buyer_public_key m) sig"
    "moved now (Some m) (m\<lparr>sm_state := SS_AwaitingPayment, sm_payment_reference := None,
                       sm_payment_submitted_at := None, sm_updated_at := pr_timestamp c\<rparr>) st st'"
  using assms
  by (auto simp: apply_payment_reversed_def Let_def moved_def same_trade_def set_wf_id
      intro: legal_move.intros)

lemma apply_approved_moved:
  assumes "set_wf st" "apply_approved env now (c, sig) st = Inr st'"
  obtains m where "set_get st (sa_settlement_id c) = Some m" "sm_state m = SS_PaymentSubmitted"
    "signed_by env ''openfiat/settlement/SettlementApproved/v1'' (json_approved c)
       (sm_seller_public_key m) sig"
    "moved now (Some m) (m\<lparr>sm_state := SS_Approved, sm_merchant_responded_at := Some (sa_timestamp c),
                       sm_updated_at := sa_timestamp c\<rparr>) st st'"
  using assms
  by (auto simp: apply_approved_def Let_def moved_def same_trade_def set_wf_id intro: legal_move.intros)

lemma apply_rejected_moved:
  assumes "set_wf st" "apply_rejected env now (c, sig) st = Inr st'"
  obtains m where "set_get st (sr_settlement_id c) = Some m" "sm_state m = SS_PaymentSubmitted"
    "signed_by env ''openfiat/settlement/SettlementRejected/v1'' (json_rejected c)
       (sm_seller_public_key m) sig"
    "moved now (Some m) (m\<lparr>sm_state := SS_Rejected, sm_merchant_responded_at := Some (sr_timestamp c),
                       sm_payment_discrepancy := Some (sr_discrepancy c),
                       sm_updated_at := sr_timestamp c\<rparr>) st st'"
  using assms
  by (auto simp: apply_rejected_def Let_def moved_def same_trade_def set_wf_id intro: legal_move.intros)

lemma apply_cancelled_moved:
  assumes "set_wf st" "apply_cancelled env now (c, sig) st = Inr st'"
  obtains m where "set_get st (sc_settlement_id c) = Some m" "sm_state m = SS_AwaitingPayment"
    "signed_by env ''openfiat/settlement/SettlementCancelled/v1'' (json_cancelled c)
       (sm_buyer_public_key m) sig
     \<or> signed_by env ''openfiat/settlement/SettlementCancelled/v1'' (json_cancelled c)
         (sm_seller_public_key m) sig"
    "moved now (Some m) (m\<lparr>sm_state := SS_Cancelled, sm_updated_at := sc_timestamp c\<rparr>) st st'"
  using assms
  by (auto simp: apply_cancelled_def Let_def moved_def same_trade_def set_wf_id intro: legal_move.intros
      split: if_splits)

lemma apply_escrow_released_moved:
  assumes "set_wf st" "apply_escrow_released now i sig st = Inr st'"
  obtains m where "set_get st i = Some m" "sm_state m = SS_Approved"
    "moved now (Some m) (m\<lparr>sm_state := SS_Completed, sm_escrow_release_signature := Some sig,
                      sm_updated_at := now\<rparr>) st st'"
  using assms
  by (auto simp: apply_escrow_released_def moved_def same_trade_def set_wf_id intro: legal_move.intros)

lemma no_hook_to_disputed [simp]: "reservation_hook s SS_Disputed now i st = Inr st"
  by (cases s) (simp_all split: SettlementState.splits)

lemma apply_dispute_opened_moved:
  assumes "set_wf st" "apply_dispute_opened i t st = Inr st'"
  obtains m where "set_get st i = Some m" "sm_state m \<noteq> SS_Cancelled" "sm_state m \<noteq> SS_Disputed"
    "moved now (Some m) (m\<lparr>sm_state := SS_Disputed, sm_disputed_at := Some t, sm_updated_at := t\<rparr>) st st'"
  using assms
  by (auto simp: apply_dispute_opened_def moved_def same_trade_def set_wf_id intro: legal_move.intros)

lemma apply_dispute_resolved_moved:
  assumes "set_wf st" "apply_dispute_resolved now i v sig st = Inr st'"
  obtains m m' where "set_get st i = Some m" "sm_state m = SS_Disputed"
    "sm_state m' = (if v = DV_EscrowReleased then SS_Completed else SS_Cancelled)"
    "moved now (Some m) m' st st'"
proof -
  obtain m where m: "set_get st i = Some m" "sm_state m = SS_Disputed"
    using assms(2) by (auto simp: apply_dispute_resolved_def)
  let ?m = "case v of
      DV_EscrowReleased \<Rightarrow> m\<lparr>sm_state := SS_Completed, sm_escrow_release_signature :=
        (case sm_escrow_release_signature m of None \<Rightarrow> Some sig | Some s \<Rightarrow> Some s), sm_updated_at := now\<rparr>
    | DV_EscrowReturned \<Rightarrow> m\<lparr>sm_state := SS_Cancelled, sm_updated_at := now\<rparr>"
  have "moved now (Some m) ?m st st'"
    using assms m
    by (cases v) (auto simp: apply_dispute_resolved_def moved_def same_trade_def set_wf_id
        intro: legal_move.intros)
  with m show ?thesis by (intro that [of m ?m]) (auto split: DisputeVerdict.splits)
qed



subsection \<open>What a move does to the reservation\<close>

text \<open>The three transitions a settlement drives, with the side of the move that drives each.\<close>

inductive driven :: "SettlementState option \<Rightarrow> SettlementState \<Rightarrow> ReservationState \<Rightarrow> ReservationState \<Rightarrow> bool" where
  driven_started: "driven None SS_AwaitingPayment RS_EscrowLocked RS_Settling"
| driven_completed: "s' = SS_Approved \<or> s' = SS_Completed \<Longrightarrow> driven (Some s) s' RS_Settling RS_Settled"
| driven_abandoned: "s' = SS_Rejected \<or> s' = SS_Cancelled \<Longrightarrow> r = RS_Settling \<or> r = RS_Settled \<Longrightarrow>
    driven (Some s) s' r RS_EscrowLocked"

lemma driven_holds: "driven s s' r r' \<Longrightarrow> holds r \<and> holds r'"
  by (auto simp: holds_def elim: driven.cases)

lemma settlement_started_Inr:
  assumes "settlement_started now i st = Inr st1"
  obtains r where "res_get st i = Some r" "rv_state r = RS_EscrowLocked"
    "st1 = res_put (r\<lparr>rv_state := RS_Settling, rv_updated_at := now\<rparr>) st"
  using assms unfolding settlement_started_def by (auto elim!: res_transition_Inr)

lemma settlement_completed_Inr:
  assumes "settlement_completed now i st = Inr st1"
  obtains r where "res_get st i = Some r" "rv_state r = RS_Settling"
    "st1 = res_put (r\<lparr>rv_state := RS_Settled, rv_updated_at := now\<rparr>) st"
  using assms unfolding settlement_completed_def by (auto elim!: res_transition_Inr)

lemma settlement_abandoned_Inr:
  assumes "settlement_abandoned now i st = Inr st1"
  obtains r where "res_get st i = Some r" "rv_state r = RS_Settling \<or> rv_state r = RS_Settled"
    "st1 = res_put (r\<lparr>rv_state := RS_EscrowLocked, rv_updated_at := now\<rparr>) st"
  using assms unfolding settlement_abandoned_def by (auto elim!: res_transition_Inr)

lemma reservation_hook_Inr:
  assumes "reservation_hook s s' now i st = Inr st1"
  shows "st1 = st \<or> (\<exists>r t. res_get st i = Some r \<and> driven s s' (rv_state r) t
                       \<and> st1 = res_put (r\<lparr>rv_state := t, rv_updated_at := now\<rparr>) st)"
  using assms
  by (cases s; cases s'; cases "the s")
    (auto elim!: settlement_started_Inr settlement_completed_Inr settlement_abandoned_Inr
      simp: driven.simps)

lemma moved_effect:
  assumes "moved now old m st st'"
  shows "st' = set_put m st
         \<or> (\<exists>r t. res_get st (sm_reservation_id m) = Some r
              \<and> driven (map_option sm_state old) (sm_state m) (rv_state r) t
              \<and> st' = set_put m (res_put (r\<lparr>rv_state := t, rv_updated_at := now\<rparr>) st))"
proof (cases "reservation_hook (map_option sm_state old) (sm_state m) now (sm_reservation_id m) st")
  case (Inl e)
  with assms show ?thesis by (simp add: moved_def)
next
  case (Inr st1)
  then have "st' = set_put m st1" using assms by (simp add: moved_def)
  with reservation_hook_Inr [OF Inr] show ?thesis by blast
qed

lemma moved_inv:
  assumes inv: "res_inv st" "set_wf st" and m: "moved now old m st st'"
  shows "res_inv st'" "set_wf st'" "pool st' b = pool st b" "ad_get st' b = ad_get st b"
    "advertisements st' = advertisements st"
    "set_get st' i = (if i = sm_id m then Some m else set_get st i)"
proof -
  have "res_inv st' \<and> set_wf st' \<and> pool st' b = pool st b \<and> ad_get st' b = ad_get st b
      \<and> advertisements st' = advertisements st
      \<and> set_get st' i = (if i = sm_id m then Some m else set_get st i)"
    using moved_effect [OF m]
  proof (elim disjE exE conjE)
    assume "st' = set_put m st"
    with inv show ?thesis by (auto simp: set_wf_def)
  next
    fix r t
    assume r: "res_get st (sm_reservation_id m) = Some r"
      and d: "driven (map_option sm_state old) (sm_state m) (rv_state r) t"
      and st': "st' = set_put m (res_put (r\<lparr>rv_state := t, rv_updated_at := now\<rparr>) st)"
    have "rv_id r = sm_reservation_id m" using inv(1) r by (rule res_inv_reservation)
    then show ?thesis
      unfolding st' using res_inv_move [OF inv(1), of "r\<lparr>rv_state := t, rv_updated_at := now\<rparr>" r]
        r driven_holds [OF d] inv(2)
      by (auto simp: set_wf_def)
  qed
  then show "res_inv st'" "set_wf st'" "pool st' b = pool st b" "ad_get st' b = ad_get st b"
    "advertisements st' = advertisements st"
    "set_get st' i = (if i = sm_id m then Some m else set_get st i)"
    by simp_all
qed

lemma set_apply_event_cases:
  assumes "P st"
    and "\<And>m st'. apply_initiate env now m st = Inr st' \<Longrightarrow> P st'"
    and "\<And>m st'. apply_payment_submitted env m st = Inr st' \<Longrightarrow> P st'"
    and "\<And>m st'. apply_payment_reversed env m st = Inr st' \<Longrightarrow> P st'"
    and "\<And>m st'. apply_approved env now m st = Inr st' \<Longrightarrow> P st'"
    and "\<And>m st'. apply_rejected env now m st = Inr st' \<Longrightarrow> P st'"
    and "\<And>m st'. apply_cancelled env now m st = Inr st' \<Longrightarrow> P st'"
  shows "P (set_apply_event env now ev st)"
  unfolding set_apply_event_def using assms by (auto intro: apply_payload_cases)

end
