(* ===== verification/Dispute_Records.thy ===== *)
theory Dispute_Records
  imports Settlements
begin

text \<open>
  The replicated dispute index (\<open>crates/disputes\<close>): a case opened by a party freezes its
  settlement, arbitrators join until the case locks, commit and then reveal their votes, and the
  outcome the chain executed resolves the case and releases the settlement. The store extends the
  settlement store.
\<close>


section \<open>Records and events\<close>

type_synonym DisputeId = string

datatype DisputeStatus =
    DS_Open | DS_CaseLocked | DS_RevealPhase | DS_AwaitingChainExecution | DS_Resolved

datatype Resolution = R_BuyerWins | R_MerchantWins | R_MutualSettlement | R_Invalid

fun escrow_verdict :: "Resolution \<Rightarrow> DisputeVerdict" where
  "escrow_verdict R_BuyerWins = DV_EscrowReleased"
| "escrow_verdict R_MutualSettlement = DV_EscrowReleased"
| "escrow_verdict R_MerchantWins = DV_EscrowReturned"
| "escrow_verdict R_Invalid = DV_EscrowReturned"

datatype Vote = V_BuyerWins | V_MerchantWins | V_Invalid

record ArbitratorCommitment =
  acm_arbitrator :: peer_id
  acm_commitment :: "u8 list"

record ArbitratorReveal =
  arv_arbitrator :: peer_id
  arv_vote :: Vote

record Dispute =
  dp_id :: DisputeId
  dp_settlement_id :: SettlementId
  dp_buyer :: peer_id
  dp_buyer_public_key :: public_key
  dp_seller :: peer_id
  dp_seller_public_key :: public_key
  dp_opener :: peer_id
  dp_reason :: "nat list"
  dp_status :: DisputeStatus
  dp_required_arbitrators :: u8
  dp_arbitrators :: "peer_id list"
  dp_arbitrator_keys :: "(peer_id \<times> public_key) list"
  dp_commitments :: "ArbitratorCommitment list"
  dp_reveals :: "ArbitratorReveal list"
  dp_resolution :: "Resolution option"
  dp_buyer_agreed :: bool
  dp_seller_agreed :: bool
  dp_onchain_execution_signature :: "string option"
  dp_opened_at :: timestamp
  dp_updated_at :: timestamp

definition arbitrator_key :: "Dispute \<Rightarrow> peer_id \<Rightarrow> public_key option" where
  "arbitrator_key d a = map_option snd (find (\<lambda>e. fst e = a) (dp_arbitrator_keys d))"

datatype DisputeError =
    DE_InvalidSignature
  | DE_Unauthorized
  | DE_DuplicateDisputeId
  | DE_MalformedDispute
  | DE_DisputeNotFound
  | DE_SettlementNotFound
  | DE_InvalidStateTransition
  | DE_NotAParty
  | DE_CommitmentMismatch
  | DE_ArbitrationFull
  | DE_NotAnArbitrator

definition REQUIRED_ARBITRATORS :: u8 where "REQUIRED_ARBITRATORS = 3"

fun vote_byte :: "Vote \<Rightarrow> u8" where
  "vote_byte V_BuyerWins = 0"
| "vote_byte V_MerchantWins = 1"
| "vote_byte V_Invalid = 2"

definition commitment_compute :: "'z node_env_scheme \<Rightarrow> Vote \<Rightarrow> u8 list \<Rightarrow> u8 list" where
  "commitment_compute env vote secret = sha256 env (vote_byte vote # secret)"

record DisputeOpen =
  do_id :: DisputeId
  do_settlement_id :: SettlementId
  do_opener :: peer_id
  do_opener_public_key :: public_key
  do_reason :: "nat list"
  do_timestamp :: timestamp

record ArbitratorJoin =
  aj_dispute_id :: DisputeId
  aj_arbitrator :: peer_id
  aj_arbitrator_public_key :: public_key
  aj_timestamp :: timestamp

record VoteCommit =
  vc_dispute_id :: DisputeId
  vc_arbitrator :: peer_id
  vc_commitment :: "u8 list"
  vc_timestamp :: timestamp

record VoteReveal =
  vr_dispute_id :: DisputeId
  vr_arbitrator :: peer_id
  vr_vote :: Vote
  vr_secret :: "u8 list"
  vr_timestamp :: timestamp

record MutualSettlementAgree =
  ma_dispute_id :: DisputeId
  ma_party :: peer_id
  ma_timestamp :: timestamp

type_synonym SignedDisputeOpen = "DisputeOpen with_signature"
type_synonym SignedArbitratorJoin = "ArbitratorJoin with_signature"
type_synonym SignedVoteCommit = "VoteCommit with_signature"
type_synonym SignedVoteReveal = "VoteReveal with_signature"
type_synonym SignedMutualSettlementAgree = "MutualSettlementAgree with_signature"

definition json_dispute_open :: "DisputeOpen \<Rightarrow> json" where
  "json_dispute_open c = JObj
     [(''id'', JStr (do_id c)), (''settlement_id'', JStr (do_settlement_id c)),
      (''opener'', JStr (do_opener c)), (''opener_public_key'', JStr (do_opener_public_key c)),
      (''reason'', JText (do_reason c)), (''timestamp'', json_u64 (do_timestamp c))]"

definition json_join :: "ArbitratorJoin \<Rightarrow> json" where
  "json_join c = JObj
     [(''dispute_id'', JStr (aj_dispute_id c)), (''arbitrator'', JStr (aj_arbitrator c)),
      (''arbitrator_public_key'', JStr (aj_arbitrator_public_key c)),
      (''timestamp'', json_u64 (aj_timestamp c))]"

definition json_vote_commit :: "VoteCommit \<Rightarrow> json" where
  "json_vote_commit c = JObj
     [(''dispute_id'', JStr (vc_dispute_id c)), (''arbitrator'', JStr (vc_arbitrator c)),
      (''commitment'', json_bytes (vc_commitment c)), (''timestamp'', json_u64 (vc_timestamp c))]"

fun json_vote :: "Vote \<Rightarrow> json" where
  "json_vote V_BuyerWins = JStr ''BuyerWins''"
| "json_vote V_MerchantWins = JStr ''MerchantWins''"
| "json_vote V_Invalid = JStr ''Invalid''"

definition json_vote_reveal :: "VoteReveal \<Rightarrow> json" where
  "json_vote_reveal c = JObj
     [(''dispute_id'', JStr (vr_dispute_id c)), (''arbitrator'', JStr (vr_arbitrator c)),
      (''vote'', json_vote (vr_vote c)), (''secret'', json_bytes (vr_secret c)),
      (''timestamp'', json_u64 (vr_timestamp c))]"

definition json_agree :: "MutualSettlementAgree \<Rightarrow> json" where
  "json_agree c = JObj
     [(''dispute_id'', JStr (ma_dispute_id c)), (''party'', JStr (ma_party c)),
      (''timestamp'', json_u64 (ma_timestamp c))]"

definition verify_open ::
  "'z node_env_scheme \<Rightarrow> SignedDisputeOpen \<Rightarrow> DisputeError + 'a \<Rightarrow> DisputeError + 'a" where
  "verify_open env msg k =
     check_self_signed env ''openfiat/disputes/DisputeOpen/v1''
       (json_dispute_open (fst msg)) (do_opener_public_key (fst msg)) (do_opener (fst msg)) (snd msg)
       DE_MalformedDispute DE_InvalidSignature DE_Unauthorized k"

definition verify_join ::
  "'z node_env_scheme \<Rightarrow> SignedArbitratorJoin \<Rightarrow> DisputeError + 'a \<Rightarrow> DisputeError + 'a" where
  "verify_join env msg k =
     check_self_signed env ''openfiat/disputes/ArbitratorJoin/v1''
       (json_join (fst msg)) (aj_arbitrator_public_key (fst msg)) (aj_arbitrator (fst msg)) (snd msg)
       DE_MalformedDispute DE_InvalidSignature DE_Unauthorized k"


section \<open>The registry\<close>

record dis_store = set_store +
  disputes :: "Dispute column"

definition dis_get :: "'s dis_store_scheme \<Rightarrow> DisputeId \<Rightarrow> Dispute option" where
  "dis_get st i = map_of (disputes st) i"

definition dis_put :: "Dispute \<Rightarrow> 's dis_store_scheme \<Rightarrow> 's dis_store_scheme" where
  "dis_put d st = st\<lparr>disputes := bt_insert (dp_id d) d (disputes st)\<rparr>"

definition dis_all :: "'s dis_store_scheme \<Rightarrow> Dispute list" where
  "dis_all st = map snd (disputes st)"

definition new_dispute :: "DisputeOpen \<Rightarrow> Settlement \<Rightarrow> Dispute" where
  "new_dispute c m = \<lparr>
     dp_id = do_id c, dp_settlement_id = do_settlement_id c,
     dp_buyer = sm_buyer m, dp_buyer_public_key = sm_buyer_public_key m,
     dp_seller = sm_seller m, dp_seller_public_key = sm_seller_public_key m,
     dp_opener = do_opener c, dp_reason = do_reason c, dp_status = DS_Open,
     dp_required_arbitrators = REQUIRED_ARBITRATORS, dp_arbitrators = [], dp_arbitrator_keys = [],
     dp_commitments = [], dp_reveals = [], dp_resolution = None,
     dp_buyer_agreed = False, dp_seller_agreed = False, dp_onchain_execution_signature = None,
     dp_opened_at = do_timestamp c, dp_updated_at = do_timestamp c\<rparr>"

definition apply_open ::
  "'z node_env_scheme \<Rightarrow> SignedDisputeOpen \<Rightarrow> 's dis_store_scheme \<Rightarrow> DisputeError + 's dis_store_scheme" where
  "apply_open env msg st =
     (let c = fst msg in
      verify_open env msg
      (require (dis_get st (do_id c) = None) DE_DuplicateDisputeId
      (ok_or (set_get st (do_settlement_id c)) DE_SettlementNotFound (\<lambda>m.
       require (\<not> (do_opener c \<noteq> sm_buyer m \<and> do_opener c \<noteq> sm_seller m)) DE_NotAParty
      (case apply_dispute_opened (do_settlement_id c) (do_timestamp c) st of
         Inl e \<Rightarrow> Inl DE_InvalidStateTransition
       | Inr st1 \<Rightarrow> Inr (dis_put (new_dispute c m) st1))))))"

definition apply_arbitrator_join ::
  "'z node_env_scheme \<Rightarrow> SignedArbitratorJoin \<Rightarrow> 's dis_store_scheme
   \<Rightarrow> DisputeError + 's dis_store_scheme" where
  "apply_arbitrator_join env msg st =
     (let c = fst msg in
      verify_join env msg
      (ok_or (dis_get st (aj_dispute_id c)) DE_DisputeNotFound (\<lambda>d.
       require (dp_status d = DS_Open) DE_InvalidStateTransition
       (if aj_arbitrator c \<in> set (dp_arbitrators d) then Inr st
        else require (length (dp_arbitrators d) < unat (dp_required_arbitrators d)) DE_ArbitrationFull
          (let arbitrators = dp_arbitrators d @ [aj_arbitrator c]
           in Inr (dis_put (d\<lparr>dp_arbitrators := arbitrators,
                dp_arbitrator_keys := dp_arbitrator_keys d @ [(aj_arbitrator c, aj_arbitrator_public_key c)],
                dp_status := (if length arbitrators = unat (dp_required_arbitrators d)
                              then DS_CaseLocked else dp_status d),
                dp_updated_at := aj_timestamp c\<rparr>) st))))))"

definition apply_vote_commit ::
  "'z node_env_scheme \<Rightarrow> SignedVoteCommit \<Rightarrow> 's dis_store_scheme \<Rightarrow> DisputeError + 's dis_store_scheme" where
  "apply_vote_commit env msg st =
     (let c = fst msg in
      ok_or (dis_get st (vc_dispute_id c)) DE_DisputeNotFound (\<lambda>d.
      require (dp_status d = DS_CaseLocked) DE_InvalidStateTransition
      (ok_or (arbitrator_key d (vc_arbitrator c)) DE_NotAnArbitrator (\<lambda>key.
       check_signed env ''openfiat/disputes/VoteCommit/v1'' (json_vote_commit c) key (snd msg)
         DE_MalformedDispute DE_InvalidSignature
       (if \<exists>x \<in> set (dp_commitments d). acm_arbitrator x = vc_arbitrator c then Inr st
        else let commitments = dp_commitments d
                   @ [\<lparr>acm_arbitrator = vc_arbitrator c, acm_commitment = vc_commitment c\<rparr>]
             in Inr (dis_put (d\<lparr>dp_commitments := commitments,
                  dp_status := (if length commitments = unat (dp_required_arbitrators d)
                                then DS_RevealPhase else dp_status d),
                  dp_updated_at := vc_timestamp c\<rparr>) st))))))"

definition apply_vote_reveal ::
  "'z node_env_scheme \<Rightarrow> SignedVoteReveal \<Rightarrow> 's dis_store_scheme \<Rightarrow> DisputeError + 's dis_store_scheme" where
  "apply_vote_reveal env msg st =
     (let c = fst msg in
      ok_or (dis_get st (vr_dispute_id c)) DE_DisputeNotFound (\<lambda>d.
      require (dp_status d = DS_RevealPhase) DE_InvalidStateTransition
      (ok_or (arbitrator_key d (vr_arbitrator c)) DE_NotAnArbitrator (\<lambda>key.
       check_signed env ''openfiat/disputes/VoteReveal/v1'' (json_vote_reveal c) key (snd msg)
         DE_MalformedDispute DE_InvalidSignature
       (ok_or (find (\<lambda>x. acm_arbitrator x = vr_arbitrator c) (dp_commitments d)) DE_NotAnArbitrator
         (\<lambda>committed.
        require (commitment_compute env (vr_vote c) (vr_secret c) = acm_commitment committed)
          DE_CommitmentMismatch
        (if \<exists>x \<in> set (dp_reveals d). arv_arbitrator x = vr_arbitrator c then Inr st
         else let reveals = dp_reveals d @ [\<lparr>arv_arbitrator = vr_arbitrator c, arv_vote = vr_vote c\<rparr>]
              in Inr (dis_put (d\<lparr>dp_reveals := reveals,
                   dp_status := (if length reveals = unat (dp_required_arbitrators d)
                                 then DS_AwaitingChainExecution else dp_status d),
                   dp_updated_at := vr_timestamp c\<rparr>) st))))))))"

definition apply_mutual_settlement_agree ::
  "'z node_env_scheme \<Rightarrow> SignedMutualSettlementAgree \<Rightarrow> 's dis_store_scheme
   \<Rightarrow> DisputeError + 's dis_store_scheme" where
  "apply_mutual_settlement_agree env msg st =
     (let c = fst msg in
      ok_or (dis_get st (ma_dispute_id c)) DE_DisputeNotFound (\<lambda>d.
      require (dp_status d \<noteq> DS_Resolved) DE_InvalidStateTransition
      (ok_or (preimage env ''openfiat/disputes/MutualSettlementAgree/v1'' (json_agree c))
         DE_MalformedDispute (\<lambda>bytes.
       and_then
         (if ma_party c = dp_buyer d then
            require (verify_signature env (dp_buyer_public_key d) bytes (snd msg)) DE_InvalidSignature
              (Inr (d\<lparr>dp_buyer_agreed := True\<rparr>))
          else if ma_party c = dp_seller d then
            require (verify_signature env (dp_seller_public_key d) bytes (snd msg)) DE_InvalidSignature
              (Inr (d\<lparr>dp_seller_agreed := True\<rparr>))
          else Inl DE_NotAParty)
         (\<lambda>d'. Inr (dis_put (d'\<lparr>dp_status := (if dp_buyer_agreed d' \<and> dp_seller_agreed d'
                                              then DS_AwaitingChainExecution else dp_status d'),
                                dp_updated_at := ma_timestamp c\<rparr>) st))))))"

definition apply_onchain_execution ::
  "timestamp \<Rightarrow> DisputeId \<Rightarrow> string \<Rightarrow> Resolution option \<Rightarrow> 's dis_store_scheme
   \<Rightarrow> DisputeError + 's dis_store_scheme" where
  "apply_onchain_execution now i sig outcome st =
     ok_or (dis_get st i) DE_DisputeNotFound (\<lambda>d.
     require (dp_status d \<noteq> DS_Resolved) DE_InvalidStateTransition
     (let d1 = d\<lparr>dp_onchain_execution_signature := Some sig\<rparr>
      in case outcome of
           None \<Rightarrow> Inr (dis_put d1 st)
         | Some r \<Rightarrow>
             Inr (dis_put (d1\<lparr>dp_resolution := Some r, dp_status := DS_Resolved\<rparr>)
                   (ignore_error (apply_dispute_resolved now (dp_settlement_id d) (escrow_verdict r) sig st) st))))"

record dis_wire = set_wire +
  de_open :: "u8 list \<Rightarrow> SignedDisputeOpen option"
  de_join :: "u8 list \<Rightarrow> SignedArbitratorJoin option"
  de_vote_commit :: "u8 list \<Rightarrow> SignedVoteCommit option"
  de_vote_reveal :: "u8 list \<Rightarrow> SignedVoteReveal option"
  de_agree :: "u8 list \<Rightarrow> SignedMutualSettlementAgree option"

definition dis_apply_event ::
  "'z dis_wire_scheme \<Rightarrow> EventEnvelope \<Rightarrow> 's dis_store_scheme \<Rightarrow> 's dis_store_scheme" where
  "dis_apply_event env ev st =
     (if ev_ofs_spec ev \<noteq> 2400 then st
      else if ev_event_type ev = ''DisputeOpened''
        then apply_payload (de_open env) ev (\<lambda>m. apply_open env m st) st
      else if ev_event_type ev = ''ArbitratorJoined''
        then apply_payload (de_join env) ev (\<lambda>m. apply_arbitrator_join env m st) st
      else if ev_event_type ev = ''VoteCommitted''
        then apply_payload (de_vote_commit env) ev (\<lambda>m. apply_vote_commit env m st) st
      else if ev_event_type ev = ''VoteRevealed''
        then apply_payload (de_vote_reveal env) ev (\<lambda>m. apply_vote_reveal env m st) st
      else if ev_event_type ev = ''MutualSettlementAgreed''
        then apply_payload (de_agree env) ev (\<lambda>m. apply_mutual_settlement_agree env m st) st
      else st)"



section \<open>The life of a dispute\<close>

text \<open>
  What holds of every recorded case: arbitrators are distinct and hold the keys their ids derive
  from, every commitment is one arbitrator's only one, every reveal opens its arbitrator's
  commitment, and the status says how far the case has come.
\<close>

definition roster_ok :: "'z node_env_scheme \<Rightarrow> Dispute \<Rightarrow> bool" where
  "roster_ok env d \<longleftrightarrow>
     dp_required_arbitrators d = 3 \<and> length (dp_arbitrators d) \<le> 3 \<and> distinct (dp_arbitrators d)
     \<and> map fst (dp_arbitrator_keys d) = dp_arbitrators d
     \<and> (\<forall>e \<in> set (dp_arbitrator_keys d). peer_id_from_public_key env (snd e) = Some (fst e))"

definition commits_ok :: "Dispute \<Rightarrow> bool" where
  "commits_ok d \<longleftrightarrow>
     distinct (map acm_arbitrator (dp_commitments d))
     \<and> acm_arbitrator ` set (dp_commitments d) \<subseteq> set (dp_arbitrators d)"

definition opens :: "'z node_env_scheme \<Rightarrow> Dispute \<Rightarrow> ArbitratorReveal \<Rightarrow> bool" where
  "opens env d r \<longleftrightarrow>
     (\<exists>c \<in> set (dp_commitments d). acm_arbitrator c = arv_arbitrator r
        \<and> (\<exists>secret. commitment_compute env (arv_vote r) secret = acm_commitment c))"

definition reveals_ok :: "'z node_env_scheme \<Rightarrow> Dispute \<Rightarrow> bool" where
  "reveals_ok env d \<longleftrightarrow>
     distinct (map arv_arbitrator (dp_reveals d)) \<and> (\<forall>r \<in> set (dp_reveals d). opens env d r)
     \<and> (dp_reveals d \<noteq> [] \<longrightarrow> length (dp_commitments d) = 3)"

definition status_ok :: "Dispute \<Rightarrow> bool" where
  "status_ok d \<longleftrightarrow>
     (dp_status d = DS_Resolved \<longleftrightarrow> dp_resolution d \<noteq> None)
     \<and> (case dp_status d of
          DS_Open \<Rightarrow> length (dp_arbitrators d) < 3 \<and> dp_commitments d = [] \<and> dp_reveals d = []
        | DS_CaseLocked \<Rightarrow> length (dp_arbitrators d) = 3 \<and> length (dp_commitments d) < 3 \<and> dp_reveals d = []
        | DS_RevealPhase \<Rightarrow> length (dp_arbitrators d) = 3 \<and> length (dp_commitments d) = 3
                          \<and> length (dp_reveals d) < 3
        | DS_AwaitingChainExecution \<Rightarrow>
            length (dp_reveals d) = 3 \<or> dp_buyer_agreed d \<and> dp_seller_agreed d
        | DS_Resolved \<Rightarrow> dp_onchain_execution_signature d \<noteq> None)"

definition dispute_wf :: "'z node_env_scheme \<Rightarrow> Dispute \<Rightarrow> bool" where
  "dispute_wf env d \<longleftrightarrow> roster_ok env d \<and> commits_ok d \<and> reveals_ok env d \<and> status_ok d"

lemmas dispute_wf_defs = dispute_wf_def roster_ok_def commits_ok_def reveals_ok_def status_ok_def opens_def

definition unresolved :: "Dispute \<Rightarrow> bool" where
  "unresolved d \<longleftrightarrow> dp_status d \<noteq> DS_Resolved"

lemma dis_get_put [simp]: "dis_get (dis_put d st) i = (if i = dp_id d then Some d else dis_get st i)"
  by (simp add: dis_get_def dis_put_def)

lemma dis_put_frame [simp]:
  "ad_get (dis_put d st) a = ad_get st a" "res_get (dis_put d st) i = res_get st i"
  "set_get (dis_put d st) j = set_get st j"
  "reservations (dis_put d st) = reservations st" "advertisements (dis_put d st) = advertisements st"
  "settlements (dis_put d st) = settlements st"
  "disputes (dis_put d st) = bt_insert (dp_id d) d (disputes st)"
  by (simp_all add: ad_get_def res_get_def set_get_def dis_put_def)

lemma disputes_put [simp]:
  "disputes (res_put r st) = disputes st" "disputes (ad_put ad st) = disputes st"
  "disputes (set_put m st) = disputes st"
  by (simp_all add: res_put_def ad_put_def set_put_def)

lemma pool_dis_put [simp]: "pool (dis_put d st) a = pool st a"
  by (simp add: pool_def held_def)

lemma res_inv_dis_put [simp]: "res_inv (dis_put d st) \<longleftrightarrow> res_inv st"
  by (simp add: res_inv_def held_def)

lemma set_wf_dis_put [simp]: "set_wf (dis_put d st) \<longleftrightarrow> set_wf st"
  by (simp add: set_wf_def)

lemma moved_disputes: "moved now old m st st' \<Longrightarrow> disputes st' = disputes st"
  by (auto dest!: moved_effect)

lemma moved_dis_get: "moved now old m st st' \<Longrightarrow> dis_get st' i = dis_get st i"
  by (simp add: dis_get_def moved_disputes)

lemma arbitrator_key_Some:
  assumes "arbitrator_key d a = Some k"
  shows "(a, k) \<in> set (dp_arbitrator_keys d)"
  using assms by (auto simp: arbitrator_key_def find_Some_iff) (metis fst_conv nth_mem)

lemma dispute_wf_new: "dispute_wf env (new_dispute c m)"
  by (simp add: dispute_wf_defs new_dispute_def REQUIRED_ARBITRATORS_def)

lemma distinct_snoc_length:
  "distinct xs \<Longrightarrow> x \<notin> set xs \<Longrightarrow> distinct (xs @ [x])"
  by simp

lemma apply_open_Inr:
  assumes "set_wf st" "apply_open env (c, sig) st = Inr st'"
  obtains m m' st1 where "set_get st (do_settlement_id c) = Some m" "dis_get st (do_id c) = None"
    "sm_state m \<noteq> SS_Cancelled" "sm_state m \<noteq> SS_Disputed" "sm_state m' = SS_Disputed"
    "sm_id m' = do_settlement_id c"
    "moved now (Some m) m' st st1" "st' = dis_put (new_dispute c m) st1"
    "do_opener c = sm_buyer m \<or> do_opener c = sm_seller m"
    "peer_id_from_public_key env (do_opener_public_key c) = Some (do_opener c)"
    "signed_by env ''openfiat/disputes/DisputeOpen/v1'' (json_dispute_open c) (do_opener_public_key c) sig"
proof -
  obtain m st1 where m: "set_get st (do_settlement_id c) = Some m" "dis_get st (do_id c) = None"
      "do_opener c = sm_buyer m \<or> do_opener c = sm_seller m"
      "peer_id_from_public_key env (do_opener_public_key c) = Some (do_opener c)"
      "signed_by env ''openfiat/disputes/DisputeOpen/v1'' (json_dispute_open c) (do_opener_public_key c) sig"
    and run: "apply_dispute_opened (do_settlement_id c) (do_timestamp c) st = Inr st1"
    and st': "st' = dis_put (new_dispute c m) st1"
    using assms(2)
    by (cases "apply_dispute_opened (do_settlement_id c) (do_timestamp c) st")
      (auto simp: apply_open_def verify_open_def Let_def)
  show ?thesis
  proof (rule apply_dispute_opened_moved [OF assms(1) run, of now])
    fix m0
    assume m0: "set_get st (do_settlement_id c) = Some m0" "sm_state m0 \<noteq> SS_Cancelled"
      "sm_state m0 \<noteq> SS_Disputed"
      "moved now (Some m0) (m0\<lparr>sm_state := SS_Disputed, sm_disputed_at := Some (do_timestamp c),
          sm_updated_at := do_timestamp c\<rparr>) st st1"
    then have "m0 = m" "sm_id m0 = do_settlement_id c"
      using m(1) set_wf_id [OF assms(1)] by auto
    with m m0 st' show ?thesis
      by (intro that [of m "m\<lparr>sm_state := SS_Disputed, sm_disputed_at := Some (do_timestamp c),
          sm_updated_at := do_timestamp c\<rparr>" st1]) simp_all
  qed
qed

text \<open>The four edits of an open case.\<close>

definition dispute_edit :: "'z node_env_scheme \<Rightarrow> 's dis_store_scheme \<Rightarrow> 's dis_store_scheme \<Rightarrow> bool" where
  "dispute_edit env st st' \<longleftrightarrow>
     st' = st
     \<or> (\<exists>d d'. dis_get st (dp_id d) = Some d \<and> dp_id d' = dp_id d \<and> st' = dis_put d' st
          \<and> unresolved d \<and> unresolved d' \<and> dp_settlement_id d' = dp_settlement_id d
          \<and> (dispute_wf env d \<longrightarrow> dispute_wf env d'))"

definition dis_wf :: "'s dis_store_scheme \<Rightarrow> bool" where
  "dis_wf st \<longleftrightarrow> bt_wf (disputes st) \<and> (\<forall>i d. dis_get st i = Some d \<longrightarrow> dp_id d = i)"

lemma dispute_editI:
  assumes "dis_wf st" "dis_get st i = Some d" "st' = dis_put d' st" "dp_id d' = dp_id d"
    "unresolved d" "unresolved d'" "dp_settlement_id d' = dp_settlement_id d"
    "dispute_wf env d \<Longrightarrow> dispute_wf env d'"
  shows "dispute_edit env st st'"
proof -
  have "dp_id d = i" using assms(1,2) by (simp add: dis_wf_def)
  with assms show ?thesis unfolding dispute_edit_def by blast
qed

lemma apply_arbitrator_join_edit:
  assumes wf: "dis_wf st" and run: "apply_arbitrator_join env (c, sig) st = Inr st'"
  shows "dispute_edit env st st'"
proof -
  obtain d where d: "dis_get st (aj_dispute_id c) = Some d" "dp_status d = DS_Open"
    and key: "peer_id_from_public_key env (aj_arbitrator_public_key c) = Some (aj_arbitrator c)"
    using run by (auto simp: apply_arbitrator_join_def verify_join_def Let_def)
  show ?thesis
  proof (cases "aj_arbitrator c \<in> set (dp_arbitrators d)")
    case True
    with d run show ?thesis
      by (simp add: apply_arbitrator_join_def verify_join_def Let_def dispute_edit_def)
  next
    case False
    let ?d = "d\<lparr>dp_arbitrators := dp_arbitrators d @ [aj_arbitrator c],
        dp_arbitrator_keys := dp_arbitrator_keys d @ [(aj_arbitrator c, aj_arbitrator_public_key c)],
        dp_status := (if length (dp_arbitrators d @ [aj_arbitrator c]) = unat (dp_required_arbitrators d)
                      then DS_CaseLocked else dp_status d),
        dp_updated_at := aj_timestamp c\<rparr>"
    have st': "st' = dis_put ?d st" "length (dp_arbitrators d) < unat (dp_required_arbitrators d)"
      using d run False by (simp_all add: apply_arbitrator_join_def verify_join_def Let_def)
    have "dispute_wf env ?d" if "dispute_wf env d"
      using that d(2) key False st'(2) by (auto simp: dispute_wf_defs)
    then show ?thesis
      by (intro dispute_editI [OF wf d(1) st'(1)]) (auto simp: unresolved_def d(2))
  qed
qed

lemma apply_vote_commit_edit:
  assumes wf: "dis_wf st" and run: "apply_vote_commit env (c, sig) st = Inr st'"
  shows "dispute_edit env st st'"
proof -
  obtain d key where d: "dis_get st (vc_dispute_id c) = Some d" "dp_status d = DS_CaseLocked"
    and key: "arbitrator_key d (vc_arbitrator c) = Some key"
    using run by (auto simp: apply_vote_commit_def Let_def)
  show ?thesis
  proof (cases "\<exists>x \<in> set (dp_commitments d). acm_arbitrator x = vc_arbitrator c")
    case True
    with d key run show ?thesis by (simp add: apply_vote_commit_def Let_def dispute_edit_def)
  next
    case False
    let ?cs = "dp_commitments d @ [\<lparr>acm_arbitrator = vc_arbitrator c, acm_commitment = vc_commitment c\<rparr>]"
    let ?d = "d\<lparr>dp_commitments := ?cs,
        dp_status := (if length ?cs = unat (dp_required_arbitrators d) then DS_RevealPhase else dp_status d),
        dp_updated_at := vc_timestamp c\<rparr>"
    have st': "st' = dis_put ?d st"
      using d key run False by (simp add: apply_vote_commit_def Let_def)
    have mem: "fst ` set (dp_arbitrator_keys d) = set (dp_arbitrators d)" if "dispute_wf env d"
      using that by (metis dispute_wf_def list.set_map roster_ok_def)
    have "dispute_wf env ?d" if wf: "dispute_wf env d"
    proof -
      have "vc_arbitrator c \<in> set (dp_arbitrators d)"
        using mem [OF wf] arbitrator_key_Some [OF key] by (metis fst_conv imageI)
      then show ?thesis using wf d(2) False by (auto simp: dispute_wf_defs)
    qed
    then show ?thesis
      by (intro dispute_editI [OF wf d(1) st']) (auto simp: unresolved_def d(2))
  qed
qed

lemma apply_vote_reveal_edit:
  assumes wf: "dis_wf st" and run: "apply_vote_reveal env (c, sig) st = Inr st'"
  shows "dispute_edit env st st'"
proof -
  obtain d key committed where d: "dis_get st (vr_dispute_id c) = Some d" "dp_status d = DS_RevealPhase"
    and key: "arbitrator_key d (vr_arbitrator c) = Some key"
    and found: "find (\<lambda>x. acm_arbitrator x = vr_arbitrator c) (dp_commitments d) = Some committed"
    and opened: "commitment_compute env (vr_vote c) (vr_secret c) = acm_commitment committed"
    using run by (auto simp: apply_vote_reveal_def Let_def)
  have committed: "committed \<in> set (dp_commitments d)" "acm_arbitrator committed = vr_arbitrator c"
    using found by (auto simp: find_Some_iff)
  show ?thesis
  proof (cases "\<exists>x \<in> set (dp_reveals d). arv_arbitrator x = vr_arbitrator c")
    case True
    with d key found opened run show ?thesis
      by (simp add: apply_vote_reveal_def Let_def dispute_edit_def)
  next
    case False
    let ?rs = "dp_reveals d @ [\<lparr>arv_arbitrator = vr_arbitrator c, arv_vote = vr_vote c\<rparr>]"
    let ?d = "d\<lparr>dp_reveals := ?rs,
        dp_status := (if length ?rs = unat (dp_required_arbitrators d)
                      then DS_AwaitingChainExecution else dp_status d),
        dp_updated_at := vr_timestamp c\<rparr>"
    have st': "st' = dis_put ?d st"
      using d key found opened run False by (simp add: apply_vote_reveal_def Let_def)
    have "opens env d \<lparr>arv_arbitrator = vr_arbitrator c, arv_vote = vr_vote c\<rparr>"
      using committed opened by (auto simp: opens_def)
    moreover have "opens env ?d r = opens env d r" for r by (simp add: opens_def)
    ultimately have "dispute_wf env ?d" if "dispute_wf env d"
      using that d(2) False
      by (auto simp: dispute_wf_def roster_ok_def commits_ok_def reveals_ok_def status_ok_def)
    then show ?thesis
      by (intro dispute_editI [OF wf d(1) st']) (auto simp: unresolved_def d(2))
  qed
qed

lemma dispute_wf_agreed:
  assumes "dispute_wf env d"
  shows "dispute_wf env (d\<lparr>dp_buyer_agreed := True\<rparr>)" "dispute_wf env (d\<lparr>dp_seller_agreed := True\<rparr>)"
  using assms by (cases "dp_status d"; simp add: dispute_wf_defs; blast)+

lemma dispute_wf_agreement:
  assumes "dispute_wf env d" "unresolved d"
  shows "dispute_wf env (d\<lparr>dp_status := (if dp_buyer_agreed d \<and> dp_seller_agreed d
           then DS_AwaitingChainExecution else dp_status d), dp_updated_at := t\<rparr>)"
proof (cases "dp_buyer_agreed d \<and> dp_seller_agreed d")
  case True
  with assms show ?thesis
    unfolding dispute_wf_def by (simp add: roster_ok_def commits_ok_def reveals_ok_def opens_def
        status_ok_def unresolved_def)
next
  case False
  with assms(1) show ?thesis by (cases "dp_status d"; simp add: dispute_wf_defs)
qed

lemma apply_mutual_settlement_agree_edit:
  assumes wf: "dis_wf st" and run: "apply_mutual_settlement_agree env (c, sig) st = Inr st'"
  shows "dispute_edit env st st'"
proof -
  obtain d where d: "dis_get st (ma_dispute_id c) = Some d" "dp_status d \<noteq> DS_Resolved"
    using run by (auto simp: apply_mutual_settlement_agree_def Let_def)
  let ?upd = "\<lambda>d1. dis_put (d1\<lparr>dp_status := (if dp_buyer_agreed d1 \<and> dp_seller_agreed d1
                 then DS_AwaitingChainExecution else dp_status d1), dp_updated_at := ma_timestamp c\<rparr>) st"
  have "st' = ?upd (d\<lparr>dp_buyer_agreed := True\<rparr>) \<or> st' = ?upd (d\<lparr>dp_seller_agreed := True\<rparr>)"
  proof (cases "ma_party c = dp_buyer d")
    case True
    with run d show ?thesis by (intro disjI1) (clarsimp simp: apply_mutual_settlement_agree_def Let_def)
  next
    case False
    with run d show ?thesis
      by (intro disjI2, cases "ma_party c = dp_seller d")
        (clarsimp simp: apply_mutual_settlement_agree_def Let_def)+
  qed
  then obtain d1 where d1: "d1 = d\<lparr>dp_buyer_agreed := True\<rparr> \<or> d1 = d\<lparr>dp_seller_agreed := True\<rparr>"
    and st': "st' = ?upd d1"
    by (elim disjE) (rule that; simp only: simp_thms)+
  have un: "unresolved d1" using d1 d(2) by (auto simp: unresolved_def)
  have "dispute_wf env d1" if "dispute_wf env d"
    using that d1 by (elim disjE) (simp_all add: dispute_wf_agreed)
  then have "dispute_wf env (d1\<lparr>dp_status := (if dp_buyer_agreed d1 \<and> dp_seller_agreed d1
                 then DS_AwaitingChainExecution else dp_status d1), dp_updated_at := ma_timestamp c\<rparr>)"
    if "dispute_wf env d"
    using dispute_wf_agreement [OF _ un] that by blast
  moreover have "dp_id d1 = dp_id d" "dp_settlement_id d1 = dp_settlement_id d" using d1 by auto
  ultimately show ?thesis
    using un d(2) by (intro dispute_editI [OF wf d(1) st']) (simp_all add: unresolved_def)
qed

text \<open>
  The observation of an execution: without a verdict it only records the transaction; with one it
  resolves the case and, when the settlement is frozen, moves it out of arbitration.
\<close>

lemma apply_onchain_execution_Inr:
  assumes "set_wf st" and run: "apply_onchain_execution now i sig outcome st = Inr st'"
  obtains (seen) d where "outcome = None" "dis_get st i = Some d" "unresolved d"
      "st' = dis_put (d\<lparr>dp_onchain_execution_signature := Some sig\<rparr>) st"
  | (resolved) d r st1 where "outcome = Some r" "dis_get st i = Some d" "unresolved d"
      "st' = dis_put (d\<lparr>dp_onchain_execution_signature := Some sig, dp_resolution := Some r,
                       dp_status := DS_Resolved\<rparr>) st1"
      "st1 = ignore_error (apply_dispute_resolved now (dp_settlement_id d) (escrow_verdict r) sig st) st"
  using run by (cases outcome) (auto simp: apply_onchain_execution_def Let_def unresolved_def)

end
