(* ===== verification/Node_System.thy ===== *)
theory Node_System
  imports Dispute_Records
begin

text \<open>
  The trading half of a node (\<open>crates/rpc/src/state.rs\<close> and \<open>actor.rs\<close>): the registries in the
  order their gossip handlers are attached, the reservation sweep, and the two observations of
  the chain. Runs start from empty registries; the clock is read before every input.
\<close>


section \<open>Inputs\<close>

datatype node_input =
    Gossip EventEnvelope
  | Sweep
  | EscrowReleaseConfirmed SettlementId string
  | DisputeExecutionConfirmed DisputeId string "Resolution option"

definition node_gossip ::
  "'z dis_wire_scheme \<Rightarrow> timestamp \<Rightarrow> EventEnvelope \<Rightarrow> 's dis_store_scheme \<Rightarrow> 's dis_store_scheme" where
  "node_gossip env now ev st =
     dis_apply_event env ev (set_apply_event env now ev (res_apply_event env now ev (ad_apply_event env ev st)))"

fun node_apply ::
  "'z dis_wire_scheme \<Rightarrow> timestamp \<Rightarrow> node_input \<Rightarrow> 's dis_store_scheme \<Rightarrow> 's dis_store_scheme" where
  "node_apply env now (Gossip ev) st = node_gossip env now ev st"
| "node_apply env now Sweep st = fst (expire_stale now VALIDATION_WINDOW st)"
| "node_apply env now (EscrowReleaseConfirmed i sig) st =
     ignore_error (apply_escrow_released now i sig st) st"
| "node_apply env now (DisputeExecutionConfirmed i sig outcome) st =
     ignore_error (apply_onchain_execution now i sig outcome st) st"

text \<open>A run: inputs with the clock reading each was processed at.\<close>

definition node_run ::
  "'z dis_wire_scheme \<Rightarrow> (timestamp \<times> node_input) list \<Rightarrow> 's dis_store_scheme \<Rightarrow> 's dis_store_scheme" where
  "node_run env inputs st = fold (\<lambda>(now, inp). node_apply env now inp) inputs st"

definition empty_node :: dis_store where
  "empty_node = \<lparr>advertisements = [], reservations = [], settlements = [], disputes = []\<rparr>"

lemma node_run_Nil [simp]: "node_run env [] st = st"
  by (simp add: node_run_def)

lemma node_run_Cons [simp]:
  "node_run env (e # es) st = node_run env es (node_apply env (fst e) (snd e) st)"
  by (simp add: node_run_def split_beta)

lemma node_run_append: "node_run env (xs @ ys) st = node_run env ys (node_run env xs st)"
  by (simp add: node_run_def)


section \<open>What one input can do\<close>

text \<open>
  One step of the node, by what it does to the registries: nothing, an edit or a new
  advertisement, a request, a cancellation, a sweep, one move of one settlement, an edit of a
  case, a case opened, an execution seen or a case resolved.
\<close>

definition edits_ad :: "Advertisement \<Rightarrow> Advertisement \<Rightarrow> bool" where
  "edits_ad ad ad' \<longleftrightarrow>
     same_offer ad ad' \<and> ad_available_liquidity ad' = ad_available_liquidity ad
     \<and> ad_status ad \<noteq> AS_Deleted"

inductive node_step ::
  "'z node_env_scheme \<Rightarrow> timestamp \<Rightarrow> 's dis_store_scheme \<Rightarrow> 's dis_store_scheme \<Rightarrow> bool"
  for env :: "'z node_env_scheme" and now :: timestamp where
  step_none: "node_step env now st st"
| step_publish: "ad_get st (ad_id ad) = None \<Longrightarrow> ad_wf env ad \<Longrightarrow> node_step env now st (ad_put ad st)"
| step_edit: "ad_get st (ad_id ad') = Some ad \<Longrightarrow> edits_ad ad ad' \<Longrightarrow> (ad_wf env ad \<Longrightarrow> ad_wf env ad') \<Longrightarrow>
    node_step env now st (ad_put ad' st)"
| step_request: "apply_request env now msg st = Inr st' \<Longrightarrow> node_step env now st st'"
| step_cancel: "apply_cancel env now msg st = Inr st' \<Longrightarrow> node_step env now st st'"
| step_sweep: "node_step env now st (fst (expire_stale now VALIDATION_WINDOW st))"
| step_settle: "moved now old m st st' \<Longrightarrow> old = None \<or> sm_state (the old) \<noteq> SS_Disputed \<Longrightarrow>
    sm_state m \<noteq> SS_Disputed \<Longrightarrow> node_step env now st st'"
| step_open: "moved now (Some m) m' st st1 \<Longrightarrow> sm_state m \<noteq> SS_Disputed \<Longrightarrow> sm_state m' = SS_Disputed \<Longrightarrow>
    dis_get st (do_id c) = None \<Longrightarrow> sm_id m' = do_settlement_id c \<Longrightarrow>
    node_step env now st (dis_put (new_dispute c m) st1)"
| step_case: "dispute_edit env st st' \<Longrightarrow> node_step env now st st'"
| step_seen: "dis_get st i = Some d \<Longrightarrow> unresolved d \<Longrightarrow>
    node_step env now st (dis_put (d\<lparr>dp_onchain_execution_signature := Some sig\<rparr>) st)"
| step_resolved: "dis_get st i = Some d \<Longrightarrow> unresolved d \<Longrightarrow>
    st1 = ignore_error (apply_dispute_resolved now (dp_settlement_id d) (escrow_verdict r) sig st) st \<Longrightarrow>
    node_step env now st (dis_put (d\<lparr>dp_onchain_execution_signature := Some sig, dp_resolution := Some r,
                       dp_status := DS_Resolved\<rparr>) st1)"

inductive_cases node_step_cases: "node_step env now st st'"


section \<open>The node invariant\<close>

text \<open>The cases still pending on a settlement.\<close>

definition pending_cases :: "'s dis_store_scheme \<Rightarrow> SettlementId \<Rightarrow> DisputeId set" where
  "pending_cases st s = {i. \<exists>d. dis_get st i = Some d \<and> unresolved d \<and> dp_settlement_id d = s}"

definition disputed_now :: "'s set_store_scheme \<Rightarrow> SettlementId \<Rightarrow> bool" where
  "disputed_now st s \<longleftrightarrow> (\<exists>m. set_get st s = Some m \<and> sm_state m = SS_Disputed)"

definition frozen :: "'s dis_store_scheme \<Rightarrow> bool" where
  "frozen st \<longleftrightarrow>
     (\<forall>s. if disputed_now st s then \<exists>i. pending_cases st s = {i} else pending_cases st s = {})"

definition cases_wf :: "'z node_env_scheme \<Rightarrow> 's dis_store_scheme \<Rightarrow> bool" where
  "cases_wf env st \<longleftrightarrow> dis_wf st \<and> (\<forall>i d. dis_get st i = Some d \<longrightarrow> dispute_wf env d)"

definition node_inv :: "'z node_env_scheme \<Rightarrow> 's dis_store_scheme \<Rightarrow> bool" where
  "node_inv env st \<longleftrightarrow> ads_inv env st \<and> res_inv st \<and> set_wf st \<and> cases_wf env st \<and> frozen st"

lemma node_invD:
  assumes "node_inv env st"
  shows "ads_inv env st" "res_inv st" "set_wf st" "cases_wf env st" "dis_wf st" "frozen st"
  using assms by (simp_all add: node_inv_def cases_wf_def)

lemma node_inv_empty: "node_inv env empty_node"
  by (simp add: node_inv_def empty_node_def ads_inv_def res_inv_def set_wf_def cases_wf_def dis_wf_def
      frozen_def disputed_now_def pending_cases_def ad_get_def res_get_def set_get_def dis_get_def)

subsection \<open>Every input is a step\<close>

lemma ad_event_step:
  assumes "ads_inv env st"
  shows "node_step env now st (ad_apply_event env ev st)"
proof (rule ad_apply_event_cases)
  show "node_step env now st st" by (rule step_none)
next
  fix m st' assume "apply_create env m st = Inr st'"
  then show "node_step env now st st'"
    by (cases m) (auto elim!: apply_create_new intro: step_publish)
next
  fix m st' assume "apply_status_set env m st = Inr st'"
  then show "node_step env now st st'"
    using ads_inv_entry [OF assms]
    by (cases m) (auto elim!: apply_status_set_edit intro!: step_edit ad_wf_edit
        simp: edits_ad_def same_offer_def)
next
  fix m st' assume "apply_terms_update env m st = Inr st'"
  then show "node_step env now st st'"
    using ads_inv_entry [OF assms]
    by (cases m) (auto elim!: apply_terms_update_edit intro!: step_edit
        simp: edits_ad_def same_offer_def ad_wf_def usable_terms_def)
next
  fix m st' assume "apply_pricing_update env m st = Inr st'"
  then show "node_step env now st st'"
    using ads_inv_entry [OF assms]
    by (cases m) (auto elim!: apply_pricing_update_edit intro!: step_edit ad_wf_edit
        simp: edits_ad_def same_offer_def)
qed

lemma res_event_step: "node_step env now st (res_apply_event env now ev st)"
  by (rule res_apply_event_cases) (auto intro: step_none step_request step_cancel)

lemma set_event_step:
  assumes wf: "set_wf st"
  shows "node_step env now st (set_apply_event env now ev st)"
proof (rule set_apply_event_cases)
  show "node_step env now st st" by (rule step_none)
next
  fix m st' assume run: "apply_initiate env now m st = Inr st'"
  obtain c sig where m: "m = (c, sig)" by fastforce
  show "node_step env now st st'"
    using apply_initiate_moved(1) [OF run [unfolded m]] by (rule step_settle) simp_all
next
  fix m st' assume run: "apply_payment_submitted env m st = Inr st'"
  obtain c sig where m: "m = (c, sig)" by fastforce
  show "node_step env now st st'"
    by (rule apply_payment_submitted_moved [OF wf run [unfolded m], of now], rule step_settle) auto
next
  fix m st' assume run: "apply_payment_reversed env m st = Inr st'"
  obtain c sig where m: "m = (c, sig)" by fastforce
  show "node_step env now st st'"
    by (rule apply_payment_reversed_moved [OF wf run [unfolded m], of now], rule step_settle) auto
next
  fix m st' assume run: "apply_approved env now m st = Inr st'"
  obtain c sig where m: "m = (c, sig)" by fastforce
  show "node_step env now st st'"
    by (rule apply_approved_moved [OF wf run [unfolded m]], rule step_settle) auto
next
  fix m st' assume run: "apply_rejected env now m st = Inr st'"
  obtain c sig where m: "m = (c, sig)" by fastforce
  show "node_step env now st st'"
    by (rule apply_rejected_moved [OF wf run [unfolded m]], rule step_settle) auto
next
  fix m st' assume run: "apply_cancelled env now m st = Inr st'"
  obtain c sig where m: "m = (c, sig)" by fastforce
  show "node_step env now st st'"
    by (rule apply_cancelled_moved [OF wf run [unfolded m]], rule step_settle) auto
qed

lemma dis_apply_event_cases:
  assumes "P st"
    and "\<And>m st'. apply_open env m st = Inr st' \<Longrightarrow> P st'"
    and "\<And>m st'. apply_arbitrator_join env m st = Inr st' \<Longrightarrow> P st'"
    and "\<And>m st'. apply_vote_commit env m st = Inr st' \<Longrightarrow> P st'"
    and "\<And>m st'. apply_vote_reveal env m st = Inr st' \<Longrightarrow> P st'"
    and "\<And>m st'. apply_mutual_settlement_agree env m st = Inr st' \<Longrightarrow> P st'"
  shows "P (dis_apply_event env ev st)"
  unfolding dis_apply_event_def using assms by (auto intro: apply_payload_cases)

lemma dis_event_step:
  assumes wf: "set_wf st" "dis_wf st"
  shows "node_step env now st (dis_apply_event env ev st)"
proof (rule dis_apply_event_cases)
  show "node_step env now st st" by (rule step_none)
next
  fix m st' assume run: "apply_open env m st = Inr st'"
  obtain c sig where m: "m = (c, sig)" by fastforce
  show "node_step env now st st'"
  proof (rule apply_open_Inr [OF wf(1) run [unfolded m], of now])
    fix m0 m' st1
    assume "moved now (Some m0) m' st st1" "sm_state m0 \<noteq> SS_Disputed" "sm_state m' = SS_Disputed"
      "dis_get st (do_id c) = None" "sm_id m' = do_settlement_id c"
      and st': "st' = dis_put (new_dispute c m0) st1"
    then show ?thesis unfolding st' by (intro step_open)
  qed
qed (metis surj_pair step_case apply_arbitrator_join_edit [OF wf(2)] apply_vote_commit_edit [OF wf(2)]
    apply_vote_reveal_edit [OF wf(2)] apply_mutual_settlement_agree_edit [OF wf(2)])+


text \<open>Exactly one registry reacts to an event: the one whose spec number it carries.\<close>

lemma other_spec [simp]:
  "ev_ofs_spec ev \<noteq> 2100 \<Longrightarrow> ad_apply_event env1 ev st1 = st1"
  "ev_ofs_spec ev \<noteq> 2200 \<Longrightarrow> res_apply_event env2 now ev st2 = st2"
  "ev_ofs_spec ev \<noteq> 2300 \<Longrightarrow> set_apply_event env3 now ev st3 = st3"
  "ev_ofs_spec ev \<noteq> 2400 \<Longrightarrow> dis_apply_event env4 ev st4 = st4"
  by (simp_all add: ad_apply_event_def res_apply_event_def set_apply_event_def dis_apply_event_def)

lemma node_gossip_one:
  "node_gossip env now ev st =
     (if ev_ofs_spec ev = 2100 then ad_apply_event env ev st
      else if ev_ofs_spec ev = 2200 then res_apply_event env now ev st
      else if ev_ofs_spec ev = 2300 then set_apply_event env now ev st
      else if ev_ofs_spec ev = 2400 then dis_apply_event env ev st
      else st)"
  by (cases "ev_ofs_spec ev = 2100"; cases "ev_ofs_spec ev = 2200"; cases "ev_ofs_spec ev = 2300";
      cases "ev_ofs_spec ev = 2400"; simp add: node_gossip_def)

lemma node_apply_step:
  assumes "node_inv env st"
  shows "node_step env now st (node_apply env now inp st)"
proof (cases inp)
  case (Gossip ev)
  have "node_step env now st (node_gossip env now ev st)"
    unfolding node_gossip_one
    by (auto intro: ad_event_step res_event_step set_event_step dis_event_step step_none
        node_invD [OF assms])
  with Gossip show ?thesis by simp
next
  case Sweep
  then show ?thesis by (simp add: step_sweep)
next
  case (EscrowReleaseConfirmed i sig)
  show ?thesis
  proof (cases "apply_escrow_released now i sig st")
    case (Inl e)
    with EscrowReleaseConfirmed show ?thesis by (simp add: step_none)
  next
    case (Inr st')
    have "node_step env now st st'"
      by (rule apply_escrow_released_moved [OF node_invD(3) [OF assms] Inr], rule step_settle) auto
    with EscrowReleaseConfirmed Inr show ?thesis by simp
  qed
next
  case (DisputeExecutionConfirmed i sig outcome)
  show ?thesis
  proof (cases "apply_onchain_execution now i sig outcome st")
    case (Inl e)
    with DisputeExecutionConfirmed show ?thesis by (simp add: step_none)
  next
    case (Inr st')
    have "node_step env now st st'"
      using node_invD(3) [OF assms] Inr
      by (cases rule: apply_onchain_execution_Inr) (simp_all add: step_seen step_resolved)
    with DisputeExecutionConfirmed Inr show ?thesis by simp
  qed
qed


subsection \<open>Every step keeps the invariant\<close>

lemma pending_ad_put [simp]: "pending_cases (ad_put ad st) s = pending_cases st s"
  by (simp add: pending_cases_def dis_get_def)

lemma dis_get_frame:
  "disputes st' = disputes st \<Longrightarrow> dis_get st' i = dis_get st i"
  by (simp add: dis_get_def)

lemma frozen_cong:
  assumes "\<And>s. pending_cases st' s = pending_cases st s" "\<And>s. disputed_now st' s = disputed_now st s"
  shows "frozen st' \<longleftrightarrow> frozen st"
  by (simp add: frozen_def assms)

text \<open>A change that leaves settlements and cases alone.\<close>

lemma node_inv_ads:
  assumes inv: "node_inv env st" and "ads_inv env st'" "res_inv st'"
    and same: "settlements st' = settlements st" "disputes st' = disputes st"
  shows "node_inv env st'"
proof -
  have get: "set_get st' s = set_get st s" "dis_get st' i = dis_get st i" for s i
    by (simp_all add: set_get_def dis_get_def same)
  have "frozen st'"
    using node_invD(6) [OF inv] frozen_cong [of st' st]
    by (simp add: pending_cases_def disputed_now_def get)
  with assms show ?thesis
    by (simp add: node_inv_def set_wf_def cases_wf_def dis_wf_def get)
qed

lemma ads_inv_cong: "advertisements st' = advertisements st \<Longrightarrow> ads_inv env st' \<longleftrightarrow> ads_inv env st"
  by (simp add: ads_inv_def ad_get_def)

lemma request_frame:
  assumes "apply_request env now msg st = Inr (st' :: 's dis_store_scheme)"
  shows "settlements st' = settlements st" "disputes st' = disputes st"
  using assms by (cases msg; auto elim!: apply_request_Inr)+

lemma request_ads_inv:
  assumes inv: "ads_inv env st" and run: "apply_request env now msg st = Inr st'"
  shows "ads_inv env st'"
proof -
  obtain rq sig where msg: "msg = (rq, sig)" by fastforce
  show ?thesis
    using run [unfolded msg]
  proof (rule apply_request_Inr)
    fix ad :: Advertisement and remaining :: Amount and expires
    let ?ad = "ad\<lparr>ad_available_liquidity := remaining,
             ad_status := if base_units remaining = 0 then AS_Disabled else ad_status ad,
             ad_updated_at := now\<rparr>"
    assume "ad_get st (rq_advertisement_id rq) = Some ad"
      and st': "st' = res_put (new_reservation rq expires) (ad_put ?ad st)"
    then have "ads_inv env (ad_put ?ad st)"
      using inv by (blast intro: ads_inv_put ad_wf_edit dest: ads_inv_entry)
    moreover have "advertisements st' = advertisements (ad_put ?ad st)"
      unfolding st' by (rule advertisements_res_put)
    ultimately show ?thesis using ads_inv_cong by blast
  qed
qed

lemma release_liquidity_frame:
  assumes "release_liquidity now a amount st = Inr (st' :: 's dis_store_scheme)"
  shows "settlements st' = settlements st" "disputes st' = disputes st"
    "reservations st' = reservations st"
  using assms by (auto elim!: release_liquidity_Inr)

lemma cancel_frame:
  assumes inv: "res_inv st" "ads_inv env' st" and run: "apply_cancel env now msg st = Inr (st' :: 's dis_store_scheme)"
  shows "settlements st' = settlements st" "disputes st' = disputes st" "ads_inv env' st'"
proof -
  obtain c sig where msg: "msg = (c, sig)" by fastforce
  obtain r st1 where rel: "release_liquidity now (rv_advertisement_id r) (rv_amount r) st = Inr st1"
    and st': "st' = res_put (r\<lparr>rv_state := RS_Cancelled, rv_updated_at := rc_timestamp c\<rparr>) st1"
    using apply_cancel_Inr [OF inv(1) run [unfolded msg]] by metis
  show "settlements st' = settlements st" "disputes st' = disputes st"
    using release_liquidity_frame [OF rel] by (simp_all add: st')
  have "ads_inv env' st1" using inv(2) rel by (rule ads_inv_release)
  then show "ads_inv env' st'" using ads_inv_cong [of st' st1 env'] by (simp add: st')
qed

lemma sweep_frame:
  fixes st :: "'s dis_store_scheme"
  assumes "ads_inv env st"
  shows "settlements (fst (expire_stale now w st)) = settlements st"
    "disputes (fst (expire_stale now w st)) = disputes st"
    "ads_inv env (fst (expire_stale now w st))"
proof -
  let ?P = "\<lambda>st'. settlements st' = settlements st \<and> disputes st' = disputes st \<and> ads_inv env st'"
  have one: "?P (fst (expire_one now cutoff r (st', sw)))" if "?P st'" for cutoff r st' sw
  proof (cases "release_liquidity now (rv_advertisement_id r) (rv_amount r) st'")
    case (Inr st1)
    have "ads_inv env st1" using that Inr by (blast intro: ads_inv_release)
    with that release_liquidity_frame [OF Inr] show ?thesis
      using ads_inv_cong [of "res_put (r\<lparr>rv_state := RS_Expired, rv_updated_at := now\<rparr>) st1" st1 env] Inr
      by (simp add: expire_one_def)
  qed (use that in \<open>simp add: expire_one_def\<close>)
  have "?P (fst (fold (expire_one now cutoff) rs (st', sw)))" if "?P st'" for cutoff rs st' sw
    using that
  proof (induction rs arbitrary: st' sw)
    case (Cons r rs)
    show ?case
      using Cons.IH [of "fst (expire_one now cutoff r (st', sw))" "snd (expire_one now cutoff r (st', sw))"]
        one [OF Cons.prems, of cutoff r sw] by simp
  qed simp
  from this [of st "saturating_sub now w" "res_all st" "\<lparr>sweep_expired = 0, sweep_deferred = 0\<rparr>"] assms
  have "?P (fst (expire_stale now w st))" unfolding expire_stale_def by simp
  then show "settlements (fst (expire_stale now w st)) = settlements st"
    "disputes (fst (expire_stale now w st)) = disputes st"
    "ads_inv env (fst (expire_stale now w st))"
    by simp_all
qed

text \<open>A change of one settlement, and a change of one case.\<close>

lemma disputed_now_put:
  "disputed_now st' s = (if s = sm_id m then sm_state m = SS_Disputed else disputed_now st s)"
  if "\<And>i. set_get st' i = (if i = sm_id m then Some m else set_get st i)"
  by (simp add: disputed_now_def that)

lemma pending_put_case:
  assumes "\<And>i. dis_get st' i = (if i = dp_id d then Some d else dis_get st i)"
    and "dis_get st (dp_id d) = Some d0" "dp_settlement_id d = dp_settlement_id d0"
  shows "pending_cases st' s =
           (if s = dp_settlement_id d \<and> unresolved d then insert (dp_id d) (pending_cases st s)
            else pending_cases st s - {dp_id d})"
  using assms by (auto simp: pending_cases_def split: if_splits)

lemma cases_wf_put:
  assumes "cases_wf env st" "dispute_wf env d" "disputes st' = bt_insert (dp_id d) d (disputes st)"
  shows "cases_wf env st'"
proof -
  have "dis_get st' i = (if i = dp_id d then Some d else dis_get st i)" for i
    by (simp add: dis_get_def assms(3))
  with assms show ?thesis by (auto simp: cases_wf_def dis_wf_def)
qed

lemma node_inv_settle:
  assumes inv: "node_inv env st" and m: "moved now old m st st'"
    and plain: "old = None \<or> sm_state (the old) \<noteq> SS_Disputed" "sm_state m \<noteq> SS_Disputed"
  shows "node_inv env st'"
proof -
  note eff = moved_inv [OF node_invD(2,3) [OF inv] m]
  have "set_get st (sm_id m) = old" using m by (simp add: moved_def)
  then have "\<not> disputed_now st (sm_id m)" using plain(1) by (auto simp: disputed_now_def)
  then have "disputed_now st' s = disputed_now st s" for s
    using disputed_now_put [of st' m st s] eff(6) plain(2) by simp
  moreover have "pending_cases st' s = pending_cases st s" for s
    by (simp add: pending_cases_def moved_dis_get [OF m])
  ultimately have "frozen st'" using frozen_cong [of st' st] node_invD(6) [OF inv] by simp
  moreover have "cases_wf env st'"
    using node_invD(4) [OF inv] moved_disputes [OF m]
    by (simp add: cases_wf_def dis_wf_def moved_dis_get [OF m])
  moreover have "ads_inv env st'" using ads_inv_cong [of st' st env] eff(5) node_invD(1) [OF inv] by simp
  ultimately show ?thesis using eff(1,2) by (simp add: node_inv_def)
qed

lemma node_inv_open:
  assumes inv: "node_inv env st" and m: "moved now (Some m) m' st st1"
    and states: "sm_state m \<noteq> SS_Disputed" "sm_state m' = SS_Disputed"
    and new: "dis_get st (do_id c) = None" and s: "sm_id m' = do_settlement_id c"
  shows "node_inv env (dis_put (new_dispute c m) st1)"
proof -
  let ?d = "new_dispute c m"
  let ?st = "dis_put ?d st1"
  note eff = moved_inv [OF node_invD(2,3) [OF inv] m]
  have d: "dp_id ?d = do_id c" "dp_settlement_id ?d = do_settlement_id c" "unresolved ?d"
    by (simp_all add: new_dispute_def unresolved_def)
  have "set_get st (sm_id m') = Some m" using m by (simp add: moved_def)
  then have "\<not> disputed_now st (do_settlement_id c)" using states(1) s by (simp add: disputed_now_def)
  then have none: "pending_cases st (do_settlement_id c) = {}"
    using node_invD(6) [OF inv] unfolding frozen_def by meson
  have pend: "pending_cases ?st t
      = (if t = do_settlement_id c then {do_id c} else pending_cases st t)" for t
    using none new d by (auto simp: pending_cases_def moved_dis_get [OF m] split: if_splits)
  have disp: "disputed_now ?st t = (if t = do_settlement_id c then True else disputed_now st t)" for t
    using disputed_now_put [of st1 m' st t] eff(6) states(2) s by (simp add: disputed_now_def)
  have "frozen ?st"
    using node_invD(6) [OF inv] by (simp add: frozen_def pend disp)
  moreover have "cases_wf env ?st"
    using cases_wf_put [OF node_invD(4) [OF inv] dispute_wf_new [of env c m], of ?st] moved_disputes [OF m] by simp
  moreover have "ads_inv env ?st"
    using ads_inv_cong [of ?st st env] eff(5) node_invD(1) [OF inv] by simp
  ultimately show ?thesis using eff(1,2) by (simp add: node_inv_def)
qed

lemma node_inv_case:
  assumes inv: "node_inv env st" and d: "dis_get st (dp_id d') = Some d" "unresolved d" "unresolved d'"
    "dp_settlement_id d' = dp_settlement_id d" "dispute_wf env d'"
  shows "node_inv env (dis_put d' st)"
proof -
  let ?st = "dis_put d' st"
  have "pending_cases ?st s = pending_cases st s" for s
    using d by (auto simp: pending_cases_def split: if_splits)
  moreover have "disputed_now ?st s = disputed_now st s" for s by (simp add: disputed_now_def)
  ultimately have "frozen ?st" using frozen_cong [of ?st st] node_invD(6) [OF inv] by simp
  moreover have "cases_wf env ?st"
    using cases_wf_put [OF node_invD(4) [OF inv] d(5), of ?st] by simp
  moreover have "ads_inv env ?st"
    using ads_inv_cong [of ?st st env] node_invD(1) [OF inv] by simp
  ultimately show ?thesis using node_invD(2,3) [OF inv] by (simp add: node_inv_def)
qed

text \<open>Resolving a case: its settlement is the frozen one, and leaves arbitration with it.\<close>

lemma resolved_effect:
  assumes inv: "node_inv env st" and d: "dis_get st i = Some d" "unresolved d"
  obtains m m' st1 where "set_get st (dp_settlement_id d) = Some m" "sm_state m = SS_Disputed"
    "apply_dispute_resolved now (dp_settlement_id d) v sig st = Inr st1" "moved now (Some m) m' st st1"
    "sm_state m' = (if v = DV_EscrowReleased then SS_Completed else SS_Cancelled)"
    "sm_id m' = dp_settlement_id d"
proof -
  have "i \<in> pending_cases st (dp_settlement_id d)" using d by (simp add: pending_cases_def)
  then have "disputed_now st (dp_settlement_id d)"
    using node_invD(6) [OF inv] unfolding frozen_def by (metis empty_iff)
  then obtain m where m: "set_get st (dp_settlement_id d) = Some m" "sm_state m = SS_Disputed"
    by (auto simp: disputed_now_def)
  then obtain st1 where run: "apply_dispute_resolved now (dp_settlement_id d) v sig st = Inr st1"
    by (cases v) (simp_all add: apply_dispute_resolved_def)
  show ?thesis
  proof (rule apply_dispute_resolved_moved [OF node_invD(3) [OF inv] run])
    fix m0 m'
    assume "set_get st (dp_settlement_id d) = Some m0"
      "sm_state m' = (if v = DV_EscrowReleased then SS_Completed else SS_Cancelled)"
      and mv: "moved now (Some m0) m' st st1"
    moreover from mv have "sm_id m' = sm_id m0" by (simp add: moved_def same_trade_def)
    moreover have "sm_id m = dp_settlement_id d" using m(1) node_invD(3) [OF inv] by (simp add: set_wf_id)
    ultimately show ?thesis using m run by (intro that [of m st1 m']) auto
  qed
qed

lemma node_inv_resolved:
  assumes inv: "node_inv env st" and d: "dis_get st i = Some d" "unresolved d"
    and st1: "st1 = ignore_error (apply_dispute_resolved now (dp_settlement_id d) v sig st) st"
    and d': "dp_id d' = dp_id d" "dp_settlement_id d' = dp_settlement_id d" "\<not> unresolved d'"
      "dispute_wf env d'"
  shows "node_inv env (dis_put d' st1)"
proof (rule resolved_effect [OF inv d, of now v sig])
  fix m m' st0
  assume m: "set_get st (dp_settlement_id d) = Some m" "sm_state m = SS_Disputed"
    and run: "apply_dispute_resolved now (dp_settlement_id d) v sig st = Inr st0"
    and mv: "moved now (Some m) m' st st0"
    and m': "sm_state m' = (if v = DV_EscrowReleased then SS_Completed else SS_Cancelled)"
      "sm_id m' = dp_settlement_id d"
  let ?st = "dis_put d' st1"
  have st1: "st1 = st0" using st1 run by simp
  have idx: "dp_id d = i" using d(1) node_invD(5) [OF inv] by (simp add: dis_wf_def)
  note eff = moved_inv [OF node_invD(2,3) [OF inv] mv]
  have "disputed_now st (dp_settlement_id d)" using m by (simp add: disputed_now_def)
  moreover have "i \<in> pending_cases st (dp_settlement_id d)" using d by (simp add: pending_cases_def)
  ultimately have only: "pending_cases st (dp_settlement_id d) = {i}"
    using node_invD(6) [OF inv] unfolding frozen_def by (metis singletonD)
  have pend: "pending_cases ?st t = (if t = dp_settlement_id d then {} else pending_cases st t)" for t
    using only d d' by (auto simp: pending_cases_def st1 moved_dis_get [OF mv] idx split: if_splits)
  have disp: "disputed_now ?st t = (if t = dp_settlement_id d then False else disputed_now st t)" for t
    using disputed_now_put [of st0 m' st t] eff(6) m' by (simp add: disputed_now_def st1)
  have "frozen ?st" using node_invD(6) [OF inv] by (simp add: frozen_def pend disp)
  moreover have "cases_wf env ?st"
    using cases_wf_put [OF node_invD(4) [OF inv] d'(4), of ?st] moved_disputes [OF mv] by (simp add: st1)
  moreover have "ads_inv env ?st"
    using ads_inv_cong [of ?st st env] eff(5) node_invD(1) [OF inv] by (simp add: st1)
  ultimately show ?thesis using eff(1,2) by (simp add: node_inv_def st1)
qed

lemma dispute_wf_seen:
  "dispute_wf env d \<Longrightarrow> dispute_wf env (d\<lparr>dp_onchain_execution_signature := Some sig\<rparr>)"
  by (cases "dp_status d"; simp add: dispute_wf_defs)

lemma dispute_wf_resolved:
  "dispute_wf env d \<Longrightarrow>
     dispute_wf env (d\<lparr>dp_onchain_execution_signature := Some sig, dp_resolution := Some r,
                       dp_status := DS_Resolved\<rparr>)"
  by (simp add: dispute_wf_defs)

lemma node_case_wf: "node_inv env st \<Longrightarrow> dis_get st i = Some d \<Longrightarrow> dp_id d = i \<and> dispute_wf env d"
  by (simp add: node_inv_def cases_wf_def dis_wf_def)

lemma node_step_inv:
  assumes inv: "node_inv env st" and step: "node_step env now st st'"
  shows "node_inv env st'"
  using step
proof (cases rule: node_step.cases)
  case step_none
  with inv show ?thesis by simp
next
  case (step_publish ad)
  with inv have "ads_inv env st'" "res_inv st'"
    by (simp_all add: ads_inv_put res_inv_publish node_invD)
  with inv show ?thesis by (rule node_inv_ads) (simp_all add: step_publish)
next
  case (step_edit ad' ad)
  then have "ad_wf env ad'" using node_invD(1) [OF inv] by (blast dest: ads_inv_entry)
  then have "ads_inv env st'" using step_edit(1) inv by (simp add: ads_inv_put node_invD)
  moreover have "res_inv st'"
    using step_edit inv res_inv_edit(1) [of st ad' ad] by (simp add: edits_ad_def node_invD)
  ultimately show ?thesis using inv by (intro node_inv_ads [of env st st']) (simp_all add: step_edit)
next
  case (step_request msg)
  show ?thesis
    using inv request_ads_inv [OF node_invD(1) [OF inv] step_request]
      apply_request_inv(1) [OF node_invD(2) [OF inv] step_request] request_frame [OF step_request]
    by (rule node_inv_ads)
next
  case (step_cancel msg)
  note frame = cancel_frame [OF node_invD(2,1) [OF inv] step_cancel]
  show ?thesis
    using inv frame(3) apply_cancel_inv(1) [OF node_invD(2) [OF inv] step_cancel] frame(1,2)
    by (rule node_inv_ads)
next
  case step_sweep
  have res: "res_inv (fst (expire_stale now VALIDATION_WINDOW st))"
    by (rule expire_stale_spec [OF node_invD(2) [OF inv], of now VALIDATION_WINDOW]) simp
  note frame = sweep_frame [OF node_invD(1) [OF inv], of now VALIDATION_WINDOW]
  show ?thesis unfolding step_sweep by (rule node_inv_ads [OF inv frame(3) res frame(1,2)])
next
  case (step_settle old m)
  with inv show ?thesis by (intro node_inv_settle [of env st now old m st'])
next
  case (step_open m m' st1 c)
  with inv show ?thesis by (simp add: node_inv_open)
next
  case step_case
  from step_case show ?thesis
    unfolding dispute_edit_def
  proof (elim disjE exE conjE)
    assume "st' = st"
    with inv show ?thesis by simp
  next
    fix d d'
    assume d: "dis_get st (dp_id d) = Some d" "dp_id d' = dp_id d" "st' = dis_put d' st"
      "unresolved d" "unresolved d'" "dp_settlement_id d' = dp_settlement_id d"
      "dispute_wf env d \<longrightarrow> dispute_wf env d'"
    with node_case_wf [OF inv d(1)] show ?thesis
      unfolding d(3) by (intro node_inv_case [OF inv, of d' d]) simp_all
  qed
next
  case (step_seen i d sig)
  with node_case_wf [OF inv step_seen(2)] show ?thesis
    unfolding step_seen(1)
    by (intro node_inv_case [OF inv, of _ d]) (simp_all add: dispute_wf_seen unresolved_def)
next
  case (step_resolved i d st1 r sig)
  have "dispute_wf env (d\<lparr>dp_onchain_execution_signature := Some sig, dp_resolution := Some r,
                       dp_status := DS_Resolved\<rparr>)"
    using node_case_wf [OF inv step_resolved(2)] by (simp add: dispute_wf_resolved)
  then show ?thesis
    unfolding step_resolved(1)
    by (intro node_inv_resolved [OF inv step_resolved(2,3,4)]) (simp_all add: unresolved_def)
qed

lemma node_step_pool:
  assumes inv: "node_inv env st" and step: "node_step env now st st'" and a: "pool st a = Some n"
  shows "pool st' a = Some n"
  using step
proof (cases rule: node_step.cases)
  case (step_publish ad)
  then have "a \<noteq> ad_id ad" using a by (auto simp: pool_def)
  with step_publish a show ?thesis by (simp add: res_inv_publish node_invD [OF inv])
next
  case (step_edit ad' ad)
  with a show ?thesis using res_inv_edit(2) [OF node_invD(2) [OF inv]] by (simp add: edits_ad_def)
next
  case (step_request msg)
  with a show ?thesis using apply_request_inv(2) [OF node_invD(2) [OF inv] step_request, of a] by simp
next
  case (step_cancel msg)
  with a show ?thesis using apply_cancel_inv(2) [OF node_invD(2) [OF inv] step_cancel, of a] by simp
next
  case step_sweep
  have "pool (fst (expire_stale now VALIDATION_WINDOW st)) a = pool st a"
    by (rule expire_stale_spec [OF node_invD(2) [OF inv], of now VALIDATION_WINDOW]) simp
  with a show ?thesis unfolding step_sweep by simp
next
  case (step_settle old m)
  with a show ?thesis using moved_inv(3) [OF node_invD(2,3) [OF inv] step_settle(1), of a] by simp
next
  case (step_open m m' st1 c)
  with a show ?thesis using moved_inv(3) [OF node_invD(2,3) [OF inv] step_open(2), of a] by simp
next
  case step_case
  with a show ?thesis by (auto simp: dispute_edit_def)
next
  case (step_resolved i d st1 r sig)
  have "pool st1 a = pool st a"
    unfolding step_resolved(4)
    by (rule resolved_effect [OF inv step_resolved(2,3), of now "escrow_verdict r" sig])
      (use moved_inv(3) [OF node_invD(2,3) [OF inv]] in simp)
  with a step_resolved(1) show ?thesis by simp
qed (use a in simp_all)

text \<open>Runs.\<close>

lemma node_apply_inv: "node_inv env st \<Longrightarrow> node_inv env (node_apply env now inp st)"
  by (rule node_step_inv [OF _ node_apply_step])

lemma node_run_inv: "node_inv env st \<Longrightarrow> node_inv env (node_run env inputs st)"
proof (induction inputs arbitrary: st)
  case (Cons e es)
  from Cons.IH [OF node_apply_inv [OF Cons.prems]] show ?case by simp
qed simp

lemma node_run_pool:
  "node_inv env st \<Longrightarrow> pool st a = Some n \<Longrightarrow> pool (node_run env inputs st) a = Some n"
proof (induction inputs arbitrary: st)
  case (Cons e es)
  from Cons.IH [OF node_apply_inv [OF Cons.prems(1)]
      node_step_pool [OF Cons.prems(1) node_apply_step [OF Cons.prems(1)] Cons.prems(2)]]
  show ?case by simp
qed simp

lemma node_reachable_inv: "node_inv env (node_run env inputs empty_node)"
  by (rule node_run_inv [OF node_inv_empty])

end
