(* ===== verification/Reference_Trade.thy ===== *)
theory Reference_Trade
  imports Node_System
begin

text \<open>
  One trade, spelled out on the reference environment: an advertisement is published, a taker
  reserves half of it, a settlement is initiated and a dispute opened. The witnesses of the node's
  properties evaluate on these runs.
\<close>


section \<open>Messages\<close>

definition ref_create :: AdvertisementCreate where
  "ref_create = \<lparr>
     ac_id = ''ad-1'', ac_merchant = ''12D3KooWMerchant'', ac_merchant_public_key = ''12D3KooWMerchant'',
     ac_asset_mint = ''So11111111111111111111111111111111111111112'', ac_direction = Sell,
     ac_fiat_currency = ''KES'', ac_min_trade = \<lparr>base_units = 10, decimals = 6\<rparr>,
     ac_max_trade = \<lparr>base_units = 60, decimals = 6\<rparr>,
     ac_initial_liquidity = \<lparr>base_units = 100, decimals = 6\<rparr>,
     ac_pricing = Fixed \<lparr>base_units = 129, decimals = 2\<rparr>,
     ac_payment_methods = [''builtin:mpesa-kenya''], ac_timestamp = 1000\<rparr>"

definition ref_request :: ReservationRequest where
  "ref_request = \<lparr>
     rq_id = ''rv-1'', rq_advertisement_id = ''ad-1'', rq_requester = ''12D3KooWTaker234'',
     rq_requester_public_key = ''12D3KooWTaker234'',
     rq_amount = \<lparr>base_units = 50, decimals = 6\<rparr>,
     rq_agreed_price = \<lparr>base_units = 129, decimals = 2\<rparr>, rq_agreed_mid = None, rq_timestamp = 2000\<rparr>"

definition ref_initiate :: "SettlementId \<Rightarrow> public_key \<Rightarrow> public_key \<Rightarrow> SettlementInitiate" where
  "ref_initiate s buyer seller_key = \<lparr>
     si_id = s, si_reservation_id = ''rv-1'', si_buyer = buyer, si_buyer_public_key = buyer,
     si_seller = ''12D3KooWMerchant'', si_seller_public_key = seller_key,
     si_amount = \<lparr>base_units = 50, decimals = 6\<rparr>, si_timestamp = 3000\<rparr>"

definition ref_open :: DisputeOpen where
  "ref_open = \<lparr>
     do_id = ''dp-1'', do_settlement_id = ''st-1'', do_opener = ''12D3KooWMerchant'',
     do_opener_public_key = ''12D3KooWMerchant'', do_reason = [], do_timestamp = 4000\<rparr>"

definition ref_signed_create :: SignedAdvertisementCreate where
  "ref_signed_create = (ref_create,
     ref_signature ''openfiat/advertisements/AdvertisementCreate/v1'' (json_ad_create ref_create)
       ''12D3KooWMerchant'')"

definition ref_signed_request :: SignedReservationRequest where
  "ref_signed_request = (ref_request,
     ref_signature ''openfiat/reservations/ReservationRequest/v1'' (json_request ref_request)
       ''12D3KooWTaker234'')"

definition ref_signed_initiate :: "SettlementId \<Rightarrow> public_key \<Rightarrow> public_key \<Rightarrow> SignedSettlementInitiate" where
  "ref_signed_initiate s buyer seller_key = (ref_initiate s buyer seller_key,
     ref_signature ''openfiat/settlement/SettlementInitiate/v1''
       (json_initiate (ref_initiate s buyer seller_key)) buyer)"

definition ref_signed_open :: SignedDisputeOpen where
  "ref_signed_open = (ref_open,
     ref_signature ''openfiat/disputes/DisputeOpen/v1'' (json_dispute_open ref_open)
       ''12D3KooWMerchant'')"

text \<open>The reference environment with decoders that know the messages above.\<close>

definition ref_wire :: dis_wire where
  "ref_wire = \<lparr>
     peer_id_from_public_key = peer_id_from_public_key ref_node_env,
     verify_signature = verify_signature ref_node_env,
     json_to_bytes = json_to_bytes ref_node_env, sha256 = sha256 ref_node_env,
     de_ad_create = (\<lambda>_. Some ref_signed_create), de_ad_status_set = (\<lambda>_. None),
     de_ad_terms_update = (\<lambda>_. None), de_ad_price_update = (\<lambda>_. None),
     de_request = (\<lambda>_. Some ref_signed_request), de_cancel = (\<lambda>_. None),
     de_initiate = (\<lambda>_. Some (ref_signed_initiate ''st-1'' ''12D3KooWTaker234'' ''12D3KooWMerchant'')),
     de_payment_submitted = (\<lambda>_. None), de_payment_reversed = (\<lambda>_. None), de_approved = (\<lambda>_. None),
     de_rejected = (\<lambda>_. None), de_cancelled = (\<lambda>_. None),
     de_open = (\<lambda>_. Some ref_signed_open), de_join = (\<lambda>_. None), de_vote_commit = (\<lambda>_. None),
     de_vote_reveal = (\<lambda>_. None), de_agree = (\<lambda>_. None)\<rparr>"

definition ref_event :: "u16 \<Rightarrow> string \<Rightarrow> node_input" where
  "ref_event spec type = Gossip \<lparr>ev_id = [], ev_event_type = type, ev_ofs_spec = spec,
     ev_timestamp = 0, ev_payload = []\<rparr>"

definition ref_inputs :: "(timestamp \<times> node_input) list" where
  "ref_inputs = [(1500, ref_event 2100 ''AdvertisementCreated''), (2500, ref_event 2200 ''ReservationRequested''),
     (3500, ref_event 2300 ''SettlementInitiated''), (4500, ref_event 2400 ''DisputeOpened'')]"


section \<open>States\<close>

definition ref_listed :: dis_store where
  "ref_listed = ad_put (ref_ad ''ad-1'') empty_node"

definition ref_locked :: dis_store where
  "ref_locked = res_put (new_reservation ref_request 1802000)
     (ad_put ((ref_ad ''ad-1'')\<lparr>ad_available_liquidity := \<lparr>base_units = 50, decimals = 6\<rparr>,
        ad_updated_at := 2500\<rparr>) ref_listed)"

definition ref_settling :: dis_store where
  "ref_settling =
     set_put (new_settlement (ref_initiate ''st-1'' ''12D3KooWTaker234'' ''12D3KooWMerchant''))
     (res_put ((new_reservation ref_request 1802000)\<lparr>rv_state := RS_Settling, rv_updated_at := 3500\<rparr>) ref_locked)"

lemma ref_wire_signed_by [simp]:
  "signed_by ref_wire tag payload key sig \<longleftrightarrow> sig = ref_signature tag payload key"
  by (simp add: ref_wire_def signed_by_def preimage_def ref_signature_def)

lemma ref_wire_peer [simp]:
  "peer_id_from_public_key ref_wire key = (if 16 \<le> length key then Some key else None)"
  by (simp add: ref_wire_def)

lemma ref_selectable: "is_selectable_by ''builtin:mpesa-kenya'' m"
  by (simp add: is_selectable_by_def ref_owner_def parse_ref_def BUILTIN_def)

lemma ref_create_applied: "apply_create ref_wire ref_signed_create empty_node = Inr ref_listed"
  by (simp add: apply_create_def ref_signed_create_def verify_ad_create_def ref_create_def check_terms_def
      ref_selectable ref_listed_def ref_ad_def empty_node_def ad_get_def)

lemma ref_listed_get:
  "ad_get ref_listed ''ad-1'' = Some (ref_ad ''ad-1'')" "res_get ref_listed i = None"
  "set_get ref_listed s = None"
  by (simp_all add: ref_listed_def empty_node_def ref_ad_def ad_get_def res_get_def set_get_def ad_put_def)

lemma ref_request_applied: "apply_request ref_wire 2500 ref_signed_request ref_listed = Inr ref_locked"
  by (simp add: apply_request_def ref_signed_request_def verify_request_def ref_request_def ref_listed_get
      ref_locked_def MAX_CLOCK_SKEW_def VALIDATION_WINDOW_def reserve_liquidity_def ref_ad_def
      checked_add_def amount_checked_sub_def checked_sub_def)

lemma ref_locked_get:
  "res_get ref_locked ''rv-1'' = Some (new_reservation ref_request 1802000)" "set_get ref_locked s = None"
  by (simp_all add: ref_locked_def new_reservation_def ref_request_def ref_listed_def empty_node_def
      set_get_def ad_put_def res_put_def res_get_def)

lemma ref_initiate_applied:
  "apply_initiate ref_wire 3500 (ref_signed_initiate ''st-1'' ''12D3KooWTaker234'' ''12D3KooWMerchant'')
     ref_locked = Inr ref_settling"
  by (simp add: apply_initiate_def ref_signed_initiate_def verify_initiate_def ref_initiate_def ref_locked_get
      ref_settling_def settlement_started_def res_transition_def new_reservation_def)

lemma ref_settling_get:
  "set_get ref_settling ''st-1''
     = Some (new_settlement (ref_initiate ''st-1'' ''12D3KooWTaker234'' ''12D3KooWMerchant''))"
  "set_get ref_settling ''st-2'' = None"
  "res_get ref_settling ''rv-1''
     = Some ((new_reservation ref_request 1802000)\<lparr>rv_state := RS_Settling, rv_updated_at := 3500\<rparr>)"
  by (simp_all add: ref_settling_def new_settlement_def ref_initiate_def ref_locked_get new_reservation_def
      ref_request_def)

lemma ref_settling_cases: "dis_get ref_settling i = None"
  by (simp add: ref_settling_def ref_locked_def ref_listed_def empty_node_def dis_get_def)

lemma ref_event_apply:
  "node_apply ref_wire t (ref_event 2100 ''AdvertisementCreated'') empty_node = ref_listed"
  "node_apply ref_wire 2500 (ref_event 2200 ''ReservationRequested'') ref_listed = ref_locked"
  "node_apply ref_wire 3500 (ref_event 2300 ''SettlementInitiated'') ref_locked = ref_settling"
  using ref_create_applied ref_request_applied ref_initiate_applied
  by (simp_all add: ref_event_def node_gossip_def ad_apply_event_def res_apply_event_def set_apply_event_def
      dis_apply_event_def apply_payload_def ref_wire_def)

lemma ref_run:
  "node_run ref_wire (take 1 ref_inputs) empty_node = ref_listed"
  "node_run ref_wire (take 2 ref_inputs) empty_node = ref_locked"
  "node_run ref_wire (take 3 ref_inputs) empty_node = ref_settling"
  by (simp_all add: ref_inputs_def ref_event_apply numeral_2_eq_2 numeral_3_eq_3)

lemma ref_last_input:
  "node_apply ref_wire 4500 (ref_event 2400 ''DisputeOpened'') ref_settling
     = node_run ref_wire ref_inputs empty_node"
  by (simp add: ref_inputs_def ref_event_apply)

lemma ref_disputed:
  "\<exists>m. set_get (node_run ref_wire ref_inputs empty_node) ''st-1'' = Some m \<and> sm_state m = SS_Disputed"
proof -
  have "node_run ref_wire ref_inputs empty_node
      = node_apply ref_wire 4500 (ref_event 2400 ''DisputeOpened'') ref_settling"
    by (simp add: ref_inputs_def ref_event_apply)
  also have "\<dots> = ignore_error (apply_open ref_wire ref_signed_open ref_settling) ref_settling"
    by (simp add: ref_event_def node_gossip_def ad_apply_event_def res_apply_event_def set_apply_event_def
        dis_apply_event_def apply_payload_def ref_wire_def)
  finally show ?thesis
    by (simp add: apply_open_def ref_signed_open_def ref_open_def verify_open_def ref_settling_get
        ref_settling_cases
        apply_dispute_opened_def new_settlement_def ref_initiate_def)
qed

end
