(* ===== verification/Node_Properties.thy ===== *)
theory Node_Properties
  imports Reference_Trade
begin

text \<open>
  What the trading half of a node guarantees over every run from empty registries: where
  liquidity goes, how long it can be held, how reservations, settlements and cases live, and what
  a repeated event does.
\<close>


section \<open>Liquidity\<close>

text \<open>
  C14. Liquidity is conserved. Once an advertisement is published, and whatever the node processes
  afterwards, what is available on it plus what its locked, settling and settled reservations
  hold is exactly the liquidity its merchant declared.
\<close>

theorem liquidity_conserved:
  assumes "apply_create env (c, sig) (node_run env xs empty_node) = Inr st"
  shows "\<exists>ad. ad_get (node_run env ys st) (ac_id c) = Some ad
           \<and> units (ad_available_liquidity ad) + held (node_run env ys st) (ac_id c)
               = units (ac_initial_liquidity c)"
proof -
  let ?s0 = "node_run env xs empty_node"
  have inv: "node_inv env ?s0" by (rule node_reachable_inv)
  obtain ad where ad: "ad_get ?s0 (ac_id c) = None" "st = ad_put ad ?s0" "ad_id ad = ac_id c"
      "ad_wf env ad" "ad_available_liquidity ad = ac_initial_liquidity c"
    using assms by (rule apply_create_new)
  have "node_step env 0 ?s0 st"
    unfolding ad(2) by (rule step_publish) (simp_all add: ad)
  then have inv': "node_inv env st" by (rule node_step_inv [OF inv])
  have "pool st (ac_id c) = Some (units (ac_initial_liquidity c))"
    unfolding ad(2) using res_inv_publish(2) [OF node_invD(2) [OF inv], of ad "ac_id c"] ad by simp
  then have "pool (node_run env ys st) (ac_id c) = Some (units (ac_initial_liquidity c))"
    by (rule node_run_pool [OF inv'])
  then show ?thesis by (simp add: pool_def)
qed

theorem liquidity_conserved_witness:
  "apply_create ref_wire ref_signed_create empty_node = Inr ref_listed
   \<and> (\<exists>ad. ad_get (node_run ref_wire (drop 1 ref_inputs) ref_listed) ''ad-1'' = Some ad
        \<and> units (ad_available_liquidity ad) + held (node_run ref_wire (drop 1 ref_inputs) ref_listed) ''ad-1'' = 100)"
  using liquidity_conserved [of ref_wire "fst ref_signed_create" "snd ref_signed_create" "[]" ref_listed
      "drop 1 ref_inputs"] ref_create_applied
  by (simp add: ref_signed_create_def ref_create_def)


section \<open>Reservations\<close>

definition same_terms :: "Reservation \<Rightarrow> Reservation \<Rightarrow> bool" where
  "same_terms r r' \<longleftrightarrow>
     r' = r\<lparr>rv_state := rv_state r', rv_updated_at := rv_updated_at r'\<rparr>"

lemma same_terms_refl [simp]: "same_terms r r"
  by (simp add: same_terms_def)

lemma same_terms_update [simp]: "same_terms r (r\<lparr>rv_state := s, rv_updated_at := t\<rparr>)"
  by (simp add: same_terms_def)

lemma same_terms_trans: "same_terms a b \<Longrightarrow> same_terms b c \<Longrightarrow> same_terms a c"
  by (cases a; cases b; cases c) (simp add: same_terms_def)

lemma same_terms_requested: "same_terms r r' \<Longrightarrow> rv_requested_at r' = rv_requested_at r"
  by (cases r; cases r') (simp add: same_terms_def)

text \<open>
  How one step can move a reservation: not at all; out of the lock, when it is cancelled or when
  it is older than the window; or along with a settlement that names it and moves itself.
\<close>

definition res_change ::
  "timestamp \<Rightarrow> 's dis_store_scheme \<Rightarrow> 's dis_store_scheme \<Rightarrow> Reservation \<Rightarrow> Reservation \<Rightarrow> bool" where
  "res_change now st st' r r' \<longleftrightarrow>
     r' = r
     \<or> rv_state r = RS_EscrowLocked \<and> rv_state r' = RS_Cancelled
     \<or> stale (saturating_sub now VALIDATION_WINDOW) r \<and> rv_state r' = RS_Expired
     \<or> (\<exists>m'. set_get st' (sm_id m') = Some m' \<and> sm_reservation_id m' = rv_id r
          \<and> legal_move (map_option sm_state (set_get st (sm_id m'))) (sm_state m')
          \<and> driven (map_option sm_state (set_get st (sm_id m'))) (sm_state m') (rv_state r) (rv_state r'))"

definition res_follows ::
  "timestamp \<Rightarrow> 's dis_store_scheme \<Rightarrow> 's dis_store_scheme \<Rightarrow> ReservationId \<Rightarrow> Reservation \<Rightarrow> bool" where
  "res_follows now st st' i r \<longleftrightarrow>
     (\<exists>r'. res_get st' i = Some r' \<and> same_terms r r' \<and> res_change now st st' r r')"

lemma res_follows_same: "res_get st i = Some r \<Longrightarrow> res_get st' i = res_get st i \<Longrightarrow> res_follows now st st' i r"
  by (simp add: res_follows_def res_change_def)

lemma moved_res_follows:
  assumes inv: "node_inv env st" and m: "moved now old m st st'" and r: "res_get st i = Some r"
  shows "res_follows now st st' i r"
proof -
  have old: "set_get st (sm_id m) = old" "legal_move (map_option sm_state old) (sm_state m)"
    using m by (simp_all add: moved_def)
  have new: "set_get st' (sm_id m) = Some m" using moved_inv(6) [OF node_invD(2,3) [OF inv] m] by simp
  show ?thesis
    using moved_effect [OF m]
  proof (elim disjE exE conjE)
    assume "st' = set_put m st"
    with r show ?thesis by (intro res_follows_same) simp_all
  next
    fix q t
    assume q: "res_get st (sm_reservation_id m) = Some q"
      and d: "driven (map_option sm_state old) (sm_state m) (rv_state q) t"
      and st': "st' = set_put m (res_put (q\<lparr>rv_state := t, rv_updated_at := now\<rparr>) st)"
    have idq: "rv_id q = sm_reservation_id m" using node_invD(2) [OF inv] q by (rule res_inv_reservation)
    show ?thesis
    proof (cases "i = sm_reservation_id m")
      case True
      with q r have "q = r" by simp
      with True idq have get: "res_get st' i = Some (r\<lparr>rv_state := t, rv_updated_at := now\<rparr>)"
        by (simp add: st')
      have "res_change now st st' r (r\<lparr>rv_state := t, rv_updated_at := now\<rparr>)"
        unfolding res_change_def using new old d idq \<open>q = r\<close> by auto
      with get show ?thesis by (simp add: res_follows_def)
    next
      case False
      with r idq show ?thesis by (intro res_follows_same) (simp_all add: st')
    qed
  qed
qed

lemma res_change_cong:
  "(\<And>s. set_get st2 s = set_get st1 s) \<Longrightarrow> res_change now st st2 r r' = res_change now st st1 r r'"
  by (simp add: res_change_def)

lemma node_step_res:
  assumes inv: "node_inv env st" and step: "node_step env now st st'" and r: "res_get st i = Some r"
  shows "res_follows now st st' i r"
  using step
proof (cases rule: node_step.cases)
  case (step_request msg)
  obtain rq sig where msg: "msg = (rq, sig)" by fastforce
  from step_request [unfolded msg] show ?thesis
  proof (rule apply_request_Inr)
    fix ad :: Advertisement and remaining :: Amount and expires
    assume "res_get st (rq_id rq) = None"
      and st': "st' = res_put (new_reservation rq expires) (ad_put (ad\<lparr>ad_available_liquidity := remaining,
             ad_status := if base_units remaining = 0 then AS_Disabled else ad_status ad,
             ad_updated_at := now\<rparr>) st)"
    then have "i \<noteq> rq_id rq" using r by auto
    with r show ?thesis unfolding st' by (intro res_follows_same) simp_all
  qed
next
  case (step_cancel msg)
  obtain c sig where msg: "msg = (c, sig)" by fastforce
  obtain q st1 where q: "res_get st (rc_id c) = Some q" "rv_state q = RS_EscrowLocked"
    and rel: "release_liquidity now (rv_advertisement_id q) (rv_amount q) st = Inr st1"
    and st': "st' = res_put (q\<lparr>rv_state := RS_Cancelled, rv_updated_at := rc_timestamp c\<rparr>) st1"
    using apply_cancel_Inr [OF node_invD(2) [OF inv] step_cancel [unfolded msg]] by metis
  have get: "res_get st1 j = res_get st j" for j
    using release_liquidity_frame(3) [OF rel] by (simp add: res_get_def)
  have "rv_id q = rc_id c" using node_invD(2) [OF inv] q(1) by (rule res_inv_reservation)
  then show ?thesis
    using q r by (cases "i = rc_id c") (auto simp: res_follows_def res_change_def st' get)
next
  case step_sweep
  have "res_get st' i = map_option (\<lambda>r. if stale (saturating_sub now VALIDATION_WINDOW) r
          then expired now r else r) (res_get st i)"
    unfolding step_sweep
    by (rule expire_stale_spec [OF node_invD(2) [OF inv], of now VALIDATION_WINDOW]) simp
  with r show ?thesis
    by (auto simp: res_follows_def res_change_def expired_def)
next
  case (step_settle old m)
  show ?thesis by (rule moved_res_follows [OF inv step_settle(1) r])
next
  case (step_open m m' st1 c)
  have "res_follows now st st1 i r" by (rule moved_res_follows [OF inv step_open(2) r])
  then show ?thesis
    unfolding res_follows_def step_open(1) by (simp add: res_change_cong [of "dis_put _ st1" st1])
next
  case step_case
  with r show ?thesis by (auto simp: dispute_edit_def intro!: res_follows_same)
next
  case (step_resolved j d st1 v sig)
  have "res_follows now st st1 i r"
    unfolding step_resolved(4)
    by (rule resolved_effect [OF inv step_resolved(2,3), of now "escrow_verdict v" sig])
      (simp add: moved_res_follows [OF inv _ r])
  then show ?thesis
    unfolding res_follows_def step_resolved(1) by (simp add: res_change_cong [of "dis_put _ st1" st1])
qed (use r in \<open>auto intro!: res_follows_same\<close>)

text \<open>
  The life of a reservation. Whatever input a node processes, a reservation keeps its terms and
  either stays as it is, leaves the lock by a cancellation or by expiring after the validation
  window, or moves because a settlement that names it moved: into settling when one is initiated,
  to settled when one is approved or awarded, back to the lock when one is rejected, cancelled or
  returned. In particular a settling reservation is neither cancelled nor swept.
\<close>

theorem reservation_lifecycle:
  assumes "res_get (node_run env xs empty_node) i = Some r"
  shows "\<exists>r'. res_get (node_apply env now inp (node_run env xs empty_node)) i = Some r'
           \<and> same_terms r r'
           \<and> res_change now (node_run env xs empty_node)
               (node_apply env now inp (node_run env xs empty_node)) r r'"
  using node_step_res [OF node_reachable_inv node_apply_step [OF node_reachable_inv] assms]
  by (simp add: res_follows_def)

theorem reservation_lifecycle_witness:
  "\<exists>r'. res_get (node_apply ref_wire 3500 (ref_event 2300 ''SettlementInitiated'')
             (node_run ref_wire (take 2 ref_inputs) empty_node)) ''rv-1'' = Some r'
      \<and> same_terms (new_reservation ref_request 1802000) r' \<and> rv_state r' = RS_Settling"
proof -
  have "res_get (node_run ref_wire (take 2 ref_inputs) empty_node) ''rv-1''
      = Some (new_reservation ref_request 1802000)" by (simp only: ref_run ref_locked_get)
  from reservation_lifecycle [OF this, of 3500 "ref_event 2300 ''SettlementInitiated''"] show ?thesis
    by (auto simp: ref_run ref_event_apply ref_settling_get)
qed

lemma node_run_terms:
  assumes "node_inv env st" "res_get st i = Some r"
  shows "\<exists>r'. res_get (node_run env ys st) i = Some r' \<and> same_terms r r'"
  using assms
proof (induction ys arbitrary: st r)
  case (Cons e es)
  have "res_follows (fst e) st (node_apply env (fst e) (snd e) st) i r"
    by (rule node_step_res [OF Cons.prems(1) node_apply_step [OF Cons.prems(1)] Cons.prems(2)])
  then obtain q where q: "res_get (node_apply env (fst e) (snd e) st) i = Some q" "same_terms r q"
    by (auto simp: res_follows_def)
  from Cons.IH [OF node_apply_inv [OF Cons.prems(1)] q(1)] q(2) show ?case
    by (auto intro: same_terms_trans)
qed auto

text \<open>
  C15. A taker cannot hold a merchant's liquidity beyond thirty-five minutes without a settlement.
  A request accepted at node time \<open>t\<close>, whatever timestamp its author signed and whatever happened
  since, is no longer locked after a sweep later than thirty-five minutes past \<open>t\<close>, and that
  sweep defers no reservation.
\<close>

theorem liquidity_hold_bounded:
  assumes "apply_request env t (rq, sig) (node_run env xs empty_node) = Inr st"
    and "unat t + 2100000 < unat t'"
  shows "\<exists>r. res_get (node_apply env t' Sweep (node_run env ys st)) (rq_id rq) = Some r
           \<and> rv_state r \<noteq> RS_EscrowLocked
           \<and> sweep_deferred (snd (expire_stale t' VALIDATION_WINDOW (node_run env ys st))) = 0"
proof -
  let ?s0 = "node_run env xs empty_node" and ?c = "saturating_sub t' VALIDATION_WINDOW"
  have inv: "node_inv env st" by (rule node_step_inv [OF node_reachable_inv step_request [OF assms(1)]])
  then have inv': "node_inv env (node_run env ys st)" by (rule node_run_inv)
  obtain r0 where r0: "res_get st (rq_id rq) = Some r0" "rv_requested_at r0 = rq_timestamp rq"
    and skew: "unat (rq_timestamp rq) \<le> unat t + 300000"
    by (rule apply_request_Inr [OF assms(1)]) auto
  obtain r where r: "res_get (node_run env ys st) (rq_id rq) = Some r" "same_terms r0 r"
    using node_run_terms [OF inv r0(1)] by blast
  have "unat ?c = unat t' - 1800000" by (simp add: unat_saturating_sub VALIDATION_WINDOW_def)
  then have "rv_requested_at r < ?c"
    using assms(2) skew same_terms_requested [OF r(2)] r0(2) by (simp add: word_less_nat_alt)
  then have gone: "rv_state (if stale ?c r then expired t' r else r) \<noteq> RS_EscrowLocked"
    by (auto simp: stale_def)
  show ?thesis
    by (rule expire_stale_spec [OF node_invD(2) [OF inv'], of t' VALIDATION_WINDOW])
      (use r gone in auto)
qed

theorem liquidity_hold_bounded_witness:
  "\<exists>r. res_get (node_apply ref_wire 2102501 Sweep ref_locked) ''rv-1'' = Some r
      \<and> rv_state r \<noteq> RS_EscrowLocked"
  using liquidity_hold_bounded [of ref_wire 2500 "fst ref_signed_request" "snd ref_signed_request"
      "take 1 ref_inputs" ref_locked 2102501 "[]"] ref_request_applied
  by (simp only: ref_run) (auto simp: ref_signed_request_def ref_request_def)


section \<open>Settlements\<close>

lemma same_trade_refl [simp]: "same_trade m m"
  by (simp add: same_trade_def)

definition set_follows :: "'s dis_store_scheme \<Rightarrow> 's dis_store_scheme \<Rightarrow> SettlementId \<Rightarrow> Settlement \<Rightarrow> bool" where
  "set_follows st st' s m \<longleftrightarrow>
     (\<exists>m'. set_get st' s = Some m' \<and> same_trade m m'
        \<and> (m' = m \<or> legal_move (Some (sm_state m)) (sm_state m')))"

lemma set_follows_same:
  "set_get st s = Some m \<Longrightarrow> set_get st' s = set_get st s \<Longrightarrow> set_follows st st' s m"
  by (simp add: set_follows_def)

lemma moved_set_follows:
  assumes inv: "node_inv env st" and mv: "moved now old m' st st'" and m: "set_get st s = Some m"
  shows "set_follows st st' s m"
proof -
  note get = moved_inv(6) [OF node_invD(2,3) [OF inv] mv]
  show ?thesis
  proof (cases "s = sm_id m'")
    case True
    with mv m have "old = Some m" by (simp add: moved_def)
    with mv True get show ?thesis by (auto simp: set_follows_def moved_def)
  next
    case False
    with m get show ?thesis by (intro set_follows_same) simp_all
  qed
qed

lemma node_step_set:
  assumes inv: "node_inv env st" and step: "node_step env now st st'" and m: "set_get st s = Some m"
  shows "set_follows st st' s m"
  using step
proof (cases rule: node_step.cases)
  case (step_request msg)
  from request_frame(1) [OF step_request] m show ?thesis
    by (intro set_follows_same) (simp_all add: set_get_def)
next
  case (step_cancel msg)
  from cancel_frame(1) [OF node_invD(2,1) [OF inv] step_cancel] m show ?thesis
    by (intro set_follows_same) (simp_all add: set_get_def)
next
  case step_sweep
  from sweep_frame(1) [OF node_invD(1) [OF inv], of now VALIDATION_WINDOW] m show ?thesis
    by (intro set_follows_same) (simp_all add: set_get_def step_sweep)
next
  case (step_settle old m')
  show ?thesis by (rule moved_set_follows [OF inv step_settle(1) m])
next
  case (step_open m0 m' st1 c)
  have "set_follows st st1 s m" by (rule moved_set_follows [OF inv step_open(2) m])
  then show ?thesis by (simp add: set_follows_def step_open(1))
next
  case step_case
  with m show ?thesis by (auto simp: dispute_edit_def intro!: set_follows_same)
next
  case (step_resolved j d st1 v sig)
  have "set_follows st st1 s m"
    unfolding step_resolved(4)
    by (rule resolved_effect [OF inv step_resolved(2,3), of now "escrow_verdict v" sig])
      (simp add: moved_set_follows [OF inv _ m])
  then show ?thesis by (simp add: set_follows_def step_resolved(1))
qed (use m in \<open>auto intro!: set_follows_same\<close>)

text \<open>
  C16. The life of a settlement. Whatever input a node processes, a settlement keeps its parties,
  their keys, its amount and its reservation, and stays as it is or moves along one edge of the
  state machine; a cancelled settlement stays cancelled.
\<close>

theorem settlement_lifecycle:
  assumes "set_get (node_run env xs empty_node) s = Some m"
  shows "\<exists>m'. set_get (node_apply env now inp (node_run env xs empty_node)) s = Some m'
           \<and> same_trade m m'
           \<and> (m' = m \<or> sm_state m \<noteq> SS_Cancelled \<and> legal_move (Some (sm_state m)) (sm_state m'))"
proof -
  have "set_follows (node_run env xs empty_node)
      (node_apply env now inp (node_run env xs empty_node)) s m"
    by (rule node_step_set [OF node_reachable_inv node_apply_step [OF node_reachable_inv] assms])
  moreover have "\<not> legal_move (Some SS_Cancelled) x" for x
    by (auto elim: legal_from_cancelled)
  ultimately show ?thesis unfolding set_follows_def by metis
qed

theorem settlement_lifecycle_witness:
  "\<exists>m'. set_get (node_run ref_wire ref_inputs empty_node) ''st-1'' = Some m'
      \<and> same_trade (new_settlement (ref_initiate ''st-1'' ''12D3KooWTaker234'' ''12D3KooWMerchant'')) m'
      \<and> legal_move (Some SS_AwaitingPayment) SS_Disputed"
proof -
  have "set_get (node_run ref_wire (take 3 ref_inputs) empty_node) ''st-1''
      = Some (new_settlement (ref_initiate ''st-1'' ''12D3KooWTaker234'' ''12D3KooWMerchant''))"
    by (simp only: ref_run ref_settling_get)
  from settlement_lifecycle [OF this, of 4500 "ref_event 2400 ''DisputeOpened''"] ref_disputed
  show ?thesis
    by (auto simp: ref_run ref_last_input new_settlement_def)
qed


section \<open>Disputes\<close>

text \<open>
  C17. Arbitration freezes exactly the trades under it. In every state a node reaches, a disputed
  settlement has exactly one case that the chain has not decided, and a settlement in any other
  state has none; every case on file is well formed: its arbitrators are distinct and own the keys
  they vote with, each vote revealed opens the commitment of its arbitrator, none is revealed
  before all three are committed, and a case is resolved exactly when it has an outcome.
\<close>

theorem arbitrated_trades_frozen:
  assumes "set_get (node_run env xs empty_node) s = Some m"
  shows "(if sm_state m = SS_Disputed then \<exists>i. pending_cases (node_run env xs empty_node) s = {i}
          else pending_cases (node_run env xs empty_node) s = {})
         \<and> (case dis_get (node_run env xs empty_node) i of
              None \<Rightarrow> True | Some d \<Rightarrow> dp_id d = i \<and> dispute_wf env d)"
proof -
  have inv: "node_inv env (node_run env xs empty_node)" by (rule node_reachable_inv)
  have "disputed_now (node_run env xs empty_node) s \<longleftrightarrow> sm_state m = SS_Disputed"
    using assms by (simp add: disputed_now_def)
  moreover have "case dis_get (node_run env xs empty_node) i of
              None \<Rightarrow> True | Some d \<Rightarrow> dp_id d = i \<and> dispute_wf env d"
    using node_case_wf [OF inv, of i] by (simp split: option.splits)
  ultimately show ?thesis using node_invD(6) [OF inv] unfolding frozen_def by metis
qed

theorem arbitrated_trades_frozen_witness:
  "\<exists>m i. set_get (node_run ref_wire ref_inputs empty_node) ''st-1'' = Some m \<and> sm_state m = SS_Disputed
      \<and> pending_cases (node_run ref_wire ref_inputs empty_node) ''st-1'' = {i}"
proof -
  obtain m where m: "set_get (node_run ref_wire ref_inputs empty_node) ''st-1'' = Some m"
    "sm_state m = SS_Disputed" using ref_disputed by blast
  with arbitrated_trades_frozen [OF m(1)] show ?thesis by auto
qed


section \<open>Repeated events\<close>

text \<open>An operation that took effect has nothing to do when its message arrives again.\<close>

definition spent :: "('e + 's) \<Rightarrow> 's \<Rightarrow> bool" where
  "spent result st \<longleftrightarrow> (case result of Inl e \<Rightarrow> True | Inr st' \<Rightarrow> st' = st)"

lemma spent_Inl [simp]: "spent (Inl e) st"
  by (simp add: spent_def)

lemma spent_Inr [simp]: "spent (Inr st') st \<longleftrightarrow> st' = st"
  by (simp add: spent_def)



lemma bt_insert_again [simp]: "bt_insert k v (bt_insert k v es) = bt_insert k v es"
  by (induction es) auto

lemma ad_put_again [simp]: "ad_put ad (ad_put ad st) = ad_put ad st"
  by (simp add: ad_put_def)

lemma dis_put_again [simp]: "dis_put d (dis_put d st) = dis_put d st"
  by (simp add: dis_put_def)



























end
