(* ===== verification/Node_Limits.thy ===== *)
theory Node_Limits
  imports Node_Properties
begin

text \<open>
  What the settlement and advertisement handlers leave open to a party who is not the one they
  name: the seller's key is the initiator's claim, a settlement may name any reservation, and a
  signed edit of an advertisement stays good for ever.
\<close>


section \<open>What a stranger can do\<close>

text \<open>The messages of the two examples, all signed by one wallet each.\<close>

definition ref_paid :: PaymentSubmitted where
  "ref_paid = \<lparr>ps_settlement_id = ''st-1'', ps_buyer = ''12D3KooWTaker234'', ps_payment_reference = None,
     ps_timestamp = 4000\<rparr>"

definition ref_approval :: SettlementApproved where
  "ref_approval = \<lparr>sa_settlement_id = ''st-1'', sa_seller = ''12D3KooWMerchant'', sa_timestamp = 5000\<rparr>"

definition ref_cancelled :: SettlementCancelled where
  "ref_cancelled = \<lparr>sc_settlement_id = ''st-2'', sc_canceller = ''12D3KooWStranger'', sc_timestamp = 3650\<rparr>"

text \<open>
  C39. The seller's key of a settlement is the buyer's word. Whoever owns one identity can, with
  messages signed by that identity's key alone, initiate a settlement against any locked
  reservation in the name of any seller, declare payment, and approve it as that seller: the
  settlement ends approved with the chosen seller on record, and the reservation ends settled,
  never to return its liquidity.
\<close>

theorem seller_key_unchecked:
  assumes "res_get (node_run env xs empty_node) (si_reservation_id c) = Some r"
    "rv_state r = RS_EscrowLocked" "set_get (node_run env xs empty_node) (si_id c) = None"
    and keys: "peer_id_from_public_key env (si_buyer_public_key c) = Some (si_buyer c)"
      "si_seller_public_key c = si_buyer_public_key c"
    and own: "signed_by env ''openfiat/settlement/SettlementInitiate/v1'' (json_initiate c)
                (si_buyer_public_key c) sig1"
      "signed_by env ''openfiat/settlement/PaymentSubmitted/v1'' (json_payment_submitted p)
         (si_buyer_public_key c) sig2"
      "signed_by env ''openfiat/settlement/SettlementApproved/v1'' (json_approved a)
         (si_buyer_public_key c) sig3"
    and "ps_settlement_id p = si_id c" "ps_buyer p = si_buyer c"
    and "sa_settlement_id a = si_id c" "sa_seller a = si_seller c"
  shows "\<exists>st1 st2 st3 m r'. apply_initiate env t1 (c, sig1) (node_run env xs empty_node) = Inr st1
           \<and> apply_payment_submitted env (p, sig2) st1 = Inr st2
           \<and> apply_approved env t3 (a, sig3) st2 = Inr st3
           \<and> set_get st3 (si_id c) = Some m \<and> sm_state m = SS_Approved \<and> sm_seller m = si_seller c
           \<and> res_get st3 (si_reservation_id c) = Some r' \<and> rv_state r' = RS_Settled"
proof -
  let ?st = "node_run env xs empty_node"
  have rid: "rv_id r = si_reservation_id c"
    using node_invD(2) [OF node_reachable_inv] assms(1) by (rule res_inv_reservation)
  let ?r1 = "r\<lparr>rv_state := RS_Settling, rv_updated_at := t1\<rparr>"
  define st1 where "st1 = set_put (new_settlement c) (res_put ?r1 ?st)"
  have 1: "apply_initiate env t1 (c, sig1) ?st = Inr st1"
    using assms rid
    by (simp add: st1_def apply_initiate_def verify_initiate_def settlement_started_def res_transition_def)
  let ?m2 = "(new_settlement c)\<lparr>sm_state := SS_PaymentSubmitted,
      sm_payment_reference := ps_payment_reference p, sm_payment_submitted_at := Some (ps_timestamp p),
      sm_updated_at := ps_timestamp p\<rparr>"
  have 2: "apply_payment_submitted env (p, sig2) st1 = Inr (set_put ?m2 st1)"
    using own(2) assms(9,10) by (simp add: st1_def apply_payment_submitted_def new_settlement_def)
  let ?m3 = "?m2\<lparr>sm_state := SS_Approved, sm_merchant_responded_at := Some (sa_timestamp a),
      sm_updated_at := sa_timestamp a\<rparr>"
  let ?r3 = "?r1\<lparr>rv_state := RS_Settled, rv_updated_at := t3\<rparr>"
  have 3: "apply_approved env t3 (a, sig3) (set_put ?m2 st1)
      = Inr (set_put ?m3 (res_put ?r3 (set_put ?m2 st1)))"
    using own(3) keys(2) assms(11,12) rid
    by (simp add: st1_def apply_approved_def new_settlement_def settlement_completed_def res_transition_def)
  show ?thesis
    using 1 2 3 rid
    by (intro exI [of _ st1] exI [of _ "set_put ?m2 st1"]
        exI [of _ "set_put ?m3 (res_put ?r3 (set_put ?m2 st1))"] exI [of _ ?m3] exI [of _ ?r3])
       (simp add: st1_def new_settlement_def)
qed

theorem seller_key_unchecked_witness:
  "\<exists>st1 st2 st3 m r'.
      apply_initiate ref_wire 3500 (ref_signed_initiate ''st-1'' ''12D3KooWTaker234'' ''12D3KooWTaker234'')
        ref_locked = Inr st1
      \<and> apply_payment_submitted ref_wire (ref_paid, ref_signature
          ''openfiat/settlement/PaymentSubmitted/v1'' (json_payment_submitted ref_paid) ''12D3KooWTaker234'') st1 = Inr st2
      \<and> apply_approved ref_wire 5500 (ref_approval, ref_signature
          ''openfiat/settlement/SettlementApproved/v1'' (json_approved ref_approval) ''12D3KooWTaker234'') st2 = Inr st3
      \<and> set_get st3 ''st-1'' = Some m \<and> sm_state m = SS_Approved \<and> sm_seller m = ''12D3KooWMerchant''
      \<and> res_get st3 ''rv-1'' = Some r' \<and> rv_state r' = RS_Settled"
proof -
  let ?c = "ref_initiate ''st-1'' ''12D3KooWTaker234'' ''12D3KooWTaker234''"
  have "res_get (node_run ref_wire (take 2 ref_inputs) empty_node) (si_reservation_id ?c)
      = Some (new_reservation ref_request 1802000)"
    "set_get (node_run ref_wire (take 2 ref_inputs) empty_node) (si_id ?c) = None"
    unfolding ref_run by (simp_all add: ref_locked_get ref_initiate_def)
  from seller_key_unchecked [OF this(1) _ this(2),
      of "snd (ref_signed_initiate ''st-1'' ''12D3KooWTaker234'' ''12D3KooWTaker234'')" ref_paid
      "ref_signature ''openfiat/settlement/PaymentSubmitted/v1'' (json_payment_submitted ref_paid) ''12D3KooWTaker234''"
      ref_approval
      "ref_signature ''openfiat/settlement/SettlementApproved/v1'' (json_approved ref_approval) ''12D3KooWTaker234''"
      3500 5500]
  show ?thesis
    unfolding ref_run
    by (simp add: ref_signed_initiate_def ref_initiate_def ref_paid_def ref_approval_def new_reservation_def)
qed

text \<open>
  A settlement may name anyone's reservation. A stranger to a trade, holding one identity,
  initiates a second settlement that names the trade's reservation and cancels it: the
  reservation, settling under the first settlement, goes back to escrow-locked, while the first
  settlement stands as it was.
\<close>

theorem foreign_settlement_unlocks:
  assumes "res_get (node_run env xs empty_node) (si_reservation_id c) = Some r"
    "rv_state r = RS_Settling" "set_get (node_run env xs empty_node) (si_id c) = None"
    and victim: "set_get (node_run env xs empty_node) s = Some m"
    and key: "peer_id_from_public_key env (si_buyer_public_key c) = Some (si_buyer c)"
    and own: "signed_by env ''openfiat/settlement/SettlementInitiate/v1'' (json_initiate c)
                (si_buyer_public_key c) sig1"
      "signed_by env ''openfiat/settlement/SettlementCancelled/v1'' (json_cancelled x)
         (si_buyer_public_key c) sig2"
    and "sc_settlement_id x = si_id c" "sc_canceller x = si_buyer c"
  shows "\<exists>st1 st2 r'. apply_initiate env t1 (c, sig1) (node_run env xs empty_node) = Inr st1
           \<and> apply_cancelled env t2 (x, sig2) st1 = Inr st2
           \<and> res_get st2 (si_reservation_id c) = Some r' \<and> rv_state r' = RS_EscrowLocked
           \<and> set_get st2 s = Some m"
proof -
  let ?st = "node_run env xs empty_node"
  have rid: "rv_id r = si_reservation_id c"
    using node_invD(2) [OF node_reachable_inv] assms(1) by (rule res_inv_reservation)
  have other: "s \<noteq> si_id c" using assms(3) victim by auto
  define st1 where "st1 = set_put (new_settlement c) ?st"
  have 1: "apply_initiate env t1 (c, sig1) ?st = Inr st1"
    using assms
    by (simp add: st1_def apply_initiate_def verify_initiate_def settlement_started_def res_transition_def)
  let ?m2 = "(new_settlement c)\<lparr>sm_state := SS_Cancelled, sm_updated_at := sc_timestamp x\<rparr>"
  let ?r2 = "r\<lparr>rv_state := RS_EscrowLocked, rv_updated_at := t2\<rparr>"
  have 2: "apply_cancelled env t2 (x, sig2) st1 = Inr (set_put ?m2 (res_put ?r2 st1))"
    using own(2) assms(1,2,8,9)
    by (simp add: st1_def apply_cancelled_def new_settlement_def settlement_abandoned_def res_transition_def)
  show ?thesis
    using 1 2 rid other victim
    by (intro exI [of _ st1] exI [of _ "set_put ?m2 (res_put ?r2 st1)"] exI [of _ ?r2])
       (simp add: st1_def new_settlement_def)
qed

theorem foreign_settlement_unlocks_witness:
  "\<exists>st1 st2 r'.
      apply_initiate ref_wire 3600 (ref_signed_initiate ''st-2'' ''12D3KooWStranger'' ''12D3KooWStranger'')
        ref_settling = Inr st1
      \<and> apply_cancelled ref_wire 3700 (ref_cancelled, ref_signature
          ''openfiat/settlement/SettlementCancelled/v1'' (json_cancelled ref_cancelled) ''12D3KooWStranger'') st1 = Inr st2
      \<and> res_get st2 ''rv-1'' = Some r' \<and> rv_state r' = RS_EscrowLocked"
proof -
  let ?c = "ref_initiate ''st-2'' ''12D3KooWStranger'' ''12D3KooWStranger''"
  have "res_get (node_run ref_wire (take 3 ref_inputs) empty_node) (si_reservation_id ?c)
      = Some ((new_reservation ref_request 1802000)\<lparr>rv_state := RS_Settling, rv_updated_at := 3500\<rparr>)"
    "set_get (node_run ref_wire (take 3 ref_inputs) empty_node) (si_id ?c) = None"
    "set_get (node_run ref_wire (take 3 ref_inputs) empty_node) ''st-1''
      = Some (new_settlement (ref_initiate ''st-1'' ''12D3KooWTaker234'' ''12D3KooWMerchant''))"
    unfolding ref_run by (simp_all add: ref_settling_get ref_initiate_def)
  from foreign_settlement_unlocks [OF this(1) _ this(2,3),
      of "snd (ref_signed_initiate ''st-2'' ''12D3KooWStranger'' ''12D3KooWStranger'')" ref_cancelled
      "ref_signature ''openfiat/settlement/SettlementCancelled/v1'' (json_cancelled ref_cancelled) ''12D3KooWStranger''"
      3600 3700]
  show ?thesis
    unfolding ref_run by (auto simp: ref_signed_initiate_def ref_initiate_def ref_cancelled_def)
qed


section \<open>What an old signature can do\<close>

text \<open>
  A signed price never expires. The handler compares no timestamp: after a merchant's price \<open>old\<close>
  was replaced by another, whoever kept the message for \<open>old\<close> makes it the price again, with its
  old timestamp.
\<close>

theorem old_price_replays:
  assumes "ads_inv env st" and "apply_pricing_update env old st = Inr st1"
    and "apply_pricing_update env new st1 = Inr st2" and "apu_id (fst new) = apu_id (fst old)"
  shows "\<exists>st3 ad. apply_pricing_update env old st2 = Inr st3 \<and> ad_get st3 (apu_id (fst old)) = Some ad
           \<and> ad_pricing ad = apu_pricing (fst old) \<and> ad_updated_at ad = apu_timestamp (fst old)"
proof -
  obtain ad where ad: "ad_get st (apu_id (fst old)) = Some ad"
    using assms(2) by (auto simp: apply_pricing_update_def authorize_def Let_def)
  then have "ad_id ad = apu_id (fst old)" using ads_inv_entry [OF assms(1)] by blast
  then show ?thesis
    using assms(2-4) ad by (auto simp: apply_pricing_update_def authorize_def Let_def)
qed

end
