(* ===== verification/Spec2Isabelle.thy ===== *)
theory Spec2Isabelle
  imports Staking_Properties Escrow_Limits Governance_Properties Presale_Properties Protocol_Properties Node_Limits
begin

text \<open>
  A verification library for OpenFiat: the on-chain programs (\<open>src/programs\<close>), which hold the
  funds, and the registries of a node (\<open>src/crates\<close>) that record a trade off the chain.

  \<^bold>\<open>The programs.\<close> Four Anchor programs share one Solana chain. \<^emph>\<open>Staking\<close>
  (\<open>programs/staking\<close>) holds the OPEN tokens that merchants, arbitrators and node operators lock,
  with unbonding, slashing, rewards and the recovery of a merchant's dispute debt. \<^emph>\<open>Escrow\<close>
  (\<open>programs/escrow\<close>) holds merchants' liquidity and funded trades, and runs disputes: a deposit,
  commit and reveal votes by staked arbitrators chosen by sortition, up to three rounds, a verdict
  that moves the money, and rewards. \<^emph>\<open>Governance\<close> (\<open>programs/governance\<close>) runs stake-weighted votes
  on proposals with deposits, and keeps the ban list that all programs read. \<^emph>\<open>Presale\<close>
  (\<open>programs/presale\<close>) sells OPEN for USDC, directly, through a swap program or by delivery.
  They meet in accounts: escrow and governance read stake accounts, escrow reads staking's recovery
  receipts, staking reads escrow's recovery claims as raw bytes, and every entrance reads the ban
  record of its wallet.

  \<^bold>\<open>The node.\<close> Every node replicates signed records by gossip and applies each to its own
  registries: \<^emph>\<open>advertisements\<close> with their liquidity, \<^emph>\<open>reservations\<close> that hold part of it for half
  an hour, \<^emph>\<open>settlements\<close> that follow the fiat payment, \<^emph>\<open>disputes\<close> over them, and the index of
  \<^emph>\<open>payment methods\<close>. A settlement drives its reservation and a reservation its advertisement; a
  dispute freezes its settlement until the node sees the verdict of the chain confirmed.

  \<^bold>\<open>The model.\<close> \<open>Prelude\<close> has machine arithmetic (checked and saturating operations on words and
  on \<open>i64\<close>), the error plumbing and reachability. \<open>Solana\<close> has keys and program-derived addresses,
  token accounts, and the chain record each program extends with its own accounts
  (\<open>staking_chain\<close>, \<open>escrow_chain\<close>, \<open>governance_chain\<close>, \<open>presale_chain\<close>); every operation is
  polymorphic in the extension, so it is literally the same function on the joint chain. The
  token program, SHA-256, the bump search and the byte form of keys are the fields of the record
  \<open>env\<close>; the locale \<open>token_env\<close> states what the code relies on of a transfer, and \<open>ref_env\<close> is a
  concrete instance that discharges it. The swap program of a presale purchase is a function
  argument on the whole chain, so the model itself lets it do anything; the locale \<open>swap_env\<close>
  states what the presale relies on of the aggregator it trusts: the call changes token accounts
  only, and none the four programs sign for. The law is needed and is not checked on chain:
  \<open>self_swap_credits_twice\<close> shows what a sale that swaps through the presale itself allows.
  Instructions are total functions from a chain to an error or a chain: an account constraint, a
  \<open>require!\<close> or a checked operation of the source is a branch with the source's error. An
  instruction that fails changes nothing, as on the chain.

  \<^item> \<open>Shared_Types\<close>, \<open>Sortition\<close>: \<open>shared/src/lib.rs\<close> and \<open>sortition.rs\<close>.
  \<^item> \<open>Staking_State\<close>, \<open>Staking_Instructions\<close>: \<open>staking/src\<close> (\<open>state.rs\<close>, \<open>constants.rs\<close>,
    \<open>error.rs\<close>, \<open>events.rs\<close>, \<open>escrow_claim.rs\<close> and one definition per file of \<open>instructions/\<close>).
  \<^item> \<open>Escrow_State\<close>, \<open>Escrow_Fees\<close>, \<open>Escrow_Arbitration\<close>, \<open>Escrow_Vaults\<close>, \<open>Escrow_Trades\<close>,
    \<open>Escrow_Disputes\<close>: \<open>escrow/src\<close> (\<open>state.rs\<close>, \<open>arbitration.rs\<close>, \<open>shared_logic.rs\<close>, the
    vault, trade and dispute instructions). Executing a dispute threads a context record, as the
    code mutates its account context.
  \<^item> \<open>Governance_State\<close>, \<open>Governance_Instructions\<close>: \<open>governance/src\<close>.
  \<^item> \<open>Presale_State\<close>, \<open>Presale_Instructions\<close>: \<open>presale/src\<close>.
  \<^item> \<open>Staking_Invariants\<close>, \<open>Escrow_System\<close>, \<open>Governance_System\<close>, \<open>Presale_System\<close>: the dispatchers
    (\<open>lib.rs\<close>) and a step relation per program, in which instructions alternate with steps of the
    rest of the chain. The frame of such a step leaves the program's accounts alone and does not
    draw on tokens the program signs for; anything else may change. Clocks do not run backwards.
  \<^item> \<open>Protocol_Effects\<close>, \<open>Protocol\<close>: the four dispatchers on one chain. Each instruction of one
    program is within the frames of the others.
  \<^item> \<open>Node_Base\<close>: amounts (\<open>types\<close>), the in-memory store (\<open>storage\<close>), the preimages that are
    signed (\<open>serialization\<close>), and how a registry is a column of the store. Verification of
    signatures, the identity of a key, the canonical encoder and the decoder of payloads are the
    fields of \<open>node_env\<close> and of the records that extend it per crate; \<open>ref_node_env\<close> and
    \<open>ref_wire\<close> are concrete instances.
  \<^item> \<open>Float64\<close>, \<open>Pricing\<close>, \<open>Advertisements\<close>: \<open>advertisements\<close> (\<open>pricing.rs\<close>, \<open>store.rs\<close>,
    \<open>query.rs\<close>); \<open>Payment_Methods\<close>: \<open>taxonomy\<close>; \<open>Reservations\<close>: \<open>reservations\<close>; \<open>Settlements\<close>:
    \<open>settlement\<close>; \<open>Dispute_Records\<close>: \<open>disputes\<close>. Each registry's record extends the one it calls,
    so a registry's operation also acts on what stands below it.
  \<^item> \<open>Node_System\<close>: the inputs of a node (a gossip event for the four trading registries in the
    order \<open>rpc/src/state.rs\<close> attaches them, the sweep, a confirmed release or execution of
    \<open>rpc/src/actor.rs\<close>) and runs of them. An operation that returns an error changes nothing.

  \<^bold>\<open>What is shown.\<close>
  \<^item> Solvency and bookkeeping as invariants of the step relations (\<open>Staking_Invariants\<close>,
    \<open>Escrow_Invariants\<close> to \<open>Escrow_System\<close>, \<open>Governance_System\<close>, \<open>Presale_Invariants\<close>): the stake
    vault covers all positions, each liquidity vault its counters, each funded trade its amount,
    the arbitration pool all deposits and rewards, the deposit vault all unsettled deposits, and a
    sale's total is the sum of its contributions. The locale \<open>invariant_system\<close> is interpreted
    once per program.
  \<^item> The exact effect of instructions that move money: release, verdict, slash, recovery, reward,
    opening of a case, presale purchase and claim (\<open>Staking_Properties\<close>, \<open>Escrow_Properties\<close>,
    \<open>Dispute_Properties\<close>, \<open>Arbitration_Properties\<close>, \<open>Presale_Properties\<close>).
  \<^item> Life cycles over whole runs: trades, cases (at most three executions), proposals, sales.
  \<^item> Who can do what: which steps lower a position, a vault, or move a ban (\<open>Escrow_Access\<close>,
    \<open>Governance_Properties\<close>), and that bans close entrances and never exits.
  \<^item> Equivalences: the dispute tally with strict plurality, the governance tally with the exact
    ratio, the sortition threshold with its doubling schedule.
  \<^item> Across programs (\<open>Recovery_Relay\<close>, \<open>Protocol_Properties\<close>): the joint system refines each
    program; credited \<open>\<le>\<close> recovered \<open>\<le>\<close> owed along the recovery relay; a merchant who
    leaves has paid; staking reads back the bytes escrow wrote; a wallet listed by governance is
    refused everywhere; every account sits at the address it names.
    \<open>Account_Keys\<close> adds the bumps and keys no other invariant needs.
  \<^item> The node (\<open>Node_Properties\<close>, with the concrete trade of \<open>Reference_Trade\<close>): an
    advertisement's liquidity is conserved, no reservation without a settlement outlives
    thirty-five minutes, settlements follow their state machine, exactly the trades under
    arbitration are frozen, and an event delivered twice counts once. \<open>Payment_Methods\<close> shows that
    replicas of the index converge, \<open>Advertisements\<close> that paging reads the order book exactly.
  \<^item> Limits (\<open>Escrow_Limits\<close>, \<open>Node_Limits\<close>, the last sections of \<open>Staking_Properties\<close> and \<open>Presale_Properties\<close>):
    behaviour that differs from what the comments promise, up to the presale vault that anyone can
    drain.

  Concrete runs (\<open>Escrow_History\<close>, \<open>Governance_History\<close>, \<open>Protocol_History\<close> and sections of the
  property theories) evaluate the definitions step by step and give the witnesses.

  \<^bold>\<open>Bounds.\<close> Every loop of the modelled code runs over a list or a fixed array and is total, and
  the three-round bound of a dispute is proved from the code's own counter. The one fuel is that of
  \<open>read_pages\<close>, a client that follows the cursor of the order book: one more than the number of
  rows is proved enough. A panic of the node is an error value of its own (\<open>NodePanic\<close>). Words have the
  width of the source (\<open>u8\<close> to \<open>u128\<close>); \<open>i64\<close> values are integers with the range check where the
  code checks.

  \<^bold>\<open>Not modelled.\<close> Rent, fees and compute limits; logs other than Anchor events; the two staking
  and one escrow migration instructions, which rewrite raw bytes of an earlier layout;
  \<open>mock-jupiter\<close>, a test double; program upgrades. Anchor refuses a call that names one writable
  account twice; the model does not, so it admits more calls than the chain: what holds of all its
  calls holds of the chain's, and a statement that a call succeeds assumes the accounts distinct.
  Token extensions such as transfer fees are outside the assumption on transfers: a transfer moves
  exactly its amount. Of the node, the gossip transport, the JSON-RPC methods, the exchange of
  missed records, persistence beyond the in-memory store, the wire codec and the remaining crates
  (identity, reputation, rewards, the slashing relay, the trade channel and others) are left out.
\<close>

end
